(* ===== verification/Prelude.thy ===== *)
theory Prelude
  imports Main "HOL-Library.Word" "HOL-Library.AList" "HOL-Library.Sublist"
    "HOL-Library.Multiset"
begin

text \<open>
  What every theory of the development shares: the model of Rust strings and of the
  \<open>str\<close> methods the program calls, the hash map of the standard library as an
  association list with distinct keys (the list order is the unspecified iteration
  order), the result of polling a future, and the lemma collections.

  A Rust \<open>str\<close> is its UTF-8 byte sequence: a \<^typ>\<open>string\<close>, one \<^typ>\<open>char\<close> per byte,
  so that \<^term>\<open>length\<close> is Rust's \<open>len\<close>.
\<close>

section \<open>Collections\<close>

named_theorems str_simps \<open>equations of the string operations\<close>
named_theorems inv_intros \<open>operations that keep a component's invariant\<close>
named_theorems hdr_simps \<open>laws of the header map operations\<close>

section \<open>Base types\<close>

type_synonym u8 = "8 word"
type_synonym u16 = "16 word"
type_synonym u32 = "32 word"
type_synonym u64 = "64 word"

text \<open>Polling a future: \<open>std::task::Poll\<close>.\<close>

datatype 'a poll = Pending | Ready 'a

text \<open>
  What the caller of one poll sees; \<open>Panicked\<close> is a failed \<open>expect\<close> or \<open>assert!\<close>, or an
  \<open>unreachable!\<close> that was reached.
\<close>

datatype 'r outcome = Yield | Done 'r | Panicked

section \<open>Results\<close>

text \<open>
  \<open>Result\<close> is a sum with the error on the left; \<open>and_then\<close> is the \<open>?\<close> operator, and
  \<open>collect_results\<close> collects an iterator of results, stopping at the first error.
\<close>

definition and_then :: "'e + 'a \<Rightarrow> ('a \<Rightarrow> 'e + 'b) \<Rightarrow> 'e + 'b" where
  "and_then r f = (case r of Inl e \<Rightarrow> Inl e | Inr a \<Rightarrow> f a)"

definition ok_or :: "'e \<Rightarrow> 'a option \<Rightarrow> 'e + 'a" where
  "ok_or e x = (case x of None \<Rightarrow> Inl e | Some a \<Rightarrow> Inr a)"

fun collect_results :: "('e + 'a) list \<Rightarrow> 'e + 'a list" where
  "collect_results [] = Inr []"
| "collect_results (r # rs) = and_then r (\<lambda>a. and_then (collect_results rs) (\<lambda>as. Inr (a # as)))"

text \<open>\<open>Option::or\<close>.\<close>

definition or_else :: "'a option \<Rightarrow> 'a option \<Rightarrow> 'a option" where
  "or_else a b = (case a of Some x \<Rightarrow> Some x | None \<Rightarrow> b)"

lemma and_then_simps [simp]: "and_then (Inl e) f = Inl e" "and_then (Inr a) f = f a"
  by (simp_all add: and_then_def)

lemma and_then_Inr_iff: "and_then r f = Inr b \<longleftrightarrow> (\<exists>a. r = Inr a \<and> f a = Inr b)"
  by (cases r) auto

lemma and_then_Inl_iff: "and_then r f = Inl e \<longleftrightarrow> r = Inl e \<or> (\<exists>a. r = Inr a \<and> f a = Inl e)"
  by (cases r) auto

lemma ok_or_simps [simp]: "ok_or e None = Inl e" "ok_or e (Some a) = Inr a"
  by (simp_all add: ok_or_def)

lemma ok_or_Inr_iff: "ok_or e x = Inr a \<longleftrightarrow> x = Some a"
  by (cases x) auto

lemma collect_results_Inr_iff: "collect_results rs = Inr as \<longleftrightarrow> rs = map Inr as"
  by (induction rs arbitrary: as) (auto simp: and_then_Inr_iff)

lemmas result_iffs = and_then_Inr_iff and_then_Inl_iff ok_or_Inr_iff collect_results_Inr_iff

section \<open>ASCII case and string operations\<close>

definition ascii_lower :: "char \<Rightarrow> char" where
  "ascii_lower c =
     (let n = (of_char c :: nat) in if 65 \<le> n \<and> n \<le> 90 then char_of (n + 32) else c)"

definition eq_ignore_ascii_case :: "string \<Rightarrow> string \<Rightarrow> bool" where
  "eq_ignore_ascii_case a b \<longleftrightarrow> map ascii_lower a = map ascii_lower b"

lemma eq_ignore_ascii_case_refl [simp]: "eq_ignore_ascii_case a a"
  by (simp add: eq_ignore_ascii_case_def)

lemma eq_ignore_ascii_case_sym: "eq_ignore_ascii_case a b = eq_ignore_ascii_case b a"
  by (auto simp: eq_ignore_ascii_case_def)

lemma eq_ignore_ascii_case_trans:
  "eq_ignore_ascii_case a b \<Longrightarrow> eq_ignore_ascii_case b c \<Longrightarrow> eq_ignore_ascii_case a c"
  by (simp add: eq_ignore_ascii_case_def)

lemma eq_ignore_ascii_case_length: "eq_ignore_ascii_case a b \<Longrightarrow> length a = length b"
  by (metis eq_ignore_ascii_case_def length_map)

text \<open>\<open>str::strip_prefix\<close> and \<open>str::strip_suffix\<close>.\<close>

definition strip_prefix :: "string \<Rightarrow> string \<Rightarrow> string option" where
  "strip_prefix p s = (if prefix p s then Some (drop (length p) s) else None)"

definition strip_suffix :: "string \<Rightarrow> string \<Rightarrow> string option" where
  "strip_suffix p s = (if suffix p s then Some (take (length s - length p) s) else None)"

lemma strip_prefix_Some [str_simps]: "strip_prefix p s = Some r \<longleftrightarrow> s = p @ r"
  by (auto simp: strip_prefix_def prefix_def)

lemma strip_suffix_Some [str_simps]: "strip_suffix p s = Some r \<longleftrightarrow> s = r @ p"
  by (auto simp: strip_suffix_def suffix_def)

lemma strip_prefix_append [simp]: "strip_prefix p (p @ r) = Some r"
  by (simp add: str_simps)

text \<open>\<open>split_once(c)\<close>, \<open>rsplit_once(c)\<close> and \<open>split(c)\<close> for a one-byte separator.\<close>

fun split_once :: "char \<Rightarrow> string \<Rightarrow> (string \<times> string) option" where
  "split_once c [] = None"
| "split_once c (x # xs) =
     (if x = c then Some ([], xs) else map_option (apfst ((#) x)) (split_once c xs))"

definition rsplit_once :: "char \<Rightarrow> string \<Rightarrow> (string \<times> string) option" where
  "rsplit_once c s = map_option (\<lambda>(a, b). (rev b, rev a)) (split_once c (rev s))"

fun split_on :: "char \<Rightarrow> string \<Rightarrow> string list" where
  "split_on c [] = [[]]"
| "split_on c (x # xs) =
     (if x = c then [] # split_on c xs
      else (case split_on c xs of [] \<Rightarrow> [[x]] | w # ws \<Rightarrow> (x # w) # ws))"

lemma split_once_None [str_simps]: "split_once c s = None \<longleftrightarrow> c \<notin> set s"
  by (induction s) auto

lemma split_once_Some [str_simps]:
  "split_once c s = Some (a, b) \<longleftrightarrow> s = a @ c # b \<and> c \<notin> set a"
proof (induction s arbitrary: a)
  case Nil
  then show ?case by simp
next
  case (Cons x s)
  show ?case
  proof (cases "x = c")
    case True
    then show ?thesis by (cases a) auto
  next
    case False
    show ?thesis
    proof (cases a)
      case Nil
      with False show ?thesis by (auto simp: apfst_def map_prod_def split: prod.splits)
    next
      case (Cons y ys)
      with False Cons.IH [of ys] show ?thesis by (cases "split_once c s") auto
    qed
  qed
qed

lemma rsplit_once_None [str_simps]: "rsplit_once c s = None \<longleftrightarrow> c \<notin> set s"
  by (simp add: rsplit_once_def str_simps)

lemma rsplit_once_Some [str_simps]:
  "rsplit_once c s = Some (a, b) \<longleftrightarrow> s = a @ c # b \<and> c \<notin> set b"
proof -
  have "rsplit_once c s = Some (a, b) \<longleftrightarrow> split_once c (rev s) = Some (rev b, rev a)"
    by (auto simp: rsplit_once_def)
  also have "\<dots> \<longleftrightarrow> rev s = rev b @ c # rev a \<and> c \<notin> set b"
    by (simp add: str_simps)
  also have "rev s = rev b @ c # rev a \<longleftrightarrow> s = a @ c # b"
    by (metis append.assoc append_Cons append_Nil rev_append rev_rev_ident rev.simps(2))
  finally show ?thesis .
qed

lemma split_on_not_Nil [simp]: "split_on c s \<noteq> []"
  by (induction s) (auto split: list.splits)

lemma split_on_no_sep: "w \<in> set (split_on c s) \<Longrightarrow> c \<notin> set w"
  by (induction s arbitrary: w) (auto split: list.splits if_splits)

text \<open>\<open>str::trim\<close> on ASCII text.\<close>

definition is_ascii_ws :: "char \<Rightarrow> bool" where
  "is_ascii_ws c \<longleftrightarrow> (let n = (of_char c :: nat) in n = 32 \<or> (9 \<le> n \<and> n \<le> 13))"

definition trim :: "string \<Rightarrow> string" where
  "trim s = rev (dropWhile is_ascii_ws (rev (dropWhile is_ascii_ws s)))"

text \<open>\<open>str::rfind\<close> of a byte: the position of its last occurrence.\<close>

definition rfind :: "char \<Rightarrow> string \<Rightarrow> nat option" where
  "rfind c s = map_option (\<lambda>(a, b). length a) (rsplit_once c s)"

text \<open>\<open>Display\<close> of an unsigned integer.\<close>

fun decimal :: "nat \<Rightarrow> string" where
  "decimal n = (if n < 10 then [char_of (48 + n)] else decimal (n div 10) @ [char_of (48 + n mod 10)])"

declare decimal.simps [simp del]

text \<open>\<open>std::str::from_utf8\<close>: well-formed UTF-8 byte sequences.\<close>

definition byte_in :: "nat \<Rightarrow> nat \<Rightarrow> char \<Rightarrow> bool" where
  "byte_in lo hi c \<longleftrightarrow> (let n = of_char c in lo \<le> n \<and> n \<le> hi)"

fun valid_utf8 :: "string \<Rightarrow> bool" where
  "valid_utf8 [] = True"
| "valid_utf8 (c # cs) =
     (if byte_in 0 0x7F c then valid_utf8 cs
      else (case cs of
        [] \<Rightarrow> False
      | c1 # cs1 \<Rightarrow>
          if byte_in 0xC2 0xDF c then byte_in 0x80 0xBF c1 \<and> valid_utf8 cs1
          else (case cs1 of
            [] \<Rightarrow> False
          | c2 # cs2 \<Rightarrow>
              if byte_in 0xE0 0xEF c then
                byte_in (if byte_in 0xE0 0xE0 c then 0xA0 else 0x80)
                  (if byte_in 0xED 0xED c then 0x9F else 0xBF) c1 \<and>
                byte_in 0x80 0xBF c2 \<and> valid_utf8 cs2
              else (case cs2 of
                [] \<Rightarrow> False
              | c3 # cs3 \<Rightarrow>
                  byte_in 0xF0 0xF4 c \<and>
                  byte_in (if byte_in 0xF0 0xF0 c then 0x90 else 0x80)
                    (if byte_in 0xF4 0xF4 c then 0x8F else 0xBF) c1 \<and>
                  byte_in 0x80 0xBF c2 \<and> byte_in 0x80 0xBF c3 \<and> valid_utf8 cs3))))"

lemma valid_utf8_ascii: "(\<And>c. c \<in> set s \<Longrightarrow> of_char c < (128 :: nat)) \<Longrightarrow> valid_utf8 s"
proof (induction s)
  case (Cons c s)
  then have "byte_in 0 0x7F c"
    by (force simp: byte_in_def)
  with Cons show ?case by simp
qed simp

declare valid_utf8.simps(2) [simp del]

section \<open>Hash maps\<close>

text \<open>
  \<open>std::collections::HashMap\<close>: an association list; \<^term>\<open>map_of\<close> is \<open>get\<close>,
  \<^term>\<open>AList.update\<close> is \<open>insert\<close> and \<^term>\<open>AList.delete\<close> is \<open>remove\<close>. The order of
  the list is the iteration order, which the standard library does not specify.
\<close>

type_synonym ('k, 'v) hmap = "('k \<times> 'v) list"

abbreviation hm_ok :: "('k, 'v) hmap \<Rightarrow> bool" where
  "hm_ok m \<equiv> distinct (map fst m)"

lemmas hm_simps = update_conv' delete_conv' distinct_update distinct_delete

lemma hm_ok_update [inv_intros]: "hm_ok m \<Longrightarrow> hm_ok (AList.update k v m)"
  by (rule distinct_update)

lemma hm_ok_delete [inv_intros]: "hm_ok m \<Longrightarrow> hm_ok (AList.delete k m)"
  by (rule distinct_delete)

lemma map_of_update [simp]:
  "map_of (AList.update k v m) k' = (if k' = k then Some v else map_of m k')"
  by (simp add: update_conv')

lemma map_of_delete [simp]:
  "map_of (AList.delete k m) k' = (if k' = k then None else map_of m k')"
  by (simp add: delete_conv')

lemma hm_in_iff: "hm_ok m \<Longrightarrow> (k, v) \<in> set m \<longleftrightarrow> map_of m k = Some v"
  by (auto dest: map_of_SomeD)

lemma hm_in_update:
  assumes "hm_ok m"
  shows "(k', v') \<in> set (AList.update k v m) \<longleftrightarrow>
    (if k' = k then v' = v else (k', v') \<in> set m)"
proof -
  have ok: "hm_ok (AList.update k v m)"
    using assms by (rule distinct_update)
  show ?thesis
    by (simp add: hm_in_iff [OF ok] hm_in_iff [OF assms]) auto
qed

lemma hm_in_delete:
  "(k', v') \<in> set (AList.delete k m) \<longleftrightarrow> k' \<noteq> k \<and> (k', v') \<in> set m"
  by (auto simp: AList.delete_eq)

text \<open>A property of every entry of a map.\<close>

definition hm_all :: "('k \<Rightarrow> 'v \<Rightarrow> bool) \<Rightarrow> ('k, 'v) hmap \<Rightarrow> bool" where
  "hm_all P m \<longleftrightarrow> (\<forall>(k, v) \<in> set m. P k v)"

lemma hm_all_Nil [simp]: "hm_all P []"
  by (simp add: hm_all_def)

lemma hm_allD: "hm_all P m \<Longrightarrow> map_of m k = Some v \<Longrightarrow> P k v"
  by (auto simp: hm_all_def dest: map_of_SomeD)

lemma hm_all_update [simp, intro]:
  "hm_ok m \<Longrightarrow> hm_all P m \<Longrightarrow> P k v \<Longrightarrow> hm_all P (AList.update k v m)"
  by (auto simp: hm_all_def hm_in_update split: if_splits)

lemma hm_all_delete [simp, intro]: "hm_all P m \<Longrightarrow> hm_all P (AList.delete k m)"
  by (auto simp: hm_all_def hm_in_delete)

lemma hm_empty_iff: "m = [] \<longleftrightarrow> (\<forall>k. map_of m k = None)"
  by (cases m) (auto simp: fun_upd_def split: if_splits)

lemma snd_image_iff: "v \<in> snd ` A \<longleftrightarrow> (\<exists>k. (k, v) \<in> A)"
  by force

text \<open>Flattening a hash map: the pieces of different keys do not overlap.\<close>

lemma distinct_concat_map_keys:
  assumes "hm_ok m"
    and "\<And>k v. (k, v) \<in> set m \<Longrightarrow> distinct (f k v) \<and> (\<forall>x \<in> set (f k v). key x = k)"
  shows "distinct (concat (map (\<lambda>(k, v). f k v) m))"
  using assms
proof (induction m)
  case Nil
  then show ?case by simp
next
  case (Cons kv m)
  obtain k v where kv: "kv = (k, v)" by (cases kv)
  have "key x \<noteq> k" if "x \<in> set (concat (map (\<lambda>(k, v). f k v) m))" for x
  proof -
    from that obtain k' v' where "(k', v') \<in> set m" and "x \<in> set (f k' v')"
      by auto
    then have "key x = k'" and "k' \<in> fst ` set m"
      using Cons.prems(2) [of k' v'] by (auto simp: rev_image_eqI)
    then show ?thesis
      using Cons.prems(1) kv by auto
  qed
  moreover have "distinct (concat (map (\<lambda>(k, v). f k v) m))"
    using Cons by auto
  ultimately show ?case
    using Cons.prems(2) [of k v] kv by auto
qed

lemma distinct_map_snd_keys:
  assumes "hm_ok m" and "\<And>k v. (k, v) \<in> set m \<Longrightarrow> g v = k"
  shows "distinct (map snd m)"
proof -
  have "inj_on snd (set m)"
  proof (rule inj_onI)
    fix x y
    assume xy: "x \<in> set m" "y \<in> set m" "snd x = snd y"
    have "fst x = g (snd x)" and "fst y = g (snd y)"
      using xy assms(2) by (metis prod.collapse)+
    with xy show "x = y"
      by (simp add: prod_eq_iff)
  qed
  moreover have "distinct m"
    using assms(1) by (simp add: distinct_map)
  ultimately show ?thesis
    by (simp add: distinct_map)
qed

text \<open>\<open>join\<close> of a slice of strings.\<close>

fun join_with :: "string \<Rightarrow> string list \<Rightarrow> string" where
  "join_with sep [] = []"
| "join_with sep [x] = x"
| "join_with sep (x # y # xs) = x @ sep @ join_with sep (y # xs)"

end
