(* ===== verification/Request_Config.thy ===== *)
theory Request_Config
  imports Prelude
begin

text \<open>
  Request-scoped configuration (\<open>src/src/config.rs\<close>). A \<open>RequestConfig<T>\<close> wraps an
  optional value; the entry of that type in a request's \<open>http::Extensions\<close> is a slot that
  may be absent, or hold a \<open>RequestConfig\<close> that is itself empty.
\<close>

type_synonym 'v rconfig = "'v option"
type_synonym 'v slot = "'v rconfig option"

definition rc_default :: "'v rconfig" where
  "rc_default = None"

text \<open>\<open>fetch\<close>: the request's value, else the client's.\<close>

definition rc_fetch :: "'v rconfig \<Rightarrow> 'v slot \<Rightarrow> 'v option" where
  "rc_fetch self ext = (case Option.bind ext (\<lambda>c. c) of Some v \<Rightarrow> Some v | None \<Rightarrow> self)"

definition rc_get :: "'v slot \<Rightarrow> 'v option" where
  "rc_get ext = Option.bind ext (\<lambda>c. c)"

text \<open>\<open>remove\<close>, \<open>load\<close> and \<open>take\<close> take the entry out of the extensions.\<close>

definition rc_remove :: "'v slot \<Rightarrow> 'v option \<times> 'v slot" where
  "rc_remove ext = (Option.bind ext (\<lambda>c. c), None)"

definition rc_load :: "'v rconfig \<Rightarrow> 'v slot \<Rightarrow> 'v rconfig \<times> 'v slot" where
  "rc_load self ext =
     (case rc_remove ext of (Some v, ext') \<Rightarrow> (Some v, ext') | (None, ext') \<Rightarrow> (self, ext'))"

definition rc_take :: "'v rconfig \<Rightarrow> 'v slot \<Rightarrow> 'v option \<times> 'v slot" where
  "rc_take self ext = (case ext of Some c \<Rightarrow> (c, None) | None \<Rightarrow> (self, None))"

text \<open>\<open>get_mut\<close>: the entry the returned reference points to, created when absent; writing
  through the reference replaces it.\<close>

definition rc_get_mut :: "'v slot \<Rightarrow> 'v slot" where
  "rc_get_mut ext = (case ext of Some c \<Rightarrow> Some c | None \<Rightarrow> Some rc_default)"

definition rc_set :: "'v slot \<Rightarrow> 'v option \<Rightarrow> 'v slot" where
  "rc_set ext v = (case rc_get_mut ext of Some _ \<Rightarrow> Some v | None \<Rightarrow> None)"

lemma rc_set_eq [simp]: "rc_set ext v = Some v"
  by (simp add: rc_set_def rc_get_mut_def rc_default_def split: option.splits)

lemma rc_load_fst: "fst (rc_load self ext) = rc_fetch self ext"
  by (simp add: rc_load_def rc_remove_def rc_fetch_def split: option.splits)

lemma rc_load_snd [simp]: "snd (rc_load self ext) = None"
  by (simp add: rc_load_def rc_remove_def split: option.splits)

lemma rc_fetch_Some: "self \<noteq> None \<Longrightarrow> rc_fetch self ext \<noteq> None"
  by (auto simp: rc_fetch_def split: option.splits)

lemma rc_take_fetch: "ext \<noteq> Some None \<Longrightarrow> fst (rc_take self ext) = rc_fetch self ext"
  by (auto simp: rc_take_def rc_fetch_def split: option.splits)

text \<open>A value set on a request overrides the client's for every way of reading it,
  and consuming it leaves nothing behind for the next reader: after \<open>load\<close> the same
  request no longer overrides anything, while the loaded value has become the receiver's.\<close>

lemma request_value_precedence:
  "let ext = rc_set old (Some v) in
     rc_fetch self ext = Some v \<and> rc_get ext = Some v \<and> rc_take self ext = (Some v, None) \<and>
     (case rc_load self ext of (self', ext') \<Rightarrow>
        self' = Some v \<and> rc_get ext' = None \<and> rc_fetch self' ext' = Some v \<and>
        rc_fetch other ext' = other)"
  by (simp add: rc_fetch_def rc_get_def rc_take_def rc_load_def rc_remove_def)

end
