(* ===== verification/Uri_Ext.thy ===== *)
theory Uri_Ext
  imports Prelude
begin

text \<open>
  Request targets (\<open>src/src/ext.rs\<close>, \<open>src/src/into_uri.rs\<close>). \<open>http::Uri\<close> and \<open>url::Url\<close> are
  third-party types: a URI is the record of what its accessors return, and parsing,
  building and percent-encoding are fields of a record of library operations that the
  definitions take as an argument.
\<close>

datatype url_scheme = HTTP | HTTPS | OtherScheme string

record uri =
  scheme :: "url_scheme option"
  authority :: "string option"
  host :: "string option"
  port :: "u16 option"
  path :: string
  query :: "string option"

text \<open>\<open>http::Version\<close>.\<close>

datatype http_version = HTTP_09 | HTTP_10 | HTTP_11 | HTTP_2 | HTTP_3

text \<open>\<open>http::uri::Parts\<close> and the library operations on URIs.\<close>

record uri_parts =
  p_scheme :: "url_scheme option"
  p_authority :: "string option"
  p_path_and_query :: "string option"

record uri_lib =
  lib_uri_parse :: "string \<Rightarrow> uri option"
  lib_url_parse :: "string \<Rightarrow> string option"
  lib_into_parts :: "uri \<Rightarrow> uri_parts"
  lib_from_parts :: "uri_parts \<Rightarrow> uri option"
  lib_authority :: "string \<Rightarrow> string option"
  lib_path_and_query :: "string \<Rightarrow> string option"
  lib_controls :: "char \<Rightarrow> bool"
  lib_percent_encode :: "(char \<Rightarrow> bool) \<Rightarrow> string \<Rightarrow> string"

section \<open>Character sets\<close>

definition FRAGMENT :: "(char \<Rightarrow> bool) \<Rightarrow> char \<Rightarrow> bool" where
  "FRAGMENT controls c \<longleftrightarrow> controls c \<or> c \<in> set '' \"<>`''"

definition PATH :: "(char \<Rightarrow> bool) \<Rightarrow> char \<Rightarrow> bool" where
  "PATH controls c \<longleftrightarrow> FRAGMENT controls c \<or> c \<in> set ''#?{}''"

definition USERINFO :: "(char \<Rightarrow> bool) \<Rightarrow> char \<Rightarrow> bool" where
  "USERINFO controls c \<longleftrightarrow> PATH controls c \<or> c \<in> set ''/:;=@[]^|'' \<or> c = CHR 0x5C"

section \<open>Accessors and setters\<close>

definition is_http :: "uri \<Rightarrow> bool" where
  "is_http u \<longleftrightarrow> scheme u = Some HTTP"

definition is_https :: "uri \<Rightarrow> bool" where
  "is_https u \<longleftrightarrow> scheme u = Some HTTPS"

definition port_or_default :: "uri \<Rightarrow> u16" where
  "port_or_default u = (case port u of Some p \<Rightarrow> p | None \<Rightarrow> if is_https u then 443 else 80)"

definition set_query :: "uri_lib \<Rightarrow> uri \<Rightarrow> string \<Rightarrow> uri" where
  "set_query L u q =
     (if q = '''' then u
      else (case lib_path_and_query L (path u @ ''?'' @ q) of
              None \<Rightarrow> u
            | Some pq \<Rightarrow>
                (case lib_from_parts L ((lib_into_parts L u)\<lparr>p_path_and_query := Some pq\<rparr>) of
                   None \<Rightarrow> u
                 | Some u' \<Rightarrow> u')))"

definition userinfo :: "uri \<Rightarrow> string option \<times> string option" where
  "userinfo u =
     (case Option.bind (authority u) (rsplit_once CHR ''@'') of
        None \<Rightarrow> (None, None)
      | Some (info, _) \<Rightarrow>
          (case split_once CHR '':'' info of
             Some (n, p) \<Rightarrow> (if n = '''' then None else Some n, if p = '''' then None else Some p)
           | None \<Rightarrow> (Some info, None)))"

definition host_and_port :: "string \<Rightarrow> string" where
  "host_and_port auth = (case rsplit_once CHR ''@'' auth of Some (_, h) \<Rightarrow> h | None \<Rightarrow> auth)"

definition userinfo_authority :: "uri_lib \<Rightarrow> string \<Rightarrow> string \<Rightarrow> string option \<Rightarrow> string" where
  "userinfo_authority L auth username password =
     (let hp = host_and_port auth;
          enc = lib_percent_encode L (USERINFO (lib_controls L))
      in (case (username = '''', password) of
            (True, None) \<Rightarrow> hp
          | (True, Some p) \<Rightarrow> '':'' @ enc p @ ''@'' @ hp
          | (False, Some p) \<Rightarrow> enc username @ '':'' @ enc p @ ''@'' @ hp
          | (False, None) \<Rightarrow> enc username @ ''@'' @ hp))"

definition set_userinfo :: "uri_lib \<Rightarrow> uri \<Rightarrow> string \<Rightarrow> string option \<Rightarrow> uri" where
  "set_userinfo L u username password =
     (case authority u of
        None \<Rightarrow> u
      | Some auth \<Rightarrow>
          (case lib_authority L (userinfo_authority L auth username password) of
             None \<Rightarrow> u
           | Some a \<Rightarrow>
               (case lib_from_parts L ((lib_into_parts L u)\<lparr>p_authority := Some a\<rparr>) of
                  None \<Rightarrow> u
                | Some u' \<Rightarrow> u')))"

section \<open>Conversion into a request URI\<close>

datatype uri_error = UriBadScheme uri | UriBuilder

definition check_uri :: "uri \<Rightarrow> uri_error + uri" where
  "check_uri u =
     (case (scheme u, authority u) of
        (Some _, Some _) \<Rightarrow> Inr u
      | _ \<Rightarrow> Inl (UriBadScheme u))"

definition parse_url :: "uri_lib \<Rightarrow> string \<Rightarrow> uri_error + uri" where
  "parse_url L s =
     (case lib_url_parse L s of
        None \<Rightarrow> Inl UriBuilder
      | Some s' \<Rightarrow> (case lib_uri_parse L s' of None \<Rightarrow> Inl UriBuilder | Some u \<Rightarrow> Inr u))"

definition into_uri :: "uri_lib \<Rightarrow> string \<Rightarrow> uri_error + uri" where
  "into_uri L s =
     (case (case lib_uri_parse L s of Some u \<Rightarrow> Inr u | None \<Rightarrow> parse_url L s) of
        Inl e \<Rightarrow> Inl e
      | Inr u \<Rightarrow> check_uri u)"

section \<open>Lemmas\<close>

lemma is_http_not_https: "is_http u \<Longrightarrow> \<not> is_https u"
  by (simp add: is_http_def is_https_def)

lemma into_uri_absolute:
  "into_uri L s = Inr u \<Longrightarrow> scheme u \<noteq> None \<and> authority u \<noteq> None"
  by (auto simp: into_uri_def check_uri_def split: option.splits sum.splits)

text \<open>
  What the setters rely on: a URI rebuilt from parts has those parts, an accepted
  authority is kept as written, and percent-encoding with a set that holds neither the
  percent sign nor a hexadecimal digit leaves no byte of the set in its output.
\<close>

definition uri_lib_laws :: "uri_lib \<Rightarrow> bool" where
  "uri_lib_laws L \<longleftrightarrow>
     (\<forall>p u. lib_from_parts L p = Some u \<longrightarrow> authority u = p_authority p \<and> scheme u = p_scheme p) \<and>
     (\<forall>s a. lib_authority L s = Some a \<longrightarrow> a = s) \<and>
     (\<forall>u. p_scheme (lib_into_parts L u) = scheme u) \<and>
     (\<forall>S s. (\<forall>c \<in> set ''%0123456789ABCDEF''. \<not> S c) \<longrightarrow>
            (\<forall>c \<in> set (lib_percent_encode L S s). \<not> S c))"

end
