(* ===== verification/Header_Map.thy ===== *)
theory Header_Map
  imports Prelude
begin

text \<open>
  Header maps and the helpers of \<open>src/src/util.rs\<close>. \<open>http::HeaderMap\<close> is a third-party type:
  its operations are the fields of a record that every definition using headers takes
  as an argument, and \<open>header_laws\<close> states what its documentation promises. A name is
  in canonical lower case; a map is observed through its groups, one per name, each with
  the values of the name in order.
\<close>

record hvalue =
  hv_bytes :: string
  hv_sensitive :: bool

record 'h header_ops =
  h_groups :: "'h \<Rightarrow> (string \<times> hvalue list) list"
  h_new :: 'h
  h_insert :: "'h \<Rightarrow> string \<Rightarrow> hvalue \<Rightarrow> 'h"
  h_append :: "'h \<Rightarrow> string \<Rightarrow> hvalue \<Rightarrow> 'h"
  h_remove :: "'h \<Rightarrow> string \<Rightarrow> 'h"

definition plain :: "string \<Rightarrow> hvalue" where
  "plain s = \<lparr>hv_bytes = s, hv_sensitive = False\<rparr>"

text \<open>\<open>get_all\<close>, \<open>get\<close>, \<open>contains_key\<close>, \<open>entry(n).or_insert(v)\<close> and the iterators.\<close>

definition h_get_all :: "'h header_ops \<Rightarrow> 'h \<Rightarrow> string \<Rightarrow> hvalue list" where
  "h_get_all H m n = (case map_of (h_groups H m) n of None \<Rightarrow> [] | Some vs \<Rightarrow> vs)"

definition h_get :: "'h header_ops \<Rightarrow> 'h \<Rightarrow> string \<Rightarrow> hvalue option" where
  "h_get H m n = (case h_get_all H m n of [] \<Rightarrow> None | v # _ \<Rightarrow> Some v)"

definition h_contains :: "'h header_ops \<Rightarrow> 'h \<Rightarrow> string \<Rightarrow> bool" where
  "h_contains H m n \<longleftrightarrow> h_get_all H m n \<noteq> []"

definition h_or_insert :: "'h header_ops \<Rightarrow> 'h \<Rightarrow> string \<Rightarrow> hvalue \<Rightarrow> 'h" where
  "h_or_insert H m n v = (if h_contains H m n then m else h_insert H m n v)"

definition h_keys :: "'h header_ops \<Rightarrow> 'h \<Rightarrow> string list" where
  "h_keys H m = map fst (h_groups H m)"

definition h_iter :: "'h header_ops \<Rightarrow> 'h \<Rightarrow> (string \<times> hvalue) list" where
  "h_iter H m = concat (map (\<lambda>(n, vs). map (Pair n) vs) (h_groups H m))"

text \<open>\<open>into_iter\<close> and \<open>drain\<close> give the name with the first value of a group only.\<close>

fun group_items :: "string \<times> hvalue list \<Rightarrow> (string option \<times> hvalue) list" where
  "group_items (n, []) = []"
| "group_items (n, v # vs) = (Some n, v) # map (Pair None) vs"

definition h_into_iter :: "'h header_ops \<Rightarrow> 'h \<Rightarrow> (string option \<times> hvalue) list" where
  "h_into_iter H m = concat (map group_items (h_groups H m))"

definition header_laws :: "'h header_ops \<Rightarrow> bool" where
  "header_laws H \<longleftrightarrow>
     (\<forall>m. distinct (map fst (h_groups H m)) \<and> (\<forall>(n, vs) \<in> set (h_groups H m). vs \<noteq> [])) \<and>
     h_groups H (h_new H) = [] \<and>
     (\<forall>m n v k. h_get_all H (h_insert H m n v) k = (if k = n then [v] else h_get_all H m k)) \<and>
     (\<forall>m n v k. h_get_all H (h_append H m n v) k =
        (if k = n then h_get_all H m n @ [v] else h_get_all H m k)) \<and>
     (\<forall>m n k. h_get_all H (h_remove H m n) k = (if k = n then [] else h_get_all H m k))"

lemma header_lawsD [hdr_simps]:
  assumes "header_laws H"
  shows "h_get_all H (h_insert H m n v) k = (if k = n then [v] else h_get_all H m k)"
    "h_get_all H (h_append H m n v) k = (if k = n then h_get_all H m n @ [v] else h_get_all H m k)"
    "h_get_all H (h_remove H m n) k = (if k = n then [] else h_get_all H m k)"
    "h_groups H (h_new H) = []" "h_get_all H (h_new H) k = []"
    "distinct (map fst (h_groups H m))"
  using assms by (simp_all add: header_laws_def h_get_all_def)

lemma h_group_nonempty: "header_laws H \<Longrightarrow> (n, vs) \<in> set (h_groups H m) \<Longrightarrow> vs \<noteq> []"
  by (auto simp: header_laws_def)

lemma h_get_all_group: "header_laws H \<Longrightarrow> (n, vs) \<in> set (h_groups H m) \<Longrightarrow> h_get_all H m n = vs"
  by (simp add: h_get_all_def header_lawsD(6))

lemma h_contains_iff: "header_laws H \<Longrightarrow> h_contains H m n \<longleftrightarrow> n \<in> set (h_keys H m)"
  by (force simp: h_contains_def h_get_all_def h_keys_def dest: map_of_SomeD h_group_nonempty
      split: option.splits simp: map_of_eq_None_iff)

lemma h_get_all_or_insert [hdr_simps]:
  "header_laws H \<Longrightarrow> h_get_all H (h_or_insert H m n v) k =
     (if k = n \<and> h_get_all H m n = [] then [v] else h_get_all H m k)"
  by (auto simp: h_or_insert_def h_contains_def header_lawsD)

text \<open>A concrete header map: groups in insertion order.\<close>

definition list_headers :: "(string \<times> hvalue list) list header_ops" where
  "list_headers = \<lparr>h_groups = (\<lambda>m. filter (\<lambda>(n, vs). vs \<noteq> []) (AList.clearjunk m)),
     h_new = [],
     h_insert = (\<lambda>m n v. AList.update n [v] m),
     h_append = (\<lambda>m n v. AList.update n ((case map_of m n of None \<Rightarrow> [] | Some vs \<Rightarrow> vs) @ [v]) m),
     h_remove = (\<lambda>m n. AList.delete n m)\<rparr>"

lemma list_headers_get_all:
  "h_get_all list_headers m n = (case map_of m n of None \<Rightarrow> [] | Some vs \<Rightarrow> vs)"
proof -
  have "map_of (filter (\<lambda>(n, vs). vs \<noteq> []) xs) n =
      (case map_of xs n of Some vs \<Rightarrow> if vs \<noteq> [] then Some vs else None | None \<Rightarrow> None)"
    if "distinct (map fst xs)" for xs :: "(string \<times> hvalue list) list"
    using that by (induction xs) (auto split: option.splits dest: map_of_SomeD simp: rev_image_eqI)
  from this [OF distinct_clearjunk] show ?thesis
    by (simp add: h_get_all_def list_headers_def clearjunk_restrict map_of_clearjunk split: option.splits)
qed

lemma list_headers_laws: "header_laws list_headers"
proof -
  have "distinct (map fst (filter P (AList.clearjunk m)))" for P and m :: "(string \<times> hvalue list) list"
    by (simp add: distinct_map_filter)
  then show ?thesis
    unfolding header_laws_def list_headers_get_all
    by (auto simp: list_headers_def split: option.splits)
qed

section \<open>Helpers\<close>

definition strip_ipv6_brackets :: "string \<Rightarrow> string" where
  "strip_ipv6_brackets h =
     (case Option.bind (strip_prefix ''['' h) (strip_suffix '']'') of Some h' \<Rightarrow> h' | None \<Rightarrow> h)"

text \<open>The base64 encoder is the library's.\<close>

definition basic_auth :: "(string \<Rightarrow> string) \<Rightarrow> string \<Rightarrow> string option \<Rightarrow> hvalue" where
  "basic_auth b64 username password =
     \<lparr>hv_bytes = ''Basic '' @ b64 (username @ '':'' @ (case password of Some p \<Rightarrow> p | None \<Rightarrow> [])),
      hv_sensitive = True\<rparr>"

text \<open>
  \<open>replace_headers\<close>: the loop over \<open>into_iter\<close>, with the entry of the last name seen.
  \<^term>\<open>None\<close> is the branch the code marks unreachable.
\<close>

fun replace_loop :: "'h header_ops \<Rightarrow> 'h \<Rightarrow> string option \<Rightarrow> (string option \<times> hvalue) list \<Rightarrow> 'h option" where
  "replace_loop H dst prev [] = Some dst"
| "replace_loop H dst prev ((Some k, v) # xs) = replace_loop H (h_insert H dst k v) (Some k) xs"
| "replace_loop H dst prev ((None, v) # xs) =
     (case prev of Some k \<Rightarrow> replace_loop H (h_append H dst k v) (Some k) xs | None \<Rightarrow> None)"

definition replace_headers :: "'h header_ops \<Rightarrow> 'h \<Rightarrow> 'h \<Rightarrow> 'h option" where
  "replace_headers H dst src = replace_loop H dst None (h_into_iter H src)"

text \<open>\<open>Escape\<close>: bytes as the text of a Rust byte string literal.\<close>

definition hex_digit :: "nat \<Rightarrow> char" where
  "hex_digit n = char_of (if n < 10 then 48 + n else 87 + n)"

definition escape_byte :: "char \<Rightarrow> string" where
  "escape_byte c =
     (let n = (of_char c :: nat); bs = CHR 0x5C in
      if n = 10 then [bs, CHR ''n'']
      else if n = 13 then [bs, CHR ''r'']
      else if n = 9 then [bs, CHR ''t'']
      else if c = bs \<or> n = 34 then [bs, c]
      else if n = 0 then [bs, CHR ''0'']
      else if 32 \<le> n \<and> n < 127 then [c]
      else [bs, CHR ''x'', hex_digit (n div 16), hex_digit (n mod 16)])"

definition escape :: "string \<Rightarrow> string" where
  "escape s = concat (map escape_byte s)"

section \<open>Lemmas\<close>

lemma strip_ipv6_brackets_simps:
  "strip_ipv6_brackets (''['' @ h @ '']'') = h"
  "hd h \<noteq> CHR ''['' \<Longrightarrow> strip_ipv6_brackets h = h"
  by (auto simp: strip_ipv6_brackets_def strip_prefix_def strip_suffix_def suffix_def
      split: option.splits) (cases h; simp)

lemma replace_loop_values:
  "replace_loop H dst (Some k) (map (Pair None) vs @ rest) =
     replace_loop H (foldl (\<lambda>m. h_append H m k) dst vs) (Some k) rest"
  by (induction vs arbitrary: dst) auto

lemma get_all_foldl_append:
  "header_laws H \<Longrightarrow> h_get_all H (foldl (\<lambda>m. h_append H m k) dst vs) n =
     (if n = k then h_get_all H dst k @ vs else h_get_all H dst n)"
  by (induction vs arbitrary: dst) (auto simp: header_lawsD)

lemma replace_loop_groups:
  assumes "header_laws H" and "hm_ok gs" and "hm_all (\<lambda>n vs. vs \<noteq> []) gs"
  shows "\<exists>m. replace_loop H dst prev (concat (map group_items gs)) = Some m \<and>
    (\<forall>n. h_get_all H m n = (case map_of gs n of Some vs \<Rightarrow> vs | None \<Rightarrow> h_get_all H dst n))"
  using assms(2,3)
proof (induction gs arbitrary: dst prev)
  case Nil
  then show ?case by simp
next
  case (Cons g gs)
  obtain k v vs where g: "g = (k, v # vs)"
    using Cons.prems(2) by (cases g; cases "snd g") (auto simp: hm_all_def)
  let ?dst = "foldl (\<lambda>m. h_append H m k) (h_insert H dst k v) vs"
  have k: "map_of gs k = None"
    using Cons.prems(1) g by (simp add: map_of_eq_None_iff)
  have "hm_ok gs" and "hm_all (\<lambda>n vs. vs \<noteq> []) gs"
    using Cons.prems by (auto simp: hm_all_def)
  from Cons.IH [OF this, of ?dst "Some k"] obtain m where
    "replace_loop H ?dst (Some k) (concat (map group_items gs)) = Some m"
    "\<forall>n. h_get_all H m n = (case map_of gs n of Some vs \<Rightarrow> vs | None \<Rightarrow> h_get_all H ?dst n)"
    by blast
  then show ?case
    using assms(1) g k
    by (auto simp: replace_loop_values get_all_foldl_append header_lawsD split: option.splits)
qed

lemma replace_headers_get_all:
  assumes "header_laws H"
  shows "\<exists>m. replace_headers H dst src = Some m \<and>
    (\<forall>n. h_get_all H m n = (if h_contains H src n then h_get_all H src n else h_get_all H dst n))"
proof -
  have "hm_ok (h_groups H src)" and "hm_all (\<lambda>n vs. vs \<noteq> []) (h_groups H src)"
    using assms by (auto simp: header_laws_def hm_all_def)
  from replace_loop_groups [OF assms this, of dst None] obtain m where
    m: "replace_headers H dst src = Some m"
    and get: "h_get_all H m n = (case map_of (h_groups H src) n of Some vs \<Rightarrow> vs
        | None \<Rightarrow> h_get_all H dst n)" for n
    unfolding replace_headers_def h_into_iter_def by blast
  have "h_get_all H m n = (if h_contains H src n then h_get_all H src n else h_get_all H dst n)" for n
  proof (cases "map_of (h_groups H src) n")
    case (Some vs)
    then have "vs \<noteq> []"
      using assms by (blast dest: map_of_SomeD h_group_nonempty)
    with Some get show ?thesis by (simp add: h_contains_def h_get_all_def [of H src])
  qed (simp add: get h_contains_def h_get_all_def [of H src])
  with m show ?thesis by blast
qed

text \<open>The escaped form is printable ASCII and can be read back.\<close>

definition unhex :: "char \<Rightarrow> nat" where
  "unhex c = (let n = of_char c in if n < 58 then n - 48 else n - 87)"

fun unescape :: "string \<Rightarrow> string" where
  "unescape [] = []"
| "unescape (c # s) =
     (if c \<noteq> CHR 0x5C then c # unescape s
      else (case s of
              [] \<Rightarrow> []
            | d # s' \<Rightarrow>
                (if d = CHR ''n'' then char_of (10::nat) # unescape s'
                 else if d = CHR ''r'' then char_of (13::nat) # unescape s'
                 else if d = CHR ''t'' then char_of (9::nat) # unescape s'
                 else if d = CHR ''0'' then char_of (0::nat) # unescape s'
                 else if d = CHR ''x''
                      then (case s' of a # b # s'' \<Rightarrow> char_of (16 * unhex a + unhex b) # unescape s''
                            | _ \<Rightarrow> [])
                 else d # unescape s')))"

lemma of_char_hex_digit: "n < 16 \<Longrightarrow> of_char (hex_digit n) = (if n < 10 then 48 + n else 87 + n)"
  by (simp add: hex_digit_def)

lemma unhex_hex_digit [simp]: "n < 16 \<Longrightarrow> unhex (hex_digit n) = n"
  by (simp add: unhex_def of_char_hex_digit)

lemma unescape_byte: "unescape (escape_byte c @ s) = c # unescape s"
proof -
  let ?n = "of_char c :: nat"
  have n: "?n div 16 < 16" by (rule less_mult_imp_div_less) simp
  have c: "char_of ?n = c" by simp
  have eq: "c = d \<longleftrightarrow> ?n = of_char d" for d by (simp add: of_char_eq_iff)
  have "16 * (?n div 16) + ?n mod 16 = ?n" by simp
  with c have "char_of (16 * (?n div 16) + ?n mod 16) = c" by simp
  with n c show ?thesis
    by (auto simp: escape_byte_def Let_def eq intro: trans [OF _ c])
qed

lemma unescape_escape: "unescape (escape s) = s"
  by (induction s) (simp_all add: escape_def unescape_byte)

end
