(* ===== verification/Http_Types.thy ===== *)
theory Http_Types
  imports Uri_Ext Header_Map
begin

text \<open>
  Requests, responses and request bodies as the layers see them
  (\<open>src/src/client/body.rs\<close>, and the accessors of \<open>http::Request\<close> and \<open>http::Response\<close> that
  the layers use). Layers that keep an extension in a request or a response extend
  the record with a field for it.
\<close>

record 'h request =
  rq_method :: string
  rq_uri :: uri
  rq_version :: http_version
  rq_headers :: 'h

record 'h response =
  rs_status :: nat
  rs_headers :: 'h

section \<open>Bodies\<close>

text \<open>
  A body is bytes that can be sent again, or a boxed stream: \<open>'b\<close> identifies the
  stream, beside the exact size it reports, if any.
\<close>

datatype 'b body = Reusable string | Streaming "nat option" 'b

definition body_default :: "'b body" where
  "body_default = Reusable []"

fun body_exact :: "'b body \<Rightarrow> nat option" where
  "body_exact (Reusable bytes) = Some (length bytes)"
| "body_exact (Streaming hint s) = hint"

fun body_try_clone :: "'b body \<Rightarrow> 'b body option" where
  "body_try_clone (Reusable bytes) = Some (Reusable bytes)"
| "body_try_clone (Streaming hint s) = None"

lemma body_try_clone_Some: "body_try_clone b = Some c \<longleftrightarrow> c = b \<and> (\<exists>bytes. b = Reusable bytes)"
  by (cases b) auto

end
