(* ===== verification/Redirect_Policy.thy ===== *)
theory Redirect_Policy
  imports Request_Config Http_Types
begin

text \<open>
  Redirect policies (\<open>src/src/redirect.rs\<close>): the decision on one redirect response, the
  headers a redirected request loses, and the referrer that goes with it. \<open>url::Url\<close>
  values are opaque; the operations used on them, and the conversions between header
  values and text, are fields of a record.
\<close>

record 'l url_ops =
  ul_parse :: "string \<Rightarrow> 'l option"
  ul_as_str :: "'l \<Rightarrow> string"
  ul_scheme :: "'l \<Rightarrow> string"
  ul_host_str :: "'l \<Rightarrow> string option"
  ul_port_or_known_default :: "'l \<Rightarrow> u16 option"
  ul_set_username :: "'l \<Rightarrow> string \<Rightarrow> 'l option"
  ul_set_password :: "'l \<Rightarrow> string option \<Rightarrow> 'l option"
  ul_set_path :: "'l \<Rightarrow> string \<Rightarrow> 'l"
  ul_set_query :: "'l \<Rightarrow> string option \<Rightarrow> 'l"
  ul_set_fragment :: "'l \<Rightarrow> string option \<Rightarrow> 'l"
  ul_join :: "'l \<Rightarrow> string \<Rightarrow> 'l option"
  ul_uri_to_string :: "uri \<Rightarrow> string"
  ul_scheme_parse :: "string \<Rightarrow> url_scheme option"
  ul_to_str :: "hvalue \<Rightarrow> string option"
  ul_header_value :: "string \<Rightarrow> hvalue option"

section \<open>Referrer\<close>

datatype referrer_policy =
    RP_None | NoReferrer | NoReferrerWhenDowngrade | SameOrigin | Origin | StrictOrigin
  | OriginWhenCrossOrigin | StrictOriginWhenCrossOrigin | UnsafeUrl

record 'l referrer =
  rf_source :: "'l option"
  rf_policy :: referrer_policy

definition rp_default :: referrer_policy where
  "rp_default = StrictOriginWhenCrossOrigin"

definition referrer_default :: "'l referrer" where
  "referrer_default = \<lparr>rf_source = None, rf_policy = rp_default\<rparr>"

definition rp_tokens :: "(string \<times> referrer_policy) list" where
  "rp_tokens =
     [(''no-referrer'', NoReferrer),
      (''no-referrer-when-downgrade'', NoReferrerWhenDowngrade),
      (''same-origin'', SameOrigin),
      (''origin'', Origin),
      (''strict-origin'', StrictOrigin),
      (''origin-when-cross-origin'', OriginWhenCrossOrigin),
      (''strict-origin-when-cross-origin'', StrictOriginWhenCrossOrigin),
      (''unsafe-url'', UnsafeUrl)]"

definition rp_of_token :: "string \<Rightarrow> referrer_policy" where
  "rp_of_token t =
     (case find (\<lambda>(name, p). eq_ignore_ascii_case t name) rp_tokens of
        Some (_, p) \<Rightarrow> p
      | None \<Rightarrow> RP_None)"

text \<open>The last recognised token of all the values wins.\<close>

definition rp_of_headers :: "'l url_ops \<Rightarrow> 'h header_ops \<Rightarrow> 'h \<Rightarrow> referrer_policy" where
  "rp_of_headers U H hs =
     foldl (\<lambda>p v. case ul_to_str U v of
              None \<Rightarrow> p
            | Some s \<Rightarrow>
                foldl (\<lambda>p t. let q = rp_of_token (trim t) in if q \<noteq> RP_None then q else p)
                  p (split_on CHR '','' s))
       RP_None (h_get_all H hs ''referrer-policy'')"

definition strip_to_origin_url :: "'l url_ops \<Rightarrow> 'l \<Rightarrow> 'l" where
  "strip_to_origin_url U s = ul_set_fragment U (ul_set_query U (ul_set_path U s '''') None) None"

definition parse_referrer :: "'l url_ops \<Rightarrow> hvalue \<Rightarrow> 'l option" where
  "parse_referrer U v =
     (case Option.bind (ul_to_str U v) (ul_parse U) of
        None \<Rightarrow> None
      | Some s \<Rightarrow>
          (case ul_scheme_parse U (ul_scheme U s) of
             None \<Rightarrow> None
           | Some sch \<Rightarrow>
               if sch \<noteq> HTTP \<and> sch \<noteq> HTTPS then None
               else
                 (case Option.bind (ul_set_username U s '''') (\<lambda>s. ul_set_password U s None) of
                    None \<Rightarrow> None
                  | Some s' \<Rightarrow>
                      let s'' = ul_set_fragment U s' None in
                      Some (if length (ul_as_str U s'') > 4096
                            then strip_to_origin_url U s'' else s''))))"

definition referrer_new :: "'l url_ops \<Rightarrow> 'h header_ops \<Rightarrow> 'h \<Rightarrow> 'l referrer" where
  "referrer_new U H hs =
     \<lparr>rf_source = Option.bind (h_get H hs ''referer'') (parse_referrer U), rf_policy = rp_default\<rparr>"

definition referrer_on_redirect :: "'l url_ops \<Rightarrow> 'h header_ops \<Rightarrow> 'l referrer \<Rightarrow> 'h \<Rightarrow> 'l referrer" where
  "referrer_on_redirect U H r hs =
     (let p = rp_of_headers U H hs in if p = RP_None then r else r\<lparr>rf_policy := p\<rparr>)"

definition referrer_same_origin :: "'l url_ops \<Rightarrow> 'l \<Rightarrow> url_scheme \<Rightarrow> uri \<Rightarrow> bool" where
  "referrer_same_origin U source source_scheme destination \<longleftrightarrow>
     (case (ul_host_str U source, host destination) of
        (Some a, Some b) \<Rightarrow> eq_ignore_ascii_case a b
      | (None, None) \<Rightarrow> True
      | _ \<Rightarrow> False) \<and>
     scheme destination = Some source_scheme \<and>
     ul_port_or_known_default U source = Some (port_or_default destination)"

text \<open>What a policy says: no referrer (\<^term>\<open>None\<close>), or whether to keep only the origin.\<close>

definition rp_strip :: "referrer_policy \<Rightarrow> bool \<Rightarrow> bool \<Rightarrow> bool option" where
  "rp_strip p same downgrade =
     (case p of
        NoReferrer \<Rightarrow> None
      | NoReferrerWhenDowngrade \<Rightarrow> if downgrade then None else Some False
      | SameOrigin \<Rightarrow> if \<not> same then None else Some False
      | StrictOrigin \<Rightarrow> if downgrade then None else Some True
      | StrictOriginWhenCrossOrigin \<Rightarrow> if \<not> same \<and> downgrade then None else Some (\<not> same)
      | RP_None \<Rightarrow> if \<not> same \<and> downgrade then None else Some (\<not> same)
      | Origin \<Rightarrow> Some True
      | OriginWhenCrossOrigin \<Rightarrow> Some (\<not> same)
      | UnsafeUrl \<Rightarrow> Some False)"

definition drop_referer :: "'h header_ops \<Rightarrow> ('h, 'z) request_scheme \<Rightarrow> ('h, 'z) request_scheme" where
  "drop_referer H req = req\<lparr>rq_headers := h_remove H (rq_headers req) ''referer''\<rparr>"

definition referrer_apply ::
  "'l url_ops \<Rightarrow> 'h header_ops \<Rightarrow> 'l referrer \<Rightarrow> ('h, 'z) request_scheme \<Rightarrow>
   'l referrer \<times> ('h, 'z) request_scheme" where
  "referrer_apply U H r req =
     (case rf_source r of
        None \<Rightarrow> (r, drop_referer H req)
      | Some source \<Rightarrow>
          let r' = r\<lparr>rf_source := None\<rparr>;
              sensitive = (case h_get H (rq_headers req) ''referer'' of
                             Some v \<Rightarrow> hv_sensitive v | None \<Rightarrow> False)
          in (case ul_scheme_parse U (ul_scheme U source) of
                None \<Rightarrow> (r', drop_referer H req)
              | Some sch \<Rightarrow>
                  (let dest = rq_uri req;
                       same = referrer_same_origin U source sch dest;
                       downgrade = (sch = HTTPS \<and> scheme dest = Some HTTP)
                   in case rp_strip (rf_policy r) same downgrade of
                        None \<Rightarrow> (r', drop_referer H req)
                      | Some strip \<Rightarrow>
                          let source' = (if strip then strip_to_origin_url U source else source)
                          in case ul_header_value U (ul_as_str U source') of
                               Some v \<Rightarrow>
                                 (r\<lparr>rf_source := Some source'\<rparr>,
                                  req\<lparr>rq_headers := h_insert H (rq_headers req) ''referer''
                                        (v\<lparr>hv_sensitive := sensitive\<rparr>)\<rparr>)
                             | None \<Rightarrow> (r', drop_referer H req))))"

section \<open>Policies\<close>

text \<open>
  Errors of this module, and the action of a policy: \<open>ActPending n a\<close> is the boxed future
  that is pending for \<open>n\<close> polls and then yields \<open>a\<close>.
\<close>

datatype redirect_error =
    TooManyRedirects
  | CustomError string
  | RedirectError redirect_error uri
  | RedirectBadScheme uri

datatype action = Follow | Stop | ActError redirect_error | ActPending nat action

record 'h attempt =
  at_status :: nat
  at_headers :: 'h
  at_uri :: uri
  at_previous :: "uri list"

datatype 'h policy_kind = Custom "'h attempt \<Rightarrow> action" | Limit nat | PolicyNone

definition is_policy_none :: "'h policy_kind \<Rightarrow> bool" where
  "is_policy_none p = (case p of PolicyNone \<Rightarrow> True | _ \<Rightarrow> False)"

definition policy_default :: "'h policy_kind" where
  "policy_default = Limit 10"

fun policy_redirect :: "'h policy_kind \<Rightarrow> 'h attempt \<Rightarrow> action" where
  "policy_redirect (Custom f) attempt = f attempt"
| "policy_redirect (Limit m) attempt =
     (if length (at_previous attempt) > m then ActError TooManyRedirects else Follow)"
| "policy_redirect PolicyNone attempt = Stop"

definition policy_check :: "'h policy_kind \<Rightarrow> nat \<Rightarrow> 'h \<Rightarrow> uri \<Rightarrow> uri list \<Rightarrow> action" where
  "policy_check p status hs nxt previous =
     policy_redirect p \<lparr>at_status = status, at_headers = hs, at_uri = nxt, at_previous = previous\<rparr>"

record 'h history_entry =
  he_status :: nat
  he_uri :: uri
  he_previous :: uri
  he_headers :: 'h

record ('h, 'l) follow_policy =
  fp_policy :: "'h policy_kind rconfig"
  fp_referrer :: "'l referrer option"
  fp_uris :: "uri list"
  fp_https_only :: bool
  fp_history :: "'h history_entry list option"

definition fp_new :: "'h policy_kind \<Rightarrow> ('h, 'l) follow_policy" where
  "fp_new p = \<lparr>fp_policy = Some p, fp_referrer = None, fp_uris = [], fp_https_only = False,
     fp_history = None\<rparr>"

definition fp_with_referer :: "('h, 'l) follow_policy \<Rightarrow> bool \<Rightarrow> ('h, 'l) follow_policy" where
  "fp_with_referer fp b = fp\<lparr>fp_referrer := (if b then Some referrer_default else None)\<rparr>"

definition fp_with_https_only :: "('h, 'l) follow_policy \<Rightarrow> bool \<Rightarrow> ('h, 'l) follow_policy" where
  "fp_with_https_only fp b = fp\<lparr>fp_https_only := b\<rparr>"

text \<open>The layer's view of a redirect response: \<open>client/layer/redirect/policy.rs\<close>.\<close>

record 'h layer_attempt =
  la_status :: nat
  la_headers :: 'h
  la_location :: uri
  la_previous :: uri

text \<open>\<open>FollowRedirectPolicy::redirect\<close>; \<open>RPanic\<close> is the failed \<open>expect\<close>.\<close>

datatype redirect_result = RPanic | RErr redirect_error | ROk action

definition fp_redirect ::
  "'l url_ops \<Rightarrow> 'h header_ops \<Rightarrow> ('h, 'l) follow_policy \<Rightarrow> 'h layer_attempt \<Rightarrow>
   ('h, 'l) follow_policy \<times> redirect_result" where
  "fp_redirect U H fp a =
     (let previous = la_previous a;
          nxt = la_location a;
          fp1 = fp\<lparr>fp_uris := fp_uris fp @ [previous],
                    fp_referrer := map_option (\<lambda>r. referrer_on_redirect U H r (la_headers a))
                      (fp_referrer fp)\<rparr>
      in (case fp_policy fp1 of
            None \<Rightarrow> (fp1, RPanic)
          | Some p \<Rightarrow>
              (case policy_check p (la_status a) (la_headers a) nxt (fp_uris fp1) of
                 ActError e \<Rightarrow> (fp1, RErr (RedirectError e previous))
               | Follow \<Rightarrow>
                   if \<not> (is_http nxt \<or> is_https nxt) then (fp1, RErr (RedirectBadScheme nxt))
                   else if fp_https_only fp1 \<and> \<not> is_https nxt
                   then (fp1, RErr (RedirectError (RedirectBadScheme nxt) nxt))
                   else if \<not> is_policy_none p
                   then (fp1\<lparr>fp_history := Some
                           ((case fp_history fp1 of Some h \<Rightarrow> h | None \<Rightarrow> []) @
                            [\<lparr>he_status = la_status a, he_uri = la_location a,
                              he_previous = la_previous a, he_headers = la_headers a\<rparr>])\<rparr>,
                         ROk Follow)
                   else (fp1, ROk Follow)
               | act \<Rightarrow> (fp1, ROk act))))"

section \<open>Hooks of the layer\<close>

text \<open>A request as the redirect layer keeps it: with the policy slot of its extensions.\<close>

record 'h redirect_request = "'h request" +
  rq_policy :: "'h policy_kind slot"

record 'h redirect_response = "'h response" +
  rs_request_uri :: "uri option"
  rs_history :: "'h history_entry list option"

definition fp_for_request ::
  "'l url_ops \<Rightarrow> 'h header_ops \<Rightarrow> ('h, 'l) follow_policy \<Rightarrow> 'h redirect_request \<Rightarrow>
   ('h, 'l) follow_policy \<times> 'h redirect_request \<times> ('h, 'l) follow_policy option" where
  "fp_for_request U H self req =
     (case rc_load (fp_policy self) (rq_policy req) of (p, slot) \<Rightarrow>
        let self' = self\<lparr>fp_policy := p\<rparr>;
            req' = req\<lparr>rq_policy := slot\<rparr>
        in (self', req',
            (case p of
               None \<Rightarrow> None
             | Some pk \<Rightarrow>
                 if is_policy_none pk then None
                 else Some (self'\<lparr>fp_referrer :=
                        map_option (\<lambda>_. referrer_new U H (rq_headers req')) (fp_referrer self')\<rparr>))))"

definition same_origin :: "uri \<Rightarrow> uri \<Rightarrow> bool" where
  "same_origin left right \<longleftrightarrow>
     (case (host left, host right) of
        (Some a, Some b) \<Rightarrow> eq_ignore_ascii_case a b
      | (None, None) \<Rightarrow> True
      | _ \<Rightarrow> False) \<and>
     scheme left = scheme right \<and> port_or_default left = port_or_default right"

definition sensitive_names :: "string list" where
  "sensitive_names =
     [''authorization'', ''cookie'', ''cookie2'', ''proxy-authorization'', ''www-authenticate'']"

definition remove_sensitive_headers ::
  "'h header_ops \<Rightarrow> ('h, 'z) request_scheme \<Rightarrow> uri list \<Rightarrow> ('h, 'z) request_scheme" where
  "remove_sensitive_headers H req previous =
     (if previous = [] then req
      else if \<not> same_origin (rq_uri req) (last previous)
      then req\<lparr>rq_headers := foldl (h_remove H) (rq_headers req) sensitive_names\<rparr>
      else req)"

definition fp_on_request ::
  "'l url_ops \<Rightarrow> 'h header_ops \<Rightarrow> ('h, 'l) follow_policy \<Rightarrow> ('h, 'z) request_scheme \<Rightarrow>
   ('h, 'l) follow_policy \<times> ('h, 'z) request_scheme" where
  "fp_on_request U H fp req =
     (let req1 = remove_sensitive_headers H req (fp_uris fp) in
      if fp_uris fp \<noteq> []
      then (case fp_referrer fp of
              None \<Rightarrow> (fp, req1)
            | Some r \<Rightarrow>
                (case referrer_apply U H r req1 of (r', req2) \<Rightarrow>
                   (fp\<lparr>fp_referrer := Some r'\<rparr>, req2)))
      else (fp, req1))"

definition fp_on_response ::
  "('h, 'l) follow_policy \<Rightarrow> 'h redirect_response \<Rightarrow>
   ('h, 'l) follow_policy \<times> 'h redirect_response" where
  "fp_on_response fp res =
     (case fp_history fp of
        Some h \<Rightarrow> (fp\<lparr>fp_history := None\<rparr>, res\<lparr>rs_history := Some h\<rparr>)
      | None \<Rightarrow> (fp, res))"

section \<open>Lemmas\<close>

lemma same_origin_refl [simp]: "same_origin u u"
  by (simp add: same_origin_def split: option.splits)

lemma same_origin_sym: "same_origin u v = same_origin v u"
  by (auto simp: same_origin_def eq_ignore_ascii_case_sym split: option.splits)

lemma same_origin_trans: "same_origin u v \<Longrightarrow> same_origin v w \<Longrightarrow> same_origin u w"
  by (auto simp: same_origin_def intro: eq_ignore_ascii_case_trans split: option.splits)

lemma get_all_foldl_remove [hdr_simps]:
  "header_laws H \<Longrightarrow> h_get_all H (foldl (h_remove H) hs ns) k =
     (if k \<in> set ns then [] else h_get_all H hs k)"
  by (induction ns arbitrary: hs) (auto simp: header_lawsD)

lemma referer_not_sensitive [simp]: "''referer'' \<notin> set sensitive_names"
  by (simp add: sensitive_names_def)

lemma remove_sensitive_headers_fields [simp]:
  "rq_uri (remove_sensitive_headers H req us) = rq_uri req"
  "rq_method (remove_sensitive_headers H req us) = rq_method req"
  "request.more (remove_sensitive_headers H req us) = request.more req"
  by (simp_all add: remove_sensitive_headers_def)

lemma remove_sensitive_headers_get_all:
  "header_laws H \<Longrightarrow> h_get_all H (rq_headers (remove_sensitive_headers H req us)) n =
     (if us \<noteq> [] \<and> \<not> same_origin (rq_uri req) (last us) \<and> n \<in> set sensitive_names then []
      else h_get_all H (rq_headers req) n)"
  by (simp add: remove_sensitive_headers_def get_all_foldl_remove)

text \<open>\<open>referrer_apply\<close> touches the referrer header only.\<close>

lemma referrer_apply_req:
  assumes "referrer_apply U H r req = (r', req')"
  shows "req' = drop_referer H req \<or>
    (\<exists>v. req' = req\<lparr>rq_headers := h_insert H (rq_headers req) ''referer'' v\<rparr>)"
  using assms by (auto simp: referrer_apply_def Let_def split: option.splits if_splits)

lemma referrer_apply_fields:
  assumes "referrer_apply U H r req = (r', req')"
  shows "rq_uri req' = rq_uri req" "rq_method req' = rq_method req"
    "request.more req' = request.more req"
    "header_laws H \<Longrightarrow> n \<noteq> ''referer'' \<Longrightarrow>
       h_get_all H (rq_headers req') n = h_get_all H (rq_headers req) n"
  using referrer_apply_req [OF assms] by (auto simp: drop_referer_def header_lawsD)

lemma fp_on_request_fields:
  assumes "fp_on_request U H fp req = (fp', req')"
  shows "rq_uri req' = rq_uri req" "rq_method req' = rq_method req"
    "request.more req' = request.more req"
    "fp_uris fp' = fp_uris fp" "fp_policy fp' = fp_policy fp" "fp_https_only fp' = fp_https_only fp"
    "fp_history fp' = fp_history fp"
  using assms
  by (auto simp: fp_on_request_def Let_def referrer_apply_fields
      split: if_splits option.splits prod.splits dest: referrer_apply_fields)

lemma fp_on_request_get_all:
  assumes "fp_on_request U H fp req = (fp', req')" and "header_laws H" and "n \<noteq> ''referer''"
  shows "h_get_all H (rq_headers req') n =
    (if fp_uris fp \<noteq> [] \<and> \<not> same_origin (rq_uri req) (last (fp_uris fp)) \<and> n \<in> set sensitive_names
     then [] else h_get_all H (rq_headers req) n)"
  using assms
  by (auto simp: fp_on_request_def Let_def referrer_apply_fields(4) remove_sensitive_headers_get_all
      split: if_splits option.splits prod.splits)

text \<open>What \<open>fp_redirect\<close> may answer.\<close>

lemma fp_redirect_fields:
  assumes "fp_redirect U H fp a = (fp', r)"
  shows "fp_uris fp' = fp_uris fp @ [la_previous a]" "fp_policy fp' = fp_policy fp"
    "fp_https_only fp' = fp_https_only fp" "fp_policy fp \<noteq> None \<Longrightarrow> r \<noteq> RPanic"
  using assms
  by (auto simp: fp_redirect_def Let_def split: option.splits action.splits if_splits)

lemma fp_redirect_Follow:
  assumes "fp_redirect U H fp a = (fp', ROk Follow)"
  shows "is_http (la_location a) \<or> is_https (la_location a)"
    "fp_https_only fp \<Longrightarrow> is_https (la_location a)"
    "\<exists>p. fp_policy fp = Some p \<and>
       policy_check p (la_status a) (la_headers a) (la_location a) (fp_uris fp @ [la_previous a]) = Follow"
  using assms
  by (auto simp: fp_redirect_def Let_def split: option.splits action.splits if_splits)

lemma fp_redirect_action:
  assumes "fp_redirect U H fp a = (fp', ROk act)"
  shows "\<exists>p. fp_policy fp = Some p \<and>
    policy_check p (la_status a) (la_headers a) (la_location a) (fp_uris fp @ [la_previous a]) = act"
  using assms
  by (auto simp: fp_redirect_def Let_def split: option.splits action.splits if_splits)

lemma policy_check_Limit:
  "policy_check (Limit m) s hs u us = Follow \<longleftrightarrow> length us \<le> m"
  "policy_check (Limit m) s hs u us \<noteq> ActPending n act"
  by (simp_all add: policy_check_def)

text \<open>
  Under the default referrer policy (strict-origin-when-cross-origin) the request
  after a redirect carries no referrer at all, or exactly one, computed from the stored
  source: never from an HTTPS source to an HTTP destination of another origin, only the
  origin part of the source when the destination is of another origin, and with the
  sensitivity mark of the value the request had before.
\<close>

lemma referrer_default_policy:
  assumes "header_laws H" and "referrer_apply U H r req = (r', req')"
    and "rf_policy r = rp_default"
    and "rf_source r = Some source" and "ul_scheme_parse U (ul_scheme U source) = Some sch"
  shows "(h_get_all H (rq_headers req') ''referer'', rf_source r') =
    (let cross = \<not> referrer_same_origin U source sch (rq_uri req);
         source' = (if cross then strip_to_origin_url U source else source)
     in if cross \<and> sch = HTTPS \<and> scheme (rq_uri req) = Some HTTP then ([], None)
        else (case ul_header_value U (ul_as_str U source') of
                None \<Rightarrow> ([], None)
              | Some v \<Rightarrow>
                  ([v\<lparr>hv_sensitive := (case h_get H (rq_headers req) ''referer'' of
                        Some w \<Rightarrow> hv_sensitive w | None \<Rightarrow> False)\<rparr>],
                   Some source')))"
  using assms(2-)
  by (auto simp: referrer_apply_def Let_def drop_referer_def header_lawsD [OF assms(1)] rp_strip_def
      rp_default_def split: option.splits if_splits)

text \<open>The records of operations the witnesses run on: a URL is its text.\<close>

definition text_urls :: "string url_ops" where
  "text_urls =
     \<lparr>ul_parse = Some, ul_as_str = (\<lambda>s. s),
      ul_scheme = (\<lambda>s. case split_once CHR '':'' s of Some (a, _) \<Rightarrow> a | None \<Rightarrow> []),
      ul_host_str = (\<lambda>s. Some s), ul_port_or_known_default = (\<lambda>s. Some 443),
      ul_set_username = (\<lambda>s _. Some s), ul_set_password = (\<lambda>s _. Some s),
      ul_set_path = (\<lambda>s p. s), ul_set_query = (\<lambda>s _. s), ul_set_fragment = (\<lambda>s _. s),
      ul_join = (\<lambda>b r. Some r), ul_uri_to_string = path,
      ul_scheme_parse = (\<lambda>s. if s = ''https'' then Some HTTPS else if s = ''http'' then Some HTTP
        else None),
      ul_to_str = (\<lambda>v. Some (hv_bytes v)), ul_header_value = (\<lambda>s. Some (plain s))\<rparr>"

definition uri_at :: "url_scheme \<Rightarrow> string \<Rightarrow> string \<Rightarrow> uri" where
  "uri_at sch h p =
     \<lparr>scheme = Some sch, authority = Some h, host = Some h, port = None, path = p, query = None\<rparr>"

definition get_request :: "string \<Rightarrow> uri \<Rightarrow> 'h \<Rightarrow> 'h request" where
  "get_request m u hs = \<lparr>rq_method = m, rq_uri = u, rq_version = HTTP_11, rq_headers = hs\<rparr>"

lemma referrer_default_policy_witness:
  "\<exists>r' req'. referrer_apply text_urls list_headers
       \<lparr>rf_source = Some ''https://a/x'', rf_policy = rp_default\<rparr>
       (get_request ''GET'' (uri_at HTTP ''b'' ''/'') []) = (r', req') \<and>
     h_get_all list_headers (rq_headers req') ''referer'' = []"
proof -
  let ?r = "\<lparr>rf_source = Some ''https://a/x'', rf_policy = rp_default\<rparr>"
  let ?req = "get_request ''GET'' (uri_at HTTP ''b'' ''/'') [] :: (string \<times> hvalue list) list request"
  obtain r' req' where ra: "referrer_apply text_urls list_headers ?r ?req = (r', req')"
    by (cases "referrer_apply text_urls list_headers ?r ?req")
  have sch: "ul_scheme_parse text_urls (ul_scheme text_urls ''https://a/x'') = Some HTTPS"
    by (simp add: text_urls_def)
  have "\<not> referrer_same_origin text_urls ''https://a/x'' HTTPS (rq_uri ?req)"
    by (simp add: referrer_same_origin_def get_request_def uri_at_def)
  with referrer_default_policy [OF list_headers_laws ra _ _ sch] ra show ?thesis
    by (auto simp: get_request_def uri_at_def)
qed

end
