(* ===== verification/Redirect_Layer.thy ===== *)
theory Redirect_Layer
  imports Redirect_Policy
begin

text \<open>
  The redirect middleware (\<open>src/src/client/layer/redirect.rs\<close>, \<open>redirect/future.rs\<close>): the
  call and the hand-written future as a state machine. The service below it is a record
  of operations on a world \<open>'w\<close>: making a call gives a future, polling it may finish.
\<close>

record ('w, 'f, 'h, 'b, 'e) service =
  sv_call :: "'w \<Rightarrow> 'h redirect_request \<Rightarrow> 'b body \<Rightarrow> 'w \<times> 'f"
  sv_poll :: "'w \<Rightarrow> 'f \<Rightarrow> 'w \<times> 'f \<times> ('e + 'h redirect_response) poll"
  sv_from_box :: "redirect_error \<Rightarrow> 'e"

section \<open>The body kept for the next hop\<close>

datatype 'b body_repr = BRSome "'b body" | BREmpty | BRNone

fun br_take :: "'b body_repr \<Rightarrow> 'b body_repr \<times> 'b body option" where
  "br_take (BRSome b) = (BRNone, Some b)"
| "br_take BREmpty = (BREmpty, Some body_default)"
| "br_take BRNone = (BRNone, None)"

fun br_try_clone_from :: "'b body_repr \<Rightarrow> 'b body \<Rightarrow> 'b body_repr" where
  "br_try_clone_from BRNone b =
     (if body_exact b = Some 0 then BRSome body_default
      else (case body_try_clone b of Some c \<Rightarrow> BRSome c | None \<Rightarrow> BRNone))"
| "br_try_clone_from br b = br"

section \<open>The response future\<close>

record ('h, 'b) pending_state =
  pd_polls :: nat
  pd_action :: action
  pd_location :: uri
  pd_body :: "'b body"
  pd_res :: "'h redirect_response"

record ('f, 'h, 'b, 'l) redirecting =
  rd_future :: 'f
  rd_pending :: "('h, 'b) pending_state option"
  rd_policy :: "('h, 'l) follow_policy"
  rd_request :: "'h redirect_request"
  rd_body_repr :: "'b body_repr"

datatype ('f, 'h, 'b, 'l) response_future = Direct 'f | Redirecting "('f, 'h, 'b, 'l) redirecting"

text \<open>
  One poll: the new world and future, what the caller sees, and the calls made to the
  service below.
\<close>

type_synonym ('h, 'b) calls = "('h redirect_request \<times> 'b body) list"

definition drop_payload_headers :: "'h header_ops \<Rightarrow> 'h \<Rightarrow> 'h" where
  "drop_payload_headers H hs =
     foldl (h_remove H) hs
       [''content-type'', ''content-length'', ''content-encoding'', ''transfer-encoding'']"

definition resolve_uri :: "uri_lib \<Rightarrow> 'l url_ops \<Rightarrow> string \<Rightarrow> uri \<Rightarrow> uri option" where
  "resolve_uri L U relative base =
     (case ul_parse U (ul_uri_to_string U base) of
        None \<Rightarrow> None
      | Some b \<Rightarrow>
          (case ul_join U b relative of
             None \<Rightarrow> None
           | Some joined \<Rightarrow>
               (case into_uri L (ul_as_str U joined) of Inr u \<Rightarrow> Some u | Inl _ \<Rightarrow> None)))"

text \<open>How a redirect status rewrites the request that may follow; \<^term>\<open>None\<close>: not a redirect.\<close>

definition rewrite_request ::
  "'h header_ops \<Rightarrow> nat \<Rightarrow> 'h redirect_request \<Rightarrow> 'b body_repr \<Rightarrow>
   ('h redirect_request \<times> 'b body_repr) option" where
  "rewrite_request H status req br =
     (if status = 301 \<or> status = 302
      then (if rq_method req = ''POST''
            then Some (req\<lparr>rq_method := ''GET'',
                           rq_headers := drop_payload_headers H (rq_headers req)\<rparr>, BREmpty)
            else Some (req, br))
      else if status = 303
      then Some ((if rq_method req \<noteq> ''HEAD'' then req\<lparr>rq_method := ''GET''\<rparr> else req)
                   \<lparr>rq_headers := drop_payload_headers H (rq_headers req)\<rparr>, BREmpty)
      else if status = 307 \<or> status = 308 then Some (req, br)
      else None)"

text \<open>\<open>handle_action\<close>: on \<open>Follow\<close> the request is re-targeted and sent again.\<close>

fun handle_action ::
  "'l url_ops \<Rightarrow> 'h header_ops \<Rightarrow> ('w, 'f, 'h, 'b, 'e) service \<Rightarrow> 'w \<Rightarrow> action \<Rightarrow>
   ('f, 'h, 'b, 'l) redirecting \<Rightarrow> 'b body \<Rightarrow> 'h redirect_response \<Rightarrow> uri \<Rightarrow>
   'w \<times> ('f, 'h, 'b, 'l) redirecting \<times> ('e + 'h redirect_response) outcome \<times> ('h, 'b) calls" where
  "handle_action U H S w Follow st body res location =
     (let br = br_try_clone_from (rd_body_repr st) body
      in case fp_on_request U H (rd_policy st) ((rd_request st)\<lparr>rq_uri := location\<rparr>) of
           (fp, req) \<Rightarrow>
             (case sv_call S w req body of
                (w', f) \<Rightarrow>
                  (w', st\<lparr>rd_future := f, rd_policy := fp, rd_request := req, rd_body_repr := br\<rparr>,
                   Yield, [(req, body)])))"
| "handle_action U H S w Stop st body res location = (w, st, Done (Inr res), [])"
| "handle_action U H S w (ActError e) st body res location =
     (w, st, Done (Inl (sv_from_box S e)), [])"
| "handle_action U H S w (ActPending n a) st body res location = (w, st, Panicked, [])"

definition on_redirect_response ::
  "uri_lib \<Rightarrow> 'l url_ops \<Rightarrow> 'h header_ops \<Rightarrow> ('w, 'f, 'h, 'b, 'e) service \<Rightarrow> 'w \<Rightarrow>
   ('f, 'h, 'b, 'l) redirecting \<Rightarrow> 'h redirect_response \<Rightarrow>
   'w \<times> ('f, 'h, 'b, 'l) redirecting \<times> ('e + 'h redirect_response) outcome \<times> ('h, 'b) calls" where
  "on_redirect_response L U H S w st res =
     (case rewrite_request H (rs_status res) (rd_request st) (rd_body_repr st) of
        None \<Rightarrow>
          (case fp_on_response (rd_policy st) res of
             (fp, res') \<Rightarrow> (w, st\<lparr>rd_policy := fp\<rparr>, Done (Inr res'), []))
      | Some (req, br) \<Rightarrow>
          (case br_take br of
             (br', None) \<Rightarrow> (w, st\<lparr>rd_request := req, rd_body_repr := br'\<rparr>, Done (Inr res), [])
           | (br', Some body) \<Rightarrow>
               let st1 = st\<lparr>rd_request := req, rd_body_repr := br'\<rparr> in
               (case Option.bind (Option.bind (h_get H (rs_headers res) ''location'') (ul_to_str U))
                       (\<lambda>loc. resolve_uri L U loc (rq_uri req)) of
                  None \<Rightarrow> (w, st1, Done (Inr res), [])
                | Some location \<Rightarrow>
                    (case fp_redirect U H (rd_policy st1)
                            \<lparr>la_status = rs_status res, la_headers = rs_headers res,
                             la_location = location, la_previous = rq_uri req\<rparr> of
                       (fp, RPanic) \<Rightarrow> (w, st1\<lparr>rd_policy := fp\<rparr>, Panicked, [])
                     | (fp, RErr e) \<Rightarrow> (w, st1\<lparr>rd_policy := fp\<rparr>, Done (Inl (sv_from_box S e)), [])
                     | (fp, ROk (ActPending n a)) \<Rightarrow>
                         (w, st1\<lparr>rd_policy := fp,
                                 rd_pending := Some \<lparr>pd_polls = n, pd_action = a,
                                   pd_location = location, pd_body = body, pd_res = res\<rparr>\<rparr>,
                          Yield, [])
                     | (fp, ROk act) \<Rightarrow>
                         handle_action U H S w act (st1\<lparr>rd_policy := fp\<rparr>) body res location))))"

definition poll_redirecting ::
  "uri_lib \<Rightarrow> 'l url_ops \<Rightarrow> 'h header_ops \<Rightarrow> ('w, 'f, 'h, 'b, 'e) service \<Rightarrow> 'w \<Rightarrow>
   ('f, 'h, 'b, 'l) redirecting \<Rightarrow>
   'w \<times> ('f, 'h, 'b, 'l) redirecting \<times> ('e + 'h redirect_response) outcome \<times> ('h, 'b) calls" where
  "poll_redirecting L U H S w st =
     (case rd_pending st of
        Some p \<Rightarrow>
          (case pd_polls p of
             Suc n \<Rightarrow> (w, st\<lparr>rd_pending := Some (p\<lparr>pd_polls := n\<rparr>)\<rparr>, Yield, [])
           | 0 \<Rightarrow> handle_action U H S w (pd_action p) (st\<lparr>rd_pending := None\<rparr>)
                   (pd_body p) (pd_res p) (pd_location p))
      | None \<Rightarrow>
          (case sv_poll S w (rd_future st) of
             (w', f, Pending) \<Rightarrow> (w', st\<lparr>rd_future := f\<rparr>, Yield, [])
           | (w', f, Ready (Inl e)) \<Rightarrow> (w', st\<lparr>rd_future := f\<rparr>, Done (Inl e), [])
           | (w', f, Ready (Inr res)) \<Rightarrow>
               on_redirect_response L U H S w' (st\<lparr>rd_future := f\<rparr>)
                 (res\<lparr>rs_request_uri := Some (rq_uri (rd_request st))\<rparr>)))"

definition poll_response ::
  "uri_lib \<Rightarrow> 'l url_ops \<Rightarrow> 'h header_ops \<Rightarrow> ('w, 'f, 'h, 'b, 'e) service \<Rightarrow> 'w \<Rightarrow>
   ('f, 'h, 'b, 'l) response_future \<Rightarrow>
   'w \<times> ('f, 'h, 'b, 'l) response_future \<times> ('e + 'h redirect_response) outcome \<times> ('h, 'b) calls" where
  "poll_response L U H S w rf =
     (case rf of
        Direct f \<Rightarrow>
          (case sv_poll S w f of
             (w', f', Pending) \<Rightarrow> (w', Direct f', Yield, [])
           | (w', f', Ready r) \<Rightarrow> (w', Direct f', Done r, []))
      | Redirecting st \<Rightarrow>
          (case poll_redirecting L U H S w st of
             (w', st', out, cs) \<Rightarrow> (w', Redirecting st', out, cs)))"

text \<open>\<open>FollowRedirect::call\<close>: the layer's policy, the future and the first call.\<close>

definition redirect_call ::
  "'l url_ops \<Rightarrow> 'h header_ops \<Rightarrow> ('w, 'f, 'h, 'b, 'e) service \<Rightarrow> 'w \<Rightarrow> ('h, 'l) follow_policy \<Rightarrow>
   'h redirect_request \<Rightarrow> 'b body \<Rightarrow>
   'w \<times> ('h, 'l) follow_policy \<times> ('f, 'h, 'b, 'l) response_future \<times> ('h, 'b) calls" where
  "redirect_call U H S w self req body =
     (case fp_for_request U H self req of
        (self', req', None) \<Rightarrow>
          (case sv_call S w req' body of (w', f) \<Rightarrow> (w', self', Direct f, [(req', body)]))
      | (self', req', Some fp) \<Rightarrow>
          (let br = br_try_clone_from BRNone body in
           case fp_on_request U H fp req' of
             (fp', req'') \<Rightarrow>
               (case sv_call S w req'' body of
                  (w', f) \<Rightarrow>
                    (w', self',
                     Redirecting \<lparr>rd_future = f, rd_pending = None, rd_policy = fp',
                       rd_request = req'', rd_body_repr = br\<rparr>,
                     [(req'', body)]))))"

text \<open>
  A run of the future: the polls made so far, with every request sent below. The last
  component is the outcome of the last poll; a future that has finished is not polled
  again.
\<close>

inductive redirect_run ::
  "uri_lib \<Rightarrow> 'l url_ops \<Rightarrow> 'h header_ops \<Rightarrow> ('w, 'f, 'h, 'b, 'e) service \<Rightarrow> 'w \<Rightarrow>
   ('h, 'l) follow_policy \<Rightarrow> 'h redirect_request \<Rightarrow> 'b body \<Rightarrow>
   'w \<Rightarrow> ('f, 'h, 'b, 'l) response_future \<Rightarrow> ('h, 'b) calls \<Rightarrow>
   ('e + 'h redirect_response) outcome \<Rightarrow> bool"
  for L U H S w0 self req body where
  start: "redirect_call U H S w0 self req body = (w, self', rf, cs) \<Longrightarrow>
    redirect_run L U H S w0 self req body w rf cs Yield"
| poll: "redirect_run L U H S w0 self req body w rf cs Yield \<Longrightarrow>
    poll_response L U H S w rf = (w', rf', out, cs') \<Longrightarrow>
    redirect_run L U H S w0 self req body w' rf' (cs @ cs') out"

section \<open>Chains of requests\<close>

text \<open>
  The contract the layer offers for credentials: between two requests of a chain no
  secret header appears, and a hop to another origin loses them. What follows for whole
  chains is proved here once, for any hop relation that keeps the contract.
\<close>

locale credential_hop =
  fixes hop :: "'r \<Rightarrow> 'r \<Rightarrow> bool"
    and target :: "'r \<Rightarrow> uri"
    and secrets :: "'r \<Rightarrow> string list"
  assumes hop_keeps: "hop r r' \<Longrightarrow> set (secrets r') \<subseteq> set (secrets r)"
    and hop_strips: "hop r r' \<Longrightarrow> \<not> same_origin (target r') (target r) \<Longrightarrow> secrets r' = []"
begin

lemma chain_keeps:
  assumes "successively hop rs" and "i \<le> j" and "j < length rs"
  shows "set (secrets (rs ! j)) \<subseteq> set (secrets (rs ! i))"
  using assms(2,3)
proof (induction j rule: dec_induct)
  case base
  then show ?case by simp
next
  case (step n)
  then have "hop (rs ! n) (rs ! Suc n)"
    using assms(1) by (simp add: successively_conv_nth)
  with step hop_keeps show ?case by fastforce
qed

lemma chain_strips:
  assumes "successively hop rs" and "i < j" and "j < length rs"
    and "\<not> same_origin (target (rs ! j)) (target (rs ! i))"
  shows "secrets (rs ! j) = []"
proof -
  have "\<exists>n. i \<le> n \<and> n < j \<and> \<not> same_origin (target (rs ! Suc n)) (target (rs ! n))"
  proof (rule ccontr)
    assume no: "\<not> ?thesis"
    have "same_origin (target (rs ! n)) (target (rs ! i))" if "i \<le> n" "n \<le> j" for n
      using that
    proof (induction n rule: dec_induct)
      case (step n)
      with no show ?case by (metis Suc_le_lessD Suc_leD same_origin_trans)
    qed simp
    with assms(2,4) show False by simp
  qed
  then obtain n where n: "i \<le> n" "n < j" "\<not> same_origin (target (rs ! Suc n)) (target (rs ! n))"
    by blast
  then have "hop (rs ! n) (rs ! Suc n)"
    using assms(1,3) by (simp add: successively_conv_nth)
  with n(3) have "secrets (rs ! Suc n) = []"
    by (rule hop_strips [rotated])
  with chain_keeps [OF assms(1), of "Suc n" j] n(2) assms(3) show ?thesis by simp
qed

end

text \<open>The secret headers of a request: names with a value.\<close>

definition request_secrets :: "'h header_ops \<Rightarrow> ('h, 'z) request_scheme \<Rightarrow> string list" where
  "request_secrets H req = filter (\<lambda>n. h_get_all H (rq_headers req) n \<noteq> []) sensitive_names"

text \<open>
  One hop of the layer: the status rewrites the previous request, the kept body goes
  with the new one, and the policy's hook prepares it.
\<close>

definition kept :: "'b body \<Rightarrow> 'b body_repr \<Rightarrow> bool" where
  "kept b br \<longleftrightarrow> br = BREmpty \<and> b = body_default \<or> br = br_try_clone_from BRNone b"

inductive layer_hop ::
  "'l url_ops \<Rightarrow> 'h header_ops \<Rightarrow> 'h redirect_request \<times> 'b body \<Rightarrow> 'h redirect_request \<times> 'b body \<Rightarrow> bool"
  for U :: "'l url_ops" and H where
  layer_hopI: "rewrite_request H status r br = Some (r1, br1) \<Longrightarrow> kept b br \<Longrightarrow>
    br_take br1 = (br2, Some b') \<Longrightarrow> fp_uris fp \<noteq> [] \<Longrightarrow> last (fp_uris fp) = rq_uri r \<Longrightarrow>
    fp_on_request U H (fp :: ('h, 'l) follow_policy) (r1\<lparr>rq_uri := location\<rparr>) = (fp', r') \<Longrightarrow>
    layer_hop U H (r, b) (r', b')"

definition payload_names :: "string list" where
  "payload_names = [''content-type'', ''content-length'', ''content-encoding'', ''transfer-encoding'']"

lemma drop_payload_headers_get_all [hdr_simps]:
  "header_laws H \<Longrightarrow> h_get_all H (drop_payload_headers H hs) n =
     (if n \<in> set payload_names then [] else h_get_all H hs n)"
  unfolding drop_payload_headers_def payload_names_def by (rule get_all_foldl_remove)

lemma payload_names_disjoint:
  "n \<in> set sensitive_names \<Longrightarrow> n \<notin> set payload_names" "''referer'' \<notin> set payload_names"
  by (auto simp: sensitive_names_def payload_names_def)

lemma rewrite_request_fields:
  assumes "rewrite_request H status req br = Some (req', br')"
  shows "rq_uri req' = rq_uri req" "rq_policy req' = rq_policy req"
    "header_laws H \<Longrightarrow> h_get_all H (rq_headers req') n =
       (if req' \<noteq> req \<and> rq_headers req' = drop_payload_headers H (rq_headers req) \<and>
           n \<in> set payload_names then [] else h_get_all H (rq_headers req) n)"
  using assms by (auto simp: rewrite_request_def drop_payload_headers_get_all split: if_splits)

lemma rewrite_request_cases:
  assumes "rewrite_request H status req br = Some (req', br')"
  shows "req' = req \<and> br' = br \<or>
    br' = BREmpty \<and> rq_headers req' = drop_payload_headers H (rq_headers req) \<and>
    (rq_method req' = ''GET'' \<or> rq_method req' = ''HEAD'' \<and> rq_method req = ''HEAD'')"
  using assms by (auto simp: rewrite_request_def split: if_splits)

lemma rewrite_request_get_all:
  "rewrite_request H status req br = Some (req', br') \<Longrightarrow> header_laws H \<Longrightarrow> n \<notin> set payload_names \<Longrightarrow>
   h_get_all H (rq_headers req') n = h_get_all H (rq_headers req) n"
  by (auto dest!: rewrite_request_cases simp: drop_payload_headers_get_all)

lemma kept_take:
  assumes "kept b br" and "br_take br = (br', Some b')"
  shows "b' = b \<and> (\<exists>bytes. b = Reusable bytes) \<or> b' = body_default \<and> body_exact b = Some 0"
  using assms by (cases b) (auto simp: kept_def body_default_def split: if_splits option.splits)

lemma kept_next: "br_take br = (br', Some b) \<Longrightarrow> br = BREmpty \<or> kept b0 br \<Longrightarrow>
    kept b (br_try_clone_from br' b)"
  by (cases br) (auto simp: kept_def)

text \<open>The model's hops keep the contract.\<close>

lemma layer_hop_secrets:
  assumes "header_laws H" and "layer_hop U H c c'"
  shows "request_secrets H (fst c') =
    (if same_origin (rq_uri (fst c')) (rq_uri (fst c)) then request_secrets H (fst c) else [])"
  using assms(2)
proof cases
  case (layer_hopI status r br r1 br1 b br2 b' fp location fp' r')
  have "h_get_all H (rq_headers r') n =
      (if same_origin (rq_uri r') (rq_uri r) then h_get_all H (rq_headers r) n else [])"
    if n: "n \<in> set sensitive_names" for n
  proof -
    from n have "n \<noteq> ''referer''" by auto
    from fp_on_request_get_all [OF layer_hopI(8) assms(1) this] show ?thesis
      using n layer_hopI fp_on_request_fields(1) [OF layer_hopI(8)]
        rewrite_request_get_all [OF layer_hopI(3) assms(1) payload_names_disjoint(1) [OF n]]
      by auto
  qed
  with layer_hopI(1,2) show ?thesis
    by (auto simp: request_secrets_def intro: filter_cong)
qed

interpretation redirects:
  credential_hop "\<lambda>c c'. header_laws H \<and> layer_hop U H c c'"
    "\<lambda>c. rq_uri (fst c)" "\<lambda>c. request_secrets H (fst c)"
  for U :: "'l url_ops" and H :: "'h header_ops"
  by unfold_locales (metis layer_hop_secrets order_refl empty_subsetI list.set(1), metis layer_hop_secrets)

section \<open>Runs\<close>

text \<open>
  What holds of the future after each poll that has not finished: the requests sent form
  a chain of hops, the policy's record of visited URIs is the targets of those whose
  response has been seen, and the kept body is the one for the next hop.
\<close>

definition targets :: "('h, 'b) calls \<Rightarrow> uri list" where
  "targets cs = map (\<lambda>c. rq_uri (fst c)) cs"

definition run_inv ::
  "'l url_ops \<Rightarrow> 'h header_ops \<Rightarrow> 'h policy_kind \<Rightarrow> ('f, 'h, 'b, 'l) redirecting \<Rightarrow> ('h, 'b) calls \<Rightarrow> bool" where
  "run_inv U H p st cs \<longleftrightarrow>
     cs \<noteq> [] \<and> successively (layer_hop U H) cs \<and> fp_policy (rd_policy st) = Some p \<and>
     (case rd_pending st of
        None \<Rightarrow>
          fp_uris (rd_policy st) = butlast (targets cs) \<and> rd_request st = fst (last cs) \<and>
          kept (snd (last cs)) (rd_body_repr st)
      | Some pd \<Rightarrow>
          fp_uris (rd_policy st) = targets cs \<and>
          (\<exists>status br br1.
             rewrite_request H status (fst (last cs)) br = Some (rd_request st, br1) \<and>
             kept (snd (last cs)) br \<and> br_take br1 = (rd_body_repr st, Some (pd_body pd))))"

lemma run_invD:
  assumes "run_inv U H p st cs"
  shows "cs \<noteq> []" "successively (layer_hop U H) cs" "fp_policy (rd_policy st) = Some p"
  using assms by (simp_all add: run_inv_def)

lemma targets_append [simp]: "targets (cs @ [c]) = targets cs @ [rq_uri (fst c)]"
  by (simp add: targets_def)

lemma last_targets: "cs \<noteq> [] \<Longrightarrow> last (targets cs) = rq_uri (fst (last cs))"
  by (simp add: targets_def last_map)

lemma targets_Nil [simp]: "targets cs = [] \<longleftrightarrow> cs = []"
  by (simp add: targets_def)

text \<open>Sending the next request keeps the invariant.\<close>

lemma handle_action_inv:
  fixes st :: "('f, 'h, 'b, 'l) redirecting"
  assumes act: "handle_action U H S w act st body res location = (w', st', out, cs')"
    and cs: "cs \<noteq> []" "successively (layer_hop U H) cs" "fp_policy (rd_policy st) = Some p"
    and none: "rd_pending st = None" and uris: "fp_uris (rd_policy st) = targets cs"
    and rw: "rewrite_request H status (fst (last cs)) br = Some (rd_request st, br1)"
    and kept: "kept (snd (last cs)) br" and take: "br_take br1 = (rd_body_repr st, Some body)"
  shows "(out = Yield \<longrightarrow> act = Follow \<and> run_inv U H p st' (cs @ cs') \<and>
      (\<exists>req. cs' = [(req, body)] \<and> rq_uri req = location) \<and> rd_pending st' = None) \<and>
    (out \<noteq> Yield \<longrightarrow> cs' = [])"
proof (cases act)
  case Follow
  obtain fp req where onr: "fp_on_request U H (rd_policy st) ((rd_request st)\<lparr>rq_uri := location\<rparr>) = (fp, req)"
    by fastforce
  obtain w1 f where call: "sv_call S w req body = (w1, f)"
    by fastforce
  from act Follow onr call have
    st': "st' = st\<lparr>rd_future := f, rd_policy := fp, rd_request := req,
        rd_body_repr := br_try_clone_from (rd_body_repr st) body\<rparr>"
    and out: "out = Yield" and cs': "cs' = [(req, body)]"
    by auto
  have hop: "layer_hop U H (last cs) (req, body)"
    using layer_hop.intros [OF rw kept take _ _ onr] uris cs(1) last_targets [OF cs(1)] by simp
  have "br1 = BREmpty \<or> kept b0 br1" if "b0 = snd (last cs)" for b0
    using rewrite_request_cases [OF rw] kept that by auto
  then have "kept body (br_try_clone_from (rd_body_repr st) body)"
    using kept_next [OF take] by blast
  moreover have "successively (layer_hop U H) (cs @ [(req, body)])"
    using cs hop by (simp add: successively_append_iff)
  ultimately have "run_inv U H p st' (cs @ cs')"
    using cs none uris fp_on_request_fields [OF onr] by (simp add: run_inv_def st' cs')
  with out cs' Follow st' none fp_on_request_fields(1) [OF onr] show ?thesis
    by simp
qed (use act in auto)

text \<open>What one poll that sees a response may add to a run.\<close>

definition step_ok ::
  "'l url_ops \<Rightarrow> 'h header_ops \<Rightarrow> 'h policy_kind \<Rightarrow> ('f, 'h, 'b, 'l) redirecting \<Rightarrow> ('h, 'b) calls \<Rightarrow>
   ('f, 'h, 'b, 'l) redirecting \<Rightarrow> 'r outcome \<Rightarrow> ('h, 'b) calls \<Rightarrow> bool" where
  "step_ok U H p st cs st' out cs' \<longleftrightarrow>
     (if out = Yield then
        run_inv U H p st' (cs @ cs') \<and>
        (rd_pending st = None \<longrightarrow> rd_pending st' \<noteq> None \<longrightarrow>
           (\<exists>s hs u n a. policy_check p s hs u (targets cs) = ActPending n a)) \<and>
        (cs' \<noteq> [] \<longrightarrow> (\<exists>req body. cs' = [(req, body)] \<and>
           (rd_pending st = None \<longrightarrow>
              (\<exists>s hs. policy_check p s hs (rq_uri req) (targets cs) = Follow) \<and>
              (is_http (rq_uri req) \<or> is_https (rq_uri req)) \<and>
              (fp_https_only (rd_policy st) \<longrightarrow> is_https (rq_uri req)))))
      else cs' = []) \<and>
     fp_https_only (rd_policy st') = fp_https_only (rd_policy st)"

lemma handle_action_https_only:
  "handle_action U H S w act st body res location = (w', st', out, cs') \<Longrightarrow>
   fp_https_only (rd_policy st') = fp_https_only (rd_policy st)"
  by (cases act) (auto split: prod.splits dest: fp_on_request_fields)

lemma handle_action_no_panic:
  "handle_action U H S w act st body res location = (w', st', out, cs') \<Longrightarrow>
   out = Panicked \<Longrightarrow> \<exists>n a. act = ActPending n a"
  by (cases act) (auto split: prod.splits)

lemma on_redirect_response_ok:
  fixes st :: "('f, 'h, 'b, 'l) redirecting"
  assumes inv: "run_inv U H p st cs" and none: "rd_pending st = None"
    and step: "on_redirect_response L U H S w st res = (w', st', out, cs')"
  shows "step_ok U H p st cs st' out cs' \<and> out \<noteq> Panicked"
proof (cases "rewrite_request H (rs_status res) (rd_request st) (rd_body_repr st)")
  case None
  with step show ?thesis
    by (auto simp: on_redirect_response_def step_ok_def fp_on_response_def split: option.splits prod.splits)
next
  case (Some rb)
  obtain req br1 where rb: "rb = (req, br1)" by (cases rb)
  obtain br' tb where take: "br_take br1 = (br', tb)" by fastforce
  let ?loc = "Option.bind (Option.bind (h_get H (rs_headers res) ''location'') (ul_to_str U))
    (\<lambda>loc. resolve_uri L U loc (rq_uri req))"
  show ?thesis
  proof (cases "tb = None \<or> ?loc = None")
    case True
    with step Some rb take show ?thesis
      by (auto simp: on_redirect_response_def step_ok_def Let_def split: option.splits)
  next
    case False
    then obtain body location where body: "tb = Some body" and loc: "?loc = Some location"
      by (meson not_Some_eq)
    define st1 where "st1 = st\<lparr>rd_request := req, rd_body_repr := br'\<rparr>"
    obtain fp r where red: "fp_redirect U H (rd_policy st1)
        \<lparr>la_status = rs_status res, la_headers = rs_headers res, la_location = location,
          la_previous = rq_uri req\<rparr> = (fp, r)"
      by fastforce
    note fields = fp_redirect_fields [OF red, simplified]
    have req: "rq_uri req = rq_uri (rd_request st)"
      using rewrite_request_fields(1) [OF Some [unfolded rb]] .
    have cs: "cs \<noteq> []" "successively (layer_hop U H) cs" "fp_policy (rd_policy st) = Some p"
      using inv by (auto dest: run_invD)
    have last: "rd_request st = fst (last cs)" and kept: "kept (snd (last cs)) (rd_body_repr st)"
      and uris0: "fp_uris (rd_policy st) = butlast (targets cs)"
      using inv none by (auto simp: run_inv_def)
    have pol: "fp_policy fp = Some p" and uris: "fp_uris fp = targets cs"
      and https: "fp_https_only fp = fp_https_only (rd_policy st)" and nopanic: "r \<noteq> RPanic"
      using fields cs(3) last req uris0 last_targets [OF cs(1)] append_butlast_last_id [of "targets cs"] cs(1)
      by (auto simp: st1_def)
    have check: "policy_check p (rs_status res) (rs_headers res) location (targets cs) = act"
      if "r = ROk act" for act
      using fp_redirect_action [OF red [unfolded that]] cs(3) fields(1) uris by (auto simp: st1_def)
    note step' = step [unfolded on_redirect_response_def Some rb option.case prod.case take body loc Let_def,
        folded st1_def, unfolded red]
    show ?thesis
    proof (cases r)
      case RPanic
      with nopanic show ?thesis by simp
    next
      case (RErr e)
      with step' https show ?thesis by (auto simp: step_ok_def)
    next
      case (ROk act)
      show ?thesis
      proof (cases "\<exists>n a. act = ActPending n a")
        case True
        then obtain n a where act: "act = ActPending n a" by blast
        with step' ROk have st': "st' = st1\<lparr>rd_policy := fp,
            rd_pending := Some \<lparr>pd_polls = n, pd_action = a, pd_location = location,
              pd_body = body, pd_res = res\<rparr>\<rparr>" and out: "out = Yield" "cs' = []"
          by auto
        have "run_inv U H p st' cs"
          using cs pol uris Some rb kept take body last by (auto simp: run_inv_def st' st1_def)
        moreover have "\<exists>s hs u n a. policy_check p s hs u (targets cs) = ActPending n a"
          using check [OF ROk] act by blast
        ultimately show ?thesis
          using out st' https by (simp add: step_ok_def)
      next
        case False
        with step' ROk have h: "handle_action U H S w act (st1\<lparr>rd_policy := fp\<rparr>) body res location =
            (w', st', out, cs')"
          by (cases act) auto
        have inv': "(out = Yield \<longrightarrow> act = Follow \<and> run_inv U H p st' (cs @ cs') \<and>
            (\<exists>req. cs' = [(req, body)] \<and> rq_uri req = location) \<and> rd_pending st' = None) \<and>
            (out \<noteq> Yield \<longrightarrow> cs' = [])"
          using Some rb last kept take body none cs pol uris
          by (intro handle_action_inv [OF h]) (auto simp: st1_def)
        have "out \<noteq> Panicked"
          using handle_action_no_panic [OF h] False by blast
        moreover have "fp_https_only (rd_policy st') = fp_https_only (rd_policy st)"
          using handle_action_https_only [OF h] https by simp
        moreover have "(\<exists>s hs. policy_check p s hs location (targets cs) = Follow) \<and>
            (is_http location \<or> is_https location) \<and>
            (fp_https_only (rd_policy st) \<longrightarrow> is_https location)" if "act = Follow"
          using check [OF ROk] fp_redirect_Follow(1,2) [OF red [unfolded ROk that]] that
          by (auto simp: st1_def)
        ultimately show ?thesis
          using inv' by (auto simp: step_ok_def)
      qed
    qed
  qed
qed

lemma poll_redirecting_ok:
  assumes inv: "run_inv U H p st cs"
    and poll: "poll_redirecting L U H S w st = (w', st', out, cs')"
  shows "step_ok U H p st cs st' out cs'"
proof (cases "rd_pending st")
  case None
  obtain w1 f r where sp: "sv_poll S w (rd_future st) = (w1, f, r)" by (cases "sv_poll S w (rd_future st)")
  have inv': "run_inv U H p (st\<lparr>rd_future := f\<rparr>) cs"
    using inv None by (simp add: run_inv_def)
  show ?thesis
  proof (cases r)
    case Pending
    with poll None sp inv' show ?thesis by (auto simp: poll_redirecting_def step_ok_def)
  next
    case (Ready er)
    show ?thesis
    proof (cases er)
      case (Inl e)
      with poll None sp Ready show ?thesis by (auto simp: poll_redirecting_def step_ok_def)
    next
      case (Inr res)
      have none: "rd_pending (st\<lparr>rd_future := f\<rparr>) = None" using None by simp
      from poll None sp Ready Inr
      have step: "on_redirect_response L U H S w1 (st\<lparr>rd_future := f\<rparr>)
          (res\<lparr>rs_request_uri := Some (rq_uri (rd_request st))\<rparr>) = (w', st', out, cs')"
        by (simp add: poll_redirecting_def)
      show ?thesis
        using on_redirect_response_ok [OF inv' none step] by (simp add: step_ok_def cong: if_cong)
    qed
  qed
next
  case (Some pd)
  show ?thesis
  proof (cases "pd_polls pd")
    case 0
    have h: "handle_action U H S w (pd_action pd) (st\<lparr>rd_pending := None\<rparr>) (pd_body pd) (pd_res pd)
        (pd_location pd) = (w', st', out, cs')"
      using poll Some 0 by (simp add: poll_redirecting_def)
    obtain status br br1 where
      rw: "rewrite_request H status (fst (last cs)) br = Some (rd_request (st\<lparr>rd_pending := None\<rparr>), br1)"
      and kept: "kept (snd (last cs)) br"
      and take: "br_take br1 = (rd_body_repr (st\<lparr>rd_pending := None\<rparr>), Some (pd_body pd))"
      using inv Some by (auto simp: run_inv_def)
    have pre: "cs \<noteq> []" "successively (layer_hop U H) cs"
      "fp_policy (rd_policy (st\<lparr>rd_pending := None\<rparr>)) = Some p"
      "rd_pending (st\<lparr>rd_pending := None\<rparr>) = None"
      "fp_uris (rd_policy (st\<lparr>rd_pending := None\<rparr>)) = targets cs"
      using inv Some by (auto simp: run_inv_def)
    from handle_action_inv [OF h pre rw kept take] handle_action_https_only [OF h] Some
    show ?thesis by (auto simp: step_ok_def)
  next
    case (Suc n)
    have "run_inv U H p (st\<lparr>rd_pending := Some (pd\<lparr>pd_polls := n\<rparr>)\<rparr>) cs"
      using inv Some by (simp add: run_inv_def)
    with poll Some Suc show ?thesis
      by (auto simp: poll_redirecting_def step_ok_def)
  qed
qed

definition never_pends :: "'h policy_kind \<Rightarrow> bool" where
  "never_pends p \<longleftrightarrow> (\<forall>s hs u us n a. policy_check p s hs u us \<noteq> ActPending n a)"

lemma never_pends_Limit [simp]: "never_pends (Limit m)"
  by (simp add: never_pends_def policy_check_def)

text \<open>Every request after the first passed the policy's checks.\<close>

definition checked :: "'h policy_kind \<Rightarrow> bool \<Rightarrow> ('h, 'b) calls \<Rightarrow> bool" where
  "checked p https cs \<longleftrightarrow>
     (\<forall>k. 0 < k \<and> k < length cs \<longrightarrow>
        (\<exists>s hs. policy_check p s hs (targets cs ! k) (take k (targets cs)) = Follow) \<and>
        (is_http (targets cs ! k) \<or> is_https (targets cs ! k)) \<and>
        (https \<longrightarrow> is_https (targets cs ! k)))"

lemma checked_snoc:
  assumes "checked p https cs" and "cs \<noteq> []"
    and "\<exists>s hs. policy_check p s hs (rq_uri (fst c)) (targets cs) = Follow"
    and "is_http (rq_uri (fst c)) \<or> is_https (rq_uri (fst c))"
    and "https \<longrightarrow> is_https (rq_uri (fst c))"
  shows "checked p https (cs @ [c])"
proof -
  have "length (targets cs) = length cs" by (simp add: targets_def)
  with assms show ?thesis
    by (auto simp: checked_def nth_append less_Suc_eq)
qed

definition run_ok ::
  "'l url_ops \<Rightarrow> 'h header_ops \<Rightarrow> ('h, 'l) follow_policy \<Rightarrow> 'h redirect_request \<Rightarrow>
   ('f, 'h, 'b, 'l) response_future \<Rightarrow> ('h, 'b) calls \<Rightarrow> 'r outcome \<Rightarrow> bool" where
  "run_ok U H self req rf cs out \<longleftrightarrow>
     (case rf of
        Direct f \<Rightarrow> length cs = 1
      | Redirecting st \<Rightarrow>
          (\<exists>p. rc_fetch (fp_policy self) (rq_policy req) = Some p \<and>
             fp_https_only (rd_policy st) = fp_https_only self \<and>
             cs \<noteq> [] \<and> successively (layer_hop U H) cs \<and>
             (out = Yield \<longrightarrow> run_inv U H p st cs) \<and>
             (never_pends p \<longrightarrow>
                checked p (fp_https_only self) cs \<and> (out = Yield \<longrightarrow> rd_pending st = None))))"

lemma fp_for_request_Some:
  assumes "fp_for_request U H self req = (self', req', Some fp)"
  shows "rc_fetch (fp_policy self) (rq_policy req) = fp_policy fp" "fp_policy fp \<noteq> None"
    "fp_uris fp = fp_uris self" "fp_https_only fp = fp_https_only self"
  using assms rc_load_fst [of "fp_policy self" "rq_policy req"]
  by (auto simp: fp_for_request_def Let_def split: option.splits prod.splits if_splits)

lemma run_ok_start:
  fixes rf :: "('f, 'h, 'b, 'l) response_future"
  assumes call: "redirect_call U H S w0 self req body = (w, self', rf, cs)" and uris: "fp_uris self = []"
  shows "run_ok U H self req rf cs Yield"
proof -
  obtain self1 req1 fpo where fr: "fp_for_request U H self req = (self1, req1, fpo)"
    by (cases "fp_for_request U H self req")
  show ?thesis
  proof (cases fpo)
    case None
    with call fr show ?thesis
      by (auto simp: redirect_call_def run_ok_def split: prod.splits)
  next
    case (Some fp)
    obtain fp2 req2 where onr: "fp_on_request U H fp req1 = (fp2, req2)" by fastforce
    obtain w1 f where "sv_call S w0 req2 body = (w1, f)" by fastforce
    with call fr Some onr have rf: "rf = Redirecting \<lparr>rd_future = f, rd_pending = None,
        rd_policy = fp2, rd_request = req2, rd_body_repr = br_try_clone_from BRNone body\<rparr>"
      and cs: "cs = [(req2, body)]"
      by (auto simp: redirect_call_def)
    note s = fp_for_request_Some [OF fr [unfolded Some]] fp_on_request_fields [OF onr]
    then obtain p where "fp_policy fp = Some p" by auto
    with s uris show ?thesis
      by (simp add: rf cs run_ok_def run_inv_def checked_def kept_def targets_def)
  qed
qed

lemma run_ok_poll:
  assumes ok: "run_ok U H self req rf cs (Yield :: ('e + 'h redirect_response) outcome)"
    and poll: "poll_response L U H S w rf = (w', rf', out, cs')"
  shows "run_ok U H self req rf' (cs @ cs') out"
proof (cases rf)
  case (Direct f)
  with ok poll show ?thesis
    by (auto simp: poll_response_def run_ok_def split: prod.splits poll.splits)
next
  case (Redirecting st)
  then obtain st' where rf': "rf' = Redirecting st'"
    and step: "poll_redirecting L U H S w st = (w', st', out, cs')"
    using poll by (auto simp: poll_response_def split: prod.splits)
  obtain p where p: "rc_fetch (fp_policy self) (rq_policy req) = Some p"
    and https: "fp_https_only (rd_policy st) = fp_https_only self" and inv: "run_inv U H p st cs"
    and chk: "never_pends p \<Longrightarrow> checked p (fp_https_only self) cs \<and> rd_pending st = None"
    using ok by (auto simp: run_ok_def Redirecting)
  note so = poll_redirecting_ok [OF inv step, unfolded step_ok_def]
  show ?thesis
  proof (cases "out = Yield")
    case True
    with so have inv': "run_inv U H p st' (cs @ cs')" by simp
    have "checked p (fp_https_only self) (cs @ cs') \<and> rd_pending st' = None" if np: "never_pends p"
    proof (cases "cs' = []")
      case True
      with chk [OF np] so \<open>out = Yield\<close> np show ?thesis by (auto simp: never_pends_def)
    next
      case False
      with chk [OF np] so \<open>out = Yield\<close> obtain rq b where cs': "cs' = [(rq, b)]"
        and fol: "\<exists>s hs. policy_check p s hs (rq_uri rq) (targets cs) = Follow"
        and uri: "is_http (rq_uri rq) \<or> is_https (rq_uri rq)"
          "fp_https_only (rd_policy st) \<longrightarrow> is_https (rq_uri rq)"
        by meson
      from fol uri chk [OF np] https run_invD(1) [OF inv]
      have "checked p (fp_https_only self) (cs @ cs')"
        unfolding cs' by (intro checked_snoc) simp_all
      moreover have "rd_pending st' = None"
        using chk [OF np] so \<open>out = Yield\<close> np unfolding never_pends_def by meson
      ultimately show ?thesis ..
    qed
    with inv' p https so run_invD [OF inv'] show ?thesis
      by (auto simp: run_ok_def rf')
  next
    case False
    with so p https chk run_invD [OF inv] show ?thesis
      by (auto simp: run_ok_def rf')
  qed
qed

lemma run_ok_run:
  assumes "redirect_run L U H S w0 self req body w rf cs out" and "fp_uris self = []"
  shows "run_ok U H self req rf cs out"
  using assms
proof (induction rule: redirect_run.induct)
  case (start w self' rf cs)
  then show ?case
    using run_ok_start [of U H S w0 self req body w self' rf cs] by (auto simp: run_ok_def split: response_future.splits)
next
  case (poll w rf cs w' rf' out cs')
  then show ?case by (blast intro: run_ok_poll)
qed

section \<open>Properties\<close>

lemma run_ok_Redirecting:
  assumes "redirect_run L U H S w0 self req body w rf cs out" and "fp_uris self = []"
  shows "successively (layer_hop U H) cs" "cs \<noteq> []"
    "rc_fetch (fp_policy self) (rq_policy req) = Some p \<Longrightarrow> never_pends p \<Longrightarrow> length cs = 1 \<or>
       checked p (fp_https_only self) cs"
  using run_ok_run [OF assms] by (auto simp: run_ok_def length_Suc_conv split: response_future.splits)

lemma layer_hop_at:
  assumes "redirect_run L U H S w0 self req body w rf cs out" and "fp_uris self = []"
    and "Suc k < length cs"
  shows "layer_hop U H (cs ! k) (cs ! Suc k)"
  using run_ok_Redirecting(1) [OF assms(1,2)] assms(3) by (simp add: successively_conv_nth)

text \<open>
  C6. With a limit of \<open>m\<close> redirects, from the client or from the request, one call never
  sends more than \<open>m + 1\<close> requests, whatever the responses are.
\<close>

theorem redirect_limit:
  assumes "redirect_run L U H S w0 self req body w rf cs out" and "fp_uris self = []"
    and "rc_fetch (fp_policy self) (rq_policy req) = Some (Limit m)"
  shows "length cs \<le> m + 1"
proof -
  let ?k = "length cs - 1"
  from run_ok_Redirecting(3) [OF assms] consider "length cs = 1" | "checked (Limit m) (fp_https_only self) cs"
    by auto
  then show ?thesis
  proof cases
    case 2
    show ?thesis
    proof (cases "length cs \<le> 1")
      case False
      with 2 have "\<exists>s hs. policy_check (Limit m :: 'b policy_kind) s hs (targets cs ! ?k)
          (take ?k (targets cs)) = Follow"
        unfolding checked_def by (metis One_nat_def diff_less less_one not_le zero_less_diff less_trans)
      then show ?thesis by (simp add: policy_check_Limit targets_def)
    qed simp
  qed simp
qed

text \<open>
  C2. No credential header of any kind (authorization, cookie, cookie2,
  proxy-authorization, www-authenticate) is on a request whose target is of another
  origin than that of some earlier request of the same chain, under every policy and
  for every sequence of responses; so a credential removed on the way to another
  origin never comes back when the chain returns.
\<close>

theorem redirect_strips_credentials:
  assumes "redirect_run L U H S w0 self req body w rf cs out" and "fp_uris self = []"
    and "header_laws H" and "i < j" and "j < length cs"
    and "\<not> same_origin (rq_uri (fst (cs ! j))) (rq_uri (fst (cs ! i)))"
  shows "request_secrets H (fst (cs ! j)) = []"
proof -
  have "successively (\<lambda>c c'. header_laws H \<and> layer_hop U H c c') cs"
    using run_ok_Redirecting(1) [OF assms(1,2)] assms(3) by simp
  from redirects.chain_strips [OF this assms(4-6)] show ?thesis .
qed

text \<open>
  C19. Under a policy that decides at once, every redirect that is followed goes to an
  HTTP or HTTPS target, and to HTTPS only when the client is restricted to HTTPS.
\<close>

theorem redirect_schemes:
  assumes "redirect_run L U H S w0 self req body w rf cs out" and "fp_uris self = []"
    and "rc_fetch (fp_policy self) (rq_policy req) = Some p" and "never_pends p"
    and "0 < k" and "k < length cs"
  shows "if fp_https_only self then is_https (rq_uri (fst (cs ! k)))
    else is_http (rq_uri (fst (cs ! k))) \<or> is_https (rq_uri (fst (cs ! k)))"
  using run_ok_Redirecting(3) [OF assms(1-4)] assms(5,6)
  by (auto simp: checked_def targets_def)

text \<open>
  C16. A hop either repeats the request, with the same method, the same payload headers
  and the same bytes (which are only ever resent when they are held in memory: of a
  stream only one known to be empty is replaced by the empty body), or turns it
  into a GET (a HEAD stays a HEAD) with an empty body and no payload header left.
\<close>

theorem redirect_rewrites:
  assumes "redirect_run L U H S w0 self req body w rf cs out" and "fp_uris self = []"
    and "header_laws H" and "Suc k < length cs" and "cs ! k = (r, b)" and "cs ! Suc k = (r', b')"
  shows "rq_method r' = rq_method r \<and>
      (\<forall>n \<in> set payload_names. h_get_all H (rq_headers r') n = h_get_all H (rq_headers r) n) \<and>
      (b' = b \<and> (\<exists>bytes. b = Reusable bytes) \<or> b' = body_default \<and> body_exact b = Some 0) \<or>
    (rq_method r' = ''GET'' \<or> rq_method r' = ''HEAD'' \<and> rq_method r = ''HEAD'') \<and>
      (\<forall>n \<in> set payload_names. h_get_all H (rq_headers r') n = []) \<and> b' = body_default"
proof -
  from layer_hop_at [OF assms(1,2,4)] have "layer_hop U H (r, b) (r', b')"
    by (simp add: assms(5,6))
  then show ?thesis
  proof cases
    case (layer_hopI status br r1 br1 br2 fp location fp')
    have hs: "h_get_all H (rq_headers r') n = h_get_all H (rq_headers r1) n"
      if "n \<in> set payload_names" for n
    proof -
      from that have "n \<noteq> ''referer''" "n \<notin> set sensitive_names"
        using payload_names_disjoint by auto
      with fp_on_request_get_all [OF layer_hopI(6) assms(3)] show ?thesis by simp
    qed
    have meth: "rq_method r' = rq_method r1"
      using fp_on_request_fields(2) [OF layer_hopI(6)] by simp
    from rewrite_request_cases [OF layer_hopI(1)] show ?thesis
    proof
      assume "r1 = r \<and> br1 = br"
      with hs meth kept_take [OF layer_hopI(2)] layer_hopI(3) show ?thesis by auto
    next
      assume "br1 = BREmpty \<and> rq_headers r1 = drop_payload_headers H (rq_headers r) \<and>
        (rq_method r1 = ''GET'' \<or> rq_method r1 = ''HEAD'' \<and> rq_method r = ''HEAD'')"
      with hs meth layer_hopI(3) show ?thesis
        by (auto simp: drop_payload_headers_get_all [OF assms(3)])
    qed
  qed
qed

text \<open>Polling until the future finishes, at most \<open>n\<close> times: the requests sent and the outcome.\<close>

fun drive ::
  "uri_lib \<Rightarrow> 'l url_ops \<Rightarrow> 'h header_ops \<Rightarrow> ('w, 'f, 'h, 'b, 'e) service \<Rightarrow> nat \<Rightarrow> 'w \<Rightarrow>
   ('f, 'h, 'b, 'l) response_future \<Rightarrow> ('h, 'b) calls \<Rightarrow>
   ('h, 'b) calls \<times> ('e + 'h redirect_response) outcome" where
  "drive L U H S 0 w rf cs = (cs, Yield)"
| "drive L U H S (Suc n) w rf cs =
     (case poll_response L U H S w rf of
        (w', rf', Yield, cs') \<Rightarrow> drive L U H S n w' rf' (cs @ cs')
      | (w', rf', out, cs') \<Rightarrow> (cs @ cs', out))"

text \<open>A service whose futures finish within \<open>K\<close> polls after the first.\<close>

definition finishes :: "('w, 'f, 'h, 'b, 'e) service \<Rightarrow> ('f \<Rightarrow> nat) \<Rightarrow> nat \<Rightarrow> bool" where
  "finishes S rank K \<longleftrightarrow>
     (\<forall>f. rank f \<le> K) \<and> (\<forall>w f w' f'. sv_poll S w f = (w', f', Pending) \<longrightarrow> rank f' < rank f)"

lemma handle_action_Yield:
  "handle_action U H S w act st body res location = (w', st', Yield, cs') \<Longrightarrow> cs' \<noteq> []"
  by (cases act) (auto split: prod.splits)

lemma on_redirect_response_Yield:
  assumes "on_redirect_response L U H S w st res = (w', st', Yield, cs')"
  shows "cs' \<noteq> [] \<or> rd_pending st' \<noteq> None"
  using assms
  by (auto simp: on_redirect_response_def Let_def split: option.splits prod.splits redirect_result.splits
      action.splits dest: handle_action_Yield)

lemma poll_redirecting_progress:
  fixes H :: "'h header_ops"
  assumes "poll_redirecting L U H S w st = (w', st', out, cs')" and "rd_pending st = None"
    and "run_inv U H (Limit m) st cs" and "finishes S rank K"
  shows "out \<noteq> Panicked \<and>
    (out = Yield \<longrightarrow> rd_pending st' = None \<and>
       (cs' = [] \<and> rank (rd_future st') < rank (rd_future st) \<or> length cs' = 1 \<and> length cs \<le> m))"
proof -
  from poll_redirecting_ok [OF assms(3,1)] have so: "step_ok U H (Limit m) st cs st' out cs'" .
  then have none: "out = Yield \<Longrightarrow> rd_pending st' = None"
    using assms(2) policy_check_Limit(2) unfolding step_ok_def by metis
  have sent: "length cs' = 1 \<and> length cs \<le> m" if out: "out = Yield" and cs': "cs' \<noteq> []"
  proof -
    from so out cs' assms(2) obtain rq b s hs where "cs' = [(rq, b)]"
      and "policy_check (Limit m :: 'h policy_kind) s hs (rq_uri rq) (targets cs) = Follow"
      unfolding step_ok_def by (metis (full_types))
    then show ?thesis by (simp add: policy_check_Limit targets_def)
  qed
  obtain w1 f r where sp: "sv_poll S w (rd_future st) = (w1, f, r)" by (cases "sv_poll S w (rd_future st)")
  show ?thesis
  proof (cases r)
    case Pending
    with assms(1,2,4) sp none show ?thesis
      by (auto simp: poll_redirecting_def finishes_def)
  next
    case (Ready er)
    show ?thesis
    proof (cases er)
      case (Inl e)
      with assms(1,2) sp Ready show ?thesis by (auto simp: poll_redirecting_def)
    next
      case (Inr res)
      have inv': "run_inv U H (Limit m) (st\<lparr>rd_future := f\<rparr>) cs" and none': "rd_pending (st\<lparr>rd_future := f\<rparr>) = None"
        using assms(2,3) by (simp_all add: run_inv_def)
      from assms(1,2) sp Ready Inr
      have step: "on_redirect_response L U H S w1 (st\<lparr>rd_future := f\<rparr>)
          (res\<lparr>rs_request_uri := Some (rq_uri (rd_request st))\<rparr>) = (w', st', out, cs')"
        by (simp add: poll_redirecting_def)
      have "cs' \<noteq> []" if "out = Yield"
        using on_redirect_response_Yield [OF step [unfolded that]] none [OF that] by simp
      with on_redirect_response_ok [OF inv' none' step] none sent show ?thesis by blast
    qed
  qed
qed

lemma drive_finishes:
  assumes "run_inv U H (Limit m) st cs" and "rd_pending st = None" and "finishes S rank K"
    and "length cs \<le> m + 1"
    and "(m + 1 - length cs) * (K + 1) + rank (rd_future st) < n"
  shows "snd (drive L U H S n w (Redirecting st) cs) \<notin> {Yield, Panicked}"
  using assms(1,2,4,5)
proof (induction n arbitrary: w st cs)
  case 0
  then show ?case by simp
next
  case (Suc n)
  obtain w' st' out cs' where poll: "poll_redirecting L U H S w st = (w', st', out, cs')"
    by (cases "poll_redirecting L U H S w st")
  note pr = poll_redirecting_progress [OF poll Suc.prems(2,1) assms(3)]
  show ?case
  proof (cases "out = Yield")
    case True
    have inv': "run_inv U H (Limit m) st' (cs @ cs')"
      using poll_redirecting_ok [OF Suc.prems(1) poll] True by (simp add: step_ok_def)
    have rank: "rank (rd_future st') \<le> K" using assms(3) by (simp add: finishes_def)
    have bound: "length (cs @ cs') \<le> m + 1 \<and>
        (m + 1 - length (cs @ cs')) * (K + 1) + rank (rd_future st') < n"
    proof (cases "cs' = []")
      case True
      with \<open>out = Yield\<close> pr Suc.prems show ?thesis by auto
    next
      case False
      with \<open>out = Yield\<close> pr have "length cs' = 1" and le: "length cs \<le> m" by auto
      then obtain d where "m + 1 - length cs = Suc d" and "m + 1 - length (cs @ cs') = d"
        using diff_Suc_1 by fastforce
      with Suc.prems(4) rank \<open>length cs' = 1\<close> le show ?thesis by simp
    qed
    from pr True have "rd_pending st' = None" by simp
    from Suc.IH [OF inv' this conjunct1 [OF bound] conjunct2 [OF bound], of w'] True poll
    show ?thesis by (simp add: poll_response_def)
  next
    case False
    with poll pr show ?thesis by (cases out) (auto simp: poll_response_def)
  qed
qed

text \<open>
  C11. The redirect loop ends: with a limit of \<open>m\<close> redirects over a service whose futures
  finish within \<open>K\<close> further polls, polling the response \<open>(m + 1) * (K + 1)\<close> times gives a
  response or an error, without a panic, even when every response redirects to itself.
\<close>

theorem redirect_terminates:
  assumes "redirect_call U H S w0 self req body = (w, self', rf, cs)" and "fp_uris self = []"
    and "rc_fetch (fp_policy self) (rq_policy req) = Some (Limit m)" and "finishes S rank K"
  shows "snd (drive L U H S ((m + 1) * (K + 1)) w rf cs) \<notin> {Yield, Panicked}"
proof -
  obtain self1 req1 fpo where fr: "fp_for_request U H self req = (self1, req1, fpo)"
    by (cases "fp_for_request U H self req")
  have "fpo \<noteq> None"
    using fr assms(3) rc_load_fst [of "fp_policy self" "rq_policy req"]
    by (auto simp: fp_for_request_def Let_def is_policy_none_def split: prod.splits)
  with assms(1) fr obtain st where rf: "rf = Redirecting st" and "rd_pending st = None" "length cs = 1"
    by (auto simp: redirect_call_def split: prod.splits)
  moreover have "run_inv U H (Limit m) st cs"
    using run_ok_start [OF assms(1,2)] assms(3) rf by (auto simp: run_ok_def)
  moreover have "rank (rd_future st) \<le> K" using assms(4) by (simp add: finishes_def)
  ultimately show ?thesis
    unfolding rf by (intro drive_finishes [OF _ _ assms(4)]) auto
qed

section \<open>A concrete run\<close>

text \<open>
  A service that answers from a script, a URI parser for texts that are a host (or
  \<open>http:\<close> and a host), and a run of a client that follows one redirect to another host.
\<close>

definition scripted :: "('h redirect_response list, unit, 'h, unit, string) service" where
  "scripted =
     \<lparr>sv_call = (\<lambda>w req body. (w, ())),
      sv_poll = (\<lambda>w f. case w of [] \<Rightarrow> ([], (), Ready (Inl ''closed'')) | r # rs \<Rightarrow> (rs, (), Ready (Inr r))),
      sv_from_box = (\<lambda>e. ''redirect'')\<rparr>"

definition text_uris :: uri_lib where
  "text_uris =
     \<lparr>lib_uri_parse = (\<lambda>s. case strip_prefix ''http:'' s of
          Some h \<Rightarrow> Some (uri_at HTTP h ''/'') | None \<Rightarrow> Some (uri_at HTTPS s ''/'')),
      lib_url_parse = Some,
      lib_into_parts = (\<lambda>u. \<lparr>p_scheme = scheme u, p_authority = authority u, p_path_and_query = None\<rparr>),
      lib_from_parts = (\<lambda>p. None), lib_authority = Some, lib_path_and_query = Some,
      lib_controls = (\<lambda>c. False), lib_percent_encode = (\<lambda>S s. s)\<rparr>"

type_synonym list_h = "(string \<times> hvalue list) list"

definition redirect_to :: "nat \<Rightarrow> string \<Rightarrow> list_h redirect_response" where
  "redirect_to status loc =
     \<lparr>rs_status = status, rs_headers = [(''location'', [plain loc])], rs_request_uri = None,
      rs_history = None\<rparr>"

definition sample_request :: "string \<Rightarrow> list_h redirect_request" where
  "sample_request m =
     \<lparr>rq_method = m, rq_uri = uri_at HTTPS ''a'' ''/'', rq_version = HTTP_11,
      rq_headers = [(''authorization'', [plain ''secret'']), (''content-type'', [plain ''text''])],
      rq_policy = None\<rparr>"

definition sample_policy :: "list_h policy_kind \<Rightarrow> (list_h, string) follow_policy" where
  "sample_policy p = fp_with_https_only (fp_new p) True"

definition hop_of :: "list_h redirect_request \<Rightarrow> uri \<Rightarrow> list_h redirect_request" where
  "hop_of r u = r\<lparr>rq_method := ''GET'', rq_uri := u,
     rq_headers := foldl (h_remove list_headers)
       (drop_payload_headers list_headers (rq_headers r)) sensitive_names\<rparr>"

lemma sample_policy_uris [simp]: "fp_uris (sample_policy p) = []"
  by (simp add: sample_policy_def fp_with_https_only_def fp_new_def)

lemma sample_policy_fetch [simp]:
  "rc_fetch (fp_policy (sample_policy p)) (rq_policy (sample_request m)) = Some p"
  by (simp add: sample_policy_def fp_with_https_only_def fp_new_def rc_fetch_def sample_request_def)

lemmas run_defs = redirect_call_def fp_for_request_def rc_load_def rc_remove_def is_policy_none_def
  fp_on_request_def sample_policy_def fp_with_https_only_def fp_new_def sample_request_def
  remove_sensitive_headers_def scripted_def body_default_def Let_def

lemma sample_call:
  "redirect_call text_urls list_headers scripted ws (sample_policy (Limit m)) (sample_request ''POST'')
     (Reusable ''hi'') =
   (ws, sample_policy (Limit m),
    Redirecting \<lparr>rd_future = (), rd_pending = None, rd_policy = sample_policy (Limit m),
      rd_request = sample_request ''POST'', rd_body_repr = BRSome (Reusable ''hi'')\<rparr>,
    [(sample_request ''POST'', Reusable ''hi'')])"
  by (simp add: run_defs)

lemma sample_resolve: "resolve_uri text_uris text_urls ''b'' u = Some (uri_at HTTPS ''b'' ''/'')"
  by (simp add: resolve_uri_def text_urls_def text_uris_def into_uri_def check_uri_def uri_at_def
      strip_prefix_def)

lemma location_get: "h_get list_headers [(''location'', [v])] ''location'' = Some v"
  by (simp add: h_get_def list_headers_get_all)

lemma sample_not_same: "\<not> same_origin (uri_at HTTPS ''b'' ''/'') (uri_at HTTPS ''a'' ''/'')"
  by (simp add: same_origin_def uri_at_def eq_ignore_ascii_case_def ascii_lower_def)

lemma hop_of_uri [simp]: "rq_uri (hop_of r u) = u" "rq_method (hop_of r u) = ''GET''"
  by (simp_all add: hop_of_def)

lemma sample_request_uri [simp]:
  "rq_uri (sample_request m) = uri_at HTTPS ''a'' ''/''" "rq_method (sample_request m) = m"
  by (simp_all add: sample_request_def)

lemma sample_request_secrets: "request_secrets list_headers (sample_request m) = [''authorization'']"
  by (simp add: request_secrets_def sample_request_def list_headers_get_all sensitive_names_def)

definition sample_calls :: "(list_h, unit) calls" where
  "sample_calls =
     [(sample_request ''POST'', Reusable ''hi''),
      (hop_of (sample_request ''POST'') (uri_at HTTPS ''b'' ''/''), body_default)]"

lemma sample_calls_nth [simp]:
  "sample_calls ! 0 = (sample_request ''POST'', Reusable ''hi'')"
  "sample_calls ! Suc 0 = (hop_of (sample_request ''POST'') (uri_at HTTPS ''b'' ''/''), body_default)"
  "length sample_calls = 2"
  by (simp_all add: sample_calls_def)

lemma sample_run:
  "\<exists>w rf. redirect_run text_uris text_urls list_headers scripted [redirect_to 302 ''b'']
     (sample_policy (Limit 1)) (sample_request ''POST'') (Reusable ''hi'') w rf sample_calls Yield"
proof -
  let ?st = "\<lparr>rd_future = (), rd_pending = None, rd_policy = sample_policy (Limit 1),
      rd_request = sample_request ''POST'', rd_body_repr = BRSome (Reusable ''hi'' :: unit body)\<rparr>"
  have red: "fp_redirect text_urls list_headers (sample_policy (Limit 1))
      \<lparr>la_status = 302, la_headers = hs, la_location = uri_at HTTPS ''b'' ''/'',
        la_previous = uri_at HTTPS ''a'' ''/''\<rparr> =
      ((sample_policy (Limit 1))\<lparr>fp_uris := [uri_at HTTPS ''a'' ''/''],
         fp_history := Some [\<lparr>he_status = 302, he_uri = uri_at HTTPS ''b'' ''/'',
           he_previous = uri_at HTTPS ''a'' ''/'', he_headers = hs\<rparr>]\<rparr>, ROk Follow)" for hs
    by (simp add: fp_redirect_def sample_policy_def fp_with_https_only_def fp_new_def policy_check_def
        is_https_def is_http_def uri_at_def is_policy_none_def)
  have "\<exists>w rf. poll_response text_uris text_urls list_headers scripted [redirect_to 302 ''b'']
      (Redirecting ?st) =
    (w, rf, Yield, [(hop_of (sample_request ''POST'') (uri_at HTTPS ''b'' ''/''), body_default)])"
    using red sample_not_same
    by (simp add: poll_response_def poll_redirecting_def scripted_def redirect_to_def
        on_redirect_response_def rewrite_request_def sample_request_def location_get
        text_urls_def [THEN arg_cong [where f = ul_to_str]] plain_def sample_resolve
        fp_on_request_def remove_sensitive_headers_def hop_of_def sample_policy_def
        fp_with_https_only_def fp_new_def body_default_def)
  with redirect_run.poll [OF redirect_run.start [OF sample_call]] show ?thesis
    by (fastforce simp: sample_calls_def)
qed

theorem redirect_limit_witness:
  "\<exists>w rf. redirect_run text_uris text_urls list_headers scripted [redirect_to 302 ''b'']
       (sample_policy (Limit 1)) (sample_request ''POST'') (Reusable ''hi'') w rf sample_calls Yield \<and>
     length sample_calls \<le> 1 + 1"
proof -
  obtain w rf where run: "redirect_run text_uris text_urls list_headers scripted [redirect_to 302 ''b'']
      (sample_policy (Limit 1)) (sample_request ''POST'') (Reusable ''hi'') w rf sample_calls Yield"
    using sample_run by blast
  from redirect_limit [OF run sample_policy_uris sample_policy_fetch] run show ?thesis
    by blast
qed

theorem redirect_strips_credentials_witness:
  "request_secrets list_headers (sample_request ''POST'') \<noteq> [] \<and>
   request_secrets list_headers (hop_of (sample_request ''POST'') (uri_at HTTPS ''b'' ''/'')) = []"
proof -
  obtain w rf where run: "redirect_run text_uris text_urls list_headers scripted [redirect_to 302 ''b'']
      (sample_policy (Limit 1)) (sample_request ''POST'') (Reusable ''hi'') w rf sample_calls Yield"
    using sample_run by blast
  have "request_secrets list_headers (hop_of (sample_request ''POST'') (uri_at HTTPS ''b'' ''/'')) = []"
    using redirect_strips_credentials [OF run sample_policy_uris list_headers_laws, of 0 1] sample_not_same
    by simp
  then show ?thesis by (simp add: sample_request_secrets)
qed

theorem redirect_schemes_witness:
  "is_https (rq_uri (hop_of (sample_request ''POST'') (uri_at HTTPS ''b'' ''/'')))"
proof -
  obtain w rf where run: "redirect_run text_uris text_urls list_headers scripted [redirect_to 302 ''b'']
      (sample_policy (Limit 1)) (sample_request ''POST'') (Reusable ''hi'') w rf sample_calls Yield"
    using sample_run by blast
  from redirect_schemes [OF run sample_policy_uris sample_policy_fetch never_pends_Limit, of 1]
  show ?thesis by (simp add: sample_policy_def fp_with_https_only_def)
qed

theorem redirect_rewrites_witness:
  "rq_method (hop_of (sample_request ''POST'') (uri_at HTTPS ''b'' ''/'')) = ''GET'' \<and>
   h_get_all list_headers (rq_headers (hop_of (sample_request ''POST'') (uri_at HTTPS ''b'' ''/'')))
     ''content-type'' = []"
proof -
  obtain w rf where run: "redirect_run text_uris text_urls list_headers scripted [redirect_to 302 ''b'']
      (sample_policy (Limit 1)) (sample_request ''POST'') (Reusable ''hi'') w rf sample_calls Yield"
    using sample_run by blast
  from redirect_rewrites [OF run sample_policy_uris list_headers_laws, where k = 0,
      OF _ sample_calls_nth(1,2)] show ?thesis
    by (simp add: payload_names_def)
qed

theorem redirect_terminates_witness:
  "\<exists>rf. snd (drive text_uris text_urls list_headers scripted ((1 + 1) * (0 + 1))
     [redirect_to 302 ''b'', redirect_to 302 ''b''] rf
     [(sample_request ''POST'', Reusable ''hi'')]) \<notin> {Yield, Panicked}"
proof -
  have fin: "finishes (scripted :: (list_h redirect_response list, unit, list_h, unit, string) service) (\<lambda>_. 0) 0"
    by (auto simp: finishes_def scripted_def split: list.splits)
  show ?thesis
    using redirect_terminates [OF sample_call sample_policy_uris sample_policy_fetch fin] by blast
qed

text \<open>
  A redirect approved by an asynchronous decision skips the checks a decision made
  at once goes through: the next poll sends the request to the target, whatever its
  scheme and even when the client is restricted to HTTPS, and the hop is not added to
  the history the response reports.
\<close>

lemma pending_follow_unchecked:
  assumes "rd_pending st = Some pd" and "pd_polls pd = 0" and "pd_action pd = Follow"
  shows "\<exists>w' st' req. poll_redirecting L U H S w st = (w', st', Yield, [(req, pd_body pd)]) \<and>
    rq_uri req = pd_location pd \<and> fp_history (rd_policy st') = fp_history (rd_policy st) \<and>
    fp_https_only (rd_policy st') = fp_https_only (rd_policy st)"
proof -
  obtain fp req where onr: "fp_on_request U H (rd_policy st)
      ((rd_request st)\<lparr>rq_uri := pd_location pd\<rparr>) = (fp, req)"
    by fastforce
  obtain w1 f where "sv_call S w req (pd_body pd) = (w1, f)" by fastforce
  with onr assms fp_on_request_fields [OF onr] show ?thesis
    by (simp add: poll_redirecting_def)
qed

text \<open>Reached by a client restricted to HTTPS whose policy decides asynchronously.\<close>

definition async_policy :: "list_h policy_kind" where
  "async_policy = Custom (\<lambda>a. ActPending 0 Follow)"

lemma pending_follow_unchecked_witness:
  "\<exists>w rf c c'. redirect_run text_uris text_urls list_headers scripted [redirect_to 307 ''http:b'']
     (sample_policy async_policy) (sample_request ''POST'') (Reusable ''hi'') w rf [c, c'] Yield \<and>
     fp_https_only (sample_policy async_policy) \<and> is_http (rq_uri (fst c'))"
proof -
  let ?run = "redirect_run text_uris text_urls list_headers scripted [redirect_to 307 ''http:b'']
     (sample_policy async_policy) (sample_request ''POST'') (Reusable ''hi'')"
  let ?st = "\<lparr>rd_future = (), rd_pending = None, rd_policy = sample_policy async_policy,
      rd_request = sample_request ''POST'', rd_body_repr = BRSome (Reusable ''hi'' :: unit body)\<rparr>"
  have call: "redirect_call text_urls list_headers scripted ws (sample_policy async_policy)
      (sample_request ''POST'') (Reusable ''hi'') =
    (ws, sample_policy async_policy, Redirecting ?st, [(sample_request ''POST'', Reusable ''hi'')])" for ws
    by (simp add: run_defs async_policy_def)
  have "resolve_uri text_uris text_urls ''http:b'' u = Some (uri_at HTTP ''b'' ''/'')" for u
    by (simp add: resolve_uri_def text_urls_def text_uris_def into_uri_def check_uri_def uri_at_def
        strip_prefix_def)
  then have "\<exists>w st' pd. poll_response text_uris text_urls list_headers scripted [redirect_to 307 ''http:b'']
      (Redirecting ?st) = (w, Redirecting st', Yield, []) \<and> rd_pending st' = Some pd \<and> pd_polls pd = 0 \<and>
      pd_action pd = Follow \<and> pd_location pd = uri_at HTTP ''b'' ''/''"
    by (simp add: poll_response_def poll_redirecting_def scripted_def redirect_to_def
        on_redirect_response_def rewrite_request_def sample_request_def location_get
        text_urls_def [THEN arg_cong [where f = ul_to_str]] plain_def sample_policy_def
        fp_with_https_only_def fp_new_def fp_redirect_def policy_check_def async_policy_def Let_def)
  then obtain w st' pd where poll: "poll_response text_uris text_urls list_headers scripted
      [redirect_to 307 ''http:b''] (Redirecting ?st) = (w, Redirecting st', Yield, [])"
    and pd: "rd_pending st' = Some pd" "pd_polls pd = 0" "pd_action pd = Follow"
    and loc: "pd_location pd = uri_at HTTP ''b'' ''/''" by blast
  have run1: "?run w (Redirecting st') [(sample_request ''POST'', Reusable ''hi'')] Yield"
    using redirect_run.poll [OF redirect_run.start [OF call] poll] by simp
  obtain w' st'' req where "poll_redirecting text_uris text_urls list_headers scripted w st' =
      (w', st'', Yield, [(req, pd_body pd)])" and "rq_uri req = pd_location pd"
    using pending_follow_unchecked [OF pd, of text_uris text_urls list_headers scripted w] by blast
  then have "?run w' (Redirecting st'') [(sample_request ''POST'', Reusable ''hi''), (req, pd_body pd)] Yield
      \<and> is_http (rq_uri req)"
    using redirect_run.poll [OF run1] loc by (auto simp: poll_response_def is_http_def uri_at_def)
  moreover have "fp_https_only (sample_policy async_policy)"
    by (simp add: sample_policy_def fp_with_https_only_def)
  ultimately show ?thesis by (metis fst_conv)
qed

end
