(* ===== verification/Transitions.thy ===== *)
theory Transitions
  imports Prelude
begin

text \<open>
  Systems that move by steps: the interfaces for an invariant of a step relation, and for a
  system each of whose steps is a sequence of steps of a more abstract one. They are interpreted on
  the pool, the key log, the connecting futures and the calls of the language bindings.
\<close>

locale step_invariant =
  fixes start :: "'s \<Rightarrow> bool"
    and step :: "'s \<Rightarrow> 's \<Rightarrow> bool"
    and inv :: "'s \<Rightarrow> bool"
  assumes at_start: "start s \<Longrightarrow> inv s"
    and at_step: "step s s' \<Longrightarrow> inv s \<Longrightarrow> inv s'"
begin

lemma reached: "step\<^sup>*\<^sup>* s0 s \<Longrightarrow> start s0 \<Longrightarrow> inv s"
  by (induction rule: rtranclp_induct) (blast intro: at_start at_step)+

text \<open>What an invariant system keeps from one point of a run to a later one, if every step keeps it.\<close>

lemma kept:
  assumes "step\<^sup>*\<^sup>* s s'" and "inv s" and "P s"
    and "\<And>a b. step a b \<Longrightarrow> inv a \<Longrightarrow> P a \<Longrightarrow> P b"
  shows "inv s' \<and> P s'"
  using assms(1-3) by (induction rule: rtranclp_induct) (blast intro: at_step assms(4))+

end

locale step_simulation = step_invariant start step inv
  for start :: "'s \<Rightarrow> bool" and step :: "'s \<Rightarrow> 's \<Rightarrow> bool" and inv :: "'s \<Rightarrow> bool" +
  fixes abs_start :: "'a \<Rightarrow> bool"
    and abs_step :: "'a \<Rightarrow> 'a \<Rightarrow> bool"
    and abs :: "'s \<Rightarrow> 'a"
  assumes simulated_start: "start s \<Longrightarrow> abs_start (abs s)"
    and simulated_step: "step s s' \<Longrightarrow> inv s \<Longrightarrow> abs_step\<^sup>*\<^sup>* (abs s) (abs s')"
begin

lemma simulated_run: "step\<^sup>*\<^sup>* s s' \<Longrightarrow> inv s \<Longrightarrow> abs_step\<^sup>*\<^sup>* (abs s) (abs s') \<and> inv s'"
proof (induction rule: rtranclp_induct)
  case (step y z)
  then show ?case by (meson at_step rtranclp_trans simulated_step)
qed simp

lemma simulated:
  assumes "step\<^sup>*\<^sup>* s0 s" and "start s0"
  shows "inv s \<and> abs_start (abs s0) \<and> abs_step\<^sup>*\<^sup>* (abs s0) (abs s)"
  using simulated_run[OF assms(1) at_start[OF assms(2)]] simulated_start[OF assms(2)] by simp

end

end
