(* ===== verification/Pool.thy ===== *)
theory Pool
  imports Transitions
begin

text \<open>
  The connection pool (\<open>src/src/client/layer/client/pool.rs\<close>). The LRU cache of the \<open>lru\<close>
  crate and the one-shot channels of tokio are records of operations with their
  documented laws; a channel is named by the number its creation gives it. A \<open>Vec\<close> is a
  list whose end is its top. Times are natural numbers; the mutex makes every operation
  one step.
\<close>

section \<open>Interfaces to the crates used\<close>

record ('k, 'v, 'm) lru_ops =
  lru_entries :: "'m \<Rightarrow> ('k \<times> 'v) list"
  lru_touch :: "'m \<Rightarrow> 'k \<Rightarrow> 'm"
  lru_get_or_insert :: "'m \<Rightarrow> 'k \<Rightarrow> 'v \<Rightarrow> 'm"
  lru_set :: "'m \<Rightarrow> 'k \<Rightarrow> 'v \<Rightarrow> 'm"
  lru_pop :: "'m \<Rightarrow> 'k \<Rightarrow> 'm"

definition lru_get :: "('k, 'v, 'm) lru_ops \<Rightarrow> 'm \<Rightarrow> 'k \<Rightarrow> 'v option" where
  "lru_get L m k = map_of (lru_entries L m) k"

text \<open>A full cache that inserts a key evicts another one.\<close>

definition lru_laws :: "('k, 'v, 'm) lru_ops \<Rightarrow> bool" where
  "lru_laws L \<longleftrightarrow>
     (\<forall>m. distinct (map fst (lru_entries L m))) \<and>
     (\<forall>m k k'. lru_get L (lru_touch L m k) k' = lru_get L m k') \<and>
     (\<forall>m k v k'. lru_get L (lru_set L m k v) k' =
        (if k' = k \<and> lru_get L m k \<noteq> None then Some v else lru_get L m k')) \<and>
     (\<forall>m k k'. lru_get L (lru_pop L m k) k' = (if k' = k then None else lru_get L m k')) \<and>
     (\<forall>m k v. lru_get L (lru_get_or_insert L m k v) k =
        (case lru_get L m k of None \<Rightarrow> Some v | Some w \<Rightarrow> Some w)) \<and>
     (\<forall>m k v k' u. k' \<noteq> k \<longrightarrow> lru_get L (lru_get_or_insert L m k v) k' = Some u \<longrightarrow>
        lru_get L m k' = Some u)"

record ('c, 'x) chan_ops =
  ch_new :: "'x \<Rightarrow> 'x \<times> nat"
  ch_is_closed :: "'x \<Rightarrow> nat \<Rightarrow> bool"
  ch_send :: "'x \<Rightarrow> nat \<Rightarrow> 'c \<Rightarrow> 'x \<times> 'c option"
  ch_poll :: "'x \<Rightarrow> nat \<Rightarrow> 'x \<times> 'c option poll"
  ch_drop_tx :: "'x \<Rightarrow> nat \<Rightarrow> 'x"
  ch_drop_rx :: "'x \<Rightarrow> nat \<Rightarrow> 'x"
  ch_next :: "'x \<Rightarrow> nat"
  ch_value :: "'x \<Rightarrow> nat \<Rightarrow> 'c option"

text \<open>
  \<open>ch_send\<close> gives the value back when the receiver is gone; \<open>ch_poll\<close> gives \<^term>\<open>None\<close> when
  the sender was dropped unused; \<open>ch_next\<close> and \<open>ch_value\<close> observe the number of the next
  channel and the value sent and not yet received.
\<close>

definition chan_new_law :: "('c, 'x) chan_ops \<Rightarrow> bool" where
  "chan_new_law C \<longleftrightarrow>
     (\<forall>x x' w. ch_new C x = (x', w) \<longrightarrow>
        w = ch_next C x \<and> ch_next C x' = Suc w \<and> snd (ch_poll C x' w) = Pending \<and>
        ch_value C x' = (ch_value C x)(w := None))"

definition chan_send_law :: "('c, 'x) chan_ops \<Rightarrow> bool" where
  "chan_send_law C \<longleftrightarrow>
     (\<forall>x w v x' r. ch_send C x w v = (x', r) \<longrightarrow>
        ch_next C x' = ch_next C x \<and> (r = None \<or> r = Some v) \<and>
        ch_value C x' = (if r = None then (ch_value C x)(w := Some v) else ch_value C x))"

definition chan_poll_law :: "('c, 'x) chan_ops \<Rightarrow> bool" where
  "chan_poll_law C \<longleftrightarrow>
     (\<forall>x w x' r. ch_poll C x w = (x', r) \<longrightarrow>
        ch_next C x' = ch_next C x \<and>
        (case r of
           Ready (Some v) \<Rightarrow> ch_value C x w = Some v \<and> ch_value C x' = (ch_value C x)(w := None)
         | _ \<Rightarrow> ch_value C x' = ch_value C x))"

definition chan_drop_law :: "('c, 'x) chan_ops \<Rightarrow> bool" where
  "chan_drop_law C \<longleftrightarrow>
     (\<forall>x w. ch_next C (ch_drop_tx C x w) = ch_next C x \<and> ch_value C (ch_drop_tx C x w) = ch_value C x) \<and>
     (\<forall>x w. ch_next C (ch_drop_rx C x w) = ch_next C x \<and>
        ch_value C (ch_drop_rx C x w) = (ch_value C x)(w := None))"

definition chan_laws :: "('c, 'x) chan_ops \<Rightarrow> bool" where
  "chan_laws C \<longleftrightarrow> chan_new_law C \<and> chan_send_law C \<and> chan_poll_law C \<and> chan_drop_law C"

section \<open>Poolable connections\<close>

datatype 'c reservation = Shared 'c 'c | Unique 'c

text \<open>The \<open>Poolable\<close> trait; whether a connection is open changes with time.\<close>

record 'c poolable_ops =
  pl_is_open :: "'c \<Rightarrow> bool"
  pl_reserve :: "'c \<Rightarrow> 'c reservation"
  pl_can_share :: "'c \<Rightarrow> bool"

datatype ver = Auto | Http2

record 'c idle =
  id_value :: 'c
  id_idle_at :: nat

record ('k, 'c, 'm) pool_inner =
  connecting :: "'k set"
  idle_cache :: 'm
  max_idle_per_host :: nat
  waiters :: "('k, nat list) hmap"
  idle_interval :: bool
  timer_is_empty :: bool
  idle_timeout :: "nat option"

type_synonym ('k, 'c, 'm) idle_ops = "('k, 'c idle list, 'm) lru_ops"

text \<open>\<open>Pool::new\<close>: disabled (\<^term>\<open>None\<close>) when no connection may stay idle.\<close>

definition pool_new :: "'m \<Rightarrow> nat option \<Rightarrow> nat \<Rightarrow> bool \<Rightarrow> ('k, 'c, 'm) pool_inner option" where
  "pool_new cache timeout max_idle no_timer =
     (if max_idle > 0
      then Some \<lparr>connecting = {}, idle_cache = cache, max_idle_per_host = max_idle, waiters = [],
             idle_interval = False, timer_is_empty = no_timer, idle_timeout = timeout\<rparr>
      else None)"

text \<open>\<open>Expiration::expires\<close>, and \<open>IdlePopper::pop\<close> on the list from its top.\<close>

definition expires :: "nat option \<Rightarrow> nat \<Rightarrow> nat \<Rightarrow> bool" where
  "expires expiration since now = (case expiration of Some t \<Rightarrow> now - since > t | None \<Rightarrow> False)"

fun pop_from_top ::
  "'c poolable_ops \<Rightarrow> nat option \<Rightarrow> nat \<Rightarrow> 'c idle list \<Rightarrow> 'c idle list \<times> 'c idle option" where
  "pop_from_top P expiration now [] = ([], None)"
| "pop_from_top P expiration now (e # es) =
     (if \<not> pl_is_open P (id_value e) then pop_from_top P expiration now es
      else if expires expiration (id_idle_at e) now then pop_from_top P expiration now es
      else (case pl_reserve P (id_value e) of
              Shared to_reinsert to_checkout \<Rightarrow>
                (\<lparr>id_value = to_reinsert, id_idle_at = now\<rparr> # es,
                 Some \<lparr>id_value = to_checkout, id_idle_at = id_idle_at e\<rparr>)
            | Unique u \<Rightarrow> (es, Some \<lparr>id_value = u, id_idle_at = id_idle_at e\<rparr>)))"

definition idle_popper_pop ::
  "'c poolable_ops \<Rightarrow> nat option \<Rightarrow> nat \<Rightarrow> 'c idle list \<Rightarrow> 'c idle list \<times> 'c idle option" where
  "idle_popper_pop P expiration now list = apfst rev (pop_from_top P expiration now (rev list))"

section \<open>Operations on the pool\<close>

text \<open>
  The loop of \<open>put\<close> over the parked checkouts: what is left of the queue, and the value
  when it is still there. The outer \<^term>\<open>None\<close> is the failed \<open>expect\<close>.
\<close>

fun offer ::
  "'c poolable_ops \<Rightarrow> ('c, 'x) chan_ops \<Rightarrow> 'x \<Rightarrow> nat list \<Rightarrow> 'c option \<Rightarrow>
   ('x \<times> nat list \<times> 'c option) option" where
  "offer P C x [] v = Some (x, [], v)"
| "offer P C x (tx # txs) v =
     (if \<not> ch_is_closed C x tx then
        (case v of
           None \<Rightarrow> None
         | Some c \<Rightarrow>
             (case (case pl_reserve P c of Shared keep send \<Rightarrow> (Some keep, send) | Unique u \<Rightarrow> (None, u)) of
                (v', s) \<Rightarrow>
                  (case ch_send C x tx s of
                     (x', None) \<Rightarrow> if v' = None then Some (x', txs, None) else offer P C x' txs v'
                   | (x', Some e) \<Rightarrow> offer P C x' txs (Some e))))
      else offer P C (ch_drop_tx C x tx) txs v)"

definition spawn_idle_interval :: "('k, 'c, 'm) pool_inner \<Rightarrow> ('k, 'c, 'm) pool_inner \<times> nat option" where
  "spawn_idle_interval pi =
     (if idle_interval pi then (pi, None)
      else (case idle_timeout pi of
              None \<Rightarrow> (pi, None)
            | Some d \<Rightarrow>
                if d = 0 then (pi, None)
                else if timer_is_empty pi then (pi, None)
                else (pi\<lparr>idle_interval := True\<rparr>, Some (max d 90))))"

definition put_waiters ::
  "'c poolable_ops \<Rightarrow> ('c, 'x) chan_ops \<Rightarrow> 'x \<Rightarrow> ('k, nat list) hmap \<Rightarrow> 'k \<Rightarrow> 'c \<Rightarrow>
   ('x \<times> ('k, nat list) hmap \<times> 'c option) option" where
  "put_waiters P C x wm key value =
     (case map_of wm key of
        None \<Rightarrow> Some (x, wm, Some value)
      | Some ws \<Rightarrow>
          (case offer P C x ws (Some value) of
             None \<Rightarrow> None
           | Some (x', ws', v) \<Rightarrow>
               Some (x', if ws' = [] then AList.delete key wm else AList.update key ws' wm, v)))"

definition put ::
  "('k, 'c, 'm) idle_ops \<Rightarrow> 'c poolable_ops \<Rightarrow> ('c, 'x) chan_ops \<Rightarrow> nat \<Rightarrow> 'x \<Rightarrow>
   ('k, 'c, 'm) pool_inner \<Rightarrow> 'k \<Rightarrow> 'c \<Rightarrow> ('x \<times> ('k, 'c, 'm) pool_inner) option" where
  "put L P C now x pi key value =
     (if pl_can_share P value \<and> lru_get L (idle_cache pi) key \<noteq> None then Some (x, pi)
      else
        (case put_waiters P C x (waiters pi) key value of
           None \<Rightarrow> None
         | Some (x', wm, None) \<Rightarrow> Some (x', pi\<lparr>waiters := wm\<rparr>)
         | Some (x', wm, Some v) \<Rightarrow>
             (let m = lru_get_or_insert L (idle_cache pi) key [];
                  list = (case lru_get L m key of Some l \<Rightarrow> l | None \<Rightarrow> [])
              in if max_idle_per_host pi \<le> length list
                 then Some (x', pi\<lparr>waiters := wm, idle_cache := m\<rparr>)
                 else Some (x', fst (spawn_idle_interval
                        (pi\<lparr>waiters := wm,
                            idle_cache := lru_set L m key (list @ [\<lparr>id_value = v, id_idle_at = now\<rparr>])\<rparr>))))))"

definition connected ::
  "('c, 'x) chan_ops \<Rightarrow> 'x \<Rightarrow> ('k, 'c, 'm) pool_inner \<Rightarrow> 'k \<Rightarrow> 'x \<times> ('k, 'c, 'm) pool_inner" where
  "connected C x pi key =
     (foldl (ch_drop_tx C) x (case map_of (waiters pi) key of Some ws \<Rightarrow> ws | None \<Rightarrow> []),
      pi\<lparr>connecting := connecting pi - {key}, waiters := AList.delete key (waiters pi)\<rparr>)"

definition clean_waiters ::
  "('c, 'x) chan_ops \<Rightarrow> 'x \<Rightarrow> ('k, 'c, 'm) pool_inner \<Rightarrow> 'k \<Rightarrow> 'x \<times> ('k, 'c, 'm) pool_inner" where
  "clean_waiters C x pi key =
     (case map_of (waiters pi) key of
        None \<Rightarrow> (x, pi)
      | Some ws \<Rightarrow>
          (let ws' = filter (\<lambda>tx. \<not> ch_is_closed C x tx) ws in
           (foldl (ch_drop_tx C) x (filter (ch_is_closed C x) ws),
            pi\<lparr>waiters := (if ws' = [] then AList.delete key (waiters pi)
                            else AList.update key ws' (waiters pi))\<rparr>)))"

text \<open>\<open>clear_expired\<close>; \<^term>\<open>None\<close> is the failed \<open>expect\<close>.\<close>

definition keep_idle :: "'c poolable_ops \<Rightarrow> nat \<Rightarrow> nat \<Rightarrow> 'c idle \<Rightarrow> bool" where
  "keep_idle P dur now e \<longleftrightarrow> pl_is_open P (id_value e) \<and> \<not> now - id_idle_at e > dur"

definition clear_expired ::
  "('k, 'c, 'm) idle_ops \<Rightarrow> 'c poolable_ops \<Rightarrow> nat \<Rightarrow> ('k, 'c, 'm) pool_inner \<Rightarrow>
   ('k, 'c, 'm) pool_inner option" where
  "clear_expired L P now pi =
     (case idle_timeout pi of
        None \<Rightarrow> None
      | Some dur \<Rightarrow>
          (let kept = map (\<lambda>(k, es). (k, filter (keep_idle P dur now) es)) (lru_entries L (idle_cache pi));
               m = foldl (\<lambda>m (k, es). lru_set L m k es) (idle_cache pi) kept;
               gone = map fst (filter (\<lambda>(k, es). es = []) kept)
           in Some (pi\<lparr>idle_cache := foldl (lru_pop L) m gone\<rparr>)))"

section \<open>Handles\<close>

text \<open>
  \<open>Pooled\<close>, \<open>Connecting\<close> and \<open>Checkout\<close>. The weak pool reference of a handle is whether it
  has one; upgrading it succeeds while the pool exists.
\<close>

record ('k, 'c) pooled =
  pd_value :: 'c
  pd_is_reused :: bool
  pd_key :: 'k
  pd_pool :: bool

record 'k connecting_handle =
  cn_key :: 'k
  cn_pool :: bool

record 'k checkout_handle =
  co_key :: 'k
  co_waiter :: "nat option"

datatype pool_error = PoolDisabled | CheckoutNoLongerWanted | CheckedOutClosedValue

definition pool_error_is_canceled :: "pool_error \<Rightarrow> bool" where
  "pool_error_is_canceled e \<longleftrightarrow> e = CheckedOutClosedValue"

definition pool_checkout :: "'k \<Rightarrow> 'k checkout_handle" where
  "pool_checkout key = \<lparr>co_key = key, co_waiter = None\<rparr>"

definition pool_connecting ::
  "('k, 'c, 'm) pool_inner option \<Rightarrow> 'k \<Rightarrow> ver \<Rightarrow>
   ('k, 'c, 'm) pool_inner option \<times> 'k connecting_handle option" where
  "pool_connecting po key v =
     (case (v, po) of
        (Http2, Some pi) \<Rightarrow>
          if key \<notin> connecting pi
          then (Some (pi\<lparr>connecting := insert key (connecting pi)\<rparr>), Some \<lparr>cn_key = key, cn_pool = True\<rparr>)
          else (po, None)
      | _ \<Rightarrow> (po, Some \<lparr>cn_key = key, cn_pool = False\<rparr>))"

text \<open>\<open>Connecting::alpn_h2\<close> on a handle without a pool reference, and dropping a handle.\<close>

definition alpn_h2 ::
  "('k, 'c, 'm) pool_inner option \<Rightarrow> 'k connecting_handle \<Rightarrow>
   ('k, 'c, 'm) pool_inner option \<times> 'k connecting_handle option" where
  "alpn_h2 po cn = pool_connecting po (cn_key cn) Http2"

definition drop_connecting ::
  "('c, 'x) chan_ops \<Rightarrow> 'x \<Rightarrow> ('k, 'c, 'm) pool_inner option \<Rightarrow> 'k connecting_handle \<Rightarrow>
   'x \<times> ('k, 'c, 'm) pool_inner option" where
  "drop_connecting C x po cn =
     (case (cn_pool cn, po) of
        (True, Some pi) \<Rightarrow> (case connected C x pi (cn_key cn) of (x', pi') \<Rightarrow> (x', Some pi'))
      | _ \<Rightarrow> (x, po))"

definition pool_pooled ::
  "('k, 'c, 'm) idle_ops \<Rightarrow> 'c poolable_ops \<Rightarrow> ('c, 'x) chan_ops \<Rightarrow> nat \<Rightarrow> 'x \<Rightarrow>
   ('k, 'c, 'm) pool_inner option \<Rightarrow> 'k connecting_handle \<Rightarrow> 'c \<Rightarrow>
   ('x \<times> ('k, 'c, 'm) pool_inner option \<times> ('k, 'c) pooled) option" where
  "pool_pooled L P C now x po cn value =
     (case po of
        None \<Rightarrow>
          Some (x, None, \<lparr>pd_value = value, pd_is_reused = False, pd_key = cn_key cn, pd_pool = False\<rparr>)
      | Some pi \<Rightarrow>
          (case pl_reserve P value of
             Shared to_insert to_return \<Rightarrow>
               (case put L P C now x pi (cn_key cn) to_insert of
                  None \<Rightarrow> None
                | Some (x1, pi1) \<Rightarrow>
                    (case connected C x1 pi1 (cn_key cn) of
                       (x2, pi2) \<Rightarrow>
                         Some (x2, Some pi2, \<lparr>pd_value = to_return, pd_is_reused = False,
                           pd_key = cn_key cn, pd_pool = False\<rparr>)))
           | Unique v \<Rightarrow>
               (case drop_connecting C x po cn of
                  (x', po') \<Rightarrow>
                    Some (x', po', \<lparr>pd_value = v, pd_is_reused = False, pd_key = cn_key cn,
                      pd_pool = True\<rparr>))))"

definition pool_reuse ::
  "'c poolable_ops \<Rightarrow> ('k, 'c, 'm) pool_inner option \<Rightarrow> 'k \<Rightarrow> 'c \<Rightarrow> ('k, 'c) pooled" where
  "pool_reuse P po key value =
     \<lparr>pd_value = value, pd_is_reused = True, pd_key = key,
      pd_pool = (\<not> pl_can_share P value \<and> po \<noteq> None)\<rparr>"

definition drop_pooled ::
  "('k, 'c, 'm) idle_ops \<Rightarrow> 'c poolable_ops \<Rightarrow> ('c, 'x) chan_ops \<Rightarrow> nat \<Rightarrow> 'x \<Rightarrow>
   ('k, 'c, 'm) pool_inner option \<Rightarrow> ('k, 'c) pooled \<Rightarrow>
   ('x \<times> ('k, 'c, 'm) pool_inner option) option" where
  "drop_pooled L P C now x po pd =
     (if \<not> pl_is_open P (pd_value pd) then Some (x, po)
      else (case (pd_pool pd, po) of
              (True, Some pi) \<Rightarrow>
                map_option (apsnd Some) (put L P C now x pi (pd_key pd) (pd_value pd))
            | _ \<Rightarrow> Some (x, po)))"

section \<open>Checking out\<close>

definition poll_waiter ::
  "'c poolable_ops \<Rightarrow> ('c, 'x) chan_ops \<Rightarrow> 'x \<Rightarrow> ('k, 'c, 'm) pool_inner option \<Rightarrow>
   'k checkout_handle \<Rightarrow>
   'x \<times> 'k checkout_handle \<times> (pool_error + ('k, 'c) pooled) option poll" where
  "poll_waiter P C x po co =
     (case co_waiter co of
        None \<Rightarrow> (x, co, Ready None)
      | Some rx \<Rightarrow>
          (case ch_poll C x rx of
             (x', Ready (Some v)) \<Rightarrow>
               (x', co\<lparr>co_waiter := None\<rparr>,
                Ready (Some (if pl_is_open P v then Inr (pool_reuse P po (co_key co) v)
                             else Inl CheckedOutClosedValue)))
           | (x', Ready None) \<Rightarrow>
               (x', co\<lparr>co_waiter := None\<rparr>, Ready (Some (Inl CheckoutNoLongerWanted)))
           | (x', Pending) \<Rightarrow> (x', co, Pending)))"

text \<open>\<open>Checkout::checkout\<close>; the outer \<^term>\<open>None\<close> is the failed \<open>assert!\<close>.\<close>

definition checkout_idle ::
  "('k, 'c, 'm) idle_ops \<Rightarrow> 'c poolable_ops \<Rightarrow> ('c, 'x) chan_ops \<Rightarrow> nat \<Rightarrow> 'x \<Rightarrow>
   ('k, 'c, 'm) pool_inner option \<Rightarrow> 'k checkout_handle \<Rightarrow>
   ('x \<times> ('k, 'c, 'm) pool_inner option \<times> 'k checkout_handle \<times> ('k, 'c) pooled option) option" where
  "checkout_idle L P C now x po co =
     (case po of
        None \<Rightarrow> Some (x, None, co, None)
      | Some pi \<Rightarrow>
          (let key = co_key co;
               m = lru_touch L (idle_cache pi) key
           in (case (case lru_get L (idle_cache pi) key of
                       None \<Rightarrow> (m, None, True)
                     | Some list \<Rightarrow>
                         (case idle_popper_pop P (idle_timeout pi) now list of
                            (list', Some e) \<Rightarrow> (lru_set L m key list', Some e, list' = [])
                          | (list', None) \<Rightarrow> (lru_set L m key list', None, True))) of
                 (m', entry, nuke) \<Rightarrow>
                   (let pi1 = pi\<lparr>idle_cache := (if nuke then lru_pop L m' key else m')\<rparr>
                    in (case entry of
                          Some e \<Rightarrow> Some (x, Some pi1, co, Some (pool_reuse P po key (id_value e)))
                        | None \<Rightarrow>
                            (if co_waiter co = None
                             then (case ch_new C x of
                                     (x1, w) \<Rightarrow>
                                       (case ch_poll C x1 w of
                                          (x2, Pending) \<Rightarrow>
                                            Some (x2, Some (pi1\<lparr>waiters := AList.update key
                                                ((case map_of (waiters pi1) key of Some ws \<Rightarrow> ws
                                                  | None \<Rightarrow> []) @ [w]) (waiters pi1)\<rparr>),
                                              co\<lparr>co_waiter := Some w\<rparr>, None)
                                        | (x2, Ready _) \<Rightarrow> None))
                             else Some (x, Some pi1, co, None)))))))"

definition poll_checkout ::
  "('k, 'c, 'm) idle_ops \<Rightarrow> 'c poolable_ops \<Rightarrow> ('c, 'x) chan_ops \<Rightarrow> nat \<Rightarrow> 'x \<Rightarrow>
   ('k, 'c, 'm) pool_inner option \<Rightarrow> 'k checkout_handle \<Rightarrow>
   'x \<times> ('k, 'c, 'm) pool_inner option \<times> 'k checkout_handle \<times>
   (pool_error + ('k, 'c) pooled) outcome" where
  "poll_checkout L P C now x po co =
     (case poll_waiter P C x po co of
        (x1, co1, Pending) \<Rightarrow> (x1, po, co1, Yield)
      | (x1, co1, Ready (Some r)) \<Rightarrow> (x1, po, co1, Done r)
      | (x1, co1, Ready None) \<Rightarrow>
          (case checkout_idle L P C now x1 po co1 of
             None \<Rightarrow> (x1, po, co1, Panicked)
           | Some (x2, po2, co2, Some pd) \<Rightarrow> (x2, po2, co2, Done (Inr pd))
           | Some (x2, po2, co2, None) \<Rightarrow>
               if po = None then (x2, po2, co2, Done (Inl PoolDisabled)) else (x2, po2, co2, Yield)))"

definition drop_checkout ::
  "('c, 'x) chan_ops \<Rightarrow> 'x \<Rightarrow> ('k, 'c, 'm) pool_inner option \<Rightarrow> 'k checkout_handle \<Rightarrow>
   'x \<times> ('k, 'c, 'm) pool_inner option" where
  "drop_checkout C x po co =
     (case co_waiter co of
        None \<Rightarrow> (x, po)
      | Some w \<Rightarrow>
          (let x' = ch_drop_rx C x w in
           case po of
             None \<Rightarrow> (x', None)
           | Some pi \<Rightarrow> (case clean_waiters C x' pi (co_key co) of (x'', pi') \<Rightarrow> (x'', Some pi'))))"

text \<open>The search of a checkout: the cache after it, the entry taken, and whether the key goes.\<close>

definition idle_take ::
  "('k, 'c, 'm) idle_ops \<Rightarrow> 'c poolable_ops \<Rightarrow> nat \<Rightarrow> ('k, 'c, 'm) pool_inner \<Rightarrow> 'k \<Rightarrow>
   'm \<times> 'c idle option \<times> bool" where
  "idle_take L P now pi key =
     (let m = lru_touch L (idle_cache pi) key
      in case lru_get L (idle_cache pi) key of
           None \<Rightarrow> (m, None, True)
         | Some list \<Rightarrow>
             (case idle_popper_pop P (idle_timeout pi) now list of
                (list', Some e) \<Rightarrow> (lru_set L m key list', Some e, list' = [])
              | (list', None) \<Rightarrow> (lru_set L m key list', None, True)))"

lemma checkout_idle_take:
  "checkout_idle L P C now x (Some pi) co =
     (case idle_take L P now pi (co_key co) of
        (m, entry, nuke) \<Rightarrow>
          (let pi1 = pi\<lparr>idle_cache := (if nuke then lru_pop L m (co_key co) else m)\<rparr>
           in (case entry of
                 Some e \<Rightarrow> Some (x, Some pi1, co, Some (pool_reuse P (Some pi) (co_key co) (id_value e)))
               | None \<Rightarrow>
                   (if co_waiter co = None
                    then (case ch_new C x of
                            (x1, w) \<Rightarrow>
                              (case ch_poll C x1 w of
                                 (x2, Pending) \<Rightarrow>
                                   Some (x2, Some (pi1\<lparr>waiters := AList.update (co_key co)
                                       ((case map_of (waiters pi1) (co_key co) of Some ws \<Rightarrow> ws
                                         | None \<Rightarrow> []) @ [w]) (waiters pi1)\<rparr>),
                                     co\<lparr>co_waiter := Some w\<rparr>, None)
                               | (x2, Ready _) \<Rightarrow> None))
                    else Some (x, Some pi1, co, None)))))"
  unfolding checkout_idle_def idle_take_def Let_def option.case ..

section \<open>Laws of the crates, as rules\<close>

lemma lru_lawsD:
  assumes "lru_laws L"
  shows "lru_get L (lru_touch L m k) k' = lru_get L m k'"
    "lru_get L (lru_set L m k v) k' = (if k' = k \<and> lru_get L m k \<noteq> None then Some v else lru_get L m k')"
    "lru_get L (lru_pop L m k) k' = (if k' = k then None else lru_get L m k')"
    "lru_get L (lru_get_or_insert L m k v) k = (case lru_get L m k of None \<Rightarrow> Some v | Some w \<Rightarrow> Some w)"
    "distinct (map fst (lru_entries L m))"
  using assms unfolding lru_laws_def by blast+

lemma lru_get_or_insert_cases:
  assumes "lru_laws L" and "lru_get L (lru_get_or_insert L m k v) k' = Some u"
  shows "lru_get L m k' = Some u \<or> k' = k \<and> lru_get L m k = None \<and> u = v"
proof (cases "k' = k")
  case True
  with assms(2) lru_lawsD(4) [OF assms(1), of m k v] show ?thesis by (auto split: option.splits)
next
  case False
  with assms show ?thesis unfolding lru_laws_def by blast
qed

lemma lru_set_all:
  assumes "lru_laws L" and "distinct (map fst kvs)" and "\<forall>k \<in> fst ` set kvs. lru_get L m k \<noteq> None"
  shows "lru_get L (foldl (\<lambda>m (k, v). lru_set L m k v) m kvs) k =
    (case map_of kvs k of Some v \<Rightarrow> Some v | None \<Rightarrow> lru_get L m k)"
  using assms(2,3)
proof (induction kvs arbitrary: m)
  case (Cons kv kvs)
  obtain k0 v0 where kv: "kv = (k0, v0)" by (cases kv)
  have "\<forall>k \<in> fst ` set kvs. lru_get L (lru_set L m k0 v0) k \<noteq> None"
    using Cons.prems kv by (simp add: lru_lawsD(2) [OF assms(1)])
  then have "lru_get L (foldl (\<lambda>m (k, v). lru_set L m k v) (lru_set L m k0 v0) kvs) k =
      (case map_of kvs k of Some v \<Rightarrow> Some v | None \<Rightarrow> lru_get L (lru_set L m k0 v0) k)"
    using Cons kv by simp
  moreover have "k = k0 \<Longrightarrow> map_of kvs k = None"
    using Cons.prems(1) kv by (auto simp: map_of_eq_None_iff)
  moreover have "lru_get L m k0 \<noteq> None" using Cons.prems(2) kv by simp
  ultimately show ?case
    by (cases "k = k0") (simp_all add: kv lru_lawsD(2) [OF assms(1)] split: option.splits)
qed simp

lemma lru_pop_all:
  assumes "lru_laws L"
  shows "lru_get L (foldl (lru_pop L) m ks) k = (if k \<in> set ks then None else lru_get L m k)"
  by (induction ks arbitrary: m) (auto simp: lru_lawsD(3) [OF assms])

text \<open>What an idle list is after the expired and closed entries went; an empty one goes with its key.\<close>

lemma clear_expired_get:
  assumes laws: "lru_laws L" and dur: "idle_timeout pi = Some dur" and step: "clear_expired L P now pi = Some pi'"
  shows "\<exists>m. pi' = pi\<lparr>idle_cache := m\<rparr>"
    and "lru_get L (idle_cache pi') k =
      (case lru_get L (idle_cache pi) k of
         None \<Rightarrow> None
       | Some es \<Rightarrow> (let es' = filter (keep_idle P dur now) es in if es' = [] then None else Some es'))"
proof -
  define kept where "kept = map (\<lambda>(k, es). (k, filter (keep_idle P dur now) es)) (lru_entries L (idle_cache pi))"
  define m where "m = foldl (\<lambda>m (k, es). lru_set L m k es) (idle_cache pi) kept"
  define gone where "gone = map fst (filter (\<lambda>(k, es). es = []) kept)"
  have res: "pi' = pi\<lparr>idle_cache := foldl (lru_pop L) m gone\<rparr>"
    using step dur by (simp add: clear_expired_def kept_def m_def gone_def Let_def)
  then show "\<exists>m. pi' = pi\<lparr>idle_cache := m\<rparr>" by blast
  have keys: "map fst kept = map fst (lru_entries L (idle_cache pi))"
    by (simp add: kept_def case_prod_unfold)
  have dist: "distinct (map fst kept)" using lru_lawsD(5) [OF laws] keys by simp
  have there: "\<forall>k \<in> fst ` set kept. lru_get L (idle_cache pi) k \<noteq> None"
    unfolding lru_get_def map_of_eq_None_iff not_not by (simp add: keys flip: set_map)
  have entry: "map_of kept k = map_option (filter (keep_idle P dur now)) (lru_get L (idle_cache pi) k)"
    unfolding kept_def lru_get_def by (rule map_of_map [unfolded comp_def, THEN fun_cong])
  have "k \<in> set gone \<longleftrightarrow> map_of kept k = Some []"
    using dist by (force simp: gone_def)
  then show "lru_get L (idle_cache pi') k =
      (case lru_get L (idle_cache pi) k of
         None \<Rightarrow> None
       | Some es \<Rightarrow> (let es' = filter (keep_idle P dur now) es in if es' = [] then None else Some es'))"
    by (cases "lru_get L (idle_cache pi) k")
      (auto simp: res lru_pop_all [OF laws] m_def lru_set_all [OF laws dist there] entry Let_def)
qed

lemma chan_new:
  assumes "chan_laws C" and "ch_new C x = (x', w)"
  shows "w = ch_next C x" "ch_next C x' = Suc w" "snd (ch_poll C x' w) = Pending"
    "ch_value C x' = (ch_value C x)(w := None)"
  using assms by (simp_all add: chan_laws_def chan_new_law_def)

lemma chan_send:
  assumes "chan_laws C" and "ch_send C x w v = (x', r)"
  shows "ch_next C x' = ch_next C x \<and> (r = None \<or> r = Some v) \<and>
    ch_value C x' = (if r = None then (ch_value C x)(w := Some v) else ch_value C x)"
  using assms unfolding chan_laws_def chan_send_law_def by blast

lemma chan_poll:
  assumes "chan_laws C" and "ch_poll C x w = (x', r)"
  shows "ch_next C x' = ch_next C x"
    "case r of Ready (Some v) \<Rightarrow> ch_value C x w = Some v \<and> ch_value C x' = (ch_value C x)(w := None)
         | _ \<Rightarrow> ch_value C x' = ch_value C x"
  using assms unfolding chan_laws_def chan_poll_law_def by blast+

lemma chan_drop:
  assumes "chan_laws C"
  shows "ch_next C (ch_drop_tx C x w) = ch_next C x" "ch_value C (ch_drop_tx C x w) = ch_value C x"
    "ch_next C (ch_drop_rx C x w) = ch_next C x"
    "ch_value C (ch_drop_rx C x w) = (ch_value C x)(w := None)"
  using assms by (simp_all add: chan_laws_def chan_drop_law_def)

lemma chan_drop_tx_all:
  "chan_laws C \<Longrightarrow> ch_next C (foldl (ch_drop_tx C) x ws) = ch_next C x \<and>
     ch_value C (foldl (ch_drop_tx C) x ws) = ch_value C x"
  by (induction ws arbitrary: x) (simp_all add: chan_drop)

section \<open>The contract of a poolable connection\<close>

text \<open>
  What the pool relies on: a reservation does not change what a connection is
  (\<open>origin\<close> stands for what identifies it, as the pool key it was made for), and only
  connections that can be shared give two handles.
\<close>

locale poolable =
  fixes reserve :: "'c \<Rightarrow> 'c reservation"
    and can_share :: "'c \<Rightarrow> bool"
    and origin :: "'c \<Rightarrow> 't"
  assumes reserve_unique: "reserve c = Unique u \<Longrightarrow> u = c \<and> \<not> can_share c"
    and reserve_shared: "reserve c = Shared a b \<Longrightarrow>
      can_share c \<and> can_share a \<and> can_share b \<and> origin a = origin c \<and> origin b = origin c"
begin

definition agrees :: "'c poolable_ops \<Rightarrow> bool" where
  "agrees P \<longleftrightarrow> pl_reserve P = reserve \<and> pl_can_share P = can_share"

text \<open>The loop over parked checkouts never fails its \<open>expect\<close>, and a value only ever
  reaches channels of the queue.\<close>

lemma offer_total:
  assumes "agrees P"
  shows "\<exists>r. offer P C x ws (Some v) = Some r"
  using assms
proof (induction ws arbitrary: x v)
  case (Cons w ws)
  then show ?case by (auto simp: agrees_def split: prod.splits reservation.splits option.splits)
qed simp

lemma offer_values:
  assumes "agrees P" and "chan_laws C" and "offer P C x ws (Some v) = Some (x', ws', v')"
  shows "set ws' \<subseteq> set ws \<and> ch_next C x' = ch_next C x \<and>
    (\<forall>w. ch_value C x' w = ch_value C x w \<or>
       w \<in> set ws \<and> (\<exists>u. ch_value C x' w = Some u \<and> origin u = origin v)) \<and>
    (\<forall>u. v' = Some u \<longrightarrow> origin u = origin v)"
  using assms(3)
proof (induction ws arbitrary: x v)
  case Nil
  then show ?case by auto
next
  case (Cons w ws)
  show ?case
  proof (cases "ch_is_closed C x w")
    case True
    with Cons.prems have "offer P C (ch_drop_tx C x w) ws (Some v) = Some (x', ws', v')" by simp
    from Cons.IH [OF this] show ?thesis
      by (simp add: chan_drop [OF assms(2)]) blast
  next
    case open_w: False
    define keep where "keep = (case reserve v of Shared a b \<Rightarrow> Some a | Unique u \<Rightarrow> None)"
    define sent where "sent = (case reserve v of Shared a b \<Rightarrow> b | Unique u \<Rightarrow> u)"
    have origin: "origin sent = origin v" "\<And>a. keep = Some a \<Longrightarrow> origin a = origin v"
      by (auto simp: keep_def sent_def reserve_unique reserve_shared split: reservation.splits
          dest: reserve_unique reserve_shared)
    have split: "(case reserve v of Shared keep send \<Rightarrow> (Some keep, send) | Unique u \<Rightarrow> (None, u)) = (keep, sent)"
      by (simp add: keep_def sent_def split: reservation.splits)
    obtain x1 r where send: "ch_send C x w sent = (x1, r)" by fastforce
    have P: "pl_reserve P = reserve" using assms(1) by (simp add: agrees_def)
    note s = chan_send [OF assms(2) send]
    show ?thesis
    proof (cases "r = None \<and> keep = None")
      case True
      with Cons.prems open_w send have "x' = x1" "ws' = ws" "v' = None"
        by (simp_all add: P split)
      with s True origin(1) show ?thesis by auto
    next
      case False
      define u where "u = (if r = None then the keep else the r)"
      from Cons.prems open_w send False have "offer P C x1 ws (Some u) = Some (x', ws', v')"
        by (cases r) (auto simp: P split u_def)
      from Cons.IH [OF this] have IH: "set ws' \<subseteq> set ws" "ch_next C x' = ch_next C x1"
        "\<And>w. ch_value C x' w = ch_value C x1 w \<or>
           w \<in> set ws \<and> (\<exists>z. ch_value C x' w = Some z \<and> origin z = origin u)"
        "\<And>z. v' = Some z \<Longrightarrow> origin z = origin u" by blast+
      have "origin u = origin v" using origin s False by (auto simp: u_def)
      moreover have "ch_value C x1 w' = ch_value C x w' \<or> w' = w \<and> ch_value C x1 w' = Some sent" for w'
        using s by auto
      ultimately show ?thesis
        using IH s origin(1) by (metis list.set_intros(1,2) subset_insertI2 list.simps(15))
    qed
  qed
qed

end


section \<open>The pool and its handles\<close>

text \<open>
  A system of one pool and the handles given out, and its steps: any handle may be used
  or dropped at any time, connections open and close between steps, and time passes.
  \<open>origin\<close> names the key a connection was made for. As the code's \<open>debug_assert!\<close> says,
  a shareable connection is only handed to \<open>pooled\<close> with the lock of its key.
\<close>

record ('k, 'c, 'm, 'x) pool_sys =
  ps_pool :: "('k, 'c, 'm) pool_inner option"
  ps_chans :: 'x
  ps_checkouts :: "'k checkout_handle list"
  ps_out :: "('k, 'c) pooled list"
  ps_connecting :: "'k connecting_handle list"

definition ops_at :: "('c \<Rightarrow> bool) \<Rightarrow> ('c \<Rightarrow> 'c reservation) \<Rightarrow> ('c \<Rightarrow> bool) \<Rightarrow> 'c poolable_ops" where
  "ops_at open reserve can_share =
     \<lparr>pl_is_open = open, pl_reserve = reserve, pl_can_share = can_share\<rparr>"

inductive pool_step ::
  "('k, 'c, 'm) idle_ops \<Rightarrow> ('c, 'x) chan_ops \<Rightarrow> ('c \<Rightarrow> 'c reservation) \<Rightarrow> ('c \<Rightarrow> bool) \<Rightarrow>
   ('c \<Rightarrow> 'k) \<Rightarrow> ('k, 'c, 'm, 'x) pool_sys \<Rightarrow> ('k, 'c, 'm, 'x) pool_sys \<Rightarrow> bool"
  for L C R S origin where
  step_checkout:
    "pool_step L C R S origin s (s\<lparr>ps_checkouts := pool_checkout key # ps_checkouts s\<rparr>)"
| step_poll:
    "co \<in> set (ps_checkouts s) \<Longrightarrow>
     poll_checkout L (ops_at open R S) C now (ps_chans s) (ps_pool s) co = (x, po, co', out) \<Longrightarrow>
     out \<noteq> Panicked \<Longrightarrow>
     pool_step L C R S origin s
       (s\<lparr>ps_chans := x, ps_pool := po,
          ps_checkouts := (if out = Yield then [co'] else []) @ remove1 co (ps_checkouts s),
          ps_out := (case out of Done (Inr pd) \<Rightarrow> [pd] | _ \<Rightarrow> []) @ ps_out s\<rparr>)"
| step_drop_checkout:
    "co \<in> set (ps_checkouts s) \<Longrightarrow> drop_checkout C (ps_chans s) (ps_pool s) co = (x, po) \<Longrightarrow>
     pool_step L C R S origin s
       (s\<lparr>ps_chans := x, ps_pool := po, ps_checkouts := remove1 co (ps_checkouts s)\<rparr>)"
| step_connecting:
    "pool_connecting (ps_pool s) key v = (po, cn) \<Longrightarrow>
     pool_step L C R S origin s
       (s\<lparr>ps_pool := po, ps_connecting := (case cn of Some c \<Rightarrow> [c] | None \<Rightarrow> []) @ ps_connecting s\<rparr>)"
| step_alpn:
    "cn \<in> set (ps_connecting s) \<Longrightarrow> \<not> cn_pool cn \<Longrightarrow> alpn_h2 (ps_pool s) cn = (po, cn') \<Longrightarrow>
     pool_step L C R S origin s
       (s\<lparr>ps_pool := po,
          ps_connecting := (case cn' of Some c \<Rightarrow> [c] | None \<Rightarrow> []) @ remove1 cn (ps_connecting s)\<rparr>)"
| step_pooled:
    "cn \<in> set (ps_connecting s) \<Longrightarrow> origin c = cn_key cn \<Longrightarrow> (S c \<longrightarrow> cn_pool cn \<or> ps_pool s = None) \<Longrightarrow>
     pool_pooled L (ops_at open R S) C now (ps_chans s) (ps_pool s) cn c = Some (x, po, pd) \<Longrightarrow>
     pool_step L C R S origin s
       (s\<lparr>ps_chans := x, ps_pool := po, ps_connecting := remove1 cn (ps_connecting s),
          ps_out := pd # ps_out s\<rparr>)"
| step_drop_connecting:
    "cn \<in> set (ps_connecting s) \<Longrightarrow> drop_connecting C (ps_chans s) (ps_pool s) cn = (x, po) \<Longrightarrow>
     pool_step L C R S origin s
       (s\<lparr>ps_chans := x, ps_pool := po, ps_connecting := remove1 cn (ps_connecting s)\<rparr>)"
| step_drop_pooled:
    "pd \<in> set (ps_out s) \<Longrightarrow>
     drop_pooled L (ops_at open R S) C now (ps_chans s) (ps_pool s) pd = Some (x, po) \<Longrightarrow>
     pool_step L C R S origin s
       (s\<lparr>ps_chans := x, ps_pool := po, ps_out := remove1 pd (ps_out s)\<rparr>)"
| step_clear_expired:
    "ps_pool s = Some pi \<Longrightarrow> clear_expired L (ops_at open R S) now pi = Some pi' \<Longrightarrow>
     pool_step L C R S origin s (s\<lparr>ps_pool := Some pi'\<rparr>)"

definition pool_start ::
  "('k, 'c, 'm) idle_ops \<Rightarrow> nat \<Rightarrow> ('k, 'c, 'm, 'x) pool_sys \<Rightarrow> bool" where
  "pool_start L max_idle s \<longleftrightarrow>
     (\<exists>cache timeout no_timer. lru_entries L cache = [] \<and>
        ps_pool s = pool_new cache timeout max_idle no_timer) \<and>
     ps_checkouts s = [] \<and> ps_out s = [] \<and> ps_connecting s = []"

definition pool_reach ::
  "('k, 'c, 'm) idle_ops \<Rightarrow> ('c, 'x) chan_ops \<Rightarrow> ('c \<Rightarrow> 'c reservation) \<Rightarrow> ('c \<Rightarrow> bool) \<Rightarrow>
   ('c \<Rightarrow> 'k) \<Rightarrow> nat \<Rightarrow> ('k, 'c, 'm, 'x) pool_sys \<Rightarrow> bool" where
  "pool_reach L C R S origin max_idle s \<longleftrightarrow>
     (\<exists>s0. pool_start L max_idle s0 \<and> (pool_step L C R S origin)\<^sup>*\<^sup>* s0 s)"

section \<open>Invariants\<close>

definition waits :: "('k, 'c, 'm) pool_inner option \<Rightarrow> 'k \<Rightarrow> nat set" where
  "waits po k =
     (case po of
        None \<Rightarrow> {}
      | Some pi \<Rightarrow> (case map_of (waiters pi) k of Some ws \<Rightarrow> set ws | None \<Rightarrow> {}))"

definition idle_ok :: "('k, 'c, 'm) idle_ops \<Rightarrow> ('c \<Rightarrow> 'k) \<Rightarrow> nat \<Rightarrow> ('k, 'c, 'm) pool_inner \<Rightarrow> bool" where
  "idle_ok L origin n pi \<longleftrightarrow>
     max_idle_per_host pi = n \<and>
     (\<forall>k es. lru_get L (idle_cache pi) k = Some es \<longrightarrow>
        length es \<le> n \<and> (\<forall>e \<in> set es. origin (id_value e) = k))"

definition checkout_ok ::
  "('c, 'x) chan_ops \<Rightarrow> ('c \<Rightarrow> 'k) \<Rightarrow> ('k, 'c, 'm) pool_inner option \<Rightarrow> 'x \<Rightarrow>
   'k checkout_handle \<Rightarrow> bool" where
  "checkout_ok C origin po x co \<longleftrightarrow>
     (\<forall>w. co_waiter co = Some w \<longrightarrow>
        w < ch_next C x \<and> (\<forall>v. ch_value C x w = Some v \<longrightarrow> origin v = co_key co) \<and>
        (\<forall>k. w \<in> waits po k \<longrightarrow> k = co_key co))"

text \<open>How an operation on one key may change the queues and the channels.\<close>

definition evolves ::
  "('c, 'x) chan_ops \<Rightarrow> ('c \<Rightarrow> 'k) \<Rightarrow> 'k \<Rightarrow> ('k, 'c, 'm) pool_inner option \<Rightarrow> 'x \<Rightarrow>
   ('k, 'c, 'm) pool_inner option \<Rightarrow> 'x \<Rightarrow> bool" where
  "evolves C origin key po x po' x' \<longleftrightarrow>
     ch_next C x \<le> ch_next C x' \<and>
     (\<forall>k. waits po' k \<subseteq> waits po k \<union> {ch_next C x ..< ch_next C x'}) \<and>
     (\<forall>w v. ch_value C x' w = Some v \<longrightarrow> ch_value C x w = Some v \<or> w \<in> waits po key \<and> origin v = key)"

lemma evolves_checkout_ok:
  assumes "evolves C origin key po x po' x'" and "checkout_ok C origin po x co"
  shows "checkout_ok C origin po' x' co"
  unfolding checkout_ok_def
proof (intro allI impI conjI)
  fix w
  assume w: "co_waiter co = Some w"
  with assms(2) have ok: "w < ch_next C x" "\<And>v. ch_value C x w = Some v \<Longrightarrow> origin v = co_key co"
    "\<And>k. w \<in> waits po k \<Longrightarrow> k = co_key co"
    by (auto simp: checkout_ok_def)
  show "w < ch_next C x'" using ok(1) assms(1) by (simp add: evolves_def)
  show "origin v = co_key co" if "ch_value C x' w = Some v" for v
    using that ok assms(1) unfolding evolves_def by metis
  show "k = co_key co" if "w \<in> waits po' k" for k
    using that ok assms(1) unfolding evolves_def by fastforce
qed

lemma evolves_refl [simp]: "evolves C origin key po x po x"
  by (simp add: evolves_def)

lemma evolves_drop_txs:
  "chan_laws C \<Longrightarrow> (\<And>k. waits po' k \<subseteq> waits po k) \<Longrightarrow> evolves C origin key po x po' (foldl (ch_drop_tx C) x ws)"
  by (auto simp: evolves_def chan_drop_tx_all)

lemma waits_Some [simp]:
  "waits (Some (pi\<lparr>idle_cache := m\<rparr>)) k = waits (Some pi) k"
  "waits (Some (pi\<lparr>connecting := c\<rparr>)) k = waits (Some pi) k"
  "waits (Some (pi\<lparr>idle_interval := b\<rparr>)) k = waits (Some pi) k"
  by (simp_all add: waits_def)

lemma waits_waiters:
  "waits (Some (pi\<lparr>waiters := AList.delete key wm\<rparr>)) k =
     (if k = key then {} else waits (Some (pi\<lparr>waiters := wm\<rparr>)) k)"
  "waits (Some (pi\<lparr>waiters := AList.update key ws wm\<rparr>)) k =
     (if k = key then set ws else waits (Some (pi\<lparr>waiters := wm\<rparr>)) k)"
  by (simp_all add: waits_def)

lemma spawn_idle_interval_fields [simp]:
  "idle_cache (fst (spawn_idle_interval pi)) = idle_cache pi"
  "max_idle_per_host (fst (spawn_idle_interval pi)) = max_idle_per_host pi"
  "waiters (fst (spawn_idle_interval pi)) = waiters pi"
  "connecting (fst (spawn_idle_interval pi)) = connecting pi"
  "idle_timeout (fst (spawn_idle_interval pi)) = idle_timeout pi"
  by (simp_all add: spawn_idle_interval_def split: option.splits)

lemma waits_cong: "waiters pi = waiters pi' \<Longrightarrow> waits (Some pi) k = waits (Some pi') k"
  by (simp add: waits_def)

context poolable
begin

lemma agrees_ops_at [simp]: "agrees (ops_at open reserve can_share)"
  by (simp add: agrees_def ops_at_def)

lemma put_waiters_total: "agrees P \<Longrightarrow> put_waiters P C x wm key v \<noteq> None"
proof (cases "map_of wm key")
  case (Some ws)
  assume "agrees P"
  from offer_total [OF this, of C x ws v] Some show ?thesis by (auto simp: put_waiters_def)
qed (simp add: put_waiters_def)

lemma put_waiters_ok:
  assumes "agrees P" and "chan_laws C" and "origin v = key"
    and "put_waiters P C x (waiters pi) key v = Some (x', wm, v')"
  shows "evolves C origin key (Some pi) x (Some (pi\<lparr>waiters := wm\<rparr>)) x' \<and>
    (\<forall>u. v' = Some u \<longrightarrow> origin u = key)"
proof (cases "map_of (waiters pi) key")
  case None
  with assms show ?thesis by (auto simp: put_waiters_def)
next
  case (Some ws)
  then obtain ws' where off: "offer P C x ws (Some v) = Some (x', ws', v')"
    and wm: "wm = (if ws' = [] then AList.delete key (waiters pi) else AList.update key ws' (waiters pi))"
    using assms(4) by (auto simp: put_waiters_def split: option.splits prod.splits)
  note ov = offer_values [OF assms(1,2) off]
  have "waits (Some pi) key = set ws" using Some by (simp add: waits_def)
  moreover have "waits (Some (pi\<lparr>waiters := wm\<rparr>)) k = (if k = key then set ws' else waits (Some pi) k)" for k
    by (simp add: wm waits_waiters)
  ultimately show ?thesis
    using ov assms(3) by (auto simp: evolves_def split: if_splits) (metis option.inject)+
qed

lemma idle_ok_push:
  assumes "lru_laws L" and "idle_ok L origin n pi"
    and "m = lru_get_or_insert L (idle_cache pi) key []"
    and "list = (case lru_get L m key of Some l \<Rightarrow> l | None \<Rightarrow> [])"
  shows "idle_ok L origin n (pi\<lparr>idle_cache := m\<rparr>)"
    "length list < n \<Longrightarrow> origin u = key \<Longrightarrow>
       idle_ok L origin n (pi\<lparr>idle_cache := lru_set L m key (list @ [\<lparr>id_value = u, id_idle_at = now\<rparr>])\<rparr>)"
proof -
  have m: "lru_get L (idle_cache pi) k = Some es \<or> es = []" if "lru_get L m k = Some es" for k es
    using lru_get_or_insert_cases [OF assms(1) that [unfolded assms(3)]] by blast
  have ok: "length es \<le> n \<and> (\<forall>e \<in> set es. origin (id_value e) = k)" if "lru_get L m k = Some es" for k es
    using m [OF that] assms(2) by (auto simp: idle_ok_def)
  with assms(2) show "idle_ok L origin n (pi\<lparr>idle_cache := m\<rparr>)"
    by (simp add: idle_ok_def)
  assume new: "length list < n" "origin u = key"
  have "length list \<le> n \<and> (\<forall>e \<in> set list. origin (id_value e) = key)"
    using ok [of key] assms(4) by (cases "lru_get L m key") simp_all
  with new ok assms(2)
  show "idle_ok L origin n (pi\<lparr>idle_cache := lru_set L m key (list @ [\<lparr>id_value = u, id_idle_at = now\<rparr>])\<rparr>)"
    by (simp add: idle_ok_def lru_lawsD(2) [OF assms(1)] split: if_splits)
qed

lemma put_ok:
  assumes "agrees P" and "chan_laws C" and "lru_laws L" and "idle_ok L origin n pi" and "origin v = key"
    and "put L P C now x pi key v = Some (x', pi')"
  shows "idle_ok L origin n pi' \<and> evolves C origin key (Some pi) x (Some pi') x' \<and>
    connecting pi' = connecting pi"
proof (cases "pl_can_share P v \<and> lru_get L (idle_cache pi) key \<noteq> None")
  case True
  with assms show ?thesis by (simp add: put_def)
next
  case False
  with assms(6) obtain wm v' where pw: "put_waiters P C x (waiters pi) key v = Some (x', wm, v')"
    by (auto simp: put_def Let_def split: option.splits if_splits)
  note ok = put_waiters_ok [OF assms(1,2,5) pw]
  have wait: "evolves C origin key (Some pi) x (Some q) x'" if "waiters q = wm" for q
    using ok waits_cong [of q "pi\<lparr>waiters := wm\<rparr>"] that by (simp add: evolves_def)
  show ?thesis
  proof (cases v')
    case None
    with assms(4,6) False pw wait show ?thesis
      by (auto simp: put_def idle_ok_def)
  next
    case (Some u)
    define m where "m = lru_get_or_insert L (idle_cache pi) key []"
    define list where "list = (case lru_get L m key of Some l \<Rightarrow> l | None \<Rightarrow> [])"
    have n: "max_idle_per_host pi = n" using assms(4) by (simp add: idle_ok_def)
    have push: "idle_ok L origin n (pi\<lparr>idle_cache := m\<rparr>)"
      "length list < n \<Longrightarrow>
       idle_ok L origin n (pi\<lparr>idle_cache := lru_set L m key (list @ [\<lparr>id_value = u, id_idle_at = now\<rparr>])\<rparr>)"
      using idle_ok_push [OF assms(3,4) m_def list_def] ok Some by blast+
    have pi': "pi' = (if n \<le> length list then pi\<lparr>waiters := wm, idle_cache := m\<rparr>
        else fst (spawn_idle_interval (pi\<lparr>waiters := wm,
          idle_cache := lru_set L m key (list @ [\<lparr>id_value = u, id_idle_at = now\<rparr>])\<rparr>)))"
      using assms(6) False pw Some n by (auto simp: put_def Let_def m_def list_def)
    have "idle_ok L origin n pi'"
      using push unfolding pi' by (simp add: idle_ok_def)
    with wait [of pi'] pi' show ?thesis by simp
  qed
qed

lemma put_total: "agrees P \<Longrightarrow> put L P C now x pi key v \<noteq> None"
  using put_waiters_total [of P C x "waiters pi" key v]
  by (auto simp: put_def Let_def split: option.splits)

end

context poolable
begin

lemma pop_from_top_ok:
  assumes "agrees P" and "pop_from_top P exp now es = (es', r)"
    and "\<forall>e \<in> set es. origin (id_value e) = k"
  shows "length es' \<le> length es \<and> (\<forall>e \<in> set es'. origin (id_value e) = k) \<and>
    (\<forall>e. r = Some e \<longrightarrow> origin (id_value e) = k)"
  using assms(2,3)
proof (induction es)
  case Nil
  then show ?case by simp
next
  case (Cons e es)
  have P: "pl_reserve P = reserve" using assms(1) by (simp add: agrees_def)
  show ?case
    using Cons reserve_unique [of "id_value e"] reserve_shared [of "id_value e"]
    by (cases "reserve (id_value e)") (auto simp: P split: if_splits)
qed

lemma idle_popper_pop_ok:
  assumes "agrees P" and "idle_popper_pop P exp now es = (es', r)"
    and "\<forall>e \<in> set es. origin (id_value e) = k"
  shows "length es' \<le> length es \<and> (\<forall>e \<in> set es'. origin (id_value e) = k) \<and>
    (\<forall>e. r = Some e \<longrightarrow> origin (id_value e) = k)"
proof -
  obtain q where "pop_from_top P exp now (rev es) = (q, r)" "es' = rev q"
    using assms(2) by (cases "pop_from_top P exp now (rev es)") (auto simp: idle_popper_pop_def)
  with pop_from_top_ok [OF assms(1), of exp now "rev es" q r k] assms(3) show ?thesis by simp
qed

text \<open>The idle lists after the search of a checkout, and the entry it took.\<close>

lemma idle_take_ok:
  assumes "agrees P" and "lru_laws L" and "idle_ok L origin n pi"
    and "idle_take L P now pi key = (m, entry, nuke)"
  shows "idle_ok L origin n (pi\<lparr>idle_cache := (if nuke then lru_pop L m key else m)\<rparr>)"
    and "entry = Some e \<Longrightarrow> origin (id_value e) = key"
proof -
  have m: "(\<forall>k es. lru_get L m k = Some es \<longrightarrow> length es \<le> n \<and> (\<forall>e \<in> set es. origin (id_value e) = k)) \<and>
      (\<forall>e. entry = Some e \<longrightarrow> origin (id_value e) = key)"
  proof (cases "lru_get L (idle_cache pi) key")
    case None
    with assms(3,4) show ?thesis
      by (auto simp: idle_take_def lru_lawsD(1) [OF assms(2)] idle_ok_def)
  next
    case (Some list)
    then have list: "length list \<le> n" "\<forall>e \<in> set list. origin (id_value e) = key"
      using assms(3) by (auto simp: idle_ok_def)
    obtain list' r where ip: "idle_popper_pop P (idle_timeout pi) now list = (list', r)" by fastforce
    note ok = idle_popper_pop_ok [OF assms(1) ip list(2)]
    have "m = lru_set L (lru_touch L (idle_cache pi) key) key list'" and "entry = r"
      using assms(4) Some ip by (auto simp: idle_take_def Let_def split: option.splits)
    with ok list assms(3) show ?thesis
      by (auto simp: lru_lawsD(1,2) [OF assms(2)] idle_ok_def split: if_splits)
  qed
  then show "idle_ok L origin n (pi\<lparr>idle_cache := (if nuke then lru_pop L m key else m)\<rparr>)"
    using assms(3) by (auto simp: idle_ok_def lru_lawsD(3) [OF assms(2)] split: if_splits)
  show "entry = Some e \<Longrightarrow> origin (id_value e) = key" using m by blast
qed

lemma checkout_idle_ok:
  assumes "agrees P" and "chan_laws C" and "lru_laws L"
    and "idle_ok L origin n pi" and "co_waiter co = None"
    and "checkout_idle L P C now x (Some pi) co = Some (x', po', co', r)"
  shows "\<exists>pi'. po' = Some pi' \<and> idle_ok L origin n pi' \<and> connecting pi' = connecting pi \<and>
      evolves C origin (co_key co) (Some pi) x po' x' \<and> co_key co' = co_key co \<and>
      (\<forall>w. co_waiter co' = Some w \<longrightarrow> w = ch_next C x \<and> ch_next C x' = Suc w \<and>
         ch_value C x' w = None \<and> (\<forall>k. w \<in> waits po' k \<longrightarrow> k = co_key co \<or> w \<in> waits (Some pi) k)) \<and>
      (\<forall>pd. r = Some pd \<longrightarrow> origin (pd_value pd) = co_key co \<and> pd_key pd = co_key co \<and> pd_is_reused pd)"
proof -
  let ?key = "co_key co"
  obtain m entry nuke where c: "idle_take L P now pi ?key = (m, entry, nuke)" by (metis prod_cases3)
  define pi1 where "pi1 = pi\<lparr>idle_cache := (if nuke then lru_pop L m ?key else m)\<rparr>"
  note m = idle_take_ok [OF assms(1,3,4) c, folded pi1_def]
  note res = assms(6) [unfolded checkout_idle_take c prod.case, folded pi1_def, unfolded Let_def]
  show ?thesis
  proof (cases entry)
    case (Some e)
    with res m assms(5) show ?thesis
      by (auto simp: pool_reuse_def pi1_def evolves_def)
  next
    case None
    obtain x1 w where new: "ch_new C x = (x1, w)" by fastforce
    obtain x2 p where poll: "ch_poll C x1 w = (x2, p)" by fastforce
    note cn = chan_new [OF assms(2) new]
    have p: "p = Pending" using cn(3) poll by simp
    note cp = chan_poll [OF assms(2) poll]
    define wm where "wm = AList.update ?key ((case map_of (waiters pi) ?key of Some ws \<Rightarrow> ws | None \<Rightarrow> []) @ [w]) (waiters pi)"
    have r: "x' = x2" "po' = Some (pi1\<lparr>waiters := wm\<rparr>)" "co' = co\<lparr>co_waiter := Some w\<rparr>" "r = None"
      using res None assms(5) new poll p by (auto simp: wm_def pi1_def)
    have ws: "waits po' k = (if k = ?key then insert w (waits (Some pi) k) else waits (Some pi) k)" for k
      unfolding r(2) wm_def by (auto simp: waits_def split: option.splits)
    have "idle_ok L origin n (pi1\<lparr>waiters := wm\<rparr>)" using m(1) by (simp add: idle_ok_def)
    moreover have "evolves C origin ?key (Some pi) x po' x'"
      using cn cp p by (auto simp: evolves_def r(1) ws split: if_splits)
    ultimately show ?thesis
      using r(1,3,4) cn cp p ws unfolding r(2) by (simp add: pi1_def)
  qed
qed

lemma connected_ok:
  assumes "chan_laws C" and "connected C x pi key = (x', pi')"
  shows "evolves C origin key' (Some pi) x (Some pi') x' \<and> connecting pi' = connecting pi - {key} \<and>
    idle_cache pi' = idle_cache pi \<and> max_idle_per_host pi' = max_idle_per_host pi"
proof -
  have "pi' = pi\<lparr>connecting := connecting pi - {key}, waiters := AList.delete key (waiters pi)\<rparr>"
    and x': "x' = foldl (ch_drop_tx C) x (case map_of (waiters pi) key of Some ws \<Rightarrow> ws | None \<Rightarrow> [])"
    using assms(2) by (auto simp: connected_def)
  moreover from this have "waits (Some pi') k \<subseteq> waits (Some pi) k" for k
    by (auto simp: waits_def)
  ultimately show ?thesis
    using evolves_drop_txs [OF assms(1), of "Some pi'" "Some pi"] by auto
qed

lemma clean_waiters_ok:
  assumes "chan_laws C" and "clean_waiters C x pi key = (x', pi')"
  shows "evolves C origin key' (Some pi) x (Some pi') x' \<and> connecting pi' = connecting pi \<and>
    idle_cache pi' = idle_cache pi \<and> max_idle_per_host pi' = max_idle_per_host pi"
proof (cases "map_of (waiters pi) key")
  case None
  with assms(2) show ?thesis by (simp add: clean_waiters_def)
next
  case (Some ws)
  have "waits (Some pi') k \<subseteq> waits (Some pi) k" for k
    using assms(2) Some by (auto simp: clean_waiters_def Let_def waits_waiters waits_def split: if_splits)
  then show ?thesis
    using evolves_drop_txs [OF assms(1), of "Some pi'" "Some pi"] assms(2) Some
    by (auto simp: clean_waiters_def Let_def)
qed

lemma clear_expired_ok:
  assumes "lru_laws L" and "idle_ok L origin n pi" and "clear_expired L P now pi = Some pi'"
  shows "idle_ok L origin n pi' \<and> waiters pi' = waiters pi \<and> connecting pi' = connecting pi"
proof -
  obtain dur where dur: "idle_timeout pi = Some dur"
    using assms(3) by (auto simp: clear_expired_def split: option.splits)
  note kept = clear_expired_get[OF assms(1) dur assms(3)]
  have "length es \<le> n \<and> (\<forall>e \<in> set es. origin (id_value e) = k)"
    if got: "lru_get L (idle_cache pi') k = Some es" for k es
  proof -
    obtain old where "lru_get L (idle_cache pi) k = Some old" and "es = filter (keep_idle P dur now) old"
      using got by (auto simp: kept(2) Let_def split: option.splits if_splits)
    moreover from this(1) assms(2) have "length old \<le> n \<and> (\<forall>e \<in> set old. origin (id_value e) = k)"
      by (simp add: idle_ok_def)
    ultimately show ?thesis by (auto intro: le_trans[OF length_filter_le])
  qed
  with assms(2) kept(1) show ?thesis by (auto simp: idle_ok_def)
qed

end

definition locks :: "'k connecting_handle list \<Rightarrow> 'k \<Rightarrow> nat" where
  "locks cns k = length (filter (\<lambda>cn. cn_pool cn \<and> cn_key cn = k) cns)"

definition sys_ok ::
  "('k, 'c, 'm) idle_ops \<Rightarrow> ('c, 'x) chan_ops \<Rightarrow> ('c \<Rightarrow> 'k) \<Rightarrow> nat \<Rightarrow> ('k, 'c, 'm, 'x) pool_sys \<Rightarrow> bool" where
  "sys_ok L C origin n s \<longleftrightarrow>
     (case ps_pool s of
        None \<Rightarrow> True
      | Some pi \<Rightarrow> idle_ok L origin n pi \<and>
          (\<forall>k. locks (ps_connecting s) k = (if k \<in> connecting pi then 1 else 0))) \<and>
     (\<forall>k. \<forall>w \<in> waits (ps_pool s) k. w < ch_next C (ps_chans s)) \<and>
     (\<forall>co \<in> set (ps_checkouts s). checkout_ok C origin (ps_pool s) (ps_chans s) co) \<and>
     (\<forall>pd \<in> set (ps_out s). origin (pd_value pd) = pd_key pd)"

lemma in_remove1D: "z \<in> set (remove1 y zs) \<Longrightarrow> z \<in> set zs"
  by (meson notin_set_remove1)

lemma locks_remove1: "cn \<in> set cns \<Longrightarrow>
    locks (remove1 cn cns) k = locks cns k - (if cn_pool cn \<and> cn_key cn = k then 1 else 0)"
  by (induction cns) (auto simp: locks_def split: if_splits)

lemma locks_append [simp]: "locks (xs @ ys) k = locks xs k + locks ys k"
  by (simp add: locks_def)

lemma locks_Cons: "locks (cn # cns) k = (if cn_pool cn \<and> cn_key cn = k then 1 else 0) + locks cns k"
  by (simp add: locks_def)

lemma locks_Nil [simp]: "locks [] k = 0"
  by (simp add: locks_def)

lemma evolves_waits:
  "evolves C origin key po x po' x' \<Longrightarrow> \<forall>k. \<forall>w \<in> waits po k. w < ch_next C x \<Longrightarrow>
   \<forall>k. \<forall>w \<in> waits po' k. w < ch_next C x'"
  unfolding evolves_def by (meson UnE atLeastLessThan_iff less_le_trans subsetD)

lemma checkout_ok_fresh [simp]: "checkout_ok C origin po x (pool_checkout key)"
  by (simp add: checkout_ok_def pool_checkout_def)

text \<open>An operation that evolves the queues keeps the system's invariant.\<close>

lemma sys_okI:
  assumes "sys_ok L C origin n s"
    and "evolves C origin key (ps_pool s) (ps_chans s) po1 y"
    and "evolves C origin key po1 y (ps_pool s') (ps_chans s')"
    and "\<And>pi. ps_pool s' = Some pi \<Longrightarrow> idle_ok L origin n pi \<and>
      (\<forall>k. locks (ps_connecting s') k = (if k \<in> connecting pi then 1 else 0))"
    and "\<And>co. co \<in> set (ps_checkouts s') \<Longrightarrow>
      co \<in> set (ps_checkouts s) \<or> checkout_ok C origin (ps_pool s') (ps_chans s') co"
    and "\<And>pd. pd \<in> set (ps_out s') \<Longrightarrow> pd \<in> set (ps_out s) \<or> origin (pd_value pd) = pd_key pd"
  shows "sys_ok L C origin n s'"
proof -
  have "\<forall>k. \<forall>w \<in> waits (ps_pool s') k. w < ch_next C (ps_chans s')"
    using evolves_waits [OF assms(3) evolves_waits [OF assms(2)]] assms(1) unfolding sys_ok_def by blast
  moreover have "checkout_ok C origin (ps_pool s') (ps_chans s') co" if "co \<in> set (ps_checkouts s')" for co
    using assms(5) [OF that] evolves_checkout_ok [OF assms(3) evolves_checkout_ok [OF assms(2)]] assms(1)
    unfolding sys_ok_def by blast
  moreover have "origin (pd_value pd) = pd_key pd" if "pd \<in> set (ps_out s')" for pd
    using assms(6) [OF that] assms(1) unfolding sys_ok_def by blast
  ultimately show ?thesis
    using assms(4) by (auto simp: sys_ok_def split: option.splits)
qed

lemma sys_okD:
  assumes "sys_ok L C origin n s"
  shows "case ps_pool s of None \<Rightarrow> True | Some pi \<Rightarrow> idle_ok L origin n pi"
    "ps_pool s = Some pi \<Longrightarrow> idle_ok L origin n pi"
    "ps_pool s = Some pi \<Longrightarrow> locks (ps_connecting s) k = (if k \<in> connecting pi then 1 else 0)"
    "\<forall>k. \<forall>w \<in> waits (ps_pool s) k. w < ch_next C (ps_chans s)"
    "co \<in> set (ps_checkouts s) \<Longrightarrow> checkout_ok C origin (ps_pool s) (ps_chans s) co"
    "pd \<in> set (ps_out s) \<Longrightarrow> origin (pd_value pd) = pd_key pd"
  using assms by (auto simp: sys_ok_def split: option.splits)

context poolable
begin

lemma checkout_idle_total:
  assumes "chan_laws C"
  shows "checkout_idle L P C now x po co \<noteq> None"
proof -
  obtain x1 w where new: "ch_new C x = (x1, w)" by fastforce
  have "snd (ch_poll C x1 w) = Pending" by (rule chan_new(3) [OF assms new])
  with new show ?thesis
    by (auto simp: checkout_idle_def Let_def split: option.splits prod.splits poll.splits if_splits)
qed

lemma poll_checkout_ok:
  assumes "agrees P" and "chan_laws C" and "lru_laws L"
    and ok: "case po of None \<Rightarrow> True | Some pi \<Rightarrow> idle_ok L origin n pi"
    and waits: "\<forall>k. \<forall>w \<in> waits po k. w < ch_next C x"
    and co: "checkout_ok C origin po x co"
    and poll: "poll_checkout L P C now x po co = (x', po', co', out)"
  shows "evolves C origin (co_key co) po x po' x' \<and>
    (\<forall>pi'. po' = Some pi' \<longrightarrow> (\<exists>pi. po = Some pi \<and> connecting pi' = connecting pi) \<and> idle_ok L origin n pi') \<and>
    (out = Yield \<longrightarrow> checkout_ok C origin po' x' co') \<and>
    (\<forall>pd. out = Done (Inr pd) \<longrightarrow> origin (pd_value pd) = pd_key pd \<and> pd_key pd = co_key co) \<and>
    out \<noteq> Panicked"
proof (cases "co_waiter co")
  case (Some w)
  obtain x1 r where cp: "ch_poll C x w = (x1, r)" by fastforce
  note cpl = chan_poll [OF assms(2) cp]
  have "evolves C origin (co_key co) po x po x1"
    using cpl by (auto simp: evolves_def split: poll.splits option.splits if_splits)
  moreover from this co have "checkout_ok C origin po x1 co" by (rule evolves_checkout_ok)
  moreover have "origin v = co_key co" if "r = Ready (Some v)" for v
    using co cpl Some that by (auto simp: checkout_ok_def)
  ultimately show ?thesis
    using poll Some cp ok
    by (auto simp: poll_checkout_def poll_waiter_def pool_reuse_def split: poll.splits option.splits
        if_splits)
next
  case None
  have pw: "poll_waiter P C x po co = (x, co, Ready None)"
    using None by (simp add: poll_waiter_def)
  show ?thesis
  proof (cases po)
    case (None)
    with poll pw show ?thesis by (auto simp: poll_checkout_def checkout_idle_def)
  next
    case (Some pi)
    have idle: "idle_ok L origin n pi" using ok Some by simp
    obtain x2 po2 co2 r where ci: "checkout_idle L P C now x (Some pi) co = Some (x2, po2, co2, r)"
      using checkout_idle_total [OF assms(2)] by (metis option.exhaust prod_cases4)
    from checkout_idle_ok [OF assms(1-3) idle None ci]
    obtain pi2 where po2: "po2 = Some pi2" and s: "idle_ok L origin n pi2" "connecting pi2 = connecting pi"
      "evolves C origin (co_key co) (Some pi) x po2 x2" "co_key co2 = co_key co"
      and w: "\<And>w. co_waiter co2 = Some w \<Longrightarrow> w = ch_next C x \<and> ch_next C x2 = Suc w \<and>
         ch_value C x2 w = None \<and> (\<forall>k. w \<in> waits po2 k \<longrightarrow> k = co_key co \<or> w \<in> waits (Some pi) k)"
      and r: "\<And>pd. r = Some pd \<Longrightarrow> origin (pd_value pd) = co_key co \<and> pd_key pd = co_key co"
      by blast
    have "checkout_ok C origin po2 x2 co2"
      unfolding checkout_ok_def
    proof (intro allI impI)
      fix v
      assume "co_waiter co2 = Some v"
      from w [OF this] s(4) waits \<open>po = Some pi\<close> show "v < ch_next C x2 \<and>
          (\<forall>c. ch_value C x2 v = Some c \<longrightarrow> origin c = co_key co2) \<and>
          (\<forall>k. v \<in> waits po2 k \<longrightarrow> k = co_key co2)" by auto
    qed
    with poll pw ci \<open>po = Some pi\<close> po2 s r show ?thesis
      by (cases r) (auto simp: poll_checkout_def)
  qed
qed

lemma drop_connecting_ok:
  assumes "chan_laws C" and "drop_connecting C x po cn = (x', po')"
  shows "evolves C origin key po x po' x' \<and>
    (\<forall>pi'. po' = Some pi' \<longrightarrow> (\<exists>pi. po = Some pi \<and>
       connecting pi' = connecting pi - (if cn_pool cn then {cn_key cn} else {}) \<and>
       idle_cache pi' = idle_cache pi \<and> max_idle_per_host pi' = max_idle_per_host pi))"
proof (cases "cn_pool cn \<and> po \<noteq> None")
  case True
  then obtain pi pi' where "po = Some pi" "po' = Some pi'" and c: "connected C x pi (cn_key cn) = (x', pi')"
    using assms(2) by (auto simp: drop_connecting_def split: prod.splits)
  with connected_ok [OF assms(1) c] True show ?thesis by auto
next
  case False
  with assms(2) have "x' = x \<and> po' = po"
    by (auto simp: drop_connecting_def split: bool.splits option.splits)
  with False show ?thesis by auto
qed

lemma idle_ok_cong:
  "idle_ok L origin n pi \<Longrightarrow> idle_cache pi' = idle_cache pi \<Longrightarrow> max_idle_per_host pi' = max_idle_per_host pi \<Longrightarrow>
   idle_ok L origin n pi'"
  by (simp add: idle_ok_def)

end

context poolable
begin

lemma pooled_unique_ok:
  assumes "chan_laws C" and idle: "idle_ok L origin n pi" and "origin c = cn_key cn"
    and "pl_reserve P = reserve" and u: "reserve c = Unique v"
    and "pool_pooled L P C now x (Some pi) cn c = Some (x', po', pd)"
  shows "evolves C origin (cn_key cn) (Some pi) x po' x'"
    and "po' = Some pi' \<Longrightarrow> idle_ok L origin n pi' \<and>
      connecting pi' = connecting pi - (if cn_pool cn then {cn_key cn} else {})"
    and "origin (pd_value pd) = pd_key pd \<and> pd_key pd = cn_key cn"
proof -
  obtain dc: "drop_connecting C x (Some pi) cn = (x', po')" and pd: "pd_value pd = v" "pd_key pd = cn_key cn"
    using assms(4-6) by (auto simp: pool_pooled_def split: prod.splits)
  note dk = drop_connecting_ok [OF assms(1) dc, of "cn_key cn"]
  show "evolves C origin (cn_key cn) (Some pi) x po' x'" by (rule conjunct1 [OF dk])
  show "idle_ok L origin n pi' \<and> connecting pi' = connecting pi - (if cn_pool cn then {cn_key cn} else {})"
    if "po' = Some pi'"
    using conjunct2 [OF dk] that idle_ok_cong [OF idle, of pi'] by simp
  show "origin (pd_value pd) = pd_key pd \<and> pd_key pd = cn_key cn"
    using pd reserve_unique [OF u] assms(3) by simp
qed

lemma pooled_shared_ok:
  assumes "agrees P" and "chan_laws C" and "lru_laws L" and idle: "idle_ok L origin n pi"
    and "origin c = cn_key cn" and pool: "can_share c \<longrightarrow> cn_pool cn" and sh: "reserve c = Shared a b"
    and "pool_pooled L P C now x (Some pi) cn c = Some (x', po', pd)"
  obtains x1 pi1 pi2 where "evolves C origin (cn_key cn) (Some pi) x (Some pi1) x1"
    and "evolves C origin (cn_key cn) (Some pi1) x1 (Some pi2) x'" and "po' = Some pi2"
    and "idle_ok L origin n pi2" and "connecting pi2 = connecting pi - {cn_key cn}" and "cn_pool cn"
    and "origin (pd_value pd) = pd_key pd \<and> pd_key pd = cn_key cn"
proof -
  have P: "pl_reserve P = reserve" using assms(1) by (simp add: agrees_def)
  obtain x1 pi1 where put: "put L P C now x pi (cn_key cn) a = Some (x1, pi1)"
    using assms(8) P sh by (auto simp: pool_pooled_def split: option.splits prod.splits)
  obtain x2 pi2 where con: "connected C x1 pi1 (cn_key cn) = (x2, pi2)" by fastforce
  have r: "x' = x2" "po' = Some pi2" "pd_value pd = b" "pd_key pd = cn_key cn"
    using assms(8) P sh put con by (auto simp: pool_pooled_def)
  note shared = reserve_shared [OF sh]
  have "origin a = cn_key cn" using shared assms(5) by simp
  note pk = put_ok [OF assms(1-4) this put]
  note ck = connected_ok [OF assms(2) con, of "cn_key cn"]
  have "idle_ok L origin n pi2" by (rule idle_ok_cong [of L n pi1]) (use pk ck in simp_all)
  with pk ck have "idle_ok L origin n pi2" "connecting pi2 = connecting pi - {cn_key cn}"
    "evolves C origin (cn_key cn) (Some pi) x (Some pi1) x1" "evolves C origin (cn_key cn) (Some pi1) x1 (Some pi2) x'"
    by (simp_all only: r)
  moreover have "cn_pool cn" "origin (pd_value pd) = pd_key pd \<and> pd_key pd = cn_key cn"
    using r shared pool assms(5) by simp_all
  ultimately show thesis using r(2) by (intro that [of pi1 x1 pi2])
qed

lemma pool_pooled_ok:
  assumes "agrees P" and "chan_laws C" and "lru_laws L"
    and "case po of None \<Rightarrow> True | Some pi \<Rightarrow> idle_ok L origin n pi"
    and "origin c = cn_key cn" and "can_share c \<longrightarrow> cn_pool cn \<or> po = None"
    and "pool_pooled L P C now x po cn c = Some (x', po', pd)"
  shows "\<exists>y po1. evolves C origin (cn_key cn) po x po1 y \<and> evolves C origin (cn_key cn) po1 y po' x' \<and>
    (\<forall>pi'. po' = Some pi' \<longrightarrow> idle_ok L origin n pi' \<and> (\<exists>pi. po = Some pi \<and>
       connecting pi' = connecting pi - (if cn_pool cn then {cn_key cn} else {}))) \<and>
    origin (pd_value pd) = pd_key pd \<and> pd_key pd = cn_key cn"
proof (cases po)
  case None
  with assms(7,5) have "x' = x" "po' = None" "pd_value pd = c" "pd_key pd = cn_key cn"
    by (auto simp: pool_pooled_def)
  with assms(5) None show ?thesis by (intro exI [of _ x] exI [of _ None]) simp
next
  case (Some pi)
  have idle: "idle_ok L origin n pi" using assms(4) Some by simp
  have P: "pl_reserve P = reserve" using assms(1) by (simp add: agrees_def)
  show ?thesis
  proof (cases "reserve c")
    case (Unique v)
    note res = pooled_unique_ok [OF assms(2) idle assms(5) P Unique assms(7) [unfolded Some]]
    show ?thesis
      unfolding Some using res(1,3)
      by (intro exI [of _ x] exI [of _ "Some pi"] conjI allI impI exI [of _ pi])
        (simp_all only: evolves_refl res(2))
  next
    case (Shared a b)
    have share: "can_share c \<longrightarrow> cn_pool cn" using assms(6) Some by simp
    obtain x1 pi1 pi2 where res: "evolves C origin (cn_key cn) (Some pi) x (Some pi1) x1"
      "evolves C origin (cn_key cn) (Some pi1) x1 (Some pi2) x'" "po' = Some pi2"
      "idle_ok L origin n pi2" "connecting pi2 = connecting pi - {cn_key cn}" "cn_pool cn"
      "origin (pd_value pd) = pd_key pd \<and> pd_key pd = cn_key cn"
      by (rule pooled_shared_ok [OF assms(1-3) idle assms(5) share Shared assms(7) [unfolded Some]])
    show ?thesis
      unfolding Some using res(1,2,7)
      by (intro exI [of _ x1] exI [of _ "Some pi1"] conjI allI impI exI [of _ pi])
        (use res(4,5) in \<open>simp_all only: res(3,6) option.inject if_True\<close>)
  qed
qed

lemma drop_pooled_ok:
  assumes "agrees P" and "chan_laws C" and "lru_laws L"
    and "case po of None \<Rightarrow> True | Some pi \<Rightarrow> idle_ok L origin n pi"
    and "origin (pd_value pd) = pd_key pd"
    and "drop_pooled L P C now x po pd = Some (x', po')"
  shows "evolves C origin (pd_key pd) po x po' x' \<and>
    (\<forall>pi'. po' = Some pi' \<longrightarrow> idle_ok L origin n pi' \<and>
       (\<exists>pi. po = Some pi \<and> connecting pi' = connecting pi))"
proof (cases "pl_is_open P (pd_value pd) \<and> pd_pool pd \<and> po \<noteq> None")
  case True
  then obtain pi pi' where po: "po = Some pi" "po' = Some pi'"
    and put: "put L P C now x pi (pd_key pd) (pd_value pd) = Some (x', pi')"
    using assms(6) by (auto simp: drop_pooled_def)
  from put_ok [OF assms(1-3) _ assms(5) put] assms(4) po show ?thesis by simp
next
  case False
  with assms(6) have "x' = x \<and> po' = po"
    by (auto simp: drop_pooled_def split: if_splits bool.splits option.splits)
  with assms(4) show ?thesis by auto
qed

lemma drop_checkout_ok:
  assumes "chan_laws C" and "drop_checkout C x po co = (x', po')"
  shows "\<exists>y. evolves C origin key po x po y \<and> evolves C origin key po y po' x' \<and>
    (\<forall>pi'. po' = Some pi' \<longrightarrow> (\<exists>pi. po = Some pi \<and> connecting pi' = connecting pi \<and>
       idle_cache pi' = idle_cache pi \<and> max_idle_per_host pi' = max_idle_per_host pi))"
proof (cases "co_waiter co")
  case None
  with assms(2) show ?thesis by (intro exI [of _ x]) (auto simp: drop_checkout_def)
next
  case (Some w)
  let ?y = "ch_drop_rx C x w"
  have y: "evolves C origin key po x po ?y"
    by (auto simp: evolves_def chan_drop [OF assms(1)] split: if_splits)
  show ?thesis
  proof (cases po)
    case None
    with Some assms(2) y show ?thesis by (intro exI [of _ ?y]) (auto simp: drop_checkout_def)
  next
    case (Some pi)
    obtain x2 pi2 where cw: "clean_waiters C ?y pi (co_key co) = (x2, pi2)" by fastforce
    with \<open>co_waiter co = Some w\<close> Some assms(2) have "x' = x2" "po' = Some pi2"
      by (auto simp: drop_checkout_def Let_def)
    with clean_waiters_ok [OF assms(1) cw, of key] y Some show ?thesis
      by (intro exI [of _ ?y]) auto
  qed
qed

end

lemma pool_connecting_ok:
  assumes "pool_connecting po key v = (po', cn)"
  shows "waits po' = waits po"
    "po' = Some pi' \<Longrightarrow> \<exists>pi. po = Some pi \<and> idle_cache pi' = idle_cache pi \<and>
       max_idle_per_host pi' = max_idle_per_host pi \<and>
       (case cn of
          Some c \<Rightarrow> cn_key c = key \<and>
            (if cn_pool c then key \<notin> connecting pi \<and> connecting pi' = insert key (connecting pi)
             else connecting pi' = connecting pi)
        | None \<Rightarrow> connecting pi' = connecting pi)"
  using assms by (auto simp: pool_connecting_def waits_def split: ver.splits option.splits if_splits)

lemma evolves_same: "waits po' = waits po \<Longrightarrow> evolves C origin key po x po' x"
  by (simp add: evolves_def)

context poolable
begin

lemma step_poll_ok:
  assumes "chan_laws C" and "lru_laws L" and ok: "sys_ok L C origin n s"
    and co: "co \<in> set (ps_checkouts s)"
    and poll: "poll_checkout L (ops_at open reserve can_share) C now (ps_chans s) (ps_pool s) co = (x, po, co', out)"
  shows "sys_ok L C origin n
       (s\<lparr>ps_chans := x, ps_pool := po,
          ps_checkouts := (if out = Yield then [co'] else []) @ remove1 co (ps_checkouts s),
          ps_out := (case out of Done (Inr pd) \<Rightarrow> [pd] | _ \<Rightarrow> []) @ ps_out s\<rparr>)"
proof -
  note pk = poll_checkout_ok [OF agrees_ops_at assms(1,2) sys_okD(1,4) [OF ok] sys_okD(5) [OF ok co] poll]
  have ev: "evolves C origin (co_key co) (ps_pool s) (ps_chans s) po x" using pk by simp
  show ?thesis
  proof (rule sys_okI [OF ok ev], goal_cases)
    case (2 pi)
    with pk obtain pi0 where "ps_pool s = Some pi0" "connecting pi = connecting pi0" by auto
    with 2 pk sys_okD(3) [OF ok] show ?case by simp
  next
    case (3 co)
    with pk show ?case by (auto split: if_splits dest: in_remove1D)
  next
    case (4 pd)
    with pk show ?case by (auto split: outcome.splits sum.splits)
  qed simp
qed

lemma step_drop_checkout_ok:
  assumes "chan_laws C" and ok: "sys_ok L C origin n s"
    and "drop_checkout C (ps_chans s) (ps_pool s) co = (x, po)"
  shows "sys_ok L C origin n
       (s\<lparr>ps_chans := x, ps_pool := po, ps_checkouts := remove1 co (ps_checkouts s)\<rparr>)"
proof -
  from drop_checkout_ok [OF assms(1,3)] obtain y where
    ev: "evolves C origin (co_key co) (ps_pool s) (ps_chans s) (ps_pool s) y"
      "evolves C origin (co_key co) (ps_pool s) y po x"
    and q: "\<forall>pi'. po = Some pi' \<longrightarrow> (\<exists>pi. ps_pool s = Some pi \<and> connecting pi' = connecting pi \<and>
     idle_cache pi' = idle_cache pi \<and> max_idle_per_host pi' = max_idle_per_host pi)"
    by blast
  show ?thesis
  proof (rule sys_okI [OF ok ev(1)], goal_cases)
    case (2 pi)
    with q obtain pi0 where pi0: "ps_pool s = Some pi0" "connecting pi = connecting pi0"
      "idle_cache pi = idle_cache pi0" "max_idle_per_host pi = max_idle_per_host pi0" by auto
    have "idle_ok L origin n pi" by (rule idle_ok_cong [OF sys_okD(2) [OF ok pi0(1)] pi0(3,4)])
    with pi0 sys_okD(3) [OF ok] show ?case by simp
  qed (use ev(2) in \<open>auto dest: in_remove1D\<close>)
qed

lemma step_connecting_ok:
  assumes ok: "sys_ok L C origin n s" and "pool_connecting (ps_pool s) key v = (po, cn)"
    and cns: "\<And>k. locks cns k = locks (ps_connecting s) k"
  shows "sys_ok L C origin n
     (s\<lparr>ps_pool := po, ps_connecting := (case cn of Some c \<Rightarrow> [c] | None \<Rightarrow> []) @ cns\<rparr>)"
proof (rule sys_okI [OF ok evolves_same [OF pool_connecting_ok(1) [OF assms(2)]]], goal_cases)
  case (2 pi)
  then have "po = Some pi" by simp
  from pool_connecting_ok(2) [OF assms(2) this] obtain pi0 where pi0: "ps_pool s = Some pi0"
    "idle_cache pi = idle_cache pi0" "max_idle_per_host pi = max_idle_per_host pi0"
    and c: "case cn of
          Some c \<Rightarrow> cn_key c = key \<and>
            (if cn_pool c then key \<notin> connecting pi0 \<and> connecting pi = insert key (connecting pi0)
             else connecting pi = connecting pi0)
        | None \<Rightarrow> connecting pi = connecting pi0" by blast
  have "idle_ok L origin n pi" by (rule idle_ok_cong [OF sys_okD(2) [OF ok pi0(1)] pi0(2,3)])
  moreover have "locks ((case cn of Some c \<Rightarrow> [c] | None \<Rightarrow> []) @ cns) k = (if k \<in> connecting pi then 1 else 0)" for k
    using sys_okD(3) [OF ok pi0(1), of k] c
    by (cases cn) (auto simp: cns locks_Cons split: if_splits)
  ultimately show ?case by simp
qed simp_all

lemma step_pooled_ok:
  assumes "chan_laws C" and "lru_laws L" and ok: "sys_ok L C origin n s"
    and cn: "cn \<in> set (ps_connecting s)" "origin c = cn_key cn" "can_share c \<longrightarrow> cn_pool cn \<or> ps_pool s = None"
    and step: "pool_pooled L (ops_at open reserve can_share) C now (ps_chans s) (ps_pool s) cn c = Some (x, po, pd)"
  shows "sys_ok L C origin n
       (s\<lparr>ps_chans := x, ps_pool := po, ps_connecting := remove1 cn (ps_connecting s),
          ps_out := pd # ps_out s\<rparr>)"
proof -
  from pool_pooled_ok [OF agrees_ops_at assms(1,2) sys_okD(1) [OF ok] cn(2,3) step] obtain y po1 where
    ev: "evolves C origin (cn_key cn) (ps_pool s) (ps_chans s) po1 y"
      "evolves C origin (cn_key cn) po1 y po x"
    and q: "\<And>pi'. po = Some pi' \<Longrightarrow> idle_ok L origin n pi' \<and> (\<exists>pi. ps_pool s = Some pi \<and>
     connecting pi' = connecting pi - (if cn_pool cn then {cn_key cn} else {}))"
    and pd: "origin (pd_value pd) = pd_key pd"
    by blast
  show ?thesis
  proof (rule sys_okI [OF ok ev(1)], goal_cases)
    case (2 pi)
    then have "po = Some pi" by simp
    from q [OF this] obtain pi0 where "idle_ok L origin n pi" and pi0: "ps_pool s = Some pi0"
     "connecting pi = connecting pi0 - (if cn_pool cn then {cn_key cn} else {})" by blast
    moreover have "locks (remove1 cn (ps_connecting s)) k = (if k \<in> connecting pi then 1 else 0)" for k
      using sys_okD(3) [OF ok pi0(1), of k] pi0(2) by (auto simp: locks_remove1 [OF cn(1)])
    ultimately show ?case by simp
  qed (use ev(2) pd in auto)
qed

lemma step_drop_connecting_ok:
  assumes "chan_laws C" and ok: "sys_ok L C origin n s" and cn: "cn \<in> set (ps_connecting s)"
    and step: "drop_connecting C (ps_chans s) (ps_pool s) cn = (x, po)"
  shows "sys_ok L C origin n
     (s\<lparr>ps_chans := x, ps_pool := po, ps_connecting := remove1 cn (ps_connecting s)\<rparr>)"
proof -
  note dk = drop_connecting_ok [OF assms(1) step, of "cn_key cn"]
  show ?thesis
  proof (rule sys_okI [OF ok conjunct1 [OF dk]], goal_cases)
    case (2 pi)
    with conjunct2 [OF dk] obtain pi0 where pi0: "ps_pool s = Some pi0"
      "connecting pi = connecting pi0 - (if cn_pool cn then {cn_key cn} else {})"
      "idle_cache pi = idle_cache pi0" "max_idle_per_host pi = max_idle_per_host pi0" by auto
    have "idle_ok L origin n pi" by (rule idle_ok_cong [OF sys_okD(2) [OF ok pi0(1)] pi0(3,4)])
    moreover have "locks (remove1 cn (ps_connecting s)) k = (if k \<in> connecting pi then 1 else 0)" for k
      using sys_okD(3) [OF ok pi0(1), of k] pi0(2) by (auto simp: locks_remove1 [OF cn])
    ultimately show ?case by simp
  qed simp_all
qed

lemma step_drop_pooled_ok:
  assumes "chan_laws C" and "lru_laws L" and ok: "sys_ok L C origin n s"
    and pd: "pd \<in> set (ps_out s)"
    and step: "drop_pooled L (ops_at open reserve can_share) C now (ps_chans s) (ps_pool s) pd = Some (x, po)"
  shows "sys_ok L C origin n (s\<lparr>ps_chans := x, ps_pool := po, ps_out := remove1 pd (ps_out s)\<rparr>)"
proof -
  note dk = drop_pooled_ok [OF agrees_ops_at assms(1,2) sys_okD(1) [OF ok] sys_okD(6) [OF ok pd] step]
  show ?thesis
  proof (rule sys_okI [OF ok conjunct1 [OF dk]], goal_cases)
    case (2 pi)
    with conjunct2 [OF dk] obtain pi0 where "idle_ok L origin n pi" "ps_pool s = Some pi0"
      "connecting pi = connecting pi0" by auto
    with sys_okD(3) [OF ok] show ?case by simp
  qed (auto dest: in_remove1D)
qed

lemma step_clear_expired_ok:
  assumes "lru_laws L" and ok: "sys_ok L C origin n s" and pool: "ps_pool s = Some pi"
    and step: "clear_expired L P now pi = Some pi'"
  shows "sys_ok L C origin n (s\<lparr>ps_pool := Some pi'\<rparr>)"
proof -
  note ck = clear_expired_ok [OF assms(1) sys_okD(2) [OF ok pool] step]
  have "waits (Some pi') = waits (ps_pool s)"
    using ck waits_cong [of pi' pi] pool by auto
  from evolves_same [OF this] show ?thesis
    by (rule sys_okI [OF ok]) (use ck pool sys_okD(3) [OF ok pool] in auto)
qed

lemma step_ok:
  assumes "chan_laws C" and "lru_laws L"
    and "pool_step L C reserve can_share origin s s'" and ok: "sys_ok L C origin n s"
  shows "sys_ok L C origin n s'"
  using assms(3)
proof cases
  case (step_checkout key)
  have "sys_ok L C origin n (s\<lparr>ps_checkouts := pool_checkout key # ps_checkouts s\<rparr>)"
    by (rule sys_okI [OF ok evolves_refl]) (use sys_okD(2,3) [OF ok] in auto)
  with step_checkout show ?thesis by simp
next
  case (step_poll co "open" now x po co' out)
  from step_poll_ok [OF assms(1,2) ok this(2,3)] step_poll(1) show ?thesis by simp
next
  case (step_drop_checkout co x po)
  from step_drop_checkout_ok [OF assms(1) ok this(3)] step_drop_checkout(1) show ?thesis by simp
next
  case (step_connecting key v po cn)
  from step_connecting_ok [OF ok this(2)] step_connecting(1) show ?thesis by simp
next
  case (step_alpn cn po cn')
  have "locks (remove1 cn (ps_connecting s)) k = locks (ps_connecting s) k" for k
    using step_alpn(2,3) by (simp add: locks_remove1)
  from step_connecting_ok [OF ok step_alpn(4) [unfolded alpn_h2_def] this] step_alpn(1)
  show ?thesis by simp
next
  case (step_pooled cn c "open" now x po pd)
  from step_pooled_ok [OF assms(1,2) ok this(2-5)] step_pooled(1) show ?thesis by simp
next
  case (step_drop_connecting cn x po)
  from step_drop_connecting_ok [OF assms(1) ok this(2,3)] step_drop_connecting(1) show ?thesis by simp
next
  case (step_drop_pooled pd "open" now x po)
  from step_drop_pooled_ok [OF assms(1,2) ok this(2,3)] step_drop_pooled(1) show ?thesis by simp
next
  case (step_clear_expired pi "open" now pi')
  from step_clear_expired_ok [OF assms(2) ok this(2,3)] step_clear_expired(1) show ?thesis by simp
qed

lemma start_ok: "pool_start L n s0 \<Longrightarrow> sys_ok L C origin n s0"
  by (auto simp: pool_start_def sys_ok_def pool_new_def idle_ok_def lru_get_def waits_def
      split: option.splits if_splits)

end

text \<open>With the laws of the channels and of the cache, the invariant is one of the pool's runs.\<close>

sublocale poolable \<subseteq> runs: step_invariant "pool_start L n" "pool_step L C reserve can_share origin"
    "\<lambda>s. chan_laws C \<longrightarrow> lru_laws L \<longrightarrow> sys_ok L C origin n s" for L C n
  by unfold_locales (blast intro: start_ok step_ok)+

context poolable
begin

lemma reach_ok:
  assumes "chan_laws C" and "lru_laws L" and "pool_reach L C reserve can_share origin n s"
  shows "sys_ok L C origin n s"
  using assms runs.reached unfolding pool_reach_def by blast

end

section \<open>What a checkout gives\<close>

definition handed_out :: "'c poolable_ops \<Rightarrow> 'c \<Rightarrow> 'c \<Rightarrow> bool" where
  "handed_out P c v \<longleftrightarrow> v = c \<or> pl_reserve P c = Unique v \<or> (\<exists>kept. pl_reserve P c = Shared kept v)"

lemma pop_from_top_Some:
  "pop_from_top P exp now es = (es', Some e) \<Longrightarrow>
   \<exists>e0 \<in> set es. pl_is_open P (id_value e0) \<and> \<not> expires exp (id_idle_at e0) now \<and>
     handed_out P (id_value e0) (id_value e)"
  by (induction es) (auto simp: handed_out_def split: if_splits reservation.splits)

lemma idle_popper_pop_Some:
  "idle_popper_pop P exp now es = (es', Some e) \<Longrightarrow>
   \<exists>e0 \<in> set es. pl_is_open P (id_value e0) \<and> \<not> expires exp (id_idle_at e0) now \<and>
     handed_out P (id_value e0) (id_value e)"
  using pop_from_top_Some [of P exp now "rev es" "rev es'" e]
  by (cases "pop_from_top P exp now (rev es)") (auto simp: idle_popper_pop_def)

lemma checkout_idle_Some:
  assumes "checkout_idle L P C now x po co = Some (x', po', co', Some pd)"
  shows "\<exists>pi es e. po = Some pi \<and> lru_get L (idle_cache pi) (co_key co) = Some es \<and> e \<in> set es \<and>
    pl_is_open P (id_value e) \<and> \<not> expires (idle_timeout pi) (id_idle_at e) now \<and>
    handed_out P (id_value e) (pd_value pd)"
proof -
  obtain pi where po: "po = Some pi" using assms by (cases po) (auto simp: checkout_idle_def)
  obtain es where es: "lru_get L (idle_cache pi) (co_key co) = Some es"
    using assms po by (cases "lru_get L (idle_cache pi) (co_key co)")
      (auto simp: checkout_idle_def Let_def split: if_splits prod.splits poll.splits)
  obtain es' r where ip: "idle_popper_pop P (idle_timeout pi) now es = (es', r)" by fastforce
  obtain e where r: "r = Some e" and "pd_value pd = id_value e"
    using assms po es ip by (cases r)
      (auto simp: checkout_idle_def Let_def pool_reuse_def split: if_splits prod.splits poll.splits)
  with idle_popper_pop_Some [OF ip [unfolded r]] po es show ?thesis by auto
qed

text \<open>
  C32. A checkout only ever hands out a connection that was open at that moment; taken
  from the idle list of its key, it had also not been idle longer than the pool's
  timeout.
\<close>

theorem checkout_open_unexpired:
  assumes "poll_checkout L P C now x po co = (x', po', co', Done (Inr pd))"
  shows "\<exists>c. pl_is_open P c \<and> handed_out P c (pd_value pd) \<and>
    (co_waiter co = None \<longrightarrow>
      (\<exists>pi es e. po = Some pi \<and> lru_get L (idle_cache pi) (co_key co) = Some es \<and> e \<in> set es \<and>
         id_value e = c \<and> \<not> expires (idle_timeout pi) (id_idle_at e) now))"
proof (cases "co_waiter co")
  case None
  with assms have "\<exists>q. checkout_idle L P C now x po co = Some q \<and> (\<exists>a b c. q = (a, b, c, Some pd))"
    by (auto simp: poll_checkout_def poll_waiter_def split: option.splits prod.splits if_splits)
  then obtain a b c where "checkout_idle L P C now x po co = Some (a, b, c, Some pd)" by blast
  from checkout_idle_Some [OF this] show ?thesis by metis
next
  case (Some w)
  with assms show ?thesis
    by (auto simp: poll_checkout_def poll_waiter_def pool_reuse_def handed_out_def
        split: prod.splits poll.splits option.splits if_splits)
qed

text \<open>
  A lawful cache without a capacity and lawful channels, on which the witnesses run:
  a cache is its association list, a channel world is the next number, the values in
  the channels and the numbers of those whose receiver is gone.
\<close>

definition list_cache :: "('k, 'v, ('k \<times> 'v) list) lru_ops" where
  "list_cache =
     \<lparr>lru_entries = AList.clearjunk, lru_touch = (\<lambda>m k. m),
      lru_get_or_insert = (\<lambda>m k v. case map_of m k of None \<Rightarrow> (k, v) # m | Some _ \<Rightarrow> m),
      lru_set = (\<lambda>m k v. case map_of m k of None \<Rightarrow> m | Some _ \<Rightarrow> AList.update k v m),
      lru_pop = (\<lambda>m k. AList.delete k m)\<rparr>"

lemma list_cache_get: "lru_get list_cache m k = map_of m k"
  by (simp add: lru_get_def list_cache_def map_of_clearjunk)

lemma list_cache_laws: "lru_laws list_cache"
  unfolding lru_laws_def list_cache_get
  by (auto simp: list_cache_def distinct_clearjunk split: option.splits)

type_synonym 'c mem_chans = "nat \<times> (nat \<Rightarrow> 'c option) \<times> (nat \<Rightarrow> bool)"

definition mem_chans :: "('c, 'c mem_chans) chan_ops" where
  "mem_chans =
     \<lparr>ch_new = (\<lambda>(n, vs, gone). ((Suc n, vs(n := None), gone(n := False)), n)),
      ch_is_closed = (\<lambda>(n, vs, gone) w. gone w),
      ch_send = (\<lambda>(n, vs, gone) w v. if gone w then ((n, vs, gone), Some v)
        else ((n, vs(w := Some v), gone), None)),
      ch_poll = (\<lambda>(n, vs, gone) w. case vs w of None \<Rightarrow> ((n, vs, gone), Pending)
        | Some v \<Rightarrow> ((n, vs(w := None), gone), Ready (Some v))),
      ch_drop_tx = (\<lambda>x w. x),
      ch_drop_rx = (\<lambda>(n, vs, gone) w. (n, vs(w := None), gone(w := True))),
      ch_next = fst, ch_value = (\<lambda>(n, vs, gone). vs)\<rparr>"

lemma mem_chans_laws: "chan_laws mem_chans"
  by (auto simp: chan_laws_def chan_new_law_def chan_send_law_def chan_poll_law_def chan_drop_law_def
      mem_chans_def split: option.splits if_splits)

definition unique_ops :: "(nat \<Rightarrow> bool) \<Rightarrow> nat poolable_ops" where
  "unique_ops open = ops_at open Unique (\<lambda>c. False)"

theorem checkout_open_unexpired_witness:
  "\<exists>x' po' co' pd. poll_checkout list_cache (unique_ops (\<lambda>c. c = 7)) mem_chans 100 (0, \<lambda>_. None, \<lambda>_. False)
       (Some \<lparr>connecting = {}, idle_cache = [(''a'', [\<lparr>id_value = 7, id_idle_at = 80\<rparr>, \<lparr>id_value = 8, id_idle_at = 90\<rparr>])],
          max_idle_per_host = 2, waiters = [], idle_interval = True, timer_is_empty = False,
          idle_timeout = Some 30\<rparr>)
       (pool_checkout ''a'') = (x', po', co', Done (Inr pd)) \<and> pd_value pd = 7 \<and>
     (\<exists>c. pl_is_open (unique_ops (\<lambda>c. c = 7)) c \<and> handed_out (unique_ops (\<lambda>c. c = 7)) c (pd_value pd))"
proof -
  let ?pi = "\<lparr>connecting = {}, idle_cache = [(''a'', [\<lparr>id_value = 7, id_idle_at = 80\<rparr>, \<lparr>id_value = 8, id_idle_at = 90\<rparr>])],
          max_idle_per_host = 2, waiters = [], idle_interval = True, timer_is_empty = False,
          idle_timeout = Some 30\<rparr> :: (string, nat, (string \<times> nat idle list) list) pool_inner"
  have "\<exists>x' po' co' pd. poll_checkout list_cache (unique_ops (\<lambda>c. c = 7)) mem_chans 100
      (0, \<lambda>_. None, \<lambda>_. False) (Some ?pi) (pool_checkout ''a'') = (x', po', co', Done (Inr pd)) \<and>
      pd_value pd = 7"
    by (simp add: poll_checkout_def poll_waiter_def pool_checkout_def checkout_idle_def lru_get_def Let_def
        list_cache_def idle_popper_pop_def unique_ops_def ops_at_def expires_def pool_reuse_def)
  then show ?thesis
    using checkout_open_unexpired by metis
qed

end
