(* ===== verification/Group.thy ===== *)
theory Group
  imports Uri_Ext
begin

text \<open>
  Request groups (\<open>src/src/group.rs\<close>) and the connection identity made from them
  (\<open>src/src/conn/descriptor.rs\<close>). A group is a \<open>BTreeMap\<close> with one variant per key: the
  association list in increasing key order, which is also what it is compared and
  hashed by. Proxy matchers \<open>'p\<close> and socket bindings \<open>'b\<close> are compared only.
\<close>

datatype group_key = KRequest | KEmulate | KNamed | KUri | KVersion | KProxy | KSocketBind

fun group_key_rank :: "group_key \<Rightarrow> nat" where
  "group_key_rank KRequest = 0"
| "group_key_rank KEmulate = 1"
| "group_key_rank KNamed = 2"
| "group_key_rank KUri = 3"
| "group_key_rank KVersion = 4"
| "group_key_rank KProxy = 5"
| "group_key_rank KSocketBind = 6"

lemma group_key_rank_inj: "group_key_rank a = group_key_rank b \<longleftrightarrow> a = b"
  by (cases a; cases b) simp_all

text \<open>The derived order of the keys is their order of declaration.\<close>

instantiation group_key :: linorder
begin

definition less_eq_group_key :: "group_key \<Rightarrow> group_key \<Rightarrow> bool" where
  "less_eq_group_key a b \<longleftrightarrow> group_key_rank a \<le> group_key_rank b"

definition less_group_key :: "group_key \<Rightarrow> group_key \<Rightarrow> bool" where
  "less_group_key a b \<longleftrightarrow> group_key_rank a < group_key_rank b"

instance
  by standard (auto simp: less_eq_group_key_def less_group_key_def group_key_rank_inj)

end

datatype group_id = Borrowed string | Owned string | Number u64

datatype ('p, 'b) group_variant =
    GRequest "(group_key \<times> ('p, 'b) group_variant) list"
  | GEmulate "(group_key \<times> ('p, 'b) group_variant) list"
  | GNamed group_id
  | GUri uri
  | GVersion http_version
  | GProxy 'p
  | GSocketBind "'b option"

type_synonym ('p, 'b) group = "(group_key \<times> ('p, 'b) group_variant) list"

section \<open>Operations\<close>

text \<open>\<open>BTreeMap::insert\<close>: the value of an existing key is replaced.\<close>

fun bt_insert :: "'k::linorder \<Rightarrow> 'v \<Rightarrow> ('k \<times> 'v) list \<Rightarrow> ('k \<times> 'v) list" where
  "bt_insert k v [] = [(k, v)]"
| "bt_insert k v ((k', v') # m) =
     (if k < k' then (k, v) # (k', v') # m
      else if k = k' then (k, v) # m
      else (k', v') # bt_insert k v m)"

definition group_extend ::
  "group_key \<Rightarrow> ('p, 'b) group_variant option \<Rightarrow> ('p, 'b) group \<Rightarrow> ('p, 'b) group" where
  "group_extend k entry g = (case entry of Some e \<Rightarrow> bt_insert k e g | None \<Rightarrow> g)"

definition group_default :: "('p, 'b) group" where
  "group_default = []"

definition group_new :: "group_id \<Rightarrow> ('p, 'b) group" where
  "group_new name = [(KNamed, GNamed name)]"

definition group_uri :: "uri \<Rightarrow> ('p, 'b) group \<Rightarrow> ('p, 'b) group" where
  "group_uri u = group_extend KUri (Some (GUri u))"

definition group_version :: "http_version option \<Rightarrow> ('p, 'b) group \<Rightarrow> ('p, 'b) group" where
  "group_version v = group_extend KVersion (map_option GVersion v)"

definition group_proxy :: "'p option \<Rightarrow> ('p, 'b) group \<Rightarrow> ('p, 'b) group" where
  "group_proxy p = group_extend KProxy (map_option GProxy p)"

definition group_socket_bind :: "'b option \<Rightarrow> ('p, 'b) group \<Rightarrow> ('p, 'b) group" where
  "group_socket_bind b = group_extend KSocketBind (Some (GSocketBind b))"

definition group_request :: "('p, 'b) group \<Rightarrow> ('p, 'b) group \<Rightarrow> ('p, 'b) group" where
  "group_request h = group_extend KRequest (Some (GRequest h))"

definition group_emulate :: "('p, 'b) group \<Rightarrow> ('p, 'b) group \<Rightarrow> ('p, 'b) group" where
  "group_emulate h = group_extend KEmulate (Some (GEmulate h))"

text \<open>The conversions \<open>From<&'static str>\<close>, \<open>From<String>\<close> and \<open>From<u64>\<close>.\<close>

definition group_of_static :: "string \<Rightarrow> ('p, 'b) group" where
  "group_of_static s = group_new (Borrowed s)"

definition group_of_string :: "string \<Rightarrow> ('p, 'b) group" where
  "group_of_string s = group_new (Owned s)"

definition group_of_number :: "u64 \<Rightarrow> ('p, 'b) group" where
  "group_of_number n = group_new (Number n)"

section \<open>Connection descriptors\<close>

record ('p, 'b, 't) connection_descriptor =
  cd_uri :: uri
  cd_version :: "http_version option"
  cd_proxy :: "'p option"
  cd_tls_options :: "'t option"
  cd_socket_bind :: "'b option"
  cd_id :: "('p, 'b) group"

definition connection_descriptor_new ::
  "uri \<Rightarrow> ('p, 'b) group \<Rightarrow> 'p option \<Rightarrow> http_version option \<Rightarrow> 't option \<Rightarrow> 'b option \<Rightarrow>
   ('p, 'b, 't) connection_descriptor" where
  "connection_descriptor_new u g proxy version tls bind =
     \<lparr>cd_uri = u, cd_version = version, cd_proxy = proxy, cd_tls_options = tls, cd_socket_bind = bind,
      cd_id = group_socket_bind bind (group_proxy proxy (group_version version (group_uri u g)))\<rparr>"

text \<open>
  The cached hash of a connection identity: 0 stands for not yet computed, and the
  cell is only ever written from 0. The result is what is hashed and the cell after.
\<close>

definition connection_id_hash :: "(('p, 'b) group \<Rightarrow> u64) \<Rightarrow> ('p, 'b) group \<Rightarrow> u64 \<Rightarrow> u64 \<times> u64" where
  "connection_id_hash hash_one g cell =
     (if cell \<noteq> 0 then (cell, cell)
      else (let h = (if hash_one g = 0 then 1 else hash_one g) in (h, h)))"

section \<open>Lemmas\<close>

definition group_ok :: "('p, 'b) group \<Rightarrow> bool" where
  "group_ok g \<longleftrightarrow> sorted_wrt (<) (map fst g)"

lemma set_bt_insert: "fst ` set (bt_insert k v m) = insert k (fst ` set m)"
  by (induction k v m rule: bt_insert.induct) auto

lemma bt_insert_sorted:
  "sorted_wrt (<) (map fst m) \<Longrightarrow> sorted_wrt (<) (map fst (bt_insert k v m))"
proof (induction m)
  case (Cons x m)
  obtain k' v' where x: "x = (k', v')" by (cases x)
  have "\<forall>z \<in> set (bt_insert k v m). fst z = k \<or> (\<exists>w \<in> set m. fst z = fst w)"
    using set_bt_insert [of k v m] by (metis image_iff insertE)
  with Cons x show ?case by (fastforce dest: order.strict_trans)
qed simp

lemma map_of_bt_insert:
  "sorted_wrt (<) (map fst m) \<Longrightarrow> map_of (bt_insert k v m) k' = (if k' = k then Some v else map_of m k')"
proof (induction m)
  case (Cons x m)
  obtain a b where x: "x = (a, b)" by (cases x)
  have "map_of m k = None" if "k \<le> a"
    using Cons.prems x that by (force simp: map_of_eq_None_iff)
  with Cons x show ?case by auto
qed simp

lemma sorted_map_eqI:
  fixes m m' :: "('k::linorder \<times> 'v) list"
  assumes "sorted_wrt (<) (map fst m)" and "sorted_wrt (<) (map fst m')" and "map_of m = map_of m'"
  shows "m = m'"
  using assms
proof (induction m arbitrary: m')
  case Nil
  then have "map_of m' = Map.empty" by simp
  then show ?case by (simp add: map_of_eq_empty_iff)
next
  case (Cons x m)
  obtain k v where x: "x = (k, v)" by (cases x)
  from Cons.prems(3) x have "map_of m' k = Some v" by (metis map_of_Cons_code(2))
  then obtain y m1 where m': "m' = y # m1" by (cases m') auto
  obtain k1 v1 where y: "y = (k1, v1)" by (cases y)
  have "map_of (x # m) k1 = Some v1" using m' y by (metis Cons.prems(3) map_of_Cons_code(2))
  then have "k1 \<in> insert k (fst ` set m)" and "k \<in> insert k1 (fst ` set m1)"
    using \<open>map_of m' k = Some v\<close> m' x y by (auto split: if_splits dest!: map_of_SomeD simp: rev_image_eqI)
  then have "k1 = k \<or> k < k1" and "k = k1 \<or> k1 < k"
    using Cons.prems(1,2) x y m' by auto
  then have k: "k1 = k" by auto
  with \<open>map_of m' k = Some v\<close> m' y have v: "v1 = v" by simp
  have "map_of m k = None" "map_of m1 k = None"
    using Cons.prems(1,2) x y m' k by (force simp: map_of_eq_None_iff)+
  have "map_of m q = map_of m1 q" for q
    using fun_cong [OF Cons.prems(3), of q] x y m' k \<open>map_of m k = None\<close> \<open>map_of m1 k = None\<close>
    by (cases "q = k") simp_all
  then have "map_of m = map_of m1" ..
  with Cons x y m' k v show ?case by simp
qed

lemma group_extend_ok [intro]: "group_ok g \<Longrightarrow> group_ok (group_extend k e g)"
  by (simp add: group_ok_def group_extend_def bt_insert_sorted split: option.splits)

lemma map_of_group_extend:
  "group_ok g \<Longrightarrow> map_of (group_extend k e g) k' = (if k' = k \<and> e \<noteq> None then e else map_of g k')"
  by (auto simp: group_ok_def group_extend_def map_of_bt_insert split: option.splits)

lemma group_eq_iff: "group_ok g \<Longrightarrow> group_ok h \<Longrightarrow> g = h \<longleftrightarrow> map_of g = map_of h"
  by (auto simp: group_ok_def intro: sorted_map_eqI)

lemmas group_ops = group_uri_def group_version_def group_proxy_def group_socket_bind_def
  group_request_def group_emulate_def

text \<open>A group as a caller can build it: no connection criteria in it yet.\<close>

definition caller_group :: "('p, 'b) group \<Rightarrow> bool" where
  "caller_group g \<longleftrightarrow> group_ok g \<and>
     map_of g KUri = None \<and> map_of g KVersion = None \<and> map_of g KProxy = None"

text \<open>
  The identity of a group does not depend on the order its criteria were applied in.
\<close>

lemma group_order_independent:
  assumes "group_ok g" and "a \<noteq> b"
  shows "group_extend a x (group_extend b y g) = group_extend b y (group_extend a x g)"
  using assms
  by (subst group_eq_iff) (auto simp: map_of_group_extend group_extend_ok)

lemma group_order_independent_witness:
  "group_version (Some HTTP_2) (group_request [] (group_of_number 5)) =
   group_request [] (group_version (Some HTTP_2) (group_of_number 5) :: (nat, nat) group)"
  unfolding group_ops
  by (rule group_order_independent)
    (simp_all add: group_of_number_def group_new_def group_ok_def)

text \<open>
  C24. Two connections are interchangeable for the pool only if they were made for the
  same caller group, base URI, HTTP version, proxy and socket binding, and then they are.
\<close>

theorem connection_id_separates:
  assumes "caller_group g" and "caller_group g'"
    and "map_of g KSocketBind = None" and "map_of g' KSocketBind = None"
  shows "cd_id (connection_descriptor_new u g p v t b) = cd_id (connection_descriptor_new u' g' p' v' t' b') \<longleftrightarrow>
    (u, g, p, v, b) = (u', g', p', v', b')"
proof
  assume eq: "cd_id (connection_descriptor_new u g p v t b) = cd_id (connection_descriptor_new u' g' p' v' t' b')"
  have ok: "group_ok g" "group_ok g'" using assms by (simp_all add: caller_group_def)
  have m: "map_of (cd_id (connection_descriptor_new u g p v t b)) k =
      (case k of KUri \<Rightarrow> Some (GUri u) | KVersion \<Rightarrow> map_option GVersion v
       | KProxy \<Rightarrow> map_option GProxy p | KSocketBind \<Rightarrow> Some (GSocketBind b) | _ \<Rightarrow> map_of g k)"
    if "caller_group g" for k u and g :: "('a, 'b) group" and p v b and t :: "'t option"
    using that
    by (cases k) (auto simp: connection_descriptor_new_def group_ops map_of_group_extend group_extend_ok
        caller_group_def)
  have k: "map_of (cd_id (connection_descriptor_new u g p v t b)) k =
      map_of (cd_id (connection_descriptor_new u' g' p' v' t' b')) k" for k
    using eq by simp
  have "map_of g k = map_of g' k" for k
    using k [of k] assms by (cases k) (auto simp: m caller_group_def)
  then have "g = g'" using group_eq_iff [OF ok] by blast
  moreover have "u = u'" "p = p'" "v = v'" "b = b'"
    using k [of KUri] k [of KProxy] k [of KVersion] k [of KSocketBind] assms(1,2)
    by (auto simp: m inj_def elim!: option.inj_map_strong [rotated])
  ultimately show "(u, g, p, v, b) = (u', g', p', v', b')" by simp
qed (simp add: connection_descriptor_new_def)

theorem connection_id_separates_witness:
  "cd_id (connection_descriptor_new
     \<lparr>scheme = Some HTTP, authority = Some ''a'', host = Some ''a'', port = None, path = ''/'', query = None\<rparr>
     (group_of_number 1) (Some (1::nat)) None (None :: unit option) (None :: nat option)) \<noteq>
   cd_id (connection_descriptor_new
     \<lparr>scheme = Some HTTP, authority = Some ''a'', host = Some ''a'', port = None, path = ''/'', query = None\<rparr>
     (group_of_number 1) None None (None :: unit option) None)"
proof -
  have g: "caller_group (group_of_number 1 :: (nat, nat) group)"
    "map_of (group_of_number 1 :: (nat, nat) group) KSocketBind = None"
    by (simp_all add: caller_group_def group_of_number_def group_new_def group_ok_def)
  show ?thesis
    using connection_id_separates [OF g(1) g(1) g(2) g(2), of _ "Some 1" None "None :: unit option" None
        _ None None "None :: unit option" None] by simp
qed

text \<open>A name borrowed from the program and the same name owned make different groups.\<close>

lemma group_borrowed_owned_differ: "group_of_static s \<noteq> group_of_string s"
  by (simp add: group_of_static_def group_of_string_def group_new_def)

text \<open>The hash is never 0 and, once computed, never changes.\<close>

lemma connection_id_hash_stable:
  assumes "connection_id_hash f g 0 = (h, cell)"
  shows "h \<noteq> 0 \<and> connection_id_hash f g cell = (h, cell)"
  using assms by (auto simp: connection_id_hash_def Let_def split: if_splits)

end
