(* ===== verification/Cookie_Store.thy ===== *)
theory Cookie_Store
  imports Uri_Ext
begin

text \<open>
  The storage behind the cookie jar (\<open>src/src/cookie/store.rs\<close>): cookies by domain, path,
  host-only scope and name, and the request selection rules. \<open>cookie::Cookie\<close> is a
  third-party type: the record of its attributes. \<open>url::Host\<close> is the datatype of its
  variants, its parser a parameter. Times are integers (nanoseconds), durations signed.
\<close>

section \<open>Data\<close>

datatype cookie_host = Domain string | Ipv4 u32 | Ipv6 "128 word"

datatype same_site = Strict | Lax | NoRestriction

datatype expiration = Session | DateTime int

record cookie =
  c_name :: string
  c_value :: string
  c_domain :: "string option"
  c_path :: "string option"
  c_secure :: "bool option"
  c_http_only :: "bool option"
  c_same_site :: "same_site option"
  c_max_age :: "int option"
  c_expires :: "expiration option"

definition expires_datetime :: "cookie \<Rightarrow> int option" where
  "expires_datetime c = (case c_expires c of Some (DateTime t) \<Rightarrow> Some t | _ \<Rightarrow> None)"

record cookie_entry =
  entry_cookie :: cookie
  creation_index :: nat

record cookie_scope_map =
  scope_host_only :: "(string, cookie_entry) hmap"
  scope_domain :: "(string, cookie_entry) hmap"

type_synonym path_map = "(string, cookie_scope_map) hmap"
type_synonym domain_map = "(cookie_host, path_map) hmap"

record store =
  cookies :: domain_map
  next_creation_index :: nat

definition DEFAULT_PATH :: string where
  "DEFAULT_PATH = ''/''"

definition empty_store :: store where
  "empty_store = \<lparr>cookies = [], next_creation_index = 0\<rparr>"

definition u64_max :: nat where
  "u64_max = 18446744073709551615"

text \<open>\<open>u64::saturating_add(1)\<close>.\<close>

definition saturating_inc :: "nat \<Rightarrow> nat" where
  "saturating_inc n = (if n < u64_max then Suc n else u64_max)"

section \<open>Scope maps\<close>

definition scope_get :: "cookie_scope_map \<Rightarrow> string \<Rightarrow> bool \<Rightarrow> cookie_entry option" where
  "scope_get m name host_only =
     (if host_only then map_of (scope_host_only m) name else map_of (scope_domain m) name)"

definition scope_entries :: "cookie_scope_map \<Rightarrow> string \<Rightarrow> cookie_entry list" where
  "scope_entries m name =
     (case map_of (scope_host_only m) name of None \<Rightarrow> [] | Some e \<Rightarrow> [e]) @
     (case map_of (scope_domain m) name of None \<Rightarrow> [] | Some e \<Rightarrow> [e])"

definition scope_insert :: "string \<Rightarrow> bool \<Rightarrow> cookie_entry \<Rightarrow> cookie_scope_map \<Rightarrow> cookie_scope_map" where
  "scope_insert name host_only e m =
     (if host_only then m\<lparr>scope_host_only := AList.update name e (scope_host_only m)\<rparr>
      else m\<lparr>scope_domain := AList.update name e (scope_domain m)\<rparr>)"

definition scope_remove :: "string \<Rightarrow> bool \<Rightarrow> cookie_scope_map \<Rightarrow> cookie_scope_map" where
  "scope_remove name host_only m =
     (if host_only then m\<lparr>scope_host_only := AList.delete name (scope_host_only m)\<rparr>
      else m\<lparr>scope_domain := AList.delete name (scope_domain m)\<rparr>)"

definition scope_remove_all :: "string \<Rightarrow> cookie_scope_map \<Rightarrow> cookie_scope_map" where
  "scope_remove_all name m =
     m\<lparr>scope_host_only := AList.delete name (scope_host_only m),
       scope_domain := AList.delete name (scope_domain m)\<rparr>"

definition scope_values :: "cookie_scope_map \<Rightarrow> cookie_entry list" where
  "scope_values m = map snd (scope_host_only m) @ map snd (scope_domain m)"

definition scope_is_empty :: "cookie_scope_map \<Rightarrow> bool" where
  "scope_is_empty m \<longleftrightarrow> scope_host_only m = [] \<and> scope_domain m = []"

definition empty_scope :: cookie_scope_map where
  "empty_scope = \<lparr>scope_host_only = [], scope_domain = []\<rparr>"

section \<open>Store operations\<close>

text \<open>
  \<open>entry(k).or_default()\<close> on a hash map: the value under the key, or the default.
\<close>

definition or_default :: "'v \<Rightarrow> ('k, 'v) hmap \<Rightarrow> 'k \<Rightarrow> 'v" where
  "or_default d m k = (case map_of m k of Some v \<Rightarrow> v | None \<Rightarrow> d)"

definition store_get :: "store \<Rightarrow> cookie_host \<Rightarrow> string \<Rightarrow> bool \<Rightarrow> string \<Rightarrow> cookie_entry option" where
  "store_get s domain pth host_only name =
     Option.bind (map_of (cookies s) domain) (\<lambda>path_map.
     Option.bind (map_of path_map pth) (\<lambda>m. scope_get m name host_only))"

definition store_put_entry ::
    "cookie_host \<Rightarrow> string \<Rightarrow> bool \<Rightarrow> string \<Rightarrow> cookie_entry \<Rightarrow> domain_map \<Rightarrow> domain_map" where
  "store_put_entry domain pth host_only name e cs =
     (let path_map = or_default [] cs domain;
          m = or_default empty_scope path_map pth
      in AList.update domain (AList.update pth (scope_insert name host_only e m) path_map) cs)"

definition insert_stored_cookie :: "store \<Rightarrow> cookie_host \<Rightarrow> string \<Rightarrow> cookie \<Rightarrow> store" where
  "insert_stored_cookie s domain pth c =
     (let host_only = (c_domain c = None); name = c_name c; next = next_creation_index s
      in case store_get s domain pth host_only name of
           Some e \<Rightarrow>
             (if c_value (entry_cookie e) \<noteq> c_value c
              then \<lparr>cookies = store_put_entry domain pth host_only name
                       \<lparr>entry_cookie = c, creation_index = next\<rparr> (cookies s),
                     next_creation_index = saturating_inc next\<rparr>
              else s\<lparr>cookies := store_put_entry domain pth host_only name
                       (e\<lparr>entry_cookie := c\<rparr>) (cookies s)\<rparr>)
         | None \<Rightarrow>
             \<lparr>cookies = store_put_entry domain pth host_only name
                \<lparr>entry_cookie = c, creation_index = next\<rparr> (cookies s),
              next_creation_index = saturating_inc next\<rparr>)"

definition remove_stored_cookie_inner ::
    "store \<Rightarrow> cookie_host \<Rightarrow> string \<Rightarrow> string \<Rightarrow> bool option \<Rightarrow> store" where
  "remove_stored_cookie_inner s domain pth name host_only =
     (case map_of (cookies s) domain of
        None \<Rightarrow> s
      | Some path_map \<Rightarrow>
          (let path_map' =
             (case map_of path_map pth of
                None \<Rightarrow> path_map
              | Some m \<Rightarrow>
                  (let m' = (case host_only of Some b \<Rightarrow> scope_remove name b m
                             | None \<Rightarrow> scope_remove_all name m)
                   in if scope_is_empty m' then AList.delete pth path_map
                      else AList.update pth m' path_map))
           in if path_map' = [] then s\<lparr>cookies := AList.delete domain (cookies s)\<rparr>
              else s\<lparr>cookies := AList.update domain path_map' (cookies s)\<rparr>))"

definition remove_stored_cookie :: "store \<Rightarrow> cookie_host \<Rightarrow> string \<Rightarrow> string \<Rightarrow> bool \<Rightarrow> store" where
  "remove_stored_cookie s domain pth name host_only =
     remove_stored_cookie_inner s domain pth name (Some host_only)"

definition remove_stored_cookies :: "store \<Rightarrow> cookie_host \<Rightarrow> string \<Rightarrow> string \<Rightarrow> store" where
  "remove_stored_cookies s domain pth name = remove_stored_cookie_inner s domain pth name None"

section \<open>Matching rules\<close>

definition cookie_is_expired :: "cookie \<Rightarrow> int \<Rightarrow> bool" where
  "cookie_is_expired c now \<longleftrightarrow>
     (case c_max_age c of Some a \<Rightarrow> a \<le> 0 | None \<Rightarrow> False) \<or>
     (case expires_datetime c of Some t \<Rightarrow> t \<le> now | None \<Rightarrow> False)"

fun domain_match :: "cookie_host \<Rightarrow> cookie_host \<Rightarrow> bool" where
  "domain_match (Domain h) (Domain d) =
     (h = d \<or> (length d < length h \<and> h ! (length h - length d - 1) = CHR ''.'' \<and> suffix d h))"
| "domain_match h d = (h = d)"

definition path_match :: "string \<Rightarrow> string \<Rightarrow> bool" where
  "path_match request_path cookie_path \<longleftrightarrow>
     request_path = cookie_path \<or>
     (prefix cookie_path request_path \<and>
      (suffix DEFAULT_PATH cookie_path \<or>
       prefix DEFAULT_PATH (drop (length cookie_path) request_path)))"

definition normalize_path :: "string \<Rightarrow> string" where
  "normalize_path p =
     (if \<not> prefix DEFAULT_PATH p then DEFAULT_PATH
      else case rfind CHR ''/'' p of
             Some pos \<Rightarrow> if pos = 0 then DEFAULT_PATH else take pos p
           | None \<Rightarrow> DEFAULT_PATH)"

definition canonical_host :: "(string \<Rightarrow> cookie_host option) \<Rightarrow> string \<Rightarrow> cookie_host option" where
  "canonical_host host_parse h =
     host_parse (case strip_prefix ''.'' h of Some h' \<Rightarrow> h' | None \<Rightarrow> h)"

definition request_matches_cookie ::
    "uri \<Rightarrow> cookie_host \<Rightarrow> cookie_host \<Rightarrow> string \<Rightarrow> cookie \<Rightarrow> int \<Rightarrow> bool" where
  "request_matches_cookie u request_host cookie_domain cookie_path c now =
     (if \<not> (is_http u \<or> is_https u)
         \<or> \<not> domain_match request_host cookie_domain
         \<or> (c_domain c = None \<and> request_host \<noteq> cookie_domain)
         \<or> \<not> path_match (path u) cookie_path
         \<or> (c_secure c = Some True \<and> is_http u)
      then False
      else \<not> cookie_is_expired c now)"

definition store_entries :: "store \<Rightarrow> (cookie_host \<times> string \<times> cookie_entry) list" where
  "store_entries s =
     concat (map (\<lambda>(d, path_map).
       concat (map (\<lambda>(p, m). map (\<lambda>e. (d, p, e)) (scope_values m)) path_map)) (cookies s))"

definition matching_cookies ::
    "store \<Rightarrow> uri \<Rightarrow> cookie_host \<Rightarrow> int \<Rightarrow> (cookie_host \<times> string \<times> cookie_entry) list" where
  "matching_cookies s u request_host now =
     filter (\<lambda>(d, p, e). request_matches_cookie u request_host d p (entry_cookie e) now)
       (store_entries s)"

definition would_overlay_secure_cookie ::
    "store \<Rightarrow> string \<Rightarrow> cookie_host \<Rightarrow> string \<Rightarrow> int \<Rightarrow> bool" where
  "would_overlay_secure_cookie s name domain pth now =
     list_ex (\<lambda>(stored_domain, path_map).
       (domain_match stored_domain domain \<or> domain_match domain stored_domain) \<and>
       list_ex (\<lambda>(stored_path, m).
         path_match pth stored_path \<and>
         list_ex (\<lambda>e. c_secure (entry_cookie e) = Some True \<and>
                      \<not> cookie_is_expired (entry_cookie e) now) (scope_entries m name))
         path_map)
       (cookies s)"

section \<open>The store as a map\<close>

text \<open>
  The identity of a stored cookie is its domain, path, host-only flag and name. Seen
  through \<^term>\<open>store_get\<close>, an insertion is a map update and a removal a map deletion.
\<close>

lemmas or_default_simps = or_default_def option.case_eq_if

lemma scope_get_insert [simp]:
  "scope_get (scope_insert n b e m) n' b' = (if n' = n \<and> b' = b then Some e else scope_get m n' b')"
  by (auto simp: scope_get_def scope_insert_def)

lemma scope_get_remove [simp]:
  "scope_get (scope_remove n b m) n' b' = (if n' = n \<and> b' = b then None else scope_get m n' b')"
  by (auto simp: scope_get_def scope_remove_def)

lemma scope_get_remove_all [simp]:
  "scope_get (scope_remove_all n m) n' b' = (if n' = n then None else scope_get m n' b')"
  by (auto simp: scope_get_def scope_remove_all_def)

lemma scope_get_empty [simp]: "scope_get empty_scope n b = None"
  by (simp add: scope_get_def empty_scope_def)

lemma scope_is_empty_get: "scope_is_empty m \<Longrightarrow> scope_get m n b = None"
  by (simp add: scope_get_def scope_is_empty_def)

lemma scope_is_empty_iff: "scope_is_empty m \<longleftrightarrow> (\<forall>n b. scope_get m n b = None)"
  by (auto simp: scope_get_def scope_is_empty_def hm_empty_iff [of "scope_host_only m"]
      hm_empty_iff [of "scope_domain m"] all_bool_eq)

lemma store_get_put_entry [simp]:
  "store_get (store.make (store_put_entry d p b n e (cookies s)) i) d' p' b' n' =
     (if (d', p', b', n') = (d, p, b, n) then Some e else store_get s d' p' b' n')"
  by (auto simp: store_get_def store_put_entry_def Let_def or_default_def store.defs
      split: option.splits)

lemma store_get_index [simp]:
  "store_get (s\<lparr>next_creation_index := i\<rparr>) = store_get s"
  by (simp add: store_get_def fun_eq_iff)

lemma store_eq_make: "s\<lparr>cookies := c\<rparr> = store.make c (next_creation_index s)"
  "\<lparr>cookies = c, next_creation_index = i\<rparr> = store.make c i"
  by (simp_all add: store.defs)

definition removed_path_map :: "path_map \<Rightarrow> string \<Rightarrow> string \<Rightarrow> bool option \<Rightarrow> path_map" where
  "removed_path_map path_map pth name host_only =
     (case map_of path_map pth of
        None \<Rightarrow> path_map
      | Some m \<Rightarrow>
          (let m' = (case host_only of Some b \<Rightarrow> scope_remove name b m
                     | None \<Rightarrow> scope_remove_all name m)
           in if scope_is_empty m' then AList.delete pth path_map
              else AList.update pth m' path_map))"

lemma removed_path_map_get:
  "Option.bind (map_of (removed_path_map pm p n h) p') (\<lambda>m. scope_get m n' b') =
     (if p' = p \<and> n' = n \<and> h \<in> {None, Some b'} then None
      else Option.bind (map_of pm p') (\<lambda>m. scope_get m n' b'))"
proof (cases "map_of pm p")
  case None
  then show ?thesis by (simp add: removed_path_map_def)
next
  case (Some m)
  define m' where "m' = (case h of Some b \<Rightarrow> scope_remove n b m | None \<Rightarrow> scope_remove_all n m)"
  have get': "scope_get m' n' b' =
      (if n' = n \<and> h \<in> {None, Some b'} then None else scope_get m n' b')" for n' b'
    by (auto simp: m'_def split: option.splits)
  have emp: "scope_is_empty m' \<Longrightarrow> scope_get m' n' b' = None" for n' b'
    by (rule scope_is_empty_get)
  have "removed_path_map pm p n h =
      (if scope_is_empty m' then AList.delete p pm else AList.update p m' pm)"
    using Some by (simp add: removed_path_map_def m'_def)
  then show ?thesis
    using Some get' [of n' b'] emp [of n' b'] by (auto split: if_splits)
qed

lemma remove_inner_unfold:
  "remove_stored_cookie_inner s d p n h =
     (case map_of (cookies s) d of None \<Rightarrow> s
      | Some pm \<Rightarrow> if removed_path_map pm p n h = []
          then s\<lparr>cookies := AList.delete d (cookies s)\<rparr>
          else s\<lparr>cookies := AList.update d (removed_path_map pm p n h) (cookies s)\<rparr>)"
  by (simp add: remove_stored_cookie_inner_def removed_path_map_def Let_def split: option.splits)

lemma store_get_remove_inner:
  "store_get (remove_stored_cookie_inner s d p n h) d' p' b' n' =
     (if d' = d \<and> p' = p \<and> n' = n \<and> h \<in> {None, Some b'} then None else store_get s d' p' b' n')"
proof (cases "map_of (cookies s) d")
  case None
  then show ?thesis by (auto simp: remove_inner_unfold store_get_def)
next
  case (Some pm)
  have get: "Option.bind (map_of (removed_path_map pm p n h) p') (\<lambda>m. scope_get m n' b') =
      (if p' = p \<and> n' = n \<and> h \<in> {None, Some b'} then None
       else Option.bind (map_of pm p') (\<lambda>m. scope_get m n' b'))"
    by (rule removed_path_map_get)
  show ?thesis
    using Some get by (auto simp: remove_inner_unfold store_get_def split: if_splits)
qed

lemma store_get_insert:
  "store_get (insert_stored_cookie s d p c) d' p' b' n' =
     (if (d', p', b', n') = (d, p, c_domain c = None, c_name c)
      then Some \<lparr>entry_cookie = c, creation_index =
        (case store_get s d p (c_domain c = None) (c_name c) of
           Some e \<Rightarrow> if c_value (entry_cookie e) = c_value c then creation_index e
                     else next_creation_index s
         | None \<Rightarrow> next_creation_index s)\<rparr>
      else store_get s d' p' b' n')"
  by (auto simp: insert_stored_cookie_def Let_def store_eq_make split: option.splits)

section \<open>The store invariant\<close>

definition scope_ok :: "cookie_scope_map \<Rightarrow> bool" where
  "scope_ok m \<longleftrightarrow> hm_ok (scope_host_only m) \<and> hm_ok (scope_domain m)"

definition path_map_ok :: "path_map \<Rightarrow> bool" where
  "path_map_ok pm \<longleftrightarrow> hm_ok pm \<and> hm_all (\<lambda>p m. scope_ok m \<and> \<not> scope_is_empty m) pm"

text \<open>No two entries of a map share a key and no empty inner map is kept.\<close>

definition store_shape :: "store \<Rightarrow> bool" where
  "store_shape s \<longleftrightarrow>
     hm_ok (cookies s) \<and> hm_all (\<lambda>d pm. path_map_ok pm \<and> pm \<noteq> []) (cookies s)"

text \<open>A cookie is filed under its own name, and as host-only iff it has no \<open>Domain\<close>.\<close>

definition entries_ok :: "store \<Rightarrow> bool" where
  "entries_ok s \<longleftrightarrow>
     (\<forall>d p b n e. store_get s d p b n = Some e \<longrightarrow>
        c_name (entry_cookie e) = n \<and> (c_domain (entry_cookie e) = None) = b)"

text \<open>Until the counter saturates, creation indexes are unique and below it.\<close>

definition store_index :: "store \<Rightarrow> cookie_host \<times> string \<times> bool \<times> string \<Rightarrow> nat option" where
  "store_index s = (\<lambda>(d, p, b, n). map_option creation_index (store_get s d p b n))"

definition unique_below :: "nat \<Rightarrow> ('k \<Rightarrow> nat option) \<Rightarrow> bool" where
  "unique_below i G \<longleftrightarrow> (\<forall>k v. G k = Some v \<longrightarrow> v < i) \<and> inj_on G (dom G)"

definition indexes_ok :: "store \<Rightarrow> bool" where
  "indexes_ok s \<longleftrightarrow> next_creation_index s \<le> u64_max \<and>
     (next_creation_index s < u64_max \<longrightarrow> unique_below (next_creation_index s) (store_index s))"

definition store_ok :: "store \<Rightarrow> bool" where
  "store_ok s \<longleftrightarrow> store_shape s \<and> entries_ok s \<and> indexes_ok s"

lemma scope_ok_insert: "scope_ok m \<Longrightarrow> scope_ok (scope_insert n b e m)"
  by (simp add: scope_ok_def scope_insert_def distinct_update)

lemma scope_ok_remove: "scope_ok m \<Longrightarrow> scope_ok (scope_remove n b m)"
  by (simp add: scope_ok_def scope_remove_def distinct_delete)

lemma scope_ok_remove_all: "scope_ok m \<Longrightarrow> scope_ok (scope_remove_all n m)"
  by (simp add: scope_ok_def scope_remove_all_def distinct_delete)

lemma scope_ok_empty: "scope_ok empty_scope"
  by (simp add: scope_ok_def empty_scope_def)

lemma scope_insert_not_empty: "\<not> scope_is_empty (scope_insert n b e m)"
  by (auto simp: scope_is_empty_iff)

lemmas scope_ok_intros = scope_ok_insert scope_ok_remove scope_ok_remove_all scope_ok_empty

lemma path_map_ok_update:
  "path_map_ok pm \<Longrightarrow> scope_ok m \<Longrightarrow> \<not> scope_is_empty m \<Longrightarrow> path_map_ok (AList.update p m pm)"
  by (simp add: path_map_ok_def distinct_update)

lemma path_map_ok_delete: "path_map_ok pm \<Longrightarrow> path_map_ok (AList.delete p pm)"
  by (simp add: path_map_ok_def distinct_delete)

lemma path_map_ok_scope: "path_map_ok pm \<Longrightarrow> map_of pm p = Some m \<Longrightarrow> scope_ok m"
  by (auto simp: path_map_ok_def dest: hm_allD)

lemma store_shape_path_map: "store_shape s \<Longrightarrow> map_of (cookies s) d = Some pm \<Longrightarrow> path_map_ok pm"
  by (auto simp: store_shape_def dest: hm_allD)

lemma store_shape_put:
  assumes "store_shape s"
  shows "store_shape (store.make (store_put_entry d p b n e (cookies s)) i)"
proof -
  let ?pm = "or_default [] (cookies s) d"
  have pm: "path_map_ok ?pm"
    using assms by (auto simp: or_default_def path_map_ok_def [of "[]"] split: option.splits
        intro: store_shape_path_map)
  then have "scope_ok (or_default empty_scope ?pm p)"
    by (auto simp: or_default_def [of empty_scope] scope_ok_empty split: option.splits
        intro: path_map_ok_scope)
  then have "path_map_ok (AList.update p (scope_insert n b e (or_default empty_scope ?pm p)) ?pm)"
    using pm by (intro path_map_ok_update scope_ok_insert scope_insert_not_empty)
  then show ?thesis
    using assms by (simp add: store_shape_def store_put_entry_def Let_def store.defs
        distinct_update)
qed

lemma removed_path_map_ok: "path_map_ok pm \<Longrightarrow> path_map_ok (removed_path_map pm p n h)"
  by (auto simp: removed_path_map_def Let_def split: option.splits
      intro!: path_map_ok_update path_map_ok_delete scope_ok_intros intro: path_map_ok_scope)

lemma store_shape_insert: "store_shape s \<Longrightarrow> store_shape (insert_stored_cookie s d p c)"
  by (auto simp: insert_stored_cookie_def Let_def store_eq_make store_shape_put split: option.splits)

lemma store_shape_remove:
  assumes "store_shape s"
  shows "store_shape (remove_stored_cookie_inner s d p n h)"
proof (cases "map_of (cookies s) d")
  case None
  then show ?thesis using assms by (simp add: remove_inner_unfold)
next
  case (Some pm)
  with assms have "path_map_ok (removed_path_map pm p n h)"
    by (intro removed_path_map_ok store_shape_path_map)
  with Some assms show ?thesis
    by (simp add: remove_inner_unfold store_shape_def distinct_update distinct_delete)
qed

lemma entries_ok_insert: "entries_ok s \<Longrightarrow> entries_ok (insert_stored_cookie s d p c)"
  unfolding entries_ok_def store_get_insert by (auto split: if_splits)

lemma entries_ok_remove: "entries_ok s \<Longrightarrow> entries_ok (remove_stored_cookie_inner s d p n h)"
  unfolding entries_ok_def store_get_remove_inner by auto

lemma next_index_insert:
  "next_creation_index (insert_stored_cookie s d p c) =
     (case store_get s d p (c_domain c = None) (c_name c) of
        Some e \<Rightarrow> if c_value (entry_cookie e) = c_value c then next_creation_index s
                  else saturating_inc (next_creation_index s)
      | None \<Rightarrow> saturating_inc (next_creation_index s))"
  by (simp add: insert_stored_cookie_def Let_def split: option.splits)

lemma next_index_remove [simp]:
  "next_creation_index (remove_stored_cookie_inner s d p n h) = next_creation_index s"
  by (simp add: remove_inner_unfold split: option.splits)

lemma store_ok_empty: "store_ok empty_store"
  by (simp add: store_ok_def store_shape_def entries_ok_def indexes_ok_def empty_store_def
      store_get_def u64_max_def store_index_def unique_below_def dom_def split_def)

lemma unique_below_fresh:
  assumes "unique_below i G"
  shows "unique_below (Suc i) (G(k \<mapsto> i))"
proof -
  have "G k' \<noteq> Some i" for k'
    using assms by (auto simp: unique_below_def)
  moreover have "inj_on G (dom G - {k})"
    using assms by (auto simp: unique_below_def intro: inj_on_subset)
  ultimately show ?thesis
    using assms by (auto simp: unique_below_def less_Suc_eq inj_on_def)
qed

lemma unique_below_subset:
  assumes "unique_below i G" and "\<And>k v. G' k = Some v \<Longrightarrow> G k = Some v"
  shows "unique_below i G'"
proof -
  have eq: "G' k = G k" if "k \<in> dom G'" for k
    using that assms(2) by force
  have "dom G' \<subseteq> dom G"
    using assms(2) by (force simp: dom_def)
  then have "inj_on G (dom G')"
    using assms(1) by (auto simp: unique_below_def intro: inj_on_subset)
  then have "inj_on G' (dom G')"
    using eq by (simp cong: inj_on_cong)
  with assms show ?thesis
    unfolding unique_below_def by blast
qed

lemma store_index_insert:
  "store_index (insert_stored_cookie s d p c) =
     (let k = (d, p, c_domain c = None, c_name c) in
      case store_get s d p (c_domain c = None) (c_name c) of
        Some e \<Rightarrow> if c_value (entry_cookie e) = c_value c then store_index s
                  else (store_index s)(k \<mapsto> next_creation_index s)
      | None \<Rightarrow> (store_index s)(k \<mapsto> next_creation_index s))"
  by (auto simp: fun_eq_iff store_index_def store_get_insert Let_def split: option.splits)

lemma indexes_ok_insert: "indexes_ok s \<Longrightarrow> indexes_ok (insert_stored_cookie s d p c)"
  by (auto simp: indexes_ok_def store_index_insert next_index_insert Let_def saturating_inc_def
      unique_below_fresh split: option.splits)

lemma indexes_ok_remove:
  assumes "indexes_ok s"
  shows "indexes_ok (remove_stored_cookie_inner s d p n h)"
proof -
  have "store_index (remove_stored_cookie_inner s d p n h) k = Some v \<Longrightarrow> store_index s k = Some v" for k v
    by (cases k) (auto simp: store_index_def store_get_remove_inner split: if_splits)
  then show ?thesis
    using assms unique_below_subset unfolding indexes_ok_def next_index_remove by metis
qed

lemma store_ok_insert [inv_intros]: "store_ok s \<Longrightarrow> store_ok (insert_stored_cookie s d p c)"
  by (simp add: store_ok_def store_shape_insert entries_ok_insert indexes_ok_insert)

lemma store_ok_remove [inv_intros]: "store_ok s \<Longrightarrow> store_ok (remove_stored_cookie_inner s d p n h)"
  by (simp add: store_ok_def store_shape_remove entries_ok_remove indexes_ok_remove)

section \<open>The entries of the store\<close>

lemma scope_values_iff:
  "scope_ok m \<Longrightarrow> e \<in> set (scope_values m) \<longleftrightarrow> (\<exists>b n. scope_get m n b = Some e)"
proof -
  assume "scope_ok m"
  then have "(\<exists>n. (n, e) \<in> set (scope_host_only m)) \<longleftrightarrow> (\<exists>n. scope_get m n True = Some e)"
    and "(\<exists>n. (n, e) \<in> set (scope_domain m)) \<longleftrightarrow> (\<exists>n. scope_get m n False = Some e)"
    by (simp_all add: scope_ok_def scope_get_def)
  then show ?thesis
    by (auto simp: scope_values_def ex_bool_eq snd_image_iff)
qed

lemma store_entries_iff:
  assumes "store_shape s"
  shows "(d, p, e) \<in> set (store_entries s) \<longleftrightarrow> (\<exists>b n. store_get s d p b n = Some e)"
proof -
  have hm: "hm_ok (cookies s)"
    using assms by (simp add: store_shape_def)
  have pm: "map_of (cookies s) d = Some pm \<Longrightarrow> path_map_ok pm" for pm
    using assms by (rule store_shape_path_map)
  have "(d, p, e) \<in> set (store_entries s) \<longleftrightarrow>
      (\<exists>pm. (d, pm) \<in> set (cookies s) \<and> (\<exists>m. (p, m) \<in> set pm \<and> e \<in> set (scope_values m)))"
    by (auto simp: store_entries_def split_def image_iff) (metis fst_conv snd_conv)+
  also have "\<dots> \<longleftrightarrow> (\<exists>pm m. map_of (cookies s) d = Some pm \<and> map_of pm p = Some m \<and>
      e \<in> set (scope_values m))"
    using hm pm by (auto simp: path_map_ok_def) blast+
  also have "\<dots> \<longleftrightarrow> (\<exists>b n. store_get s d p b n = Some e)"
    using pm path_map_ok_scope scope_values_iff
    by (simp add: store_get_def bind_eq_Some_conv) metis
  finally show ?thesis .
qed

lemma distinct_scope_values:
  assumes "store_ok s" and "map_of (cookies s) d = Some pm" and "map_of pm p = Some m"
  shows "distinct (scope_values m)"
proof -
  have ok: "scope_ok m"
    using assms by (meson path_map_ok_scope store_ok_def store_shape_path_map)
  have get: "scope_get m n b = Some e \<Longrightarrow> c_name (entry_cookie e) = n \<and> (c_domain (entry_cookie e) = None) = b"
    for n b e
  proof -
    assume "scope_get m n b = Some e"
    then have "store_get s d p b n = Some e"
      using assms(2,3) by (simp add: store_get_def)
    then show ?thesis
      using assms(1) by (simp add: store_ok_def entries_ok_def)
  qed
  have ho: "(n, e) \<in> set (scope_host_only m) \<Longrightarrow> c_name (entry_cookie e) = n \<and> c_domain (entry_cookie e) = None"
    for n e
    using ok get [of n True e] by (simp add: scope_get_def scope_ok_def)
  have dom: "(n, e) \<in> set (scope_domain m) \<Longrightarrow> c_name (entry_cookie e) = n \<and> c_domain (entry_cookie e) \<noteq> None"
    for n e
    using ok get [of n False e] by (simp add: scope_get_def scope_ok_def)
  have "distinct (map snd (scope_host_only m))" and "distinct (map snd (scope_domain m))"
    using ok ho dom
    by (auto simp: scope_ok_def intro!: distinct_map_snd_keys [where g = "\<lambda>e. c_name (entry_cookie e)"])
  moreover have "snd ` set (scope_host_only m) \<inter> snd ` set (scope_domain m) = {}"
    using ho dom by (force simp: snd_image_iff)
  ultimately show ?thesis
    by (simp add: scope_values_def)
qed

lemma distinct_store_entries:
  assumes "store_ok s"
  shows "distinct (store_entries s)"
proof -
  have hm: "hm_ok (cookies s)"
    using assms by (simp add: store_ok_def store_shape_def)
  have inner: "distinct (concat (map (\<lambda>(p, m). map (\<lambda>e. (d, p, e)) (scope_values m)) pm))"
    if "(d, pm) \<in> set (cookies s)" for d pm
  proof (rule distinct_concat_map_keys [where key = "fst \<circ> snd"])
    have "path_map_ok pm"
      using assms that by (auto simp: store_ok_def store_shape_def hm_all_def)
    then show ok: "hm_ok pm" by (simp add: path_map_ok_def)
    show "distinct (map (\<lambda>e. (d, p, e)) (scope_values m)) \<and>
        (\<forall>x \<in> set (map (\<lambda>e. (d, p, e)) (scope_values m)). (fst \<circ> snd) x = p)"
      if "(p, m) \<in> set pm" for p m
      using distinct_scope_values [OF assms, of d pm p m] that \<open>(d, pm) \<in> set (cookies s)\<close> hm ok
      by (simp add: distinct_map inj_on_def)
  qed
  show ?thesis
    unfolding store_entries_def
    by (rule distinct_concat_map_keys [where key = fst, OF hm]) (use inner in auto)
qed

section \<open>Matching rules against the standard\<close>

text \<open>RFC 6265 section 5.1.3: the host is the domain, or ends with a dot and the domain.\<close>

lemma suffix_dot:
  "length d < length h \<and> h ! (length h - length d - 1) = x \<and> suffix d h \<longleftrightarrow> (\<exists>l. h = l @ x # d)"
proof
  assume a: "length d < length h \<and> h ! (length h - length d - 1) = x \<and> suffix d h"
  then obtain l where l: "h = l @ d" by (auto simp: suffix_def)
  with a have "l \<noteq> []" and "last l = x"
    by (auto simp: nth_append last_conv_nth split: if_splits)
  then show "\<exists>l. h = l @ x # d"
    using l by (metis append.assoc append_Cons append_Nil append_butlast_last_id)
qed (auto simp: suffix_def)

lemma domain_match_Domain:
  "domain_match (Domain h) (Domain d) \<longleftrightarrow> h = d \<or> (\<exists>l. h = l @ CHR ''.'' # d)"
  using suffix_dot [of d h] by auto

lemma domain_match_refl [simp]: "domain_match h h"
  by (cases h) auto

lemma domain_match_ip: "domain_match h d \<Longrightarrow> h \<noteq> d \<Longrightarrow> \<exists>a b. h = Domain a \<and> d = Domain b"
  by (cases h; cases d) auto

lemma domain_match_trans:
  assumes "domain_match a b" and "domain_match b c"
  shows "domain_match a c"
proof (cases "a = b \<or> b = c")
  case True
  with assms show ?thesis by auto
next
  case False
  then obtain x y z where "a = Domain x" "b = Domain y" "c = Domain z"
    using assms by (metis cookie_host.inject(1) domain_match_ip)
  with assms show ?thesis
    by (auto simp: domain_match_Domain simp del: domain_match.simps)
qed

text \<open>RFC 6265 section 5.1.4: equal, or a prefix that ends at a path separator.\<close>

lemma path_match_iff:
  "path_match r c \<longleftrightarrow>
     (\<exists>t. r = c @ t \<and> (t = [] \<or> (c \<noteq> [] \<and> last c = CHR ''/'') \<or> hd t = CHR ''/''))"
proof -
  have c: "suffix DEFAULT_PATH c \<longleftrightarrow> c \<noteq> [] \<and> last c = CHR ''/''"
    by (cases c rule: rev_cases) (auto simp: DEFAULT_PATH_def suffix_def)
  have t: "prefix DEFAULT_PATH t \<longleftrightarrow> t \<noteq> [] \<and> hd t = CHR ''/''" for t
    by (cases t) (auto simp: DEFAULT_PATH_def)
  show ?thesis
    unfolding path_match_def c t by (auto simp: prefix_def)
qed

lemma path_match_refl [simp]: "path_match p p"
  by (simp add: path_match_def)

text \<open>The default path starts with a slash and path-matches the request path it is taken from.\<close>

lemma normalize_path_slash: "prefix DEFAULT_PATH (normalize_path p)"
  by (cases p) (auto simp: normalize_path_def DEFAULT_PATH_def take_Cons' split: option.splits)

lemma normalize_path_matches:
  assumes "prefix DEFAULT_PATH p"
  shows "path_match p (normalize_path p)"
proof -
  obtain a b where ab: "rsplit_once CHR ''/'' p = Some (a, b)"
    using assms rsplit_once_None [of "CHR ''/''" p]
    by (cases "rsplit_once CHR ''/'' p") (auto simp: DEFAULT_PATH_def prefix_def)
  then have p: "p = a @ CHR ''/'' # b"
    by (simp add: str_simps)
  show ?thesis
  proof (cases a)
    case Nil
    with ab p show ?thesis
      by (simp add: normalize_path_def rfind_def path_match_def DEFAULT_PATH_def)
  next
    case (Cons x xs)
    then have "normalize_path p = a"
      using assms ab p by (simp add: normalize_path_def rfind_def)
    with p show ?thesis
      by (simp add: path_match_def DEFAULT_PATH_def)
  qed
qed

end
