(* ===== verification/Cookie_Jar.thy ===== *)
theory Cookie_Jar
  imports Cookie_Store "HOL-Library.Product_Lexorder"
begin

text \<open>
  The cookie jar (\<open>src/src/cookie/jar.rs\<close>, \<open>src/src/cookie.rs\<close>): reading, adding and removing
  cookies and the \<open>Cookie\<close> field of a request. The state is the \<^typ>\<open>store\<close> behind the
  lock; each method holds the lock for its whole body, so a method is one step. The
  clock, the host parser and its printer, the saturating date addition, the
  \<open>Set-Cookie\<close> parser and header value validation are arguments.
\<close>

section \<open>Arguments from the libraries\<close>

record jar_lib =
  host_parse :: "string \<Rightarrow> cookie_host option"
  host_display :: "cookie_host \<Rightarrow> string"
  date_saturating_add :: "int \<Rightarrow> int \<Rightarrow> int"
  cookie_parse :: "string \<Rightarrow> cookie option"
  header_value :: "string \<Rightarrow> string option"

type_synonym uri_result = "uri_error + uri"

definition uri_canonical_host :: "jar_lib \<Rightarrow> uri \<Rightarrow> cookie_host option" where
  "uri_canonical_host L u = Option.bind (host u) (canonical_host (host_parse L))"

text \<open>\<open>Iterator::min_by_key\<close>: the first element with the least key.\<close>

fun min_by_key :: "('a \<Rightarrow> nat) \<Rightarrow> 'a list \<Rightarrow> 'a option" where
  "min_by_key f [] = None"
| "min_by_key f (x # xs) =
     (case min_by_key f xs of None \<Rightarrow> Some x | Some y \<Rightarrow> if f y < f x then Some y else Some x)"

section \<open>Reading\<close>

definition live :: "int \<Rightarrow> cookie_entry \<Rightarrow> bool" where
  "live now e \<longleftrightarrow> \<not> cookie_is_expired (entry_cookie e) now"

definition jar_get :: "jar_lib \<Rightarrow> store \<Rightarrow> int \<Rightarrow> string \<Rightarrow> uri_result \<Rightarrow> cookie option" where
  "jar_get L s now name r =
     (case r of Inl _ \<Rightarrow> None
      | Inr u \<Rightarrow>
          Option.bind (uri_canonical_host L u) (\<lambda>h.
          Option.bind (map_of (cookies s) h) (\<lambda>path_map.
          Option.bind (map_of path_map (path u)) (\<lambda>m.
            map_option entry_cookie
              (min_by_key creation_index (filter (live now) (scope_entries m name)))))))"

definition jar_contains :: "jar_lib \<Rightarrow> store \<Rightarrow> int \<Rightarrow> string \<Rightarrow> uri_result \<Rightarrow> bool" where
  "jar_contains L s now name r =
     (case r of Inl _ \<Rightarrow> False
      | Inr u \<Rightarrow>
          (case uri_canonical_host L u of None \<Rightarrow> False
           | Some h \<Rightarrow>
               (case Option.bind (map_of (cookies s) h) (\<lambda>path_map. map_of path_map (path u)) of
                  None \<Rightarrow> False
                | Some m \<Rightarrow> list_ex (live now) (scope_entries m name))))"

definition jar_values :: "store \<Rightarrow> cookie_entry list" where
  "jar_values s =
     concat (map (\<lambda>(d, path_map). concat (map (\<lambda>(p, m). scope_values m) path_map)) (cookies s))"

definition jar_get_all :: "store \<Rightarrow> int \<Rightarrow> cookie list" where
  "jar_get_all s now =
     map entry_cookie (sort_key creation_index (filter (live now) (jar_values s)))"

definition jar_len :: "store \<Rightarrow> int \<Rightarrow> nat" where
  "jar_len s now = length (filter (live now) (jar_values s))"

definition jar_is_empty :: "store \<Rightarrow> int \<Rightarrow> bool" where
  "jar_is_empty s now \<longleftrightarrow> \<not> list_ex (live now) (jar_values s)"

definition jar_matches :: "jar_lib \<Rightarrow> store \<Rightarrow> int \<Rightarrow> uri_result \<Rightarrow> cookie list" where
  "jar_matches L s now r =
     (case r of Inl _ \<Rightarrow> []
      | Inr u \<Rightarrow>
          (case uri_canonical_host L u of None \<Rightarrow> []
           | Some h \<Rightarrow> map (\<lambda>(d, p, e). entry_cookie e) (matching_cookies s u h now)))"

section \<open>Adding and removing\<close>

text \<open>
  The domain a received cookie is filed under, with its \<open>Domain\<close> attribute rewritten to
  canonical form; \<^term>\<open>None\<close> is the early return.
\<close>

definition effective_domain :: "jar_lib \<Rightarrow> cookie_host \<Rightarrow> cookie \<Rightarrow> (cookie_host \<times> cookie) option" where
  "effective_domain L h c =
     (case c_domain c of
        None \<Rightarrow> Some (h, c)
      | Some raw \<Rightarrow>
          (case canonical_host (host_parse L) raw of
             None \<Rightarrow> None
           | Some d \<Rightarrow>
               if \<not> domain_match h d then None
               else Some (d, c\<lparr>c_domain := Some (host_display L d)\<rparr>)))"

text \<open>\<open>Max-Age\<close> wins over \<open>Expires\<close> and becomes an absolute deadline.\<close>

definition effective_expiry :: "jar_lib \<Rightarrow> int \<Rightarrow> cookie \<Rightarrow> bool \<times> cookie" where
  "effective_expiry L now c =
     (case c_max_age c of
        Some a \<Rightarrow>
          if a \<le> 0 then (True, c)
          else (False, c\<lparr>c_max_age := None,
                          c_expires := Some (DateTime (date_saturating_add L now a))\<rparr>)
      | None \<Rightarrow> (case expires_datetime c of Some t \<Rightarrow> (t \<le> now, c) | None \<Rightarrow> (False, c)))"

definition effective_path :: "uri \<Rightarrow> cookie \<Rightarrow> string" where
  "effective_path u c =
     (case c_path c of
        Some p \<Rightarrow> if prefix DEFAULT_PATH p then p else normalize_path (path u)
      | None \<Rightarrow> normalize_path (path u))"

definition jar_add :: "jar_lib \<Rightarrow> store \<Rightarrow> int \<Rightarrow> cookie option \<Rightarrow> uri_result \<Rightarrow> store" where
  "jar_add L s now co r =
     (case co of None \<Rightarrow> s
      | Some c \<Rightarrow>
      (case r of Inl _ \<Rightarrow> s
       | Inr u \<Rightarrow>
       (if c_secure c = Some True \<and> \<not> is_https u then s
        else
       (case uri_canonical_host L u of None \<Rightarrow> s
        | Some h \<Rightarrow>
       (let host_only = (c_domain c = None) in
        case effective_domain L h c of None \<Rightarrow> s
        | Some (d, c1) \<Rightarrow>
       (let (expired, c2) = effective_expiry L now c1;
            p = effective_path u c2
        in if \<not> is_https u \<and> would_overlay_secure_cookie s (c_name c2) d p now then s
           else if expired then remove_stored_cookie s d p (c_name c2) host_only
           else insert_stored_cookie s d p (c2\<lparr>c_path := Some p\<rparr>)))))))"

definition jar_remove :: "jar_lib \<Rightarrow> store \<Rightarrow> string \<Rightarrow> uri_result \<Rightarrow> store" where
  "jar_remove L s name r =
     (case r of Inl _ \<Rightarrow> s
      | Inr u \<Rightarrow>
          (case host u of None \<Rightarrow> s
           | Some h \<Rightarrow>
               (case canonical_host (host_parse L) h of None \<Rightarrow> s
                | Some h' \<Rightarrow> remove_stored_cookies s h' (path u) name)))"

definition jar_clear :: "store \<Rightarrow> store" where
  "jar_clear s = empty_store"

definition jar_set_cookies :: "jar_lib \<Rightarrow> store \<Rightarrow> int \<Rightarrow> string list \<Rightarrow> uri \<Rightarrow> store" where
  "jar_set_cookies L s now headers u =
     foldl (\<lambda>s c. jar_add L s now (Some c) (check_uri u)) s
       (List.map_filter (cookie_parse L) headers)"

section \<open>The request field\<close>

datatype cookies_field = Compressed string | Uncompressed "string list" | Empty

definition request_order :: "cookie_host \<times> string \<times> cookie_entry \<Rightarrow> int \<times> nat" where
  "request_order = (\<lambda>(d, p, e). (- int (length p), creation_index e))"

definition cookie_pair :: "cookie \<Rightarrow> string" where
  "cookie_pair c = c_name c @ ''='' @ c_value c"

fun join_pairs :: "string \<Rightarrow> cookie list \<Rightarrow> string" where
  "join_pairs acc [] = acc"
| "join_pairs acc (c # cs) =
     join_pairs ((if acc \<noteq> '''' then acc @ ''; '' else acc) @ cookie_pair c) cs"

definition selected_cookies :: "store \<Rightarrow> uri \<Rightarrow> cookie_host \<Rightarrow> int \<Rightarrow> (cookie_host \<times> string \<times> cookie_entry) list" where
  "selected_cookies s u h now = sort_key request_order (matching_cookies s u h now)"

definition jar_cookies :: "jar_lib \<Rightarrow> store \<Rightarrow> int \<Rightarrow> uri \<Rightarrow> http_version \<Rightarrow> cookies_field" where
  "jar_cookies L s now u v =
     (case uri_canonical_host L u of None \<Rightarrow> Empty
      | Some h \<Rightarrow>
          (let cs = map (\<lambda>(d, p, e). entry_cookie e) (selected_cookies s u h now)
           in if v \<in> {HTTP_2, HTTP_3}
              then Uncompressed (List.map_filter (\<lambda>c. header_value L (cookie_pair c)) cs)
              else (let joined = join_pairs '''' cs
                    in if joined = '''' then Empty
                       else case header_value L joined of None \<Rightarrow> Empty
                            | Some v \<Rightarrow> Compressed v)))"

section \<open>The storage interface\<close>

text \<open>
  What the jar relies on: looking a key up after an insertion or a removal. A key that an
  insertion may use fits the cookie it files (name and host-only flag).
\<close>

datatype ('k, 'c) storage_op = Put 'k 'c | Del 'k

fun apply_op :: "('s \<Rightarrow> 'k \<Rightarrow> 'c \<Rightarrow> 's) \<Rightarrow> ('s \<Rightarrow> 'k \<Rightarrow> 's) \<Rightarrow> ('k, 'c) storage_op \<Rightarrow> 's \<Rightarrow> 's" where
  "apply_op put del (Put k c) s = put s k c"
| "apply_op put del (Del k) s = del s k"

fun spec_op :: "('k, 'c) storage_op \<Rightarrow> ('k \<rightharpoonup> 'c) \<Rightarrow> ('k \<rightharpoonup> 'c)" where
  "spec_op (Put k c) m = m(k \<mapsto> c)"
| "spec_op (Del k) m = m(k := None)"

locale cookie_storage =
  fixes look :: "'s \<Rightarrow> 'k \<Rightarrow> 'c option"
    and put :: "'s \<Rightarrow> 'k \<Rightarrow> 'c \<Rightarrow> 's"
    and del :: "'s \<Rightarrow> 'k \<Rightarrow> 's"
    and fits :: "'k \<Rightarrow> 'c \<Rightarrow> bool"
    and inv :: "'s \<Rightarrow> bool"
  assumes look_put: "fits k c \<Longrightarrow> look (put s k c) = (look s)(k \<mapsto> c)"
    and look_del: "look (del s k) = (look s)(k := None)"
    and inv_put: "inv s \<Longrightarrow> inv (put s k c)"
    and inv_del: "inv s \<Longrightarrow> inv (del s k)"
begin

lemma run_refines:
  assumes "\<forall>k c. Put k c \<in> set ops \<longrightarrow> fits k c"
  shows "look (fold (apply_op put del) ops s) = fold spec_op ops (look s)"
  using assms
proof (induction ops arbitrary: s)
  case Nil
  then show ?case by simp
next
  case (Cons a ops)
  have "look (apply_op put del a s) = spec_op a (look s)"
    using Cons.prems by (cases a) (simp_all add: look_put look_del)
  with Cons show ?case by simp
qed

lemma run_inv: "inv s \<Longrightarrow> inv (fold (apply_op put del) ops s)"
proof (induction ops arbitrary: s)
  case (Cons a ops)
  then show ?case by (cases a) (simp_all add: inv_put inv_del)
qed simp

end

type_synonym cookie_key = "cookie_host \<times> string \<times> bool \<times> string"

fun store_look :: "store \<Rightarrow> cookie_key \<Rightarrow> cookie option" where
  "store_look s (d, p, b, n) = map_option entry_cookie (store_get s d p b n)"

fun store_put :: "store \<Rightarrow> cookie_key \<Rightarrow> cookie \<Rightarrow> store" where
  "store_put s (d, p, b, n) c = insert_stored_cookie s d p c"

fun store_del :: "store \<Rightarrow> cookie_key \<Rightarrow> store" where
  "store_del s (d, p, b, n) = remove_stored_cookie s d p n b"

fun key_fits :: "cookie_key \<Rightarrow> cookie \<Rightarrow> bool" where
  "key_fits (d, p, b, n) c \<longleftrightarrow> b = (c_domain c = None) \<and> n = c_name c"

lemma store_look_put: "key_fits k c \<Longrightarrow> store_look (store_put s k c) = (store_look s)(k \<mapsto> c)"
  by (cases k) (auto simp: fun_eq_iff store_get_insert)

lemma store_look_del: "store_look (store_del s k) = (store_look s)(k := None)"
  by (cases k) (auto simp: fun_eq_iff remove_stored_cookie_def store_get_remove_inner)

interpretation storage: cookie_storage store_look store_put store_del key_fits store_ok
proof
  fix s k c
  show "key_fits k c \<Longrightarrow> store_look (store_put s k c) = (store_look s)(k \<mapsto> c)"
    by (rule store_look_put)
  show "store_look (store_del s k) = (store_look s)(k := None)"
    by (rule store_look_del)
  show "store_ok s \<Longrightarrow> store_ok (store_put s k c)"
    by (cases k) (simp add: store_ok_insert)
  show "store_ok s \<Longrightarrow> store_ok (store_del s k)"
    by (cases k) (simp add: remove_stored_cookie_def store_ok_remove)
qed

section \<open>Adding as storage operations\<close>

text \<open>Every addition is no operation, one insertion that fits its key, or one removal.\<close>

definition add_ops :: "jar_lib \<Rightarrow> store \<Rightarrow> int \<Rightarrow> cookie option \<Rightarrow> uri_result \<Rightarrow> (cookie_key, cookie) storage_op list" where
  "add_ops L s now co r =
     (case (co, r) of
        (Some c, Inr u) \<Rightarrow>
          (if c_secure c = Some True \<and> \<not> is_https u then []
           else case uri_canonical_host L u of None \<Rightarrow> []
           | Some h \<Rightarrow> (case effective_domain L h c of None \<Rightarrow> []
             | Some (d, c1) \<Rightarrow>
                 (let c2 = snd (effective_expiry L now c1); p = effective_path u c2 in
                  if \<not> is_https u \<and> would_overlay_secure_cookie s (c_name c) d p now then []
                  else if fst (effective_expiry L now c1) then [Del (d, p, c_domain c = None, c_name c)]
                  else [Put (d, p, c_domain c = None, c_name c) (c2\<lparr>c_path := Some p\<rparr>)])))
      | _ \<Rightarrow> [])"

lemma effective_domain_simps:
  assumes "effective_domain L h c = Some (d, c1)"
  shows "c_name c1 = c_name c" "c_domain c1 = None \<longleftrightarrow> c_domain c = None"
    "c_path c1 = c_path c" "c_secure c1 = c_secure c" "c_value c1 = c_value c" "domain_match h d"
    "c_domain c = None \<Longrightarrow> d = h" "c_max_age c1 = c_max_age c" "c_expires c1 = c_expires c"
  using assms by (auto simp: effective_domain_def split: option.splits if_splits)

lemma effective_expiry_simps [simp]:
  "c_name (snd (effective_expiry L now c)) = c_name c"
  "c_domain (snd (effective_expiry L now c)) = c_domain c"
  "c_path (snd (effective_expiry L now c)) = c_path c"
  "c_secure (snd (effective_expiry L now c)) = c_secure c"
  "c_value (snd (effective_expiry L now c)) = c_value c"
  by (auto simp: effective_expiry_def split: option.splits)

lemma add_cases:
  obtains (skip) "add_ops L s now co r = []" "jar_add L s now co r = s"
  | (go) c u h d c1 where "co = Some c" "r = Inr u" "uri_canonical_host L u = Some h"
      "effective_domain L h c = Some (d, c1)" "\<not> (c_secure c = Some True \<and> \<not> is_https u)"
      "\<not> (\<not> is_https u \<and> would_overlay_secure_cookie s (c_name c) d
          (effective_path u (snd (effective_expiry L now c1))) now)"
proof (cases "\<exists>c u h d c1. co = Some c \<and> r = Inr u \<and> uri_canonical_host L u = Some h \<and>
    effective_domain L h c = Some (d, c1)")
  case True
  then obtain c u h d c1 where e: "co = Some c" "r = Inr u" "uri_canonical_host L u = Some h"
      "effective_domain L h c = Some (d, c1)" by blast
  show ?thesis
  proof (cases "\<not> (c_secure c = Some True \<and> \<not> is_https u) \<and>
      \<not> (\<not> is_https u \<and> would_overlay_secure_cookie s (c_name c) d
          (effective_path u (snd (effective_expiry L now c1))) now)")
    case True
    with e show ?thesis by (intro go [of c u h d c1]) simp_all
  next
    case False
    show ?thesis
      by (rule skip) (use False e effective_domain_simps(1) [OF e(4)] in
          \<open>auto simp: jar_add_def add_ops_def Let_def split_def\<close>)
  qed
next
  case False
  show ?thesis
    by (rule skip) (use False in \<open>auto simp: jar_add_def add_ops_def split: option.splits sum.splits\<close>)
qed

lemma jar_add_ops: "jar_add L s now co r = fold (apply_op store_put store_del) (add_ops L s now co r) s"
proof (cases rule: add_cases [where L = L and s = s and now = now and co = co and r = r])
  case (go c u h d c1)
  then show ?thesis
    using effective_domain_simps(1,2) [OF go(4)]
    by (auto simp: jar_add_def add_ops_def Let_def split_def)
qed simp

lemma add_ops_fits: "Put k c \<in> set (add_ops L s now co r) \<Longrightarrow> key_fits k c"
proof (cases rule: add_cases [where L = L and s = s and now = now and co = co and r = r])
  case (go c' u h d c1)
  then show "Put k c \<in> set (add_ops L s now co r) \<Longrightarrow> key_fits k c"
    using effective_domain_simps(1,2) [OF go(4)]
    by (auto simp: add_ops_def Let_def split: if_splits)
qed simp

lemma jar_add_ok [inv_intros]: "store_ok s \<Longrightarrow> store_ok (jar_add L s now co r)"
  unfolding jar_add_ops by (rule storage.run_inv)

lemma jar_add_look:
  "store_look (jar_add L s now co r) = fold spec_op (add_ops L s now co r) (store_look s)"
  unfolding jar_add_ops by (rule storage.run_refines) (blast intro: add_ops_fits)

lemma jar_remove_ok [inv_intros]: "store_ok s \<Longrightarrow> store_ok (jar_remove L s n r)"
  by (auto simp: jar_remove_def remove_stored_cookies_def store_ok_remove
      split: option.splits sum.splits)

lemma jar_set_cookies_ok [inv_intros]: "store_ok s \<Longrightarrow> store_ok (jar_set_cookies L s now hs u)"
proof -
  have "store_ok s \<Longrightarrow> store_ok (foldl (\<lambda>s c. jar_add L s now (Some c) (check_uri u)) s cs)" for cs
    by (induction cs arbitrary: s) (auto intro: jar_add_ok)
  then show "store_ok s \<Longrightarrow> store_ok (jar_set_cookies L s now hs u)"
    by (simp add: jar_set_cookies_def)
qed

section \<open>Reachable jars\<close>

inductive jar_reach :: "jar_lib \<Rightarrow> store \<Rightarrow> bool" for L where
  jar_start: "jar_reach L empty_store"
| jar_step_add: "jar_reach L s \<Longrightarrow> jar_reach L (jar_add L s now co r)"
| jar_step_remove: "jar_reach L s \<Longrightarrow> jar_reach L (jar_remove L s n r)"
| jar_step_set: "jar_reach L s \<Longrightarrow> jar_reach L (jar_set_cookies L s now hs u)"
| jar_step_clear: "jar_reach L s \<Longrightarrow> jar_reach L (jar_clear s)"

lemma jar_reach_store_ok: "jar_reach L s \<Longrightarrow> store_ok s"
  by (induction rule: jar_reach.induct)
    (auto simp: jar_clear_def store_ok_empty intro: inv_intros)

section \<open>Properties\<close>

text \<open>C13. A run of insertions and removals on the cookie store, in any order, is the same run
  of updates and deletions on a map from (domain, path, host-only flag, name) to the cookie:
  the nested hash maps, their pruning of empty inner maps and the reuse of creation indexes
  never lose, duplicate or misplace a cookie.\<close>

theorem store_refines_map:
  assumes "\<forall>k c. Put k c \<in> set ops \<longrightarrow> key_fits k c"
  shows "store_look (fold (apply_op store_put store_del) ops s) = fold spec_op ops (store_look s)"
  using assms by (rule storage.run_refines)

definition demo_cookie :: cookie where
  "demo_cookie = \<lparr>c_name = ''n'', c_value = ''v'', c_domain = None, c_path = None,
     c_secure = Some True, c_http_only = None, c_same_site = None, c_max_age = None, c_expires = None\<rparr>"

definition demo_key :: cookie_key where
  "demo_key = (Domain ''a.b'', ''/'', True, ''n'')"

theorem store_refines_map_witness:
  "store_look (fold (apply_op store_put store_del) [Put demo_key demo_cookie, Del demo_key] empty_store) =
     (store_look empty_store)(demo_key \<mapsto> demo_cookie, demo_key := None)"
  using store_refines_map [of "[Put demo_key demo_cookie, Del demo_key]" empty_store]
  by (simp add: demo_key_def demo_cookie_def)

text \<open>C9. Whatever sequence of calls built the jar, no key occurs twice in any of its maps, no
  empty inner map is kept, every cookie is filed under its own name and host-only flag, and
  the creation indexes are pairwise different and below the counter until it saturates.\<close>

theorem jar_invariant: "jar_reach L s \<Longrightarrow> store_ok s"
  by (rule jar_reach_store_ok)

definition demo_jar_lib :: jar_lib where
  "demo_jar_lib = \<lparr>host_parse = (\<lambda>h. Some (Domain h)),
     host_display = (\<lambda>h. case h of Domain d \<Rightarrow> d | _ \<Rightarrow> ''?''),
     date_saturating_add = (+), cookie_parse = (\<lambda>s. Some (demo_cookie\<lparr>c_name := s\<rparr>)),
     header_value = Some\<rparr>"

definition demo_uri :: uri where
  "demo_uri = \<lparr>scheme = Some HTTPS, authority = Some ''a.b'', host = Some ''a.b'', port = None,
     path = ''/x/y'', query = None\<rparr>"

theorem jar_invariant_witness:
  "store_ok (jar_add demo_jar_lib empty_store 5 (Some demo_cookie) (Inr demo_uri))"
  by (rule jar_invariant [OF jar_step_add [OF jar_start]])

text \<open>What an addition does to the entry of one key.\<close>

lemma overlay_key:
  assumes "store_get s d p b n = Some e" and "c_secure (entry_cookie e) = Some True"
    and "\<not> cookie_is_expired (entry_cookie e) now"
    and "domain_match d d' \<or> domain_match d' d" and "path_match p' p"
  shows "would_overlay_secure_cookie s n d' p' now"
proof -
  obtain pm m where pm: "(d, pm) \<in> set (cookies s)" "(p, m) \<in> set pm" "scope_get m n b = Some e"
    using assms(1) by (auto simp: store_get_def bind_eq_Some_conv dest!: map_of_SomeD)
  then have "e \<in> set (scope_entries m n)"
    by (auto simp: scope_entries_def scope_get_def split: if_splits)
  with assms(2,3) have "list_ex (\<lambda>e. c_secure (entry_cookie e) = Some True \<and>
      \<not> cookie_is_expired (entry_cookie e) now) (scope_entries m n)"
    by (auto simp: list_ex_iff)
  then show ?thesis
    using assms(4,5)
    unfolding would_overlay_secure_cookie_def list_ex_iff [of _ "cookies s"] list_ex_iff [of _ pm]
    by (auto simp: list_ex_iff [of _ pm] intro!: bexI [OF _ pm(1)] bexI [OF _ pm(2)])
qed

lemma jar_add_get:
  assumes "store_get (jar_add L s now co r) d p b n \<noteq> store_get s d p b n"
  obtains c u h c1 where "co = Some c" "r = Inr u" "uri_canonical_host L u = Some h"
    "effective_domain L h c = Some (d, c1)" "n = c_name c" "b = (c_domain c = None)"
    "p = effective_path u c" "\<not> (c_secure c = Some True \<and> \<not> is_https u)"
    "is_https u \<or> \<not> would_overlay_secure_cookie s n d p now"
    "\<And>e. store_get (jar_add L s now co r) d p b n = Some e \<Longrightarrow> c_secure (entry_cookie e) = c_secure c"
proof (cases rule: add_cases [where L = L and s = s and now = now and co = co and r = r])
  case skip
  with assms show ?thesis by simp
next
  case (go c u h d' c1)
  note dom = effective_domain_simps [OF go(4)]
  have p': "effective_path u (snd (effective_expiry L now c1)) = effective_path u c"
    using dom(3) by (simp add: effective_path_def)
  let ?p = "effective_path u c"
  have add: "jar_add L s now co r =
      (if fst (effective_expiry L now c1)
       then remove_stored_cookie s d' ?p (c_name c) (c_domain c = None)
       else insert_stored_cookie s d' ?p ((snd (effective_expiry L now c1))\<lparr>c_path := Some ?p\<rparr>))"
    using go dom(1,2) p' by (cases "is_https u") (simp_all add: jar_add_ops add_ops_def Let_def)
  have key: "d = d' \<and> p = ?p \<and> n = c_name c \<and> b = (c_domain c = None)"
    using assms dom(1,2) unfolding add
    by (auto simp: store_get_insert remove_stored_cookie_def store_get_remove_inner split: if_splits)
  have sec: "store_get (jar_add L s now co r) d p b n = Some e \<Longrightarrow> c_secure (entry_cookie e) = c_secure c" for e
    using key dom(1,2,4) unfolding add
    by (auto simp: store_get_insert remove_stored_cookie_def store_get_remove_inner split: if_splits)
  show ?thesis
    by (rule that [of c u h c1]) (use go key sec p' in auto)
qed

text \<open>C4. A response over plain HTTP can neither add a \<open>Secure\<close> cookie nor replace, expire or
  remove one that is unexpired: such an entry is unchanged, and every \<open>Secure\<close> entry after the
  call was there before it. Nor can it overlay one: no entry of any key changes while an
  unexpired \<open>Secure\<close> cookie of the same name lives under the same domain, a parent or a child of
  it, on a path that the key's path matches.\<close>

theorem insecure_origin_safe:
  assumes "\<not> is_https u" and "c_secure (entry_cookie e) = Some True"
  shows "(store_get s d p b n = Some e \<longrightarrow> \<not> cookie_is_expired (entry_cookie e) now \<longrightarrow>
      store_get (jar_add L s now co (Inr u)) d p b n = Some e) \<and>
    (store_get (jar_add L s now co (Inr u)) d p b n = Some e \<longrightarrow> store_get s d p b n = Some e) \<and>
    (store_get s d p b n = Some e \<longrightarrow> \<not> cookie_is_expired (entry_cookie e) now \<longrightarrow>
      domain_match d d' \<or> domain_match d' d \<longrightarrow> path_match p' p \<longrightarrow>
      store_get (jar_add L s now co (Inr u)) d' p' b' n = store_get s d' p' b' n)"
proof (intro conjI impI)
  assume e: "store_get s d p b n = Some e" "\<not> cookie_is_expired (entry_cookie e) now"
  then have "would_overlay_secure_cookie s n d p now"
    using assms(2) by (intro overlay_key [of s d p b n e]) simp_all
  then show "store_get (jar_add L s now co (Inr u)) d p b n = Some e"
    using jar_add_get [of L s now co "Inr u" d p b n] assms e(1) by (metis sum.inject(2))
next
  assume "store_get (jar_add L s now co (Inr u)) d p b n = Some e"
  then show "store_get s d p b n = Some e"
    using jar_add_get [of L s now co "Inr u" d p b n] assms by (metis sum.inject(2))
next
  assume "store_get s d p b n = Some e" "\<not> cookie_is_expired (entry_cookie e) now"
    and "domain_match d d' \<or> domain_match d' d" and "path_match p' p"
  then have "would_overlay_secure_cookie s n d' p' now"
    using assms(2) by (intro overlay_key [of s d p b n e])
  then show "store_get (jar_add L s now co (Inr u)) d' p' b' n = store_get s d' p' b' n"
    using jar_add_get [of L s now co "Inr u" d' p' b' n] assms(1) by (metis sum.inject(2))
qed

text \<open>The cookies selected for a request are exactly the stored, unexpired ones whose domain,
  path, host-only flag and \<open>Secure\<close> flag allow it, the longest path first and then the oldest.\<close>

lemma selected_cookies_exact:
  assumes "store_ok s"
  shows "sorted (map request_order (selected_cookies s u h now)) \<and>
    distinct (selected_cookies s u h now) \<and>
    ((d, p, e) \<in> set (selected_cookies s u h now) \<longleftrightarrow>
       (\<exists>b n. store_get s d p b n = Some e) \<and> (is_http u \<or> is_https u) \<and>
       domain_match h d \<and> (c_domain (entry_cookie e) = None \<longrightarrow> h = d) \<and>
       path_match (path u) p \<and> (c_secure (entry_cookie e) = Some True \<longrightarrow> is_https u) \<and>
       \<not> cookie_is_expired (entry_cookie e) now)"
proof -
  have "store_shape s"
    using assms by (simp add: store_ok_def)
  then show ?thesis
    using distinct_store_entries [OF assms] is_http_not_https [of u]
    by (auto simp: selected_cookies_def matching_cookies_def store_entries_iff
        request_matches_cookie_def)
qed

lemma join_pairs_rest:
  "acc \<noteq> '''' \<Longrightarrow> join_pairs acc cs = acc @ concat (map (\<lambda>c. ''; '' @ cookie_pair c) cs)"
  by (induction cs arbitrary: acc) simp_all

lemma join_with_Cons: "join_with sep (x # xs) = x @ concat (map (\<lambda>y. sep @ y) xs)"
  by (induction xs arbitrary: x) simp_all

lemma join_pairs_join_with: "join_pairs '''' cs = join_with ''; '' (map cookie_pair cs)"
proof (cases cs)
  case (Cons c cs')
  have "cookie_pair c \<noteq> ''''" by (simp add: cookie_pair_def)
  then show ?thesis by (simp add: Cons join_pairs_rest join_with_Cons comp_def)
qed simp

lemma join_pairs_Nil_iff: "join_pairs '''' cs = '''' \<longleftrightarrow> cs = []"
  by (cases cs) (auto simp: join_pairs_rest cookie_pair_def)

lemma join_with_append:
  "xs \<noteq> [] \<Longrightarrow> ys \<noteq> [] \<Longrightarrow> join_with sep (xs @ ys) = join_with sep xs @ sep @ join_with sep ys"
  by (induction sep xs rule: join_with.induct) (cases ys; simp)+

text \<open>Every string of a joined list stands between separators.\<close>

lemma join_with_piece:
  "\<exists>before after. (before = [] \<or> suffix sep before) \<and> (after = [] \<or> prefix sep after) \<and>
     join_with sep (xs @ y # ys) = before @ y @ after"
proof -
  have left: "\<exists>before. (before = [] \<or> suffix sep before) \<and> join_with sep (xs @ y # ys) = before @ join_with sep (y # ys)"
  proof (cases "xs = []")
    case False
    then show ?thesis
      by (intro exI [of _ "join_with sep xs @ sep"]) (simp add: join_with_append suffix_def)
  qed (intro exI [of _ "[]"], simp)
  have right: "\<exists>after. (after = [] \<or> prefix sep after) \<and> join_with sep (y # ys) = y @ after"
    by (intro exI [of _ "concat (map (\<lambda>z. sep @ z) ys)"]) (cases ys; simp add: join_with_Cons)
  from left right show ?thesis by (metis append.assoc)
qed

lemma jar_cookies_field:
  assumes "uri_canonical_host L u = Some h"
    and "map (\<lambda>(d, p, e). entry_cookie e) (selected_cookies s u h now) = cs"
  shows "jar_cookies L s now u v =
    (if v \<in> {HTTP_2, HTTP_3} then Uncompressed (List.map_filter (header_value L) (map cookie_pair cs))
     else if cs = [] then Empty
     else (case header_value L (join_with ''; '' (map cookie_pair cs)) of
             Some field \<Rightarrow> Compressed field | None \<Rightarrow> Empty))"
proof -
  have "List.map_filter (\<lambda>c. header_value L (cookie_pair c)) cs = List.map_filter (header_value L) (map cookie_pair cs)"
    by (induction cs) (simp_all add: List.map_filter_simps split: option.split)
  then show ?thesis
    using join_pairs_Nil_iff [of cs]
    by (auto simp: jar_cookies_def assms Let_def join_pairs_join_with split: option.split)
qed

lemma sorted_request_order:
  "sorted (map request_order cs) \<longleftrightarrow>
     sorted_wrt (\<lambda>(d, p, e) (d', p', e'). length p' < length p \<or>
       length p' = length p \<and> creation_index e \<le> creation_index e') cs"
  unfolding sorted_map by (rule arg_cong [where f = "\<lambda>P. sorted_wrt P cs"])
    (auto simp: fun_eq_iff request_order_def less_eq_prod_def)

text \<open>C1. The \<open>Cookie\<close> fields of a request carry exactly the stored, unexpired cookies whose domain,
  path, host-only flag and \<open>Secure\<close> flag allow it, the longest path first and then the oldest:
  one field each in HTTP/2 and HTTP/3, left out if it is no valid header value; all joined in one field
  before that, and no field when there is none or the joined value is not valid. A request whose
  URI has no canonical host carries none.\<close>

theorem sent_cookies_exact:
  assumes "store_ok s"
  shows "case uri_canonical_host L u of
      None \<Rightarrow> jar_cookies L s now u v = Empty
    | Some h \<Rightarrow>
        (\<exists>cs. sorted_wrt (\<lambda>(d, p, e) (d', p', e'). length p' < length p \<or>
             length p' = length p \<and> creation_index e \<le> creation_index e') cs \<and>
           distinct cs \<and>
           set cs = {(d, p, e). (\<exists>b n. store_get s d p b n = Some e) \<and> (is_http u \<or> is_https u) \<and>
             domain_match h d \<and> (c_domain (entry_cookie e) = None \<longrightarrow> h = d) \<and>
             path_match (path u) p \<and> (c_secure (entry_cookie e) = Some True \<longrightarrow> is_https u) \<and>
             \<not> cookie_is_expired (entry_cookie e) now} \<and>
           (let pairs = map (\<lambda>(d, p, e). c_name (entry_cookie e) @ ''='' @ c_value (entry_cookie e)) cs
            in jar_cookies L s now u v =
                 (if v \<in> {HTTP_2, HTTP_3} then Uncompressed (List.map_filter (header_value L) pairs)
                  else if cs = [] then Empty
                  else (case header_value L (join_with ''; '' pairs) of
                          Some field \<Rightarrow> Compressed field | None \<Rightarrow> Empty))))"
proof (cases "uri_canonical_host L u")
  case None
  then show ?thesis by (simp add: jar_cookies_def)
next
  case (Some h)
  let ?cs = "selected_cookies s u h now"
  let ?pairs = "map (\<lambda>(d, p, e). c_name (entry_cookie e) @ ''='' @ c_value (entry_cookie e)) ?cs"
  have pairs: "?pairs = map cookie_pair (map (\<lambda>(d, p, e). entry_cookie e) ?cs)"
    by (simp add: cookie_pair_def split_beta comp_def)
  let ?sel = "{(d, p, e). (\<exists>b n. store_get s d p b n = Some e) \<and> (is_http u \<or> is_https u) \<and>
      domain_match h d \<and> (c_domain (entry_cookie e) = None \<longrightarrow> h = d) \<and>
      path_match (path u) p \<and> (c_secure (entry_cookie e) = Some True \<longrightarrow> is_https u) \<and>
      \<not> cookie_is_expired (entry_cookie e) now}"
  have set: "set ?cs = ?sel"
  proof (rule set_eqI)
    fix x :: "cookie_host \<times> string \<times> cookie_entry"
    obtain d p e where "x = (d, p, e)" by (cases x)
    with selected_cookies_exact [OF assms, THEN conjunct2, THEN conjunct2, of d p e u h now]
    show "x \<in> set ?cs \<longleftrightarrow> x \<in> ?sel" by simp
  qed
  show ?thesis
    unfolding Some option.case Let_def
    using selected_cookies_exact [OF assms, of u h now] set
      jar_cookies_field [OF Some refl, of s now v, folded pairs]
    by (intro exI [of _ ?cs] conjI) (simp_all add: sorted_request_order [symmetric])
qed

lemma matching_cookies_mset:
  assumes "store_ok s" "store_ok t" and "store_get s = store_get t"
  shows "mset (matching_cookies s u h now) = mset (matching_cookies t u h now)"
proof -
  have "set (store_entries s) = set (store_entries t)"
    using assms store_entries_iff [of s] store_entries_iff [of t]
    by (auto simp: store_ok_def)
  then have "mset (store_entries s) = mset (store_entries t)"
    using assms distinct_store_entries set_eq_iff_mset_eq_distinct by blast
  then show ?thesis
    by (simp add: matching_cookies_def mset_filter)
qed

lemma request_order_inj:
  assumes "store_ok s" and "next_creation_index s < u64_max"
  shows "inj_on request_order (set (matching_cookies s u h now))"
proof (rule inj_onI)
  fix x y
  assume "x \<in> set (matching_cookies s u h now)" "y \<in> set (matching_cookies s u h now)"
    and eq: "request_order x = request_order y"
  moreover obtain d p e d' p' e' where xy: "x = (d, p, e)" "y = (d', p', e')"
    by (cases x; cases y) auto
  ultimately obtain b n b' n' where get: "store_get s d p b n = Some e" "store_get s d' p' b' n' = Some e'"
    using assms(1) by (auto simp: matching_cookies_def store_ok_def store_entries_iff)
  have "store_index s (d, p, b, n) = store_index s (d', p', b', n')"
    using get eq xy by (simp add: store_index_def request_order_def)
  moreover have "inj_on (store_index s) (dom (store_index s))"
    using assms by (simp add: store_ok_def indexes_ok_def unique_below_def)
  moreover have "(d, p, b, n) \<in> dom (store_index s)" "(d', p', b', n') \<in> dom (store_index s)"
    using get by (auto simp: store_index_def)
  ultimately have "(d, p, b, n) = (d', p', b', n')"
    by (meson inj_onD)
  then show "x = y" using get xy by simp
qed

text \<open>C17. The \<open>Cookie\<close> field of a request does not depend on the iteration order of the hash
  maps: two jars that hold the same entries under the same keys send the same field.\<close>

theorem jar_cookies_deterministic:
  assumes "store_ok s" "store_ok t" and "store_get s = store_get t"
    and "next_creation_index s < u64_max"
  shows "jar_cookies L s now u v = jar_cookies L t now u v"
proof -
  have "selected_cookies s u h now = selected_cookies t u h now" for h
    unfolding selected_cookies_def
    using assms by (intro sort_key_inj_key_eq matching_cookies_mset)
      (auto simp: matching_cookies_mset [OF assms(2,1)] intro: request_order_inj)
  then show ?thesis
    by (simp add: jar_cookies_def split: option.splits)
qed

text \<open>A concrete jar: one \<open>Secure\<close> cookie for each of two hosts.\<close>

definition demo_store :: store where
  "demo_store =
     jar_add demo_jar_lib (jar_add demo_jar_lib empty_store 5 (Some demo_cookie) (Inr demo_uri)) 5
       (Some demo_cookie) (Inr (demo_uri\<lparr>host := Some ''c''\<rparr>))"

lemmas demo_defs = demo_store_def demo_jar_lib_def demo_uri_def demo_cookie_def

lemmas jar_add_exec = jar_add_def Let_def uri_canonical_host_def canonical_host_def strip_prefix_def
  effective_domain_def effective_expiry_def expires_datetime_def effective_path_def is_https_def
  normalize_path_def DEFAULT_PATH_def rfind_def rsplit_once_def insert_stored_cookie_def
  store_put_entry_def or_default_def scope_insert_def empty_scope_def store_get_def scope_get_def
  empty_store_def saturating_inc_def u64_max_def

lemma demo_store_eval:
  "demo_store = \<lparr>cookies =
     [(Domain ''a.b'', [(''/x'', \<lparr>scope_host_only = [(''n'', \<lparr>entry_cookie = demo_cookie\<lparr>c_path := Some ''/x''\<rparr>, creation_index = 0\<rparr>)],
         scope_domain = []\<rparr>)]),
      (Domain ''c'', [(''/x'', \<lparr>scope_host_only = [(''n'', \<lparr>entry_cookie = demo_cookie\<lparr>c_path := Some ''/x''\<rparr>, creation_index = 1\<rparr>)],
         scope_domain = []\<rparr>)])], next_creation_index = 2\<rparr>"
  by (simp add: demo_defs jar_add_exec)

lemma demo_store_ok: "store_ok demo_store"
  unfolding demo_store_def by (intro jar_add_ok store_ok_empty)

lemma demo_store_get:
  "store_get demo_store (Domain ''a.b'') ''/x'' True ''n'' =
     Some \<lparr>entry_cookie = demo_cookie\<lparr>c_path := Some ''/x''\<rparr>, creation_index = 0\<rparr>"
  by (simp add: demo_store_eval store_get_def scope_get_def)

theorem insecure_origin_safe_witness:
  "store_get (jar_add demo_jar_lib demo_store 6 (Some (demo_cookie\<lparr>c_secure := None, c_max_age := Some 0\<rparr>))
     (Inr (demo_uri\<lparr>scheme := Some HTTP\<rparr>))) (Domain ''a.b'') ''/x'' True ''n'' =
   Some \<lparr>entry_cookie = demo_cookie\<lparr>c_path := Some ''/x''\<rparr>, creation_index = 0\<rparr>"
  by (rule insecure_origin_safe [THEN conjunct1, THEN mp, THEN mp, OF _ _ demo_store_get])
    (simp_all add: is_https_def demo_uri_def demo_cookie_def cookie_is_expired_def expires_datetime_def)

theorem sent_cookies_exact_witness:
  "\<exists>cs. (Domain ''a.b'', ''/x'', \<lparr>entry_cookie = demo_cookie\<lparr>c_path := Some ''/x''\<rparr>, creation_index = 0\<rparr>) \<in> set cs \<and>
     jar_cookies demo_jar_lib demo_store 6 demo_uri HTTP_2 =
       Uncompressed (map (\<lambda>(d, p, e). c_name (entry_cookie e) @ ''='' @ c_value (entry_cookie e)) cs)"
proof -
  have host: "uri_canonical_host demo_jar_lib demo_uri = Some (Domain ''a.b'')"
    by (simp add: uri_canonical_host_def canonical_host_def strip_prefix_def demo_jar_lib_def demo_uri_def)
  have all: "List.map_filter (header_value demo_jar_lib) xs = xs" for xs
    by (induction xs) (simp_all add: demo_jar_lib_def List.map_filter_simps)
  show ?thesis
    using sent_cookies_exact [OF demo_store_ok, of demo_jar_lib 6 demo_uri HTTP_2, unfolded host option.case all Let_def]
      demo_store_get
    by (elim exE conjE, intro exI conjI)
      (auto simp: demo_uri_def demo_cookie_def is_http_def is_https_def path_match_def
        DEFAULT_PATH_def cookie_is_expired_def expires_datetime_def)
qed

lemma store_ok_rev:
  assumes "store_ok s"
  shows "store_ok (s\<lparr>cookies := rev (cookies s)\<rparr>)" and "store_get (s\<lparr>cookies := rev (cookies s)\<rparr>) = store_get s"
proof -
  have "hm_ok (cookies s)"
    using assms by (simp add: store_ok_def store_shape_def)
  then have "map_of (rev (cookies s)) = map_of (cookies s)"
    by (simp add: map_of_inject_set rev_map [symmetric])
  then show get: "store_get (s\<lparr>cookies := rev (cookies s)\<rparr>) = store_get s"
    by (simp add: store_get_def fun_eq_iff)
  show "store_ok (s\<lparr>cookies := rev (cookies s)\<rparr>)"
    using assms get
    by (simp add: store_ok_def store_shape_def hm_all_def entries_ok_def indexes_ok_def
        store_index_def rev_map [symmetric])
qed

theorem jar_cookies_deterministic_witness:
  "jar_cookies demo_jar_lib demo_store 6 demo_uri HTTP_11 =
   jar_cookies demo_jar_lib (demo_store\<lparr>cookies := rev (cookies demo_store)\<rparr>) 6 demo_uri HTTP_11"
  by (rule jar_cookies_deterministic [OF demo_store_ok store_ok_rev(1) [OF demo_store_ok]
        store_ok_rev(2) [OF demo_store_ok, symmetric]])
    (simp add: demo_store_eval u64_max_def)

text \<open>The default path of a cookie matches the address that set it.\<close>

lemma default_path_matches:
  "prefix DEFAULT_PATH (path u) \<Longrightarrow> c_path c = None \<Longrightarrow> path_match (path u) (effective_path u c)"
  by (simp add: effective_path_def normalize_path_matches)

text \<open>C21. A cookie that a response from an HTTP or HTTPS address sets, with a path that matches the
  address, and that is not refused or expired, is in the \<open>Cookie\<close> field of the next request to the
  same address: a field of its own in HTTP/2, if the pair is a valid header value, and before that
  a piece between separators of the one field, if the joined value is valid.\<close>

theorem added_cookie_sent_back:
  assumes "store_ok s" and "is_http u \<or> is_https u"
    and "uri_canonical_host L u = Some h" and "effective_domain L h c = Some (d, c1)"
    and "path_match (path u) (effective_path u c)" and "c_secure c = Some True \<longrightarrow> is_https u"
    and "is_https u \<or> \<not> would_overlay_secure_cookie s (c_name c) d (effective_path u c) now"
    and "\<not> cookie_is_expired (snd (effective_expiry L now c1)) now"
  shows "let field = jar_cookies L (jar_add L s now (Some c) (Inr u)) now u v; pair = c_name c @ ''='' @ c_value c
    in if v \<in> {HTTP_2, HTTP_3}
       then \<exists>fields. field = Uncompressed fields \<and> set_option (header_value L pair) \<subseteq> set fields
       else \<exists>before after. (before = [] \<or> suffix ''; '' before) \<and> (after = [] \<or> prefix ''; '' after) \<and>
         field = (case header_value L (before @ pair @ after) of Some x \<Rightarrow> Compressed x | None \<Rightarrow> Empty)"
proof -
  note dom = effective_domain_simps [OF assms(4)]
  let ?p = "effective_path u c" and ?s = "jar_add L s now (Some c) (Inr u)"
  let ?c2 = "(snd (effective_expiry L now c1))\<lparr>c_path := Some ?p\<rparr>"
  have p: "effective_path u (snd (effective_expiry L now c1)) = ?p"
    using dom(3) by (simp add: effective_path_def)
  have fst: "\<not> fst (effective_expiry L now c1)"
    using assms(8) by (auto simp: effective_expiry_def cookie_is_expired_def split: option.splits if_splits)
  have add: "?s = insert_stored_cookie s d ?p ?c2"
    using assms(3,4,6,7) dom(1,2) p fst
    by (cases "is_https u") (auto simp: jar_add_ops add_ops_def Let_def)
  obtain e where e: "store_get ?s d ?p (c_domain ?c2 = None) (c_name ?c2) = Some e" "entry_cookie e = ?c2"
    unfolding add store_get_insert by simp
  have ok: "store_ok ?s"
    using assms(1) by (rule jar_add_ok)
  have "(d, ?p, e) \<in> set (selected_cookies ?s u h now)"
    using assms dom e selected_cookies_exact [OF ok, THEN conjunct2, THEN conjunct2, of d ?p e u h now]
    by (auto simp: cookie_is_expired_def expires_datetime_def)
  then have "entry_cookie e \<in> set (map (\<lambda>(d, p, e). entry_cookie e) (selected_cookies ?s u h now))"
    by force
  then obtain bs as where split: "map (\<lambda>(d, p, e). entry_cookie e) (selected_cookies ?s u h now) = bs @ entry_cookie e # as"
    by (meson split_list)
  have pair: "cookie_pair (entry_cookie e) = c_name c @ ''='' @ c_value c"
    using e(2) dom(1,5) by (simp add: cookie_pair_def)
  note field = jar_cookies_field [OF assms(3) split, of v, unfolded map_append list.map pair]
  obtain before after where piece: "before = [] \<or> suffix ''; '' before" "after = [] \<or> prefix ''; '' after"
      "join_with ''; '' (map cookie_pair bs @ (c_name c @ ''='' @ c_value c) # map cookie_pair as) =
       before @ (c_name c @ ''='' @ c_value c) @ after"
    using join_with_piece [of "''; ''" "map cookie_pair bs" "c_name c @ ''='' @ c_value c" "map cookie_pair as"]
    by (elim exE conjE)
  have own: "set_option (header_value L y) \<subseteq> set (List.map_filter (header_value L) (xs @ y # ys))" for y xs ys
    by (cases "header_value L y") (auto simp: List.map_filter_def)
  show ?thesis
  proof (cases "v \<in> {HTTP_2, HTTP_3}")
    case True
    with own show ?thesis unfolding Let_def field by (simp only: if_True) (rule exI, rule conjI, rule refl)
  next
    case False
    then have "jar_cookies L ?s now u v =
        (case header_value L (before @ (c_name c @ ''='' @ c_value c) @ after) of Some x \<Rightarrow> Compressed x | None \<Rightarrow> Empty)"
      unfolding field piece(3) by simp
    with False piece(1,2) show ?thesis
      unfolding Let_def by (simp only: if_False) (rule exI, rule exI, intro conjI, assumption, assumption, rule refl)
  qed
qed

theorem added_cookie_sent_back_witness:
  "\<exists>fields. jar_cookies demo_jar_lib
      (jar_add demo_jar_lib demo_store 6 (Some (demo_cookie\<lparr>c_path := Some ''/x''\<rparr>)) (Inr demo_uri))
      6 demo_uri HTTP_2 = Uncompressed fields \<and> ''n=v'' \<in> set fields"
proof -
  define c where "c = demo_cookie\<lparr>c_path := Some ''/x''\<rparr>"
  have c: "c_name c = ''n''" "c_value c = ''v''" "c_domain c = None" "c_path c = Some ''/x''"
      "c_max_age c = None" "c_expires c = None"
    by (simp_all add: c_def demo_cookie_def)
  have uri: "is_http demo_uri \<or> is_https demo_uri" "is_https demo_uri"
    by (simp_all add: demo_uri_def is_http_def is_https_def)
  have host: "uri_canonical_host demo_jar_lib demo_uri = Some (Domain ''a.b'')"
    by (simp add: uri_canonical_host_def canonical_host_def strip_prefix_def demo_jar_lib_def demo_uri_def)
  have domain: "effective_domain demo_jar_lib (Domain ''a.b'') c = Some (Domain ''a.b'', c)"
    by (simp add: effective_domain_def c)
  have path: "path_match (path demo_uri) (effective_path demo_uri c)"
    by (simp add: effective_path_def path_match_def DEFAULT_PATH_def demo_uri_def c)
  have live: "\<not> cookie_is_expired (snd (effective_expiry demo_jar_lib 6 c)) 6"
    by (simp add: effective_expiry_def cookie_is_expired_def expires_datetime_def c)
  have secure: "c_secure c = Some True \<longrightarrow> is_https demo_uri"
    using uri(2) by (rule impI)
  have names: "header_value demo_jar_lib ''n=v'' = Some ''n=v''"
    by (simp add: demo_jar_lib_def)
  note sent = added_cookie_sent_back [OF demo_store_ok uri(1) host domain path secure disjI1 [OF uri(2)] live,
      where v = HTTP_2]
  show ?thesis
    using sent unfolding c_def [symmetric] by (simp add: c names Let_def)
qed

end
