(* ===== verification/Http_Client.thy ===== *)
theory Http_Client
  imports Pool Group Http_Types Cookie_Jar
begin

text \<open>
  The HTTP client below the layers (\<open>src/src/client/layer/client.rs\<close>, with the connection
  information of \<open>src/src/conn.rs\<close>): validating and rewriting a request for the connection
  it is sent on, the retry loop, the race between the pool and a new connection, and
  the pooled client as a poolable connection. The connector, the HTTP/1 and HTTP/2
  senders and the URI builder are parameters.
\<close>

section \<open>Connection information\<close>

record 'h connected_info =
  ci_h2 :: bool
  ci_is_proxied :: bool
  ci_proxy_auth :: "hvalue option"
  ci_proxy_headers :: "'h option"
  ci_pill :: nat

text \<open>A new connection with its own poison pill, and what the connector notes on it.\<close>

definition connected_new :: "nat \<Rightarrow> 'h connected_info" where
  "connected_new pill =
     \<lparr>ci_h2 = False, ci_is_proxied = False, ci_proxy_auth = None, ci_proxy_headers = None, ci_pill = pill\<rparr>"

definition connected_proxy ::
  "'h connected_info \<Rightarrow> hvalue option \<Rightarrow> 'h option \<Rightarrow> 'h connected_info" where
  "connected_proxy ci auth headers =
     ci\<lparr>ci_is_proxied := True,
        ci_proxy_auth := (case auth of Some a \<Rightarrow> Some a | None \<Rightarrow> ci_proxy_auth ci),
        ci_proxy_headers := (case headers of Some h \<Rightarrow> Some h | None \<Rightarrow> ci_proxy_headers ci)\<rparr>"

definition connected_negotiated_h2 :: "'h connected_info \<Rightarrow> 'h connected_info" where
  "connected_negotiated_h2 ci = ci\<lparr>ci_h2 := True\<rparr>"

section \<open>The pooled client\<close>

text \<open>The sender halves are shared handles, named by a number.\<close>

datatype pool_tx = TxHttp1 nat | TxHttp2 nat

record 'h pool_client =
  pc_conn_info :: "'h connected_info"
  pc_tx :: pool_tx

definition pc_is_http2 :: "'h pool_client \<Rightarrow> bool" where
  "pc_is_http2 pc = (case pc_tx pc of TxHttp1 _ \<Rightarrow> False | TxHttp2 _ \<Rightarrow> True)"

definition pc_is_http1 :: "'h pool_client \<Rightarrow> bool" where
  "pc_is_http1 pc \<longleftrightarrow> \<not> pc_is_http2 pc"

text \<open>The state of the pills and of the senders at one moment.\<close>

definition pc_is_ready :: "(pool_tx \<Rightarrow> bool) \<Rightarrow> 'h pool_client \<Rightarrow> bool" where
  "pc_is_ready ready pc = ready (pc_tx pc)"

definition pc_is_open :: "(nat \<Rightarrow> bool) \<Rightarrow> (pool_tx \<Rightarrow> bool) \<Rightarrow> 'h pool_client \<Rightarrow> bool" where
  "pc_is_open poisoned ready pc \<longleftrightarrow> \<not> poisoned (ci_pill (pc_conn_info pc)) \<and> pc_is_ready ready pc"

definition pc_reserve :: "'h pool_client \<Rightarrow> 'h pool_client reservation" where
  "pc_reserve pc =
     (case pc_tx pc of
        TxHttp1 tx \<Rightarrow> Unique \<lparr>pc_conn_info = pc_conn_info pc, pc_tx = TxHttp1 tx\<rparr>
      | TxHttp2 tx \<Rightarrow>
          (let b = \<lparr>pc_conn_info = pc_conn_info pc, pc_tx = TxHttp2 tx\<rparr>;
               a = \<lparr>pc_conn_info = pc_conn_info pc, pc_tx = TxHttp2 tx\<rparr>
           in Shared a b))"

definition pc_can_share :: "'h pool_client \<Rightarrow> bool" where
  "pc_can_share pc = pc_is_http2 pc"

section \<open>Errors\<close>

datatype client_error_kind =
    Canceled | ChannelClosed | Connect | ProxyConnect
  | UserUnsupportedRequestMethod | UserUnsupportedVersion | UserAbsoluteUriRequired | SendRequest

record ('h, 's) client_error =
  ce_kind :: client_error_kind
  ce_source :: "'s option"
  ce_info :: "'h connected_info option"

text \<open>\<open>Error::new\<close> with the test for a proxy error on the source.\<close>

definition client_error_new ::
  "('s \<Rightarrow> bool) \<Rightarrow> client_error_kind \<Rightarrow> 's \<Rightarrow> ('h, 's) client_error" where
  "client_error_new is_proxy_error kind src =
     \<lparr>ce_kind = (if is_proxy_error src then ProxyConnect else kind), ce_source = Some src, ce_info = None\<rparr>"

definition bare_error :: "client_error_kind \<Rightarrow> ('h, 's) client_error" where
  "bare_error kind = \<lparr>ce_kind = kind, ce_source = None, ce_info = None\<rparr>"

definition with_connect_info :: "('h, 's) client_error \<Rightarrow> 'h connected_info \<Rightarrow> ('h, 's) client_error" where
  "with_connect_info e ci = e\<lparr>ce_info := Some ci\<rparr>"

definition client_error_is_connect :: "('h, 's) client_error \<Rightarrow> bool" where
  "client_error_is_connect e \<longleftrightarrow> ce_kind e = Connect"

definition client_error_is_proxy_connect :: "('h, 's) client_error \<Rightarrow> bool" where
  "client_error_is_proxy_connect e \<longleftrightarrow> ce_kind e = ProxyConnect"

definition client_error_is_canceled :: "('h, 's) client_error \<Rightarrow> bool" where
  "client_error_is_canceled e \<longleftrightarrow> ce_kind e = Canceled"

section \<open>Request targets\<close>

text \<open>\<open>Uri::default()\<close> is the path \<open>/\<close>. \<^term>\<open>None\<close> below is a failed \<open>expect\<close> or \<open>unreachable!\<close>.\<close>

definition default_uri :: uri where
  "default_uri =
     \<lparr>scheme = None, authority = None, host = None, port = None, path = ''/'', query = None\<rparr>"

definition origin_form :: "uri_lib \<Rightarrow> uri \<Rightarrow> uri option" where
  "origin_form L u =
     (case p_path_and_query (lib_into_parts L u) of
        Some pq \<Rightarrow>
          if pq \<noteq> ''/''
          then lib_from_parts L \<lparr>p_scheme = None, p_authority = None, p_path_and_query = Some pq\<rparr>
          else Some default_uri
      | None \<Rightarrow> Some default_uri)"

definition absolute_form :: "uri \<Rightarrow> uri option" where
  "absolute_form u = Some u"

definition authority_form :: "uri_lib \<Rightarrow> uri \<Rightarrow> uri option" where
  "authority_form L u =
     (case authority u of
        Some a \<Rightarrow> lib_from_parts L \<lparr>p_scheme = None, p_authority = Some a, p_path_and_query = None\<rparr>
      | None \<Rightarrow> None)"

definition set_scheme :: "uri_lib \<Rightarrow> uri \<Rightarrow> url_scheme \<Rightarrow> uri option" where
  "set_scheme L u s =
     lib_from_parts L ((lib_into_parts L u)\<lparr>p_scheme := Some s, p_path_and_query := Some ''/''\<rparr>)"

definition build_base_uri :: "uri_lib \<Rightarrow> url_scheme \<Rightarrow> string \<Rightarrow> uri option" where
  "build_base_uri L s a =
     lib_from_parts L \<lparr>p_scheme = Some s, p_authority = Some a, p_path_and_query = Some ''/''\<rparr>"

text \<open>\<open>normalize_uri\<close>: the base URI and the request, whose scheme it may fill in. Its error has no source.\<close>

definition normalize_uri ::
  "uri_lib \<Rightarrow> ('h, 'z) request_scheme \<Rightarrow> bool \<Rightarrow>
   (('h, 's) client_error + uri \<times> ('h, 'z) request_scheme) option" where
  "normalize_uri L req is_connect =
     (let u = rq_uri req in
      case (scheme u, authority u) of
        (Some s, Some a) \<Rightarrow> map_option (\<lambda>b. Inr (b, req)) (build_base_uri L s a)
      | (None, Some a) \<Rightarrow>
          if is_connect
          then (let s = (if port u = Some 443 then HTTPS else HTTP) in
                case (set_scheme L u s, build_base_uri L s a) of
                  (Some u', Some b) \<Rightarrow> Some (Inr (b, req\<lparr>rq_uri := u'\<rparr>))
                | _ \<Rightarrow> None)
          else Some (Inl (bare_error UserAbsoluteUriRequired))
      | _ \<Rightarrow> Some (Inl (bare_error UserAbsoluteUriRequired)))"

definition is_schema_secure :: "uri \<Rightarrow> bool" where
  "is_schema_secure u =
     (case scheme u of
        Some HTTPS \<Rightarrow> True
      | Some (OtherScheme s) \<Rightarrow> s = ''wss'' \<or> s = ''https''
      | _ \<Rightarrow> False)"

text \<open>\<open>generate_host_header\<close>: the port as text is the URI library's.\<close>

definition generate_host_header :: "(u16 \<Rightarrow> string) \<Rightarrow> uri \<Rightarrow> string option" where
  "generate_host_header show_port u =
     (case host u of
        None \<Rightarrow> None
      | Some h \<Rightarrow>
          (let p = (case (port u, is_schema_secure u) of
                      (Some p, secure) \<Rightarrow>
                        if p = 443 \<and> secure \<or> p = 80 \<and> \<not> secure then None else Some p
                    | (None, _) \<Rightarrow> None)
           in Some (case p of Some p \<Rightarrow> h @ '':'' @ show_port p | None \<Rightarrow> h)))"

section \<open>Preparing a request for its connection\<close>

record client_config =
  cf_retry_canceled :: bool
  cf_set_host :: bool
  cf_ver :: ver

definition is_http_connect :: "('h, 'z) request_scheme \<Rightarrow> bool" where
  "is_http_connect req \<longleftrightarrow> rq_method req = ''CONNECT''"

text \<open>The version check of \<open>request\<close>.\<close>

definition validate_version :: "('h, 'z) request_scheme \<Rightarrow> ('h, 's) client_error option" where
  "validate_version req =
     (case rq_version req of
        HTTP_10 \<Rightarrow> if is_http_connect req then Some (bare_error UserUnsupportedRequestMethod) else None
      | HTTP_11 \<Rightarrow> None
      | HTTP_2 \<Rightarrow> None
      | _ \<Rightarrow> Some (bare_error UserUnsupportedVersion))"

text \<open>
  \<open>HttpClient::request\<close> up to the connection: the request to send and the descriptor of
  the connection it needs, from the options found in its extensions. The error of \<open>normalize_uri\<close>,
  boxed by \<open>boxed\<close>, is the source of the one that is returned.
\<close>

record ('p, 'b, 't) request_options =
  ro_group :: "('p, 'b) group"
  ro_proxy :: "'p option"
  ro_version :: "http_version option"
  ro_tls_options :: "'t option"
  ro_socket_bind :: "'b option"

definition client_request ::
  "uri_lib \<Rightarrow> (('h, 's) client_error \<Rightarrow> 's) \<Rightarrow> ('s \<Rightarrow> bool) \<Rightarrow> ('h, 'z) request_scheme \<Rightarrow>
   ('p, 'b, 't) request_options option \<Rightarrow>
   (('h, 's) client_error + ('h, 'z) request_scheme \<times> ('p, 'b, 't) connection_descriptor) option" where
  "client_request L boxed is_proxy_error req options =
     (case validate_version req of
        Some e \<Rightarrow> Some (Inl e)
      | None \<Rightarrow>
          (case normalize_uri L req (is_http_connect req) of
             None \<Rightarrow> None
           | Some (Inl e) \<Rightarrow> Some (Inl (client_error_new is_proxy_error UserAbsoluteUriRequired (boxed e)))
           | Some (Inr (base, req')) \<Rightarrow>
               (let o' = (case options of Some o' \<Rightarrow> o' | None \<Rightarrow>
                           \<lparr>ro_group = group_default, ro_proxy = None, ro_version = None,
                            ro_tls_options = None, ro_socket_bind = None\<rparr>)
                in Some (Inr (req', connection_descriptor_new base (ro_group o') (ro_proxy o')
                     (ro_version o') (ro_tls_options o') (ro_socket_bind o'))))))"

text \<open>
  The part of \<open>try_send_request\<close> before sending. The outer \<^term>\<open>None\<close> is a panic.
\<close>

definition prepare_http1 ::
  "uri_lib \<Rightarrow> 'h header_ops \<Rightarrow> (u16 \<Rightarrow> string) \<Rightarrow> client_config \<Rightarrow> 'h connected_info \<Rightarrow>
   ('h, 'z) request_scheme \<Rightarrow> ('h, 'z) request_scheme option" where
  "prepare_http1 L H show_port cfg ci req =
     (let u = rq_uri req in
      case (if cf_set_host cfg
            then (if h_contains H (rq_headers req) ''host'' then Some req
                  else map_option (\<lambda>v. req\<lparr>rq_headers := h_or_insert H (rq_headers req) ''host'' (plain v)\<rparr>)
                         (generate_host_header show_port u))
            else Some req) of
        None \<Rightarrow> None
      | Some req1 \<Rightarrow>
          (if is_http_connect req1 then map_option (\<lambda>u'. req1\<lparr>rq_uri := u'\<rparr>) (authority_form L u)
           else if ci_is_proxied ci then
             (let req2 = (case ci_proxy_auth ci of
                            Some a \<Rightarrow> req1\<lparr>rq_headers := h_or_insert H (rq_headers req1)
                                          ''proxy-authorization'' a\<rparr>
                          | None \<Rightarrow> req1)
              in case (case ci_proxy_headers ci of
                         Some hs \<Rightarrow> map_option (\<lambda>m. req2\<lparr>rq_headers := m\<rparr>)
                                     (replace_headers H (rq_headers req2) hs)
                       | None \<Rightarrow> Some req2) of
                   None \<Rightarrow> None
                 | Some req3 \<Rightarrow> map_option (\<lambda>u'. req3\<lparr>rq_uri := u'\<rparr>) (absolute_form u))
           else map_option (\<lambda>u'. req1\<lparr>rq_uri := u'\<rparr>) (origin_form L u)))"

definition add_cookies ::
  "'h header_ops \<Rightarrow> cookies_field \<Rightarrow> ('h, 'z) request_scheme \<Rightarrow> ('h, 'z) request_scheme" where
  "add_cookies H cf req =
     (if h_contains H (rq_headers req) ''cookie'' then req
      else (case cf of
              Compressed v \<Rightarrow> req\<lparr>rq_headers := h_insert H (rq_headers req) ''cookie'' (plain v)\<rparr>
            | Uncompressed vs \<Rightarrow>
                req\<lparr>rq_headers := foldl (\<lambda>m v. h_append H m ''cookie'' (plain v)) (rq_headers req) vs\<rparr>
            | Empty \<Rightarrow> req))"

definition prepare_request ::
  "uri_lib \<Rightarrow> 'h header_ops \<Rightarrow> (u16 \<Rightarrow> string) \<Rightarrow> client_config \<Rightarrow>
   (uri \<Rightarrow> http_version \<Rightarrow> cookies_field) option \<Rightarrow> 'h pool_client \<Rightarrow> ('h, 'z) request_scheme \<Rightarrow>
   (('h, 's) client_error + ('h, 'z) request_scheme) option" where
  "prepare_request L H show_port cfg jar pc req =
     (let u = rq_uri req;
          ci = pc_conn_info pc
      in case (if pc_is_http1 pc then
                 (if rq_version req = HTTP_2
                  then Some (Inl (with_connect_info (bare_error UserUnsupportedVersion) ci))
                  else map_option Inr (prepare_http1 L H show_port cfg ci req))
               else if is_http_connect req \<and> \<not> pc_is_http2 pc
               then map_option (\<lambda>u'. Inr (req\<lparr>rq_uri := u'\<rparr>)) (authority_form L u)
               else Some (Inr req)) of
           None \<Rightarrow> None
         | Some (Inl e) \<Rightarrow> Some (Inl e)
         | Some (Inr req1) \<Rightarrow>
             Some (Inr (case jar of
                          None \<Rightarrow> req1
                        | Some f \<Rightarrow>
                            add_cookies H (f u (if pc_is_http2 pc then HTTP_2 else HTTP_11)) req1)))"

section \<open>Connecting\<close>

text \<open>
  \<open>connect_to\<close>: the lock on the key, the negotiated protocol, and the finished
  connection put in the pool's hands. Other tasks may act on the pool in between.
\<close>

definition connect_ver :: "client_config \<Rightarrow> ('p, 'b, 't) connection_descriptor \<Rightarrow> ver" where
  "connect_ver cfg cd = (if cd_version cd = Some HTTP_2 then Http2 else cf_ver cfg)"

definition connect_start ::
  "client_config \<Rightarrow> ('k, 'c, 'm) pool_inner option \<Rightarrow> 'k \<Rightarrow> ('p, 'b, 't) connection_descriptor \<Rightarrow>
   ('k, 'c, 'm) pool_inner option \<times> (('h, 's) client_error + 'k connecting_handle)" where
  "connect_start cfg po key cd =
     (case pool_connecting po key (connect_ver cfg cd) of
        (po', Some cn) \<Rightarrow> (po', Inr cn)
      | (po', None) \<Rightarrow> (po', Inl (bare_error Canceled)))"

definition connect_negotiated ::
  "'s \<Rightarrow> ('k, 'c, 'm) pool_inner option \<Rightarrow> bool \<Rightarrow> 'k connecting_handle \<Rightarrow> 'h connected_info \<Rightarrow>
   ('k, 'c, 'm) pool_inner option \<times> (('h, 's) client_error + 'k connecting_handle \<times> bool)" where
  "connect_negotiated upgraded po is_ver_h2 cn ci =
     (if ci_h2 ci \<and> \<not> is_ver_h2
      then (case alpn_h2 po cn of
              (po', Some lock) \<Rightarrow> (po', Inr (lock, True))
            | (po', None) \<Rightarrow>
                (po', Inl \<lparr>ce_kind = Canceled, ce_source = Some upgraded, ce_info = None\<rparr>))
      else (po, Inr (cn, is_ver_h2 \<or> ci_h2 ci)))"

definition connect_finish ::
  "('k, 'h pool_client, 'm) idle_ops \<Rightarrow> 'h pool_client poolable_ops \<Rightarrow> ('h pool_client, 'x) chan_ops \<Rightarrow>
   nat \<Rightarrow> 'x \<Rightarrow> ('k, 'h pool_client, 'm) pool_inner option \<Rightarrow> 'k connecting_handle \<Rightarrow>
   'h connected_info \<Rightarrow> bool \<Rightarrow> nat \<Rightarrow>
   ('x \<times> ('k, 'h pool_client, 'm) pool_inner option \<times> ('k, 'h pool_client) pooled) option" where
  "connect_finish L P C now x po cn ci is_h2 tx =
     pool_pooled L P C now x po cn
       \<lparr>pc_conn_info = ci, pc_tx = (if is_h2 then TxHttp2 tx else TxHttp1 tx)\<rparr>"

text \<open>
  \<open>one_connection_for\<close> with an enabled pool: which future finished first, with what, and
  what the other gives when it is awaited.
\<close>

datatype ('h, 's, 'p) race =
    CheckoutFirst "pool_error + 'p" "('h, 's) client_error + 'p"
  | ConnectFirst "('h, 's) client_error + 'p" "pool_error + 'p"

datatype ('h, 's) connect_error = Normal "('h, 's) client_error" | CheckoutIsClosed pool_error

definition pool_client_error :: "(pool_error \<Rightarrow> 's) \<Rightarrow> pool_error \<Rightarrow> ('h, 's) client_error" where
  "pool_client_error src e = \<lparr>ce_kind = Connect, ce_source = Some (src e), ce_info = None\<rparr>"

fun one_connection_for ::
  "(pool_error \<Rightarrow> 's) \<Rightarrow> bool \<Rightarrow> ('h, 's, 'p) race \<Rightarrow> ('h, 's) connect_error + 'p" where
  "one_connection_for src is_ver_h2 (CheckoutFirst (Inr p) _) = Inr p"
| "one_connection_for src is_ver_h2 (CheckoutFirst (Inl e) connect) =
     (if pool_error_is_canceled e
      then (case connect of Inr p \<Rightarrow> Inr p | Inl ce \<Rightarrow> Inl (Normal ce))
      else Inl (Normal (pool_client_error src e)))"
| "one_connection_for src is_ver_h2 (ConnectFirst (Inr p) _) = Inr p"
| "one_connection_for src is_ver_h2 (ConnectFirst (Inl ce) checkout) =
     (if client_error_is_canceled ce
      then (case checkout of
              Inr p \<Rightarrow> Inr p
            | Inl e \<Rightarrow>
                if is_ver_h2 \<and> pool_error_is_canceled e then Inl (CheckoutIsClosed e)
                else Inl (Normal (pool_client_error src e)))
      else Inl (Normal ce))"

text \<open>\<open>connection_for\<close>: the races made one after the other until one counts.\<close>

partial_function (option) connection_for ::
  "(pool_error \<Rightarrow> 's) \<Rightarrow> bool \<Rightarrow> ('w \<Rightarrow> 'w \<times> (('h, 's) connect_error + 'p)) \<Rightarrow> 'w \<Rightarrow>
   ('w \<times> (('h, 's) client_error + 'p)) option" where
  "connection_for src retry one w =
     (case one w of
        (w', Inr p) \<Rightarrow> Some (w', Inr p)
      | (w', Inl (Normal e)) \<Rightarrow> Some (w', Inl e)
      | (w', Inl (CheckoutIsClosed e)) \<Rightarrow>
          if \<not> retry then Some (w', Inl (pool_client_error src e))
          else connection_for src retry one w')"

section \<open>Sending\<close>

datatype ('h, 's, 'q, 'r) send_result =
    Sent 'r | Retryable "('h, 's) client_error" 'q bool | Nope "('h, 's) client_error"

text \<open>
  The world the client sends in: getting a connection, and sending on it, which may give
  the request back unsent.
\<close>

record ('w, 'h, 's, 'k, 'q, 'r) send_env =
  se_connection :: "'w \<Rightarrow> 'w \<times> (('h, 's) client_error + ('k, 'h pool_client) pooled)"
  se_send :: "'w \<Rightarrow> ('k, 'h pool_client) pooled \<Rightarrow> 'q \<Rightarrow> 'w \<times> ('s \<times> 'q option + 'r)"
  se_prepare :: "('k, 'h pool_client) pooled \<Rightarrow> 'q \<Rightarrow> (('h, 's) client_error + 'q) option"
  se_is_proxy_error :: "'s \<Rightarrow> bool"

definition try_send_request ::
  "('w, 'h, 's, 'k, 'q, 'r) send_env \<Rightarrow> 'w \<Rightarrow> 'q \<Rightarrow> ('w \<times> ('h, 's, 'q, 'r) send_result) option" where
  "try_send_request E w req =
     (case se_connection E w of
        (w1, Inl e) \<Rightarrow> Some (w1, Nope e)
      | (w1, Inr pd) \<Rightarrow>
          (case se_prepare E pd req of
             None \<Rightarrow> None
           | Some (Inl e) \<Rightarrow> Some (w1, Nope e)
           | Some (Inr req') \<Rightarrow>
               (let ci = pc_conn_info (pd_value pd) in
                case se_send E w1 pd req' of
                  (w2, Inr res) \<Rightarrow> Some (w2, Sent res)
                | (w2, Inl (src, Some back)) \<Rightarrow>
                    Some (w2, Retryable (with_connect_info
                        (client_error_new (se_is_proxy_error E) Canceled src) ci) back (pd_is_reused pd))
                | (w2, Inl (src, None)) \<Rightarrow>
                    Some (w2, Nope (with_connect_info
                        (client_error_new (se_is_proxy_error E) SendRequest src) ci)))))"

text \<open>\<open>send_request\<close>; not returning and a panic of an attempt are both \<^term>\<open>None\<close>.\<close>

partial_function (option) send_request ::
  "client_config \<Rightarrow> ('w, 'h, 's, 'k, ('h, 'z) request_scheme, 'r) send_env \<Rightarrow> uri \<Rightarrow> 'w \<Rightarrow>
   ('h, 'z) request_scheme \<Rightarrow> ('w \<times> (('h, 's) client_error + 'r)) option" where
  "send_request cfg E u w req =
     (case try_send_request E w req of
        None \<Rightarrow> None
      | Some (w', Sent res) \<Rightarrow> Some (w', Inr res)
      | Some (w', Nope e) \<Rightarrow> Some (w', Inl e)
      | Some (w', Retryable e back reused) \<Rightarrow>
          if \<not> cf_retry_canceled cfg \<or> \<not> reused then Some (w', Inl e)
          else send_request cfg E u w' (back\<lparr>rq_uri := u\<rparr>))"

text \<open>When a response is there, whether the pooled connection is dropped at once.\<close>

definition release_now :: "(pool_tx \<Rightarrow> bool) \<Rightarrow> ('k, 'h pool_client) pooled \<Rightarrow> bool" where
  "release_now ready pd \<longleftrightarrow>
     pc_is_http2 (pd_value pd) \<or> \<not> pd_pool pd \<or> pc_is_ready ready (pd_value pd)"

section \<open>The builder\<close>

record client_builder =
  cb_config :: client_config
  cb_idle_timeout :: "nat option"
  cb_max_idle_per_host :: nat
  cb_max_pool_size :: "nat option"

definition client_builder_new :: "nat \<Rightarrow> client_builder" where
  "client_builder_new usize_max =
     \<lparr>cb_config = \<lparr>cf_retry_canceled = True, cf_set_host = True, cf_ver = Auto\<rparr>,
      cb_idle_timeout = Some 90000, cb_max_idle_per_host = usize_max, cb_max_pool_size = None\<rparr>"

definition cb_http2_only :: "client_builder \<Rightarrow> bool \<Rightarrow> client_builder" where
  "cb_http2_only b v = b\<lparr>cb_config := (cb_config b)\<lparr>cf_ver := (if v then Http2 else Auto)\<rparr>\<rparr>"

definition hb_pool_idle_timeout :: "client_builder \<Rightarrow> nat option \<Rightarrow> client_builder" where
  "hb_pool_idle_timeout b d = b\<lparr>cb_idle_timeout := d\<rparr>"

definition hb_pool_max_idle_per_host :: "client_builder \<Rightarrow> nat \<Rightarrow> client_builder" where
  "hb_pool_max_idle_per_host b n = b\<lparr>cb_max_idle_per_host := n\<rparr>"

definition hb_pool_max_size :: "client_builder \<Rightarrow> nat option \<Rightarrow> client_builder" where
  "hb_pool_max_size b n = b\<lparr>cb_max_pool_size := n\<rparr>"

definition cb_build :: "(nat option \<Rightarrow> 'm) \<Rightarrow> client_builder \<Rightarrow> bool \<Rightarrow>
    client_config \<times> ('k, 'c, 'm) pool_inner option" where
  "cb_build new_cache b no_timer =
     (cb_config b,
      pool_new (new_cache (cb_max_pool_size b)) (cb_idle_timeout b) (cb_max_idle_per_host b) no_timer)"

section \<open>The pool on pooled clients\<close>

text \<open>A clone of an HTTP/2 sender is the same connection, whatever identifies it.\<close>

lemma pc_reserve_eq:
  "pc_reserve pc = (case pc_tx pc of TxHttp1 _ \<Rightarrow> Unique pc | TxHttp2 _ \<Rightarrow> Shared pc pc)"
  by (cases pc) (simp add: pc_reserve_def split: pool_tx.splits)

interpretation pool_client: poolable pc_reserve pc_can_share origin
  for origin :: "'h pool_client \<Rightarrow> 't"
  by unfold_locales
    (auto simp: pc_reserve_eq pc_can_share_def pc_is_http2_def split: pool_tx.splits)

text \<open>
  C7. A connection is only ever handed out for the key it was made for: whatever
  sequence of checkouts, connects, upgrades, drops and evictions the pool has been
  through, every connection that is out under a key, and every one idle under a key, was
  established for that key.
\<close>

theorem pool_key_isolation:
  assumes "chan_laws C" and "lru_laws L"
    and "pool_reach L C pc_reserve pc_can_share origin n s"
  shows "(\<forall>pd \<in> set (ps_out s). origin (pd_value pd) = pd_key pd) \<and>
    (\<forall>pi k es. ps_pool s = Some pi \<and> lru_get L (idle_cache pi) k = Some es \<longrightarrow>
       (\<forall>e \<in> set es. origin (id_value e) = k))"
  using pool_client.reach_ok [OF assms] by (auto simp: sys_ok_def idle_ok_def)

text \<open>
  No key ever has more idle connections than the configured maximum.
\<close>

lemma pool_idle_bound:
  assumes "chan_laws C" and "lru_laws L"
    and "pool_reach L C pc_reserve pc_can_share origin n s"
    and "ps_pool s = Some pi" and "lru_get L (idle_cache pi) k = Some es"
  shows "length es \<le> n"
  using pool_client.reach_ok [OF assms(1-3)] assms(4,5) by (auto simp: sys_ok_def idle_ok_def)

text \<open>
  At most one task at a time holds the HTTP/2 connecting lock of a key, and the pool
  knows exactly which keys are locked.
\<close>

lemma h2_connecting_exclusive:
  assumes "chan_laws C" and "lru_laws L"
    and "pool_reach L C pc_reserve pc_can_share origin n s" and "ps_pool s = Some pi"
  shows "locks (ps_connecting s) k = (if k \<in> connecting pi then 1 else 0)"
  using pool_client.reach_ok [OF assms(1-3)] assms(4) by (auto simp: sys_ok_def)

text \<open>The connecting code keeps the pool's side condition: a shareable connection comes
  with its lock.\<close>

lemma connect_meets_contract:
  assumes "connect_start cfg po key cd = (po1, Inr cn)" and "po1 = None \<longleftrightarrow> po2 = None"
    and "connect_negotiated up po2 (connect_ver cfg cd = Http2) cn ci = (po3, Inr (cn', is_h2))"
  shows "cn_key cn' = key \<and> (is_h2 \<longrightarrow> cn_pool cn' \<or> po3 = None)"
  using assms
  by (auto simp: connect_start_def connect_negotiated_def alpn_h2_def pool_connecting_def
      split: ver.splits option.splits if_splits prod.splits)

section \<open>A sample run of the pool\<close>

text \<open>An HTTP/1 connection to key 3 is established, used, and put back.\<close>

definition sample_client :: "unit pool_client" where
  "sample_client = \<lparr>pc_conn_info = connected_new 3, pc_tx = TxHttp1 0\<rparr>"

definition sample_origin :: "unit pool_client \<Rightarrow> nat" where
  "sample_origin pc = ci_pill (pc_conn_info pc)"

type_synonym sample_cache = "(nat \<times> unit pool_client idle list) list"

definition sample_inner :: "sample_cache \<Rightarrow> (nat, unit pool_client, sample_cache) pool_inner" where
  "sample_inner cache =
     \<lparr>connecting = {}, idle_cache = cache, max_idle_per_host = 1, waiters = [],
      idle_interval = False, timer_is_empty = False, idle_timeout = None\<rparr>"

definition sample_sys ::
  "sample_cache \<Rightarrow> (nat, unit pool_client) pooled list \<Rightarrow> nat connecting_handle list \<Rightarrow>
   (nat, unit pool_client, sample_cache, unit pool_client mem_chans) pool_sys" where
  "sample_sys cache out cns =
     \<lparr>ps_pool = Some (sample_inner cache), ps_chans = (0, \<lambda>_. None, \<lambda>_. False), ps_checkouts = [],
      ps_out = out, ps_connecting = cns\<rparr>"

definition sample_pooled :: "(nat, unit pool_client) pooled" where
  "sample_pooled = \<lparr>pd_value = sample_client, pd_is_reused = False, pd_key = 3, pd_pool = True\<rparr>"

definition sample_idle :: sample_cache where
  "sample_idle = [(3, [\<lparr>id_value = sample_client, id_idle_at = 5\<rparr>])]"

abbreviation sample_step where
  "sample_step \<equiv> pool_step list_cache mem_chans pc_reserve pc_can_share sample_origin"

lemma sample_defs_reserve: "pc_reserve sample_client = Unique sample_client" "\<not> pc_can_share sample_client"
  by (simp_all add: pc_reserve_eq sample_client_def pc_can_share_def pc_is_http2_def)

lemma sample_step1: "sample_step (sample_sys [] [] []) (sample_sys [] [] [\<lparr>cn_key = 3, cn_pool = False\<rparr>])"
proof -
  have "pool_connecting (ps_pool (sample_sys [] [] [])) 3 Auto =
      (Some (sample_inner []), Some \<lparr>cn_key = 3, cn_pool = False\<rparr>)"
    by (simp add: pool_connecting_def sample_sys_def)
  from step_connecting [OF this] show ?thesis by (simp add: sample_sys_def)
qed

lemma sample_step2: "sample_step (sample_sys [] [] [\<lparr>cn_key = 3, cn_pool = False\<rparr>]) (sample_sys [] [sample_pooled] [])"
proof -
  let ?s = "sample_sys [] [] [\<lparr>cn_key = 3, cn_pool = False\<rparr>]"
  have "pool_pooled list_cache (ops_at (\<lambda>_. True) pc_reserve pc_can_share) mem_chans 5 (ps_chans ?s)
      (ps_pool ?s) \<lparr>cn_key = 3, cn_pool = False\<rparr> sample_client =
      Some (ps_chans ?s, ps_pool ?s, sample_pooled)"
    by (simp add: pool_pooled_def sample_sys_def ops_at_def sample_defs_reserve drop_connecting_def
        sample_pooled_def)
  from step_pooled [OF _ _ _ this, of sample_origin] show ?thesis
    by (simp add: sample_sys_def sample_origin_def sample_client_def connected_new_def
        pc_can_share_def pc_is_http2_def)
qed

lemma sample_step3: "sample_step (sample_sys [] [sample_pooled] []) (sample_sys sample_idle [] [])"
proof -
  let ?s = "sample_sys [] [sample_pooled] []"
  have "drop_pooled list_cache (ops_at (\<lambda>_. True) pc_reserve pc_can_share) mem_chans 5 (ps_chans ?s)
      (ps_pool ?s) sample_pooled = Some (ps_chans ?s, Some (sample_inner sample_idle))"
    by (simp add: drop_pooled_def sample_pooled_def ops_at_def sample_sys_def put_def put_waiters_def
        sample_inner_def sample_defs_reserve Let_def list_cache_get list_cache_def
        list_cache_get [unfolded list_cache_def] spawn_idle_interval_def sample_idle_def)
  from step_drop_pooled [OF _ this, of sample_origin] show ?thesis
    by (simp add: sample_sys_def)
qed

lemma sample_reach:
  "pool_reach list_cache mem_chans pc_reserve pc_can_share sample_origin 1 (sample_sys sample_idle [] [])"
proof -
  have "pool_start list_cache 1 (sample_sys [] [] [])"
    by (auto simp: pool_start_def sample_sys_def sample_inner_def pool_new_def list_cache_def)
  moreover have "sample_step\<^sup>*\<^sup>* (sample_sys [] [] []) (sample_sys sample_idle [] [])"
    using sample_step1 sample_step2 sample_step3 by (meson r_into_rtranclp rtranclp_trans)
  ultimately show ?thesis unfolding pool_reach_def by blast
qed

lemma sample_idle_get: "lru_get list_cache (idle_cache (sample_inner sample_idle)) 3 =
    Some [\<lparr>id_value = sample_client, id_idle_at = 5\<rparr>]"
  by (simp add: list_cache_get sample_inner_def sample_idle_def)

lemma sample_pool: "ps_pool (sample_sys c out cns) = Some (sample_inner c)"
  by (simp add: sample_sys_def)

theorem pool_key_isolation_witness:
  "sample_origin (id_value \<lparr>id_value = sample_client, id_idle_at = (5::nat)\<rparr>) = 3"
proof -
  have "\<forall>e \<in> set [\<lparr>id_value = sample_client, id_idle_at = (5::nat)\<rparr>]. sample_origin (id_value e) = 3"
    using pool_key_isolation [OF mem_chans_laws list_cache_laws sample_reach] sample_idle_get sample_pool
    by blast
  then show ?thesis by simp
qed

lemma pool_idle_bound_witness:
  "length [\<lparr>id_value = sample_client, id_idle_at = (5::nat)\<rparr>] \<le> 1"
  by (rule pool_idle_bound [OF mem_chans_laws list_cache_laws sample_reach sample_pool sample_idle_get])

lemma h2_connecting_exclusive_witness:
  "locks (ps_connecting (sample_sys sample_idle [] [])) 3 = 0"
  using h2_connecting_exclusive [OF mem_chans_laws list_cache_laws sample_reach sample_pool, of 3]
  by (simp add: sample_inner_def)

section \<open>What is sent\<close>

lemma add_cookies_get_all:
  "header_laws H \<Longrightarrow> h_get_all H (rq_headers (add_cookies H cf req)) n =
     (if n = ''cookie'' \<and> h_get_all H (rq_headers req) ''cookie'' = []
      then (case cf of Compressed v \<Rightarrow> [plain v] | Uncompressed vs \<Rightarrow> map plain vs | Empty \<Rightarrow> [])
      else h_get_all H (rq_headers req) n)"
proof -
  assume H: "header_laws H"
  have "h_get_all H (foldl (\<lambda>m v. h_append H m ''cookie'' (plain v)) m vs) n =
      (if n = ''cookie'' then h_get_all H m n @ map plain vs else h_get_all H m n)" for m vs
    by (induction vs arbitrary: m) (auto simp: header_lawsD [OF H])
  then show ?thesis
    by (auto simp: add_cookies_def h_contains_def header_lawsD [OF H] split: cookies_field.splits)
qed

lemma add_cookies_fields [simp]:
  "rq_uri (add_cookies H cf req) = rq_uri req" "rq_method (add_cookies H cf req) = rq_method req"
  by (simp_all add: add_cookies_def split: cookies_field.splits)

text \<open>
  On an HTTP/1 connection that does not go through a plain proxy the request is sent
  with the headers the caller gave, but for a missing Host header, which is made from the
  target, and a missing Cookie header, which is taken from the store for the target: a
  caller's Host or Cookie is never replaced, and nothing else is added (in particular no
  proxy credentials).
\<close>

lemma direct_request_headers:
  assumes "header_laws H" and "pc_is_http1 pc" and "\<not> ci_is_proxied (pc_conn_info pc)"
    and "prepare_request L H show_port cfg jar pc req = Some (Inr req')"
  shows "h_get_all H (rq_headers req') n =
    (if n = ''host'' \<and> h_get_all H (rq_headers req) n = [] \<and> cf_set_host cfg
     then [plain (the (generate_host_header show_port (rq_uri req)))]
     else if n = ''cookie'' \<and> h_get_all H (rq_headers req) n = []
     then (case jar of
             None \<Rightarrow> []
           | Some f \<Rightarrow>
               (case f (rq_uri req) HTTP_11 of
                  Compressed v \<Rightarrow> [plain v] | Uncompressed vs \<Rightarrow> map plain vs | Empty \<Rightarrow> []))
     else h_get_all H (rq_headers req) n)"
proof -
  have "\<not> pc_is_http2 pc" using assms(2) by (simp add: pc_is_http1_def)
  with assms obtain req1 where p1: "prepare_http1 L H show_port cfg (pc_conn_info pc) req = Some req1"
    and req': "req' = (case jar of None \<Rightarrow> req1 | Some f \<Rightarrow> add_cookies H (f (rq_uri req) HTTP_11) req1)"
    by (auto simp: prepare_request_def Let_def split: if_splits option.splits)
  have "h_get_all H (rq_headers req1) n =
    (if n = ''host'' \<and> h_get_all H (rq_headers req) n = [] \<and> cf_set_host cfg
     then [plain (the (generate_host_header show_port (rq_uri req)))]
     else h_get_all H (rq_headers req) n)" for n
    using p1 assms(3)
    by (auto simp: prepare_http1_def Let_def h_contains_def h_get_all_or_insert [OF assms(1)]
        split: if_splits option.splits)
  with req' show ?thesis
    by (auto simp: add_cookies_get_all [OF assms(1)] split: option.splits cookies_field.splits)
qed

text \<open>
  The target of an HTTP/1 request has the form its connection needs: the authority for
  CONNECT, the absolute URI through a plain proxy, and the path and query otherwise.
\<close>

lemma http1_target_form:
  assumes "pc_is_http1 pc" and "prepare_request L H show_port cfg jar pc req = Some (Inr req')"
  shows "Some (rq_uri req') =
    (if is_http_connect req then authority_form L (rq_uri req)
     else if ci_is_proxied (pc_conn_info pc) then absolute_form (rq_uri req)
     else origin_form L (rq_uri req))"
proof -
  have "\<not> pc_is_http2 pc" using assms(1) by (simp add: pc_is_http1_def)
  with assms obtain req1 where p1: "prepare_http1 L H show_port cfg (pc_conn_info pc) req = Some req1"
    and req': "rq_uri req' = rq_uri req1"
    by (auto simp: prepare_request_def Let_def split: if_splits option.splits)
  from p1 show ?thesis
    unfolding req'
    by (auto simp: prepare_http1_def Let_def is_http_connect_def split: if_splits option.splits)
qed

text \<open>
  \<open>n\<close> attempts in a row that were canceled on reused connections, each with the request the one before gave
  back, its URI reset; and the way the loop ends with the attempt after them.
\<close>

fun retried ::
  "('w, 'h, 's, 'k, ('h, 'z) request_scheme, 'r) send_env \<Rightarrow> uri \<Rightarrow> nat \<Rightarrow> 'w \<Rightarrow>
   ('h, 'z) request_scheme \<Rightarrow> ('w \<times> ('h, 'z) request_scheme) option" where
  "retried E u 0 w req = Some (w, req)"
| "retried E u (Suc n) w req =
     (case try_send_request E w req of
        Some (w', Retryable e back True) \<Rightarrow> retried E u n w' (back\<lparr>rq_uri := u\<rparr>)
      | _ \<Rightarrow> None)"

definition ends_after ::
  "client_config \<Rightarrow> ('w, 'h, 's, 'k, ('h, 'z) request_scheme, 'r) send_env \<Rightarrow> uri \<Rightarrow> nat \<Rightarrow> 'w \<Rightarrow>
   ('h, 'z) request_scheme \<Rightarrow> 'w \<times> (('h, 's) client_error + 'r) \<Rightarrow> bool" where
  "ends_after cfg E u n w req r \<longleftrightarrow>
     (n = 0 \<or> cf_retry_canceled cfg) \<and>
     (case retried E u n w req of
        None \<Rightarrow> False
      | Some (w', req') \<Rightarrow>
          (case try_send_request E w' req' of
             None \<Rightarrow> False
           | Some (w'', Sent res) \<Rightarrow> r = (w'', Inr res)
           | Some (w'', Nope e) \<Rightarrow> r = (w'', Inl e)
           | Some (w'', Retryable e back reused) \<Rightarrow> r = (w'', Inl e) \<and> \<not> (cf_retry_canceled cfg \<and> reused)))"

lemma ends_after_Suc:
  "try_send_request E w req = Some (w', Retryable e back True) \<Longrightarrow> cf_retry_canceled cfg \<Longrightarrow>
   ends_after cfg E u (Suc n) w req r = ends_after cfg E u n w' (back\<lparr>rq_uri := u\<rparr>) r"
  by (simp add: ends_after_def)

lemma ends_after_returns: "ends_after cfg E u n w req r \<Longrightarrow> send_request cfg E u w req = Some r"
proof (induction n arbitrary: w req)
  case 0
  then obtain w' res where t: "try_send_request E w req = Some (w', res)"
    by (auto simp: ends_after_def split: option.splits)
  from 0 show ?case
    unfolding send_request.simps [of cfg E u w req] by (cases res) (auto simp: ends_after_def t)
next
  case (Suc n)
  then obtain w' e q where t: "try_send_request E w req = Some (w', Retryable e q True)"
    and c: "cf_retry_canceled cfg"
    by (auto simp: ends_after_def split: option.splits prod.splits send_result.splits bool.splits)
  then have "send_request cfg E u w' (q\<lparr>rq_uri := u\<rparr>) = Some r"
    using Suc ends_after_Suc [OF t c] by blast
  with t c show ?case unfolding send_request.simps [of cfg E u w req] by simp
qed

lemma returns_ends_after:
  assumes "send_request cfg E u w req = Some r"
  shows "\<exists>n. ends_after cfg E u n w req r"
proof (rule send_request.raw_induct [OF _ assms])
  fix send cfg E u w req r
  assume IH: "\<And>cfg E u w req r. send cfg E u w req = Some r \<Longrightarrow> \<exists>n. ends_after cfg E u n w req r"
    and body: "(case try_send_request E w req of
        None \<Rightarrow> None
      | Some (w', Sent res) \<Rightarrow> Some (w', Inr res)
      | Some (w', Nope e) \<Rightarrow> Some (w', Inl e)
      | Some (w', Retryable e back reused) \<Rightarrow>
          if \<not> cf_retry_canceled cfg \<or> \<not> reused then Some (w', Inl e)
          else send cfg E u w' (back\<lparr>rq_uri := u\<rparr>)) = Some r"
  then obtain w' res where t: "try_send_request E w req = Some (w', res)"
    by (auto split: option.splits prod.splits)
  show "\<exists>n. ends_after cfg E u n w req r"
  proof (cases "\<exists>e back. res = Retryable e back True \<and> cf_retry_canceled cfg")
    case True
    then obtain e q where r: "res = Retryable e q True" "cf_retry_canceled cfg" by blast
    then have "send cfg E u w' (q\<lparr>rq_uri := u\<rparr>) = Some r" using body t by simp
    then obtain n where "ends_after cfg E u n w' (q\<lparr>rq_uri := u\<rparr>) r" using IH by blast
    then show ?thesis using ends_after_Suc [OF t [unfolded r(1)] r(2)] by blast
  next
    case False
    with body t have "ends_after cfg E u 0 w req r"
      by (cases res) (auto simp: ends_after_def split: if_splits)
    then show ?thesis ..
  qed
qed


text \<open>A measure that every retry lowers bounds the retries.\<close>

lemma retries_bounded:
  fixes stale :: "'w \<Rightarrow> nat"
  assumes "\<And>w req. try_send_request E w req \<noteq> None"
    and "\<And>w req w' e back. try_send_request E w req = Some (w', Retryable e back True) \<Longrightarrow> stale w' < stale w"
  shows "\<exists>r. \<exists>n \<le> stale w. ends_after cfg E u n w req r"
proof (induction "stale w" arbitrary: w req rule: less_induct)
  case less
  obtain w' res where t: "try_send_request E w req = Some (w', res)"
    using assms(1) [of w req] by auto
  show ?case
  proof (cases "\<exists>e back. res = Retryable e back True \<and> cf_retry_canceled cfg")
    case True
    then obtain e q where r: "res = Retryable e q True" "cf_retry_canceled cfg" by blast
    have lt: "stale w' < stale w" using assms(2) t r(1) by blast
    from less [OF this, of "q\<lparr>rq_uri := u\<rparr>"] obtain n r' where
      "n \<le> stale w'" "ends_after cfg E u n w' (q\<lparr>rq_uri := u\<rparr>) r'" by blast
    then have "ends_after cfg E u (Suc n) w req r'" using ends_after_Suc [OF t [unfolded r(1)] r(2)] by blast
    with lt \<open>n \<le> stale w'\<close> show ?thesis by (meson Suc_leI le_less_trans)
  next
    case False
    then have "\<exists>r. ends_after cfg E u 0 w req r"
      using t by (cases res) (auto simp: ends_after_def)
    then show ?thesis by blast
  qed
qed

section \<open>Sending from the pool\<close>

text \<open>
  The world of a client while no other task gives a connection back: the pool, the senders that are
  closed, and the rest. \<open>is_open\<close> tells which connections are open besides, \<open>now\<close> the time.
\<close>

record ('k, 'h, 'm, 'x) pool_world =
  pw_pool :: "('k, 'h pool_client, 'm) pool_inner"
  pw_closed :: "pool_tx \<Rightarrow> bool"
  pw_rest :: 'x

definition world_ops :: "('x \<Rightarrow> 'h pool_client \<Rightarrow> bool) \<Rightarrow> ('k, 'h, 'm, 'x) pool_world \<Rightarrow> 'h pool_client poolable_ops" where
  "world_ops is_open w =
     ops_at (\<lambda>pc. is_open (pw_rest w) pc \<and> \<not> pw_closed w (pc_tx pc)) pc_reserve pc_can_share"

text \<open>A connection is the checkout's, if an idle one is found, or a new one, which is not reused.\<close>

definition pool_connection ::
  "('k, 'h pool_client, 'm) idle_ops \<Rightarrow> ('x \<Rightarrow> nat) \<Rightarrow> ('x \<Rightarrow> 'h pool_client \<Rightarrow> bool) \<Rightarrow>
   ('x \<Rightarrow> 'x \<times> (('h, 's) client_error + 'h pool_client)) \<Rightarrow> 'k \<Rightarrow> ('k, 'h, 'm, 'x) pool_world \<Rightarrow>
   ('k, 'h, 'm, 'x) pool_world \<times> (('h, 's) client_error + ('k, 'h pool_client) pooled)" where
  "pool_connection L now is_open connect key w =
     (case idle_take L (world_ops is_open w) (now (pw_rest w)) (pw_pool w) key of
        (m, entry, nuke) \<Rightarrow>
          (let pi = (pw_pool w)\<lparr>idle_cache := (if nuke then lru_pop L m key else m)\<rparr>
           in (case entry of
                 Some e \<Rightarrow> (w\<lparr>pw_pool := pi\<rparr>, Inr (pool_reuse (world_ops is_open w) (Some pi) key (id_value e)))
               | None \<Rightarrow>
                   (case connect (pw_rest w) of
                      (x, r) \<Rightarrow>
                        (w\<lparr>pw_pool := pi, pw_rest := x\<rparr>,
                         map_sum id (\<lambda>pc. \<lparr>pd_value = pc, pd_is_reused = False, pd_key = key, pd_pool = True\<rparr>) r)))))"

text \<open>A sender that gives the request back has lost its connection.\<close>

definition pool_send ::
  "('x \<Rightarrow> ('k, 'h pool_client) pooled \<Rightarrow> 'q \<Rightarrow> 'x \<times> ('s \<times> 'q option + 'r)) \<Rightarrow> ('k, 'h, 'm, 'x) pool_world \<Rightarrow>
   ('k, 'h pool_client) pooled \<Rightarrow> 'q \<Rightarrow> ('k, 'h, 'm, 'x) pool_world \<times> ('s \<times> 'q option + 'r)" where
  "pool_send answer w pd req =
     (case answer (pw_rest w) pd req of
        (x, r) \<Rightarrow>
          (w\<lparr>pw_rest := x,
             pw_closed := (case r of
                Inl (src, Some back) \<Rightarrow> (pw_closed w)(pc_tx (pd_value pd) := True)
              | _ \<Rightarrow> pw_closed w)\<rparr>, r))"

definition pool_env where
  "pool_env L now is_open connect key answer prepare is_proxy_error =
     \<lparr>se_connection = pool_connection L now is_open connect key, se_send = pool_send answer,
      se_prepare = prepare, se_is_proxy_error = is_proxy_error\<rparr>"

text \<open>The idle connections of a key whose sender is not closed.\<close>

definition idle_list :: "('k, 'h pool_client, 'm) idle_ops \<Rightarrow> 'k \<Rightarrow> ('k, 'h pool_client, 'm) pool_inner \<Rightarrow> 'h pool_client idle list" where
  "idle_list L key pi = (case lru_get L (idle_cache pi) key of Some es \<Rightarrow> es | None \<Rightarrow> [])"

definition live_idle :: "('k, 'h pool_client, 'm) idle_ops \<Rightarrow> 'k \<Rightarrow> ('k, 'h, 'm, 'x) pool_world \<Rightarrow> nat" where
  "live_idle L key w = length (filter (\<lambda>e. \<not> pw_closed w (pc_tx (id_value e))) (idle_list L key (pw_pool w)))"

text \<open>Taking an entry and closing its sender leaves fewer live ones, also when the entry stays in the list for sharing.\<close>

lemma pop_live:
  assumes "pop_from_top (ops_at open pc_reserve S) expiration now es = (es', Some e)"
    and "\<And>pc. open pc \<Longrightarrow> \<not> closed (pc_tx pc)"
  shows "length (filter (\<lambda>e'. \<not> (closed(pc_tx (id_value e) := True)) (pc_tx (id_value e'))) es') <
    length (filter (\<lambda>e'. \<not> closed (pc_tx (id_value e'))) es)"
  using assms(1)
proof (induction es arbitrary: es')
  case (Cons a es)
  have le: "length (filter (\<lambda>e'. \<not> (closed(pc_tx (id_value e) := True)) (pc_tx (id_value e'))) es) \<le>
      length (filter (\<lambda>e'. \<not> closed (pc_tx (id_value e'))) es)"
    by (induction es) auto
  show ?case
  proof (cases "open (id_value a) \<and> \<not> expires expiration (id_idle_at a) now")
    case True
    then have "\<not> closed (pc_tx (id_value a))" using assms(2) by blast
    moreover have "pc_tx (id_value e) = pc_tx (id_value a)"
      "es' = es \<or> (\<exists>b. es' = b # es \<and> pc_tx (id_value b) = pc_tx (id_value a))"
      using Cons.prems True by (auto simp: ops_at_def pc_reserve_eq split: reservation.splits pool_tx.splits)
    ultimately show ?thesis
      using le by (elim disjE exE conjE) (simp_all add: less_Suc_eq_le fun_upd_same del: fun_upd_apply)
  next
    case False
    then have "pop_from_top (ops_at open pc_reserve S) expiration now es = (es', Some e)"
      using Cons.prems by (auto simp: ops_at_def split: if_splits)
    from Cons.IH [OF this] show ?thesis by auto
  qed
qed simp

lemma take_live:
  assumes "lru_laws L" and "idle_take L (ops_at open pc_reserve S) now pi key = (m, Some e, nuke)"
    and "\<And>pc. open pc \<Longrightarrow> \<not> closed (pc_tx pc)"
  shows "length (filter (\<lambda>e'. \<not> (closed(pc_tx (id_value e) := True)) (pc_tx (id_value e')))
      (idle_list L key (pi\<lparr>idle_cache := (if nuke then lru_pop L m key else m)\<rparr>))) <
    length (filter (\<lambda>e'. \<not> closed (pc_tx (id_value e'))) (idle_list L key pi))"
proof -
  obtain es q where es: "lru_get L (idle_cache pi) key = Some es"
    and pop: "pop_from_top (ops_at open pc_reserve S) (idle_timeout pi) now (rev es) = (q, Some e)"
    and m: "m = lru_set L (lru_touch L (idle_cache pi) key) key (rev q)" "nuke \<longleftrightarrow> q = []"
    using assms(2)
    by (cases "lru_get L (idle_cache pi) key")
      (auto simp: idle_take_def idle_popper_pop_def Let_def apfst_def map_prod_def split: option.splits prod.splits)
  have after: "idle_list L key (pi\<lparr>idle_cache := (if nuke then lru_pop L m key else m)\<rparr>) = rev q"
    using es m by (auto simp: idle_list_def lru_lawsD [OF assms(1)])
  show ?thesis
    using pop_live [OF pop, of closed] assms(3) unfolding after by (simp add: idle_list_def es rev_filter [symmetric])
qed

lemma map_sum_Inr: "map_sum f g r = Inr y \<longleftrightarrow> (\<exists>x. r = Inr x \<and> y = g x)"
  by (cases r) auto

lemma try_send_total:
  assumes "\<And>pd req. se_prepare E pd req \<noteq> None"
  shows "try_send_request E w req \<noteq> None"
proof -
  obtain w1 c where c: "se_connection E w = (w1, c)" by fastforce
  show ?thesis
  proof (cases c)
    case (Inr pd)
    obtain q where "se_prepare E pd req = Some q" using assms by blast
    with c Inr show ?thesis
      by (auto simp: try_send_request_def Let_def split: prod.splits sum.splits option.splits)
  qed (simp add: try_send_request_def c)
qed

lemma pool_env_retry:
  assumes "lru_laws L"
    and "try_send_request (pool_env L now is_open connect key answer prepare px) w req = Some (w', Retryable e back True)"
  shows "live_idle L key w' < live_idle L key w"
proof -
  let ?open = "\<lambda>pc. is_open (pw_rest w) pc \<and> \<not> pw_closed w (pc_tx pc)"
  obtain m entry nuke where t: "idle_take L (world_ops is_open w) (now (pw_rest w)) (pw_pool w) key = (m, entry, nuke)"
    by (metis prod_cases3)
  let ?pi = "(pw_pool w)\<lparr>idle_cache := (if nuke then lru_pop L m key else m)\<rparr>"
  obtain en where en: "entry = Some en"
    using assms(2) t
    by (cases entry)
      (auto simp: try_send_request_def pool_env_def pool_connection_def Let_def pool_send_def map_sum_Inr
        split: sum.splits option.splits prod.splits)
  have "pw_pool w' = ?pi \<and> pw_closed w' = (pw_closed w)(pc_tx (id_value en) := True)"
    using assms(2) t
    by (auto simp: en try_send_request_def pool_env_def pool_connection_def Let_def pool_send_def pool_reuse_def
        split: sum.splits option.splits prod.splits)
  then show ?thesis
    using take_live [OF assms(1) t [unfolded en world_ops_def], of "pw_closed w"] by (simp add: live_idle_def)
qed


definition get_request_to :: "uri \<Rightarrow> unit request" where
  "get_request_to u = \<lparr>rq_method = ''GET'', rq_uri = u, rq_version = HTTP_11, rq_headers = ()\<rparr>"


text \<open>A URI library for the witnesses: the authority is the host.\<close>

definition uri_of_parts :: "uri_parts \<Rightarrow> uri" where
  "uri_of_parts p =
     \<lparr>scheme = p_scheme p, authority = p_authority p, host = p_authority p, port = None,
      path = (case p_path_and_query p of Some pq \<Rightarrow> pq | None \<Rightarrow> []), query = None\<rparr>"

definition parts_uris :: uri_lib where
  "parts_uris =
     \<lparr>lib_uri_parse = (\<lambda>s. None), lib_url_parse = (\<lambda>s. None),
      lib_into_parts = (\<lambda>u. \<lparr>p_scheme = scheme u, p_authority = authority u, p_path_and_query = Some (path u)\<rparr>),
      lib_from_parts = (\<lambda>p. Some (uri_of_parts p)), lib_authority = Some, lib_path_and_query = Some,
      lib_controls = (\<lambda>c. False), lib_percent_encode = (\<lambda>S s. s)\<rparr>"

definition sample_get :: "(string \<times> hvalue list) list request" where
  "sample_get =
     \<lparr>rq_method = ''GET'', rq_uri = \<lparr>scheme = Some HTTPS, authority = Some ''a'', host = Some ''a'',
        port = Some 443, path = ''/x'', query = None\<rparr>,
      rq_version = HTTP_11, rq_headers = [(''cookie'', [plain ''k=v''])]\<rparr>"

definition direct_client :: "(string \<times> hvalue list) list pool_client" where
  "direct_client = \<lparr>pc_conn_info = connected_new 0, pc_tx = TxHttp1 0\<rparr>"

abbreviation sample_prepare ::
  "((( string \<times> hvalue list) list, string) client_error + (string \<times> hvalue list) list request) option" where
  "sample_prepare \<equiv> prepare_request parts_uris list_headers (\<lambda>p. ''443'')
     \<lparr>cf_retry_canceled = True, cf_set_host = True, cf_ver = Auto\<rparr>
     (Some (\<lambda>u v. Compressed ''s=1'')) direct_client sample_get"

lemma direct_client_facts: "pc_is_http1 direct_client" "\<not> ci_is_proxied (pc_conn_info direct_client)"
  by (simp_all add: pc_is_http1_def pc_is_http2_def direct_client_def connected_new_def)

lemma sample_prepare_some: "\<exists>req'. sample_prepare = Some (Inr req')"
  using direct_client_facts
  by (simp add: prepare_request_def prepare_http1_def sample_get_def is_http_connect_def Let_def
      generate_host_header_def origin_form_def parts_uris_def h_contains_def list_headers_get_all)

lemma direct_request_headers_witness:
  "\<exists>req'. sample_prepare = Some (Inr req') \<and>
     h_get_all list_headers (rq_headers req') ''host'' = [plain ''a''] \<and>
     h_get_all list_headers (rq_headers req') ''cookie'' = [plain ''k=v'']"
proof -
  obtain req' where "sample_prepare = Some (Inr req')" using sample_prepare_some by blast
  moreover note direct_request_headers [OF list_headers_laws direct_client_facts this]
  ultimately show ?thesis
    by (simp add: sample_get_def list_headers_get_all generate_host_header_def is_schema_secure_def)
qed

lemma http1_target_form_witness:
  "\<exists>req'. sample_prepare = Some (Inr req') \<and> path (rq_uri req') = ''/x'' \<and> authority (rq_uri req') = None"
proof -
  obtain req' where req': "sample_prepare = Some (Inr req')" using sample_prepare_some by blast
  from http1_target_form [OF direct_client_facts(1) req'] have "rq_uri req' = uri_of_parts
      \<lparr>p_scheme = None, p_authority = None, p_path_and_query = Some ''/x''\<rparr>"
    using direct_client_facts(2)
    by (simp add: sample_get_def is_http_connect_def origin_form_def parts_uris_def)
  with req' show ?thesis by (simp add: uri_of_parts_def)
qed

end
