(* ===== verification/Ip_Addr.thy ===== *)
theory Ip_Addr
  imports Prelude
begin

text \<open>
  \<open>std::net::IpAddr\<close> and its \<open>FromStr\<close>: the standard library's recursive-descent parser on
  the bytes of the text. A parser takes the rest of the input and returns what it read
  with what is left, or \<^term>\<open>None\<close>, in which case the caller goes on from where it was.
\<close>

datatype ip_addr = V4 u32 | V6 "128 word"

section \<open>Numbers\<close>

text \<open>\<open>char::to_digit\<close> for a radix of at most 16.\<close>

definition to_digit :: "int \<Rightarrow> char \<Rightarrow> int option" where
  "to_digit r c =
     (let n = (of_char c :: int);
          d = (if 48 \<le> n \<and> n \<le> 57 then n - 48
               else if 65 \<le> n \<and> n \<le> 70 then n - 55
               else if 97 \<le> n \<and> n \<le> 102 then n - 87
               else 16)
      in if d < r then Some d else None)"

definition digits_value :: "int \<Rightarrow> string \<Rightarrow> int" where
  "digits_value r ds = foldl (\<lambda>a c. a * r + the (to_digit r c)) 0 ds"

definition read_number :: "int \<Rightarrow> nat \<Rightarrow> bool \<Rightarrow> int \<Rightarrow> string \<Rightarrow> (int \<times> string) option" where
  "read_number r max_digits allow_zero bound s =
     (let ds = takeWhile (\<lambda>c. to_digit r c \<noteq> None) s; n = digits_value r ds in
      if ds = [] \<or> max_digits < length ds then None
      else if \<not> allow_zero \<and> hd ds = CHR ''0'' \<and> 1 < length ds then None
      else if bound \<le> n then None
      else Some (n, drop (length ds) s))"

text \<open>\<open>read_separator\<close>: every group but the first is preceded by the separator.\<close>

definition read_sep :: "char \<Rightarrow> bool \<Rightarrow> string \<Rightarrow> string option" where
  "read_sep c first s = (if first then Some s else strip_prefix [c] s)"

section \<open>IPv4\<close>

definition read_octet :: "bool \<Rightarrow> string \<Rightarrow> (int \<times> string) option" where
  "read_octet first s = Option.bind (read_sep CHR ''.'' first s) (read_number 10 3 False 256)"

fun read_octets :: "nat \<Rightarrow> bool \<Rightarrow> string \<Rightarrow> (int list \<times> string) option" where
  "read_octets 0 first s = Some ([], s)"
| "read_octets (Suc k) first s =
     (case read_octet first s of
        None \<Rightarrow> None
      | Some (n, r) \<Rightarrow> map_option (apfst ((#) n)) (read_octets k False r))"

definition octets_value :: "int list \<Rightarrow> int" where
  "octets_value os = foldl (\<lambda>a n. a * 256 + n) 0 os"

definition read_ipv4 :: "string \<Rightarrow> (u32 \<times> string) option" where
  "read_ipv4 s = map_option (apfst (\<lambda>os. word_of_int (octets_value os))) (read_octets 4 True s)"

section \<open>IPv6\<close>

definition read_group :: "bool \<Rightarrow> string \<Rightarrow> (int \<times> string) option" where
  "read_group first s = Option.bind (read_sep CHR '':'' first s) (read_number 16 4 True 65536)"

definition read_embedded :: "bool \<Rightarrow> string \<Rightarrow> (u32 \<times> string) option" where
  "read_embedded first s = Option.bind (read_sep CHR '':'' first s) read_ipv4"

text \<open>
  \<open>read_groups\<close>: up to the given number of groups, the last two of which may be written as
  an IPv4 address; the flag says whether they were.
\<close>

fun read_groups :: "nat \<Rightarrow> bool \<Rightarrow> string \<Rightarrow> int list \<times> bool \<times> string" where
  "read_groups 0 first s = ([], False, s)"
| "read_groups (Suc k) first s =
     (case (if 0 < k then read_embedded first s else None) of
        Some (a, r) \<Rightarrow> ([uint a div 65536, uint a mod 65536], True, r)
      | None \<Rightarrow>
          (case read_group first s of
             None \<Rightarrow> ([], False, s)
           | Some (g, r) \<Rightarrow> (case read_groups k False r of (gs, v4, r') \<Rightarrow> (g # gs, v4, r'))))"

definition groups_value :: "int list \<Rightarrow> int" where
  "groups_value gs = foldl (\<lambda>a g. a * 65536 + g) 0 gs"

definition read_ipv6 :: "string \<Rightarrow> (128 word \<times> string) option" where
  "read_ipv6 s =
     (case read_groups 8 True s of (front, v4, r) \<Rightarrow>
        if length front = 8 then Some (word_of_int (groups_value front), r)
        else if v4 then None
        else (case strip_prefix ''::'' r of
                None \<Rightarrow> None
              | Some r' \<Rightarrow>
                  (case read_groups (8 - (length front + 1)) True r' of (tail, _, r'') \<Rightarrow>
                     Some (word_of_int (groups_value
                             (front @ replicate (8 - length front - length tail) 0 @ tail)), r''))))"

definition parse_ip :: "string \<Rightarrow> ip_addr option" where
  "parse_ip s =
     (case (case read_ipv4 s of
              Some (a, r) \<Rightarrow> Some (V4 a, r)
            | None \<Rightarrow> map_option (apfst V6) (read_ipv6 s)) of
        Some (a, []) \<Rightarrow> Some a
      | _ \<Rightarrow> None)"

section \<open>Lemmas\<close>

lemma read_groups_length: "length (fst (read_groups k first s)) \<le> k"
  by (induction k first s rule: read_groups.induct)
    (auto split: option.splits prod.splits if_splits)

lemma read_octets_length: "read_octets k first s = Some (os, r) \<Longrightarrow> length os = k"
  by (induction k first s arbitrary: os rule: read_octets.induct) (auto split: option.splits)

lemma read_number_bound: "read_number r m z b s = Some (n, t) \<Longrightarrow> n < b"
  by (auto simp: read_number_def Let_def split: if_splits)

lemma parse_ip_examples:
  "parse_ip ''10.42.1.100'' = Some (V4 0x0A2A0164)"
  "parse_ip ''::1'' = Some (V6 1)"
  "parse_ip ''2001:db8:a0b:12f0::1'' = Some (V6 0x20010db80a0b12f00000000000000001)"
  "parse_ip ''::ffff:1.2.3.4'' = Some (V6 0xFFFF01020304)"
  "parse_ip ''01.2.3.4'' = None" "parse_ip ''1.2.3'' = None" "parse_ip ''any.where'' = None"
  "parse_ip ''1.2.3.4/24'' = None" "parse_ip '''' = None" "parse_ip ''*'' = None"
  by code_simp+

end
