(* ===== verification/Proxy_Matcher.thy ===== *)
theory Proxy_Matcher
  imports Uri_Ext Header_Map Ip_Addr
begin

text \<open>
  Proxy rules (\<open>src/src/proxy.rs\<close>, \<open>src/src/proxy/matcher.rs\<close>): the public builder, the matcher it is turned into, the
  \<open>NO_PROXY\<close> filter, and the choice the connector makes among the configured proxies
  (\<open>src/src/conn/connector.rs\<close>). The URI library, percent-decoding, base64 and IP networks
  are third-party: fields of a record the definitions take as an argument.
\<close>

record 'n proxy_lib =
  px_uri :: uri_lib
  px_display :: "uri \<Rightarrow> string"
  px_decode :: "string \<Rightarrow> string"
  px_b64 :: "string \<Rightarrow> string"
  px_net_parse :: "string \<Rightarrow> 'n option"
  px_net_contains :: "'n \<Rightarrow> ip_addr \<Rightarrow> bool"

section \<open>Data\<close>

datatype proxy_auth = AuthEmpty | AuthBasic hvalue | AuthRaw string string

record 'h extra =
  ex_auth :: "hvalue option"
  ex_misc :: "'h option"

definition extra_default :: "'h extra" where
  "extra_default = \<lparr>ex_auth = None, ex_misc = None\<rparr>"

record 'h intercept =
  ic_uri :: uri
  ic_auth :: proxy_auth
  ic_extra :: "'h extra"

datatype 'n ip_rule = Address ip_addr | Network 'n

record 'n no_proxy_rules =
  np_ips :: "'n ip_rule list"
  np_domains :: "string list"

record ('h, 'n) matcher =
  mt_http :: "'h intercept option"
  mt_https :: "'h intercept option"
  mt_no :: "'n no_proxy_rules"
  mt_unix :: "string option"

datatype 'h intercepted = IProxy "'h intercept" | IUnix string

record matcher_builder =
  mb_is_cgi :: bool
  mb_all :: string
  mb_http :: string
  mb_https :: string
  mb_no :: string
  mb_unix :: "string option"

definition mb_default :: matcher_builder where
  "mb_default = \<lparr>mb_is_cgi = False, mb_all = [], mb_http = [], mb_https = [], mb_no = [],
     mb_unix = None\<rparr>"

section \<open>The exclusion list\<close>

definition ip_rule_matches :: "'n proxy_lib \<Rightarrow> ip_addr \<Rightarrow> 'n ip_rule \<Rightarrow> bool" where
  "ip_rule_matches X addr r =
     (case r of Address a \<Rightarrow> addr = a | Network n \<Rightarrow> px_net_contains X n addr)"

fun ips_contains :: "'n proxy_lib \<Rightarrow> 'n ip_rule list \<Rightarrow> ip_addr \<Rightarrow> bool" where
  "ips_contains X [] addr = False"
| "ips_contains X (r # rs) addr = (if ip_rule_matches X addr r then True else ips_contains X rs addr)"

text \<open>
  One turn of the loop of \<open>DomainMatcher::contains\<close>; slicing from \<open>saturating_sub\<close> is
  \<^term>\<open>drop\<close> with the truncating subtraction of \<^typ>\<open>nat\<close>. Hosts are ASCII, so that every
  index is a character boundary and \<open>str::get\<close> succeeds.
\<close>

definition byte_at :: "string \<Rightarrow> nat \<Rightarrow> char option" where
  "byte_at s i = (if i < length s then Some (s ! i) else None)"

definition starts_with :: "char \<Rightarrow> string \<Rightarrow> bool" where
  "starts_with c s = (byte_at s 0 = Some c)"

definition domain_rule_matches :: "string \<Rightarrow> string \<Rightarrow> bool" where
  "domain_rule_matches domain d =
     (if eq_ignore_ascii_case d domain \<or>
         (case strip_prefix ''.'' d of Some s \<Rightarrow> eq_ignore_ascii_case s domain | None \<Rightarrow> False)
      then True
      else if eq_ignore_ascii_case (drop (length domain - length d) domain) d
      then (if starts_with CHR ''.'' d then True
            else byte_at domain (length domain - (length d + 1)) = Some CHR ''.'')
      else d = ''*'')"

fun domains_contains :: "string list \<Rightarrow> string \<Rightarrow> bool" where
  "domains_contains [] domain = False"
| "domains_contains (d # ds) domain =
     (if domain_rule_matches domain d then True else domains_contains ds domain)"

definition no_proxy_contains :: "'n proxy_lib \<Rightarrow> 'n no_proxy_rules \<Rightarrow> string \<Rightarrow> bool" where
  "no_proxy_contains X np name =
     (let h = strip_ipv6_brackets name in
      case parse_ip h of
        Some ip \<Rightarrow> ips_contains X (np_ips np) ip
      | None \<Rightarrow> domains_contains (np_domains np) h)"

definition no_proxy_empty :: "'n no_proxy_rules" where
  "no_proxy_empty = \<lparr>np_ips = [], np_domains = []\<rparr>"

definition add_part :: "'n proxy_lib \<Rightarrow> 'n no_proxy_rules \<Rightarrow> string \<Rightarrow> 'n no_proxy_rules" where
  "add_part X np part =
     (case px_net_parse X part of
        Some n \<Rightarrow> np\<lparr>np_ips := np_ips np @ [Network n]\<rparr>
      | None \<Rightarrow>
          (case parse_ip part of
             Some a \<Rightarrow> np\<lparr>np_ips := np_ips np @ [Address a]\<rparr>
           | None \<Rightarrow>
               if trim part \<noteq> [] then np\<lparr>np_domains := np_domains np @ [part]\<rparr> else np))"

definition no_proxy_from_string :: "'n proxy_lib \<Rightarrow> string \<Rightarrow> 'n no_proxy_rules" where
  "no_proxy_from_string X s =
     foldl (add_part X) no_proxy_empty (map trim (split_on CHR '','' s))"

section \<open>Parsing a proxy setting\<close>

definition socks_schemes :: "string list" where
  "socks_schemes = [''socks4'', ''socks4a'', ''socks5'', ''socks5h'']"

text \<open>The scheme, and whether it is an HTTP one; \<^term>\<open>None\<close> cannot be used for a proxy.\<close>

definition proxy_scheme_kind :: "url_scheme option \<Rightarrow> (url_scheme \<times> bool) option" where
  "proxy_scheme_kind sch =
     (case sch of
        Some s \<Rightarrow>
          (if s = HTTP \<or> s = HTTPS then Some (s, True)
           else if s \<in> OtherScheme ` set socks_schemes then Some (s, False)
           else None)
      | None \<Rightarrow> Some (HTTP, True))"

definition default_socks_port :: "'n proxy_lib \<Rightarrow> bool \<Rightarrow> uri \<Rightarrow> string \<Rightarrow> string option" where
  "default_socks_port X is_socks u auth =
     (if is_socks \<and> port u = None then lib_authority (px_uri X) (auth @ '':1080'')
      else Some auth)"

definition split_credentials :: "'n proxy_lib \<Rightarrow> bool \<Rightarrow> string \<Rightarrow> proxy_auth" where
  "split_credentials X is_httpish info =
     (let (user, pass) = (case split_once CHR '':'' info of
                            Some (u, p) \<Rightarrow> (u, Some p)
                          | None \<Rightarrow> (info, None));
          user = px_decode X user;
          pass = map_option (px_decode X) pass
      in if is_httpish then AuthBasic (basic_auth (px_b64 X) user pass)
         else AuthRaw user (case pass of Some p \<Rightarrow> p | None \<Rightarrow> []))"

definition build_proxy_uri :: "'n proxy_lib \<Rightarrow> url_scheme \<Rightarrow> string \<Rightarrow> uri option" where
  "build_proxy_uri X s auth =
     (case lib_authority (px_uri X) auth of
        None \<Rightarrow> None
      | Some a \<Rightarrow>
          (case lib_path_and_query (px_uri X) ''/'' of
             None \<Rightarrow> None
           | Some pq \<Rightarrow>
               lib_from_parts (px_uri X)
                 \<lparr>p_scheme = Some s, p_authority = Some a, p_path_and_query = Some pq\<rparr>))"

definition parse_env_uri :: "'n proxy_lib \<Rightarrow> string \<Rightarrow> 'h intercept option" where
  "parse_env_uri X val =
     (case lib_uri_parse (px_uri X) val of
        None \<Rightarrow> None
      | Some u \<Rightarrow>
          (case proxy_scheme_kind (scheme u) of
             None \<Rightarrow> None
           | Some (s, is_httpish) \<Rightarrow>
               (case Option.bind (authority u) (default_socks_port X (\<not> is_httpish) u) of
                  None \<Rightarrow> None
                | Some auth \<Rightarrow>
                    (let (cred, target) = (case rsplit_once CHR ''@'' auth of
                         Some (info, host_port) \<Rightarrow> (split_credentials X is_httpish info, host_port)
                       | None \<Rightarrow> (AuthEmpty, auth))
                     in map_option (\<lambda>pu. \<lparr>ic_uri = pu, ic_auth = cred, ic_extra = extra_default\<rparr>)
                          (build_proxy_uri X s target)))))"

section \<open>Building and asking a matcher\<close>

definition with_extra :: "'h extra \<Rightarrow> 'h intercept option \<Rightarrow> 'h intercept option" where
  "with_extra e i = map_option (\<lambda>i. i\<lparr>ic_extra := e\<rparr>) i"

definition mb_build :: "'n proxy_lib \<Rightarrow> matcher_builder \<Rightarrow> 'h extra \<Rightarrow> ('h, 'n) matcher" where
  "mb_build X b e =
     (if mb_is_cgi b
      then \<lparr>mt_http = None, mt_https = None, mt_no = no_proxy_empty, mt_unix = None\<rparr>
      else
        (let all = parse_env_uri X (mb_all b);
             http = with_extra e (parse_env_uri X (mb_http b));
             https = with_extra e (parse_env_uri X (mb_https b));
             all = (if Option.is_none http \<or> Option.is_none https then with_extra e all else all)
         in \<lparr>mt_http = (case http of Some i \<Rightarrow> Some i | None \<Rightarrow> all),
             mt_https = (case https of Some i \<Rightarrow> Some i | None \<Rightarrow> all),
             mt_no = no_proxy_from_string X (mb_no b),
             mt_unix = mb_unix b\<rparr>))"

definition mt_intercept :: "'n proxy_lib \<Rightarrow> ('h, 'n) matcher \<Rightarrow> uri \<Rightarrow> 'h intercepted option" where
  "mt_intercept X m dst =
     (case mt_unix m of
        Some p \<Rightarrow> Some (IUnix p)
      | None \<Rightarrow>
          (case host dst of
             None \<Rightarrow> None
           | Some h \<Rightarrow>
               (if no_proxy_contains X (mt_no m) h then None
                else if is_http dst then map_option IProxy (mt_http m)
                else if is_https dst then map_option IProxy (mt_https m)
                else None)))"

definition ic_basic_auth :: "'h intercept \<Rightarrow> hvalue option" where
  "ic_basic_auth i =
     (case ex_auth (ic_extra i) of
        Some v \<Rightarrow> Some v
      | None \<Rightarrow> (case ic_auth i of AuthBasic v \<Rightarrow> Some v | _ \<Rightarrow> None))"

definition ic_raw_auth :: "'h intercept \<Rightarrow> (string \<times> string) option" where
  "ic_raw_auth i = (case ic_auth i of AuthRaw u p \<Rightarrow> Some (u, p) | _ \<Rightarrow> None)"

definition ic_custom_headers :: "'h intercept \<Rightarrow> 'h option" where
  "ic_custom_headers i = ex_misc (ic_extra i)"

text \<open>The environment: the variables that are set, with valid Unicode values.\<close>

fun get_first_env :: "(string \<Rightarrow> string option) \<Rightarrow> string list \<Rightarrow> string" where
  "get_first_env env [] = []"
| "get_first_env env (n # ns) = (case env n of Some v \<Rightarrow> v | None \<Rightarrow> get_first_env env ns)"

definition mb_from_env :: "(string \<Rightarrow> string option) \<Rightarrow> matcher_builder" where
  "mb_from_env env =
     \<lparr>mb_is_cgi = (env ''REQUEST_METHOD'' \<noteq> None),
      mb_all = get_first_env env [''ALL_PROXY'', ''all_proxy''],
      mb_http = get_first_env env [''HTTP_PROXY'', ''http_proxy''],
      mb_https = get_first_env env [''HTTPS_PROXY'', ''https_proxy''],
      mb_no = get_first_env env [''NO_PROXY'', ''no_proxy''],
      mb_unix = None\<rparr>"

text \<open>\<open>from_system\<close> where no system configuration is consulted.\<close>

definition mt_from_system :: "'n proxy_lib \<Rightarrow> (string \<Rightarrow> string option) \<Rightarrow> ('h, 'n) matcher" where
  "mt_from_system X env = mb_build X (mb_from_env env) extra_default"

section \<open>The public builder\<close>

datatype proxy_target = SchemeAll uri | SchemeHttp uri | SchemeHttps uri | SchemeUnix string

record 'h proxy =
  py_extra :: "'h extra"
  py_scheme :: proxy_target
  py_no_proxy :: "string option"

fun is_unix_target :: "proxy_target \<Rightarrow> bool" where
  "is_unix_target (SchemeUnix _) = True"
| "is_unix_target _ = False"

definition proxy_new :: "proxy_target \<Rightarrow> 'h proxy" where
  "proxy_new s = \<lparr>py_extra = \<lparr>ex_auth = None, ex_misc = None\<rparr>, py_scheme = s, py_no_proxy = None\<rparr>"

definition proxy_of_uri ::
    "'n proxy_lib \<Rightarrow> (uri \<Rightarrow> proxy_target) \<Rightarrow> string \<Rightarrow> uri_error + 'h proxy" where
  "proxy_of_uri X f s =
     (case into_uri (px_uri X) s of Inl e \<Rightarrow> Inl e | Inr u \<Rightarrow> Inr (proxy_new (f u)))"

definition proxy_http :: "'n proxy_lib \<Rightarrow> string \<Rightarrow> uri_error + 'h proxy" where
  "proxy_http X = proxy_of_uri X SchemeHttp"

definition proxy_https :: "'n proxy_lib \<Rightarrow> string \<Rightarrow> uri_error + 'h proxy" where
  "proxy_https X = proxy_of_uri X SchemeHttps"

definition proxy_all :: "'n proxy_lib \<Rightarrow> string \<Rightarrow> uri_error + 'h proxy" where
  "proxy_all X = proxy_of_uri X SchemeAll"

definition proxy_unix :: "string \<Rightarrow> uri_error + 'h proxy" where
  "proxy_unix p = Inr (proxy_new (SchemeUnix p))"

definition proxy_set_auth :: "'n proxy_lib \<Rightarrow> 'h proxy \<Rightarrow> string \<Rightarrow> string \<Rightarrow> uri \<Rightarrow>
    (uri \<Rightarrow> proxy_target) \<Rightarrow> 'h proxy" where
  "proxy_set_auth X p username password u f =
     p\<lparr>py_scheme := f (set_userinfo (px_uri X) u username (Some password)),
       py_extra := (py_extra p)\<lparr>ex_auth := Some (basic_auth (px_b64 X) username (Some password))\<rparr>\<rparr>"

definition proxy_basic_auth :: "'n proxy_lib \<Rightarrow> 'h proxy \<Rightarrow> string \<Rightarrow> string \<Rightarrow> 'h proxy" where
  "proxy_basic_auth X p username password =
     (case py_scheme p of
        SchemeAll u \<Rightarrow> proxy_set_auth X p username password u SchemeAll
      | SchemeHttp u \<Rightarrow> proxy_set_auth X p username password u SchemeHttp
      | SchemeHttps u \<Rightarrow> proxy_set_auth X p username password u SchemeHttps
      | SchemeUnix _ \<Rightarrow> p)"

definition proxy_custom_http_auth :: "'h proxy \<Rightarrow> hvalue \<Rightarrow> 'h proxy" where
  "proxy_custom_http_auth p v = p\<lparr>py_extra := (py_extra p)\<lparr>ex_auth := Some v\<rparr>\<rparr>"

definition proxy_custom_http_headers :: "'h proxy \<Rightarrow> 'h \<Rightarrow> 'h proxy" where
  "proxy_custom_http_headers p h =
     (case py_scheme p of
        SchemeUnix _ \<Rightarrow> p
      | _ \<Rightarrow> p\<lparr>py_extra := (py_extra p)\<lparr>ex_misc := Some h\<rparr>\<rparr>)"

definition proxy_no_proxy :: "'h proxy \<Rightarrow> string option \<Rightarrow> 'h proxy" where
  "proxy_no_proxy p n = p\<lparr>py_no_proxy := n\<rparr>"

definition no_proxy_from_env :: "(string \<Rightarrow> string option) \<Rightarrow> string option" where
  "no_proxy_from_env env =
     (case env ''NO_PROXY'' of Some v \<Rightarrow> Some v | None \<Rightarrow> env ''no_proxy'')"

definition into_matcher :: "'n proxy_lib \<Rightarrow> 'h proxy \<Rightarrow> ('h, 'n) matcher" where
  "into_matcher X p =
     (let b = mb_default\<lparr>mb_no := (case py_no_proxy p of Some n \<Rightarrow> n | None \<Rightarrow> [])\<rparr>
      in mb_build X
           (case py_scheme p of
              SchemeAll u \<Rightarrow> b\<lparr>mb_all := px_display X u\<rparr>
            | SchemeHttp u \<Rightarrow> b\<lparr>mb_http := px_display X u\<rparr>
            | SchemeHttps u \<Rightarrow> b\<lparr>mb_https := px_display X u\<rparr>
            | SchemeUnix p \<Rightarrow> b\<lparr>mb_unix := Some p\<rparr>)
           (py_extra p))"

text \<open>
  The connector's choice: the proxy of the request first, then the client's in the order
  they were added.
\<close>

fun find_intercept :: "'n proxy_lib \<Rightarrow> ('h, 'n) matcher list \<Rightarrow> uri \<Rightarrow> 'h intercepted option" where
  "find_intercept X [] dst = None"
| "find_intercept X (m # ms) dst =
     (case mt_intercept X m dst of Some i \<Rightarrow> Some i | None \<Rightarrow> find_intercept X ms dst)"

definition choose_intercept ::
    "'n proxy_lib \<Rightarrow> ('h, 'n) matcher option \<Rightarrow> ('h, 'n) matcher list \<Rightarrow> uri \<Rightarrow> 'h intercepted option" where
  "choose_intercept X own proxies dst =
     (case Option.bind own (\<lambda>m. mt_intercept X m dst) of
        Some i \<Rightarrow> Some i
      | None \<Rightarrow> find_intercept X proxies dst)"

section \<open>The reference rule of the exclusion list\<close>

definition lower :: "string \<Rightarrow> string" where
  "lower s = map ascii_lower s"

definition undotted :: "string \<Rightarrow> string" where
  "undotted d = (case strip_prefix ''.'' d of Some s \<Rightarrow> s | None \<Rightarrow> d)"

definition covers :: "string \<Rightarrow> string \<Rightarrow> bool" where
  "covers d domain \<longleftrightarrow>
     lower domain = lower (undotted d) \<or> suffix (CHR ''.'' # lower (undotted d)) (lower domain)"

definition names_ip :: "'n proxy_lib \<Rightarrow> ip_addr \<Rightarrow> string \<Rightarrow> bool" where
  "names_ip X ip p \<longleftrightarrow>
     (case px_net_parse X p of Some n \<Rightarrow> px_net_contains X n ip | None \<Rightarrow> parse_ip p = Some ip)"

definition is_domain_part :: "'n proxy_lib \<Rightarrow> string \<Rightarrow> bool" where
  "is_domain_part X p \<longleftrightarrow> px_net_parse X p = None \<and> parse_ip p = None \<and> trim p \<noteq> []"

lemma suffix_drop_iff: "suffix xs ys \<longleftrightarrow> drop (length ys - length xs) ys = xs"
  by (metis append_take_drop_id diff_diff_cancel length_drop nat_le_linear suffixI
      suffix_length_le suffix_take append_eq_conv_conj append_same_eq diff_is_0_eq' drop0)

lemma ascii_lower_dot [simp]: "ascii_lower c = CHR ''.'' \<longleftrightarrow> c = CHR ''.''"
proof
  assume a: "ascii_lower c = CHR ''.''"
  show "c = CHR ''.''"
  proof (cases "65 \<le> (of_char c :: nat) \<and> (of_char c :: nat) \<le> 90")
    case True
    then have "of_char (ascii_lower c) = (of_char c + 32 :: nat)"
      by (simp add: ascii_lower_def Let_def)
    moreover have "(of_char (ascii_lower c) :: nat) = 46"
      by (simp add: a)
    ultimately show ?thesis
      using True by simp
  next
    case False
    with a show ?thesis
      by (auto simp: ascii_lower_def Let_def split: if_splits)
  qed
qed (simp add: ascii_lower_def)

lemma eq_lower: "eq_ignore_ascii_case a b \<longleftrightarrow> lower a = lower b"
  by (simp add: eq_ignore_ascii_case_def lower_def)

lemma lower_simps [simp]:
  "length (lower s) = length s" "lower (CHR ''.'' # s) = CHR ''.'' # lower s"
  by (simp_all add: lower_def)

lemma tail_matches: "eq_ignore_ascii_case (drop (length s - length d) s) d \<longleftrightarrow> suffix (lower d) (lower s)"
  by (simp add: eq_lower suffix_drop_iff) (simp add: lower_def drop_map)

lemma byte_before:
  assumes "suffix (lower d) (lower s)" and "lower d \<noteq> lower s"
  shows "byte_at s (length s - (length d + 1)) = Some CHR ''.'' \<longleftrightarrow>
    suffix (CHR ''.'' # lower d) (lower s)"
proof -
  from assms(1) obtain pre where pre: "lower s = pre @ lower d"
    by (auto simp: suffix_def)
  with assms(2) obtain p c where pc: "pre = p @ [c]"
    by (metis append_Nil rev_exhaust)
  have len: "length s = length p + 1 + length d"
    using arg_cong [OF pre, of length] pc by simp
  have "lower s ! length p = c"
    by (simp add: pre pc nth_append)
  then have "ascii_lower (s ! length p) = c"
    using len by (simp add: lower_def)
  then have "s ! length p = CHR ''.'' \<longleftrightarrow> c = CHR ''.''"
    by (metis ascii_lower_dot)
  moreover have "suffix (CHR ''.'' # lower d) (lower s) \<longleftrightarrow> c = CHR ''.''"
    by (auto simp: pre pc suffix_def)
  ultimately show ?thesis
    using len by (simp add: byte_at_def)
qed

lemma starts_with_dot: "starts_with CHR ''.'' d \<longleftrightarrow> strip_prefix ''.'' d \<noteq> None"
  by (cases d) (auto simp: starts_with_def byte_at_def strip_prefix_def)

lemma undotted_cases:
  obtains "strip_prefix ''.'' d = Some (undotted d)" "d = CHR ''.'' # undotted d"
    | "strip_prefix ''.'' d = None" "undotted d = d"
  by (cases "strip_prefix ''.'' d") (auto simp: undotted_def str_simps)

lemma domain_rule_matches_lower:
  "domain_rule_matches s d \<longleftrightarrow>
     (if lower d = lower s \<or>
         (case strip_prefix ''.'' d of Some r \<Rightarrow> lower r = lower s | None \<Rightarrow> False)
      then True
      else if suffix (lower d) (lower s)
      then (if strip_prefix ''.'' d \<noteq> None then True
            else byte_at s (length s - (length d + 1)) = Some CHR ''.'')
      else d = ''*'')"
  unfolding domain_rule_matches_def tail_matches starts_with_dot unfolding eq_lower by (rule refl)

lemma domain_rule_matches_iff:
  "domain_rule_matches s d \<longleftrightarrow> covers d s \<or> (d = ''*'' \<and> \<not> suffix ''*'' (lower s))"
proof (cases d rule: undotted_cases)
  case 1
  then have ld: "lower d = CHR ''.'' # lower (undotted d)"
    by (metis lower_simps(2))
  have star: "d \<noteq> ''*''"
    using 1(2) by auto
  have "domain_rule_matches s d \<longleftrightarrow> covers d s"
    using 1(1) star by (auto simp: domain_rule_matches_lower covers_def ld)
  with 1 show ?thesis
    by auto
next
  case 2
  have star: "d = ''*'' \<Longrightarrow> lower d = ''*''"
    by (simp add: lower_def ascii_lower_def)
  have suff: "suffix (CHR ''.'' # lower d) (lower s) \<Longrightarrow> suffix (lower d) (lower s)"
    by (meson suffix_ConsD)
  show ?thesis
  proof (cases "lower d = lower s")
    case True
    then show ?thesis
      by (simp add: domain_rule_matches_lower covers_def 2)
  next
    case False
    then show ?thesis
      using 2 star suff byte_before [of d s]
      by (auto simp: domain_rule_matches_lower covers_def)
  qed
qed

lemma ips_contains_iff: "ips_contains X rs a \<longleftrightarrow> (\<exists>r \<in> set rs. ip_rule_matches X a r)"
  by (induction rs) auto

lemma domains_contains_iff: "domains_contains ds s \<longleftrightarrow> (\<exists>d \<in> set ds. domain_rule_matches s d)"
  by (induction ds) auto

lemma add_parts:
  "set (np_domains (foldl (add_part X) np ps)) =
     set (np_domains np) \<union> {p \<in> set ps. is_domain_part X p}"
  "(\<exists>r \<in> set (np_ips (foldl (add_part X) np ps)). ip_rule_matches X a r) \<longleftrightarrow>
     (\<exists>r \<in> set (np_ips np). ip_rule_matches X a r) \<or> (\<exists>p \<in> set ps. names_ip X a p)"
  by (induction ps arbitrary: np)
    (auto simp: add_part_def is_domain_part_def names_ip_def ip_rule_matches_def split: option.splits)

lemma mt_no_build: "\<not> mb_is_cgi b \<Longrightarrow> mt_no (mb_build X b e) = no_proxy_from_string X (mb_no b)"
  by (simp add: mb_build_def Let_def)

text \<open>A \<open>NO_PROXY\<close> list excludes exactly the hosts its rules name: an IP address that an
  entry gives or whose network contains it, and a domain equal to an entry, or below it,
  ignoring case and a leading dot of the entry, or any domain when an entry is \<open>*\<close>.
  (The code misses \<open>*\<close> for a name that itself ends in a \<open>*\<close>.)\<close>

lemma no_proxy_rules:
  assumes "\<not> suffix ''*'' (lower (strip_ipv6_brackets h))"
  shows "no_proxy_contains X (no_proxy_from_string X s) h \<longleftrightarrow>
    (let parts = map trim (split_on CHR '','' s); h' = strip_ipv6_brackets h in
     case parse_ip h' of
       Some ip \<Rightarrow> (\<exists>p \<in> set parts. names_ip X ip p)
     | None \<Rightarrow> (\<exists>p \<in> set parts. is_domain_part X p \<and> (p = ''*'' \<or> covers p h')))"
  using assms
  by (auto simp: no_proxy_contains_def no_proxy_from_string_def ips_contains_iff domains_contains_iff
      add_parts domain_rule_matches_iff no_proxy_empty_def Let_def split: option.splits)

text \<open>A matcher built from settings intercepts a request exactly when it does not run as
  a CGI script, the host is not excluded, and a usable proxy is set for its scheme, or for
  all schemes; that proxy carries the extra headers and credentials it was built with.\<close>

lemma intercept_decision:
  fixes i :: "'h intercept"
  assumes "mb_unix b = None"
  shows "mt_intercept X (mb_build X b e) dst = Some (IProxy i) \<longleftrightarrow>
    \<not> mb_is_cgi b \<and>
    (\<exists>h. host dst = Some h \<and> \<not> no_proxy_contains X (no_proxy_from_string X (mb_no b)) h) \<and>
    (\<exists>own j. (is_http dst \<and> own = mb_http b \<or> is_https dst \<and> own = mb_https b) \<and>
       (parse_env_uri X own = Some j \<or>
         parse_env_uri X own = (None :: 'h intercept option) \<and> parse_env_uri X (mb_all b) = Some j) \<and>
       i = j\<lparr>ic_extra := e\<rparr>)"
proof (cases "mb_is_cgi b")
  case True
  then show ?thesis
    by (auto simp: mb_build_def mt_intercept_def split: option.splits)
next
  case False
  have pick: "(case with_extra e x of Some i \<Rightarrow> Some i | None \<Rightarrow>
        if Option.is_none (with_extra e x) \<or> Q then with_extra e y else y) = Some i \<longleftrightarrow>
      (\<exists>j. (x = Some j \<or> x = None \<and> y = Some j) \<and> i = j\<lparr>ic_extra := e\<rparr>)"
    "(case with_extra e x of Some i \<Rightarrow> Some i | None \<Rightarrow>
        if Q \<or> Option.is_none (with_extra e x) then with_extra e y else y) = Some i \<longleftrightarrow>
      (\<exists>j. (x = Some j \<or> x = None \<and> y = Some j) \<and> i = j\<lparr>ic_extra := e\<rparr>)" for x y :: "'h intercept option" and Q
    by (cases x; auto simp: with_extra_def)+
  show ?thesis
    using False assms is_http_not_https [of dst]
    by (cases "host dst"; cases "is_http dst"; cases "is_https dst")
      (auto simp: mb_build_def mt_intercept_def Let_def pick)
qed

section \<open>Credentials and the proxy's URI\<close>

lemma authority_kept: "uri_lib_laws L \<Longrightarrow> lib_authority L s = Some a \<Longrightarrow> a = s"
  unfolding uri_lib_laws_def by blast

lemma build_proxy_uri_Some:
  assumes "uri_lib_laws (px_uri X)" and "build_proxy_uri X s a = Some u"
  shows "scheme u = Some s \<and> authority u = Some a"
  using assms by (auto simp: build_proxy_uri_def uri_lib_laws_def split: option.splits)

lemma proxy_scheme_kind_Some:
  "proxy_scheme_kind sch = Some (s, httpish) \<Longrightarrow>
     (if httpish then s \<in> {HTTP, HTTPS} else s \<in> OtherScheme ` set socks_schemes) \<and>
     (sch = Some s \<or> sch = None \<and> s = HTTP)"
  by (auto simp: proxy_scheme_kind_def split: option.splits if_splits)

lemma credentials_kind:
  "split_credentials X httpish info = c \<Longrightarrow>
     (if httpish then \<exists>v. c = AuthBasic v \<and> hv_sensitive v else \<exists>u p. c = AuthRaw u p)"
  by (auto simp: split_credentials_def basic_auth_def Let_def split: option.splits prod.splits)

lemma parse_env_uri_Some:
  assumes "parse_env_uri X val = Some i"
  obtains u s httpish auth cred target where
    "lib_uri_parse (px_uri X) val = Some u"
    "proxy_scheme_kind (scheme u) = Some (s, httpish)"
    "Option.bind (authority u) (default_socks_port X (\<not> httpish) u) = Some auth"
    "(CHR ''@'' \<notin> set auth \<and> cred = AuthEmpty \<and> target = auth) \<or>
     (\<exists>info. auth = info @ CHR ''@'' # target \<and> CHR ''@'' \<notin> set target \<and>
             cred = split_credentials X httpish info)"
    "build_proxy_uri X s target = Some (ic_uri i)" "ic_auth i = cred" "ic_extra i = extra_default"
proof -
  from assms obtain u s httpish auth where
    1: "lib_uri_parse (px_uri X) val = Some u"
    "proxy_scheme_kind (scheme u) = Some (s, httpish)"
    "Option.bind (authority u) (default_socks_port X (\<not> httpish) u) = Some auth"
    by (auto simp: parse_env_uri_def split: option.splits prod.splits)
  show thesis
  proof (cases "rsplit_once CHR ''@'' auth")
    case None
    with assms 1 show thesis
      by (intro that [OF 1, of AuthEmpty auth]) (auto simp: parse_env_uri_def str_simps)
  next
    case (Some ap)
    obtain info target where ap: "ap = (info, target)"
      by (cases ap)
    with assms 1 Some show thesis
      by (intro that [OF 1, of "split_credentials X httpish info" target])
        (auto simp: parse_env_uri_def str_simps)
  qed
qed

text \<open>The credentials written in a proxy setting are moved out of the URI that is
  connected to: its authority is what follows the last \<open>@\<close>, and the credentials become a
  sensitive Basic header value for an HTTP proxy, and a name and password for a SOCKS
  proxy. A SOCKS proxy without a port gets port 1080, and no other scheme is a proxy.\<close>

lemma proxy_setting_parsed:
  assumes "uri_lib_laws (px_uri X)" and "parse_env_uri X val = Some i"
  shows "\<exists>u a0 a s. lib_uri_parse (px_uri X) val = Some u \<and> authority u = Some a0 \<and>
    authority (ic_uri i) = Some a \<and> CHR ''@'' \<notin> set a \<and> scheme (ic_uri i) = Some s \<and>
    s \<in> {HTTP, HTTPS} \<union> OtherScheme ` set socks_schemes \<and> suffix a
      (if s \<notin> {HTTP, HTTPS} \<and> port u = None then a0 @ '':1080'' else a0) \<and>
    (case ic_auth i of
       AuthEmpty \<Rightarrow> CHR ''@'' \<notin> set a0
     | AuthBasic v \<Rightarrow> CHR ''@'' \<in> set a0 \<and> s \<in> {HTTP, HTTPS} \<and> hv_sensitive v
     | AuthRaw _ _ \<Rightarrow> CHR ''@'' \<in> set a0 \<and> s \<notin> {HTTP, HTTPS})"
proof -
  from assms(2) obtain u s httpish auth cred target where
    1: "lib_uri_parse (px_uri X) val = Some u"
    "proxy_scheme_kind (scheme u) = Some (s, httpish)"
    "Option.bind (authority u) (default_socks_port X (\<not> httpish) u) = Some auth" and
    2: "(CHR ''@'' \<notin> set auth \<and> cred = AuthEmpty \<and> target = auth) \<or>
     (\<exists>info. auth = info @ CHR ''@'' # target \<and> CHR ''@'' \<notin> set target \<and>
             cred = split_credentials X httpish info)" and
    3: "build_proxy_uri X s target = Some (ic_uri i)" "ic_auth i = cred"
    by (rule parse_env_uri_Some)
  from 1(3) obtain a0 where a0: "authority u = Some a0"
    and auth: "auth = (if \<not> httpish \<and> port u = None then a0 @ '':1080'' else a0)"
    using authority_kept [OF assms(1), of _ auth]
    by (cases "authority u") (auto simp: default_socks_port_def split: if_splits)
  note kind = proxy_scheme_kind_Some [OF 1(2)]
  have httpish: "httpish \<longleftrightarrow> s \<in> {HTTP, HTTPS}"
    using kind by (auto split: if_splits)
  have at: "CHR ''@'' \<in> set auth \<longleftrightarrow> CHR ''@'' \<in> set a0"
    by (simp add: auth)
  have "suffix target auth" and "CHR ''@'' \<notin> set target"
    using 2 by (elim disjE exE conjE; simp add: suffix_def)+
  moreover have "case cred of
       AuthEmpty \<Rightarrow> CHR ''@'' \<notin> set a0
     | AuthBasic v \<Rightarrow> CHR ''@'' \<in> set a0 \<and> s \<in> {HTTP, HTTPS} \<and> hv_sensitive v
     | AuthRaw _ _ \<Rightarrow> CHR ''@'' \<in> set a0 \<and> s \<notin> {HTTP, HTTPS}"
    using 2
  proof
    assume "CHR ''@'' \<notin> set auth \<and> cred = AuthEmpty \<and> target = auth"
    then show ?thesis
      using at by simp
  next
    assume "\<exists>info. auth = info @ CHR ''@'' # target \<and> CHR ''@'' \<notin> set target \<and>
             cred = split_credentials X httpish info"
    then obtain info where info: "auth = info @ CHR ''@'' # target"
      and "split_credentials X httpish info = cred"
      by auto
    then have "if httpish then \<exists>v. cred = AuthBasic v \<and> hv_sensitive v else \<exists>u p. cred = AuthRaw u p"
      by (intro credentials_kind)
    moreover have "CHR ''@'' \<in> set a0"
      using at info by simp
    ultimately show ?thesis
      unfolding httpish by (cases cred) (simp_all split: if_splits)
  qed
  moreover have "s \<in> {HTTP, HTTPS} \<union> OtherScheme ` set socks_schemes"
    using kind by (auto split: if_splits)
  moreover have "scheme (ic_uri i) = Some s" "authority (ic_uri i) = Some target"
    using build_proxy_uri_Some [OF assms(1) 3(1)] by simp_all
  ultimately show ?thesis
    using 1(1) a0 unfolding 3(2) auth httpish
    by (intro exI [of _ u] exI [of _ a0] exI [of _ target] exI [of _ s] conjI; simp)
qed

lemma mt_intercept_extra:
  assumes "mt_intercept X (mb_build X b e) dst = Some (IProxy i)"
  shows "ic_extra i = e"
proof -
  have pick: "ic_extra i = e" if "(case with_extra e x of Some i \<Rightarrow> Some i | None \<Rightarrow>
        if Q then with_extra e y else y) = Some i" "x = None \<Longrightarrow> Q" for x y Q
    using that by (cases x) (auto simp: with_extra_def)
  from assms consider
      "mt_http (mb_build X b e) = Some i" "\<not> mb_is_cgi b"
    | "mt_https (mb_build X b e) = Some i" "\<not> mb_is_cgi b"
    by (cases "mb_is_cgi b")
      (auto simp: mt_intercept_def mb_build_def split: option.splits if_splits)
  then show ?thesis
    by cases (auto simp: mb_build_def Let_def with_extra_def intro: pick split: if_splits option.splits)
qed

lemma into_matcher_extra:
  "mt_intercept X (into_matcher X p) dst = Some (IProxy i) \<Longrightarrow> ic_extra i = py_extra p"
  unfolding into_matcher_def Let_def by (rule mt_intercept_extra)

text \<open>Credentials given to \<open>Proxy::basic_auth\<close> or \<open>custom_http_auth\<close>, the last call
  winning, are the ones a matched request presents to the proxy, whatever its URI holds;
  adding headers or an exclusion list afterwards keeps them.\<close>

lemma explicit_proxy_auth:
  assumes "\<not> is_unix_target (py_scheme p)"
    and "q = proxy_basic_auth X p user pass \<and> v = basic_auth (px_b64 X) user (Some pass) \<or>
         q = proxy_custom_http_auth p v"
    and "q' \<in> {q, proxy_custom_http_headers q h, proxy_no_proxy q n}"
    and "mt_intercept X (into_matcher X q') dst = Some (IProxy i)"
  shows "ic_basic_auth i = Some v"
proof -
  have "ex_auth (py_extra q) = Some v"
    using assms(1,2) by (auto simp: proxy_basic_auth_def proxy_set_auth_def
        proxy_custom_http_auth_def split: proxy_target.splits)
  then have "ex_auth (py_extra q') = Some v"
    using assms(3) by (auto simp: proxy_custom_http_headers_def proxy_no_proxy_def
        split: proxy_target.splits)
  then show ?thesis
    using into_matcher_extra [OF assms(4)] by (simp add: ic_basic_auth_def)
qed

text \<open>A proxy that is a Unix socket takes every request: the exclusion list set on it is
  never consulted, nor is the scheme.\<close>

lemma unix_proxy_ignores_exclusions:
  "proxy_unix sock = Inr p \<Longrightarrow>
     mt_intercept X (into_matcher X (proxy_no_proxy p n)) dst = Some (IUnix sock)"
  by (auto simp: proxy_unix_def proxy_new_def proxy_no_proxy_def into_matcher_def mb_build_def
      mb_default_def mt_intercept_def Let_def)

text \<open>The connector asks the request's own proxy first and falls back to the client's, so a
  request cannot opt out of a client proxy by an exclusion list of its own.\<close>

lemma choose_intercept_own:
  "mt_intercept X m dst = Some i \<Longrightarrow> choose_intercept X (Some m) ms dst = Some i"
  by (simp add: choose_intercept_def)

lemma choose_intercept_excluded:
  "mt_intercept X m dst = None \<Longrightarrow> choose_intercept X (Some m) ms dst = choose_intercept X None ms dst"
  by (simp add: choose_intercept_def)

lemma find_intercept_first:
  "find_intercept X ms dst = Some i \<longleftrightarrow>
     (\<exists>pre m post. ms = pre @ m # post \<and> mt_intercept X m dst = Some i \<and>
        (\<forall>m' \<in> set pre. mt_intercept X m' dst = None))"
proof (induction ms)
  case (Cons m ms)
  show ?case
  proof (cases "mt_intercept X m dst")
    case None
    show ?thesis
      unfolding find_intercept.simps None option.case Cons.IH
    proof (intro iffI; elim exE conjE)
      fix pre m' post
      assume "ms = pre @ m' # post" "mt_intercept X m' dst = Some i"
        "\<forall>m' \<in> set pre. mt_intercept X m' dst = None"
      then show "\<exists>pre m' post. m # ms = pre @ m' # post \<and> mt_intercept X m' dst = Some i \<and>
          (\<forall>m' \<in> set pre. mt_intercept X m' dst = None)"
        using None by (intro exI [of _ "m # pre"] exI [of _ m'] exI [of _ post]) simp
    next
      fix pre m' post
      assume "m # ms = pre @ m' # post" "mt_intercept X m' dst = Some i"
        "\<forall>m' \<in> set pre. mt_intercept X m' dst = None"
      then show "\<exists>pre m' post. ms = pre @ m' # post \<and> mt_intercept X m' dst = Some i \<and>
          (\<forall>m' \<in> set pre. mt_intercept X m' dst = None)"
        using None by (cases pre) auto
    qed
  next
    case (Some j)
    show ?thesis
    proof
      assume "find_intercept X (m # ms) dst = Some i"
      with Some show "\<exists>pre m' post. m # ms = pre @ m' # post \<and> mt_intercept X m' dst = Some i \<and>
          (\<forall>m' \<in> set pre. mt_intercept X m' dst = None)"
        by (intro exI [of _ "[]"] exI [of _ m] exI [of _ ms]) simp
    next
      assume "\<exists>pre m' post. m # ms = pre @ m' # post \<and> mt_intercept X m' dst = Some i \<and>
          (\<forall>m' \<in> set pre. mt_intercept X m' dst = None)"
      with Some show "find_intercept X (m # ms) dst = Some i"
        by (auto simp: Cons_eq_append_conv)
    qed
  qed
qed simp

section \<open>Witnesses\<close>

text \<open>
  A URI library that knows two schemes and percent-encodes, and networks given by their
  first octet.
\<close>

definition percent_encode :: "(char \<Rightarrow> bool) \<Rightarrow> string \<Rightarrow> string" where
  "percent_encode S s =
     concat (map (\<lambda>c. if S c then CHR ''%'' # map ((!) ''0123456789ABCDEF'')
                                   [of_char c div 16, of_char c mod 16] else [c]) s)"

definition sample_uri :: "url_scheme \<Rightarrow> string \<Rightarrow> uri" where
  "sample_uri s a =
     \<lparr>scheme = Some s, authority = Some a, host = Some a, port = None, path = ''/'', query = None\<rparr>"

definition sample_uris :: uri_lib where
  "sample_uris =
     \<lparr>lib_uri_parse = (\<lambda>s. case strip_prefix ''socks5://'' s of
          Some a \<Rightarrow> Some (sample_uri (OtherScheme ''socks5'') a)
        | None \<Rightarrow> map_option (sample_uri HTTP) (strip_prefix ''http://'' s)),
      lib_url_parse = Some,
      lib_into_parts = (\<lambda>u. \<lparr>p_scheme = scheme u, p_authority = authority u,
                            p_path_and_query = Some (path u)\<rparr>),
      lib_from_parts = (\<lambda>p. Some \<lparr>scheme = p_scheme p, authority = p_authority p,
                          host = p_authority p, port = None, path = ''/'', query = None\<rparr>),
      lib_authority = Some, lib_path_and_query = Some,
      lib_controls = (\<lambda>c. (of_char c :: nat) < 32), lib_percent_encode = percent_encode\<rparr>"

definition sample_px :: "int proxy_lib" where
  "sample_px =
     \<lparr>px_uri = sample_uris,
      px_display = (\<lambda>u. (if scheme u = Some HTTP then ''http://'' else ''socks5://'') @ the (authority u)),
      px_decode = (\<lambda>s. s), px_b64 = rev,
      px_net_parse = (\<lambda>s. if s = ''10.0.0.0/8'' then Some 10 else None),
      px_net_contains = (\<lambda>n a. case a of V4 w \<Rightarrow> uint w div 16777216 = n | V6 _ \<Rightarrow> False)\<rparr>"

lemma sample_uris_laws: "uri_lib_laws (px_uri sample_px)"
proof -
  have hex: "''0123456789ABCDEF'' ! n \<in> set ''%0123456789ABCDEF''" if "n < 16" for n
    using that nth_mem [of n "''0123456789ABCDEF''"] by simp
  have enc: "\<not> S c" if plain: "\<forall>c \<in> set ''%0123456789ABCDEF''. \<not> S c"
    and c: "c \<in> set (percent_encode S s)" for S c s
  proof -
    have digit: "\<not> S (''0123456789ABCDEF'' ! n)" if "n < 16" for n
      using plain hex [OF that] by blast
    have "(of_char d :: nat) div 16 < 16" for d
      using nat_of_char_less_256 [of d] by (simp add: less_mult_imp_div_less)
    with c digit plain show ?thesis
      by (auto simp only: percent_encode_def set_concat set_map) (auto split: if_splits)
  qed
  show ?thesis
    unfolding uri_lib_laws_def sample_px_def sample_uris_def
    by (intro conjI allI impI ballI) (use enc in \<open>auto simp del: set_simps\<close>)
qed

lemma no_proxy_rules_witness:
  "no_proxy_contains sample_px (no_proxy_from_string sample_px ''.foo.bar, 10.0.0.0/8'') ''WWW.foo.bar''"
  by (subst no_proxy_rules) code_simp+

lemma no_proxy_samples:
  "no_proxy_contains sample_px (no_proxy_from_string sample_px ''a, 10.0.0.0/8'') ''10.2.3.4''"
  "\<not> no_proxy_contains sample_px (no_proxy_from_string sample_px ''foo.bar'') ''notfoo.bar''"
  "no_proxy_contains sample_px (no_proxy_from_string sample_px ''a,::1'') ''[::1]''"
  "\<not> no_proxy_contains sample_px (no_proxy_from_string sample_px ''*'') ''127.0.0.1''"
  by code_simp+

definition sample_builder :: matcher_builder where
  "sample_builder = mb_default\<lparr>mb_all := ''socks5://u:p@px'', mb_no := ''foo.bar''\<rparr>"

definition sample_socks :: "unit intercept" where
  "sample_socks = \<lparr>ic_uri = sample_uri (OtherScheme ''socks5'') ''px:1080'',
     ic_auth = AuthRaw ''u'' ''p'', ic_extra = \<lparr>ex_auth = None, ex_misc = Some ()\<rparr>\<rparr>"

lemma sample_parse:
  "parse_env_uri sample_px ''socks5://u:p@px'' = Some (sample_socks\<lparr>ic_extra := extra_default\<rparr>)"
  "parse_env_uri sample_px '''' = None"
  by code_simp+

lemma intercept_decision_witness:
  "mt_intercept sample_px (mb_build sample_px sample_builder (ic_extra sample_socks))
     (sample_uri HTTPS ''www.bar'') = Some (IProxy sample_socks)"
proof (subst intercept_decision)
  show "mb_unix sample_builder = None" by code_simp
  have 1: "\<not> mb_is_cgi sample_builder" by code_simp
  have 2: "host (sample_uri HTTPS ''www.bar'') = Some ''www.bar'' \<and>
     \<not> no_proxy_contains sample_px (no_proxy_from_string sample_px (mb_no sample_builder)) ''www.bar''"
    by code_simp
  have 3: "is_https (sample_uri HTTPS ''www.bar'')" by code_simp
  have 4: "mb_https sample_builder = ''''" "mb_all sample_builder = ''socks5://u:p@px''"
    by code_simp+
  show "\<not> mb_is_cgi sample_builder \<and>
    (\<exists>h. host (sample_uri HTTPS ''www.bar'') = Some h \<and>
       \<not> no_proxy_contains sample_px (no_proxy_from_string sample_px (mb_no sample_builder)) h) \<and>
    (\<exists>own j. (is_http (sample_uri HTTPS ''www.bar'') \<and> own = mb_http sample_builder \<or>
              is_https (sample_uri HTTPS ''www.bar'') \<and> own = mb_https sample_builder) \<and>
       (parse_env_uri sample_px own = Some j \<or> parse_env_uri sample_px own = (None :: unit intercept option) \<and>
          parse_env_uri sample_px (mb_all sample_builder) = Some j) \<and>
       sample_socks = j\<lparr>ic_extra := ic_extra sample_socks\<rparr>)"
    using 1 2 3 4 sample_parse by (auto intro!: exI [of _ "''''"])
qed

lemma proxy_setting_parsed_witness:
  "authority (ic_uri sample_socks) = Some ''px:1080'' \<and>
   (\<exists>a. authority (ic_uri sample_socks) = Some a \<and> CHR ''@'' \<notin> set a)"
  using proxy_setting_parsed [OF sample_uris_laws sample_parse(1)]
  by (auto simp: sample_socks_def sample_uri_def)

definition sample_proxy :: "unit proxy" where
  "sample_proxy = proxy_new (SchemeHttp (sample_uri HTTP ''px''))"

lemma explicit_proxy_auth_witness:
  "\<exists>i. mt_intercept sample_px (into_matcher sample_px
      (proxy_no_proxy (proxy_basic_auth sample_px sample_proxy ''a'' ''b'') None)) (sample_uri HTTP ''h'') =
      Some (IProxy i) \<and> ic_basic_auth i = Some (basic_auth rev ''a'' (Some ''b''))"
proof -
  have "mt_intercept sample_px (into_matcher sample_px
      (proxy_no_proxy (proxy_basic_auth sample_px sample_proxy ''a'' ''b'') None)) (sample_uri HTTP ''h'') =
      Some (IProxy \<lparr>ic_uri = sample_uri HTTP ''px'',
        ic_auth = AuthBasic (basic_auth rev ''a'' (Some ''b'')),
        ic_extra = \<lparr>ex_auth = Some (basic_auth rev ''a'' (Some ''b'')), ex_misc = None\<rparr>\<rparr>)"
    (is "?m = Some (IProxy ?i)")
    by code_simp
  then have "ic_basic_auth ?i = Some (basic_auth rev ''a'' (Some ''b''))"
    by (rule explicit_proxy_auth [of sample_proxy "proxy_basic_auth sample_px sample_proxy ''a'' ''b''"
        sample_px "''a''" "''b''" _ _ "()" None, rotated 3])
      (simp_all add: sample_proxy_def proxy_new_def sample_px_def)
  with \<open>?m = Some (IProxy ?i)\<close> show ?thesis
    by blast
qed

lemma unix_proxy_ignores_exclusions_witness:
  "mt_intercept sample_px (into_matcher sample_px
     (proxy_no_proxy (proxy_new (SchemeUnix ''/s'') :: unit proxy) (Some ''*''))) (sample_uri HTTP ''h'') =
   Some (IUnix ''/s'')"
  by (rule unix_proxy_ignores_exclusions) (simp add: proxy_unix_def)

end
