(* ===== verification/Tcp_Connect.thy ===== *)
theory Tcp_Connect
  imports Ip_Addr
begin

text \<open>
  Opening a TCP connection (\<open>src/src/conn/net/tcp.rs\<close>, \<open>src/src/conn/net.rs\<close>,
  \<open>src/src/dns.rs\<close>): the socket set-up, the sequential path, and the Happy Eyeballs race as a
  state machine polled by the runtime. The operating system's sockets, the connection
  futures and the timers are the environment: what they answer is an argument of each step.
  A Linux target is modelled.
\<close>

section \<open>Addresses and errors\<close>

datatype socket_addr = SockV4 u32 u16 | SockV6 "128 word" u16 u32 u32

fun is_ipv4 :: "socket_addr \<Rightarrow> bool" where
  "is_ipv4 (SockV4 _ _) = True"
| "is_ipv4 (SockV6 _ _ _ _) = False"

fun is_ipv6 :: "socket_addr \<Rightarrow> bool" where
  "is_ipv6 (SockV4 _ _) = False"
| "is_ipv6 (SockV6 _ _ _ _) = True"

definition try_parse_addr :: "string \<Rightarrow> u16 \<Rightarrow> socket_addr list option" where
  "try_parse_addr h p =
     (case parse_ip h of
        Some (V4 a) \<Rightarrow> Some [SockV4 a p]
      | Some (V6 a) \<Rightarrow> Some [SockV6 a p 0 0]
      | None \<Rightarrow> None)"

text \<open>The addresses bound locally decide which are tried, and otherwise the first one.\<close>

definition split_by_preference ::
    "u32 option \<Rightarrow> 128 word option \<Rightarrow> socket_addr list \<Rightarrow> socket_addr list \<times> socket_addr list" where
  "split_by_preference local4 local6 addrs =
     (case (local4, local6) of
        (Some _, None) \<Rightarrow> (filter is_ipv4 addrs, [])
      | (None, Some _) \<Rightarrow> (filter is_ipv6 addrs, [])
      | _ \<Rightarrow>
          (let v6 = (case addrs of [] \<Rightarrow> False | a # _ \<Rightarrow> is_ipv6 a)
           in partition (\<lambda>a. is_ipv6 a = v6) addrs))"

datatype 'x cause = Cause 'x | NotConnected | TimedOut

record 'x tcp_connect_error =
  ce_msg :: string
  ce_addr :: "socket_addr option"
  ce_cause :: "'x cause option"

definition ce_new :: "string \<Rightarrow> 'x cause \<Rightarrow> 'x tcp_connect_error" where
  "ce_new m c = \<lparr>ce_msg = m, ce_addr = None, ce_cause = Some c\<rparr>"

definition ce_tcp :: "'x cause \<Rightarrow> 'x tcp_connect_error" where
  "ce_tcp c = ce_new ''tcp connect error'' c"

definition network_unreachable :: "'x tcp_connect_error" where
  "network_unreachable = ce_tcp NotConnected"

definition ce_dns :: "'x cause \<Rightarrow> 'x tcp_connect_error" where
  "ce_dns c = ce_new ''dns error'' c"

definition with_addr :: "'x tcp_connect_error \<Rightarrow> socket_addr \<Rightarrow> 'x tcp_connect_error" where
  "with_addr e a = e\<lparr>ce_addr := Some a\<rparr>"

section \<open>Socket set-up\<close>

record bind_options =
  bo_interface :: "string option"
  bo_ipv4 :: "u32 option"
  bo_ipv6 :: "128 word option"

definition set_interface :: "bind_options \<Rightarrow> string \<Rightarrow> bind_options" where
  "set_interface b i = b\<lparr>bo_interface := Some i\<rparr>"

definition set_local_address :: "bind_options \<Rightarrow> ip_addr option \<Rightarrow> bind_options" where
  "set_local_address b a =
     (case a of
        Some (V4 x) \<Rightarrow> b\<lparr>bo_ipv4 := Some x\<rparr>
      | Some (V6 x) \<Rightarrow> b\<lparr>bo_ipv6 := Some x\<rparr>
      | None \<Rightarrow> b)"

definition set_local_addresses :: "bind_options \<Rightarrow> u32 option \<Rightarrow> 128 word option \<Rightarrow> bind_options" where
  "set_local_addresses b a4 a6 =
     (let b = (case a4 of Some x \<Rightarrow> b\<lparr>bo_ipv4 := Some x\<rparr> | None \<Rightarrow> b)
      in case a6 of Some x \<Rightarrow> b\<lparr>bo_ipv6 := Some x\<rparr> | None \<Rightarrow> b)"

text \<open>Durations are in milliseconds.\<close>

record keepalive_options =
  ka_time :: "u64 option"
  ka_interval :: "u64 option"
  ka_retries :: "u32 option"

definition into_tcpkeepalive :: "keepalive_options \<Rightarrow> keepalive_options option" where
  "into_tcpkeepalive k =
     (if ka_time k \<noteq> None \<or> ka_interval k \<noteq> None \<or> ka_retries k \<noteq> None then Some k else None)"

record tcp_options =
  to_enforce_http :: bool
  to_connect_timeout :: "u64 option"
  to_happy_eyeballs_timeout :: "u64 option"
  to_nodelay :: bool
  to_reuse_address :: bool
  to_linger :: "u64 option"
  to_send_buffer_size :: "u64 option"
  to_recv_buffer_size :: "u64 option"
  to_tcp_user_timeout :: "u64 option"
  to_tcp_keepalive :: keepalive_options
  to_socket_bind :: bind_options

datatype sock_op =
    OpOpen bool | OpNonblocking | OpKeepalive keepalive_options | OpBindDevice string
  | OpUserTimeout u64 | OpBind ip_addr | OpReuseAddress | OpLinger u64 | OpSendBuffer u64
  | OpRecvBuffer u64 | OpNodelay bool

text \<open>The address a socket to \<open>dst\<close> is bound to.\<close>

definition bind_local_address :: "socket_addr \<Rightarrow> u32 option \<Rightarrow> 128 word option \<Rightarrow> sock_op list" where
  "bind_local_address dst local4 local6 =
     (case dst of
        SockV4 _ _ \<Rightarrow> (case local4 of Some a \<Rightarrow> [OpBind (V4 a)] | None \<Rightarrow> [])
      | SockV6 _ _ _ _ \<Rightarrow> (case local6 of Some a \<Rightarrow> [OpBind (V6 a)] | None \<Rightarrow> []))"

definition opt_op :: "('v \<Rightarrow> sock_op) \<Rightarrow> 'v option \<Rightarrow> sock_op list" where
  "opt_op f x = (case x of Some v \<Rightarrow> [f v] | None \<Rightarrow> [])"

text \<open>
  The operations on the new socket in order: with a message where a failure ends the
  attempt, without one where it is only logged.
\<close>

definition socket_ops :: "tcp_options \<Rightarrow> socket_addr \<Rightarrow> (sock_op \<times> string option) list" where
  "socket_ops cfg addr =
     (let fatal = (\<lambda>m ops. map (\<lambda>op. (op, Some m)) ops);
          logged = map (\<lambda>op. (op, None));
          bo = to_socket_bind cfg
      in fatal ''tcp open error'' [OpOpen (is_ipv6 addr)] @
         fatal ''tcp set_nonblocking error'' [OpNonblocking] @
         logged (opt_op OpKeepalive (into_tcpkeepalive (to_tcp_keepalive cfg))) @
         fatal ''tcp bind interface error'' (opt_op OpBindDevice (bo_interface bo)) @
         logged (opt_op OpUserTimeout (to_tcp_user_timeout cfg)) @
         fatal ''tcp bind local error'' (bind_local_address addr (bo_ipv4 bo) (bo_ipv6 bo)) @
         logged (if to_reuse_address cfg then [OpReuseAddress] else []) @
         logged (opt_op OpLinger (to_linger cfg)) @
         logged (opt_op OpSendBuffer (to_send_buffer_size cfg)) @
         logged (opt_op OpRecvBuffer (to_recv_buffer_size cfg)) @
         logged [OpNodelay (to_nodelay cfg)])"

fun run_ops :: "(sock_op \<Rightarrow> 'x option) \<Rightarrow> (sock_op \<times> string option) list \<Rightarrow> 'x tcp_connect_error option" where
  "run_ops os [] = None"
| "run_ops os ((op, fatal) # ops) =
     (case (os op, fatal) of
        (Some x, Some m) \<Rightarrow> Some (ce_new m (Cause x))
      | _ \<Rightarrow> run_ops os ops)"

text \<open>\<open>connect\<close>: \<^term>\<open>None\<close> when the connection future was created.\<close>

definition connect_socket :: "(sock_op \<Rightarrow> 'x option) \<Rightarrow> tcp_options \<Rightarrow> socket_addr \<Rightarrow> 'x tcp_connect_error option" where
  "connect_socket os cfg addr = run_ops os (socket_ops cfg addr)"

section \<open>The race\<close>

definition MAX_PARALLEL_CONNECT_ATTEMPTS :: nat where
  "MAX_PARALLEL_CONNECT_ATTEMPTS = 6"

record 'x tcp_race =
  tr_preferred :: "socket_addr list"
  tr_fallback :: "socket_addr list option"
  tr_initial_delay :: "u64 option"
  tr_next_fallback :: bool
  tr_delay :: "u64 option"
  tr_attempts :: "(socket_addr \<times> nat) list"
  tr_next_order :: nat
  tr_first_error :: "(nat \<times> 'x tcp_connect_error) option"

datatype 'c tcp_event = Connected 'c | AllAttemptsFailed | DelayElapsed

text \<open>\<open>ConnectingTcp::new\<close>: the preferred addresses, and the fallback ones with their delay.\<close>

definition connecting_new :: "tcp_options \<Rightarrow> socket_addr list \<Rightarrow> socket_addr list \<times> (u64 \<times> socket_addr list) option" where
  "connecting_new cfg addrs =
     (case to_happy_eyeballs_timeout cfg of
        Some d \<Rightarrow>
          (case split_by_preference (bo_ipv4 (to_socket_bind cfg)) (bo_ipv6 (to_socket_bind cfg)) addrs of
             (p, f) \<Rightarrow> if f = [] then (p, None) else (p, Some (d, f)))
      | None \<Rightarrow> (addrs, None))"

text \<open>\<open>ConnectingTcp::connect\<close>: whether the addresses are tried one after the other.\<close>

definition is_sequential :: "tcp_options \<Rightarrow> socket_addr list \<times> (u64 \<times> socket_addr list) option \<Rightarrow> bool" where
  "is_sequential cfg c \<longleftrightarrow>
     snd c = None \<and> (to_happy_eyeballs_timeout cfg = None \<or> length (fst c) \<le> 1)"

definition race_new :: "u64 option \<Rightarrow> socket_addr list \<times> (u64 \<times> socket_addr list) option \<Rightarrow> 'x tcp_race" where
  "race_new delay c =
     \<lparr>tr_preferred = fst c, tr_fallback = map_option snd (snd c),
      tr_initial_delay = map_option fst (snd c), tr_next_fallback = False, tr_delay = delay,
      tr_attempts = [], tr_next_order = 0, tr_first_error = None\<rparr>"

definition has_fallback :: "'x tcp_race \<Rightarrow> bool" where
  "has_fallback st \<longleftrightarrow> (case tr_fallback st of Some f \<Rightarrow> f \<noteq> [] | None \<Rightarrow> False)"

definition has_remaining_addrs :: "'x tcp_race \<Rightarrow> bool" where
  "has_remaining_addrs st \<longleftrightarrow> tr_preferred st \<noteq> [] \<or> has_fallback st"

definition next_remote :: "'x tcp_race \<Rightarrow> (bool \<times> 'x tcp_race) option" where
  "next_remote st =
     (case (tr_next_fallback st, tr_preferred st \<noteq> [], has_fallback st) of
        (_, False, False) \<Rightarrow> None
      | (nf, hp, hf) \<Rightarrow>
          (let use = (nf \<and> hf \<or> \<not> hp \<and> hf)
           in Some (use, st\<lparr>tr_next_fallback := \<not> use\<rparr>)))"

text \<open>\<open>connect_next\<close>: the next address of the chosen list.\<close>

definition next_addr :: "bool \<Rightarrow> 'x tcp_race \<Rightarrow> (socket_addr \<times> 'x tcp_race) option" where
  "next_addr use_fallback st =
     (if use_fallback
      then (case tr_fallback st of
              Some (a # f) \<Rightarrow> Some (a, st\<lparr>tr_fallback := Some f\<rparr>) | _ \<Rightarrow> None)
      else (case tr_preferred st of a # p \<Rightarrow> Some (a, st\<lparr>tr_preferred := p\<rparr>) | [] \<Rightarrow> None))"

definition record_error ::
    "nat \<Rightarrow> 'x tcp_connect_error \<Rightarrow> (nat \<times> 'x tcp_connect_error) option \<Rightarrow> (nat \<times> 'x tcp_connect_error) option" where
  "record_error n e fe =
     (case fe of Some (n0, e0) \<Rightarrow> if n0 \<le> n then fe else Some (n, e) | None \<Rightarrow> Some (n, e))"

definition saturating_succ :: "nat \<Rightarrow> nat" where
  "saturating_succ n = min (n + 1) (2 ^ 64 - 1)"

definition remaining :: "'x tcp_race \<Rightarrow> nat" where
  "remaining st = length (tr_preferred st) + (case tr_fallback st of Some f \<Rightarrow> length f | None \<Rightarrow> 0)"

lemma next_addr_remaining:
  "next_addr b st = Some (a, st') \<Longrightarrow> Suc (remaining st') = remaining st"
  by (auto simp: next_addr_def remaining_def split: if_splits list.splits option.splits)

lemma next_remote_addr:
  "next_remote st = Some (b, st') \<Longrightarrow> next_addr b st' \<noteq> None \<and> remaining st' = remaining st"
  by (auto simp: next_remote_def next_addr_def has_fallback_def remaining_def Let_def
      split: if_splits list.splits option.splits bool.splits)

text \<open>
  \<open>launch_next\<close>: addresses whose socket cannot be set up are skipped. The loop over
  \<open>next_remote\<close> ends because a list it chooses has an address to take.
\<close>

function launch_next :: "(socket_addr \<Rightarrow> 'x tcp_connect_error option) \<Rightarrow> 'x tcp_race \<Rightarrow> 'x tcp_race \<times> bool" where
  "launch_next mk st =
     (case next_remote st of
        None \<Rightarrow> (st, False)
      | Some (use_fallback, st1) \<Rightarrow>
          (case next_addr use_fallback st1 of
             None \<Rightarrow> launch_next mk st1
           | Some (a, st2) \<Rightarrow>
               (let n = tr_next_order st2; st3 = st2\<lparr>tr_next_order := saturating_succ n\<rparr> in
                case mk a of
                  None \<Rightarrow>
                    (st3\<lparr>tr_initial_delay := (if n \<noteq> 0 then None else tr_initial_delay st3),
                         tr_attempts := tr_attempts st3 @ [(a, n)]\<rparr>, True)
                | Some e \<Rightarrow>
                    launch_next mk
                      (st3\<lparr>tr_first_error := record_error n (with_addr e a) (tr_first_error st3)\<rparr>))))"
  by pat_completeness auto

termination
proof (relation "measure (\<lambda>(mk, st). remaining st)", goal_cases)
  case 1
  then show ?case by simp
next
  case (2 mk st p use_fallback st1)
  then show ?case
    using next_remote_addr [of st use_fallback st1] by auto
next
  case (3 mk st p use_fallback st1 q a st2 n st3 e)
  then have "Suc (remaining st2) = remaining st"
    using next_remote_addr [of st use_fallback st1] next_addr_remaining [of use_fallback st1 a st2]
    by auto
  with 3 show ?case
    by (simp add: remaining_def)
qed

declare launch_next.simps [simp del]

text \<open>
  \<open>poll_attempts\<close>: one poll of every active attempt, oldest first. \<open>P n\<close> is what the future of
  the attempt launched as number \<open>n\<close> answers.
\<close>

type_synonym ('x, 'c) polls = "nat \<Rightarrow> ('x + 'c) poll"

fun poll_each :: "('x, 'c) polls \<Rightarrow> (socket_addr \<times> nat) list \<Rightarrow> (socket_addr \<times> nat) list \<Rightarrow>
    (nat \<times> 'x tcp_connect_error) option \<Rightarrow> bool \<Rightarrow>
    (socket_addr \<times> nat) list \<times> (nat \<times> 'x tcp_connect_error) option \<times> bool \<times> 'c option" where
  "poll_each P kept [] fe failed = (kept, fe, failed, None)"
| "poll_each P kept ((a, n) # as) fe failed =
     (case P n of
        Pending \<Rightarrow> poll_each P (kept @ [(a, n)]) as fe failed
      | Ready (Inr c) \<Rightarrow> (kept @ as, fe, failed, Some c)
      | Ready (Inl x) \<Rightarrow>
          poll_each P kept as (record_error n (with_addr (ce_tcp (Cause x)) a) fe) True)"

definition poll_attempts :: "('x, 'c) polls \<Rightarrow> 'x tcp_race \<Rightarrow> 'x tcp_race \<times> 'c tcp_event poll" where
  "poll_attempts P st =
     (case poll_each P [] (tr_attempts st) (tr_first_error st) False of
        (as, fe, failed, conn) \<Rightarrow>
          (st\<lparr>tr_attempts := as, tr_first_error := fe\<rparr>,
           case conn of
             Some c \<Rightarrow> Ready (Connected c)
           | None \<Rightarrow> if failed \<and> as = [] then Ready AllAttemptsFailed else Pending))"

definition make_room_for_next_attempt :: "'x tcp_race \<Rightarrow> 'x tcp_race" where
  "make_room_for_next_attempt st =
     (if length (tr_attempts st) < MAX_PARALLEL_CONNECT_ATTEMPTS then st
      else st\<lparr>tr_attempts := tl (tr_attempts st)\<rparr>)"

definition take_error :: "'x tcp_race \<Rightarrow> 'x tcp_connect_error \<times> 'x tcp_race" where
  "take_error st =
     (case tr_first_error st of Some (_, e) \<Rightarrow> e | None \<Rightarrow> network_unreachable,
      st\<lparr>tr_first_error := None\<rparr>)"

text \<open>
  The loop of \<open>connect_inner\<close>, cut at its await: what it waits for is the attempts and, when
  addresses remain, a timer. \<open>Finished\<close> keeps the state the loop left behind.
\<close>

datatype timer = NoTimer | InitialTimer u64 | FreshTimer u64

datatype ('x, 'c) race =
    Waiting timer "'x tcp_race"
  | Finished "'x tcp_connect_error + 'c" "'x tcp_race"

definition race_top :: "(socket_addr \<Rightarrow> 'x tcp_connect_error option) \<Rightarrow> 'x tcp_race \<Rightarrow> ('x, 'c) race" where
  "race_top mk st =
     (case (if tr_attempts st = [] then launch_next mk st else (st, True)) of
        (st, False) \<Rightarrow> (case take_error st of (e, st) \<Rightarrow> Finished (Inl e) st)
      | (st, True) \<Rightarrow>
          (case (tr_delay st, has_remaining_addrs st) of
             (Some d, True) \<Rightarrow>
               Waiting (case tr_initial_delay st of Some i \<Rightarrow> InitialTimer i | None \<Rightarrow> FreshTimer d)
                 (st\<lparr>tr_initial_delay := None\<rparr>)
           | _ \<Rightarrow> Waiting NoTimer st))"

definition on_event ::
    "(socket_addr \<Rightarrow> 'x tcp_connect_error option) \<Rightarrow> 'x tcp_race \<Rightarrow> 'c tcp_event \<Rightarrow> ('x, 'c) race" where
  "on_event mk st ev =
     (case ev of
        Connected c \<Rightarrow> Finished (Inr c) st
      | AllAttemptsFailed \<Rightarrow> race_top mk (fst (launch_next mk st))
      | DelayElapsed \<Rightarrow> race_top mk (fst (launch_next mk (make_room_for_next_attempt st))))"

text \<open>One poll of the race: the attempts first, then the timer.\<close>

fun race_poll :: "(socket_addr \<Rightarrow> 'x tcp_connect_error option) \<Rightarrow> ('x, 'c) polls \<times> bool \<Rightarrow>
    ('x, 'c) race \<Rightarrow> ('x, 'c) race" where
  "race_poll mk (P, elapsed) (Finished r st) = Finished r st"
| "race_poll mk (P, elapsed) (Waiting t st) =
     (case poll_attempts P st of
        (st', Ready ev) \<Rightarrow> on_event mk st' ev
      | (st', Pending) \<Rightarrow>
          if t \<noteq> NoTimer \<and> elapsed then on_event mk st' DelayElapsed else Waiting t st')"

definition race_run :: "(socket_addr \<Rightarrow> 'x tcp_connect_error option) \<Rightarrow> 'x tcp_race \<Rightarrow>
    (('x, 'c) polls \<times> bool) list \<Rightarrow> ('x, 'c) race" where
  "race_run mk st inputs = foldl (\<lambda>r i. race_poll mk i r) (race_top mk st) inputs"

section \<open>The sequential path and the deadline\<close>

text \<open>\<open>result a\<close> is what the connection future to \<open>a\<close> resolves to.\<close>

fun connect_seq :: "(socket_addr \<Rightarrow> 'x tcp_connect_error option) \<Rightarrow> (socket_addr \<Rightarrow> 'x + 'c) \<Rightarrow>
    socket_addr list \<Rightarrow> 'x tcp_connect_error option \<Rightarrow> 'x tcp_connect_error + 'c" where
  "connect_seq mk result [] fe = Inl (case fe of Some e \<Rightarrow> e | None \<Rightarrow> network_unreachable)"
| "connect_seq mk result (a # as) fe =
     (case (case mk a of
              Some e \<Rightarrow> Inl e
            | None \<Rightarrow> (case result a of Inl x \<Rightarrow> Inl (ce_tcp (Cause x)) | Inr c \<Rightarrow> Inr c)) of
        Inr c \<Rightarrow> Inr c
      | Inl e \<Rightarrow> connect_seq mk result as (case fe of None \<Rightarrow> Some (with_addr e a) | Some e0 \<Rightarrow> Some e0))"

text \<open>\<open>connect_with_timeout\<close>, one poll: the connection before the timer.\<close>

definition connect_with_timeout ::
    "bool option \<Rightarrow> ('x tcp_connect_error + 'c) poll \<Rightarrow> ('x tcp_connect_error + 'c) poll" where
  "connect_with_timeout timeout connecting =
     (case timeout of
        None \<Rightarrow> connecting
      | Some elapsed \<Rightarrow>
          (case connecting of
             Ready r \<Rightarrow> Ready r
           | Pending \<Rightarrow> if elapsed then Ready (Inl (ce_tcp TimedOut)) else Pending))"

section \<open>The order of the attempts\<close>

fun interleave :: "bool \<Rightarrow> 'a list \<Rightarrow> 'a list \<Rightarrow> 'a list" where
  "interleave nf [] [] = []"
| "interleave nf (x # p) [] = x # p"
| "interleave nf [] (y # f) = y # f"
| "interleave False (x # p) (y # f) = x # interleave True p (y # f)"
| "interleave True (x # p) (y # f) = y # interleave False (x # p) f"

lemma interleave_Nil [simp]: "interleave nf p [] = p" "interleave nf [] f = f"
  by (cases p; simp) (cases f; simp)

lemma interleave_mset: "mset (interleave nf p f) = mset p + mset f"
  by (induction nf p f rule: interleave.induct) auto

lemma interleave_length: "length (interleave nf p f) = length p + length f"
  by (metis interleave_mset size_mset size_union)

definition fallback_list :: "'x tcp_race \<Rightarrow> socket_addr list" where
  "fallback_list st = (case tr_fallback st of Some f \<Rightarrow> f | None \<Rightarrow> [])"

text \<open>The addresses still to be tried, in order.\<close>

definition to_try :: "'x tcp_race \<Rightarrow> socket_addr list" where
  "to_try st = interleave (tr_next_fallback st) (tr_preferred st) (fallback_list st)"

lemma to_try_length: "length (to_try st) = remaining st"
  by (simp add: to_try_def interleave_length remaining_def fallback_list_def split: option.splits)

lemma has_remaining_to_try: "has_remaining_addrs st \<longleftrightarrow> to_try st \<noteq> []"
proof -
  have "has_remaining_addrs st \<longleftrightarrow> 0 < remaining st"
    by (auto simp: has_remaining_addrs_def has_fallback_def remaining_def split: option.splits)
  then show ?thesis
    by (simp flip: to_try_length)
qed

lemma to_try_cong:
  "tr_next_fallback st = tr_next_fallback st' \<Longrightarrow> tr_preferred st = tr_preferred st' \<Longrightarrow>
   tr_fallback st = tr_fallback st' \<Longrightarrow> to_try st = to_try st'"
  by (simp add: to_try_def fallback_list_def)

lemma next_remote_None: "next_remote st = None \<Longrightarrow> to_try st = []"
proof -
  assume "next_remote st = None"
  then have "\<not> has_remaining_addrs st"
    by (auto simp: next_remote_def has_remaining_addrs_def Let_def split: bool.splits)
  then show ?thesis
    by (simp add: has_remaining_to_try)
qed

lemma next_remote_choice:
  assumes "next_remote st = Some (b, st1)"
  shows "st1 = st\<lparr>tr_next_fallback := \<not> b\<rparr>"
    and "b \<longleftrightarrow> has_fallback st \<and> (tr_next_fallback st \<or> tr_preferred st = [])"
  using assms by (auto simp: next_remote_def Let_def split: bool.splits)

lemma interleave_step:
  "nf \<or> p = [] \<Longrightarrow> interleave nf p (y # f) = y # interleave False p f"
  "\<not> nf \<or> f = [] \<Longrightarrow> interleave nf (x # p) f = x # interleave True p f"
  by (cases nf; cases p; simp) (cases nf; cases f; simp)

lemma next_pick:
  assumes "next_remote st = Some (b, st1)" and "next_addr b st1 = Some (a, st2)"
  shows "to_try st = a # to_try st2"
    and "st2 = st\<lparr>tr_next_fallback := tr_next_fallback st2, tr_preferred := tr_preferred st2,
              tr_fallback := tr_fallback st2\<rparr>"
proof -
  note st1 = next_remote_choice [OF assms(1)]
  have "to_try st = a # to_try st2 \<and> st2 = st\<lparr>tr_next_fallback := tr_next_fallback st2,
      tr_preferred := tr_preferred st2, tr_fallback := tr_fallback st2\<rparr>"
  proof (cases b)
    case True
    with assms(2) st1 obtain f where "tr_fallback st = Some (a # f)"
      and "st2 = st\<lparr>tr_next_fallback := False, tr_fallback := Some f\<rparr>"
      by (auto simp: next_addr_def split: list.splits option.splits)
    with st1 True show ?thesis
      by (simp add: to_try_def fallback_list_def interleave_step)
  next
    case False
    with assms(2) st1 obtain p where p: "tr_preferred st = a # p"
      and st2: "st2 = st\<lparr>tr_next_fallback := True, tr_preferred := p\<rparr>"
      by (auto simp: next_addr_def split: list.splits)
    have "\<not> tr_next_fallback st \<or> fallback_list st = []"
      using st1(2) False p by (auto simp: has_fallback_def fallback_list_def split: option.splits)
    then show ?thesis
      by (simp add: to_try_def fallback_list_def p st2 interleave_step split: option.splits)
  qed
  then show "to_try st = a # to_try st2" and "st2 = st\<lparr>tr_next_fallback := tr_next_fallback st2,
      tr_preferred := tr_preferred st2, tr_fallback := tr_fallback st2\<rparr>"
    by simp_all
qed

section \<open>The invariant of the race\<close>

text \<open>
  \<open>L\<close> is the order in which the addresses are to be tried. The attempts in flight are a
  few of the addresses launched so far, oldest first, and the error kept is that of one of
  them.
\<close>

definition attempts_ok :: "socket_addr list \<Rightarrow> nat \<Rightarrow> (socket_addr \<times> nat) list \<Rightarrow> bool" where
  "attempts_ok L m as \<longleftrightarrow>
     sorted_wrt (<) (map snd as) \<and> (\<forall>(a, n) \<in> set as. n < m \<and> L ! n = a) \<and>
     length as \<le> MAX_PARALLEL_CONNECT_ATTEMPTS"

definition error_ok :: "socket_addr list \<Rightarrow> nat \<Rightarrow> (nat \<times> 'x tcp_connect_error) option \<Rightarrow> bool" where
  "error_ok L m fe \<longleftrightarrow> (case fe of Some (n, e) \<Rightarrow> n < m \<and> ce_addr e = Some (L ! n) | None \<Rightarrow> True)"

definition race_inv :: "socket_addr list \<Rightarrow> 'x tcp_race \<Rightarrow> bool" where
  "race_inv L st \<longleftrightarrow>
     length L < 2 ^ 64 \<and> tr_next_order st \<le> length L \<and> to_try st = drop (tr_next_order st) L \<and>
     attempts_ok L (tr_next_order st) (tr_attempts st) \<and>
     error_ok L (tr_next_order st) (tr_first_error st)"

lemma error_ok_record:
  "error_ok L m fe \<Longrightarrow> n < m \<Longrightarrow> error_ok L m (record_error n (with_addr e (L ! n)) fe)"
  by (auto simp: error_ok_def record_error_def with_addr_def split: option.splits)

lemma error_ok_mono: "error_ok L m fe \<Longrightarrow> m \<le> m' \<Longrightarrow> error_ok L m' fe"
  by (auto simp: error_ok_def split: option.splits)

lemma attempts_ok_mono: "attempts_ok L m as \<Longrightarrow> m \<le> m' \<Longrightarrow> attempts_ok L m' as"
  by (fastforce simp: attempts_ok_def)

lemma attempts_ok_snoc:
  assumes "attempts_ok L m as" and "length as < MAX_PARALLEL_CONNECT_ATTEMPTS"
  shows "attempts_ok L (Suc m) (as @ [(L ! m, m)])"
  using assms by (fastforce simp: attempts_ok_def sorted_wrt_append)

lemma attempts_ok_Cons: "attempts_ok L m (a # as) \<Longrightarrow> attempts_ok L m as"
  by (auto simp: attempts_ok_def)

lemma attempts_ok_remove: "attempts_ok L m (xs @ a # ys) \<Longrightarrow> attempts_ok L m (xs @ ys)"
  by (auto simp: attempts_ok_def sorted_wrt_append)

text \<open>Taking the next address advances the launch count by one.\<close>

lemma take_next_inv:
  assumes inv: "race_inv L st"
    and "next_remote st = Some (b, st1)" "next_addr b st1 = Some (a, st2)"
  shows "tr_next_order st < length L" "a = L ! tr_next_order st"
    "tr_next_order st2 = tr_next_order st" "tr_attempts st2 = tr_attempts st"
    "tr_first_error st2 = tr_first_error st" "tr_delay st2 = tr_delay st"
    "to_try st2 = drop (Suc (tr_next_order st)) L"
    "saturating_succ (tr_next_order st) = Suc (tr_next_order st)"
proof -
  note pick = next_pick [OF assms(2,3)]
  have "drop (tr_next_order st) L = a # to_try st2"
    using inv pick(1) by (simp add: race_inv_def)
  then have "tr_next_order st < length L \<and> a = L ! tr_next_order st \<and>
      to_try st2 = drop (Suc (tr_next_order st)) L"
    by (metis Cons_nth_drop_Suc drop_all list.distinct(1) list.inject not_less)
  moreover have "tr_next_order st2 = tr_next_order st \<and> tr_attempts st2 = tr_attempts st \<and>
      tr_first_error st2 = tr_first_error st \<and> tr_delay st2 = tr_delay st"
    by (subst (1 2 3 4) pick(2)) simp
  moreover have "length L < 2 ^ 64"
    using inv by (simp add: race_inv_def)
  ultimately show "tr_next_order st < length L" "a = L ! tr_next_order st"
    "tr_next_order st2 = tr_next_order st" "tr_attempts st2 = tr_attempts st"
    "tr_first_error st2 = tr_first_error st" "tr_delay st2 = tr_delay st"
    "to_try st2 = drop (Suc (tr_next_order st)) L"
    "saturating_succ (tr_next_order st) = Suc (tr_next_order st)"
    by (auto simp: saturating_succ_def)
qed

lemma launch_next_inv:
  assumes "race_inv L st" and "length (tr_attempts st) < MAX_PARALLEL_CONNECT_ATTEMPTS"
    and "launch_next mk st = (st', ok)"
  shows "race_inv L st' \<and> tr_delay st' = tr_delay st \<and>
    (if ok then (\<exists>a n. tr_attempts st' = tr_attempts st @ [(a, n)]) \<and>
                tr_next_order st < tr_next_order st'
     else tr_attempts st' = tr_attempts st \<and> tr_next_order st' = length L)"
  using assms
proof (induction mk st rule: launch_next.induct)
  case (1 mk st)
  show ?case
  proof (cases "next_remote st")
    case None
    with 1(5) have "st' = st" "\<not> ok"
      by (simp_all add: launch_next.simps [of mk st])
    moreover have "tr_next_order st = length L"
      using next_remote_None [OF None] 1(3) by (simp add: race_inv_def)
    ultimately show ?thesis
      using 1(3) by simp
  next
    case (Some p)
    then obtain b st1 where nr: "next_remote st = Some (b, st1)"
      by (cases p) auto
    then obtain a st2 where na: "next_addr b st1 = Some (a, st2)"
      using next_remote_addr by fastforce
    note tk = take_next_inv [OF 1(3) nr na]
    let ?n = "tr_next_order st"
    show ?thesis
    proof (cases "mk a")
      case None
      with nr na 1(5) have st': "ok" "st' = st2\<lparr>tr_next_order := saturating_succ (tr_next_order st2),
          tr_initial_delay := (if tr_next_order st2 \<noteq> 0 then None else tr_initial_delay st2),
          tr_attempts := tr_attempts st2 @ [(a, tr_next_order st2)]\<rparr>"
        by (auto simp: launch_next.simps [of mk st] Let_def)
      have "to_try st' = to_try st2"
        by (rule to_try_cong) (simp_all add: st')
      then have "race_inv L st'"
        using 1(3,4) tk attempts_ok_snoc [of L ?n "tr_attempts st"] error_ok_mono [of L ?n "tr_first_error st" "Suc ?n"]
        by (simp add: race_inv_def st')
      then show ?thesis
        using tk by (simp add: st')
    next
      case (Some e)
      let ?st3 = "st2\<lparr>tr_next_order := saturating_succ (tr_next_order st2)\<rparr>"
      let ?st4 = "?st3\<lparr>tr_first_error := record_error ?n (with_addr e a) (tr_first_error ?st3)\<rparr>"
      have "to_try ?st4 = to_try st2"
        by (rule to_try_cong) simp_all
      then have inv4: "race_inv L ?st4"
        using 1(3) tk attempts_ok_mono [of L ?n _ "Suc ?n"] error_ok_mono [of L ?n "tr_first_error st" "Suc ?n"]
          error_ok_record [of L "Suc ?n" "tr_first_error st" ?n]
        by (simp add: race_inv_def)
      have "launch_next mk ?st4 = (st', ok)"
        using nr na Some tk(3) 1(5) by (simp add: launch_next.simps [of mk st] Let_def)
      from 1(2) [OF nr refl na refl refl refl Some] inv4 1(4) this tk show ?thesis
        by (simp split: if_splits)
    qed
  qed
qed

lemma poll_each_ok:
  assumes "attempts_ok L m (kept @ as)" and "error_ok L m fe"
    and "poll_each P kept as fe failed = (kept', fe', failed', conn)"
  shows "attempts_ok L m kept' \<and> error_ok L m fe'"
  using assms
proof (induction P kept as fe failed rule: poll_each.induct)
  case (2 P kept a n as fe failed)
  have n: "n < m" "L ! n = a"
    using 2(3) by (auto simp: attempts_ok_def)
  show ?case
  proof (cases "P n")
    case Pending
    with 2(1) [OF Pending] 2(3-5) show ?thesis by simp
  next
    case (Ready r)
    show ?thesis
    proof (cases r)
      case (Inl x)
      have "error_ok L m (record_error n (with_addr (ce_tcp (Cause x)) a) fe)"
        using error_ok_record [OF 2(4) n(1)] n(2) by simp
      with 2(2) [OF Ready Inl] 2(3,5) Ready Inl show ?thesis
        by (auto dest: attempts_ok_remove)
    next
      case (Inr c)
      with Ready 2(3-5) show ?thesis
        by (auto dest: attempts_ok_remove)
    qed
  qed
qed simp

lemma poll_each_failed:
  "poll_each P kept as fe failed = (kept', fe', failed', conn) \<Longrightarrow> failed \<Longrightarrow> failed'"
  by (induction P kept as fe failed rule: poll_each.induct) (auto split: poll.splits sum.splits)

lemma poll_each_length:
  "poll_each P kept as fe failed = (kept', fe', failed', conn) \<Longrightarrow>
   length kept' \<le> length kept + length as"
  by (induction P kept as fe failed rule: poll_each.induct) (auto split: poll.splits sum.splits)

lemma poll_each_progress:
  "poll_each P kept as fe failed = (kept', fe', failed', None) \<Longrightarrow>
   (a, n) \<in> set as \<Longrightarrow> P n \<noteq> Pending \<Longrightarrow> failed' \<and> length kept' < length kept + length as"
proof (induction P kept as fe failed rule: poll_each.induct)
  case (2 P kept a' n' as fe failed)
  show ?case
  proof (cases "P n'")
    case Pending
    with 2(1) [OF Pending] 2(3-5) show ?thesis by auto
  next
    case (Ready r)
    with 2(3) obtain x where r: "r = Inl x"
      by (cases r) auto
    with Ready 2(3) poll_each_failed poll_each_length show ?thesis
      by fastforce
  qed
qed simp

text \<open>A connection is returned exactly when some attempt succeeded: the oldest that did.\<close>

lemma poll_each_conn:
  assumes "poll_each P kept as fe failed = (kept', fe', failed', conn)"
  shows "conn = (case filter (\<lambda>(a, n). \<exists>c. P n = Ready (Inr c)) as of
      [] \<Rightarrow> None
    | (a, n) # _ \<Rightarrow> (case P n of Ready (Inr c) \<Rightarrow> Some c | _ \<Rightarrow> None))"
  using assms
  by (induction P kept as fe failed rule: poll_each.induct)
    (auto split: poll.splits sum.splits)

definition race_ok :: "socket_addr list \<Rightarrow> ('x, 'c) race \<Rightarrow> bool" where
  "race_ok L r \<longleftrightarrow>
     (case r of
        Waiting t st \<Rightarrow> race_inv L st \<and> tr_delay st \<noteq> None \<and> tr_attempts st \<noteq> [] \<and>
          (t = NoTimer \<longleftrightarrow> to_try st = [])
      | Finished res st \<Rightarrow> race_inv L st \<and>
          (\<forall>e. res = Inl e \<longrightarrow> tr_attempts st = [] \<and> tr_next_order st = length L \<and>
             (e = network_unreachable \<or> (\<exists>a \<in> set L. ce_addr e = Some a))))"

lemma race_inv_take_error:
  assumes "race_inv L st" and "take_error st = (e, st')"
  shows "race_inv L st'" "tr_attempts st' = tr_attempts st" "tr_next_order st' = tr_next_order st"
    "e = network_unreachable \<or> (\<exists>a \<in> set L. ce_addr e = Some a)"
proof -
  have st': "st' = st\<lparr>tr_first_error := None\<rparr>"
    and e: "e = (case tr_first_error st of Some (_, e) \<Rightarrow> e | None \<Rightarrow> network_unreachable)"
    using assms(2) by (simp_all add: take_error_def)
  have "to_try st' = to_try st"
    by (rule to_try_cong) (simp_all add: st')
  then show "race_inv L st'" "tr_attempts st' = tr_attempts st" "tr_next_order st' = tr_next_order st"
    using assms(1) by (simp_all add: race_inv_def st' error_ok_def)
  show "e = network_unreachable \<or> (\<exists>a \<in> set L. ce_addr e = Some a)"
    using assms(1) by (auto simp: e race_inv_def error_ok_def split: option.splits)
qed

lemma race_inv_delay: "race_inv L (st\<lparr>tr_initial_delay := d\<rparr>) = race_inv L st"
  by (simp add: race_inv_def to_try_def fallback_list_def)

lemma MAX_pos: "0 < MAX_PARALLEL_CONNECT_ATTEMPTS"
  by (simp add: MAX_PARALLEL_CONNECT_ATTEMPTS_def)

lemma race_top_ok:
  assumes "race_inv L st" and "tr_delay st \<noteq> None"
  shows "race_ok L (race_top mk st)"
proof -
  obtain st1 ok where l: "(if tr_attempts st = [] then launch_next mk st else (st, True)) = (st1, ok)"
    by fastforce
  have inv: "race_inv L st1" "tr_delay st1 \<noteq> None" and
    ok: "if ok then tr_attempts st1 \<noteq> [] else tr_attempts st1 = [] \<and> tr_next_order st1 = length L"
    using assms l launch_next_inv [OF assms(1), of mk st1 ok] MAX_pos
    by (auto split: if_splits)
  show ?thesis
  proof (cases ok)
    case False
    obtain e st2 where te: "take_error st1 = (e, st2)"
      by fastforce
    with False race_inv_take_error [OF inv(1) te] ok show ?thesis
      by (simp add: race_top_def l race_ok_def)
  next
    case True
    have same: "to_try (st1\<lparr>tr_initial_delay := None\<rparr>) = to_try st1"
      by (rule to_try_cong) simp_all
    show ?thesis
      using True inv ok by (cases "to_try st1 = []")
        (auto simp: race_top_def l race_ok_def race_inv_delay has_remaining_to_try same
          split: option.splits)
  qed
qed

lemma make_room_inv:
  assumes "race_inv L st"
  shows "race_inv L (make_room_for_next_attempt st)"
    and "length (tr_attempts (make_room_for_next_attempt st)) < MAX_PARALLEL_CONNECT_ATTEMPTS"
    and "tr_delay (make_room_for_next_attempt st) = tr_delay st"
    and "tr_next_order (make_room_for_next_attempt st) = tr_next_order st"
    and "length (tr_attempts (make_room_for_next_attempt st)) \<le> length (tr_attempts st)"
  using assms MAX_pos
  by (cases "tr_attempts st";
      auto simp: make_room_for_next_attempt_def race_inv_def attempts_ok_def to_try_def fallback_list_def)+

lemma on_event_ok:
  assumes "race_inv L st" and "tr_delay st \<noteq> None"
    and "ev = AllAttemptsFailed \<Longrightarrow> tr_attempts st = []"
  shows "race_ok L (on_event mk st ev)"
proof (cases ev)
  case (Connected c)
  with assms show ?thesis
    by (simp add: on_event_def race_ok_def)
next
  case AllAttemptsFailed
  obtain st1 ok where l: "launch_next mk st = (st1, ok)"
    by fastforce
  have "race_inv L st1" "tr_delay st1 = tr_delay st"
    using launch_next_inv [OF assms(1) _ l] assms(3) [OF AllAttemptsFailed] MAX_pos by simp_all
  with assms(2) AllAttemptsFailed l show ?thesis
    by (simp add: on_event_def race_top_ok)
next
  case DelayElapsed
  obtain st1 ok where l: "launch_next mk (make_room_for_next_attempt st) = (st1, ok)"
    by fastforce
  have "race_inv L st1" "tr_delay st1 = tr_delay st"
    using launch_next_inv [OF make_room_inv(1,2) [OF assms(1)] l] make_room_inv(3) [OF assms(1)]
    by simp_all
  with assms(2) DelayElapsed l show ?thesis
    by (simp add: on_event_def race_top_ok)
qed

lemma race_inv_polled:
  assumes "race_inv L st" and "poll_attempts P st = (st', res)"
  shows "race_inv L st'" "tr_delay st' = tr_delay st" "tr_next_order st' = tr_next_order st"
    "to_try st' = to_try st" "length (tr_attempts st') \<le> length (tr_attempts st)"
    "res = Ready AllAttemptsFailed \<Longrightarrow> tr_attempts st' = []"
    "res = Pending \<Longrightarrow> tr_attempts st \<noteq> [] \<Longrightarrow> tr_attempts st' \<noteq> []"
    "res \<noteq> Ready DelayElapsed"
    "\<forall>c. res \<noteq> Ready (Connected c) \<Longrightarrow> (a, n) \<in> set (tr_attempts st) \<Longrightarrow> P n \<noteq> Pending \<Longrightarrow>
       length (tr_attempts st') < length (tr_attempts st)"
proof -
  obtain as fe failed conn where p:
    "poll_each P [] (tr_attempts st) (tr_first_error st) False = (as, fe, failed, conn)"
    by (metis prod_cases4)
  have st': "st' = st\<lparr>tr_attempts := as, tr_first_error := fe\<rparr>" and
    res: "res = (case conn of Some c \<Rightarrow> Ready (Connected c)
        | None \<Rightarrow> if failed \<and> as = [] then Ready AllAttemptsFailed else Pending)"
    using assms(2) by (auto simp: poll_attempts_def p)
  show same: "to_try st' = to_try st"
    unfolding st' by (rule to_try_cong) simp_all
  show "race_inv L st'" "tr_delay st' = tr_delay st" "tr_next_order st' = tr_next_order st"
    using assms(1) poll_each_ok [OF _ _ p, of L "tr_next_order st"] same
    by (auto simp: race_inv_def st')
  show "length (tr_attempts st') \<le> length (tr_attempts st)"
    using poll_each_length [OF p] by (simp add: st')
  show "res = Ready AllAttemptsFailed \<Longrightarrow> tr_attempts st' = []" "res \<noteq> Ready DelayElapsed"
    by (auto simp: res st' split: option.splits if_splits)
  have none: "tr_attempts st = [] \<or> P (snd (hd (tr_attempts st))) = Pending \<or> failed"
    if "conn = None"
    using poll_each_progress [of P "[]" "tr_attempts st" "tr_first_error st" False as fe failed
        "fst (hd (tr_attempts st))" "snd (hd (tr_attempts st))"] p that
    by (cases "tr_attempts st") auto
  have keep: "as \<noteq> []" if "kept \<noteq> []" "poll_each P kept xs e f = (as, e', f', None)" for kept xs e f e' f'
    using that by (induction P kept xs e f rule: poll_each.induct) (auto split: poll.splits sum.splits)
  show "tr_attempts st' \<noteq> []" if pend: "res = Pending" and ne: "tr_attempts st \<noteq> []"
  proof -
    from pend have c: "conn = None" and "\<not> (failed \<and> as = [])"
      by (auto simp: res split: option.splits if_splits)
    moreover obtain a0 n0 r where "tr_attempts st = (a0, n0) # r"
      using ne by (metis neq_Nil_conv surj_pair)
    ultimately show ?thesis
      using none p keep [of "[(a0, n0)]" r] by (auto simp: st')
  qed
  show "length (tr_attempts st') < length (tr_attempts st)"
    if "\<forall>c. res \<noteq> Ready (Connected c)" "(a, n) \<in> set (tr_attempts st)" "P n \<noteq> Pending"
  proof -
    from that(1) have "conn = None"
      by (auto simp: res split: option.splits)
    with p show ?thesis
      using poll_each_progress [of P "[]" "tr_attempts st" "tr_first_error st" False as fe failed a n]
        that(2,3)
      by (simp add: st')
  qed
qed

lemma race_poll_ok:
  fixes r :: "('x, 'c) race"
  assumes "race_ok L r"
  shows "race_ok L (race_poll mk (P, elapsed) r)"
proof (cases r)
  case (Waiting t st)
  with assms have inv: "race_inv L st" "tr_delay st \<noteq> None" "tr_attempts st \<noteq> []"
    and t: "t = NoTimer \<longleftrightarrow> to_try st = []"
    by (auto simp: race_ok_def)
  obtain st' res where p: "poll_attempts P st = (st', res)"
    by fastforce
  note q = race_inv_polled [OF inv(1) p]
  show ?thesis
  proof (cases res)
    case (Ready ev)
    then show ?thesis
      using on_event_ok [OF q(1), of ev mk] q(2,6) inv(2) by (simp add: Waiting p)
  next
    case Pending
    have d: "race_ok L (on_event mk st' DelayElapsed :: ('x, 'c) race)"
      using on_event_ok [OF q(1), of DelayElapsed mk] q(2) inv(2) by simp
    have w: "race_ok L (Waiting t st' :: ('x, 'c) race)"
      using q(1,2,4,7) inv t Pending by (simp add: race_ok_def)
    show ?thesis
      using d w by (simp add: Waiting p Pending)
  qed
qed (use assms in simp)

lemma race_run_ok:
  assumes "race_inv L st" and "tr_delay st \<noteq> None"
  shows "race_ok L (race_run mk st inputs)"
proof -
  have steps: "race_ok L (foldl (\<lambda>r i. race_poll mk i r) r inputs)" if "race_ok L r" for r
    using that
  proof (induction inputs arbitrary: r)
    case (Cons i inputs)
    then show ?case
      using race_poll_ok [of L r mk "fst i" "snd i"] by simp
  qed simp
  then show ?thesis
    unfolding race_run_def by (intro steps race_top_ok assms)
qed

section \<open>The race ends\<close>

definition race_measure :: "socket_addr list \<Rightarrow> 'x tcp_race \<Rightarrow> nat" where
  "race_measure L st = 2 * (length L - tr_next_order st) + length (tr_attempts st)"

lemma launch_next_measure:
  assumes "race_inv L st" and "length (tr_attempts st) < MAX_PARALLEL_CONNECT_ATTEMPTS"
    and "launch_next mk st = (st', ok)"
  shows "race_measure L st' \<le> race_measure L st"
    and "to_try st \<noteq> [] \<Longrightarrow> race_measure L st' < race_measure L st"
    and "ok \<Longrightarrow> race_measure L st' < race_measure L st"
  using launch_next_inv [OF assms] assms(1)
  by (auto simp: race_measure_def race_inv_def split: if_splits)

lemma race_top_measure:
  assumes "race_inv L st" and "race_top mk st = Waiting t st'"
  shows "race_measure L st' \<le> race_measure L st"
    and "tr_attempts st = [] \<Longrightarrow> race_measure L st' < race_measure L st"
proof -
  obtain st1 ok where l: "(if tr_attempts st = [] then launch_next mk st else (st, True)) = (st1, ok)"
    by fastforce
  have "ok" and st': "st' = st1 \<or> st' = st1\<lparr>tr_initial_delay := None\<rparr>"
    using assms(2) by (auto simp: race_top_def l split: bool.splits option.splits prod.splits)
  then have "race_measure L st' = race_measure L st1"
    by (auto simp: race_measure_def)
  then show "race_measure L st' \<le> race_measure L st"
    and "tr_attempts st = [] \<Longrightarrow> race_measure L st' < race_measure L st"
    using launch_next_measure(1,3) [OF assms(1), of mk st1 ok] l MAX_pos \<open>ok\<close>
    by (auto split: if_splits)
qed

lemma make_room_measure:
  "race_measure L (make_room_for_next_attempt st) \<le> race_measure L st"
  by (simp add: race_measure_def make_room_for_next_attempt_def)

lemma on_event_measure:
  fixes ev :: "'c tcp_event" and st st' :: "'x tcp_race"
  assumes inv: "race_inv L st" and w: "on_event mk st ev = Waiting t st'"
    and "ev = AllAttemptsFailed \<Longrightarrow> tr_attempts st = []"
  shows "race_measure L st' \<le> race_measure L st"
    and "ev = DelayElapsed \<Longrightarrow> to_try st \<noteq> [] \<Longrightarrow> race_measure L st' < race_measure L st"
proof -
  have step: "race_measure L st' \<le> race_measure L s0 \<and>
      (to_try s0 \<noteq> [] \<longrightarrow> race_measure L st' < race_measure L s0)"
    if "race_inv L s0" "length (tr_attempts s0) < MAX_PARALLEL_CONNECT_ATTEMPTS"
      "race_top mk (fst (launch_next mk s0)) = (Waiting t st' :: ('x, 'c) race)" for s0
  proof -
    obtain s1 ok where l: "launch_next mk s0 = (s1, ok)"
      by fastforce
    with that launch_next_inv [OF that(1,2) l] race_top_measure(1) [of L s1 mk t st']
      launch_next_measure(1,2) [OF that(1,2) l]
    show ?thesis by fastforce
  qed
  have room: "to_try (make_room_for_next_attempt st) = to_try st"
    by (rule to_try_cong) (simp_all add: make_room_for_next_attempt_def)
  show "race_measure L st' \<le> race_measure L st"
    using w step [OF inv] step [OF make_room_inv(1,2) [OF inv]] make_room_measure [of L st] assms(3)
      MAX_pos
    by (cases ev) (auto simp: on_event_def)
  show "race_measure L st' < race_measure L st" if "ev = DelayElapsed" "to_try st \<noteq> []"
    using w step [OF make_room_inv(1,2) [OF inv]] make_room_measure [of L st] that room
    by (auto simp: on_event_def)
qed

text \<open>A poll makes progress when an attempt has completed, or the timer it waits for has fired.\<close>

fun progresses :: "('x, 'c) polls \<times> bool \<Rightarrow> ('x, 'c) race \<Rightarrow> bool" where
  "progresses i (Finished res st) = True"
| "progresses (P, elapsed) (Waiting t st) =
     ((\<exists>(a, n) \<in> set (tr_attempts st). P n \<noteq> Pending) \<or> t \<noteq> NoTimer \<and> elapsed)"

fun all_progress :: "(socket_addr \<Rightarrow> 'x tcp_connect_error option) \<Rightarrow> ('x, 'c) race \<Rightarrow>
    (('x, 'c) polls \<times> bool) list \<Rightarrow> bool" where
  "all_progress mk r [] = True"
| "all_progress mk r (i # is') = (progresses i r \<and> all_progress mk (race_poll mk i r) is')"

lemma race_poll_measure:
  fixes P :: "('x, 'c) polls"
  assumes ok: "race_ok L (Waiting t st :: ('x, 'c) race)" and pr: "progresses (P, elapsed) (Waiting t st)"
    and w: "race_poll mk (P, elapsed) (Waiting t st) = Waiting t' st'"
  shows "race_measure L st' < race_measure L st"
proof -
  have inv: "race_inv L st" and t: "t = NoTimer \<longleftrightarrow> to_try st = []"
    using ok by (auto simp: race_ok_def)
  obtain s1 res where p: "poll_attempts P st = (s1, res)"
    by fastforce
  note q = race_inv_polled [OF inv p]
  have le: "race_measure L s1 \<le> race_measure L st"
    using q(3,5) by (simp add: race_measure_def)
  have less: "race_measure L s1 < race_measure L st"
    if "\<forall>c. res \<noteq> Ready (Connected c)" "(a, n) \<in> set (tr_attempts st)" "P n \<noteq> Pending" for a n
    using q(3) q(9) [OF that] by (simp add: race_measure_def)
  show ?thesis
  proof (cases res)
    case (Ready ev)
    then have ev: "ev = AllAttemptsFailed" and w': "on_event mk s1 ev = Waiting t' st'"
      using w q(8) by (cases ev; simp add: p on_event_def)+
    have "tr_attempts st \<noteq> []"
      using ok by (simp add: race_ok_def)
    then have "race_measure L s1 < race_measure L st"
      using q(3,6) Ready ev by (cases "tr_attempts st") (simp_all add: race_measure_def)
    with on_event_measure(1) [OF q(1) w'] q(6) Ready ev show ?thesis
      by simp
  next
    case Pending
    show ?thesis
    proof (cases "t \<noteq> NoTimer \<and> elapsed")
      case True
      then have "on_event mk s1 (DelayElapsed :: 'c tcp_event) = Waiting t' st'"
        using w by (simp add: p Pending)
      from on_event_measure(2) [OF q(1) this] le True t q(4) show ?thesis
        by simp
    next
      case False
      with w have "st' = s1"
        by (auto simp: p Pending split: if_splits)
      moreover from False pr obtain a n where "(a, n) \<in> set (tr_attempts st)" "P n \<noteq> Pending"
        by auto
      ultimately show ?thesis
        using less Pending by simp
    qed
  qed
qed

section \<open>Properties\<close>

text \<open>The order in which a configuration tries the resolved addresses.\<close>

definition attempt_order :: "tcp_options \<Rightarrow> socket_addr list \<Rightarrow> socket_addr list" where
  "attempt_order cfg addrs =
     (case split_by_preference (bo_ipv4 (to_socket_bind cfg)) (bo_ipv6 (to_socket_bind cfg)) addrs of
        (p, f) \<Rightarrow> interleave False p f)"

abbreviation start_race :: "tcp_options \<Rightarrow> socket_addr list \<Rightarrow> 'x tcp_race" where
  "start_race cfg addrs \<equiv> race_new (to_happy_eyeballs_timeout cfg) (connecting_new cfg addrs)"

lemma split_length:
  "split_by_preference a b addrs = (p, f) \<Longrightarrow> length p + length f \<le> length addrs"
proof -
  have "length (filter P addrs) + length (filter (Not \<circ> P) addrs) = length addrs" for P
    using sum_length_filter_compl [of P addrs] by (simp add: o_def)
  then show "split_by_preference a b addrs = (p, f) \<Longrightarrow> length p + length f \<le> length addrs"
    by (auto simp: split_by_preference_def Let_def partition_filter_conv simp del: o_apply comp_apply
        split: option.splits)
qed

lemma start_race_inv:
  fixes cfg addrs
  assumes "to_happy_eyeballs_timeout cfg = Some d" and "length addrs < 2 ^ 64"
  shows "race_inv (attempt_order cfg addrs) (start_race cfg addrs :: 'x tcp_race)"
    "tr_delay (start_race cfg addrs :: 'x tcp_race) \<noteq> None"
    "race_measure (attempt_order cfg addrs) (start_race cfg addrs :: 'x tcp_race) =
       2 * length (attempt_order cfg addrs)"
    "tr_attempts (start_race cfg addrs :: 'x tcp_race) = []"
proof -
  obtain p f where s: "split_by_preference (bo_ipv4 (to_socket_bind cfg))
      (bo_ipv6 (to_socket_bind cfg)) addrs = (p, f)"
    by fastforce
  have st: "(start_race cfg addrs :: 'x tcp_race) = race_new (Some d) (if f = [] then (p, None) else (p, Some (d, f)))"
    using assms(1) s by (simp add: connecting_new_def)
  have "to_try (start_race cfg addrs :: 'x tcp_race) = attempt_order cfg addrs"
    unfolding st by (auto simp: race_new_def to_try_def fallback_list_def attempt_order_def s)
  moreover have "length (attempt_order cfg addrs) < 2 ^ 64"
    using split_length [OF s] assms(2) by (simp add: attempt_order_def s interleave_length)
  ultimately show "race_inv (attempt_order cfg addrs) (start_race cfg addrs :: 'x tcp_race)"
    by (simp add: race_inv_def race_new_def attempts_ok_def error_ok_def)
  show "tr_delay (start_race cfg addrs :: 'x tcp_race) \<noteq> None"
    "race_measure (attempt_order cfg addrs) (start_race cfg addrs :: 'x tcp_race) =
       2 * length (attempt_order cfg addrs)"
    "tr_attempts (start_race cfg addrs :: 'x tcp_race) = []"
    using assms(1) by (simp_all add: race_new_def race_measure_def)
qed

text \<open>While addresses are raced, at most six attempts are in flight; each is one of the
  addresses in the order families alternate, none is tried twice, and a timer for the next
  one runs exactly while untried addresses remain. The race fails only after every address
  was tried and no attempt is left, with the error of an address or, for want of one,
  \<open>Network unreachable\<close>.\<close>

lemma race_attempts:
  assumes "to_happy_eyeballs_timeout cfg = Some d" and "length addrs < 2 ^ 64"
  shows "let L = attempt_order cfg addrs in
    case race_run mk (start_race cfg addrs) inputs of
      Waiting t st \<Rightarrow>
        0 < length (tr_attempts st) \<and> length (tr_attempts st) \<le> 6 \<and>
        sorted_wrt (<) (map snd (tr_attempts st)) \<and>
        (\<forall>(a, n) \<in> set (tr_attempts st). n < tr_next_order st \<and> L ! n = a) \<and>
        to_try st = drop (tr_next_order st) L \<and> (t = NoTimer \<longleftrightarrow> to_try st = [])
    | Finished (Inr c) st \<Rightarrow> to_try st = drop (tr_next_order st) L
    | Finished (Inl e) st \<Rightarrow> to_try st = [] \<and> tr_attempts st = [] \<and>
        (e = network_unreachable \<or> (\<exists>a \<in> set L. ce_addr e = Some a))"
  using race_run_ok [OF start_race_inv(1,2) [OF assms], of mk inputs]
  by (auto simp: Let_def race_ok_def race_inv_def attempts_ok_def MAX_PARALLEL_CONNECT_ATTEMPTS_def
      split: race.splits sum.splits)

lemma all_progress_run:
  assumes "race_ok L r" and "all_progress mk r inputs"
    and "foldl (\<lambda>r i. race_poll mk i r) r inputs = Waiting t st"
  shows "\<exists>t0 st0. r = Waiting t0 st0 \<and> race_measure L st + length inputs \<le> race_measure L st0"
  using assms
proof (induction inputs arbitrary: r)
  case (Cons i inputs)
  obtain P el where i: "i = (P, el)"
    by (cases i)
  have ok: "race_ok L (race_poll mk i r)"
    using race_poll_ok [OF Cons.prems(1)] i by simp
  then obtain t1 st1 where r1: "race_poll mk i r = Waiting t1 st1"
    and le: "race_measure L st + length inputs \<le> race_measure L st1"
    using Cons.IH [OF ok] Cons.prems(2,3) by auto
  then obtain t0 st0 where r: "r = Waiting t0 st0"
    by (cases r) (simp_all add: i)
  have "race_measure L st1 < race_measure L st0"
    using race_poll_measure [of L t0 st0 P el mk t1 st1] Cons.prems(1,2) r1 by (simp add: r i)
  with le r show ?case
    by simp
qed simp

text \<open>The race does not go on for ever: when each poll finds a completed attempt or a
  timer that has fired, it is over after at most twice as many polls as there are addresses
  to try.\<close>

lemma race_ends:
  fixes inputs :: "(('x, 'c) polls \<times> bool) list"
  assumes "to_happy_eyeballs_timeout cfg = Some d" and "length addrs < 2 ^ 64"
    and "all_progress mk (race_top mk (start_race cfg addrs)) inputs"
    and "2 * length (attempt_order cfg addrs) \<le> length inputs"
  shows "\<exists>res st. race_run mk (start_race cfg addrs) inputs = Finished res st"
proof (cases "race_run mk (start_race cfg addrs) inputs")
  case (Waiting t st)
  note inv = start_race_inv [OF assms(1,2)]
  obtain t0 st0 where top: "race_top mk (start_race cfg addrs) = (Waiting t0 st0 :: ('x, 'c) race)"
    and le: "race_measure (attempt_order cfg addrs) st + length inputs \<le>
      race_measure (attempt_order cfg addrs) st0"
    using all_progress_run [OF race_top_ok [OF inv(1,2)] assms(3), of t st] Waiting
    unfolding race_run_def by blast
  have "race_measure (attempt_order cfg addrs) st0 < 2 * length (attempt_order cfg addrs)"
    by (rule race_top_measure(2) [OF inv(1) top inv(4), unfolded inv(3)])
  with le assms(4) show ?thesis
    by simp
qed simp

text \<open>What trying one address gives.\<close>

definition try_addr :: "(socket_addr \<Rightarrow> 'x tcp_connect_error option) \<Rightarrow> (socket_addr \<Rightarrow> 'x + 'c) \<Rightarrow>
    socket_addr \<Rightarrow> 'x tcp_connect_error + 'c" where
  "try_addr mk result a =
     (case mk a of
        Some e \<Rightarrow> Inl (with_addr e a)
      | None \<Rightarrow> (case result a of Inl x \<Rightarrow> Inl (with_addr (ce_tcp (Cause x)) a) | Inr c \<Rightarrow> Inr c))"

text \<open>Without Happy Eyeballs the addresses are tried in the resolver's order: the result
  is the connection to the first that succeeds, and if none does the error of the first.\<close>

lemma sequential_connect:
  "connect_seq mk result addrs None =
    (case filter (\<lambda>r. \<not> isl r) (map (try_addr mk result) addrs) of
       r # _ \<Rightarrow> r
     | [] \<Rightarrow> (case addrs of [] \<Rightarrow> Inl network_unreachable | a # _ \<Rightarrow> try_addr mk result a))"
proof -
  have later: "connect_seq mk result as (Some e) =
      (case filter (\<lambda>r. \<not> isl r) (map (try_addr mk result) as) of r # _ \<Rightarrow> r | [] \<Rightarrow> Inl e)" for as e
    by (induction as) (auto simp: try_addr_def split: option.splits sum.splits)
  show ?thesis
    by (cases addrs) (auto simp: later try_addr_def
        split: option.splits sum.splits list.splits)
qed

text \<open>A deadline never loses a connection that is ready: the timer decides only when the
  connection is still pending, and then with a timeout error.\<close>

lemma ready_beats_timeout:
  "connect_with_timeout timeout (Ready r) = Ready r \<and>
   (connect_with_timeout timeout Pending = Ready r \<longleftrightarrow> timeout = Some True \<and> r = Inl (ce_tcp TimedOut))"
  by (auto simp: connect_with_timeout_def split: option.splits)

section \<open>Socket set-up\<close>

lemma run_ops_None: "run_ops os ops = None \<longleftrightarrow> (\<forall>(op, m) \<in> set ops. m \<noteq> None \<longrightarrow> os op = None)"
  by (induction os ops rule: run_ops.induct) (auto split: option.splits)

lemma run_ops_Some:
  "run_ops os ops = Some e \<Longrightarrow> \<exists>op m x. (op, Some m) \<in> set ops \<and> os op = Some x \<and> e = ce_new m (Cause x)"
  by (induction os ops rule: run_ops.induct) (fastforce split: option.splits)+

text \<open>Setting up a socket fails exactly when it cannot be opened, made non-blocking,
  bound to the configured interface, or bound to the configured address of its family; any
  other option the system refuses is ignored.\<close>

lemma socket_setup_errors:
  "connect_socket os cfg addr = None \<longleftrightarrow>
     os (OpOpen (is_ipv6 addr)) = None \<and> os OpNonblocking = None \<and>
     (\<forall>i. bo_interface (to_socket_bind cfg) = Some i \<longrightarrow> os (OpBindDevice i) = None) \<and>
     (\<forall>a. is_ipv4 addr \<and> bo_ipv4 (to_socket_bind cfg) = Some a \<longrightarrow> os (OpBind (V4 a)) = None) \<and>
     (\<forall>a. is_ipv6 addr \<and> bo_ipv6 (to_socket_bind cfg) = Some a \<longrightarrow> os (OpBind (V6 a)) = None)"
  by (cases addr) (auto simp: connect_socket_def run_ops_None socket_ops_def opt_op_def
      bind_local_address_def Let_def split: option.splits)

text \<open>A local address given as \<open>None\<close> leaves the one set before in place.\<close>

lemma set_local_address_None: "set_local_address (set_local_address b (Some a)) None = set_local_address b (Some a)"
  by (simp add: set_local_address_def)

section \<open>Witnesses\<close>

definition sample_options :: tcp_options where
  "sample_options =
     \<lparr>to_enforce_http = False, to_connect_timeout = None, to_happy_eyeballs_timeout = Some 300,
      to_nodelay = False, to_reuse_address = False, to_linger = None, to_send_buffer_size = None,
      to_recv_buffer_size = None, to_tcp_user_timeout = None,
      to_tcp_keepalive = \<lparr>ka_time = None, ka_interval = None, ka_retries = None\<rparr>,
      to_socket_bind = \<lparr>bo_interface = None, bo_ipv4 = None, bo_ipv6 = None\<rparr>\<rparr>"

definition sample_addrs :: "socket_addr list" where
  "sample_addrs = [SockV6 1 443 0 0, SockV6 2 443 0 0, SockV4 3 443]"

lemma sample_order: "attempt_order sample_options sample_addrs =
    [SockV6 1 443 0 0, SockV4 3 443, SockV6 2 443 0 0]"
  by (simp add: attempt_order_def sample_options_def sample_addrs_def split_by_preference_def)

abbreviation no_setup_error :: "socket_addr \<Rightarrow> string tcp_connect_error option" where
  "no_setup_error \<equiv> \<lambda>a. None"

text \<open>The timer fires, and then the second attempt succeeds while the first is pending.\<close>

definition sample_inputs :: "((string, nat) polls \<times> bool) list" where
  "sample_inputs = [(\<lambda>n. Pending, True), (\<lambda>n. if n = 1 then Ready (Inr 7) else Pending, False)]"

lemmas race_eval = race_run_def race_new_def connecting_new_def split_by_preference_def
  sample_options_def sample_addrs_def race_top_def launch_next.simps next_remote_def
  has_fallback_def next_addr_def saturating_succ_def has_remaining_addrs_def poll_attempts_def
  on_event_def make_room_for_next_attempt_def MAX_PARALLEL_CONNECT_ATTEMPTS_def take_error_def
  record_error_def Let_def

lemma race_attempts_witness:
  "\<exists>t st. race_run no_setup_error (start_race sample_options sample_addrs) (take 1 sample_inputs) =
      Waiting t st \<and> length (tr_attempts st) = 2 \<and>
      to_try st = drop (tr_next_order st) [SockV6 1 443 0 0, SockV4 3 443, SockV6 2 443 0 0]"
proof -
  have "\<exists>t st. race_run no_setup_error (start_race sample_options sample_addrs) (take 1 sample_inputs) =
      Waiting t st \<and> length (tr_attempts st) = 2"
    by (simp add: race_eval sample_inputs_def)
  then obtain t st where r: "race_run no_setup_error (start_race sample_options sample_addrs)
      (take 1 sample_inputs) = Waiting t st" and "length (tr_attempts st) = 2"
    by blast
  moreover have "to_try st = drop (tr_next_order st) (attempt_order sample_options sample_addrs)"
    using race_attempts [of sample_options 300 sample_addrs no_setup_error "take 1 sample_inputs"] r
    by (simp add: Let_def sample_options_def sample_addrs_def)
  ultimately show ?thesis
    by (auto simp: sample_order)
qed

definition refused :: "(string, nat) polls \<times> bool" where
  "refused = (\<lambda>n. Ready (Inl ''refused''), False)"

lemma race_ends_witness:
  "\<exists>res st. race_run no_setup_error (start_race sample_options sample_addrs)
     [refused, refused, refused, refused, refused, refused] = Finished res st"
proof (rule race_ends [of sample_options 300])
  show "all_progress no_setup_error (race_top no_setup_error (start_race sample_options sample_addrs))
     [refused, refused, refused, refused, refused, refused]"
    by (simp add: race_eval refused_def)
qed (simp_all add: sample_order, simp_all add: sample_options_def sample_addrs_def)

lemma socket_setup_errors_witness:
  "connect_socket (\<lambda>op. if op = OpNodelay False then Some ''refused'' else None) sample_options
     (SockV4 3 443) = None"
  by (subst socket_setup_errors) (simp add: sample_options_def)

end
