(* ===== verification/Retry.thy ===== *)
theory Retry
  imports Complex_Main Http_Types
begin

text \<open>
  Retrying requests (\<open>src/src/retry.rs\<close>, \<open>src/src/client/layer/retry.rs\<close> and its
  \<open>classify\<close> and \<open>scope\<close> modules). \<open>tower\<close>'s retry middleware and its token budget are third
  party: the budget is a record of its two operations, and \<open>retry_run\<close> calls the policy in
  the order the documentation of \<open>tower::retry::Policy\<close> gives: \<open>clone_request\<close> before each
  send, \<open>retry\<close> with its result only when there is a clone.
\<close>

section \<open>Classification\<close>

text \<open>An error is the chain of its sources, outermost first; only HTTP/2 ones are looked into.\<close>

record h2_error =
  h2_is_go_away :: bool
  h2_is_reset :: bool
  h2_is_remote :: bool
  h2_reason :: "u32 option"

datatype error_node = H2Error h2_error | OtherError string

definition NO_ERROR :: u32 where "NO_ERROR = 0"
definition REFUSED_STREAM :: u32 where "REFUSED_STREAM = 7"

fun is_retryable_error :: "error_node list \<Rightarrow> bool" where
  "is_retryable_error (err # source # H2Error e # _) =
     (if h2_is_go_away e \<and> h2_is_remote e \<and> h2_reason e = Some NO_ERROR then True
      else if h2_is_reset e \<and> h2_is_remote e \<and> h2_reason e = Some REFUSED_STREAM then True
      else False)"
| "is_retryable_error _ = False"

datatype retry_action = Success | Retryable

type_synonym ('h, 'b) sent_request = "'h request \<times> 'b body"
type_synonym 'h sent_result = "error_node list + 'h response"

text \<open>What a classifier sees: the request, and the status or the error.\<close>

type_synonym ('h, 'b) req_rep = "('h, 'b) sent_request \<times> (error_node list + nat)"

definition rr_status :: "('h, 'b) req_rep \<Rightarrow> nat option" where
  "rr_status rr = (case snd rr of Inr s \<Rightarrow> Some s | Inl _ \<Rightarrow> None)"

definition rr_error :: "('h, 'b) req_rep \<Rightarrow> error_node list option" where
  "rr_error rr = (case snd rr of Inl e \<Rightarrow> Some e | Inr _ \<Rightarrow> None)"

datatype ('h, 'b) classifier = Never | ProtocolNacks | DynClassifier "('h, 'b) req_rep \<Rightarrow> retry_action"

definition classify ::
    "('h, 'b) classifier \<Rightarrow> ('h, 'b) sent_request \<Rightarrow> 'h sent_result \<Rightarrow> retry_action" where
  "classify c req res =
     (let rr = (req, map_sum (\<lambda>e. e) rs_status res) in
      case c of
        Never \<Rightarrow> Success
      | ProtocolNacks \<Rightarrow>
          (if (case rr_error rr of Some e \<Rightarrow> is_retryable_error e | None \<Rightarrow> False) then Retryable
           else Success)
      | DynClassifier f \<Rightarrow> f rr)"

datatype ('h, 'b) scoped = Unscoped | DynScope "('h, 'b) sent_request \<Rightarrow> bool"

definition applies_to :: "('h, 'b) scoped \<Rightarrow> ('h, 'b) sent_request \<Rightarrow> bool" where
  "applies_to s req = (case s of Unscoped \<Rightarrow> True | DynScope f \<Rightarrow> f req)"

section \<open>Configuring a policy\<close>

text \<open>
  A budget's share of extra requests: an \<open>f32\<close> that is finite, or not (a NaN or infinity).
  The literal \<open>0.2\<close> is the nearest such number.
\<close>

datatype f32 = Finite rat | NonFinite

record ('h, 'b) retry_config =
  rp_budget :: "f32 option"
  rp_classifier :: "('h, 'b) classifier"
  rp_max_retries :: u32
  rp_scope :: "('h, 'b) scoped"

definition rp_scoped :: "(('h, 'b) sent_request \<Rightarrow> bool) \<Rightarrow> ('h, 'b) retry_config" where
  "rp_scoped f = \<lparr>rp_budget = Some (Finite (13421773 / 67108864)), rp_classifier = Never, rp_max_retries = 2,
     rp_scope = DynScope f\<rparr>"

definition rp_no_budget :: "('h, 'b) retry_config \<Rightarrow> ('h, 'b) retry_config" where
  "rp_no_budget p = p\<lparr>rp_budget := None\<rparr>"

definition rp_never :: "('h, 'b) retry_config" where
  "rp_never = rp_no_budget (rp_scoped (\<lambda>_. False))"

definition rp_for_host :: "string \<Rightarrow> ('h, 'b) retry_config" where
  "rp_for_host h =
     rp_scoped (\<lambda>req. case host (rq_uri (fst req)) of Some request_host \<Rightarrow> h = request_host | None \<Rightarrow> False)"

text \<open>\<open>max_extra_load\<close>: \<^term>\<open>None\<close> is a failed assertion.\<close>

definition rp_max_extra_load :: "('h, 'b) retry_config \<Rightarrow> f32 \<Rightarrow> ('h, 'b) retry_config option" where
  "rp_max_extra_load p x =
     (case x of
        Finite q \<Rightarrow> if 0 \<le> q \<and> q \<le> 1000 then Some (p\<lparr>rp_budget := Some x\<rparr>) else None
      | NonFinite \<Rightarrow> None)"

definition rp_max_retries_per_request :: "('h, 'b) retry_config \<Rightarrow> u32 \<Rightarrow> ('h, 'b) retry_config" where
  "rp_max_retries_per_request p m = p\<lparr>rp_max_retries := m\<rparr>"

definition rp_classify_fn ::
    "('h, 'b) retry_config \<Rightarrow> (('h, 'b) req_rep \<Rightarrow> retry_action) \<Rightarrow> ('h, 'b) retry_config" where
  "rp_classify_fn p f = p\<lparr>rp_classifier := DynClassifier f\<rparr>"

definition retry_default :: "('h, 'b) retry_config" where
  "retry_default = \<lparr>rp_budget = None, rp_classifier = ProtocolNacks, rp_max_retries = 2,
     rp_scope = Unscoped\<rparr>"

section \<open>The policy at work\<close>

text \<open>\<open>TpsBudget\<close>: made from a period in seconds, a minimum rate and the share.\<close>

record 'k budget_ops =
  bd_new :: "nat \<Rightarrow> nat \<Rightarrow> f32 \<Rightarrow> 'k"
  bd_deposit :: "'k \<Rightarrow> 'k"
  bd_withdraw :: "'k \<Rightarrow> bool \<times> 'k"

record ('h, 'b, 'k) retry_policy =
  rt_budget :: "'k option"
  rt_classifier :: "('h, 'b) classifier"
  rt_max_retries :: u32
  rt_cnt :: u32
  rt_scope :: "('h, 'b) scoped"

definition retry_policy_new :: "'k budget_ops \<Rightarrow> ('h, 'b) retry_config \<Rightarrow> ('h, 'b, 'k) retry_policy" where
  "retry_policy_new B p =
     \<lparr>rt_budget = map_option (bd_new B 10 10) (rp_budget p), rt_classifier = rp_classifier p,
      rt_max_retries = rp_max_retries p, rt_cnt = 0, rt_scope = rp_scope p\<rparr>"

definition retry_withdraw :: "'k budget_ops \<Rightarrow> 'k option \<Rightarrow> bool \<times> 'k option" where
  "retry_withdraw B b =
     (case b of None \<Rightarrow> (True, None) | Some k \<Rightarrow> (case bd_withdraw B k of (ok, k') \<Rightarrow> (ok, Some k')))"

definition policy_retry :: "'k budget_ops \<Rightarrow> ('h, 'b, 'k) retry_policy \<Rightarrow> ('h, 'b) sent_request \<Rightarrow>
    'h sent_result \<Rightarrow> ('h, 'b, 'k) retry_policy \<times> bool" where
  "policy_retry B p req res =
     (case classify (rt_classifier p) req res of
        Success \<Rightarrow> (p\<lparr>rt_budget := map_option (bd_deposit B) (rt_budget p)\<rparr>, False)
      | Retryable \<Rightarrow>
          (case retry_withdraw B (rt_budget p) of
             (True, b) \<Rightarrow> (p\<lparr>rt_budget := b, rt_cnt := rt_cnt p + 1\<rparr>, True)
           | (False, b) \<Rightarrow> (p\<lparr>rt_budget := b\<rparr>, False)))"

definition policy_clone_request ::
    "('h, 'b, 'k) retry_policy \<Rightarrow> ('h, 'b) sent_request \<Rightarrow> ('h, 'b) sent_request option" where
  "policy_clone_request p req =
     (if 0 < rt_cnt p \<and> \<not> applies_to (rt_scope p) req then None
      else if rt_max_retries p \<le> rt_cnt p then None
      else (case body_try_clone (snd req) of None \<Rightarrow> None | Some b \<Rightarrow> Some (fst req, b)))"

text \<open>
  The sends of one request, given the results they get: how many there are, and the policy
  they leave.
\<close>

fun retry_run :: "'k budget_ops \<Rightarrow> ('h, 'b, 'k) retry_policy \<Rightarrow> ('h, 'b) sent_request \<Rightarrow>
    'h sent_result list \<Rightarrow> ('h, 'b, 'k) retry_policy \<times> nat" where
  "retry_run B p req [] = (p, 0)"
| "retry_run B p req (res # rest) =
     (case policy_clone_request p req of
        None \<Rightarrow> (p, 1)
      | Some req' \<Rightarrow>
          (case policy_retry B p req' res of
             (p', False) \<Rightarrow> (p', 1)
           | (p', True) \<Rightarrow> apsnd Suc (retry_run B p' req' rest)))"

section \<open>Properties\<close>

lemma applies_clone: "policy_clone_request p req = Some req' \<Longrightarrow> req' = req"
  by (cases req) (auto simp: policy_clone_request_def body_try_clone_Some split: if_splits option.splits)

lemma clone_Some_iff:
  "policy_clone_request p req = Some req' \<longleftrightarrow>
     req' = req \<and> (rt_cnt p = 0 \<or> applies_to (rt_scope p) req) \<and> rt_cnt p < rt_max_retries p \<and>
     (\<exists>bytes. snd req = Reusable bytes)"
  by (cases req)
    (auto simp: policy_clone_request_def body_try_clone_Some word_gt_0 not_le not_less split: option.splits)

lemma policy_retry_frame:
  "policy_retry B p req res = (p', again) \<Longrightarrow>
     rt_max_retries p' = rt_max_retries p \<and> rt_scope p' = rt_scope p \<and>
     rt_classifier p' = rt_classifier p \<and> rt_cnt p' = (if again then rt_cnt p + 1 else rt_cnt p)"
  by (auto simp: policy_retry_def split: retry_action.splits prod.splits bool.splits)

lemma u32_succ:
  assumes "(c :: u32) < m"
  shows "unat (c + 1) = Suc (unat c)"
proof -
  have "unat m < 2 ^ LENGTH(32)"
    by (rule unsigned_less)
  with assms show ?thesis
    by (simp add: unat_word_ariths word_less_nat_alt)
qed

text \<open>Each retry uses one unit of what the counter has left; out of scope there is at most one.\<close>

lemma retry_run_count:
  "snd (retry_run B p req results) \<le> Suc (unat (rt_max_retries p) - unat (rt_cnt p))"
  "\<not> applies_to (rt_scope p) req \<Longrightarrow>
     snd (retry_run B p req results) \<le> (if rt_cnt p = 0 then 2 else 1)"
proof (induction B p req results rule: retry_run.induct)
  case (2 B p req res rest)
  {
    fix p' assume c: "policy_clone_request p req = Some req" and r: "policy_retry B p req res = (p', True)"
    have lt: "rt_cnt p < rt_max_retries p"
      using c by (simp add: clone_Some_iff)
    have u: "unat (rt_cnt p') = Suc (unat (rt_cnt p))" and m: "rt_max_retries p' = rt_max_retries p"
      using policy_retry_frame [OF r] u32_succ [OF lt] by simp_all
    have "unat (rt_cnt p) < unat (rt_max_retries p)"
      using lt by (simp add: word_less_nat_alt)
    then have "snd (retry_run B p' req rest) \<le> unat (rt_max_retries p) - unat (rt_cnt p)"
      using 2(1) [OF c r [symmetric]] u m by fastforce
  } note step = this
  {
    fix p' assume c: "policy_clone_request p req = Some req" and r: "policy_retry B p req res = (p', True)"
      and out: "\<not> applies_to (rt_scope p) req"
    have "rt_cnt p = 0"
      using c out by (simp add: clone_Some_iff)
    then have "rt_cnt p' \<noteq> 0" and s: "rt_scope p' = rt_scope p"
      using policy_retry_frame [OF r] by simp_all
    then have "snd (retry_run B p' req rest) \<le> 1"
      using 2(2) [OF c r [symmetric]] out by simp
  } note out = this
  show "snd (retry_run B p req (res # rest)) \<le> Suc (unat (rt_max_retries p) - unat (rt_cnt p))"
    using step by (auto dest: applies_clone split: option.splits prod.splits bool.splits)
  show "snd (retry_run B p req (res # rest)) \<le> (if rt_cnt p = 0 then 2 else 1)"
    if "\<not> applies_to (rt_scope p) req"
    using out that by (auto simp: clone_Some_iff split: option.splits prod.splits bool.splits)
qed simp_all

text \<open>A request is sent at most once more than the configured number of retries, whose
  counter never wraps around, and at most twice when it is outside the policy's scope.\<close>

lemma retry_bound:
  "snd (retry_run B (retry_policy_new B c) req results) \<le>
     (if applies_to (rp_scope c) req then Suc (unat (rp_max_retries c))
      else min 2 (Suc (unat (rp_max_retries c))))"
  using retry_run_count(1) [of B "retry_policy_new B c" req results]
    retry_run_count(2) [of "retry_policy_new B c" req B results]
  by (auto simp: retry_policy_new_def min_def)

text \<open>Whether a request is sent a second time: its body can be sent again, retries are
  allowed at all, the classifier calls its first result retryable, and the budget has a
  token. The scope of the policy has no say in it: a request outside it is retried too.\<close>

lemma first_retry:
  "1 < snd (retry_run B (retry_policy_new B c) req (r1 # r2 # results)) \<longleftrightarrow>
     (\<exists>bytes. snd req = Reusable bytes) \<and> rp_max_retries c \<noteq> 0 \<and>
     classify (rp_classifier c) req r1 = Retryable \<and>
     (case rp_budget c of None \<Rightarrow> True | Some x \<Rightarrow> fst (bd_withdraw B (bd_new B 10 10 x)))"
proof -
  let ?p = "retry_policy_new B c"
  have pos: "0 < snd (retry_run B p req (r # rest))" for p :: "(_, _, _) retry_policy" and r rest
    by (auto split: option.splits prod.splits bool.splits)
  have "1 < snd (retry_run B ?p req (r1 # r2 # results)) \<longleftrightarrow>
      policy_clone_request ?p req = Some req \<and> snd (policy_retry B ?p req r1)"
  proof (cases "policy_clone_request ?p req")
    case None
    then show ?thesis by simp
  next
    case (Some req')
    then have c: "policy_clone_request ?p req = Some req"
      using applies_clone by fastforce
    obtain p' again where r: "policy_retry B ?p req r1 = (p', again)"
      by fastforce
    show ?thesis
      using pos [of p' r2 results] c r
      unfolding retry_run.simps(2) [of B ?p req r1 "r2 # results"]
      by (cases again) (simp_all del: retry_run.simps)
  qed
  also have "policy_clone_request ?p req = Some req \<longleftrightarrow>
      (\<exists>bytes. snd req = Reusable bytes) \<and> rp_max_retries c \<noteq> 0"
    by (auto simp: clone_Some_iff retry_policy_new_def word_gt_0)
  also have "snd (policy_retry B ?p req r1) \<longleftrightarrow> classify (rp_classifier c) req r1 = Retryable \<and>
      (case rp_budget c of None \<Rightarrow> True | Some x \<Rightarrow> fst (bd_withdraw B (bd_new B 10 10 x)))"
    by (auto simp: policy_retry_def retry_policy_new_def retry_withdraw_def
        split: retry_action.splits option.splits prod.splits bool.splits)
  finally show ?thesis
    by blast
qed

text \<open>The named policies: one never retries, the default one only after a protocol NACK.\<close>

lemma never_retries: "classify (rp_classifier rp_never) req res = Success"
  by (simp add: rp_never_def rp_no_budget_def rp_scoped_def classify_def Let_def)

lemma default_retries:
  "classify (rp_classifier retry_default) req res = Retryable \<longleftrightarrow>
     (\<exists>e0 e1 h es. res = Inl (e0 # e1 # H2Error h # es) \<and> h2_is_remote h \<and>
        (h2_is_go_away h \<and> h2_reason h = Some NO_ERROR \<or>
         h2_is_reset h \<and> h2_reason h = Some REFUSED_STREAM))"
proof -
  have nack: "is_retryable_error es \<longleftrightarrow> (\<exists>e0 e1 h es'. es = e0 # e1 # H2Error h # es' \<and> h2_is_remote h \<and>
        (h2_is_go_away h \<and> h2_reason h = Some NO_ERROR \<or>
         h2_is_reset h \<and> h2_reason h = Some REFUSED_STREAM))" for es
    by (cases es rule: is_retryable_error.cases) auto
  show ?thesis
    by (cases res) (simp_all add: retry_default_def classify_def rr_error_def Let_def nack)
qed

section \<open>A request out of scope that is retried\<close>

definition no_budget_ops :: "unit budget_ops" where
  "no_budget_ops = \<lparr>bd_new = (\<lambda>_ _ _. ()), bd_deposit = (\<lambda>k. k), bd_withdraw = (\<lambda>k. (True, k))\<rparr>"

definition retry_503 :: "(unit, unit) retry_config" where
  "retry_503 = rp_classify_fn (rp_for_host ''a'')
     (\<lambda>rr. if rr_status rr = Some 503 then Retryable else Success)"

definition request_to_b :: "(unit, unit) sent_request" where
  "request_to_b =
     (\<lparr>rq_method = ''GET'', rq_uri = \<lparr>scheme = Some HTTP, authority = Some ''b'', host = Some ''b'',
         port = None, path = ''/'', query = None\<rparr>, rq_version = HTTP_11, rq_headers = ()\<rparr>, Reusable [])"

abbreviation status_result :: "nat \<Rightarrow> unit sent_result" where
  "status_result s \<equiv> Inr \<lparr>rs_status = s, rs_headers = ()\<rparr>"

lemma request_to_b_out_of_scope: "\<not> applies_to (rp_scope retry_503) request_to_b"
  by (simp add: retry_503_def rp_classify_fn_def rp_for_host_def rp_scoped_def applies_to_def
      request_to_b_def)

lemma first_retry_witness:
  "1 < snd (retry_run no_budget_ops (retry_policy_new no_budget_ops retry_503) request_to_b
     [status_result 503, status_result 200])"
  by (subst first_retry)
    (simp add: retry_503_def rp_classify_fn_def rp_for_host_def rp_scoped_def request_to_b_def
      classify_def rr_status_def no_budget_ops_def Let_def)

end
