(* ===== verification/Timeouts.thy ===== *)
theory Timeouts
  imports Http_Types Request_Config
begin

text \<open>
  The timeout layer (\<open>src/src/client/layer/timeout.rs\<close> and its \<open>future\<close> and \<open>body\<close> modules).
  Time is the number of nanoseconds since an arbitrary origin, a sleep is the instant at
  which it is over, and every poll is given the current instant. The inner service's future
  and body are the environment: what they answer to the poll is an argument.
\<close>

type_synonym instant = nat
type_synonym duration = nat

definition slept :: "instant \<Rightarrow> instant \<Rightarrow> bool" where
  "slept sleep now \<longleftrightarrow> sleep \<le> now"

section \<open>Options\<close>

record timeout_options =
  tm_total :: "duration option"
  tm_read :: "duration option"

definition timeout_default :: timeout_options where
  "timeout_default = \<lparr>tm_total = None, tm_read = None\<rparr>"

definition set_read_timeout :: "timeout_options \<Rightarrow> duration \<Rightarrow> timeout_options" where
  "set_read_timeout opt d = opt\<lparr>tm_read := Some d\<rparr>"

definition set_total_timeout :: "timeout_options \<Rightarrow> duration \<Rightarrow> timeout_options" where
  "set_total_timeout opt d = opt\<lparr>tm_total := Some d\<rparr>"

definition fetch_timeout_options ::
    "timeout_options rconfig \<Rightarrow> timeout_options slot \<Rightarrow> duration option \<times> duration option" where
  "fetch_timeout_options opts ext =
     (case (opts, rc_fetch opts ext) of
        (Some own, Some r) \<Rightarrow> (or_else (tm_total r) (tm_total own), or_else (tm_read r) (tm_read own))
      | (Some own, None) \<Rightarrow> (tm_total own, tm_read own)
      | (None, Some r) \<Rightarrow> (tm_total r, tm_read r)
      | (None, None) \<Rightarrow> (None, None))"

section \<open>Errors\<close>

text \<open>\<open>TimedOut\<close> under the kind of the error that wraps it, and what the inner service reports.\<close>

datatype 'e timeout_error = Inner 'e | DecodeError "'e timeout_error" | BodyTimedOut | RequestTimedOut

fun is_timeout :: "'e timeout_error \<Rightarrow> bool" where
  "is_timeout (Inner e) = False"
| "is_timeout (DecodeError e) = is_timeout e"
| "is_timeout BodyTimedOut = True"
| "is_timeout RequestTimedOut = True"

section \<open>The body\<close>

record 'b read_body =
  rb_timeout :: duration
  rb_sleep :: "instant option"
  rb_body :: 'b

datatype 'b timeout_body =
    PlainBody 'b
  | TotalTimeout instant 'b
  | ReadTimeout "'b read_body"
  | CombinedTimeout instant "'b read_body"

definition timeout_body_new ::
    "instant \<Rightarrow> duration option \<Rightarrow> duration option \<Rightarrow> 'b \<Rightarrow> 'b timeout_body" where
  "timeout_body_new now deadline read_timeout body =
     (let deadline = map_option (\<lambda>d. now + d) deadline in
      case (deadline, read_timeout) of
        (Some t, Some r) \<Rightarrow> CombinedTimeout t \<lparr>rb_timeout = r, rb_sleep = None, rb_body = body\<rparr>
      | (Some t, None) \<Rightarrow> TotalTimeout t body
      | (None, Some r) \<Rightarrow> ReadTimeout \<lparr>rb_timeout = r, rb_sleep = None, rb_body = body\<rparr>
      | (None, None) \<Rightarrow> PlainBody body)"

text \<open>
  One poll of a body gives its new state and the frame, the error or the end of the stream;
  \<open>pf\<close> is that of the inner body.
\<close>

definition poll_and_map_body ::
    "('b \<Rightarrow> 'b \<times> ('e timeout_error + 'f) option poll) \<Rightarrow> 'b \<Rightarrow> 'b \<times> ('e timeout_error + 'f) option poll" where
  "poll_and_map_body pf b =
     (case pf b of
        (b', Pending) \<Rightarrow> (b', Pending)
      | (b', Ready x) \<Rightarrow> (b', Ready (map_option (map_sum DecodeError (\<lambda>f. f)) x)))"

definition poll_total ::
    "('b \<Rightarrow> 'b \<times> ('e timeout_error + 'f) option poll) \<Rightarrow> instant \<Rightarrow> instant \<Rightarrow> 'b \<Rightarrow>
     'b \<times> ('e timeout_error + 'f) option poll" where
  "poll_total pf now timeout b =
     (if slept timeout now then (b, Ready (Some (Inl BodyTimedOut))) else poll_and_map_body pf b)"

text \<open>The sleep of a read is set on the first poll, polled, and moved forward by a frame.\<close>

definition poll_read ::
    "('b \<Rightarrow> 'b \<times> ('e timeout_error + 'f) option poll) \<Rightarrow> instant \<Rightarrow> 'b read_body \<Rightarrow>
     'b read_body \<times> ('e timeout_error + 'f) option poll" where
  "poll_read pf now r =
     (let r = (case rb_sleep r of None \<Rightarrow> r\<lparr>rb_sleep := Some (now + rb_timeout r)\<rparr> | Some _ \<Rightarrow> r) in
      if (case rb_sleep r of Some s \<Rightarrow> slept s now | None \<Rightarrow> False)
      then (r, Ready (Some (Inl BodyTimedOut)))
      else
        (case pf (rb_body r) of
           (b, Pending) \<Rightarrow> (r\<lparr>rb_body := b\<rparr>, Pending)
         | (b, Ready (Some (Inr f))) \<Rightarrow>
             (r\<lparr>rb_body := b,
                rb_sleep := (case rb_sleep r of Some _ \<Rightarrow> Some (now + rb_timeout r) | None \<Rightarrow> None)\<rparr>,
              Ready (Some (Inr f)))
         | (b, Ready (Some (Inl e))) \<Rightarrow> (r\<lparr>rb_body := b\<rparr>, Ready (Some (Inl e)))
         | (b, Ready None) \<Rightarrow> (r\<lparr>rb_body := b\<rparr>, Ready None)))"

fun poll_frame ::
    "('b \<Rightarrow> 'b \<times> ('e timeout_error + 'f) option poll) \<Rightarrow> instant \<Rightarrow> 'b timeout_body \<Rightarrow>
     'b timeout_body \<times> ('e timeout_error + 'f) option poll" where
  "poll_frame pf now (TotalTimeout t b) = apfst (TotalTimeout t) (poll_total pf now t b)"
| "poll_frame pf now (ReadTimeout r) = apfst ReadTimeout (poll_read pf now r)"
| "poll_frame pf now (CombinedTimeout t r) =
     apfst (CombinedTimeout t) (poll_total (poll_read pf now) now t r)"
| "poll_frame pf now (PlainBody b) = apfst PlainBody (poll_and_map_body pf b)"

text \<open>\<open>size_hint\<close> and \<open>is_end_stream\<close> are those of the inner body.\<close>

fun inner_body :: "'b timeout_body \<Rightarrow> 'b" where
  "inner_body (PlainBody b) = b"
| "inner_body (TotalTimeout t b) = b"
| "inner_body (ReadTimeout r) = rb_body r"
| "inner_body (CombinedTimeout t r) = rb_body r"

section \<open>The response future\<close>

record response_timers =
  rt_total_timeout :: "duration option"
  rt_read_timeout :: "duration option"
  rt_total_sleep :: "instant option"
  rt_read_sleep :: "instant option"

definition timeout_call ::
    "timeout_options rconfig \<Rightarrow> timeout_options slot \<Rightarrow> instant \<Rightarrow> response_timers" where
  "timeout_call opts ext now =
     (case fetch_timeout_options opts ext of
        (tot, read) \<Rightarrow>
          \<lparr>rt_total_timeout = tot, rt_read_timeout = read,
           rt_total_sleep = map_option (\<lambda>d. now + d) tot,
           rt_read_sleep = map_option (\<lambda>d. now + d) read\<rparr>)"

text \<open>\<open>ResponseBodyTimeoutFuture::poll\<close>: the body is wrapped when the response is there.\<close>

definition poll_response_body ::
    "response_timers \<Rightarrow> instant \<Rightarrow> ('e timeout_error + 'r \<times> 'b) poll \<Rightarrow>
     ('e timeout_error + 'r \<times> 'b timeout_body) poll" where
  "poll_response_body f now inner =
     (case inner of
        Pending \<Rightarrow> Pending
      | Ready (Inl e) \<Rightarrow> Ready (Inl e)
      | Ready (Inr (res, b)) \<Rightarrow>
          Ready (Inr (res, timeout_body_new now (rt_total_timeout f) (rt_read_timeout f) b)))"

definition check_timeout :: "instant option \<Rightarrow> instant \<Rightarrow> bool" where
  "check_timeout sleep now = (case sleep of Some s \<Rightarrow> slept s now | None \<Rightarrow> False)"

definition timed_poll_response ::
    "response_timers \<Rightarrow> instant \<Rightarrow> ('e timeout_error + 'r \<times> 'b) poll \<Rightarrow>
     ('e timeout_error + 'r \<times> 'b timeout_body) poll" where
  "timed_poll_response f now inner =
     (case poll_response_body f now inner of
        Ready v \<Rightarrow> Ready v
      | Pending \<Rightarrow>
          if check_timeout (rt_total_sleep f) now then Ready (Inl RequestTimedOut)
          else if check_timeout (rt_read_sleep f) now then Ready (Inl RequestTimedOut)
          else Pending)"

section \<open>Properties\<close>

lemma fetch_timeout_values:
  "fetch_timeout_options (Some own) ext =
     (case rc_get ext of
        Some r \<Rightarrow> (or_else (tm_total r) (tm_total own), or_else (tm_read r) (tm_read own))
      | None \<Rightarrow> (tm_total own, tm_read own))"
  by (auto simp: fetch_timeout_options_def rc_fetch_def rc_get_def or_else_def
      split: option.splits)

text \<open>A response that is ready is never lost to a timer, and a pending one errors exactly at a deadline.\<close>

lemma poll_response_pending:
  "fetch_timeout_options opts ext = (tot, read) \<Longrightarrow>
   timed_poll_response (timeout_call opts ext t0) t Pending =
     (if (case tot of Some d \<Rightarrow> t0 + d \<le> t | None \<Rightarrow> False) \<or>
         (case read of Some d \<Rightarrow> t0 + d \<le> t | None \<Rightarrow> False)
      then Ready (Inl RequestTimedOut) else Pending)"
  by (auto simp: timed_poll_response_def poll_response_body_def timeout_call_def check_timeout_def
      slept_def split: option.splits)

lemma poll_response_ready:
  "fetch_timeout_options opts ext = (tot, read) \<Longrightarrow>
   timed_poll_response (timeout_call opts ext t0) t (Ready (Inr (res, b))) =
     Ready (Inr (res, timeout_body_new t tot read b))"
  by (simp add: timed_poll_response_def poll_response_body_def timeout_call_def)

text \<open>The instant at which a body's total timeout is over: no poll moves it.\<close>

fun total_deadline :: "'b timeout_body \<Rightarrow> instant option" where
  "total_deadline (PlainBody b) = None"
| "total_deadline (TotalTimeout t b) = Some t"
| "total_deadline (ReadTimeout r) = None"
| "total_deadline (CombinedTimeout t r) = Some t"

lemma poll_frame_deadline: "total_deadline (fst (poll_frame pf now tb)) = total_deadline tb"
  by (cases tb) auto

definition poll_frames :: "'b timeout_body \<Rightarrow>
    (('b \<Rightarrow> 'b \<times> ('e timeout_error + 'f) option poll) \<times> instant) list \<Rightarrow> 'b timeout_body" where
  "poll_frames tb polls = foldl (\<lambda>tb (pf, now). fst (poll_frame pf now tb)) tb polls"

lemma poll_frames_deadline: "total_deadline (poll_frames tb polls) = total_deadline tb"
proof -
  have "total_deadline (foldl (\<lambda>tb (pf, now). fst (poll_frame pf now tb)) tb polls) = total_deadline tb" for tb
    by (induction polls arbitrary: tb) (auto simp: poll_frame_deadline)
  then show ?thesis
    by (simp add: poll_frames_def)
qed

lemma poll_frames_total:
  "\<exists>b'. poll_frames (TotalTimeout d b) polls = TotalTimeout d b'"
proof -
  have "\<exists>b'. foldl (\<lambda>tb (pf, now). fst (poll_frame pf now tb)) (TotalTimeout d b) polls = TotalTimeout d b'" for b
    by (induction polls arbitrary: b) (auto split: prod.splits)
  then show ?thesis
    by (simp add: poll_frames_def)
qed

text \<open>The total timeout is not one deadline: a request sent at \<open>t0\<close> times out at
  \<open>t0 + d\<close> while it has no response, but the body of a response that came at \<open>t1\<close> times out
  at \<open>t1 + d\<close>, however it was read before. Until then its frames are delivered, also after
  \<open>t0 + d\<close>.\<close>

lemma total_timeout_restarts:
  assumes "fetch_timeout_options opts ext = (Some d, None)"
    and "timed_poll_response (timeout_call opts ext t0) t1 (Ready (Inr (res, b))) = Ready (Inr (res', tb))"
  shows "(timed_poll_response (timeout_call opts ext t0) t Pending = Ready (Inl RequestTimedOut) \<longleftrightarrow> t0 + d \<le> t) \<and>
    (snd (poll_frame pf t (poll_frames tb polls)) =
      (if t1 + d \<le> t then Ready (Some (Inl BodyTimedOut))
       else snd (poll_and_map_body pf (inner_body (poll_frames tb polls)))))"
proof -
  have tb: "tb = TotalTimeout (t1 + d) b"
    using assms by (simp add: poll_response_ready timeout_body_new_def)
  obtain b' where "poll_frames tb polls = TotalTimeout (t1 + d) b'"
    using poll_frames_total [of "t1 + d" b polls] by (auto simp: tb)
  then show ?thesis
    using assms(1) by (simp add: poll_response_pending poll_total_def slept_def)
qed

text \<open>The read timeout runs from the delivery of a frame to the next poll, not from that
  poll: a reader that comes back later than the timeout gets a timeout error although the
  next frame is ready, and one that comes back earlier gets what the body has.\<close>

lemma read_timeout_counts_the_reader:
  assumes "poll_frame pf t (ReadTimeout r) = (tb, Ready (Some (Inr f)))"
  shows "snd (poll_frame pf' t' tb) =
    (if t + rb_timeout r \<le> t' then Ready (Some (Inl BodyTimedOut))
     else snd (pf' (inner_body tb)))"
proof -
  obtain r' where tb: "tb = ReadTimeout r'" and p: "poll_read pf t r = (r', Ready (Some (Inr f)))"
    using assms by (cases "poll_read pf t r") auto
  have "rb_sleep r' = Some (t + rb_timeout r)" and "rb_timeout r' = rb_timeout r"
    using p by (auto simp: poll_read_def Let_def split: if_splits option.splits poll.splits
        sum.splits prod.splits)
  then show ?thesis
    by (auto simp: tb poll_read_def slept_def Let_def split: option.splits poll.splits sum.splits prod.splits)
qed

section \<open>Witnesses\<close>

definition ready_frame :: "nat \<Rightarrow> nat \<times> (string timeout_error + nat) option poll" where
  "ready_frame n = (Suc n, Ready (Some (Inr n)))"

lemma total_timeout_restarts_witness:
  "snd (poll_frame ready_frame 15 (TotalTimeout 19 (0::nat))) = Ready (Some (Inr 0)) \<and>
   timed_poll_response (timeout_call (Some (set_total_timeout timeout_default 10)) None 0) 15
     (Pending :: (string timeout_error + nat \<times> nat) poll) = Ready (Inl RequestTimedOut)"
  using total_timeout_restarts [of "Some (set_total_timeout timeout_default 10)" None 10 0 9
      "0::nat" "0::nat" 0 "TotalTimeout 19 0" 15 ready_frame "[]"]
  by (simp add: fetch_timeout_options_def rc_fetch_def set_total_timeout_def timeout_default_def
      or_else_def poll_response_ready timeout_body_new_def poll_frames_def poll_total_def
      slept_def poll_and_map_body_def ready_frame_def)

lemma read_timeout_counts_the_reader_witness:
  "snd (poll_frame ready_frame 21
     (ReadTimeout \<lparr>rb_timeout = 10, rb_sleep = Some 15, rb_body = 1\<rparr>)) = Ready (Some (Inl BodyTimedOut)) \<and>
   snd (poll_frame ready_frame 16
     (fst (poll_frame ready_frame 5 (ReadTimeout \<lparr>rb_timeout = 10, rb_sleep = None, rb_body = 0\<rparr>)))) =
   Ready (Some (Inl BodyTimedOut))"
proof -
  have "poll_frame ready_frame 5 (ReadTimeout \<lparr>rb_timeout = 10, rb_sleep = None, rb_body = 0\<rparr>) =
      (ReadTimeout \<lparr>rb_timeout = 10, rb_sleep = Some 15, rb_body = 1\<rparr>, Ready (Some (Inr 0)))"
    by (simp add: poll_read_def slept_def ready_frame_def)
  note first = this
  show ?thesis
    using read_timeout_counts_the_reader [OF first, of ready_frame 21]
      read_timeout_counts_the_reader [OF first, of ready_frame 16]
    unfolding first by simp
qed

end
