(* ===== verification/Orig_Headers.thy ===== *)
theory Orig_Headers
  imports Header_Map
begin

text \<open>
  Original header names (\<open>src/src/header.rs\<close>): the map that remembers how names were written
  and in which order, and the two callbacks that put a request's headers in that order. The
  underlying \<open>HeaderMap\<close> of names is third-party, observed through its groups in iteration
  order.
\<close>

datatype case_name = Cased string | Standard string

record 'm case_ops =
  co_groups :: "'m \<Rightarrow> (string \<times> case_name list) list"
  co_new :: 'm
  co_append :: "'m \<Rightarrow> string \<Rightarrow> case_name \<Rightarrow> 'm"
  co_extend :: "'m \<Rightarrow> 'm \<Rightarrow> 'm"

definition case_name_bytes :: "case_name \<Rightarrow> string" where
  "case_name_bytes c = (case c of Standard n \<Rightarrow> n | Cased b \<Rightarrow> b)"

text \<open>\<open>from_bytes\<close> of \<open>HeaderName\<close> is \<open>parse\<close>; the result of \<open>append\<close> says whether the name was there.\<close>

definition orig_len :: "'m case_ops \<Rightarrow> 'm \<Rightarrow> nat" where
  "orig_len C m = sum_list (map (\<lambda>(n, cs). length cs) (co_groups C m))"

definition orig_is_empty :: "'m case_ops \<Rightarrow> 'm \<Rightarrow> bool" where
  "orig_is_empty C m \<longleftrightarrow> orig_len C m = 0"

definition orig_contains :: "'m case_ops \<Rightarrow> 'm \<Rightarrow> string \<Rightarrow> bool" where
  "orig_contains C m n \<longleftrightarrow> map_of (co_groups C m) n \<noteq> None"

definition orig_insert :: "'m case_ops \<Rightarrow> (string \<Rightarrow> string option) \<Rightarrow> 'm \<Rightarrow> case_name \<Rightarrow> 'm \<times> bool" where
  "orig_insert C parse m c =
     (case c of
        Cased bytes \<Rightarrow>
          (case parse bytes of
             Some n \<Rightarrow> (co_append C m n c, orig_contains C m n)
           | None \<Rightarrow> (m, False))
      | Standard n \<Rightarrow> (co_append C m n c, orig_contains C m n))"

definition orig_iter :: "'m case_ops \<Rightarrow> 'm \<Rightarrow> (string \<times> case_name) list" where
  "orig_iter C m = concat (map (\<lambda>(n, cs). map (Pair n) cs) (co_groups C m))"

section \<open>Sorting the headers of a request\<close>

definition sort_named :: "'h header_ops \<Rightarrow> string list \<Rightarrow> 'h \<times> 'h \<Rightarrow> 'h \<times> 'h" where
  "sort_named H names st =
     foldl (\<lambda>(headers, dst) n.
        (h_remove H headers n, foldl (\<lambda>m. h_append H m n) dst (h_get_all H headers n))) st names"

text \<open>The loop over \<open>drain\<close>; an item without a name before any name is dropped.\<close>

fun sort_rest :: "'h header_ops \<Rightarrow> 'h \<Rightarrow> string option \<Rightarrow> (string option \<times> hvalue) list \<Rightarrow> 'h" where
  "sort_rest H dst prev [] = dst"
| "sort_rest H dst prev ((Some n, v) # xs) = sort_rest H (h_insert H dst n v) (Some n) xs"
| "sort_rest H dst prev ((None, v) # xs) =
     (case prev of
        Some n \<Rightarrow> sort_rest H (h_append H dst n v) (Some n) xs
      | None \<Rightarrow> sort_rest H dst None xs)"

definition h_len :: "'h header_ops \<Rightarrow> 'h \<Rightarrow> nat" where
  "h_len H m = length (h_iter H m)"

definition orig_call :: "'h header_ops \<Rightarrow> 'm case_ops \<Rightarrow> 'm \<Rightarrow> 'h \<Rightarrow> 'h" where
  "orig_call H C m headers =
     (if h_len H headers \<le> 1 \<or> orig_is_empty C m then headers
      else (case sort_named H (map fst (co_groups C m)) (headers, h_new H) of
              (headers, dst) \<Rightarrow> sort_rest H dst None (h_into_iter H headers)))"

text \<open>\<open>call_visit\<close>: what the visitor is shown, in order.\<close>

definition visit_named ::
    "'h header_ops \<Rightarrow> (string \<times> case_name) list \<Rightarrow> 'h \<Rightarrow> 'h \<times> (case_name \<times> hvalue) list" where
  "visit_named H names headers =
     foldl (\<lambda>(headers, out) (n, c).
        (h_remove H headers n, out @ map (Pair c) (h_get_all H headers n))) (headers, []) names"

fun visit_rest :: "case_name option \<Rightarrow> (string option \<times> hvalue) list \<Rightarrow> (case_name \<times> hvalue) list" where
  "visit_rest prev [] = []"
| "visit_rest prev ((Some n, v) # xs) = (Standard n, v) # visit_rest (Some (Standard n)) xs"
| "visit_rest prev ((None, v) # xs) =
     (case prev of Some c \<Rightarrow> (c, v) # visit_rest (Some c) xs | None \<Rightarrow> visit_rest None xs)"

definition orig_call_visit :: "'h header_ops \<Rightarrow> 'm case_ops \<Rightarrow> 'm \<Rightarrow> 'h \<Rightarrow> (case_name \<times> hvalue) list" where
  "orig_call_visit H C m headers =
     (case visit_named H (orig_iter C m) headers of
        (headers, out) \<Rightarrow> out @ visit_rest None (h_into_iter H headers))"

section \<open>Properties\<close>

text \<open>A name as written stands for the header of its canonical name.\<close>

definition orig_ok :: "'m case_ops \<Rightarrow> (string \<Rightarrow> string option) \<Rightarrow> 'm \<Rightarrow> bool" where
  "orig_ok C parse m \<longleftrightarrow>
     (\<forall>(n, c) \<in> set (orig_iter C m). case c of Cased b \<Rightarrow> parse b = Some n | Standard k \<Rightarrow> k = n)"

definition canonical :: "(string \<Rightarrow> string option) \<Rightarrow> case_name \<Rightarrow> string option" where
  "canonical parse c = (case c of Cased b \<Rightarrow> parse b | Standard n \<Rightarrow> Some n)"

definition shown :: "(string \<Rightarrow> string option) \<Rightarrow> string \<Rightarrow> (case_name \<times> hvalue) list \<Rightarrow> hvalue list" where
  "shown parse n out = map snd (filter (\<lambda>(c, v). canonical parse c = Some n) out)"

lemma shown_simps [simp]:
  "shown parse n [] = []"
  "shown parse n (xs @ ys) = shown parse n xs @ shown parse n ys"
  "shown parse n (map (Pair c) vs) = (if canonical parse c = Some n then vs else [])"
  "shown parse n ((c, v) # xs) = (if canonical parse c = Some n then v # shown parse n xs else shown parse n xs)"
  by (simp_all add: shown_def o_def filter_map)

lemma canonical_Standard [simp]: "canonical parse (Standard n) = Some n"
  by (simp add: canonical_def)

lemma visit_named_snoc:
  "visit_named H (xs @ [(n, c)]) headers =
     (case visit_named H xs headers of (hs, out) \<Rightarrow>
        (h_remove H hs n, out @ map (Pair c) (h_get_all H hs n)))"
  by (simp add: visit_named_def split: prod.splits)

text \<open>Between the part shown and the headers left, nothing is lost or shown twice.\<close>

lemma visit_named_split:
  assumes "header_laws H" and "\<forall>(n, c) \<in> set xs. canonical parse c = Some n"
    and "visit_named H xs headers = (hs, out)"
  shows "shown parse n out @ h_get_all H hs n = h_get_all H headers n"
    and "h_get_all H hs n = (if n \<in> fst ` set xs then [] else h_get_all H headers n)"
  using assms(2,3)
proof (induction xs arbitrary: hs out rule: rev_induct)
  case Nil
  { case 1 then show ?case by (simp add: visit_named_def) }
  { case 2 then show ?case by (simp add: visit_named_def) }
next
  case (snoc x xs)
  obtain k c where x: "x = (k, c)" by fastforce
  obtain hs0 out0 where v: "visit_named H xs headers = (hs0, out0)" by fastforce
  { case 1
    then have xs: "\<forall>(n, c) \<in> set xs. canonical parse c = Some n" and c: "canonical parse c = Some k"
      and hs: "hs = h_remove H hs0 k" and out: "out = out0 @ map (Pair c) (h_get_all H hs0 k)"
      using v by (auto simp: x visit_named_snoc)
    show ?case
      using snoc.IH(1) [OF xs v] c by (auto simp: hs out header_lawsD(3) [OF assms(1)])
  }
  { case 2
    then have xs: "\<forall>(n, c) \<in> set xs. canonical parse c = Some n" and hs: "hs = h_remove H hs0 k"
      using v by (auto simp: x visit_named_snoc)
    show ?case
      using snoc.IH(2) [OF xs v] by (simp add: hs x header_lawsD(3) [OF assms(1)])
  }
qed

lemma visit_rest_group:
  "visit_rest (Some c) (map (Pair None) vs @ rest) = map (Pair c) vs @ visit_rest (Some c) rest"
  by (induction vs) auto

lemma visit_rest_groups:
  assumes "hm_ok gs" and "hm_all (\<lambda>n vs. vs \<noteq> []) gs"
  shows "shown parse n (visit_rest prev (concat (map group_items gs))) =
    (case map_of gs n of Some vs \<Rightarrow> vs | None \<Rightarrow> [])"
  using assms
proof (induction gs arbitrary: prev)
  case (Cons g gs)
  obtain k v vs where g: "g = (k, v # vs)"
    using Cons.prems(2) by (cases g; cases "snd g") (auto simp: hm_all_def)
  have "hm_ok gs" "hm_all (\<lambda>n vs. vs \<noteq> []) gs" "map_of gs k = None"
    using Cons.prems g by (auto simp: hm_all_def map_of_eq_None_iff)
  with Cons.IH g show ?case
    by (auto simp: visit_rest_group)
qed simp

lemma visit_rest_values:
  assumes "header_laws H"
  shows "shown parse n (visit_rest prev (h_into_iter H hs)) = h_get_all H hs n"
proof -
  have "hm_ok (h_groups H hs)" and "hm_all (\<lambda>n vs. vs \<noteq> []) (h_groups H hs)"
    using assms by (auto simp: header_laws_def hm_all_def)
  from visit_rest_groups [OF this] show ?thesis
    by (simp add: h_into_iter_def h_get_all_def)
qed

text \<open>Writing a request's headers under their original names shows each value exactly
  once: for every header, the values shown under a spelling of its name are the header's
  values, in their order, whatever spellings were recorded and how often.\<close>

lemma visit_preserves_headers:
  assumes "header_laws H" and "orig_ok C parse m"
  shows "shown parse n (orig_call_visit H C m headers) = h_get_all H headers n"
proof -
  obtain hs out where v: "visit_named H (orig_iter C m) headers = (hs, out)"
    by fastforce
  have "\<forall>(n, c) \<in> set (orig_iter C m). canonical parse c = Some n"
    using assms(2) by (auto simp: orig_ok_def canonical_def split: case_name.splits)
  from visit_named_split(1) [OF assms(1) this v] show ?thesis
    by (simp add: orig_call_visit_def v visit_rest_values [OF assms(1)])
qed

lemma sort_named_split:
  assumes "header_laws H" and "distinct names" and "sort_named H names (headers, h_new H) = (hs, dst)"
  shows "h_get_all H dst n = (if n \<in> set names then h_get_all H headers n else [])"
    and "h_get_all H hs n = (if n \<in> set names then [] else h_get_all H headers n)"
  using assms(2,3)
proof (induction names arbitrary: hs dst rule: rev_induct)
  case Nil
  { case 1 then show ?case by (auto simp: sort_named_def header_lawsD [OF assms(1)]) }
  { case 2 then show ?case by (auto simp: sort_named_def) }
next
  case (snoc k names)
  obtain hs0 dst0 where s: "sort_named H names (headers, h_new H) = (hs0, dst0)" by fastforce
  have step: "sort_named H (names @ [k]) (headers, h_new H) =
      (h_remove H hs0 k, foldl (\<lambda>m. h_append H m k) dst0 (h_get_all H hs0 k))"
    using s by (simp add: sort_named_def)
  { case 1
    then show ?case
      using snoc.IH(1) [OF _ s] snoc.IH(2) [OF _ s] step
      by (auto simp: get_all_foldl_append [OF assms(1)]) }
  { case 2
    then show ?case
      using snoc.IH(2) [OF _ s] step by (auto simp: header_lawsD(3) [OF assms(1)]) }
qed

lemma sort_rest_values:
  "sort_rest H dst (Some k) (map (Pair None) vs @ rest) =
     sort_rest H (foldl (\<lambda>m. h_append H m k) dst vs) (Some k) rest"
  by (induction vs arbitrary: dst) auto

lemma sort_rest_groups:
  assumes "header_laws H" and "hm_ok gs" and "hm_all (\<lambda>n vs. vs \<noteq> []) gs"
  shows "h_get_all H (sort_rest H dst prev (concat (map group_items gs))) n =
    (case map_of gs n of Some vs \<Rightarrow> vs | None \<Rightarrow> h_get_all H dst n)"
  using assms(2,3)
proof (induction gs arbitrary: dst prev)
  case (Cons g gs)
  obtain k v vs where g: "g = (k, v # vs)"
    using Cons.prems(2) by (cases g; cases "snd g") (auto simp: hm_all_def)
  have "hm_ok gs" "hm_all (\<lambda>n vs. vs \<noteq> []) gs" "map_of gs k = None"
    using Cons.prems g by (auto simp: hm_all_def map_of_eq_None_iff)
  with Cons.IH g show ?case
    by (auto simp: sort_rest_values get_all_foldl_append [OF assms(1)] header_lawsD [OF assms(1)]
        split: option.splits)
qed simp

text \<open>Sorting a request's headers keeps the values of each of them.\<close>

lemma orig_call_preserves:
  assumes "header_laws H" and "distinct (map fst (co_groups C m))"
  shows "h_get_all H (orig_call H C m headers) n = h_get_all H headers n"
proof (cases "h_len H headers \<le> 1 \<or> orig_is_empty C m")
  case False
  obtain hs dst where s: "sort_named H (map fst (co_groups C m)) (headers, h_new H) = (hs, dst)"
    by fastforce
  have "hm_ok (h_groups H hs)" and "hm_all (\<lambda>n vs. vs \<noteq> []) (h_groups H hs)"
    using assms(1) by (auto simp: header_laws_def hm_all_def)
  from sort_rest_groups [OF assms(1) this, of dst None n]
  have "h_get_all H (orig_call H C m headers) n =
      (case map_of (h_groups H hs) n of Some vs \<Rightarrow> vs | None \<Rightarrow> h_get_all H dst n)"
    using False by (simp add: orig_call_def s h_into_iter_def)
  also have "\<dots> = h_get_all H headers n"
  proof (cases "map_of (h_groups H hs) n")
    case None
    then have "h_get_all H hs n = []"
      by (simp add: h_get_all_def)
    with None sort_named_split [OF assms(1,2) s] show ?thesis
      by (simp split: if_splits)
  next
    case (Some vs)
    then have "h_get_all H hs n = vs" and "vs \<noteq> []"
      using h_group_nonempty [OF assms(1)] by (auto simp: h_get_all_def dest: map_of_SomeD)
    with Some sort_named_split(2) [OF assms(1,2) s, of n] show ?thesis
      by (simp split: if_splits)
  qed
  finally show ?thesis .
qed (auto simp: orig_call_def)

section \<open>Witness\<close>

definition list_cases :: "(string \<times> case_name list) list case_ops" where
  "list_cases =
     \<lparr>co_groups = (\<lambda>m. m), co_new = [],
      co_append = (\<lambda>m n c. AList.update n ((case map_of m n of None \<Rightarrow> [] | Some cs \<Rightarrow> cs) @ [c]) m),
      co_extend = (\<lambda>m m'. m @ m')\<rparr>"

definition lower_name :: "string \<Rightarrow> string option" where
  "lower_name b = Some (map ascii_lower b)"

definition sample_orig :: "(string \<times> case_name list) list" where
  "sample_orig =
     fst (orig_insert list_cases lower_name (fst (orig_insert list_cases lower_name [] (Cased ''X-Test'')))
       (Cased ''x-TEST''))"

lemma sample_orig_eq: "sample_orig = [(''x-test'', [Cased ''X-Test'', Cased ''x-TEST''])]"
  by (simp add: sample_orig_def orig_insert_def lower_name_def list_cases_def ascii_lower_def
      char_of_def bit_iff_odd Let_def)

lemma visit_preserves_headers_witness:
  "shown lower_name ''x-test'' (orig_call_visit list_headers list_cases sample_orig
     [(''a'', [plain ''1'']), (''x-test'', [plain ''2'', plain ''3''])]) = [plain ''2'', plain ''3'']"
proof -
  have "orig_ok list_cases lower_name sample_orig"
    by (simp add: orig_ok_def orig_iter_def list_cases_def sample_orig_eq lower_name_def ascii_lower_def
        char_of_def bit_iff_odd Let_def)
  from visit_preserves_headers [OF list_headers_laws this] show ?thesis
    by (simp add: list_headers_get_all)
qed

end
