(* ===== verification/Config_Layer.thy ===== *)
theory Config_Layer
  imports Http_Types Request_Config Orig_Headers
begin

text \<open>
  The configuration layer (\<open>src/src/client/layer/config.rs\<close>): the scheme check, the client's
  default headers and the original header names of each request. A request carries the two
  extensions the layer reads; \<open>on_preserve_header\<close> of the protocol crate stores the names
  with the request.
\<close>

record ('h, 'm) config_request = "'h request" +
  rq_default_headers :: "bool slot"
  rq_orig_headers :: "'m slot"
  rq_preserve :: "'m option"

record ('h, 'm) layer_config =
  lc_https_only :: bool
  lc_headers :: 'h
  lc_orig_headers :: "'m rconfig"
  lc_default_headers :: "bool rconfig"

definition config_layer_new :: "'m case_ops \<Rightarrow> bool \<Rightarrow> 'h \<Rightarrow> 'm \<Rightarrow> ('h, 'm) layer_config" where
  "config_layer_new C https_only headers orig =
     \<lparr>lc_https_only = https_only, lc_headers = headers,
      lc_orig_headers = (if \<not> orig_is_empty C orig then Some orig else None),
      lc_default_headers = Some True\<rparr>"

datatype config_error = ConfigBadScheme uri | ConfigPanic

text \<open>
  \<open>call\<close>: the request handed to the inner service, or the error. \<open>ConfigPanic\<close> is the branch
  of \<open>replace_headers\<close> marked unreachable.
\<close>

definition config_call ::
    "'h header_ops \<Rightarrow> ('h, 'm) layer_config \<Rightarrow> ('h, 'm) config_request \<Rightarrow>
     config_error + ('h, 'm) config_request" where
  "config_call H cfg req =
     (let u = rq_uri req in
      if \<not> (is_http u \<or> is_https u) \<or> (lc_https_only cfg \<and> \<not> is_https u)
      then Inl (ConfigBadScheme u)
      else
        (case (if (case rc_fetch (lc_default_headers cfg) (rq_default_headers req) of
                     Some b \<Rightarrow> b | None \<Rightarrow> False)
               then replace_headers H (lc_headers cfg) (rq_headers req)
               else Some (rq_headers req)) of
           None \<Rightarrow> Inl ConfigPanic
         | Some headers \<Rightarrow>
             (let req = req\<lparr>rq_headers := headers\<rparr> in
              case rc_take (lc_orig_headers cfg) (rq_orig_headers req) of
                (Some names, slot) \<Rightarrow> Inr (req\<lparr>rq_orig_headers := slot, rq_preserve := Some names\<rparr>)
              | (None, slot) \<Rightarrow> Inr (req\<lparr>rq_orig_headers := slot\<rparr>))))"

section \<open>Properties\<close>

text \<open>A request leaves the client only over \<open>http\<close> or \<open>https\<close>, and only over \<open>https\<close>
  when the client is restricted to it; every header of the request keeps its values, and a
  default header is added exactly when the request does not have it and has not opted out.\<close>

lemma config_call_decision:
  assumes "header_laws H"
  shows "case config_call H (config_layer_new C https_only headers orig) req of
      Inl e \<Rightarrow> e = ConfigBadScheme (rq_uri req) \<and>
        \<not> is_https (rq_uri req) \<and> (https_only \<or> \<not> is_http (rq_uri req))
    | Inr req' \<Rightarrow> (is_https (rq_uri req) \<or> is_http (rq_uri req) \<and> \<not> https_only) \<and>
        rq_uri req' = rq_uri req \<and> rq_method req' = rq_method req \<and>
        (\<forall>n. h_get_all H (rq_headers req') n =
          (if h_contains H (rq_headers req) n \<or> rc_get (rq_default_headers req) = Some False
           then h_get_all H (rq_headers req) n else h_get_all H headers n))"
proof (cases "\<not> is_https (rq_uri req) \<and> (https_only \<or> \<not> is_http (rq_uri req))")
  case True
  then show ?thesis
    by (auto simp: config_call_def config_layer_new_def Let_def)
next
  case False
  obtain m where m: "replace_headers H headers (rq_headers req) = Some m"
    and get: "\<And>n. h_get_all H m n =
      (if h_contains H (rq_headers req) n then h_get_all H (rq_headers req) n else h_get_all H headers n)"
    using replace_headers_get_all [OF assms, of headers "rq_headers req"] by blast
  have none: "\<not> h_contains H (rq_headers req) n \<Longrightarrow> h_get_all H (rq_headers req) n = []" for n
    by (simp add: h_contains_def)
  have flag: "rc_fetch (Some True) (rq_default_headers req) =
      (case rc_get (rq_default_headers req) of Some b \<Rightarrow> Some b | None \<Rightarrow> Some True)"
    by (simp add: rc_fetch_def rc_get_def)
  show ?thesis
  proof (cases "rc_get (rq_default_headers req) = Some False")
    case True
    with False show ?thesis
      by (auto simp: config_call_def config_layer_new_def flag Let_def split: option.splits prod.splits)
  next
    case wanted: False
    then have "rc_fetch (Some True) (rq_default_headers req) = Some True"
      by (auto simp: flag split: option.splits bool.splits)
    with wanted False m get show ?thesis
      by (auto simp: config_call_def config_layer_new_def Let_def split: option.splits prod.splits)
  qed
qed

text \<open>The names recorded for the request are the ones it was given, else the client's.\<close>

lemma config_call_names:
  assumes "config_call H cfg req = Inr req'" and "rq_orig_headers req = None"
  shows "rq_preserve req' = (case lc_orig_headers cfg of Some names \<Rightarrow> Some names | None \<Rightarrow> rq_preserve req)"
  using assms by (auto simp: config_call_def Let_def rc_take_def split: if_splits option.splits)

definition sample_config_request :: "((string \<times> hvalue list) list, (string \<times> case_name list) list) config_request" where
  "sample_config_request =
     \<lparr>rq_method = ''GET'', rq_uri = \<lparr>scheme = Some HTTPS, authority = Some ''a'', host = Some ''a'',
        port = None, path = ''/'', query = None\<rparr>, rq_version = HTTP_11,
      rq_headers = [(''accept'', [plain ''own''])], rq_default_headers = None, rq_orig_headers = None,
      rq_preserve = None\<rparr>"

lemma config_call_decision_witness:
  "\<exists>req'. config_call list_headers (config_layer_new list_cases True
      [(''accept'', [plain ''default'']), (''user-agent'', [plain ''u''])] []) sample_config_request = Inr req' \<and>
    h_get_all list_headers (rq_headers req') ''accept'' = [plain ''own''] \<and>
    h_get_all list_headers (rq_headers req') ''user-agent'' = [plain ''u'']"
proof -
  have https: "is_https (rq_uri sample_config_request)"
    by (simp add: sample_config_request_def is_https_def)
  show ?thesis
    using config_call_decision [OF list_headers_laws, where C = list_cases and https_only = True
        and headers = "[(''accept'', [plain ''default'']), (''user-agent'', [plain ''u''])]" and orig = "[]"
        and req = sample_config_request] https
    by (auto simp: list_headers_get_all sample_config_request_def h_contains_def rc_get_def
        split: sum.splits)
qed

end
