(* ===== verification/Tls_Session.thy ===== *)
theory Tls_Session
  imports Prelude
begin

text \<open>
  The TLS session cache (\<open>src/src/tls/session.rs\<close>). A session of the TLS library is its
  identifier, by which sessions are compared and hashed, and the version it was negotiated
  for. The LRU cache is third-party: the record of the operations used, observed through its
  capacity and the list of its sessions from the least to the most recently used one.
\<close>

datatype tls_version = TLS_1_0 | TLS_1_1 | TLS_1_2 | TLS_1_3

record tls_session =
  ss_id :: string
  ss_version :: tls_version

record 'm session_lru =
  sl_list :: "'m \<Rightarrow> tls_session list"
  sl_cap :: "'m \<Rightarrow> nat option"
  sl_new :: "nat option \<Rightarrow> 'm"
  sl_put :: "'m \<Rightarrow> tls_session \<Rightarrow> 'm"
  sl_pop_lru :: "'m \<Rightarrow> 'm"
  sl_pop :: "'m \<Rightarrow> string \<Rightarrow> 'm"

abbreviation sl_ids :: "'m session_lru \<Rightarrow> 'm \<Rightarrow> string list" where
  "sl_ids L m \<equiv> map ss_id (sl_list L m)"

text \<open>\<open>put\<close> of a new session into a full cache evicts the least recently used one.\<close>

definition lru_ids_put :: "nat option \<Rightarrow> string list \<Rightarrow> string \<Rightarrow> string list" where
  "lru_ids_put cap ids i =
     (let full = (case cap of Some c \<Rightarrow> c \<le> length ids | None \<Rightarrow> False)
      in (if i \<in> set ids then filter (\<lambda>j. j \<noteq> i) ids else if full then tl ids else ids) @ [i])"

definition session_lru_laws :: "'m session_lru \<Rightarrow> bool" where
  "session_lru_laws L \<longleftrightarrow>
     (\<forall>m. distinct (sl_ids L m)) \<and>
     (\<forall>c. sl_list L (sl_new L c) = [] \<and> sl_cap L (sl_new L c) = c) \<and>
     (\<forall>m s. sl_ids L (sl_put L m s) = lru_ids_put (sl_cap L m) (sl_ids L m) (ss_id s) \<and>
        set (sl_list L (sl_put L m s)) \<subseteq> insert s (set (sl_list L m)) \<and>
        sl_cap L (sl_put L m s) = sl_cap L m) \<and>
     (\<forall>m. sl_list L (sl_pop_lru L m) = tl (sl_list L m) \<and> sl_cap L (sl_pop_lru L m) = sl_cap L m) \<and>
     (\<forall>m i. sl_list L (sl_pop L m i) = filter (\<lambda>s. ss_id s \<noteq> i) (sl_list L m) \<and>
        sl_cap L (sl_pop L m i) = sl_cap L m)"

lemma session_lruD:
  assumes "session_lru_laws L"
  shows "distinct (sl_ids L m)" "sl_list L (sl_new L c) = []" "sl_cap L (sl_new L c) = c"
    "sl_ids L (sl_put L m s) = lru_ids_put (sl_cap L m) (sl_ids L m) (ss_id s)"
    "sl_cap L (sl_put L m s) = sl_cap L m"
    "sl_list L (sl_pop_lru L m) = tl (sl_list L m)" "sl_cap L (sl_pop_lru L m) = sl_cap L m"
    "sl_list L (sl_pop L m i) = filter (\<lambda>s. ss_id s \<noteq> i) (sl_list L m)"
    "sl_cap L (sl_pop L m i) = sl_cap L m"
  using assms unfolding session_lru_laws_def by blast+

section \<open>The cache\<close>

record ('k, 'm) session_cache =
  sc_reverse :: "(string, 'k) hmap"
  sc_per_host :: "('k, 'm) hmap"
  sc_capacity :: nat

definition session_cache_new :: "nat \<Rightarrow> ('k, 'm) session_cache" where
  "session_cache_new c = \<lparr>sc_reverse = [], sc_per_host = [], sc_capacity = c\<rparr>"

definition session_put ::
    "'m session_lru \<Rightarrow> ('k, 'm) session_cache \<Rightarrow> 'k \<Rightarrow> tls_session \<Rightarrow> ('k, 'm) session_cache" where
  "session_put L st key session =
     (let cap = sc_capacity st;
          lru = (case map_of (sc_per_host st) key of
                   Some m \<Rightarrow> m
                 | None \<Rightarrow> sl_new L (if cap = 0 then None else Some cap));
          (evicted, lru) =
            (if cap \<le> length (sl_list L lru)
             then (case sl_list L lru of s # _ \<Rightarrow> (Some s, sl_pop_lru L lru) | [] \<Rightarrow> (None, sl_pop_lru L lru))
             else (None, lru));
          reverse = (case evicted of Some s \<Rightarrow> AList.delete (ss_id s) (sc_reverse st) | None \<Rightarrow> sc_reverse st)
      in st\<lparr>sc_per_host := AList.update key (sl_put L lru session) (sc_per_host st),
            sc_reverse := AList.update (ss_id session) key reverse\<rparr>)"

text \<open>Taking a session out of the list of the host the reverse map names.\<close>

definition forget_session ::
    "'m session_lru \<Rightarrow> ('k, 'm) session_cache \<Rightarrow> string \<Rightarrow> ('k, 'm) session_cache" where
  "forget_session L st i =
     (case map_of (sc_reverse st) i of
        None \<Rightarrow> st
      | Some k \<Rightarrow>
          (let st = st\<lparr>sc_reverse := AList.delete i (sc_reverse st)\<rparr> in
           case map_of (sc_per_host st) k of
             None \<Rightarrow> st
           | Some m \<Rightarrow>
               (let m' = sl_pop L m i in
                st\<lparr>sc_per_host := (if sl_list L m' = [] then AList.delete k (sc_per_host st)
                                  else AList.update k m' (sc_per_host st))\<rparr>)))"

definition session_pop ::
    "'m session_lru \<Rightarrow> ('k, 'm) session_cache \<Rightarrow> 'k \<Rightarrow> tls_session option \<times> ('k, 'm) session_cache" where
  "session_pop L st key =
     (case map_of (sc_per_host st) key of
        None \<Rightarrow> (None, st)
      | Some m \<Rightarrow>
          (case sl_list L m of
             [] \<Rightarrow> (None, st)
           | s # _ \<Rightarrow>
               (Some s, if ss_version s = TLS_1_3 then forget_session L st (ss_id s) else st)))"

section \<open>The abstract cache\<close>

text \<open>Each host has a bounded queue of session identifiers.\<close>

definition host_ids :: "'m session_lru \<Rightarrow> ('k, 'm) session_cache \<Rightarrow> 'k \<Rightarrow> string list" where
  "host_ids L st k = (case map_of (sc_per_host st) k of Some m \<Rightarrow> sl_ids L m | None \<Rightarrow> [])"

definition queue_put :: "nat \<Rightarrow> ('k \<Rightarrow> string list) \<Rightarrow> 'k \<Rightarrow> string \<Rightarrow> 'k \<Rightarrow> string list" where
  "queue_put cap q k i =
     q(k := filter (\<lambda>j. j \<noteq> i) (if cap \<le> length (q k) then tl (q k) else q k) @ [i])"

definition queue_forget :: "('k \<Rightarrow> string list) \<Rightarrow> string \<Rightarrow> 'k \<Rightarrow> string list" where
  "queue_forget q i = (\<lambda>k. filter (\<lambda>j. j \<noteq> i) (q k))"

text \<open>
  The two maps agree: a session is in the list of a host exactly when the reverse map sends
  it there, and the lists respect the capacity.
\<close>

definition session_inv :: "'m session_lru \<Rightarrow> ('k, 'm) session_cache \<Rightarrow> bool" where
  "session_inv L st \<longleftrightarrow>
     hm_ok (sc_per_host st) \<and> hm_ok (sc_reverse st) \<and>
     (\<forall>i k. map_of (sc_reverse st) i = Some k \<longleftrightarrow> i \<in> set (host_ids L st k)) \<and>
     (\<forall>k. length (host_ids L st k) \<le> max 1 (sc_capacity st)) \<and>
     (\<forall>k m. map_of (sc_per_host st) k = Some m \<longrightarrow>
        sl_cap L m = (if sc_capacity st = 0 then None else Some (sc_capacity st)))"

lemma session_inv_new: "session_inv L (session_cache_new c)"
  by (simp add: session_inv_def session_cache_new_def host_ids_def)

lemma session_invD:
  assumes "session_inv L st"
  shows "map_of (sc_reverse st) i = Some k \<longleftrightarrow> i \<in> set (host_ids L st k)"
    "length (host_ids L st k) \<le> max 1 (sc_capacity st)"
    "map_of (sc_per_host st) k = Some m \<Longrightarrow>
      sl_cap L m = (if sc_capacity st = 0 then None else Some (sc_capacity st))"
    "hm_ok (sc_per_host st)" "hm_ok (sc_reverse st)"
  using assms unfolding session_inv_def by blast+

lemma tl_map_ids: "map ss_id (tl xs) = tl (map ss_id xs)"
  by (cases xs) auto

lemma lru_ids_put_room:
  "(case cap of Some c \<Rightarrow> length ids < c | None \<Rightarrow> True) \<Longrightarrow>
   lru_ids_put cap ids i = filter (\<lambda>j. j \<noteq> i) ids @ [i]"
  by (auto simp: lru_ids_put_def Let_def intro!: filter_True [symmetric] split: option.splits)

text \<open>What \<open>put\<close> does to the two maps.\<close>

lemma session_put_maps:
  assumes "session_lru_laws L" and "session_inv L st"
  shows "host_ids L (session_put L st key s) = queue_put (sc_capacity st) (host_ids L st) key (ss_id s)"
    and "map_of (sc_reverse (session_put L st key s)) i =
      (if i = ss_id s then Some key
       else if sc_capacity st \<le> length (host_ids L st key) \<and> host_ids L st key \<noteq> [] \<and>
               i = hd (host_ids L st key) then None
       else map_of (sc_reverse st) i)"
    and "map_of (sc_per_host (session_put L st key s)) k = Some m \<Longrightarrow>
      sl_cap L m = (if sc_capacity st = 0 then None else Some (sc_capacity st))"
proof -
  note law = session_lruD [OF assms(1)]
  let ?c = "sc_capacity st"
  define lru where "lru = (case map_of (sc_per_host st) key of
      Some m \<Rightarrow> m | None \<Rightarrow> sl_new L (if ?c = 0 then None else Some ?c))"
  define lru' where "lru' = (if ?c \<le> length (sl_list L lru) then sl_pop_lru L lru else lru)"
  have ids: "sl_ids L lru = host_ids L st key"
    by (auto simp: lru_def host_ids_def law split: option.splits)
  have cap: "sl_cap L lru = (if ?c = 0 then None else Some ?c)"
    using session_invD(3) [OF assms(2)] by (auto simp: lru_def law split: option.splits)
  have ids': "sl_ids L lru' = (if ?c \<le> length (host_ids L st key) then tl (host_ids L st key) else host_ids L st key)"
    using ids [symmetric] by (simp add: lru'_def law tl_map_ids)
  have cap': "sl_cap L lru' = (if ?c = 0 then None else Some ?c)"
    by (simp add: lru'_def law cap)
  have room: "case sl_cap L lru' of Some c \<Rightarrow> length (sl_ids L lru') < c | None \<Rightarrow> True"
    using session_invD(2) [OF assms(2), of key] unfolding ids' cap' by (auto simp: max_def)
  have put: "session_put L st key s = st\<lparr>sc_per_host := AList.update key (sl_put L lru' s) (sc_per_host st),
      sc_reverse := AList.update (ss_id s) key
        (if ?c \<le> length (sl_list L lru) \<and> sl_list L lru \<noteq> []
         then AList.delete (ss_id (hd (sl_list L lru))) (sc_reverse st) else sc_reverse st)\<rparr>"
    unfolding session_put_def Let_def lru_def [symmetric] lru'_def
    by (cases "sl_list L lru") auto
  have "sl_ids L (sl_put L lru' s) = filter (\<lambda>j. j \<noteq> ss_id s) (sl_ids L lru') @ [ss_id s]"
    unfolding law(4) by (rule lru_ids_put_room [OF room])
  then show "host_ids L (session_put L st key s) = queue_put ?c (host_ids L st) key (ss_id s)"
    by (auto simp: fun_eq_iff put host_ids_def [of L "st\<lparr>sc_per_host := _, sc_reverse := _\<rparr>"]
        queue_put_def ids' host_ids_def [of L st k for k])
  have len: "length (sl_list L lru) = length (host_ids L st key)"
    and ne: "sl_list L lru = [] \<longleftrightarrow> host_ids L st key = []"
    and hd: "sl_list L lru \<noteq> [] \<Longrightarrow> ss_id (hd (sl_list L lru)) = hd (host_ids L st key)"
    using ids [symmetric] by (simp_all add: hd_map)
  show "map_of (sc_reverse (session_put L st key s)) i =
      (if i = ss_id s then Some key
       else if ?c \<le> length (host_ids L st key) \<and> host_ids L st key \<noteq> [] \<and> i = hd (host_ids L st key) then None
       else map_of (sc_reverse st) i)"
    using hd by (simp add: put len ne)
  show "map_of (sc_per_host (session_put L st key s)) k = Some m \<Longrightarrow>
      sl_cap L m = (if ?c = 0 then None else Some ?c)"
    using session_invD(3) [OF assms(2)] cap' by (auto simp: put law split: if_splits)
qed

lemma host_ids_distinct: "session_lru_laws L \<Longrightarrow> distinct (host_ids L st k)"
  by (simp add: host_ids_def session_lruD split: option.splits)

lemma session_put_inv:
  assumes "session_lru_laws L" and inv: "session_inv L st"
    and fresh: "map_of (sc_reverse st) (ss_id s) \<in> {None, Some key}"
  shows "session_inv L (session_put L st key s)"
proof -
  note maps = session_put_maps [OF assms(1,2)]
  have rev: "map_of (sc_reverse st) i = Some k \<longleftrightarrow> i \<in> set (host_ids L st k)" for i k
    by (rule session_invD(1) [OF inv])
  have dist: "distinct (host_ids L st k)" for k
    by (rule host_ids_distinct [OF assms(1)])
  let ?full = "sc_capacity st \<le> length (host_ids L st key)"
  let ?kept = "if ?full then tl (host_ids L st key) else host_ids L st key"
  have kept: "i \<in> set ?kept \<longleftrightarrow>
      i \<in> set (host_ids L st key) \<and> \<not> (?full \<and> host_ids L st key \<noteq> [] \<and> i = hd (host_ids L st key))" for i
    using dist [of key] by (cases "host_ids L st key") auto
  have cap: "sc_capacity (session_put L st key s) = sc_capacity st"
    by (simp add: session_put_def Let_def split: prod.splits)
  have "map_of (sc_reverse (session_put L st key s)) i = Some k \<longleftrightarrow>
      i \<in> set (host_ids L (session_put L st key s) k)" for i k
  proof (cases "k = key")
    case True
    then show ?thesis
      using kept [of i] rev [of i key] by (auto simp: maps(1,2) queue_put_def)
  next
    case False
    have "i \<noteq> ss_id s" if "i \<in> set (host_ids L st k)"
      using that fresh False rev [of i k] by auto
    moreover have "i \<noteq> hd (host_ids L st key)" if "i \<in> set (host_ids L st k)" "host_ids L st key \<noteq> []"
      using that False rev [of i k] rev [of "hd (host_ids L st key)" key] by auto
    ultimately show ?thesis
      using False rev [of i k] by (auto simp: maps(1,2) queue_put_def)
  qed
  moreover have "length (host_ids L (session_put L st key s) k) \<le> max 1 (sc_capacity st)" for k
  proof -
    have "length ?kept \<le> max 1 (sc_capacity st) - 1"
      using session_invD(2) [OF inv, of key] by auto
    then have "length (filter (\<lambda>j. j \<noteq> ss_id s) ?kept) \<le> max 1 (sc_capacity st) - 1"
      by (rule order.trans [OF length_filter_le])
    then show ?thesis
      using session_invD(2) [OF inv, of k] by (auto simp: maps(1) queue_put_def)
  qed
  moreover have "hm_ok (sc_per_host (session_put L st key s))" "hm_ok (sc_reverse (session_put L st key s))"
    using session_invD(4,5) [OF inv]
    by (auto simp: session_put_def Let_def intro: inv_intros split: prod.splits option.splits)
  ultimately show ?thesis
    unfolding session_inv_def cap using maps(3) by blast
qed

lemma forget_session_ids:
  assumes "session_lru_laws L" and inv: "session_inv L st"
  shows "host_ids L (forget_session L st i) = queue_forget (host_ids L st) i"
    and "map_of (sc_reverse (forget_session L st i)) j = (if j = i then None else map_of (sc_reverse st) j)"
proof -
  note law = session_lruD [OF assms(1)]
  have ids: "sl_ids L (sl_pop L m i) = filter (\<lambda>j. j \<noteq> i) (sl_ids L m)" for m
    by (simp add: law filter_map o_def)
  have absent: "filter (\<lambda>j. j \<noteq> i) (host_ids L st k) = host_ids L st k"
    if "map_of (sc_reverse st) i \<noteq> Some k" for k
    using that session_invD(1) [OF inv] by (auto intro!: filter_True)
  show "host_ids L (forget_session L st i) = queue_forget (host_ids L st) i"
  proof (cases "map_of (sc_reverse st) i")
    case None
    then show ?thesis
      using absent by (simp add: forget_session_def queue_forget_def fun_eq_iff)
  next
    case (Some k0)
    then have "i \<in> set (host_ids L st k0)"
      using session_invD(1) [OF inv] by blast
    then obtain m where m: "map_of (sc_per_host st) k0 = Some m"
      by (cases "map_of (sc_per_host st) k0") (auto simp: host_ids_def)
    show ?thesis
    proof
      fix k
      have empty: "filter (\<lambda>j. j \<noteq> i) (sl_ids L m) = []" if "sl_list L (sl_pop L m i) = []"
        using that ids [of m] by simp
      show "host_ids L (forget_session L st i) k = queue_forget (host_ids L st) i k"
      proof (cases "k = k0")
        case True
        have "host_ids L st k0 = sl_ids L m"
          by (simp add: host_ids_def m)
        then show ?thesis
          using ids [of m] empty
          by (simp add: True forget_session_def Some m queue_forget_def Let_def)
            (simp add: host_ids_def)
      next
        case False
        have "host_ids L (forget_session L st i) k = host_ids L st k"
          using False by (simp add: forget_session_def Some m host_ids_def Let_def)
        then show ?thesis
          using absent [of k] Some False by (simp add: queue_forget_def)
      qed
    qed
  qed
  show "map_of (sc_reverse (forget_session L st i)) j = (if j = i then None else map_of (sc_reverse st) j)"
    by (auto simp: forget_session_def Let_def split: option.splits)
qed

lemma forget_session_inv:
  assumes "session_lru_laws L" and inv: "session_inv L st"
  shows "session_inv L (forget_session L st i)"
proof -
  note ids = forget_session_ids [OF assms]
  have cap: "sc_capacity (forget_session L st i) = sc_capacity st"
    by (simp add: forget_session_def Let_def split: option.splits)
  have "map_of (sc_reverse (forget_session L st i)) j = Some k \<longleftrightarrow>
      j \<in> set (host_ids L (forget_session L st i) k)" for j k
    using session_invD(1) [OF inv] by (auto simp: ids queue_forget_def)
  moreover have "length (host_ids L (forget_session L st i) k) \<le> max 1 (sc_capacity st)" for k
    unfolding ids queue_forget_def
    by (rule order.trans [OF length_filter_le session_invD(2) [OF inv]])
  moreover have "hm_ok (sc_per_host (forget_session L st i))" "hm_ok (sc_reverse (forget_session L st i))"
    using session_invD(4,5) [OF inv]
    by (auto simp: forget_session_def Let_def intro: inv_intros split: option.splits)
  moreover have "map_of (sc_per_host (forget_session L st i)) k = Some m \<Longrightarrow>
      sl_cap L m = (if sc_capacity st = 0 then None else Some (sc_capacity st))" for k m
    using session_invD(3) [OF inv] session_lruD(9) [OF assms(1)]
    by (fastforce simp: forget_session_def Let_def split: option.splits if_splits)
  ultimately show ?thesis
    unfolding session_inv_def cap by blast
qed

section \<open>Sessions that are used once\<close>

text \<open>
  What a handshake relies on: a cache in which looking up a session that may be used only
  once removes it. Then no such session is handed to two handshakes, in whatever order the
  hosts are asked.
\<close>

locale single_use_cache =
  fixes pop :: "'s \<Rightarrow> 'k \<Rightarrow> 'v option \<times> 's"
    and good :: "'s \<Rightarrow> bool"
    and holds :: "'s \<Rightarrow> 'i set"
    and ident :: "'v \<Rightarrow> 'i"
    and once :: "'v \<Rightarrow> bool"
  assumes pop_good: "good st \<Longrightarrow> pop st k = (r, st') \<Longrightarrow> good st'"
    and pop_holds: "good st \<Longrightarrow> pop st k = (r, st') \<Longrightarrow> holds st' \<subseteq> holds st"
    and pop_from: "good st \<Longrightarrow> pop st k = (Some v, st') \<Longrightarrow> ident v \<in> holds st"
    and pop_once: "good st \<Longrightarrow> pop st k = (Some v, st') \<Longrightarrow> once v \<Longrightarrow> ident v \<notin> holds st'"
begin

fun pops :: "'s \<Rightarrow> 'k list \<Rightarrow> 'v list" where
  "pops st [] = []"
| "pops st (k # ks) =
     (case pop st k of (r, st') \<Rightarrow> (case r of Some v \<Rightarrow> [v] | None \<Rightarrow> []) @ pops st' ks)"

lemma pops_held: "good st \<Longrightarrow> v \<in> set (pops st ks) \<Longrightarrow> ident v \<in> holds st"
proof (induction ks arbitrary: st)
  case (Cons k ks)
  obtain r st' where p: "pop st k = (r, st')" by fastforce
  with Cons show ?case
    using pop_good [OF Cons.prems(1) p] pop_holds [OF Cons.prems(1) p] pop_from [OF Cons.prems(1)]
    by (auto split: option.splits)
qed simp

lemma pops_distinct: "good st \<Longrightarrow> distinct (map ident (filter once (pops st ks)))"
proof (induction ks arbitrary: st)
  case (Cons k ks)
  obtain r st' where p: "pop st k = (r, st')" by fastforce
  have good: "good st'"
    by (rule pop_good [OF Cons.prems p])
  show ?case
  proof (cases r)
    case (Some v)
    have "ident v \<notin> ident ` {w \<in> set (pops st' ks). once w}" if "once v"
      using pop_once [OF Cons.prems p [unfolded Some] that] pops_held [OF good] by auto
    then show ?thesis
      using Cons.IH [OF good] by (auto simp: p Some)
  qed (simp add: p Cons.IH [OF good])
qed simp

end

definition session_good :: "'m session_lru \<Rightarrow> ('k, 'm) session_cache \<Rightarrow> bool" where
  "session_good L st \<longleftrightarrow> session_lru_laws L \<and> session_inv L st"

definition session_ids :: "'m session_lru \<Rightarrow> ('k, 'm) session_cache \<Rightarrow> string set" where
  "session_ids L st = {i. \<exists>k. i \<in> set (host_ids L st k)}"

lemma session_pop_cases:
  assumes "session_pop L st k = (r, st')"
  shows "(r = None \<and> st' = st \<and> host_ids L st k = []) \<or>
    (\<exists>s. r = Some s \<and> host_ids L st k \<noteq> [] \<and> ss_id s = hd (host_ids L st k) \<and>
       st' = (if ss_version s = TLS_1_3 then forget_session L st (ss_id s) else st))"
  using assms by (auto simp: session_pop_def host_ids_def split: option.splits list.splits)

interpretation tls_cache: single_use_cache "session_pop L" "session_good L" "session_ids L" ss_id
    "\<lambda>s. ss_version s = TLS_1_3" for L :: "'m session_lru"
proof
  fix st :: "('k, 'm) session_cache" and k r st'
  assume good: "session_good L st" and p: "session_pop L st k = (r, st')"
  show "session_good L st'"
    using session_pop_cases [OF p] good forget_session_inv [of L st]
    by (auto simp: session_good_def)
  show "session_ids L st' \<subseteq> session_ids L st"
    using session_pop_cases [OF p] good forget_session_ids(1) [of L st]
    by (auto simp: session_good_def session_ids_def queue_forget_def split: if_splits)
next
  fix st :: "('k, 'm) session_cache" and k v st'
  assume good: "session_good L st" and p: "session_pop L st k = (Some v, st')"
  show "ss_id v \<in> session_ids L st"
    using session_pop_cases [OF p] by (auto simp: session_ids_def intro!: exI [of _ k])
  show "ss_id v \<notin> session_ids L st'" if "ss_version v = TLS_1_3"
    using session_pop_cases [OF p] good forget_session_ids(1) [of L st] that
    by (auto simp: session_good_def session_ids_def queue_forget_def)
qed

section \<open>Properties\<close>

text \<open>The session cache implements one bounded queue of sessions for each host. Storing a
  session, one not already stored for another host, appends it to the host's queue and drops
  the oldest when the queue is full; a lookup gives the oldest, and takes a TLS 1.3 session
  out of the queue. No operation touches the queue of another host.\<close>

lemma session_cache_refines:
  assumes "session_lru_laws L" and "session_inv L st"
    and "map_of (sc_reverse st) (ss_id s) \<in> {None, Some key}"
  shows "session_inv L (session_put L st key s) \<and>
    host_ids L (session_put L st key s) = queue_put (sc_capacity st) (host_ids L st) key (ss_id s) \<and>
    (case session_pop L st key of
       (None, st') \<Rightarrow> host_ids L st key = [] \<and> st' = st
     | (Some v, st') \<Rightarrow> session_inv L st' \<and> (\<exists>q. host_ids L st key = ss_id v # q) \<and>
         host_ids L st' = (if ss_version v = TLS_1_3 then queue_forget (host_ids L st) (ss_id v)
                           else host_ids L st))"
proof -
  obtain r st' where p: "session_pop L st key = (r, st')"
    by fastforce
  have "case r of None \<Rightarrow> host_ids L st key = [] \<and> st' = st
     | Some v \<Rightarrow> session_inv L st' \<and> (\<exists>q. host_ids L st key = ss_id v # q) \<and>
         host_ids L st' = (if ss_version v = TLS_1_3 then queue_forget (host_ids L st) (ss_id v)
                           else host_ids L st)"
    using session_pop_cases [OF p] assms forget_session_inv [OF assms(1,2)]
      forget_session_ids(1) [OF assms(1,2)]
    by (cases "host_ids L st key") (auto split: option.splits)
  then show ?thesis
    using session_put_inv [OF assms] session_put_maps(1) [OF assms(1,2)] p
    by (auto split: option.splits)
qed

text \<open>No TLS 1.3 session is handed out twice, in whatever order the hosts are looked up,
  as long as no session was stored for two hosts.\<close>

lemma tls13_sessions_used_once:
  assumes "session_lru_laws L" and "session_inv L st"
  shows "distinct (map ss_id (filter (\<lambda>s. ss_version s = TLS_1_3) (tls_cache.pops L st ks)))"
  using assms by (intro tls_cache.pops_distinct) (simp add: session_good_def)

section \<open>A concrete cache\<close>

fun unique_ids :: "tls_session list \<Rightarrow> tls_session list" where
  "unique_ids [] = []"
| "unique_ids (s # ss) = s # filter (\<lambda>t. ss_id t \<noteq> ss_id s) (unique_ids ss)"

lemma unique_ids_distinct [simp]: "distinct (map ss_id (unique_ids ss))"
  by (induction ss) (auto simp: distinct_map_filter)

lemma unique_ids_id: "distinct (map ss_id ss) \<Longrightarrow> unique_ids ss = ss"
proof (induction ss)
  case (Cons s ss)
  then show ?case
    by (auto intro!: filter_True) (metis image_eqI)
qed simp

definition list_sessions :: "(nat option \<times> tls_session list) session_lru" where
  "list_sessions =
     \<lparr>sl_list = (\<lambda>(c, xs). unique_ids xs), sl_cap = fst, sl_new = (\<lambda>c. (c, [])),
      sl_put = (\<lambda>(c, xs) s.
        let xs = unique_ids xs; full = (case c of Some n \<Rightarrow> n \<le> length xs | None \<Rightarrow> False) in
        (c, (if ss_id s \<in> set (map ss_id xs) then filter (\<lambda>t. ss_id t \<noteq> ss_id s) xs
             else if full then tl xs else xs) @ [s])),
      sl_pop_lru = (\<lambda>(c, xs). (c, tl (unique_ids xs))),
      sl_pop = (\<lambda>(c, xs) i. (c, filter (\<lambda>t. ss_id t \<noteq> i) (unique_ids xs)))\<rparr>"

lemma list_sessions_laws: "session_lru_laws list_sessions"
proof -
  have tl: "unique_ids (tl (unique_ids xs)) = tl (unique_ids xs)" for xs
    by (rule unique_ids_id) (simp add: tl_map_ids distinct_tl)
  have filt: "unique_ids (filter P (unique_ids xs)) = filter P (unique_ids xs)" for P xs
    by (rule unique_ids_id) (simp add: distinct_map_filter)
  have snoc: "unique_ids (ys @ [s]) = ys @ [s]"
    if "distinct (map ss_id ys)" "ss_id s \<notin> set (map ss_id ys)" for ys s
    using that by (intro unique_ids_id) auto
  have "sl_ids list_sessions (sl_put list_sessions m s) =
      lru_ids_put (sl_cap list_sessions m) (sl_ids list_sessions m) (ss_id s) \<and>
      set (sl_list list_sessions (sl_put list_sessions m s)) \<subseteq> insert s (set (sl_list list_sessions m)) \<and>
      sl_cap list_sessions (sl_put list_sessions m s) = sl_cap list_sessions m" for m s
  proof -
    obtain c xs where m: "m = (c, xs)" by fastforce
    let ?u = "unique_ids xs"
    define ys where "ys = (if ss_id s \<in> set (map ss_id ?u) then filter (\<lambda>t. ss_id t \<noteq> ss_id s) ?u
        else if (case c of Some n \<Rightarrow> n \<le> length ?u | None \<Rightarrow> False) then tl ?u else ?u)"
    have put: "sl_put list_sessions m s = (c, ys @ [s])"
      by (simp add: list_sessions_def m ys_def Let_def)
    have "distinct (map ss_id ys)" "ss_id s \<notin> set (map ss_id ys)"
      by (auto simp: ys_def distinct_map_filter tl_map_ids distinct_tl dest: list.set_sel(2) [rotated]
          split: option.splits)
        (metis image_eqI list.set_sel(2) tl_Nil)+
    from snoc [OF this] have "sl_list list_sessions (sl_put list_sessions m s) = ys @ [s]"
      by (simp add: put) (simp add: list_sessions_def)
    moreover have "map ss_id ys = butlast (lru_ids_put c (map ss_id ?u) (ss_id s))"
      by (simp add: ys_def lru_ids_put_def Let_def tl_map_ids filter_map o_def split: option.splits)
    moreover have "lru_ids_put c (map ss_id ?u) (ss_id s) =
        butlast (lru_ids_put c (map ss_id ?u) (ss_id s)) @ [ss_id s]"
      by (simp add: lru_ids_put_def)
    moreover have "set ys \<subseteq> set ?u"
      by (auto simp: ys_def dest: list.set_sel(2) [rotated] split: option.splits) (metis list.set_sel(2) tl_Nil)+
    moreover have "sl_cap list_sessions m = c" "sl_list list_sessions m = ?u" "sl_cap list_sessions (c, ys @ [s]) = c"
      by (simp_all add: list_sessions_def m)
    ultimately show ?thesis
      using put by auto
  qed
  then show ?thesis
    unfolding session_lru_laws_def
    by (auto simp: list_sessions_def tl filt)
qed

abbreviation ticket :: "string \<Rightarrow> tls_session" where
  "ticket i \<equiv> \<lparr>ss_id = i, ss_version = TLS_1_3\<rparr>"

definition sample_cache :: "(nat, nat option \<times> tls_session list) session_cache" where
  "sample_cache = session_put list_sessions (session_put list_sessions (session_cache_new 2) 1 (ticket ''s''))
     1 (ticket ''t'')"

lemma sample_cache_inv: "session_inv list_sessions sample_cache"
  unfolding sample_cache_def
  by (intro session_put_inv list_sessions_laws session_inv_new)
    (simp_all add: session_put_def session_cache_new_def list_sessions_def Let_def)

lemma session_cache_refines_witness:
  "host_ids list_sessions (session_put list_sessions sample_cache 1 (ticket ''u'')) 1 = [''t'', ''u'']"
proof -
  have ids: "host_ids list_sessions sample_cache 1 = [''s'', ''t'']" "sc_capacity sample_cache = 2"
    by code_simp+
  have "map_of (sc_reverse sample_cache) (ss_id (ticket ''u'')) \<in> {None, Some 1}"
    by code_simp
  from session_cache_refines [OF list_sessions_laws sample_cache_inv this] ids show ?thesis
    by (simp add: queue_put_def)
qed

lemma tls13_sessions_used_once_witness:
  "distinct (map ss_id (filter (\<lambda>s. ss_version s = TLS_1_3)
     (tls_cache.pops list_sessions sample_cache [1, 1, 2, 1])))"
  by (rule tls13_sessions_used_once [OF list_sessions_laws sample_cache_inv])

text \<open>
  Without that proviso it is handed out twice: a session stored for one host and then for
  another is removed from the wrong list.
\<close>

lemma session_stored_for_two_hosts:
  "tls_cache.pops list_sessions
     (session_put list_sessions (session_put list_sessions (session_cache_new 2) (1::nat) (ticket ''s''))
        2 (ticket ''s'')) [1, 1] = [ticket ''s'', ticket ''s'']"
  by (simp add: session_put_def session_pop_def forget_session_def session_cache_new_def list_sessions_def
      Let_def)

text \<open>A cache of capacity zero still keeps one session for each host.\<close>

lemma capacity_zero_keeps_one:
  "host_ids list_sessions (session_put list_sessions (session_cache_new 0) (1::nat) (ticket ''s'')) 1 = [''s'']"
  by code_simp

end
