(* ===== verification/Tls_Options.thy ===== *)
theory Tls_Options
  imports Tls_Session
begin

text \<open>
  The TLS configuration (\<open>src/src/tls.rs\<close>): protocol names for ALPN and ALPS with their wire
  encoding, the options record with its defaults, and the builder's setters. Key shares,
  extension numbers and certificate compressors are values of the TLS library, kept as
  opaque types.
\<close>

typedecl key_share
typedecl extension_type
typedecl certificate_compressor

datatype alpn_protocol = AlpnProtocol (alpn_name: string)
datatype alps_protocol = AlpsProtocol (alps_name: string)

definition ALPN_HTTP1 :: alpn_protocol where "ALPN_HTTP1 = AlpnProtocol ''http/1.1''"
definition ALPN_HTTP2 :: alpn_protocol where "ALPN_HTTP2 = AlpnProtocol ''h2''"
definition ALPN_HTTP3 :: alpn_protocol where "ALPN_HTTP3 = AlpnProtocol ''h3''"

section \<open>The wire format of the ALPN list\<close>

text \<open>Each name is preceded by its length as one byte; \<open>as u8\<close> truncates it.\<close>

fun encode_sequence :: "alpn_protocol list \<Rightarrow> string" where
  "encode_sequence [] = []"
| "encode_sequence (p # ps) = char_of (length (alpn_name p)) # alpn_name p @ encode_sequence ps"

definition alpn_encode :: "alpn_protocol \<Rightarrow> string" where
  "alpn_encode p = encode_sequence [p]"

text \<open>What a peer reads back (RFC 7301, section 3.1): length-prefixed, non-empty names.\<close>

function decode_sequence :: "string \<Rightarrow> string list option" where
  "decode_sequence [] = Some []"
| "decode_sequence (c # cs) =
     (let n = of_char c in
      if n = 0 \<or> length cs < n then None
      else map_option ((#) (take n cs)) (decode_sequence (drop n cs)))"
  by pat_completeness auto
termination by (relation "measure length") auto

section \<open>Options\<close>

record tls_options =
  alpn_protocols :: "alpn_protocol list option"
  alps_protocols :: "alps_protocol list option"
  alps_use_new_codepoint :: bool
  session_ticket :: bool
  min_tls_version :: "tls_version option"
  max_tls_version :: "tls_version option"
  pre_shared_key :: bool
  enable_ech_grease :: bool
  permute_extensions :: "bool option"
  grease_enabled :: "bool option"
  enable_ocsp_stapling :: bool
  enable_signed_cert_timestamps :: bool
  record_size_limit :: "u16 option"
  psk_skip_session_ticket :: bool
  key_shares :: "key_share list option"
  psk_dhe_ke :: bool
  renegotiation :: bool
  delegated_credentials :: "string option"
  curves_list :: "string option"
  sigalgs_list :: "string option"
  cipher_list :: "string option"
  preserve_tls13_cipher_list :: "bool option"
  certificate_compressors :: "certificate_compressor list option"
  extension_permutation :: "extension_type list option"
  aes_hw_override :: "bool option"
  random_aes_hw_override :: bool

definition tls_options_default :: tls_options where
  "tls_options_default =
     \<lparr>alpn_protocols = Some [ALPN_HTTP2, ALPN_HTTP1], alps_protocols = None,
      alps_use_new_codepoint = False, session_ticket = True,
      min_tls_version = None, max_tls_version = None,
      pre_shared_key = False, enable_ech_grease = False,
      permute_extensions = None, grease_enabled = None,
      enable_ocsp_stapling = False, enable_signed_cert_timestamps = False,
      record_size_limit = None, psk_skip_session_ticket = False,
      key_shares = None, psk_dhe_ke = True, renegotiation = True,
      delegated_credentials = None, curves_list = None, sigalgs_list = None,
      cipher_list = None, preserve_tls13_cipher_list = None,
      certificate_compressors = None, extension_permutation = None,
      aes_hw_override = None, random_aes_hw_override = False\<rparr>"

section \<open>The builder\<close>

text \<open>
  \<open>TlsOptionsBuilder\<close> holds the options under construction; each setter overwrites one field.
  Lists are always wrapped in \<open>Some\<close>, optional scalars are taken as they come.
\<close>

definition tls_options_builder :: tls_options where
  "tls_options_builder = tls_options_default"

definition tls_set_alpn_protocols :: "alpn_protocol list \<Rightarrow> tls_options \<Rightarrow> tls_options" where
  "tls_set_alpn_protocols x o' = o'\<lparr>alpn_protocols := Some x\<rparr>"

definition tls_set_alps_protocols :: "alps_protocol list \<Rightarrow> tls_options \<Rightarrow> tls_options" where
  "tls_set_alps_protocols x o' = o'\<lparr>alps_protocols := Some x\<rparr>"

definition tls_set_alps_use_new_codepoint :: "bool \<Rightarrow> tls_options \<Rightarrow> tls_options" where
  "tls_set_alps_use_new_codepoint x o' = o'\<lparr>alps_use_new_codepoint := x\<rparr>"

definition tls_set_session_ticket :: "bool \<Rightarrow> tls_options \<Rightarrow> tls_options" where
  "tls_set_session_ticket x o' = o'\<lparr>session_ticket := x\<rparr>"

definition tls_set_min_tls_version :: "tls_version option \<Rightarrow> tls_options \<Rightarrow> tls_options" where
  "tls_set_min_tls_version x o' = o'\<lparr>min_tls_version := x\<rparr>"

definition tls_set_max_tls_version :: "tls_version option \<Rightarrow> tls_options \<Rightarrow> tls_options" where
  "tls_set_max_tls_version x o' = o'\<lparr>max_tls_version := x\<rparr>"

definition tls_set_pre_shared_key :: "bool \<Rightarrow> tls_options \<Rightarrow> tls_options" where
  "tls_set_pre_shared_key x o' = o'\<lparr>pre_shared_key := x\<rparr>"

definition tls_set_enable_ech_grease :: "bool \<Rightarrow> tls_options \<Rightarrow> tls_options" where
  "tls_set_enable_ech_grease x o' = o'\<lparr>enable_ech_grease := x\<rparr>"

definition tls_set_permute_extensions :: "bool option \<Rightarrow> tls_options \<Rightarrow> tls_options" where
  "tls_set_permute_extensions x o' = o'\<lparr>permute_extensions := x\<rparr>"

definition tls_set_grease_enabled :: "bool option \<Rightarrow> tls_options \<Rightarrow> tls_options" where
  "tls_set_grease_enabled x o' = o'\<lparr>grease_enabled := x\<rparr>"

definition tls_set_enable_ocsp_stapling :: "bool \<Rightarrow> tls_options \<Rightarrow> tls_options" where
  "tls_set_enable_ocsp_stapling x o' = o'\<lparr>enable_ocsp_stapling := x\<rparr>"

definition tls_set_enable_signed_cert_timestamps :: "bool \<Rightarrow> tls_options \<Rightarrow> tls_options" where
  "tls_set_enable_signed_cert_timestamps x o' = o'\<lparr>enable_signed_cert_timestamps := x\<rparr>"

definition tls_set_record_size_limit :: "u16 option \<Rightarrow> tls_options \<Rightarrow> tls_options" where
  "tls_set_record_size_limit x o' = o'\<lparr>record_size_limit := x\<rparr>"

definition tls_set_psk_skip_session_ticket :: "bool \<Rightarrow> tls_options \<Rightarrow> tls_options" where
  "tls_set_psk_skip_session_ticket x o' = o'\<lparr>psk_skip_session_ticket := x\<rparr>"

definition tls_set_psk_dhe_ke :: "bool \<Rightarrow> tls_options \<Rightarrow> tls_options" where
  "tls_set_psk_dhe_ke x o' = o'\<lparr>psk_dhe_ke := x\<rparr>"

definition tls_set_renegotiation :: "bool \<Rightarrow> tls_options \<Rightarrow> tls_options" where
  "tls_set_renegotiation x o' = o'\<lparr>renegotiation := x\<rparr>"

definition tls_set_delegated_credentials :: "string \<Rightarrow> tls_options \<Rightarrow> tls_options" where
  "tls_set_delegated_credentials x o' = o'\<lparr>delegated_credentials := Some x\<rparr>"

definition tls_set_key_shares :: "key_share list \<Rightarrow> tls_options \<Rightarrow> tls_options" where
  "tls_set_key_shares x o' = o'\<lparr>key_shares := Some x\<rparr>"

definition tls_set_curves_list :: "string \<Rightarrow> tls_options \<Rightarrow> tls_options" where
  "tls_set_curves_list x o' = o'\<lparr>curves_list := Some x\<rparr>"

definition tls_set_cipher_list :: "string \<Rightarrow> tls_options \<Rightarrow> tls_options" where
  "tls_set_cipher_list x o' = o'\<lparr>cipher_list := Some x\<rparr>"

definition tls_set_sigalgs_list :: "string \<Rightarrow> tls_options \<Rightarrow> tls_options" where
  "tls_set_sigalgs_list x o' = o'\<lparr>sigalgs_list := Some x\<rparr>"

definition tls_set_certificate_compressors :: "certificate_compressor list \<Rightarrow> tls_options \<Rightarrow> tls_options" where
  "tls_set_certificate_compressors x o' = o'\<lparr>certificate_compressors := Some x\<rparr>"

definition tls_set_extension_permutation :: "extension_type list \<Rightarrow> tls_options \<Rightarrow> tls_options" where
  "tls_set_extension_permutation x o' = o'\<lparr>extension_permutation := Some x\<rparr>"

definition tls_set_aes_hw_override :: "bool option \<Rightarrow> tls_options \<Rightarrow> tls_options" where
  "tls_set_aes_hw_override x o' = o'\<lparr>aes_hw_override := x\<rparr>"

definition tls_set_random_aes_hw_override :: "bool \<Rightarrow> tls_options \<Rightarrow> tls_options" where
  "tls_set_random_aes_hw_override x o' = o'\<lparr>random_aes_hw_override := x\<rparr>"

definition tls_set_preserve_tls13_cipher_list :: "bool option \<Rightarrow> tls_options \<Rightarrow> tls_options" where
  "tls_set_preserve_tls13_cipher_list x o' = o'\<lparr>preserve_tls13_cipher_list := x\<rparr>"

section \<open>Lemmas\<close>

definition alpn_ok :: "alpn_protocol \<Rightarrow> bool" where
  "alpn_ok p \<longleftrightarrow> 0 < length (alpn_name p) \<and> length (alpn_name p) < 256"

lemma of_char_length [simp]: "n < 256 \<Longrightarrow> of_char (char_of n :: char) = (n :: nat)"
  by simp

lemma alpn_constants_ok: "alpn_ok ALPN_HTTP1" "alpn_ok ALPN_HTTP2" "alpn_ok ALPN_HTTP3"
  by (simp_all add: alpn_ok_def ALPN_HTTP1_def ALPN_HTTP2_def ALPN_HTTP3_def)

lemma decode_encode:
  "list_all alpn_ok ps \<Longrightarrow> decode_sequence (encode_sequence ps) = Some (map alpn_name ps)"
  by (induction ps) (auto simp: alpn_ok_def Let_def)

text \<open>
  The ALPN extension carries exactly the configured protocols in their order: reading
  back the encoded list gives their names, for the names a one-byte length can carry, and no
  two configurations of such names are sent the same way.
\<close>

lemma alpn_wire_format:
  assumes "list_all alpn_ok ps" and "list_all alpn_ok qs"
  shows "decode_sequence (encode_sequence ps) = Some (map alpn_name ps) \<and>
    (encode_sequence ps = encode_sequence qs \<longleftrightarrow> ps = qs)"
proof (intro conjI iffI)
  show "decode_sequence (encode_sequence ps) = Some (map alpn_name ps)"
    using assms(1) by (rule decode_encode)
  assume "encode_sequence ps = encode_sequence qs"
  then have "map alpn_name ps = map alpn_name qs"
    using decode_encode [OF assms(1)] decode_encode [OF assms(2)] by simp
  then show "ps = qs"
    by (rule map_injective) (simp add: inj_def alpn_protocol.expand)
qed simp

lemma alpn_wire_format_witness:
  "decode_sequence (encode_sequence [ALPN_HTTP2, ALPN_HTTP1]) = Some [''h2'', ''http/1.1''] \<and>
   encode_sequence [ALPN_HTTP2, ALPN_HTTP1] = CHR 0x02 # ''h2'' @ CHR 0x08 # ''http/1.1'' \<and>
   encode_sequence [ALPN_HTTP2, ALPN_HTTP1] \<noteq> encode_sequence [ALPN_HTTP1, ALPN_HTTP2]"
proof -
  have ok: "list_all alpn_ok [ALPN_HTTP2, ALPN_HTTP1]" "list_all alpn_ok [ALPN_HTTP1, ALPN_HTTP2]"
    by (simp_all add: alpn_constants_ok)
  have "encode_sequence [ALPN_HTTP2, ALPN_HTTP1] = CHR 0x02 # ''h2'' @ CHR 0x08 # ''http/1.1''"
    by code_simp
  then show ?thesis
    using alpn_wire_format [OF ok] by (simp add: ALPN_HTTP1_def ALPN_HTTP2_def)
qed

end
