(* ===== verification/Errors.thy ===== *)
theory Errors
  imports Http_Client
begin

text \<open>
  The error type of the library and the questions it answers about its causes
  (\<open>src/src/error.rs\<close>). A boxed error is a tree of the errors the program makes: the
  library's own error, the client layer's, the proxy, SOCKS and tunnel errors, the DNS and
  TCP errors, and what the operating system, the protocol crate and the user's services
  report. \<open>source()\<close> is each type's own: an \<open>io::Error\<close> that carries another error passes
  on that error's source, and a SOCKS error has none.
\<close>

datatype error_kind =
    KBuilder | KRequestError | KTls | KRedirect | KStatus nat "string option" | KBody | KDecode
  | KUpgrade | KWebSocket

datatype io_kind = IoTimedOut | IoConnectionReset | IoOther

datatype tunnel_kind =
    TunnelConnectFailed | TunnelIo | TunnelParse | TunnelMissingHost | ProxyAuthRequired
  | TunnelUnexpectedEof | TunnelUnsuccessful

datatype socks_kind =
    SocksConnectFailed | DnsResolveFailure | SocksHandshake | SocksIo | SocksUtf8 | DnsFailure
  | SocksMissingHost

datatype std_error =
    EWreq error_kind "std_error option" "uri option"
  | EClient client_error_kind "std_error option"
  | EProxyConnect std_error
  | EDns std_error
  | ETunnel tunnel_kind "std_error option"
  | ESocks socks_kind "std_error option"
  | ETcp string "std_error option"
  | EIo io_kind "std_error option"
  | EProto bool "std_error option"
  | ETimedOut
  | EBadScheme
  | EElapsed
  | EOther string "std_error option"

fun std_source :: "std_error \<Rightarrow> std_error option" where
  "std_source (EWreq _ s _) = s"
| "std_source (EClient _ s) = s"
| "std_source (EProxyConnect s) = Some s"
| "std_source (EDns s) = Some s"
| "std_source (ETunnel k s) = s"
| "std_source (ESocks _ _) = None"
| "std_source (ETcp _ s) = s"
| "std_source (EIo _ (Some payload)) = std_source payload"
| "std_source (EIo _ None) = None"
| "std_source (EProto _ s) = s"
| "std_source ETimedOut = None"
| "std_source EBadScheme = None"
| "std_source EElapsed = None"
| "std_source (EOther _ s) = s"

lemma std_source_size: "std_source e = Some s \<Longrightarrow> size s < size e"
  by (induction e arbitrary: s rule: std_source.induct) fastforce+

text \<open>The errors the loop \<open>while let Some(err) = source\<close> looks at.\<close>

function sources :: "std_error \<Rightarrow> std_error list" where
  "sources e = (case std_source e of None \<Rightarrow> [] | Some s \<Rightarrow> s # sources s)"
  by pat_completeness auto
termination by (relation "measure size") (auto dest: std_source_size)

declare sources.simps [simp del]

lemma sources_eqs [simp]:
  "std_source e = None \<Longrightarrow> sources e = []"
  "std_source e = Some s \<Longrightarrow> sources e = s # sources s"
  by (simp_all add: sources.simps [of e])

section \<open>Constructors\<close>

definition error_new :: "error_kind \<Rightarrow> std_error option \<Rightarrow> std_error" where
  "error_new k s = EWreq k s None"

definition err_builder :: "std_error \<Rightarrow> std_error" where
  "err_builder e = error_new KBuilder (Some e)"

definition err_body :: "std_error \<Rightarrow> std_error" where
  "err_body e = error_new KBody (Some e)"

definition err_tls :: "std_error \<Rightarrow> std_error" where
  "err_tls e = error_new KTls (Some e)"

definition err_decode :: "std_error \<Rightarrow> std_error" where
  "err_decode e = error_new KDecode (Some e)"

definition err_request :: "std_error \<Rightarrow> std_error" where
  "err_request e = error_new KRequestError (Some e)"

definition err_upgrade :: "std_error \<Rightarrow> std_error" where
  "err_upgrade e = error_new KUpgrade (Some e)"

definition err_websocket :: "std_error \<Rightarrow> std_error" where
  "err_websocket e = error_new KWebSocket (Some e)"

fun with_uri :: "std_error \<Rightarrow> uri \<Rightarrow> std_error" where
  "with_uri (EWreq k s _) u = EWreq k s (Some u)"
| "with_uri e u = e"

fun without_uri :: "std_error \<Rightarrow> std_error" where
  "without_uri (EWreq k s _) = EWreq k s None"
| "without_uri e = e"

fun err_uri :: "std_error \<Rightarrow> uri option" where
  "err_uri (EWreq _ _ u) = u"
| "err_uri _ = None"

definition err_redirect :: "std_error \<Rightarrow> uri \<Rightarrow> std_error" where
  "err_redirect e u = with_uri (error_new KRedirect (Some e)) u"

definition err_status_code :: "uri \<Rightarrow> nat \<Rightarrow> string option \<Rightarrow> std_error" where
  "err_status_code u status reason = with_uri (error_new (KStatus status reason) None) u"

definition err_bad_scheme :: "uri \<Rightarrow> std_error" where
  "err_bad_scheme u = with_uri (error_new KBuilder (Some EBadScheme)) u"

section \<open>Questions\<close>

fun err_kind :: "std_error \<Rightarrow> error_kind option" where
  "err_kind (EWreq k _ _) = Some k"
| "err_kind _ = None"

definition err_is_builder :: "std_error \<Rightarrow> bool" where
  "err_is_builder e \<longleftrightarrow> err_kind e = Some KBuilder"

definition err_is_redirect :: "std_error \<Rightarrow> bool" where
  "err_is_redirect e \<longleftrightarrow> err_kind e = Some KRedirect"

definition err_is_request :: "std_error \<Rightarrow> bool" where
  "err_is_request e \<longleftrightarrow> err_kind e = Some KRequestError"

definition err_is_body :: "std_error \<Rightarrow> bool" where
  "err_is_body e \<longleftrightarrow> err_kind e = Some KBody"

definition err_is_tls :: "std_error \<Rightarrow> bool" where
  "err_is_tls e \<longleftrightarrow> err_kind e = Some KTls"

definition err_is_decode :: "std_error \<Rightarrow> bool" where
  "err_is_decode e \<longleftrightarrow> err_kind e = Some KDecode"

definition err_is_upgrade :: "std_error \<Rightarrow> bool" where
  "err_is_upgrade e \<longleftrightarrow> err_kind e = Some KUpgrade"

definition err_is_websocket :: "std_error \<Rightarrow> bool" where
  "err_is_websocket e \<longleftrightarrow> err_kind e = Some KWebSocket"

definition err_status :: "std_error \<Rightarrow> nat option" where
  "err_status e = (case err_kind e of Some (KStatus s _) \<Rightarrow> Some s | _ \<Rightarrow> None)"

definition err_is_status :: "std_error \<Rightarrow> bool" where
  "err_is_status e \<longleftrightarrow> (case err_kind e of Some (KStatus _ _) \<Rightarrow> True | _ \<Rightarrow> False)"

fun timeout_node :: "std_error \<Rightarrow> bool" where
  "timeout_node ETimedOut = True"
| "timeout_node (EProto timeout _) = timeout"
| "timeout_node (EIo k _) = (k = IoTimedOut)"
| "timeout_node _ = False"

definition err_is_timeout :: "std_error \<Rightarrow> bool" where
  "err_is_timeout e \<longleftrightarrow> list_ex timeout_node (sources e)"

fun connect_node :: "std_error \<Rightarrow> bool" where
  "connect_node (EClient k _) = (k = Connect)"
| "connect_node _ = False"

definition err_is_connect :: "std_error \<Rightarrow> bool" where
  "err_is_connect e \<longleftrightarrow> list_ex connect_node (sources e)"

fun proxy_connect_node :: "std_error \<Rightarrow> bool" where
  "proxy_connect_node (EClient k _) = (k = ProxyConnect)"
| "proxy_connect_node _ = False"

definition err_is_proxy_connect :: "std_error \<Rightarrow> bool" where
  "err_is_proxy_connect e \<longleftrightarrow> list_ex proxy_connect_node (sources e)"

fun reset_node :: "std_error \<Rightarrow> bool" where
  "reset_node (EIo k _) = (k = IoConnectionReset)"
| "reset_node _ = False"

definition err_is_connection_reset :: "std_error \<Rightarrow> bool" where
  "err_is_connection_reset e \<longleftrightarrow> list_ex reset_node (sources e)"

fun dns_node :: "std_error \<Rightarrow> bool" where
  "dns_node (EDns _) = True"
| "dns_node _ = False"

definition err_is_dns :: "std_error \<Rightarrow> bool" where
  "err_is_dns e \<longleftrightarrow> list_ex dns_node (sources e)"

text \<open>The layers' timeout error becomes the library's.\<close>

definition map_timeout_to_connector_error :: "std_error \<Rightarrow> std_error" where
  "map_timeout_to_connector_error e = (if e = EElapsed then ETimedOut else e)"

definition map_timeout_to_request_error :: "std_error \<Rightarrow> std_error" where
  "map_timeout_to_request_error e = (if e = EElapsed then err_request ETimedOut else e)"

section \<open>From the connector to the caller\<close>

text \<open>Which causes make \<open>client::Error::new\<close> report a proxy error.\<close>

fun is_proxy_error :: "std_error \<Rightarrow> bool" where
  "is_proxy_error (ETunnel _ _) = True"
| "is_proxy_error (EProxyConnect _) = True"
| "is_proxy_error (ESocks _ _) = True"
| "is_proxy_error _ = False"

fun box_client_error :: "('h, std_error) client_error \<Rightarrow> std_error" where
  "box_client_error e = EClient (ce_kind e) (ce_source e)"

text \<open>
  \<open>Pending::poll\<close> once the inner future is ready: a foreign error becomes a request error, and
  an error without a URI gets that of the request.
\<close>

definition pending_error :: "uri \<Rightarrow> std_error \<Rightarrow> std_error" where
  "pending_error u e =
     (let err = (case e of EWreq _ _ _ \<Rightarrow> e | _ \<Rightarrow> err_request e)
      in if err_uri err = None then with_uri err u else err)"

definition pending_poll :: "uri \<Rightarrow> std_error + 'r \<Rightarrow> std_error + ('r \<times> uri)" where
  "pending_poll u res = (case res of Inr r \<Rightarrow> Inr (r, u) | Inl e \<Rightarrow> Inl (pending_error u e))"

lemma err_uri_with_uri [simp]: "err_kind e \<noteq> None \<Longrightarrow> err_uri (with_uri e u) = Some u"
  by (cases e) simp_all

lemma pending_error_uri: "\<exists>k s v. pending_error u e = EWreq k s (Some v)"
  by (cases e) (auto simp: pending_error_def Let_def err_request_def error_new_def)

text \<open>Looking for a cause passes the library's own wrappings.\<close>

lemma sources_pending:
  "(\<forall>k s v. e \<noteq> EWreq k s v) \<Longrightarrow> sources (pending_error u e) = e # sources e"
  by (cases e) (simp_all add: pending_error_def Let_def err_request_def error_new_def)

text \<open>A SOCKS error hides its cause: neither a timeout nor a DNS failure behind it is seen.\<close>

lemma socks_error_hides_cause:
  "sources (pending_error u (box_client_error (client_error_new is_proxy_error k (ESocks s c)))) =
     [EClient ProxyConnect (Some (ESocks s c)), ESocks s c]"
  by (subst sources_pending) (simp_all add: client_error_new_def)

lemma socks_failure_unclassified:
  assumes "e = pending_error u (box_client_error (client_error_new is_proxy_error k (ESocks s c)))"
  shows "\<not> err_is_timeout e" and "\<not> err_is_dns e" and "\<not> err_is_connect e"
  unfolding assms err_is_timeout_def err_is_dns_def err_is_connect_def socks_error_hides_cause
  by simp_all

end
