(* ===== verification/Tls_Conn.thy ===== *)
theory Tls_Conn
  imports Tls_Trust Tls_Options Tcp_Connect
begin

text \<open>
  The TLS connector (\<open>src/src/tls/conn.rs\<close> and its modules \<open>ext\<close> and \<open>service\<close>): building the
  connector from a client's settings and the TLS options, and configuring one handshake
  (the services that connect with it are in \<open>Connector\<close>). The TLS library's builders are the sequence
  of calls made on them; which of these calls fail, and how a handshake ends, is the
  environment's choice. The session caches are a heap of caches by handle.
\<close>

section \<open>Calls on the TLS library\<close>

text \<open>
  \<open>True\<close> marks the calls whose error ends the sequence; \<open>F\<close> says which calls fail after
  which other calls, and \<open>wrap\<close> what becomes of the error.
\<close>

fun run_calls ::
    "(std_error \<Rightarrow> std_error) \<Rightarrow> ('a list \<Rightarrow> 'a \<Rightarrow> std_error option) \<Rightarrow> 'a list \<Rightarrow>
     ('a \<times> bool) list \<Rightarrow> std_error + 'a list" where
  "run_calls wrap F made [] = Inr made"
| "run_calls wrap F made ((c, fallible) # cs) =
     (case (F made c, fallible) of
        (Some e, True) \<Rightarrow> Inl (wrap e)
      | _ \<Rightarrow> run_calls wrap F (made @ [c]) cs)"

lemma run_calls_Inr: "run_calls wrap F made cs = Inr r \<Longrightarrow> r = made @ map fst cs"
  by (induction wrap F made cs rule: run_calls.induct) (auto split: option.splits bool.splits)

lemma run_calls_Inl:
  "run_calls wrap F made cs = Inl e \<Longrightarrow>
   \<exists>pre c post x. cs = pre @ (c, True) # post \<and> F (made @ map fst pre) c = Some x \<and> e = wrap x"
proof (induction cs arbitrary: made)
  case (Cons p cs)
  obtain c b where p: "p = (c, b)" by (cases p)
  show ?case
  proof (cases "\<exists>x. F made c = Some x \<and> b")
    case True
    then obtain x where x: "F made c = Some x" and b by blast
    with Cons.prems p have "e = wrap x" by simp
    with x \<open>b\<close> p show ?thesis
      by (intro exI [of _ "[]"] exI [of _ c] exI [of _ cs] exI [of _ x]) simp
  next
    case False
    then have "run_calls wrap F (made @ [c]) cs = Inl e"
      using Cons.prems p by (cases "F made c"; cases b) auto
    from Cons.IH [OF this] obtain pre d post x
      where "cs = pre @ (d, True) # post" "F (made @ [c] @ map fst pre) d = Some x" "e = wrap x"
      by auto
    with p show ?thesis
      by (intro exI [of _ "(c, b) # pre"] exI [of _ d] exI [of _ post] exI [of _ x]) simp
  qed
qed simp

definition when_call :: "bool \<Rightarrow> 'a \<Rightarrow> ('a \<times> bool) list" where
  "when_call b c = (if b then [(c, False)] else [])"

definition opt_call :: "('v \<Rightarrow> 'a) \<Rightarrow> 'v option \<Rightarrow> ('a \<times> bool) list" where
  "opt_call f x = (case x of Some v \<Rightarrow> [(f v, False)] | None \<Rightarrow> [])"

definition opt_call_try :: "('v \<Rightarrow> 'a) \<Rightarrow> 'v option \<Rightarrow> ('a \<times> bool) list" where
  "opt_call_try f x = (case x of Some v \<Rightarrow> [(f v, True)] | None \<Rightarrow> [])"

section \<open>Building the connector\<close>

datatype ssl_option = NO_TICKET | NO_PSK_DHE_KE | NO_RENEGOTIATION

datatype ('c, 'k, 'b, 'l) ssl_call =
    BareBuilder
  | SetCertificate 'c | SetPrivateKey 'k | AddExtraChainCert 'c
  | SetCertStore 'b | SetWebpkiRoots | SetDefaultVerifyPaths
  | SetVerifyPeer bool
  | RegisterCompressor certificate_compressor
  | SetMinProtoVersion "tls_version option" | SetMaxProtoVersion "tls_version option"
  | EnableOcspStapling | EnableSignedCertTimestamps
  | SetOptions ssl_option
  | SetGreaseEnabled bool | SetPermuteExtensions bool
  | SetCurvesList string | SetSigalgsList string
  | SetPreserveTls13CipherList bool | SetCipherList string
  | SetDelegatedCredentials string | SetRecordSizeLimit u16
  | SetAesHwOverride bool | SetExtensionPermutation "extension_type list"
  | OpenKeylog 'l | SetKeylogCallback 'l
  | SetSessionCacheClient | SetNewSessionCallback

record ('c, 'k, 'b, 'l, 's) tls_connector_builder =
  tb_alpn_protocol :: "alpn_protocol option"
  tb_max_version :: "tls_version option"
  tb_min_version :: "tls_version option"
  tb_tls_sni :: bool
  tb_verify_hostname :: bool
  tb_identity :: "('k, 'c) identity option"
  tb_cert_store :: "'b option"
  tb_cert_verification :: bool
  tb_keylog :: "'l option"
  tb_session_cache :: 's

record handshake_settings =
  hs_no_ticket :: bool
  hs_enable_ech_grease :: bool
  hs_verify_hostname :: bool
  hs_tls_sni :: bool
  hs_alpn_protocols :: "alpn_protocol list option"
  hs_alps_protocols :: "alps_protocol list option"
  hs_alps_use_new_codepoint :: bool
  hs_key_shares :: "key_share list option"
  hs_random_aes_hw_override :: bool

record ('c, 'k, 'b, 'l, 's) tls_connector =
  tc_ssl :: "('c, 'k, 'b, 'l) ssl_call list"
  tc_cache :: "'s option"
  tc_settings :: handshake_settings

definition tls_connector_builder_new :: "'s \<Rightarrow> ('c, 'k, 'b, 'l, 's) tls_connector_builder" where
  "tls_connector_builder_new cache =
     \<lparr>tb_alpn_protocol = None, tb_max_version = None, tb_min_version = None, tb_tls_sni = True,
      tb_verify_hostname = True, tb_identity = None, tb_cert_store = None,
      tb_cert_verification = True, tb_keylog = None, tb_session_cache = cache\<rparr>"

text \<open>The setters of the builder.\<close>

definition tb_set_alpn_protocol :: "alpn_protocol option \<Rightarrow> ('c, 'k, 'b, 'l, 's) tls_connector_builder \<Rightarrow> ('c, 'k, 'b, 'l, 's) tls_connector_builder" where
  "tb_set_alpn_protocol x B = B\<lparr>tb_alpn_protocol := x\<rparr>"

definition tb_set_keylog :: "'l option \<Rightarrow> ('c, 'k, 'b, 'l, 's) tls_connector_builder \<Rightarrow> ('c, 'k, 'b, 'l, 's) tls_connector_builder" where
  "tb_set_keylog x B = B\<lparr>tb_keylog := x\<rparr>"

definition tb_set_identity :: "('k, 'c) identity option \<Rightarrow> ('c, 'k, 'b, 'l, 's) tls_connector_builder \<Rightarrow> ('c, 'k, 'b, 'l, 's) tls_connector_builder" where
  "tb_set_identity x B = B\<lparr>tb_identity := x\<rparr>"

definition tb_set_cert_store :: "'b option \<Rightarrow> ('c, 'k, 'b, 'l, 's) tls_connector_builder \<Rightarrow> ('c, 'k, 'b, 'l, 's) tls_connector_builder" where
  "tb_set_cert_store x B = B\<lparr>tb_cert_store := x\<rparr>"

definition tb_set_cert_verification :: "bool \<Rightarrow> ('c, 'k, 'b, 'l, 's) tls_connector_builder \<Rightarrow> ('c, 'k, 'b, 'l, 's) tls_connector_builder" where
  "tb_set_cert_verification x B = B\<lparr>tb_cert_verification := x\<rparr>"

definition tb_set_min_version :: "tls_version option \<Rightarrow> ('c, 'k, 'b, 'l, 's) tls_connector_builder \<Rightarrow> ('c, 'k, 'b, 'l, 's) tls_connector_builder" where
  "tb_set_min_version x B = B\<lparr>tb_min_version := x\<rparr>"

definition tb_set_max_version :: "tls_version option \<Rightarrow> ('c, 'k, 'b, 'l, 's) tls_connector_builder \<Rightarrow> ('c, 'k, 'b, 'l, 's) tls_connector_builder" where
  "tb_set_max_version x B = B\<lparr>tb_max_version := x\<rparr>"

definition tb_set_tls_sni :: "bool \<Rightarrow> ('c, 'k, 'b, 'l, 's) tls_connector_builder \<Rightarrow> ('c, 'k, 'b, 'l, 's) tls_connector_builder" where
  "tb_set_tls_sni x B = B\<lparr>tb_tls_sni := x\<rparr>"

definition tb_set_verify_hostname :: "bool \<Rightarrow> ('c, 'k, 'b, 'l, 's) tls_connector_builder \<Rightarrow> ('c, 'k, 'b, 'l, 's) tls_connector_builder" where
  "tb_set_verify_hostname x B = B\<lparr>tb_verify_hostname := x\<rparr>"

definition session_store ::
    "('c, 'k, 'b, 'l, 's) tls_connector_builder \<Rightarrow> 's option \<Rightarrow> ('c, 'k, 'b, 'l, 's) tls_connector_builder" where
  "session_store B store = (case store of Some s \<Rightarrow> B\<lparr>tb_session_cache := s\<rparr> | None \<Rightarrow> B)"

text \<open>The extension trait of \<open>ext.rs\<close>; \<open>webpki\<close> is the feature of bundled root certificates.\<close>

definition set_identity_calls :: "('k, 'c) identity option \<Rightarrow> (('c, 'k, 'b, 'l) ssl_call \<times> bool) list" where
  "set_identity_calls i =
     (case i of
        None \<Rightarrow> []
      | Some i \<Rightarrow> (SetCertificate (id_cert i), True) # (SetPrivateKey (id_pkey i), True) #
                  map (\<lambda>c. (AddExtraChainCert c, True)) (id_chain i))"

definition set_cert_store_calls :: "bool \<Rightarrow> 'b option \<Rightarrow> (('c, 'k, 'b, 'l) ssl_call \<times> bool) list" where
  "set_cert_store_calls webpki store =
     (case store of
        Some s \<Rightarrow> [(SetCertStore s, False)]
      | None \<Rightarrow> if webpki then [(SetWebpkiRoots, False)] else [(SetDefaultVerifyPaths, True)])"

definition set_cert_verification_calls :: "bool \<Rightarrow> (('c, 'k, 'b, 'l) ssl_call \<times> bool) list" where
  "set_cert_verification_calls enable = [(SetVerifyPeer enable, False)]"

definition set_cert_compressors_calls ::
    "certificate_compressor list option \<Rightarrow> (('c, 'k, 'b, 'l) ssl_call \<times> bool) list" where
  "set_cert_compressors_calls cs =
     (case cs of Some cs \<Rightarrow> map (\<lambda>c. (RegisterCompressor c, True)) cs | None \<Rightarrow> [])"

definition tls_build_calls ::
    "bool \<Rightarrow> ('c, 'k, 'b, 'l, 's) tls_connector_builder \<Rightarrow> tls_options \<Rightarrow> (('c, 'k, 'b, 'l) ssl_call \<times> bool) list" where
  "tls_build_calls webpki B opts =
     [(BareBuilder, True)] @
     set_identity_calls (tb_identity B) @
     set_cert_store_calls webpki (tb_cert_store B) @
     set_cert_verification_calls (tb_cert_verification B) @
     set_cert_compressors_calls (certificate_compressors opts) @
     [(SetMinProtoVersion (or_else (min_tls_version opts) (tb_min_version B)), True),
      (SetMaxProtoVersion (or_else (max_tls_version opts) (tb_max_version B)), True)] @
     when_call (enable_ocsp_stapling opts) EnableOcspStapling @
     when_call (enable_signed_cert_timestamps opts) EnableSignedCertTimestamps @
     when_call (\<not> session_ticket opts) (SetOptions NO_TICKET) @
     when_call (\<not> psk_dhe_ke opts) (SetOptions NO_PSK_DHE_KE) @
     when_call (\<not> renegotiation opts) (SetOptions NO_RENEGOTIATION) @
     opt_call SetGreaseEnabled (grease_enabled opts) @
     opt_call SetPermuteExtensions (permute_extensions opts) @
     opt_call_try SetCurvesList (curves_list opts) @
     opt_call_try SetSigalgsList (sigalgs_list opts) @
     opt_call SetPreserveTls13CipherList (preserve_tls13_cipher_list opts) @
     opt_call_try SetCipherList (cipher_list opts) @
     opt_call_try SetDelegatedCredentials (delegated_credentials opts) @
     opt_call SetRecordSizeLimit (record_size_limit opts) @
     opt_call SetAesHwOverride (aes_hw_override opts) @
     opt_call_try SetExtensionPermutation (extension_permutation opts) @
     (case tb_keylog B of
        Some l \<Rightarrow> [(OpenKeylog l, True), (SetKeylogCallback l, False)] | None \<Rightarrow> []) @
     when_call (pre_shared_key opts) SetSessionCacheClient @
     when_call (pre_shared_key opts) SetNewSessionCallback"

definition tls_build ::
    "bool \<Rightarrow> (('c, 'k, 'b, 'l) ssl_call list \<Rightarrow> ('c, 'k, 'b, 'l) ssl_call \<Rightarrow> std_error option) \<Rightarrow>
     ('c, 'k, 'b, 'l, 's) tls_connector_builder \<Rightarrow> tls_options \<Rightarrow>
     std_error + ('c, 'k, 'b, 'l, 's) tls_connector" where
  "tls_build webpki F B opts =
     and_then (run_calls err_tls F [] (tls_build_calls webpki B opts)) (\<lambda>ssl.
       Inr \<lparr>tc_ssl = ssl,
            tc_cache = (if pre_shared_key opts then Some (tb_session_cache B) else None),
            tc_settings =
              \<lparr>hs_no_ticket = psk_skip_session_ticket opts,
               hs_enable_ech_grease = enable_ech_grease opts,
               hs_verify_hostname = tb_verify_hostname B,
               hs_tls_sni = tb_tls_sni B,
               hs_alpn_protocols =
                 or_else (map_option (\<lambda>p. [p]) (tb_alpn_protocol B)) (alpn_protocols opts),
               hs_alps_protocols = alps_protocols opts,
               hs_alps_use_new_codepoint = alps_use_new_codepoint opts,
               hs_key_shares = key_shares opts,
               hs_random_aes_hw_override = random_aes_hw_override opts\<rparr>\<rparr>)"

text \<open>\<open>HttpsConnector::no_alpn\<close>.\<close>

definition no_alpn :: "('c, 'k, 'b, 'l, 's) tls_connector \<Rightarrow> ('c, 'k, 'b, 'l, 's) tls_connector" where
  "no_alpn tc = tc\<lparr>tc_settings := (tc_settings tc)\<lparr>hs_alpn_protocols := None\<rparr>\<rparr>"

section \<open>Configuring one handshake\<close>

datatype 'key cfg_call =
    Configure
  | CfgSni bool | CfgVerifyHostname bool | CfgEchGrease bool | CfgAesHwOverride bool
  | CfgAlpnProtos string | CfgApplicationSettings string | CfgAlpsNewCodepoint bool
  | CfgClientKeyShares "key_share list"
  | CfgSession tls_session | CfgNoTicket | CfgKeyIndex | CfgExData 'key | IntoSsl string

definition parse_ipv6 :: "string \<Rightarrow> 128 word option" where
  "parse_ipv6 s = (case read_ipv6 s of Some (a, []) \<Rightarrow> Some a | _ \<Rightarrow> None)"

definition normalize_host :: "string \<Rightarrow> string" where
  "normalize_host h =
     (let normalized = strip_ipv6_brackets h in
      if length normalized \<noteq> length h \<and> parse_ipv6 normalized \<noteq> None then normalized else h)"

text \<open>
  The ALPN list: the version the request was made for, and otherwise the configured protocols.
\<close>

definition alpn_calls :: "http_version option \<Rightarrow> handshake_settings \<Rightarrow> ('key cfg_call \<times> bool) list" where
  "alpn_calls version settings =
     (case version of
        Some HTTP_2 \<Rightarrow> [(CfgAlpnProtos (alpn_encode ALPN_HTTP2), True)]
      | Some HTTP_3 \<Rightarrow> [(CfgAlpnProtos (alpn_encode ALPN_HTTP3), True)]
      | Some _ \<Rightarrow> [(CfgAlpnProtos (alpn_encode ALPN_HTTP1), True)]
      | None \<Rightarrow>
          (case hs_alpn_protocols settings of
             Some ps \<Rightarrow> [(CfgAlpnProtos (encode_sequence ps), True)]
           | None \<Rightarrow> []))"

definition alps_calls :: "handshake_settings \<Rightarrow> ('key cfg_call \<times> bool) list" where
  "alps_calls settings =
     (case hs_alps_protocols settings of
        None \<Rightarrow> []
      | Some ps \<Rightarrow> map (\<lambda>p. (CfgApplicationSettings (alps_name p), True)) ps @
          when_call (ps \<noteq> []) (CfgAlpsNewCodepoint (hs_alps_use_new_codepoint settings)))"

text \<open>\<open>random\<close> is the number \<open>fast_random\<close> gives.\<close>

definition setup_calls :: "u64 \<Rightarrow> http_version option \<Rightarrow> handshake_settings \<Rightarrow> ('key cfg_call \<times> bool) list" where
  "setup_calls random version settings =
     [(Configure, True),
      (CfgSni (hs_tls_sni settings), False),
      (CfgVerifyHostname (hs_verify_hostname settings), False),
      (CfgEchGrease (hs_enable_ech_grease settings), False)] @
     when_call (hs_random_aes_hw_override settings)
       (CfgAesHwOverride (take_bit 1 random = 0)) @
     alpn_calls version settings @
     alps_calls settings @
     opt_call_try CfgClientKeyShares (hs_key_shares settings)"

text \<open>\<open>setup_ssl\<close>, for a bare URI.\<close>

definition missing_host :: std_error where
  "missing_host = EOther ''URI missing host'' None"

definition setup_ssl :: "('key cfg_call list \<Rightarrow> 'key cfg_call \<Rightarrow> std_error option) \<Rightarrow> uri \<Rightarrow> std_error + 'key cfg_call list" where
  "setup_ssl G u =
     and_then (run_calls id G [] [(Configure, True)]) (\<lambda>made.
       and_then (ok_or missing_host (host u)) (\<lambda>h.
         run_calls id G made [(IntoSsl (normalize_host h), True)]))"

text \<open>
  \<open>setup_ssl2\<close>, for a connection descriptor: a stored session of the connection's identity is
  taken out of the cache and offered.
\<close>

type_synonym ('s, 'key, 'm) cache_heap = "'s \<Rightarrow> ('key, 'm) session_cache"

definition resume_calls :: "bool \<Rightarrow> tls_session option \<Rightarrow> 'key \<Rightarrow> ('key cfg_call \<times> bool) list" where
  "resume_calls no_ticket session key =
     (case session of
        Some s \<Rightarrow> (CfgSession s, True) # when_call no_ticket CfgNoTicket | None \<Rightarrow> []) @
     [(CfgKeyIndex, True), (CfgExData key, False)]"

definition setup_ssl2 ::
    "('key cfg_call list \<Rightarrow> 'key cfg_call \<Rightarrow> std_error option) \<Rightarrow> 'm session_lru \<Rightarrow> u64 \<Rightarrow>
     ('c, 'k, 'b, 'l, 's) tls_connector \<Rightarrow> uri \<Rightarrow> http_version option \<Rightarrow> 'key \<Rightarrow>
     ('s, 'key, 'm) cache_heap \<Rightarrow> ('s, 'key, 'm) cache_heap \<times> (std_error + 'key cfg_call list)" where
  "setup_ssl2 G L random tc u version key heap =
     (case run_calls id G [] (setup_calls random version (tc_settings tc)) of
        Inl e \<Rightarrow> (heap, Inl e)
      | Inr made \<Rightarrow>
          (case host u of
             None \<Rightarrow> (heap, Inl missing_host)
           | Some h \<Rightarrow>
               (let into = [(IntoSsl (normalize_host h), True)] in
                case tc_cache tc of
                  None \<Rightarrow> (heap, run_calls id G made into)
                | Some c \<Rightarrow>
                    (case session_pop L (heap c) key of (session, cache) \<Rightarrow>
                      (heap(c := cache),
                       run_calls id G made
                         (resume_calls (hs_no_ticket (tc_settings tc)) session key @ into))))))"

text \<open>
  The callback the library runs when the server sends a session: it is stored under the key
  the handshake was made for.
\<close>

definition ex_data :: "'key cfg_call list \<Rightarrow> 'key option" where
  "ex_data ssl = (case rev (filter (\<lambda>c. case c of CfgExData _ \<Rightarrow> True | _ \<Rightarrow> False) ssl) of
                    CfgExData k # _ \<Rightarrow> Some k | _ \<Rightarrow> None)"

definition new_session_callback ::
    "'m session_lru \<Rightarrow> 's \<Rightarrow> 'key cfg_call list \<Rightarrow> tls_session \<Rightarrow> ('s, 'key, 'm) cache_heap \<Rightarrow>
     ('s, 'key, 'm) cache_heap" where
  "new_session_callback L c ssl session heap =
     (case ex_data ssl of
        Some key \<Rightarrow> heap(c := session_put L (heap c) key session) | None \<Rightarrow> heap)"

section \<open>The handshake\<close>

datatype ('io, 'key) maybe_https_stream = Http 'io | Https "'key cfg_call list" 'io

text \<open>How a handshake ends is \<open>hs\<close>'s choice: \<^term>\<open>None\<close> when it succeeds.\<close>

definition perform_handshake ::
    "('key cfg_call list \<Rightarrow> 'io \<Rightarrow> std_error option) \<Rightarrow> 'key cfg_call list \<Rightarrow> 'io \<Rightarrow>
     std_error + ('io, 'key) maybe_https_stream" where
  "perform_handshake hs ssl conn =
     (case hs ssl conn of Some e \<Rightarrow> Inl e | None \<Rightarrow> Inr (Https ssl conn))"

section \<open>The connector keeps its settings\<close>

lemmas call_simps = when_call_def opt_call_def opt_call_try_def

lemmas build_call_defs = tls_build_calls_def set_identity_calls_def set_cert_store_calls_def
  set_cert_verification_calls_def set_cert_compressors_calls_def

declare run_calls.simps(2) [simp del]

lemma tls_build_made:
  "tls_build webpki F B opts = Inr tc \<Longrightarrow> tc_ssl tc = map fst (tls_build_calls webpki B opts)"
  by (auto simp: tls_build_def and_then_Inr_iff dest: run_calls_Inr)

lemma call_sets:
  "x \<in> fst ` set (when_call b c) \<longleftrightarrow> b \<and> x = c"
  "x \<in> fst ` set (opt_call f v) \<longleftrightarrow> (\<exists>y. v = Some y \<and> x = f y)"
  "x \<in> fst ` set (opt_call_try f v) \<longleftrightarrow> (\<exists>y. v = Some y \<and> x = f y)"
  by (cases v; auto simp: call_simps)+

lemma identity_calls_set:
  "x \<in> fst ` set (set_identity_calls i) \<longleftrightarrow>
     (\<exists>d. i = Some d \<and> (x = SetCertificate (id_cert d) \<or> x = SetPrivateKey (id_pkey d) \<or>
       (\<exists>c \<in> set (id_chain d). x = AddExtraChainCert c)))"
  by (cases i) (auto simp: build_call_defs image_iff)

lemma cert_store_calls_set:
  "x \<in> fst ` set (set_cert_store_calls webpki store) \<longleftrightarrow>
     (\<exists>b. store = Some b \<and> x = SetCertStore b) \<or>
     store = None \<and> (webpki \<and> x = SetWebpkiRoots \<or> \<not> webpki \<and> x = SetDefaultVerifyPaths)"
  by (cases store) (auto simp: build_call_defs)

lemma verification_calls_set:
  "x \<in> fst ` set (set_cert_verification_calls v) \<longleftrightarrow> x = SetVerifyPeer v"
  by (simp add: build_call_defs)

lemma compressors_calls_set:
  "x \<in> fst ` set (set_cert_compressors_calls cs) \<longleftrightarrow>
     (\<exists>l. cs = Some l \<and> (\<exists>c \<in> set l. x = RegisterCompressor c))"
  by (cases cs) (auto simp: build_call_defs image_iff)

lemmas part_sets = identity_calls_set cert_store_calls_set verification_calls_set compressors_calls_set

lemma keylog_calls_set:
  "x \<in> fst ` set (case k of Some l \<Rightarrow> [(OpenKeylog l, True), (SetKeylogCallback l, False)] | None \<Rightarrow> []) \<longleftrightarrow>
     (\<exists>l. k = Some l \<and> (x = OpenKeylog l \<or> x = SetKeylogCallback l))"
  by (cases k) auto

lemma build_call_iffs:
  "SetVerifyPeer v \<in> fst ` set (tls_build_calls webpki B opts) \<longleftrightarrow> v = tb_cert_verification B"
  "SetMinProtoVersion m \<in> fst ` set (tls_build_calls webpki B opts) \<longleftrightarrow>
     m = or_else (min_tls_version opts) (tb_min_version B)"
  "SetMaxProtoVersion m \<in> fst ` set (tls_build_calls webpki B opts) \<longleftrightarrow>
     m = or_else (max_tls_version opts) (tb_max_version B)"
  "SetOptions NO_TICKET \<in> fst ` set (tls_build_calls webpki B opts) \<longleftrightarrow> \<not> session_ticket opts"
  "SetSessionCacheClient \<in> fst ` set (tls_build_calls webpki B opts) \<longleftrightarrow> pre_shared_key opts"
  "SetCertStore s \<in> fst ` set (tls_build_calls webpki B opts) \<longleftrightarrow> tb_cert_store B = Some s"
  "SetCertificate c \<in> fst ` set (tls_build_calls webpki B opts) \<longleftrightarrow>
     map_option id_cert (tb_identity B) = Some c"
  by (simp_all only: tls_build_calls_def set_append image_Un Un_iff call_sets part_sets keylog_calls_set)
    auto

text \<open>
  A TLS connector that was built verifies the server's certificate exactly when the
  client asked for it, against the given store if there is one; it is limited to the
  versions of the TLS options and only where these leave them open to the client's; it
  refuses tickets, keeps a session cache and presents a client certificate exactly when told
  to; and the protocol the client was restricted to replaces the ALPN list of the options.
\<close>

lemma tls_build_settings:
  assumes "tls_build webpki F B opts = Inr tc"
  shows "(SetVerifyPeer v \<in> set (tc_ssl tc) \<longleftrightarrow> v = tb_cert_verification B) \<and>
    (SetCertStore s \<in> set (tc_ssl tc) \<longleftrightarrow> tb_cert_store B = Some s) \<and>
    (SetMinProtoVersion m \<in> set (tc_ssl tc) \<longleftrightarrow>
       m = or_else (min_tls_version opts) (tb_min_version B)) \<and>
    (SetMaxProtoVersion m \<in> set (tc_ssl tc) \<longleftrightarrow>
       m = or_else (max_tls_version opts) (tb_max_version B)) \<and>
    (SetOptions NO_TICKET \<in> set (tc_ssl tc) \<longleftrightarrow> \<not> session_ticket opts) \<and>
    (SetCertificate c \<in> set (tc_ssl tc) \<longleftrightarrow> map_option id_cert (tb_identity B) = Some c) \<and>
    (SetSessionCacheClient \<in> set (tc_ssl tc) \<longleftrightarrow> tc_cache tc = Some (tb_session_cache B)) \<and>
    hs_alpn_protocols (tc_settings tc) =
      (case tb_alpn_protocol B of Some p \<Rightarrow> Some [p] | None \<Rightarrow> alpn_protocols opts)"
proof -
  have "tc_cache tc = (if pre_shared_key opts then Some (tb_session_cache B) else None)"
    and "hs_alpn_protocols (tc_settings tc) =
      (case tb_alpn_protocol B of Some p \<Rightarrow> Some [p] | None \<Rightarrow> alpn_protocols opts)"
    using assms by (auto simp: tls_build_def and_then_Inr_iff or_else_def split: option.splits)
  moreover have made: "set (tc_ssl tc) = fst ` set (tls_build_calls webpki B opts)"
    by (simp add: tls_build_made [OF assms])
  ultimately show ?thesis
    unfolding made build_call_iffs by simp
qed

section \<open>What a handshake offers\<close>

definition cfg_alpn :: "http_version option \<Rightarrow> handshake_settings \<Rightarrow> string option" where
  "cfg_alpn version settings =
     (case version of
        Some HTTP_2 \<Rightarrow> Some (alpn_encode ALPN_HTTP2)
      | Some HTTP_3 \<Rightarrow> Some (alpn_encode ALPN_HTTP3)
      | Some _ \<Rightarrow> Some (alpn_encode ALPN_HTTP1)
      | None \<Rightarrow> map_option encode_sequence (hs_alpn_protocols settings))"

lemma alpn_calls_set:
  "x \<in> fst ` set (alpn_calls version st) \<longleftrightarrow> (\<exists>a. cfg_alpn version st = Some a \<and> x = CfgAlpnProtos a)"
  by (cases "hs_alpn_protocols st")
    (auto simp: alpn_calls_def cfg_alpn_def split: option.splits http_version.splits)

lemma alps_calls_set:
  "x \<in> fst ` set (alps_calls st) \<longleftrightarrow>
     (\<exists>ps. hs_alps_protocols st = Some ps \<and>
       ((\<exists>p \<in> set ps. x = CfgApplicationSettings (alps_name p)) \<or>
        ps \<noteq> [] \<and> x = CfgAlpsNewCodepoint (hs_alps_use_new_codepoint st)))"
  by (cases "hs_alps_protocols st") (simp_all add: alps_calls_def image_Un image_image call_sets, auto)

lemma setup_call_iffs:
  "CfgAlpnProtos a \<in> fst ` set (setup_calls r version st) \<longleftrightarrow> cfg_alpn version st = Some a"
  "CfgVerifyHostname v \<in> fst ` set (setup_calls r version st) \<longleftrightarrow> v = hs_verify_hostname st"
  "CfgSni v \<in> fst ` set (setup_calls r version st) \<longleftrightarrow> v = hs_tls_sni st"
  "CfgSession s \<notin> fst ` set (setup_calls r version st)"
  "CfgExData k \<notin> fst ` set (setup_calls r version st)"
  "IntoSsl h \<notin> fst ` set (setup_calls r version st)"
  by (simp_all only: setup_calls_def set_append image_Un Un_iff call_sets alpn_calls_set alps_calls_set)
    auto

lemma setup_ssl2_made:
  assumes "setup_ssl2 G L r tc u version key heap = (heap', Inr ssl)"
  shows "\<exists>h tail. host u = Some h \<and>
    ssl = map fst (setup_calls r version (tc_settings tc)) @ tail @ [IntoSsl (normalize_host h)] \<and>
    (case tc_cache tc of
       None \<Rightarrow> tail = [] \<and> heap' = heap
     | Some c \<Rightarrow> \<exists>session cache. session_pop L (heap c) key = (session, cache) \<and> heap' = heap(c := cache) \<and>
         tail = map fst (resume_calls (hs_no_ticket (tc_settings tc)) session key))"
proof -
  obtain made where made: "run_calls id G [] (setup_calls r version (tc_settings tc)) = Inr made"
    using assms by (auto simp: setup_ssl2_def split: sum.splits)
  obtain h where h: "host u = Some h"
    using assms made by (auto simp: setup_ssl2_def split: option.splits)
  show ?thesis
  proof (cases "tc_cache tc")
    case None
    then have "run_calls id G made [(IntoSsl (normalize_host h), True)] = Inr ssl" "heap' = heap"
      using assms made h by (auto simp: setup_ssl2_def)
    with None h run_calls_Inr [OF made] show ?thesis
      by (auto dest: run_calls_Inr)
  next
    case (Some c)
    obtain session cache where pop: "session_pop L (heap c) key = (session, cache)"
      by (cases "session_pop L (heap c) key")
    with Some have "run_calls id G made
        (resume_calls (hs_no_ticket (tc_settings tc)) session key @ [(IntoSsl (normalize_host h), True)]) = Inr ssl"
      "heap' = heap(c := cache)"
      using assms made h by (auto simp: setup_ssl2_def)
    with Some h pop run_calls_Inr [OF made] show ?thesis
      by (auto dest: run_calls_Inr)
  qed
qed

lemma resume_calls_set:
  "x \<in> fst ` set (resume_calls b session key) \<longleftrightarrow>
     (\<exists>s. session = Some s \<and> (x = CfgSession s \<or> b \<and> x = CfgNoTicket)) \<or>
     x = CfgKeyIndex \<or> x = CfgExData key"
  by (cases session; cases b; auto simp: resume_calls_def when_call_def)

lemma resume_call_iffs:
  "CfgSession s \<in> fst ` set (resume_calls b session key) \<longleftrightarrow> session = Some s"
  "CfgExData k \<in> fst ` set (resume_calls b session key) \<longleftrightarrow> k = key"
  "CfgAlpnProtos a \<notin> fst ` set (resume_calls b session key)"
  "CfgVerifyHostname v \<notin> fst ` set (resume_calls b session key)"
  by (auto simp only: resume_calls_set cfg_call.distinct cfg_call.inject)

text \<open>
  A configured handshake is for the host of the descriptor's URI, verifies that name and
  sends it as the settings say, and offers one ALPN list: the protocol of the version the
  request asks for, and otherwise the configured protocols. A session it resumes is the one
  the cache held for the connection's identity.
\<close>

lemma handshake_offer:
  assumes "setup_ssl2 G L r tc u version key heap = (heap', Inr ssl)"
  shows "(map_option normalize_host (host u) = Some n \<longleftrightarrow> last ssl = IntoSsl n) \<and>
    (CfgVerifyHostname v \<in> set ssl \<longleftrightarrow> v = hs_verify_hostname (tc_settings tc)) \<and>
    (CfgAlpnProtos a \<in> set ssl \<longleftrightarrow> cfg_alpn version (tc_settings tc) = Some a) \<and>
    (CfgSession s \<in> set ssl \<longleftrightarrow>
      (\<exists>c. tc_cache tc = Some c \<and> fst (session_pop L (heap c) key) = Some s))"
proof -
  obtain h tail where h: "host u = Some h"
    and ssl: "ssl = map fst (setup_calls r version (tc_settings tc)) @ tail @ [IntoSsl (normalize_host h)]"
    and tail: "case tc_cache tc of
       None \<Rightarrow> tail = [] \<and> heap' = heap
     | Some c \<Rightarrow> \<exists>session cache. session_pop L (heap c) key = (session, cache) \<and> heap' = heap(c := cache) \<and>
         tail = map fst (resume_calls (hs_no_ticket (tc_settings tc)) session key)"
    using setup_ssl2_made [OF assms] by blast
  have set_ssl: "set ssl = fst ` set (setup_calls r version (tc_settings tc)) \<union> set tail \<union>
      {IntoSsl (normalize_host h)}"
    by (simp add: ssl)
  show ?thesis
  proof (cases "tc_cache tc")
    case None
    with tail h show ?thesis
      by (simp add: set_ssl setup_call_iffs) (auto simp: ssl)
  next
    case (Some c)
    then obtain session where "fst (session_pop L (heap c) key) = session"
      and "set tail = fst ` set (resume_calls (hs_no_ticket (tc_settings tc)) session key)"
      using tail by auto
    with Some h show ?thesis
      by (simp add: set_ssl setup_call_iffs resume_call_iffs) (auto simp: ssl)
  qed
qed

section \<open>Sessions stay with the connections they were issued to\<close>

definition held :: "'m session_lru \<Rightarrow> ('key, 'm) session_cache \<Rightarrow> 'key \<Rightarrow> tls_session set" where
  "held L st key = (case map_of (sc_per_host st) key of Some m \<Rightarrow> set (sl_list L m) | None \<Rightarrow> {})"

lemma held_new: "held L (session_cache_new n) key = {}"
  by (simp add: held_def session_cache_new_def)

lemma set_tl_subset: "set (tl xs) \<subseteq> set xs"
  by (cases xs) auto

lemma held_put:
  assumes "session_lru_laws L"
  shows "held L (session_put L st key s) k \<subseteq> held L st k \<union> (if k = key then {s} else {})"
proof -
  have put: "set (sl_list L (sl_put L m s)) \<subseteq> insert s (set (sl_list L m))" for m
    using assms unfolding session_lru_laws_def by blast
  define lru where "lru = (case map_of (sc_per_host st) key of
      Some m \<Rightarrow> m | None \<Rightarrow> sl_new L (if sc_capacity st = 0 then None else Some (sc_capacity st)))"
  define lru' where "lru' = (if sc_capacity st \<le> length (sl_list L lru) then sl_pop_lru L lru else lru)"
  have "set (sl_list L lru) \<subseteq> held L st key"
    by (auto simp: lru_def held_def session_lruD(2) [OF assms] split: option.splits)
  moreover have "set (sl_list L lru') \<subseteq> set (sl_list L lru)"
    by (auto simp: lru'_def session_lruD(6) [OF assms] dest: subsetD [OF set_tl_subset])
  moreover have "sc_per_host (session_put L st key s) =
      AList.update key (sl_put L lru' s) (sc_per_host st)"
    unfolding session_put_def lru_def [symmetric] lru'_def Let_def by (auto split: list.splits)
  ultimately show ?thesis
    using put [of lru'] by (auto simp: held_def)
qed

lemma held_forget:
  assumes "session_lru_laws L"
  shows "held L (forget_session L st i) k \<subseteq> held L st k"
  by (auto simp: forget_session_def held_def Let_def session_lruD(8) [OF assms]
      split: option.splits if_splits)

lemma held_pop:
  assumes "session_lru_laws L" and "session_pop L st key = (r, st')"
  shows "held L st' k \<subseteq> held L st k \<and> (\<forall>s. r = Some s \<longrightarrow> s \<in> held L st key)"
  using assms(2) held_forget [OF assms(1)]
  by (fastforce simp: session_pop_def held_def split: option.splits list.splits if_splits)

text \<open>
  Handshakes and arriving sessions in any order, over any number of connectors that may share
  caches: the caches, which sessions the servers sent for which identity, and the handshakes
  that were configured.
\<close>

inductive tls_trace ::
    "'m session_lru \<Rightarrow> ('s \<Rightarrow> nat) \<Rightarrow> ('c, 'k, 'b, 'l, 's) tls_connector set \<Rightarrow>
     ('s, 'key, 'm) cache_heap \<Rightarrow> ('s \<times> 'key \<times> tls_session) set \<Rightarrow>
     ('s \<times> 'key cfg_call list) set \<Rightarrow> bool" for L n T where
  start: "tls_trace L n T (\<lambda>c. session_cache_new (n c)) {} {}"
| configured:
    "tls_trace L n T heap issued shakes \<Longrightarrow>
     tc \<in> T \<Longrightarrow> setup_ssl2 G L r tc u version key heap = (heap', Inr ssl) \<Longrightarrow> tc_cache tc = Some c \<Longrightarrow>
     tls_trace L n T heap' issued (insert (c, ssl) shakes)"
| config_failed:
    "tls_trace L n T heap issued shakes \<Longrightarrow>
     tc \<in> T \<Longrightarrow> setup_ssl2 G L r tc u version key heap = (heap', Inl e) \<Longrightarrow> tls_trace L n T heap' issued shakes"
| session_arrived:
    "tls_trace L n T heap issued shakes \<Longrightarrow> (c, ssl) \<in> shakes \<Longrightarrow> ex_data ssl = Some key \<Longrightarrow>
     tls_trace L n T (new_session_callback L c ssl s heap) (insert (c, key, s) issued) shakes"

lemma setup_ssl2_heap:
  assumes "session_lru_laws L" and "setup_ssl2 G L r tc u version key heap = (heap', res)"
  shows "held L (heap' c) k \<subseteq> held L (heap c) k"
proof (cases "heap' = heap")
  case False
  then obtain d r' cache where "tc_cache tc = Some d" "session_pop L (heap d) key = (r', cache)"
      "heap' = heap(d := cache)"
    using assms(2) by (auto simp: setup_ssl2_def Let_def split: sum.splits option.splits prod.splits)
  with held_pop [OF assms(1) this(2)] show ?thesis by auto
qed simp

lemma tls_trace_held:
  assumes "session_lru_laws L" and "tls_trace L n T heap issued shakes"
  shows "s \<in> held L (heap c) key \<Longrightarrow> (c, key, s) \<in> issued"
  using assms(2)
proof (induction arbitrary: s c key rule: tls_trace.induct)
  case start
  then show ?case by (simp add: held_new)
next
  case (configured heap issued shakes tc G r u version k heap' ssl d)
  then show ?case using setup_ssl2_heap [OF assms(1) configured.hyps(3), of c key] by blast
next
  case (config_failed heap issued shakes tc G r u version k heap' e)
  then show ?case using setup_ssl2_heap [OF assms(1) config_failed.hyps(3), of c key] by blast
next
  case (session_arrived heap issued shakes d ssl key' t)
  then have "s \<in> held L (heap c) key \<union> (if c = d \<and> key = key' then {t} else {})"
    using held_put [OF assms(1), of "heap d" key' t key]
    by (auto simp: new_session_callback_def split: if_splits)
  with session_arrived.IH show ?case by (auto split: if_splits)
qed

text \<open>
  C10. A TLS session is resumed only by a connection of the identity the server issued it to:
  whatever handshakes and sessions came before, a session a handshake offers is one a server
  sent over an earlier connection with the same connection identity, stored in the same
  cache.
\<close>

theorem tls_sessions_isolated:
  assumes "session_lru_laws L" and "tls_trace L n T heap issued shakes"
    and "setup_ssl2 G L r tc u version key heap = (heap', Inr ssl)"
    and "CfgSession s \<in> set ssl"
  shows "\<exists>c. tc_cache tc = Some c \<and> (c, key, s) \<in> issued"
proof -
  obtain h tail where
    ssl: "ssl = map fst (setup_calls r version (tc_settings tc)) @ tail @ [IntoSsl (normalize_host h)]"
    and tail: "case tc_cache tc of
       None \<Rightarrow> tail = [] \<and> heap' = heap
     | Some c \<Rightarrow> \<exists>session cache. session_pop L (heap c) key = (session, cache) \<and> heap' = heap(c := cache) \<and>
         tail = map fst (resume_calls (hs_no_ticket (tc_settings tc)) session key)"
    using setup_ssl2_made [OF assms(3)] by blast
  from assms(4) have s: "CfgSession s \<in> set tail"
    by (simp add: ssl setup_call_iffs)
  with tail obtain c session cache where c: "tc_cache tc = Some c"
    and pop: "session_pop L (heap c) key = (session, cache)"
    and "tail = map fst (resume_calls (hs_no_ticket (tc_settings tc)) session key)"
    by (auto split: option.splits)
  with s have "session = Some s"
    by (simp add: resume_call_iffs)
  with held_pop [OF assms(1) pop] have "s \<in> held L (heap c) key"
    by blast
  with c tls_trace_held [OF assms(1,2)] show ?thesis by blast
qed

section \<open>Concrete runs\<close>

definition sample_tls_builder :: "(nat, nat, nat, nat, nat) tls_connector_builder" where
  "sample_tls_builder =
     (tls_connector_builder_new 0)\<lparr>tb_min_version := Some TLS_1_0, tb_max_version := Some TLS_1_3,
       tb_cert_store := Some 7\<rparr>"

definition sample_tls_options :: tls_options where
  "sample_tls_options =
     tls_options_default\<lparr>min_tls_version := Some TLS_1_2, session_ticket := False, pre_shared_key := True\<rparr>"

definition sample_connector :: "(nat, nat, nat, nat, nat) tls_connector" where
  "sample_connector =
     \<lparr>tc_ssl = map fst (tls_build_calls False sample_tls_builder sample_tls_options), tc_cache = Some 0,
      tc_settings =
        \<lparr>hs_no_ticket = False, hs_enable_ech_grease = False, hs_verify_hostname = True,
         hs_tls_sni = True, hs_alpn_protocols = Some [ALPN_HTTP2, ALPN_HTTP1],
         hs_alps_protocols = None, hs_alps_use_new_codepoint = False, hs_key_shares = None,
         hs_random_aes_hw_override = False\<rparr>\<rparr>"

lemma run_calls_ok: "run_calls wrap (\<lambda>_ _. None) made cs = Inr (made @ map fst cs)"
  by (induction cs arbitrary: made) (auto simp: run_calls.simps(2))

lemma sample_connector_built:
  "tls_build False (\<lambda>_ _. None) sample_tls_builder sample_tls_options = Inr sample_connector"
  by (simp add: tls_build_def run_calls_ok sample_connector_def sample_tls_builder_def
      sample_tls_options_def tls_connector_builder_new_def tls_options_default_def or_else_def)

lemma tls_build_settings_witness:
  "SetVerifyPeer True \<in> set (tc_ssl sample_connector) \<and>
   SetCertStore 7 \<in> set (tc_ssl sample_connector) \<and>
   SetMinProtoVersion (Some TLS_1_2) \<in> set (tc_ssl sample_connector) \<and>
   SetMaxProtoVersion (Some TLS_1_3) \<in> set (tc_ssl sample_connector) \<and>
   SetOptions NO_TICKET \<in> set (tc_ssl sample_connector) \<and>
   SetCertificate 3 \<notin> set (tc_ssl sample_connector)"
  using tls_build_settings [OF sample_connector_built,
      where v = True and s = 7 and m = "Some TLS_1_2"]
    tls_build_settings [OF sample_connector_built, where m = "Some TLS_1_3" and c = 3]
  by (simp add: sample_tls_builder_def sample_tls_options_def tls_connector_builder_new_def
      tls_options_default_def or_else_def)

definition sample_tls_uri :: uri where
  "sample_tls_uri =
     \<lparr>scheme = Some HTTPS, authority = Some ''[::1]'', host = Some ''[::1]'', port = None, path = ''/'',
      query = None\<rparr>"

abbreviation empty_heap :: "(nat, nat, nat option \<times> tls_session list) cache_heap" where
  "empty_heap \<equiv> \<lambda>c. session_cache_new 8"

definition sample_setup ::
    "(nat, nat, nat option \<times> tls_session list) cache_heap \<Rightarrow>
     (nat, nat, nat option \<times> tls_session list) cache_heap \<times> (std_error + nat cfg_call list)" where
  "sample_setup = setup_ssl2 (\<lambda>_ _. None) list_sessions 1 sample_connector sample_tls_uri (Some HTTP_2) 5"

definition sample_ssl :: "tls_session option \<Rightarrow> nat cfg_call list" where
  "sample_ssl session =
     map fst (setup_calls 1 (Some HTTP_2) (tc_settings sample_connector)) @
     map fst (resume_calls False session 5) @ [IntoSsl ''::1'']"

lemma normalize_sample: "normalize_host ''[::1]'' = ''::1''"
  by code_simp

lemma sample_setup_run:
  "session_pop list_sessions (heap 0) 5 = (session, cache) \<Longrightarrow>
   sample_setup heap = (heap(0 := cache), Inr (sample_ssl session))"
  by (simp add: sample_setup_def setup_ssl2_def run_calls_ok sample_tls_uri_def sample_ssl_def
      sample_connector_def normalize_sample Let_def)

lemma sample_first_pop: "session_pop list_sessions (session_cache_new 8) (5 :: nat) = (None, session_cache_new 8)"
  by (simp add: session_pop_def session_cache_new_def)

lemma sample_first_setup:
  "setup_ssl2 (\<lambda>_ _. None) list_sessions 1 sample_connector sample_tls_uri (Some HTTP_2) 5 empty_heap =
     (empty_heap, Inr (sample_ssl None))"
  using sample_setup_run [of empty_heap, OF sample_first_pop]
  by (simp add: sample_setup_def fun_upd_idem)

lemma handshake_offer_witness:
  "last (sample_ssl None) = IntoSsl ''::1'' \<and> CfgVerifyHostname True \<in> set (sample_ssl None) \<and>
   CfgAlpnProtos (alpn_encode ALPN_HTTP2) \<in> set (sample_ssl None) \<and>
   CfgSession (ticket ''s'') \<notin> set (sample_ssl None)"
  using handshake_offer [OF sample_first_setup, of "''::1''" True "alpn_encode ALPN_HTTP2" "ticket ''s''"]
  by (simp add: sample_tls_uri_def normalize_sample cfg_alpn_def sample_connector_def sample_first_pop)

definition resumed_heap :: "(nat, nat, nat option \<times> tls_session list) cache_heap" where
  "resumed_heap = new_session_callback list_sessions 0 (sample_ssl None) (ticket ''s'') (\<lambda>c. session_cache_new 8)"

lemma sample_ex_data: "ex_data (sample_ssl session) = Some 5"
  by (cases session) (simp_all add: sample_ssl_def ex_data_def setup_calls_def alpn_calls_def alps_calls_def
      resume_calls_def call_simps sample_connector_def)

lemma sample_trace:
  "tls_trace list_sessions (\<lambda>c. 8) {sample_connector} resumed_heap {(0, 5, ticket ''s'')} {(0, sample_ssl None)}"
proof -
  have "tc_cache sample_connector = Some 0"
    by (simp add: sample_connector_def)
  from tls_trace.configured [OF tls_trace.start _ sample_first_setup this, of "{sample_connector}"]
  have "tls_trace list_sessions (\<lambda>c. 8) {sample_connector} empty_heap {} {(0, sample_ssl None)}"
    by simp
  from tls_trace.session_arrived [OF this, of 0 "sample_ssl None" 5 "ticket ''s''"] show ?thesis
    by (simp add: resumed_heap_def sample_ex_data)
qed

theorem tls_sessions_isolated_witness:
  "CfgSession (ticket ''s'') \<in> set (sample_ssl (Some (ticket ''s''))) \<and>
   (\<exists>c. tc_cache sample_connector = Some c \<and> (c, 5, ticket ''s'') \<in> {(0, 5, ticket ''s'')})"
proof -
  obtain cache where pop: "session_pop list_sessions (resumed_heap 0) 5 = (Some (ticket ''s''), cache)"
    unfolding resumed_heap_def new_session_callback_def sample_ex_data
    by (simp add: session_put_def session_pop_def session_cache_new_def list_sessions_def Let_def)
  note run = sample_setup_run [where heap = resumed_heap, OF pop, unfolded sample_setup_def]
  have "CfgSession (ticket ''s'') \<in> set (sample_ssl (Some (ticket ''s'')))"
    by (simp add: sample_ssl_def resume_calls_def)
  with tls_sessions_isolated [OF list_sessions_laws sample_trace run this] show ?thesis
    by simp
qed

end
