(* ===== verification/Http_Connector.thy ===== *)
theory Http_Connector
  imports Tcp_Connect Errors
begin

text \<open>
  The connector for plain TCP (\<open>src/src/conn/http.rs\<close>) and the resolver with overrides
  (\<open>src/src/dns/resolve.rs\<close>): which host, port and addresses a URI stands for. The resolver
  itself is the environment.
\<close>

definition HAPPY_EYEBALLS_DELAY :: u64 where
  "HAPPY_EYEBALLS_DELAY = 300"

definition http_connector_new :: tcp_options where
  "http_connector_new =
     \<lparr>to_enforce_http = True, to_connect_timeout = None,
      to_happy_eyeballs_timeout = Some HAPPY_EYEBALLS_DELAY, to_nodelay = False,
      to_reuse_address = False, to_linger = None, to_send_buffer_size = None,
      to_recv_buffer_size = None, to_tcp_user_timeout = None,
      to_tcp_keepalive = \<lparr>ka_time = None, ka_interval = None, ka_retries = None\<rparr>,
      to_socket_bind = \<lparr>bo_interface = None, bo_ipv4 = None, bo_ipv6 = None\<rparr>\<rparr>"

section \<open>Setters\<close>

definition hc_enforce_http :: "bool \<Rightarrow> tcp_options \<Rightarrow> tcp_options" where
  "hc_enforce_http b c = c\<lparr>to_enforce_http := b\<rparr>"

definition hc_set_nodelay :: "bool \<Rightarrow> tcp_options \<Rightarrow> tcp_options" where
  "hc_set_nodelay b c = c\<lparr>to_nodelay := b\<rparr>"

definition hc_set_send_buffer_size :: "u64 option \<Rightarrow> tcp_options \<Rightarrow> tcp_options" where
  "hc_set_send_buffer_size n c = c\<lparr>to_send_buffer_size := n\<rparr>"

definition hc_set_recv_buffer_size :: "u64 option \<Rightarrow> tcp_options \<Rightarrow> tcp_options" where
  "hc_set_recv_buffer_size n c = c\<lparr>to_recv_buffer_size := n\<rparr>"

definition hc_set_reuse_address :: "bool \<Rightarrow> tcp_options \<Rightarrow> tcp_options" where
  "hc_set_reuse_address b c = c\<lparr>to_reuse_address := b\<rparr>"

definition hc_set_linger :: "u64 option \<Rightarrow> tcp_options \<Rightarrow> tcp_options" where
  "hc_set_linger d c = c\<lparr>to_linger := d\<rparr>"

definition hc_set_tcp_user_timeout :: "u64 option \<Rightarrow> tcp_options \<Rightarrow> tcp_options" where
  "hc_set_tcp_user_timeout d c = c\<lparr>to_tcp_user_timeout := d\<rparr>"

definition hc_set_connect_timeout :: "u64 option \<Rightarrow> tcp_options \<Rightarrow> tcp_options" where
  "hc_set_connect_timeout d c = c\<lparr>to_connect_timeout := d\<rparr>"

definition hc_set_happy_eyeballs_timeout :: "u64 option \<Rightarrow> tcp_options \<Rightarrow> tcp_options" where
  "hc_set_happy_eyeballs_timeout d c = c\<lparr>to_happy_eyeballs_timeout := d\<rparr>"

definition hc_set_keepalive :: "u64 option \<Rightarrow> tcp_options \<Rightarrow> tcp_options" where
  "hc_set_keepalive d c = c\<lparr>to_tcp_keepalive := (to_tcp_keepalive c)\<lparr>ka_time := d\<rparr>\<rparr>"

definition hc_set_keepalive_interval :: "u64 option \<Rightarrow> tcp_options \<Rightarrow> tcp_options" where
  "hc_set_keepalive_interval d c = c\<lparr>to_tcp_keepalive := (to_tcp_keepalive c)\<lparr>ka_interval := d\<rparr>\<rparr>"

definition hc_set_keepalive_retries :: "u32 option \<Rightarrow> tcp_options \<Rightarrow> tcp_options" where
  "hc_set_keepalive_retries n c = c\<lparr>to_tcp_keepalive := (to_tcp_keepalive c)\<lparr>ka_retries := n\<rparr>\<rparr>"

definition hc_set_interface :: "string \<Rightarrow> tcp_options \<Rightarrow> tcp_options" where
  "hc_set_interface i c = c\<lparr>to_socket_bind := set_interface (to_socket_bind c) i\<rparr>"

definition hc_set_local_addresses :: "u32 option \<Rightarrow> 128 word option \<Rightarrow> tcp_options \<Rightarrow> tcp_options" where
  "hc_set_local_addresses a4 a6 c = c\<lparr>to_socket_bind := set_local_addresses (to_socket_bind c) a4 a6\<rparr>"

section \<open>Resolving\<close>

text \<open>
  \<open>resolve_name\<close> is what the configured resolver answers; the overrides are asked first, and
  every failure is marked as a DNS error.
\<close>

definition resolve_with_overrides ::
    "(string, socket_addr list) hmap \<Rightarrow> (string \<Rightarrow> std_error + socket_addr list) \<Rightarrow>
     string \<Rightarrow> std_error + socket_addr list" where
  "resolve_with_overrides overrides resolve_name name =
     (case map_of overrides name of Some dest \<Rightarrow> Inr dest | None \<Rightarrow> resolve_name name)"

definition dyn_resolve :: "(string \<Rightarrow> std_error + socket_addr list) \<Rightarrow> string \<Rightarrow> std_error + socket_addr list" where
  "dyn_resolve resolve_name name = (case resolve_name name of Inl e \<Rightarrow> Inl (EDns e) | Inr as \<Rightarrow> Inr as)"

section \<open>From a URI to addresses\<close>

definition plain_error :: "string \<Rightarrow> std_error tcp_connect_error" where
  "plain_error m = \<lparr>ce_msg = m, ce_addr = None, ce_cause = None\<rparr>"

definition get_host_port :: "tcp_options \<Rightarrow> uri \<Rightarrow> std_error tcp_connect_error + string \<times> u16" where
  "get_host_port options dst =
     (if to_enforce_http options \<and> scheme dst \<noteq> Some HTTP
      then Inl (plain_error ''invalid URI, scheme is not http'')
      else if \<not> to_enforce_http options \<and> scheme dst = None
      then Inl (plain_error ''invalid URI, scheme is missing'')
      else (case host dst of
              None \<Rightarrow> Inl (plain_error ''invalid URI, host is missing'')
            | Some h \<Rightarrow>
                Inr (h, case port dst of
                          Some p \<Rightarrow> p
                        | None \<Rightarrow> if scheme dst = Some HTTPS then 443 else 80)))"

fun sa_port :: "socket_addr \<Rightarrow> u16" where
  "sa_port (SockV4 _ p) = p"
| "sa_port (SockV6 _ p _ _) = p"

fun with_port :: "u16 \<Rightarrow> socket_addr \<Rightarrow> socket_addr" where
  "with_port p (SockV4 a _) = SockV4 a p"
| "with_port p (SockV6 a _ f s) = SockV6 a p f s"

definition set_port :: "u16 \<Rightarrow> bool \<Rightarrow> socket_addr \<Rightarrow> socket_addr" where
  "set_port host_port explicit addr =
     (if explicit \<or> sa_port addr = 0 then with_port host_port addr else addr)"

text \<open>The asynchronous block of \<open>call\<close> up to the connection race.\<close>

definition http_addrs ::
    "(string \<Rightarrow> std_error + socket_addr list) \<Rightarrow> tcp_options \<Rightarrow> uri \<Rightarrow>
     std_error tcp_connect_error + socket_addr list" where
  "http_addrs resolver options dst =
     and_then (get_host_port options dst) (\<lambda>(h, p).
       let h = strip_ipv6_brackets h in
       case try_parse_addr h p of
         Some addrs \<Rightarrow> Inr addrs
       | None \<Rightarrow>
           (case resolver h of
              Inl e \<Rightarrow> Inl (ce_dns (Cause e))
            | Inr addrs \<Rightarrow> Inr (map (set_port p (port dst \<noteq> None)) addrs)))"

text \<open>Connecting: the addresses, and the race over them as \<open>race\<close> answers it.\<close>

definition http_connect ::
    "(string \<Rightarrow> std_error + socket_addr list) \<Rightarrow>
     (tcp_options \<Rightarrow> socket_addr list \<times> (u64 \<times> socket_addr list) option \<Rightarrow> std_error tcp_connect_error + 'io) \<Rightarrow>
     tcp_options \<Rightarrow> uri \<Rightarrow> std_error tcp_connect_error + 'io" where
  "http_connect resolver race options dst =
     and_then (http_addrs resolver options dst) (\<lambda>addrs. race options (connecting_new options addrs))"

section \<open>Lemmas\<close>

lemma get_host_port_Inr:
  "get_host_port options dst = Inr (h, p) \<longleftrightarrow>
     host dst = Some h \<and> scheme dst \<noteq> None \<and> (to_enforce_http options \<longrightarrow> scheme dst = Some HTTP) \<and>
     p = (case port dst of Some q \<Rightarrow> q | None \<Rightarrow> if scheme dst = Some HTTPS then 443 else 80)"
  by (auto simp: get_host_port_def split: option.splits if_splits)

lemma try_parse_addr_port: "try_parse_addr h p = Some as \<Longrightarrow> a \<in> set as \<Longrightarrow> sa_port a = p"
  by (auto simp: try_parse_addr_def split: option.splits ip_addr.splits)

lemma sa_port_with_port [simp]: "sa_port (with_port p a) = p"
  by (cases a) simp_all

lemma map_of_overrides_simps:
  "map_of overrides name = Some dest \<Longrightarrow> resolve_with_overrides overrides f name = Inr dest"
  "map_of overrides name = None \<Longrightarrow> resolve_with_overrides overrides f name = f name"
  by (simp_all add: resolve_with_overrides_def)

text \<open>
  A connection goes to the host the URI names: an address literal, bracketed or not, is
  dialled without asking the resolver, and any other name at the addresses the override or
  else the resolver gives for it; always at the port the URI states, and where it states none
  at the resolved port, or at the scheme's when that is 0.
\<close>

lemma dialled_addresses:
  assumes "http_addrs (dyn_resolve (resolve_with_overrides overrides f)) options dst = Inr addrs"
    and "a \<in> set addrs"
  shows "(case port dst of
            Some p \<Rightarrow> sa_port a = p
          | None \<Rightarrow> sa_port a \<noteq> 0 \<and> (sa_port a = (if scheme dst = Some HTTPS then 443 else 80) \<or>
              a \<in> set (projr (resolve_with_overrides overrides f (strip_ipv6_brackets (the (host dst))))))) \<and>
    (case parse_ip (strip_ipv6_brackets (the (host dst))) of
       Some (V4 x) \<Rightarrow> a = SockV4 x (sa_port a)
     | Some (V6 x) \<Rightarrow> a = SockV6 x (sa_port a) 0 0
     | None \<Rightarrow> (\<exists>b as. resolve_with_overrides overrides f (strip_ipv6_brackets (the (host dst))) = Inr as \<and>
         b \<in> set as \<and> a = with_port (sa_port a) b))"
proof -
  obtain h p where hp: "get_host_port options dst = Inr (h, p)"
    using assms(1) by (auto simp: http_addrs_def and_then_Inr_iff)
  then have h: "host dst = Some h"
    and p: "p = (case port dst of Some q \<Rightarrow> q | None \<Rightarrow> if scheme dst = Some HTTPS then 443 else 80)"
    by (auto simp: get_host_port_Inr)
  then have p0: "port dst = None \<Longrightarrow> p \<noteq> 0" by auto
  show ?thesis
  proof (cases "parse_ip (strip_ipv6_brackets h)")
    case None
    then obtain as where as: "resolve_with_overrides overrides f (strip_ipv6_brackets h) = Inr as"
      and "addrs = map (set_port p (port dst \<noteq> None)) as"
      using assms(1) hp
      by (cases "resolve_with_overrides overrides f (strip_ipv6_brackets h)")
        (simp_all add: http_addrs_def try_parse_addr_def dyn_resolve_def Let_def)
    with assms(2) obtain b where b: "b \<in> set as" "a = set_port p (port dst \<noteq> None) b"
      by auto
    have "a = with_port (sa_port a) b"
      unfolding b(2) by (cases b) (auto simp: set_port_def)
    with as b(1) have ex: "\<exists>b as. resolve_with_overrides overrides f (strip_ipv6_brackets h) = Inr as \<and>
        b \<in> set as \<and> a = with_port (sa_port a) b"
      by blast
    have "case port dst of
        Some q \<Rightarrow> sa_port a = q
      | None \<Rightarrow> sa_port a \<noteq> 0 \<and> (sa_port a = (if scheme dst = Some HTTPS then 443 else 80) \<or>
          a \<in> set (projr (resolve_with_overrides overrides f (strip_ipv6_brackets h))))"
      using b p p0 by (cases "port dst") (simp_all add: set_port_def as)
    then show ?thesis
      unfolding h option.sel None option.case using ex by (rule conjI)
  next
    case (Some ip)
    then have "try_parse_addr (strip_ipv6_brackets h) p = Some addrs"
      using assms(1) hp
      by (cases ip) (simp_all add: http_addrs_def Let_def try_parse_addr_def)
    then have "addrs = [case ip of V4 x \<Rightarrow> SockV4 x p | V6 x \<Rightarrow> SockV6 x p 0 0]"
      using Some by (cases ip) (simp_all add: try_parse_addr_def)
    with assms(2) have lit: "a = (case ip of V4 x \<Rightarrow> SockV4 x p | V6 x \<Rightarrow> SockV6 x p 0 0)"
      by simp
    then have a: "sa_port a = p"
      by (cases ip) simp_all
    moreover have "(case ip of V4 x \<Rightarrow> a = SockV4 x p | V6 x \<Rightarrow> a = SockV6 x p 0 0)"
      using lit by (cases ip) simp_all
    moreover have "case port dst of
        Some q \<Rightarrow> sa_port a = q
      | None \<Rightarrow> sa_port a \<noteq> 0 \<and> sa_port a = (if scheme dst = Some HTTPS then 443 else 80)"
      using a p p0 by (cases "port dst") simp_all
    ultimately show ?thesis
      by (cases ip; cases "port dst") (simp_all add: Some h)
  qed
qed

definition sample_override :: "(string, socket_addr list) hmap" where
  "sample_override = [(''a.test'', [SockV4 1 8443, SockV6 2 0 0 0])]"

definition sample_https_uri :: uri where
  "sample_https_uri =
     \<lparr>scheme = Some HTTPS, authority = Some ''a.test'', host = Some ''a.test'', port = None, path = ''/'',
      query = None\<rparr>"

lemma dialled_addresses_witness:
  "http_addrs (dyn_resolve (resolve_with_overrides sample_override (\<lambda>_. Inl ETimedOut)))
     (hc_enforce_http False http_connector_new) sample_https_uri = Inr [SockV4 1 8443, SockV6 2 443 0 0] \<and>
   sa_port (SockV6 2 443 0 0) \<noteq> 0"
proof -
  have "parse_ip ''a.test'' = None" "strip_ipv6_brackets ''a.test'' = ''a.test''"
    by code_simp+
  then have run: "http_addrs (dyn_resolve (resolve_with_overrides sample_override (\<lambda>_. Inl ETimedOut)))
     (hc_enforce_http False http_connector_new) sample_https_uri = Inr [SockV4 1 8443, SockV6 2 443 0 0]"
    by (simp add: http_addrs_def get_host_port_def hc_enforce_http_def http_connector_new_def
        sample_https_uri_def try_parse_addr_def dyn_resolve_def resolve_with_overrides_def
        sample_override_def set_port_def)
  have "sa_port (SockV6 2 443 0 0) \<noteq> 0"
    using dialled_addresses [OF run, of "SockV6 2 443 0 0"] by (simp add: sample_https_uri_def)
  with run show ?thesis by simp
qed

end
