(* ===== verification/Proxy_Tunnel.thy ===== *)
theory Proxy_Tunnel
  imports Http_Connector Header_Map Uri_Ext
begin

text \<open>
  Reaching a target through a proxy: the CONNECT tunnel (\<open>src/src/conn/proxy/tunnel.rs\<close>) and
  the SOCKS connector (\<open>src/src/conn/proxy/socks.rs\<close>). The bytes the proxy sends, the response
  parser and the SOCKS handshake of the library are the environment.
\<close>

section \<open>The CONNECT request\<close>

datatype 'h tunnel_headers = HeadersEmpty | HeadersAuth hvalue | HeadersExtra 'h

definition with_auth :: "'h header_ops \<Rightarrow> hvalue \<Rightarrow> 'h tunnel_headers \<Rightarrow> 'h tunnel_headers" where
  "with_auth H auth hs =
     (let auth = auth\<lparr>hv_sensitive := True\<rparr> in
      case hs of
        HeadersEmpty \<Rightarrow> HeadersAuth auth
      | HeadersAuth _ \<Rightarrow> HeadersAuth auth
      | HeadersExtra e \<Rightarrow> HeadersExtra (h_insert H e ''proxy-authorization'' auth))"

text \<open>\<open>HeaderMap::extend\<close> replaces the values of a name it meets and then appends.\<close>

definition with_headers :: "'h header_ops \<Rightarrow> 'h \<Rightarrow> 'h tunnel_headers \<Rightarrow> 'h tunnel_headers option" where
  "with_headers H headers hs =
     (case hs of
        HeadersEmpty \<Rightarrow> Some (HeadersExtra headers)
      | HeadersAuth auth \<Rightarrow> Some (HeadersExtra (h_or_insert H headers ''proxy-authorization'' auth))
      | HeadersExtra e \<Rightarrow> map_option HeadersExtra (replace_headers H e headers))"

definition crlf :: string where
  "crlf = [CHR 0x0D, CHR 0x0A]"

definition header_line :: "string \<Rightarrow> hvalue \<Rightarrow> string" where
  "header_line n v = n @ '': '' @ hv_bytes v @ crlf"

definition tunnel_request :: "'h header_ops \<Rightarrow> string \<Rightarrow> u16 \<Rightarrow> 'h tunnel_headers \<Rightarrow> string" where
  "tunnel_request H h p hs =
     (let target = h @ '':'' @ decimal (unat p) in
      ''CONNECT '' @ target @ '' HTTP/1.1'' @ crlf @ ''Host: '' @ target @ crlf @
      (case hs of
         HeadersAuth auth \<Rightarrow> header_line ''Proxy-Authorization'' auth
       | HeadersExtra e \<Rightarrow> concat (map (\<lambda>(n, v). header_line n v) (h_iter H e))
       | HeadersEmpty \<Rightarrow> []) @ crlf)"

section \<open>The proxy's answer\<close>

text \<open>\<open>httparse\<close>: whether the bytes so far hold a whole response head, and its status.\<close>

datatype parse_result = ParsePartial | ParseComplete "nat option" | ParseError

datatype tunnel_result = TunnelOpen | TunnelFailed std_error

text \<open>
  The loop over reads: each gives an error or the bytes read, none at the end of the stream.
  \<^term>\<open>None\<close> while the answer has not come in.
\<close>

fun tunnel_read :: "(string \<Rightarrow> parse_result) \<Rightarrow> string \<Rightarrow> (std_error + string) list \<Rightarrow> tunnel_result option" where
  "tunnel_read parse buf [] = None"
| "tunnel_read parse buf (Inl e # reads) = Some (TunnelFailed (ETunnel TunnelIo (Some e)))"
| "tunnel_read parse buf (Inr chunk # reads) =
     (if chunk = [] then Some (TunnelFailed (ETunnel TunnelUnexpectedEof None))
      else (case parse (buf @ chunk) of
              ParseError \<Rightarrow> Some (TunnelFailed (ETunnel TunnelParse (Some (EOther ''httparse'' None))))
            | ParsePartial \<Rightarrow> tunnel_read parse (buf @ chunk) reads
            | ParseComplete code \<Rightarrow>
                Some (if code = Some 200 then TunnelOpen
                      else if code = Some 407 then TunnelFailed (ETunnel ProxyAuthRequired None)
                      else TunnelFailed (ETunnel TunnelUnsuccessful None))))"

text \<open>
  \<open>tunnel\<close>: \<open>write\<close> is the error of sending the request, if any.
\<close>

definition tunnel ::
    "'h header_ops \<Rightarrow> (string \<Rightarrow> parse_result) \<Rightarrow> (string \<Rightarrow> std_error option) \<Rightarrow> (std_error + string) list \<Rightarrow>
     string \<Rightarrow> u16 \<Rightarrow> 'h tunnel_headers \<Rightarrow> tunnel_result option" where
  "tunnel H parse write reads h p hs =
     (case write (tunnel_request H h p hs) of
        Some e \<Rightarrow> Some (TunnelFailed (ETunnel TunnelIo (Some e)))
      | None \<Rightarrow> tunnel_read parse [] reads)"

section \<open>SOCKS\<close>

datatype socks_version = SocksV4 | SocksV5

datatype dns_resolve = LocalDns | RemoteDns

datatype target_addr = TargetIp socket_addr | TargetDomain string u16

datatype socks_handshake =
    Socks4 target_addr | Socks5 target_addr | Socks5Password target_addr string string

record socks_connector =
  sx_proxy_dst :: uri
  sx_auth :: "(string \<times> string) option"
  sx_version :: socks_version
  sx_dns_resolve :: dns_resolve

definition socks_connector_new :: "uri \<Rightarrow> socks_connector" where
  "socks_connector_new dst =
     \<lparr>sx_proxy_dst = dst, sx_auth = None, sx_version = SocksV5, sx_dns_resolve = LocalDns\<rparr>"

definition socks_set_auth :: "(string \<times> string) option \<Rightarrow> socks_connector \<Rightarrow> socks_connector" where
  "socks_set_auth auth sx = sx\<lparr>sx_auth := auth\<rparr>"

definition socks_set_version :: "socks_version \<Rightarrow> socks_connector \<Rightarrow> socks_connector" where
  "socks_set_version v sx = sx\<lparr>sx_version := v\<rparr>"

definition socks_set_dns_mode :: "dns_resolve \<Rightarrow> socks_connector \<Rightarrow> socks_connector" where
  "socks_set_dns_mode m sx = sx\<lparr>sx_dns_resolve := m\<rparr>"

fun hello_target :: "socks_handshake \<Rightarrow> target_addr" where
  "hello_target (Socks4 t) = t"
| "hello_target (Socks5 t) = t"
| "hello_target (Socks5Password t _ _) = t"

datatype socks_event = SocksDial uri | SocksResolve string | SocksHello socks_handshake

text \<open>The target given to the proxy: a name for it to resolve, or the first resolved address.\<close>

definition socks_target ::
    "(string \<Rightarrow> std_error + socket_addr list) \<Rightarrow> dns_resolve \<Rightarrow> string \<Rightarrow> u16 \<Rightarrow> std_error + target_addr" where
  "socks_target resolver mode h p =
     (case mode of
        RemoteDns \<Rightarrow> Inr (TargetDomain h p)
      | LocalDns \<Rightarrow>
          (case resolver h of
             Inl e \<Rightarrow> Inl (ESocks DnsResolveFailure (Some e))
           | Inr [] \<Rightarrow> Inl (ESocks DnsFailure None)
           | Inr (a # _) \<Rightarrow> Inr (TargetIp (with_port p a))))"

definition socks_hello :: "socks_connector \<Rightarrow> target_addr \<Rightarrow> std_error + socks_handshake" where
  "socks_hello sx target =
     (case sx_version sx of
        SocksV4 \<Rightarrow> Inr (Socks4 target)
      | SocksV5 \<Rightarrow>
          (case sx_auth sx of
             None \<Rightarrow> Inr (Socks5 target)
           | Some (username, password) \<Rightarrow>
               if \<not> valid_utf8 username \<or> \<not> valid_utf8 password then Inl (ESocks SocksUtf8 None)
               else Inr (Socks5Password target username password)))"

definition socks_call ::
    "(uri \<Rightarrow> std_error + 'io) \<Rightarrow> (string \<Rightarrow> std_error + socket_addr list) \<Rightarrow>
     (socks_handshake \<Rightarrow> 'io \<Rightarrow> std_error + 'io) \<Rightarrow> socks_connector \<Rightarrow> uri \<Rightarrow>
     socks_event list \<times> (std_error + 'io)" where
  "socks_call dial resolver shake sx dst =
     (case host dst of
        None \<Rightarrow> ([], Inl (ESocks SocksMissingHost None))
      | Some h \<Rightarrow>
          (let h = strip_ipv6_brackets h; p = port_or_default dst; d = [SocksDial (sx_proxy_dst sx)] in
           case dial (sx_proxy_dst sx) of
             Inl e \<Rightarrow> (d, Inl (ESocks SocksConnectFailed (Some e)))
           | Inr socket \<Rightarrow>
               (let q = d @ (if sx_dns_resolve sx = LocalDns then [SocksResolve h] else []) in
                case and_then (socks_target resolver (sx_dns_resolve sx) h p) (socks_hello sx) of
                  Inl e \<Rightarrow> (q, Inl e)
                | Inr hello \<Rightarrow>
                    (q @ [SocksHello hello],
                     case shake hello socket of
                       Inl e \<Rightarrow> Inl (ESocks SocksHandshake (Some e)) | Inr io \<Rightarrow> Inr io))))"

section \<open>The tunnel depends only on the bytes\<close>

text \<open>
  What the parser's documentation promises: more bytes do not change an answer that was
  reached.
\<close>

definition parser_laws :: "(string \<Rightarrow> parse_result) \<Rightarrow> bool" where
  "parser_laws parse \<longleftrightarrow> (\<forall>s t. parse s \<noteq> ParsePartial \<longrightarrow> parse (s @ t) = parse s)"

definition tunnel_answer :: "parse_result \<Rightarrow> tunnel_result option" where
  "tunnel_answer r =
     (case r of
        ParsePartial \<Rightarrow> None
      | ParseError \<Rightarrow> Some (TunnelFailed (ETunnel TunnelParse (Some (EOther ''httparse'' None))))
      | ParseComplete code \<Rightarrow>
          Some (if code = Some 200 then TunnelOpen
                else if code = Some 407 then TunnelFailed (ETunnel ProxyAuthRequired None)
                else TunnelFailed (ETunnel TunnelUnsuccessful None)))"

lemma tunnel_read_chunks:
  assumes "parser_laws parse" and "\<And>c. c \<in> set chunks \<Longrightarrow> c \<noteq> []"
    and "parse buf = ParsePartial"
  shows "tunnel_read parse buf (map Inr chunks) = tunnel_answer (parse (buf @ concat chunks))"
  using assms(2,3)
proof (induction chunks arbitrary: buf)
  case Nil
  then show ?case by (simp add: tunnel_answer_def)
next
  case (Cons c cs)
  show ?case
  proof (cases "parse (buf @ c) = ParsePartial")
    case True
    with Cons show ?thesis by simp
  next
    case False
    then have "parse ((buf @ c) @ concat cs) = parse (buf @ c)"
      using assms(1) unfolding parser_laws_def by blast
    with False Cons.prems(1) [of c] show ?thesis
      by (cases "parse (buf @ c)") (simp_all add: tunnel_answer_def)
  qed
qed

text \<open>
  A tunnel is open exactly when the head of the proxy's response is complete and its
  status is 200, however the bytes were cut into reads; 407, any other status and a response
  that cannot be parsed give their own errors, and an incomplete head keeps the tunnel
  waiting until the stream ends.
\<close>

lemma tunnel_outcome:
  assumes "parser_laws parse" and "parse [] = ParsePartial"
    and "\<forall>c \<in> set chunks. c \<noteq> []"
  shows "tunnel_read parse [] (map Inr chunks) = tunnel_answer (parse (concat chunks)) \<and>
    (parse (concat chunks) = ParsePartial \<longrightarrow>
       tunnel_read parse [] (map Inr chunks @ Inr [] # rest) =
         Some (TunnelFailed (ETunnel TunnelUnexpectedEof None)))"
proof -
  have read: "tunnel_read parse [] (map Inr chunks) = tunnel_answer (parse (concat chunks))"
    using tunnel_read_chunks [OF assms(1) _ assms(2), of chunks] assms(3) by simp
  have "tunnel_read parse buf (map Inr cs @ Inr [] # rest) =
      Some (TunnelFailed (ETunnel TunnelUnexpectedEof None))"
    if "tunnel_read parse buf (map Inr cs) = None" for buf cs
    using that
    by (induction cs arbitrary: buf) (auto split: if_splits parse_result.splits)
  with read show ?thesis
    by (simp add: tunnel_answer_def)
qed

text \<open>A response head that ends at the first blank line, with its status at a fixed place.\<close>

definition toy_parse :: "string \<Rightarrow> parse_result" where
  "toy_parse s = (if prefix (''200'' @ crlf) s then ParseComplete (Some 200)
     else if prefix (''407'' @ crlf) s then ParseComplete (Some 407) else ParsePartial)"

lemma toy_parse_laws: "parser_laws toy_parse"
  unfolding parser_laws_def toy_parse_def
  by (auto simp: prefix_def crlf_def) (metis append_Cons append_Nil append_assoc)?

lemma tunnel_outcome_witness:
  "tunnel_read toy_parse [] (map Inr [''2'', ''00'' @ crlf]) = Some TunnelOpen \<and>
   tunnel_read toy_parse [] (map Inr [''20''] @ Inr [] # []) =
     Some (TunnelFailed (ETunnel TunnelUnexpectedEof None))"
  using tunnel_outcome [OF toy_parse_laws, of "[''2'', ''00'' @ crlf]" "[]"]
    tunnel_outcome [OF toy_parse_laws, of "[''20'']" "[]"]
  by (simp add: toy_parse_def tunnel_answer_def crlf_def)

section \<open>SOCKS leaks no name\<close>

text \<open>
  A SOCKS connection dials only the proxy. In the remote mode the target's name is not
  asked of any resolver and reaches the proxy as it is, at the port of the URI; in the local
  mode the proxy is given an address at that port. Nothing is sent when the URI has no host,
  and credentials that are not text are never sent.
\<close>

lemma socks_reveals:
  assumes "socks_call dial resolver shake sx dst = (events, result)"
  shows "(SocksDial u \<in> set events \<longrightarrow> u = sx_proxy_dst sx) \<and>
    (SocksResolve n \<in> set events \<longrightarrow>
       sx_dns_resolve sx = LocalDns \<and> map_option strip_ipv6_brackets (host dst) = Some n) \<and>
    (SocksHello hello \<in> set events \<longrightarrow>
       (case hello_target hello of
          TargetDomain m p \<Rightarrow> sx_dns_resolve sx = RemoteDns \<and> p = port_or_default dst \<and>
            map_option strip_ipv6_brackets (host dst) = Some m
        | TargetIp a \<Rightarrow> sx_dns_resolve sx = LocalDns \<and> sa_port a = port_or_default dst) \<and>
       (case hello of
          Socks4 _ \<Rightarrow> sx_version sx = SocksV4
        | Socks5 _ \<Rightarrow> sx_version sx = SocksV5 \<and> sx_auth sx = None
        | Socks5Password _ user pass \<Rightarrow>
            sx_version sx = SocksV5 \<and> sx_auth sx = Some (user, pass) \<and> valid_utf8 user \<and> valid_utf8 pass))"
proof (cases "host dst")
  case None
  with assms have "events = []" by (auto simp: socks_call_def)
  then show ?thesis by simp
next
  case (Some h)
  show ?thesis
  proof (cases "dial (sx_proxy_dst sx)")
    case (Inl e)
    with assms Some have "events = [SocksDial (sx_proxy_dst sx)]" by (auto simp: socks_call_def Let_def)
    then show ?thesis by simp
  next
    case (Inr socket)
    let ?h = "strip_ipv6_brackets h" and ?p = "port_or_default dst"
    let ?q = "SocksDial (sx_proxy_dst sx) # (if sx_dns_resolve sx = LocalDns then [SocksResolve ?h] else [])"
    show ?thesis
    proof (cases "and_then (socks_target resolver (sx_dns_resolve sx) ?h ?p) (socks_hello sx)")
      case (Inl e)
      with assms Some \<open>dial _ = Inr socket\<close> have "events = ?q" by (auto simp: socks_call_def Let_def)
      with Some show ?thesis by simp
    next
      case (Inr hello')
      with assms Some \<open>dial _ = Inr socket\<close> have ev: "events = ?q @ [SocksHello hello']"
        by (auto simp: socks_call_def Let_def)
      obtain t where t: "socks_target resolver (sx_dns_resolve sx) ?h ?p = Inr t"
        and hello: "socks_hello sx t = Inr hello'"
        using Inr by (auto simp: and_then_Inr_iff)
      have "case t of
          TargetDomain m p \<Rightarrow> sx_dns_resolve sx = RemoteDns \<and> p = ?p \<and> ?h = m
        | TargetIp a \<Rightarrow> sx_dns_resolve sx = LocalDns \<and> sa_port a = ?p"
        using t by (auto simp: socks_target_def split: dns_resolve.splits sum.splits list.splits)
      moreover have "hello_target hello' = t"
        using hello by (auto simp: socks_hello_def split: socks_version.splits option.splits if_splits)
      moreover have "case hello' of
          Socks4 _ \<Rightarrow> sx_version sx = SocksV4
        | Socks5 _ \<Rightarrow> sx_version sx = SocksV5 \<and> sx_auth sx = None
        | Socks5Password _ user pass \<Rightarrow>
            sx_version sx = SocksV5 \<and> sx_auth sx = Some (user, pass) \<and> valid_utf8 user \<and> valid_utf8 pass"
        using hello by (auto simp: socks_hello_def split: socks_version.splits option.splits if_splits)
      ultimately show ?thesis
        unfolding ev by (cases t) (auto simp: Some)
    qed
  qed
qed

definition sample_socks :: "socks_connector" where
  "sample_socks = (socks_connector_new default_uri)\<lparr>sx_dns_resolve := RemoteDns, sx_auth := Some (''u'', ''p'')\<rparr>"

lemma socks_reveals_witness:
  "socks_call (\<lambda>u. Inr (7::nat)) (\<lambda>_. Inl ETimedOut) (\<lambda>_ io. Inr io) sample_socks sample_https_uri =
     ([SocksDial default_uri, SocksHello (Socks5Password (TargetDomain ''a.test'' 443) ''u'' ''p'')], Inr 7) \<and>
   valid_utf8 ''u''"
proof -
  have h: "strip_ipv6_brackets ''a.test'' = ''a.test''" and u: "valid_utf8 ''u''" "valid_utf8 ''p''"
    by code_simp+
  then have run: "socks_call (\<lambda>u. Inr (7::nat)) (\<lambda>_. Inl ETimedOut) (\<lambda>_ io. Inr io) sample_socks sample_https_uri =
     ([SocksDial default_uri, SocksHello (Socks5Password (TargetDomain ''a.test'' 443) ''u'' ''p'')], Inr 7)"
    by (simp add: socks_call_def sample_socks_def socks_connector_new_def sample_https_uri_def socks_target_def
        socks_hello_def port_or_default_def is_https_def Let_def)
  from socks_reveals [OF run] run show ?thesis by simp
qed

end
