(* ===== verification/Connector.thy ===== *)
theory Connector
  imports Tls_Conn Proxy_Tunnel Proxy_Matcher Group
begin

text \<open>
  The connector (\<open>src/src/conn/connector.rs\<close>, the services of \<open>src/src/tls/conn/service.rs\<close> and
  \<open>Conn\<close> of \<open>src/src/conn.rs\<close>): which proxy is used, what is dialled, when a tunnel or a SOCKS
  handshake is made, and when TLS. An operation is a function of the session caches that
  gives the network events it causes in order, the caches after it, and its result. What the
  network answers is the environment, a record of functions.
\<close>

section \<open>Operations with network events\<close>

type_synonym ('w, 'ev, 'a) act = "'w \<Rightarrow> 'ev list \<times> 'w \<times> (std_error + 'a)"

definition act_return :: "'a \<Rightarrow> ('w, 'ev, 'a) act" where
  "act_return a = (\<lambda>w. ([], w, Inr a))"

definition act_lift :: "std_error + 'a \<Rightarrow> ('w, 'ev, 'a) act" where
  "act_lift r = (\<lambda>w. ([], w, r))"

definition act_emit :: "'ev \<Rightarrow> ('w, 'ev, unit) act" where
  "act_emit e = (\<lambda>w. ([e], w, Inr ()))"

definition act_state :: "('w \<Rightarrow> 'w \<times> (std_error + 'a)) \<Rightarrow> ('w, 'ev, 'a) act" where
  "act_state f = (\<lambda>w. ([], f w))"

definition act_bind :: "('w, 'ev, 'a) act \<Rightarrow> ('a \<Rightarrow> ('w, 'ev, 'b) act) \<Rightarrow> ('w, 'ev, 'b) act" where
  "act_bind m f = (\<lambda>w.
     case m w of
       (ev, w', Inl e) \<Rightarrow> (ev, w', Inl e)
     | (ev, w', Inr a) \<Rightarrow> (case f a w' of (ev', w'', r) \<Rightarrow> (ev @ ev', w'', r)))"

definition act_map_err :: "(std_error \<Rightarrow> std_error) \<Rightarrow> ('w, 'ev, 'a) act \<Rightarrow> ('w, 'ev, 'a) act" where
  "act_map_err g m = (\<lambda>w. case m w of (ev, w', r) \<Rightarrow> (ev, w', map_err g r))"

text \<open>Every event satisfies \<open>P\<close>, and so does every result \<open>Q\<close>.\<close>

definition act_all :: "('ev \<Rightarrow> bool) \<Rightarrow> ('a \<Rightarrow> bool) \<Rightarrow> ('w, 'ev, 'a) act \<Rightarrow> bool" where
  "act_all P Q m \<longleftrightarrow>
     (\<forall>w ev w' r. m w = (ev, w', r) \<longrightarrow> list_all P ev \<and> (\<forall>a. r = Inr a \<longrightarrow> Q a))"

named_theorems act_rules \<open>rules for operations all of whose events satisfy a predicate\<close>

lemma act_allD:
  "act_all P Q m \<Longrightarrow> m w = (ev, w', r) \<Longrightarrow> list_all P ev \<and> (\<forall>a. r = Inr a \<longrightarrow> Q a)"
  by (simp add: act_all_def)

lemma act_all_mono:
  "act_all P Q m \<Longrightarrow> (\<And>e. P e \<Longrightarrow> P' e) \<Longrightarrow> (\<And>a. Q a \<Longrightarrow> Q' a) \<Longrightarrow> act_all P' Q' m"
  by (auto simp: act_all_def list_all_iff)

lemma act_all_return [act_rules]: "Q a \<Longrightarrow> act_all P Q (act_return a)"
  by (simp add: act_all_def act_return_def)

lemma act_all_lift [act_rules]: "(\<And>a. r = Inr a \<Longrightarrow> Q a) \<Longrightarrow> act_all P Q (act_lift r)"
  by (simp add: act_all_def act_lift_def)

lemma act_all_emit [act_rules]: "P e \<Longrightarrow> Q () \<Longrightarrow> act_all P Q (act_emit e)"
  by (simp add: act_all_def act_emit_def)

lemma act_all_state [act_rules]:
  "(\<And>w w' a. f w = (w', Inr a) \<Longrightarrow> Q a) \<Longrightarrow> act_all P Q (act_state f)"
  by (auto simp: act_all_def act_state_def)

lemma act_all_map_err [act_rules]: "act_all P Q m \<Longrightarrow> act_all P Q (act_map_err g m)"
  by (fastforce simp: act_all_def act_map_err_def map_err_def split: prod.splits sum.splits)

lemma act_all_bind:
  assumes "act_all P R m" and "\<And>a. R a \<Longrightarrow> act_all P Q (f a)"
  shows "act_all P Q (act_bind m f)"
  unfolding act_all_def
proof (intro allI impI)
  fix w ev w' r
  assume run: "act_bind m f w = (ev, w', r)"
  obtain ev1 w1 r1 where m: "m w = (ev1, w1, r1)" by (cases "m w")
  then have ev1: "list_all P ev1" and R: "\<And>a. r1 = Inr a \<Longrightarrow> R a"
    using assms(1) by (auto simp: act_all_def)
  show "list_all P ev \<and> (\<forall>a. r = Inr a \<longrightarrow> Q a)"
  proof (cases r1)
    case (Inl e)
    with run m ev1 show ?thesis by (auto simp: act_bind_def)
  next
    case (Inr a)
    obtain ev2 w2 r2 where f: "f a w1 = (ev2, w2, r2)" by (cases "f a w1")
    then have "list_all P ev2 \<and> (\<forall>b. r2 = Inr b \<longrightarrow> Q b)"
      using assms(2) [OF R [OF Inr]] by (auto simp: act_all_def)
    with run m Inr f ev1 show ?thesis by (auto simp: act_bind_def)
  qed
qed

section \<open>The environment\<close>

datatype ('io, 'key) stream = Plain 'io | Secure "'key cfg_call list" "('io, 'key) stream"

datatype 'key net_event =
    EvDial tcp_options uri | EvUnix string | EvResolve string | EvSocks socks_handshake
  | EvConnectRequest string | EvTls "'key cfg_call list" | EvNodelay bool

record ('c, 'k, 'b, 'l, 'io, 'key, 'm) conn_env =
  en_dial :: "tcp_options \<Rightarrow> uri \<Rightarrow> std_error + 'io"
  en_unix :: "string \<Rightarrow> std_error + 'io"
  en_resolve :: "string \<Rightarrow> std_error + socket_addr list"
  en_shake :: "socks_handshake \<Rightarrow> 'io \<Rightarrow> std_error + 'io"
  en_write :: "('io, 'key) stream \<Rightarrow> string \<Rightarrow> std_error option"
  en_reads :: "('io, 'key) stream \<Rightarrow> (std_error + string) list"
  en_parse :: "string \<Rightarrow> parse_result"
  en_ssl :: "('c, 'k, 'b, 'l) ssl_call list \<Rightarrow> ('c, 'k, 'b, 'l) ssl_call \<Rightarrow> std_error option"
  en_cfg :: "'key cfg_call list \<Rightarrow> 'key cfg_call \<Rightarrow> std_error option"
  en_handshake :: "'key cfg_call list \<Rightarrow> ('io, 'key) stream \<Rightarrow> std_error option"
  en_nodelay :: "('io, 'key) stream \<Rightarrow> std_error option"
  en_lru :: "'m session_lru"
  en_random :: u64
  en_webpki :: bool
  en_elapsed :: "nat option"

section \<open>TLS services\<close>

definition dial_act :: "('c, 'k, 'b, 'l, 'io, 'key, 'm) conn_env \<Rightarrow> tcp_options \<Rightarrow> uri \<Rightarrow> ('w, 'key net_event, ('io, 'key) stream) act" where
  "dial_act E o' u = act_bind (act_emit (EvDial o' u)) (\<lambda>_. act_lift (map_sum id Plain (en_dial E o' u)))"

definition unix_act :: "('c, 'k, 'b, 'l, 'io, 'key, 'm) conn_env \<Rightarrow> string \<Rightarrow> ('w, 'key net_event, ('io, 'key) stream) act" where
  "unix_act E p = act_bind (act_emit (EvUnix p)) (\<lambda>_. act_lift (map_sum id Plain (en_unix E p)))"

definition handshake_act ::
    "('c, 'k, 'b, 'l, 'io, 'key, 'm) conn_env \<Rightarrow> 'key cfg_call list \<Rightarrow> ('io, 'key) stream \<Rightarrow>
     ('w, 'key net_event, (('io, 'key) stream, 'key) maybe_https_stream) act" where
  "handshake_act E ssl conn =
     act_bind (act_emit (EvTls ssl)) (\<lambda>_. act_lift (perform_handshake (en_handshake E) ssl conn))"

text \<open>\<open>HttpsConnector\<close> for a bare URI, for an established connection and for a descriptor.\<close>

definition https_call_uri ::
    "('c, 'k, 'b, 'l, 'io, 'key, 'm) conn_env \<Rightarrow> ('w, 'key net_event, ('io, 'key) stream) act \<Rightarrow> uri \<Rightarrow>
     ('w, 'key net_event, (('io, 'key) stream, 'key) maybe_https_stream) act" where
  "https_call_uri E dial u =
     act_bind dial (\<lambda>conn.
       if scheme u \<noteq> Some HTTPS then act_return (Http conn)
       else act_bind (act_lift (setup_ssl (en_cfg E) u)) (\<lambda>ssl. handshake_act E ssl conn))"

definition https_call_established ::
    "('c, 'k, 'b, 'l, 'io, 'key, 'm) conn_env \<Rightarrow> ('c, 'k, 'b, 'l, 's) tls_connector \<Rightarrow>
     uri \<Rightarrow> http_version option \<Rightarrow> 'key \<Rightarrow> ('io, 'key) stream \<Rightarrow>
     (('s, 'key, 'm) cache_heap, 'key net_event, (('io, 'key) stream, 'key) maybe_https_stream) act" where
  "https_call_established E tc u version key io =
     (if is_http u then act_return (Http io)
      else act_bind (act_state (setup_ssl2 (en_cfg E) (en_lru E) (en_random E) tc u version key))
        (\<lambda>ssl. handshake_act E ssl io))"

definition https_call_descriptor ::
    "('c, 'k, 'b, 'l, 'io, 'key, 'm) conn_env \<Rightarrow>
     (('s, 'key, 'm) cache_heap, 'key net_event, ('io, 'key) stream) act \<Rightarrow> ('c, 'k, 'b, 'l, 's) tls_connector \<Rightarrow>
     uri \<Rightarrow> http_version option \<Rightarrow> 'key \<Rightarrow>
     (('s, 'key, 'm) cache_heap, 'key net_event, (('io, 'key) stream, 'key) maybe_https_stream) act" where
  "https_call_descriptor E dial tc u version key =
     act_bind dial (\<lambda>conn. https_call_established E tc u version key conn)"

section \<open>The connector service\<close>

type_synonym ('h, 'n) conn_desc = "(('h, 'n) matcher, bind_options, tls_options) connection_descriptor"
type_synonym ('h, 'n) conn_key = "(('h, 'n) matcher, bind_options) group"

record ('h, 'n) connector_config =
  cf_proxies :: "('h, 'n) matcher list"
  cf_verbose :: bool
  cf_nodelay :: bool
  cf_tls_info :: bool
  cf_timeout :: "u64 option"

record ('c, 'k, 'b, 'l, 's, 'h, 'n) connector_service =
  cs_config :: "('h, 'n) connector_config"
  cs_tls :: "('c, 'k, 'b, 'l, 's) tls_connector"
  cs_http :: tcp_options
  cs_builder :: "('c, 'k, 'b, 'l, 's) tls_connector_builder"

record ('io, 'key, 'h) conn =
  cn_stream :: "('io, 'key) stream"
  cn_tls_info :: bool
  cn_proxy :: "'h intercept option"

fun boxed_stream :: "(('io, 'key) stream, 'key) maybe_https_stream \<Rightarrow> ('io, 'key) stream" where
  "boxed_stream (Http s) = s"
| "boxed_stream (Https ssl s) = Secure ssl s"

text \<open>The TCP options and the TLS connector a connection is made with.\<close>

definition connector_http ::
    "('c, 'k, 'b, 'l, 's, 'h, 'n) connector_service \<Rightarrow> bool \<Rightarrow> ('h, 'n) conn_desc \<Rightarrow> tcp_options" where
  "connector_http S https d =
     (let http = (if https \<and> \<not> cf_nodelay (cs_config S) then hc_set_nodelay True (cs_http S) else cs_http S)
      in case cd_socket_bind d of
           None \<Rightarrow> http
         | Some bo \<Rightarrow>
             (let http = hc_set_local_addresses (bo_ipv4 bo) (bo_ipv6 bo) http
              in case bo_interface bo of Some i \<Rightarrow> hc_set_interface i http | None \<Rightarrow> http))"

definition build_https_connector ::
    "('c, 'k, 'b, 'l, 'io, 'key, 'm) conn_env \<Rightarrow> ('c, 'k, 'b, 'l, 's, 'h, 'n) connector_service \<Rightarrow> bool \<Rightarrow>
     ('h, 'n) conn_desc \<Rightarrow> std_error + tcp_options \<times> ('c, 'k, 'b, 'l, 's) tls_connector" where
  "build_https_connector E S https d =
     and_then (case cd_tls_options d of
                 Some opts \<Rightarrow> tls_build (en_webpki E) (en_ssl E) (cs_builder S) opts
               | None \<Rightarrow> Inr (cs_tls S))
       (\<lambda>tls. Inr (connector_http S https d, tls))"

definition tunnel_conn_from_stream ::
    "('h, 'n) connector_config \<Rightarrow> (('io, 'key) stream, 'key) maybe_https_stream \<Rightarrow> ('io, 'key, 'h) conn" where
  "tunnel_conn_from_stream cf io =
     (case io of
        Http s \<Rightarrow> \<lparr>cn_stream = s, cn_tls_info = False, cn_proxy = None\<rparr>
      | Https ssl s \<Rightarrow> \<lparr>cn_stream = Secure ssl s, cn_tls_info = cf_tls_info cf, cn_proxy = None\<rparr>)"

definition conn_from_stream ::
    "('h, 'n) connector_config \<Rightarrow> (('io, 'key) stream, 'key) maybe_https_stream \<Rightarrow> 'h intercept option \<Rightarrow>
     ('io, 'key, 'h) conn" where
  "conn_from_stream cf io proxy =
     \<lparr>cn_stream = boxed_stream io, cn_tls_info = cf_tls_info cf, cn_proxy = proxy\<rparr>"

definition reset_nodelay ::
    "('c, 'k, 'b, 'l, 'io, 'key, 'm) conn_env \<Rightarrow> bool \<Rightarrow> ('io, 'key) stream \<Rightarrow> ('w, 'key net_event, unit) act" where
  "reset_nodelay E needed io =
     (if needed
      then act_bind (act_emit (EvNodelay False))
             (\<lambda>_. act_lift (case en_nodelay E io of Some e \<Rightarrow> Inl e | None \<Rightarrow> Inr ()))
      else act_return ())"

text \<open>Connecting directly, or to a plain-text proxy that the descriptor's URI now names.\<close>

definition connect_auto_proxy ::
    "('c, 'k, 'b, 'l, 'io, ('h, 'n) conn_key, 'm) conn_env \<Rightarrow> ('c, 'k, 'b, 'l, 's, 'h, 'n) connector_service \<Rightarrow>
     ('h, 'n) conn_desc \<Rightarrow> 'h intercept option \<Rightarrow>
     (('s, ('h, 'n) conn_key, 'm) cache_heap, ('h, 'n) conn_key net_event, ('io, ('h, 'n) conn_key, 'h) conn) act" where
  "connect_auto_proxy E S d proxy =
     (let https = is_https (cd_uri d) in
      act_bind (act_lift (build_https_connector E S https d)) (\<lambda>(http, tls).
        let tls = (if proxy \<noteq> None \<and> https then no_alpn tls else tls) in
        act_bind (https_call_descriptor E (dial_act E http (cd_uri d)) tls (cd_uri d) (cd_version d) (cd_id d))
          (\<lambda>io.
            act_bind (reset_nodelay E (https \<and> \<not> cf_nodelay (cs_config S)) (boxed_stream io)) (\<lambda>_.
              act_return (conn_from_stream (cs_config S) io proxy)))))"

text \<open>The tunnel connector over an HTTPS connector: reaching the proxy, then asking for the target.\<close>

definition tunnel_call ::
    "('c, 'k, 'b, 'l, 'io, 'key, 'm) conn_env \<Rightarrow> 'h header_ops \<Rightarrow>
     ('w, 'key net_event, ('io, 'key) stream) act \<Rightarrow> uri \<Rightarrow> 'h tunnel_headers \<Rightarrow> uri \<Rightarrow>
     ('w, 'key net_event, ('io, 'key) stream) act" where
  "tunnel_call E H dial proxy_dst headers dst =
     act_bind (act_map_err (\<lambda>e. ETunnel TunnelConnectFailed (Some e)) (https_call_uri E dial proxy_dst)) (\<lambda>io.
       let conn = boxed_stream io in
       case host dst of
         None \<Rightarrow> act_lift (Inl (ETunnel TunnelMissingHost None))
       | Some h \<Rightarrow>
           act_bind (act_emit (EvConnectRequest (tunnel_request H h (port_or_default dst) headers))) (\<lambda>_.
             act_lift
               (case tunnel H (en_parse E) (en_write E conn) (en_reads E conn @ [Inr []]) h
                       (port_or_default dst) headers of
                  Some TunnelOpen \<Rightarrow> Inr conn
                | Some (TunnelFailed e) \<Rightarrow> Inl e
                | None \<Rightarrow> Inl (ETunnel TunnelUnexpectedEof None))))"

text \<open>\<open>SocksConnector::call\<close>, with its events as the network's.\<close>

definition socks_version_of :: "uri \<Rightarrow> (socks_version \<times> dns_resolve) option" where
  "socks_version_of proxy_uri =
     (if scheme proxy_uri = Some (OtherScheme ''socks4'') then Some (SocksV4, LocalDns)
      else if scheme proxy_uri = Some (OtherScheme ''socks4a'') then Some (SocksV4, RemoteDns)
      else if scheme proxy_uri = Some (OtherScheme ''socks5'') then Some (SocksV5, LocalDns)
      else if scheme proxy_uri = Some (OtherScheme ''socks5h'') then Some (SocksV5, RemoteDns)
      else None)"

fun socks_net_event :: "tcp_options \<Rightarrow> socks_event \<Rightarrow> 'key net_event" where
  "socks_net_event o' (SocksDial u) = EvDial o' u"
| "socks_net_event o' (SocksResolve n) = EvResolve n"
| "socks_net_event o' (SocksHello s) = EvSocks s"

definition socks_act ::
    "('c, 'k, 'b, 'l, 'io, 'key, 'm) conn_env \<Rightarrow> tcp_options \<Rightarrow> socks_connector \<Rightarrow> uri \<Rightarrow>
     ('w, 'key net_event, ('io, 'key) stream) act" where
  "socks_act E http sx dst = (\<lambda>w.
     case socks_call (en_dial E http) (en_resolve E) (en_shake E) sx dst of
       (events, r) \<Rightarrow> (map (socks_net_event http) events, w, map_sum id Plain r))"

definition localhost_uri :: uri where
  "localhost_uri =
     \<lparr>scheme = Some HTTP, authority = Some ''localhost'', host = Some ''localhost'', port = None,
      path = ''/'', query = None\<rparr>"

definition tunnel_headers_of :: "'h header_ops \<Rightarrow> 'h intercept \<Rightarrow> 'h tunnel_headers option" where
  "tunnel_headers_of H proxy =
     (let hs = (case ic_basic_auth proxy of Some a \<Rightarrow> with_auth H a HeadersEmpty | None \<Rightarrow> HeadersEmpty)
      in case ic_custom_headers proxy of Some h \<Rightarrow> with_headers H h hs | None \<Rightarrow> Some hs)"

definition connect_via_socks ::
    "('c, 'k, 'b, 'l, 'io, ('h, 'n) conn_key, 'm) conn_env \<Rightarrow> ('c, 'k, 'b, 'l, 's, 'h, 'n) connector_service \<Rightarrow>
     ('h, 'n) conn_desc \<Rightarrow> 'h intercept \<Rightarrow> socks_version \<times> dns_resolve \<Rightarrow>
     (('s, ('h, 'n) conn_key, 'm) cache_heap, ('h, 'n) conn_key net_event, ('io, ('h, 'n) conn_key, 'h) conn) act" where
  "connect_via_socks E S d proxy ver =
     (let u = cd_uri d; https = is_https u;
          sx = (socks_connector_new (ic_uri proxy))\<lparr>sx_auth := ic_raw_auth proxy, sx_version := fst ver,
                 sx_dns_resolve := snd ver\<rparr>
      in act_bind (socks_act E (cs_http S) sx u) (\<lambda>conn.
           act_bind (act_lift (build_https_connector E S https d)) (\<lambda>(http, tls).
             act_bind (https_call_established E tls u (cd_version d) (cd_id d) conn) (\<lambda>io.
               act_bind (reset_nodelay E (https \<and> \<not> cf_nodelay (cs_config S)) (boxed_stream io)) (\<lambda>_.
                 act_return (tunnel_conn_from_stream (cs_config S) io))))))"

definition connect_via_tunnel ::
    "('c, 'k, 'b, 'l, 'io, ('h, 'n) conn_key, 'm) conn_env \<Rightarrow> 'h header_ops \<Rightarrow>
     ('c, 'k, 'b, 'l, 's, 'h, 'n) connector_service \<Rightarrow> ('h, 'n) conn_desc \<Rightarrow> 'h intercept \<Rightarrow>
     (('s, ('h, 'n) conn_key, 'm) cache_heap, ('h, 'n) conn_key net_event, ('io, ('h, 'n) conn_key, 'h) conn) act" where
  "connect_via_tunnel E H S d proxy =
     (let u = cd_uri d in
      act_bind (act_lift (build_https_connector E S True d)) (\<lambda>(http, tls).
        case tunnel_headers_of H proxy of
          None \<Rightarrow> act_lift (Inl (EOther ''unreachable'' None))
        | Some headers \<Rightarrow>
            act_bind (tunnel_call E H (dial_act E http (ic_uri proxy)) (ic_uri proxy) headers u) (\<lambda>tunneled.
              act_bind (https_call_established E tls u (cd_version d) (cd_id d) tunneled) (\<lambda>io.
                act_bind (reset_nodelay E (\<not> cf_nodelay (cs_config S)) (boxed_stream io)) (\<lambda>_.
                  act_return (tunnel_conn_from_stream (cs_config S) io))))))"

definition connect_via_unix ::
    "('c, 'k, 'b, 'l, 'io, ('h, 'n) conn_key, 'm) conn_env \<Rightarrow> 'h header_ops \<Rightarrow>
     ('c, 'k, 'b, 'l, 's, 'h, 'n) connector_service \<Rightarrow> ('h, 'n) conn_desc \<Rightarrow> string \<Rightarrow>
     (('s, ('h, 'n) conn_key, 'm) cache_heap, ('h, 'n) conn_key net_event, ('io, ('h, 'n) conn_key, 'h) conn) act" where
  "connect_via_unix E H S d socket_path =
     (let u = cd_uri d in
      if is_https u
      then act_bind (tunnel_call E H (unix_act E socket_path) localhost_uri HeadersEmpty u) (\<lambda>tunneled.
             act_bind (https_call_established E (cs_tls S) u (cd_version d) (cd_id d) tunneled) (\<lambda>io.
               act_return (tunnel_conn_from_stream (cs_config S) io)))
      else act_bind (https_call_descriptor E (unix_act E socket_path) (cs_tls S) u (cd_version d) (cd_id d)) (\<lambda>io.
             act_return (conn_from_stream (cs_config S) io None)))"

definition connect_via_proxy ::
    "('c, 'k, 'b, 'l, 'io, ('h, 'n) conn_key, 'm) conn_env \<Rightarrow> 'h header_ops \<Rightarrow>
     ('c, 'k, 'b, 'l, 's, 'h, 'n) connector_service \<Rightarrow> ('h, 'n) conn_desc \<Rightarrow> 'h intercepted \<Rightarrow>
     (('s, ('h, 'n) conn_key, 'm) cache_heap, ('h, 'n) conn_key net_event, ('io, ('h, 'n) conn_key, 'h) conn) act" where
  "connect_via_proxy E H S d proxy =
     (case proxy of
        IProxy proxy \<Rightarrow>
          (case socks_version_of (ic_uri proxy) of
             Some ver \<Rightarrow> connect_via_socks E S d proxy ver
           | None \<Rightarrow>
               if is_https (cd_uri d) then connect_via_tunnel E H S d proxy
               else act_map_err EProxyConnect
                      (connect_auto_proxy E S (d\<lparr>cd_uri := ic_uri proxy\<rparr>) (Some proxy)))
      | IUnix socket_path \<Rightarrow> connect_via_unix E H S d socket_path)"

text \<open>
  The deadline passes when the attempt has got as far as \<open>k\<close> events; a session it took out of
  the cache is gone.
\<close>

definition act_cut :: "nat \<Rightarrow> ('w, 'ev, 'a) act \<Rightarrow> ('w, 'ev, 'a) act" where
  "act_cut k m = (\<lambda>w. case m w of (ev, w', r) \<Rightarrow>
     if k < length ev then (take k ev, w', Inl ETimedOut) else (ev, w', r))"

definition connect_auto ::
    "('c, 'k, 'b, 'l, 'io, ('h, 'n) conn_key, 'm) conn_env \<Rightarrow> 'h header_ops \<Rightarrow> 'n proxy_lib \<Rightarrow>
     ('c, 'k, 'b, 'l, 's, 'h, 'n) connector_service \<Rightarrow> ('h, 'n) conn_desc \<Rightarrow>
     (('s, ('h, 'n) conn_key, 'm) cache_heap, ('h, 'n) conn_key net_event, ('io, ('h, 'n) conn_key, 'h) conn) act" where
  "connect_auto E H X S d =
     (let fut = (case choose_intercept X (cd_proxy d) (cf_proxies (cs_config S)) (cd_uri d) of
                   Some i \<Rightarrow> connect_via_proxy E H S d i
                 | None \<Rightarrow> connect_auto_proxy E S d None)
      in case (cf_timeout (cs_config S), en_elapsed E) of
           (Some _, Some k) \<Rightarrow> act_cut k fut
         | _ \<Rightarrow> fut)"

section \<open>Building the connector\<close>

record ('c, 'k, 'b, 'l, 's, 'h, 'n) connector_builder =
  cb_config :: "('h, 'n) connector_config"
  cb_http :: tcp_options
  cb_tls :: "('c, 'k, 'b, 'l, 's) tls_connector_builder"

definition connector_builder_new ::
    "'s \<Rightarrow> ('h, 'n) matcher list \<Rightarrow> ('c, 'k, 'b, 'l, 's, 'h, 'n) connector_builder" where
  "connector_builder_new cache proxies =
     \<lparr>cb_config = \<lparr>cf_proxies = proxies, cf_verbose = False, cf_nodelay = True, cf_tls_info = False,
        cf_timeout = None\<rparr>,
      cb_http = http_connector_new, cb_tls = tls_connector_builder_new cache\<rparr>"

definition cb_with_http :: "(tcp_options \<Rightarrow> tcp_options) \<Rightarrow> ('c, 'k, 'b, 'l, 's, 'h, 'n) connector_builder \<Rightarrow> ('c, 'k, 'b, 'l, 's, 'h, 'n) connector_builder" where
  "cb_with_http f B = B\<lparr>cb_http := f (cb_http B)\<rparr>"

definition cb_with_tls ::
    "(('c, 'k, 'b, 'l, 's) tls_connector_builder \<Rightarrow> ('c, 'k, 'b, 'l, 's) tls_connector_builder) \<Rightarrow>
     ('c, 'k, 'b, 'l, 's, 'h, 'n) connector_builder \<Rightarrow> ('c, 'k, 'b, 'l, 's, 'h, 'n) connector_builder" where
  "cb_with_tls f B = B\<lparr>cb_tls := f (cb_tls B)\<rparr>"

definition cb_set_timeout :: "u64 option \<Rightarrow> ('c, 'k, 'b, 'l, 's, 'h, 'n) connector_builder \<Rightarrow> ('c, 'k, 'b, 'l, 's, 'h, 'n) connector_builder" where
  "cb_set_timeout x B = B\<lparr>cb_config := (cb_config B)\<lparr>cf_timeout := x\<rparr>\<rparr>"

definition cb_set_verbose :: "bool \<Rightarrow> ('c, 'k, 'b, 'l, 's, 'h, 'n) connector_builder \<Rightarrow> ('c, 'k, 'b, 'l, 's, 'h, 'n) connector_builder" where
  "cb_set_verbose x B = B\<lparr>cb_config := (cb_config B)\<lparr>cf_verbose := x\<rparr>\<rparr>"

definition cb_set_tls_info :: "bool \<Rightarrow> ('c, 'k, 'b, 'l, 's, 'h, 'n) connector_builder \<Rightarrow> ('c, 'k, 'b, 'l, 's, 'h, 'n) connector_builder" where
  "cb_set_tls_info x B = B\<lparr>cb_config := (cb_config B)\<lparr>cf_tls_info := x\<rparr>\<rparr>"

definition cb_set_tcp_nodelay :: "bool \<Rightarrow> ('c, 'k, 'b, 'l, 's, 'h, 'n) connector_builder \<Rightarrow> ('c, 'k, 'b, 'l, 's, 'h, 'n) connector_builder" where
  "cb_set_tcp_nodelay x B = B\<lparr>cb_config := (cb_config B)\<lparr>cf_nodelay := x\<rparr>\<rparr>"

text \<open>With layers of the user the timeout becomes a layer around them.\<close>

datatype ('c, 'k, 'b, 'l, 's, 'h, 'n) connector =
    Simple "('c, 'k, 'b, 'l, 's, 'h, 'n) connector_service"
  | WithLayers "('c, 'k, 'b, 'l, 's, 'h, 'n) connector_service" "u64 option"

definition connector_build ::
    "('c, 'k, 'b, 'l, 'io, 'key, 'm) conn_env \<Rightarrow> ('c, 'k, 'b, 'l, 's, 'h, 'n) connector_builder \<Rightarrow>
     tls_options option \<Rightarrow> bool \<Rightarrow> std_error + ('c, 'k, 'b, 'l, 's, 'h, 'n) connector" where
  "connector_build E B opts has_layers =
     and_then (tls_build (en_webpki E) (en_ssl E) (cb_tls B)
                (case opts of Some opts' \<Rightarrow> opts' | None \<Rightarrow> tls_options_default)) (\<lambda>tls.
       let service = \<lparr>cs_config = cb_config B, cs_tls = tls, cs_http = cb_http B, cs_builder = cb_tls B\<rparr> in
       Inr (if \<not> has_layers then Simple service
            else WithLayers (service\<lparr>cs_config := (cb_config B)\<lparr>cf_timeout := None\<rparr>\<rparr>)
                   (cf_timeout (cb_config B))))"

text \<open>
  A call of the connector. The user's layers are a parameter that wraps the service; the timeout
  around them cuts the attempt after \<open>k\<close> events, and its error is named.
\<close>

definition connector_call ::
    "('c, 'k, 'b, 'l, 'io, ('h, 'n) conn_key, 'm) conn_env \<Rightarrow> 'h header_ops \<Rightarrow> 'n proxy_lib \<Rightarrow>
     ((('h, 'n) conn_desc \<Rightarrow>
         (('s, ('h, 'n) conn_key, 'm) cache_heap, ('h, 'n) conn_key net_event, ('io, ('h, 'n) conn_key, 'h) conn) act) \<Rightarrow>
      ('h, 'n) conn_desc \<Rightarrow>
         (('s, ('h, 'n) conn_key, 'm) cache_heap, ('h, 'n) conn_key net_event, ('io, ('h, 'n) conn_key, 'h) conn) act) \<Rightarrow>
     ('c, 'k, 'b, 'l, 's, 'h, 'n) connector \<Rightarrow> ('h, 'n) conn_desc \<Rightarrow>
     (('s, ('h, 'n) conn_key, 'm) cache_heap, ('h, 'n) conn_key net_event, ('io, ('h, 'n) conn_key, 'h) conn) act" where
  "connector_call E H X layers c d =
     (case c of
        Simple S \<Rightarrow> connect_auto E H X S d
      | WithLayers S t \<Rightarrow>
          act_map_err map_timeout_to_connector_error
            (case (t, en_elapsed E) of
               (Some _, Some k) \<Rightarrow> act_cut k (layers (connect_auto E H X S) d)
             | _ \<Rightarrow> layers (connect_auto E H X S) d))"

section \<open>Rules for the parts\<close>

lemma act_all_cut: "act_all P Q m \<Longrightarrow> act_all P Q (act_cut k m)"
  unfolding act_all_def act_cut_def
  by (auto split: prod.splits if_splits dest: in_set_takeD simp: list_all_iff)

lemma dial_all: "P (EvDial o' u) \<Longrightarrow> (\<And>io. Q (Plain io)) \<Longrightarrow> act_all P Q (dial_act E o' u)"
  unfolding dial_act_def
  by (rule act_all_bind [where R = "\<lambda>_. True"]; rule act_rules)
    (auto simp: map_sum_def split: sum.splits)

lemma unix_all: "P (EvUnix p) \<Longrightarrow> (\<And>io. Q (Plain io)) \<Longrightarrow> act_all P Q (unix_act E p)"
  unfolding unix_act_def
  by (rule act_all_bind [where R = "\<lambda>_. True"]; rule act_rules)
    (auto simp: map_sum_def split: sum.splits)

lemma reset_all: "P (EvNodelay False) \<Longrightarrow> Q () \<Longrightarrow> act_all P Q (reset_nodelay E b io)"
  unfolding reset_nodelay_def
  by (auto intro!: act_all_bind [where R = "\<lambda>_. True"] act_rules)

lemma handshake_all:
  "P (EvTls ssl) \<Longrightarrow> Q (Https ssl conn) \<Longrightarrow> act_all P Q (handshake_act E ssl conn)"
  unfolding handshake_act_def
  by (rule act_all_bind [where R = "\<lambda>_. True"]; rule act_rules)
    (auto simp: perform_handshake_def split: option.splits)

text \<open>A handshake that was configured for a URI is for the name of its host.\<close>

definition ssl_for :: "uri \<Rightarrow> 'key cfg_call list \<Rightarrow> bool" where
  "ssl_for u ssl \<longleftrightarrow> (\<exists>h. host u = Some h \<and> last ssl = IntoSsl (normalize_host h))"

lemma setup_ssl2_for: "setup_ssl2 G L r tc u v key heap = (heap', Inr ssl) \<Longrightarrow> ssl_for u ssl"
  by (auto simp: ssl_for_def dest!: setup_ssl2_made)

lemma setup_ssl_for: "setup_ssl G u = Inr ssl \<Longrightarrow> ssl_for u ssl"
  by (auto simp: ssl_for_def setup_ssl_def result_iffs dest!: run_calls_Inr)

lemma established_all:
  assumes "is_http u \<Longrightarrow> Q (Http io)"
    and "\<And>ssl. \<not> is_http u \<Longrightarrow> ssl_for u ssl \<Longrightarrow> P (EvTls ssl) \<and> Q (Https ssl io)"
  shows "act_all P Q (https_call_established E tc u v key io)"
proof (cases "is_http u")
  case True
  with assms(1) show ?thesis
    by (simp add: https_call_established_def act_all_return)
next
  case False
  with assms(2) show ?thesis
    by (auto simp: https_call_established_def
        intro!: act_all_bind [where R = "ssl_for u"] act_all_state handshake_all dest: setup_ssl2_for)
qed

lemma descriptor_all:
  assumes "act_all P R dial" and "\<And>io. R io \<Longrightarrow> is_http u \<Longrightarrow> Q (Http io)"
    and "\<And>io ssl. R io \<Longrightarrow> \<not> is_http u \<Longrightarrow> ssl_for u ssl \<Longrightarrow> P (EvTls ssl) \<and> Q (Https ssl io)"
  shows "act_all P Q (https_call_descriptor E dial tc u v key)"
  unfolding https_call_descriptor_def
  by (rule act_all_bind [OF assms(1)]) (rule established_all, use assms(2,3) in auto)

lemma uri_all:
  assumes "act_all P (\<lambda>_. True) dial" and "\<And>ssl. scheme u = Some HTTPS \<Longrightarrow> ssl_for u ssl \<Longrightarrow> P (EvTls ssl)"
  shows "act_all P (\<lambda>_. True) (https_call_uri E dial u)"
proof -
  have "act_all P (\<lambda>_. True)
      (if scheme u \<noteq> Some HTTPS then act_return (Http conn)
       else act_bind (act_lift (setup_ssl (en_cfg E) u)) (\<lambda>ssl. handshake_act E ssl conn))" for conn
    using assms(2)
    by (auto intro!: act_rules act_all_bind [where R = "ssl_for u"] handshake_all dest: setup_ssl_for)
  then show ?thesis
    unfolding https_call_uri_def by (rule act_all_bind [OF assms(1)])
qed

lemma tunnel_all:
  assumes "act_all P (\<lambda>_. True) dial" and "\<And>ssl. scheme p = Some HTTPS \<Longrightarrow> ssl_for p ssl \<Longrightarrow> P (EvTls ssl)"
    and "\<And>h. host dst = Some h \<Longrightarrow> P (EvConnectRequest (tunnel_request H h (port_or_default dst) headers))"
  shows "act_all P (\<lambda>_. True) (tunnel_call E H dial p headers dst)"
  unfolding tunnel_call_def Let_def
  by (rule act_all_bind [OF act_all_map_err [OF uri_all [OF assms(1,2)]]])
    (auto intro!: act_rules act_all_bind [where R = "\<lambda>_. True"] assms(3) split: option.splits)

lemma socks_all:
  assumes "P (EvDial http (sx_proxy_dst sx))"
    and "\<And>h. host dst = Some h \<Longrightarrow> sx_dns_resolve sx = LocalDns \<Longrightarrow> P (EvResolve (strip_ipv6_brackets h))"
    and "\<And>s. P (EvSocks s)"
  shows "act_all P (\<lambda>_. True) (socks_act E http sx dst)"
proof -
  have "list_all P (map (socks_net_event http) (fst (socks_call dial resolver shake sx dst)))"
    for dial resolver shake
    using assms
    by (auto simp: socks_call_def Let_def split: option.splits sum.splits)
  from this [of "en_dial E http" "en_resolve E" "en_shake E"] show ?thesis
    by (cases "socks_call (en_dial E http) (en_resolve E) (en_shake E) sx dst")
      (simp add: act_all_def socks_act_def)
qed

section \<open>Nothing goes around the proxy\<close>

text \<open>What the network may see of a connection to \<open>u\<close> over the route \<open>i\<close>.\<close>

fun route_allows :: "'h intercepted option \<Rightarrow> uri \<Rightarrow> 'key net_event \<Rightarrow> bool" where
  "route_allows None u (EvDial o' v) \<longleftrightarrow> v = u"
| "route_allows (Some (IProxy p)) u (EvDial o' v) \<longleftrightarrow> v = ic_uri p"
| "route_allows (Some (IUnix s)) u (EvDial o' v) \<longleftrightarrow> False"
| "route_allows i u (EvUnix s) \<longleftrightarrow> i = Some (IUnix s)"
| "route_allows (Some (IProxy p)) u (EvResolve n) \<longleftrightarrow>
     map_option snd (socks_version_of (ic_uri p)) = Some LocalDns"
| "route_allows i u (EvResolve n) \<longleftrightarrow> False"
| "route_allows (Some (IProxy p)) u (EvSocks s) \<longleftrightarrow> socks_version_of (ic_uri p) \<noteq> None"
| "route_allows i u (EvSocks s) \<longleftrightarrow> False"
| "route_allows i u (EvConnectRequest r) \<longleftrightarrow> i \<noteq> None \<and> is_https u"
| "route_allows i u (EvTls ssl) \<longleftrightarrow>
     ssl_for u ssl \<and> \<not> is_http u \<or> (\<exists>p. i = Some (IProxy p) \<and> ssl_for (ic_uri p) ssl \<and> \<not> is_http (ic_uri p))"
| "route_allows i u (EvNodelay b) \<longleftrightarrow> True"

text \<open>A secured target: what a connection for an \<open>https\<close> URI must be.\<close>

definition target_secured :: "uri \<Rightarrow> ('io, 'key) stream \<Rightarrow> bool" where
  "target_secured u s \<longleftrightarrow> (\<exists>ssl inner. s = Secure ssl inner \<and> ssl_for u ssl)"

lemma https_not_http: "is_https u \<Longrightarrow> \<not> is_http u"
  by (simp add: is_https_def is_http_def)

lemma auto_proxy_all:
  assumes "\<And>o'. P (EvDial o' (cd_uri d))" and "P (EvNodelay False)"
    and "\<And>ssl. \<not> is_http (cd_uri d) \<Longrightarrow> ssl_for (cd_uri d) ssl \<Longrightarrow> P (EvTls ssl)"
  shows "act_all P (\<lambda>c. cn_proxy c = proxy \<and> (is_https (cd_uri d) \<longrightarrow> target_secured (cd_uri d) (cn_stream c)))
    (connect_auto_proxy E S d proxy)"
proof -
  let ?u = "cd_uri d"
  have desc: "act_all P (\<lambda>io. is_https ?u \<longrightarrow> target_secured ?u (boxed_stream io))
      (https_call_descriptor E (dial_act E http ?u) tls ?u (cd_version d) (cd_id d))" for http tls
    using assms by (intro descriptor_all [where R = "\<lambda>_. True"] dial_all)
      (auto simp: target_secured_def dest: https_not_http)
  show ?thesis
    unfolding connect_auto_proxy_def Let_def
    by (rule act_all_bind [OF act_all_lift [where Q = "\<lambda>_. True"]])
      (auto intro!: act_all_bind [OF desc] act_all_bind [OF reset_all [where Q = "\<lambda>_. True"]] act_all_return
        simp: assms(2) conn_from_stream_def)
qed

lemma established_secured:
  assumes "\<And>ssl. \<not> is_http u \<Longrightarrow> ssl_for u ssl \<Longrightarrow> P (EvTls ssl)"
  shows "act_all P (\<lambda>io. is_https u \<longrightarrow> target_secured u (boxed_stream io))
    (https_call_established E tc u v key io)"
  by (rule established_all) (auto simp: target_secured_def assms dest: https_not_http)

lemma tunnel_conn_fields:
  "cn_stream (tunnel_conn_from_stream cf io) = boxed_stream io"
  "cn_proxy (tunnel_conn_from_stream cf io) = None"
  by (cases io; simp add: tunnel_conn_from_stream_def)+

lemma socks_route_all:
  assumes "socks_version_of (ic_uri p) = Some ver"
  shows "act_all (route_allows (Some (IProxy p)) (cd_uri d))
    (\<lambda>c. cn_proxy c = None \<and> (is_https (cd_uri d) \<longrightarrow> target_secured (cd_uri d) (cn_stream c)))
    (connect_via_socks E S d p ver)"
  unfolding connect_via_socks_def Let_def
  by (rule act_all_bind [OF socks_all], insert assms)
    (auto simp: socks_connector_new_def tunnel_conn_fields
      intro!: act_all_bind [OF act_all_lift [where Q = "\<lambda>_. True"]] act_all_bind [OF established_secured]
        act_all_bind [OF reset_all [where Q = "\<lambda>_. True"]] act_all_return)

lemma tunnel_route_all:
  assumes "is_https (cd_uri d)"
  shows "act_all (route_allows (Some (IProxy p)) (cd_uri d))
    (\<lambda>c. cn_proxy c = None \<and> (is_https (cd_uri d) \<longrightarrow> target_secured (cd_uri d) (cn_stream c)))
    (connect_via_tunnel E H S d p)"
  unfolding connect_via_tunnel_def Let_def
  by (rule act_all_bind [OF act_all_lift [where Q = "\<lambda>_. True"]], insert assms)
    (auto simp: tunnel_conn_fields is_http_def split: option.splits
      intro!: act_all_lift act_all_bind [OF tunnel_all] dial_all act_all_bind [OF established_secured]
        act_all_bind [OF reset_all [where Q = "\<lambda>_. True"]] act_all_return)

lemma unix_route_all:
  "act_all (route_allows (Some (IUnix s)) (cd_uri d))
    (\<lambda>c. cn_proxy c = None \<and> (is_https (cd_uri d) \<longrightarrow> target_secured (cd_uri d) (cn_stream c)))
    (connect_via_unix E H S d s)"
proof (cases "is_https (cd_uri d)")
  case True
  then show ?thesis
    unfolding connect_via_unix_def Let_def
    by (auto simp: tunnel_conn_fields localhost_uri_def
        intro!: act_all_bind [OF tunnel_all] unix_all act_all_bind [OF established_secured] act_all_return)
next
  case False
  then show ?thesis
    unfolding connect_via_unix_def Let_def
    by (auto simp: conn_from_stream_def
        intro!: act_all_bind [OF descriptor_all [where R = "\<lambda>_. True" and Q = "\<lambda>_. True"]] unix_all
        act_all_return)
qed

text \<open>The proxy a request on the connection has to be written for.\<close>

definition plain_proxy :: "'h intercepted option \<Rightarrow> uri \<Rightarrow> 'h intercept option" where
  "plain_proxy i u =
     (case i of
        Some (IProxy p) \<Rightarrow> if socks_version_of (ic_uri p) = None \<and> \<not> is_https u then Some p else None
      | _ \<Rightarrow> None)"

lemma connect_auto_all:
  "act_all (route_allows (choose_intercept X (cd_proxy d) (cf_proxies (cs_config S)) (cd_uri d)) (cd_uri d))
    (\<lambda>c. cn_proxy c = plain_proxy (choose_intercept X (cd_proxy d) (cf_proxies (cs_config S)) (cd_uri d)) (cd_uri d) \<and>
      (is_https (cd_uri d) \<longrightarrow> target_secured (cd_uri d) (cn_stream c))) (connect_auto E H X S d)"
proof -
  let ?i = "choose_intercept X (cd_proxy d) (cf_proxies (cs_config S)) (cd_uri d)"
  let ?Q = "\<lambda>c. cn_proxy c = plain_proxy ?i (cd_uri d) \<and>
    (is_https (cd_uri d) \<longrightarrow> target_secured (cd_uri d) (cn_stream c))"
  have "act_all (route_allows ?i (cd_uri d)) ?Q
      (case ?i of Some i \<Rightarrow> connect_via_proxy E H S d i | None \<Rightarrow> connect_auto_proxy E S d None)"
  proof (cases ?i)
    case None
    have "act_all (route_allows None (cd_uri d)) ?Q (connect_auto_proxy E S d None)"
      by (rule act_all_mono [OF auto_proxy_all]) (auto simp: plain_proxy_def None)
    with None show ?thesis by simp
  next
    case (Some i)
    show ?thesis
    proof (cases i)
      case (IUnix s)
      have "act_all (route_allows (Some (IUnix s)) (cd_uri d)) ?Q (connect_via_unix E H S d s)"
        by (rule act_all_mono [OF unix_route_all]) (auto simp: plain_proxy_def Some IUnix)
      with Some IUnix show ?thesis by (simp add: connect_via_proxy_def)
    next
      case (IProxy p)
      let ?A = "route_allows (Some (IProxy p)) (cd_uri d)"
      consider (socks) ver where "socks_version_of (ic_uri p) = Some ver"
        | (tunnel) "socks_version_of (ic_uri p) = None" "is_https (cd_uri d)"
        | (plain) "socks_version_of (ic_uri p) = None" "\<not> is_https (cd_uri d)"
        by blast
      then have "act_all ?A ?Q (connect_via_proxy E H S d (IProxy p))"
      proof cases
        case socks
        have "act_all ?A ?Q (connect_via_socks E S d p ver)"
          by (rule act_all_mono [OF socks_route_all [OF socks]]) (auto simp: plain_proxy_def Some IProxy socks)
        with socks show ?thesis by (simp add: connect_via_proxy_def)
      next
        case tunnel
        have "act_all ?A ?Q (connect_via_tunnel E H S d p)"
          by (rule act_all_mono [OF tunnel_route_all [OF tunnel(2)]])
            (auto simp: plain_proxy_def Some IProxy tunnel)
        with tunnel show ?thesis by (simp add: connect_via_proxy_def)
      next
        case plain
        have "act_all ?A ?Q (act_map_err EProxyConnect (connect_auto_proxy E S (d\<lparr>cd_uri := ic_uri p\<rparr>) (Some p)))"
          using plain by (intro act_all_map_err act_all_mono [OF auto_proxy_all])
            (auto simp: plain_proxy_def Some IProxy)
        with plain show ?thesis by (simp add: connect_via_proxy_def)
      qed
      with Some IProxy show ?thesis by simp
    qed
  qed
  then show ?thesis
    unfolding connect_auto_def Let_def
    by (auto split: option.splits intro: act_all_cut)
qed

text \<open>
  C8. When a proxy applies to a request, the target itself is never dialled: every TCP
  connection goes to the proxy's URI, a Unix proxy leaves only its socket, and names are
  resolved for the target by nobody but a SOCKS proxy of the locally resolving kind. Without a
  proxy only the target is dialled. A CONNECT request is sent for \<open>https\<close> targets only.
\<close>

theorem proxy_not_bypassed:
  assumes "connect_auto E H X S d w = (events, w', r)"
    and "choose_intercept X (cd_proxy d) (cf_proxies (cs_config S)) (cd_uri d) = i"
  shows "(EvDial o' v \<in> set events \<longrightarrow>
      i = None \<and> v = cd_uri d \<or> (\<exists>p. i = Some (IProxy p) \<and> v = ic_uri p)) \<and>
    (EvUnix s \<in> set events \<longrightarrow> i = Some (IUnix s)) \<and>
    (EvResolve n \<in> set events \<longrightarrow>
      (\<exists>p. i = Some (IProxy p) \<and> map_option snd (socks_version_of (ic_uri p)) = Some LocalDns)) \<and>
    (EvConnectRequest q \<in> set events \<longrightarrow> i \<noteq> None \<and> is_https (cd_uri d))"
proof -
  have ok: "\<And>e. e \<in> set events \<Longrightarrow> route_allows i (cd_uri d) e"
    using act_allD [OF connect_auto_all assms(1)] assms(2) by (auto simp: list_all_iff)
  consider "i = None" | p where "i = Some (IProxy p)" | t where "i = Some (IUnix t)"
    by (metis intercepted.exhaust option.exhaust)
  then show ?thesis
    using ok [of "EvDial o' v"] ok [of "EvUnix s"] ok [of "EvResolve n"] ok [of "EvConnectRequest q"]
    by cases auto
qed

text \<open>
  C5. A connection for an \<open>https\<close> URI is a TLS stream whose handshake was for the URI's own
  host, whatever the route: direct, through a tunnel, a SOCKS proxy or a Unix socket. And the
  request is written in the form for a proxy exactly when an HTTP proxy carries a request
  for a target that is not \<open>https\<close>.
\<close>

theorem https_is_secured:
  assumes "connect_auto E H X S d w = (events, w', Inr c)"
  shows "(is_https (cd_uri d) \<longrightarrow>
      (\<exists>ssl inner h. cn_stream c = Secure ssl inner \<and> host (cd_uri d) = Some h \<and>
        last ssl = IntoSsl (normalize_host h))) \<and>
    cn_proxy c = plain_proxy (choose_intercept X (cd_proxy d) (cf_proxies (cs_config S)) (cd_uri d)) (cd_uri d)"
  using act_allD [OF connect_auto_all assms] by (auto simp: target_secured_def ssl_for_def)

section \<open>What the routes leave out\<close>

text \<open>A SOCKS proxy is dialled with the client's TCP options, whatever the request binds to.\<close>

lemma socks_dial_ignores_binding:
  "connect_via_socks E S d p ver w = (events, w', r) \<Longrightarrow> EvDial o' v \<in> set events \<Longrightarrow> o' = cs_http S"
proof -
  let ?P = "\<lambda>e. case e of EvDial o' v \<Rightarrow> o' = cs_http S | _ \<Rightarrow> True"
  have "act_all ?P (\<lambda>_. True) (connect_via_socks E S d p ver)"
    unfolding connect_via_socks_def Let_def
    by (rule act_all_bind [OF socks_all])
      (auto intro!: act_all_bind [OF act_all_lift [where Q = "\<lambda>_. True"]]
        act_all_bind [OF established_all [where Q = "\<lambda>_. True"]]
        act_all_bind [OF reset_all [where Q = "\<lambda>_. True"]] act_all_return)
  then show "connect_via_socks E S d p ver w = (events, w', r) \<Longrightarrow> EvDial o' v \<in> set events \<Longrightarrow> o' = cs_http S"
    by (fastforce simp: act_all_def list_all_iff)
qed

text \<open>Over a Unix socket the TLS options of the request are not used.\<close>

lemma unix_ignores_tls_options:
  "connect_via_unix E H S (d\<lparr>cd_tls_options := opts\<rparr>) s = connect_via_unix E H S d s"
  by (simp add: connect_via_unix_def Let_def)

text \<open>Disabling ALPN leaves the list of a request that asks for a version.\<close>

lemma no_alpn_forced_version:
  "cfg_alpn (Some v) (tc_settings (no_alpn tc)) = cfg_alpn (Some v) (tc_settings tc)"
  "cfg_alpn None (tc_settings (no_alpn tc)) = None"
  by (simp_all add: cfg_alpn_def no_alpn_def)

text \<open>The connect timeout is in one place, inside the service or around the layers.\<close>

lemma connector_build_timeout:
  "connector_build E B opts layers = Inr (Simple s) \<Longrightarrow>
     \<not> layers \<and> cf_timeout (cs_config s) = cf_timeout (cb_config B)"
  "connector_build E B opts layers = Inr (WithLayers s t) \<Longrightarrow>
     layers \<and> cf_timeout (cs_config s) = None \<and> t = cf_timeout (cb_config B)"
  by (auto simp: connector_build_def and_then_Inr_iff Let_def split: if_splits)

section \<open>A concrete connection\<close>

type_synonym sample_headers = "(string \<times> hvalue list) list"
type_synonym sample_key = "(sample_headers, int) conn_key"

definition sample_env :: "(nat, nat, nat, nat, nat, sample_key, nat option \<times> tls_session list) conn_env" where
  "sample_env =
     \<lparr>en_dial = \<lambda>_ _. Inr 1, en_unix = \<lambda>_. Inr 2, en_resolve = \<lambda>_. Inr [], en_shake = \<lambda>_ io. Inr io,
      en_write = \<lambda>_ _. None, en_reads = \<lambda>_. [Inr ''20'', Inr (''0'' @ crlf)], en_parse = toy_parse,
      en_ssl = \<lambda>_ _. None, en_cfg = \<lambda>_ _. None, en_handshake = \<lambda>_ _. None, en_nodelay = \<lambda>_. None,
      en_lru = list_sessions, en_random = 0, en_webpki = False, en_elapsed = None\<rparr>"

definition sample_proxy_uri :: uri where
  "sample_proxy_uri =
     \<lparr>scheme = Some HTTP, authority = Some ''p:8080'', host = Some ''p'', port = Some 8080, path = ''/'',
      query = None\<rparr>"

definition sample_intercept :: "sample_headers intercept" where
  "sample_intercept = \<lparr>ic_uri = sample_proxy_uri, ic_auth = AuthEmpty, ic_extra = extra_default\<rparr>"

definition sample_matcher :: "(sample_headers, int) matcher" where
  "sample_matcher =
     \<lparr>mt_http = Some sample_intercept, mt_https = Some sample_intercept, mt_no = no_proxy_empty,
      mt_unix = None\<rparr>"

definition sample_service :: "(nat, nat, nat, nat, nat, sample_headers, int) connector_service" where
  "sample_service =
     \<lparr>cs_config = \<lparr>cf_proxies = [sample_matcher], cf_verbose = False, cf_nodelay = True, cf_tls_info = False,
        cf_timeout = Some 1000\<rparr>,
      cs_tls = sample_connector\<lparr>tc_cache := None\<rparr>, cs_http = hc_enforce_http False http_connector_new,
      cs_builder = sample_tls_builder\<rparr>"

definition sample_desc :: "(sample_headers, int) conn_desc" where
  "sample_desc = connection_descriptor_new sample_https_uri [] None None None None"

definition sample_tunnel_ssl :: "sample_key cfg_call list" where
  "sample_tunnel_ssl = map fst (setup_calls 0 None (tc_settings sample_connector)) @ [IntoSsl ''a.test'']"

definition sample_events :: "sample_key net_event list" where
  "sample_events =
     [EvDial (hc_enforce_http False http_connector_new) sample_proxy_uri,
      EvConnectRequest (tunnel_request list_headers ''a.test'' 443 HeadersEmpty), EvTls sample_tunnel_ssl]"

definition sample_conn :: "(nat, sample_key, sample_headers) conn" where
  "sample_conn =
     \<lparr>cn_stream = Secure sample_tunnel_ssl (Plain 1), cn_tls_info = False, cn_proxy = None\<rparr>"

lemma no_exclusions: "\<not> no_proxy_contains X no_proxy_empty h"
  by (simp add: no_proxy_contains_def no_proxy_empty_def Let_def split: option.split)

lemma sample_choice:
  "choose_intercept sample_px (cd_proxy sample_desc) (cf_proxies (cs_config sample_service)) (cd_uri sample_desc) =
     Some (IProxy sample_intercept)"
  by (simp add: choose_intercept_def sample_desc_def connection_descriptor_new_def sample_service_def
      mt_intercept_def sample_matcher_def sample_https_uri_def is_http_def is_https_def
      no_exclusions)

lemma normalize_plain: "normalize_host ''a.test'' = ''a.test''"
  by code_simp

lemma sample_tunnel_run:
  "connect_auto sample_env list_headers sample_px sample_service sample_desc w =
     (sample_events, w, Inr sample_conn)"
proof -
  have u: "cd_uri sample_desc = sample_https_uri" "cd_version sample_desc = None"
    "cd_tls_options sample_desc = None" "cd_socket_bind sample_desc = None"
    by (simp_all add: sample_desc_def connection_descriptor_new_def)
  have t: "is_https sample_https_uri" "\<not> is_http sample_https_uri" "host sample_https_uri = Some ''a.test''"
    "port_or_default sample_https_uri = 443"
    by (simp_all add: sample_https_uri_def is_https_def is_http_def port_or_default_def)
  have nosocks: "socks_version_of sample_proxy_uri = None" "scheme sample_proxy_uri = Some HTTP"
    "ic_uri sample_intercept = sample_proxy_uri"
    by (simp_all add: socks_version_of_def sample_intercept_def sample_proxy_uri_def)
  have headers: "tunnel_headers_of list_headers sample_intercept = Some HeadersEmpty"
    by (simp add: tunnel_headers_of_def ic_basic_auth_def ic_custom_headers_def sample_intercept_def
        extra_default_def)
  have tunnel: "tunnel list_headers toy_parse (\<lambda>_. None) ([Inr ''20'', Inr (''0'' @ crlf)] @ [Inr []]) h p hs =
      Some TunnelOpen" for h p hs
    by (simp add: tunnel_def toy_parse_def crlf_def)
  have ssl2: "setup_ssl2 (\<lambda>_ _. None) L 0 (sample_connector\<lparr>tc_cache := None\<rparr>) sample_https_uri None key w =
      (w, Inr sample_tunnel_ssl)" for L key w
    by (simp add: setup_ssl2_def run_calls_ok t normalize_plain sample_tunnel_ssl_def
        sample_connector_def)
  have route: "connect_via_tunnel sample_env list_headers sample_service sample_desc sample_intercept w =
      (sample_events, w, Inr sample_conn)"
    unfolding connect_via_tunnel_def act_bind_def act_lift_def build_https_connector_def connector_http_def
      tunnel_call_def https_call_uri_def https_call_established_def dial_act_def handshake_act_def
      act_emit_def act_return_def act_state_def act_map_err_def map_err_def reset_nodelay_def
      perform_handshake_def u headers nosocks
    using tunnel
    by (simp add: t u ssl2 nosocks sample_env_def sample_events_def sample_conn_def tunnel_conn_from_stream_def
        sample_service_def)
  have "connect_auto sample_env list_headers sample_px sample_service sample_desc w =
      connect_via_proxy sample_env list_headers sample_service sample_desc (IProxy sample_intercept) w"
    unfolding connect_auto_def sample_choice Let_def
    by (simp add: sample_env_def sample_service_def)
  then show ?thesis
    by (simp add: connect_via_proxy_def nosocks u t route)
qed

theorem proxy_not_bypassed_witness:
  "EvDial (hc_enforce_http False http_connector_new) sample_proxy_uri \<in> set sample_events \<and>
   EvDial (hc_enforce_http False http_connector_new) sample_https_uri \<notin> set sample_events"
proof -
  have "EvDial o' v \<in> set sample_events \<Longrightarrow> v = sample_proxy_uri" for o' v
    using proxy_not_bypassed [OF sample_tunnel_run sample_choice, of o' v "''''" "''''" "''''"]
    by (simp add: sample_intercept_def)
  moreover have "sample_https_uri \<noteq> sample_proxy_uri"
    by (simp add: sample_https_uri_def sample_proxy_uri_def)
  ultimately show ?thesis
    by (auto simp: sample_events_def)
qed

theorem https_is_secured_witness:
  "cn_stream sample_conn = Secure sample_tunnel_ssl (Plain 1) \<and> last sample_tunnel_ssl = IntoSsl ''a.test'' \<and>
   cn_proxy sample_conn = None"
proof -
  have "is_https (cd_uri sample_desc)" "host (cd_uri sample_desc) = Some ''a.test''"
    by (simp_all add: sample_desc_def connection_descriptor_new_def sample_https_uri_def is_https_def)
  then show ?thesis
    using https_is_secured [OF sample_tunnel_run]
    by (auto simp: sample_conn_def normalize_plain plain_proxy_def)
qed

end
