(* ===== verification/Conn_Info.thy ===== *)
theory Conn_Info
  imports Connector
begin

text \<open>
  What a finished connection tells the HTTP client (\<open>connected\<close> of \<open>src/src/conn.rs\<close> and
  \<open>src/src/tls/conn.rs\<close>), and what the client then writes on it: the link between the route
  the connector chose and the head of the request.
\<close>

text \<open>
  A TLS stream reports HTTP/2 when its own handshake selected \<open>h2\<close>; what an inner TLS stream,
  to the proxy, selected is passed over. \<open>alpn\<close> is the selected protocol of a stream.
\<close>

definition stream_connected ::
    "(('io, 'key) stream \<Rightarrow> string option) \<Rightarrow> nat \<Rightarrow> ('io, 'key) stream \<Rightarrow> 'h connected_info" where
  "stream_connected alpn pill s =
     (case s of
        Plain _ \<Rightarrow> connected_new pill
      | Secure _ _ \<Rightarrow>
          if alpn s = Some (alpn_name ALPN_HTTP2) then connected_negotiated_h2 (connected_new pill)
          else connected_new pill)"

definition conn_connected ::
    "(('io, 'key) stream \<Rightarrow> string option) \<Rightarrow> nat \<Rightarrow> ('io, 'key, 'h) conn \<Rightarrow> 'h connected_info" where
  "conn_connected alpn pill c =
     (let ci = stream_connected alpn pill (cn_stream c)
      in case cn_proxy c of
           Some p \<Rightarrow> connected_proxy ci (ic_basic_auth p) (ic_custom_headers p)
         | None \<Rightarrow> ci)"

section \<open>Lemmas\<close>

lemma stream_connected_fields [simp]:
  "ci_is_proxied (stream_connected alpn pill s) = False"
  "ci_proxy_auth (stream_connected alpn pill s) = None"
  "ci_proxy_headers (stream_connected alpn pill s) = None"
  "ci_pill (stream_connected alpn pill s) = pill"
  by (simp_all add: stream_connected_def connected_new_def connected_negotiated_h2_def split: stream.split)

lemma conn_connected_fields [simp]:
  "ci_is_proxied (conn_connected alpn pill c) \<longleftrightarrow> cn_proxy c \<noteq> None"
  "ci_proxy_auth (conn_connected alpn pill c) = Option.bind (cn_proxy c) ic_basic_auth"
  "ci_proxy_headers (conn_connected alpn pill c) = Option.bind (cn_proxy c) ic_custom_headers"
  "ci_pill (conn_connected alpn pill c) = pill"
  by (auto simp: conn_connected_def connected_proxy_def Let_def split: option.split)

lemma conn_connected_h2:
  "ci_h2 (conn_connected alpn pill c) \<longleftrightarrow>
     (\<exists>ssl s. cn_stream c = Secure ssl s \<and> alpn (cn_stream c) = Some ''h2'')"
  by (auto simp: conn_connected_def stream_connected_def connected_proxy_def connected_new_def
      connected_negotiated_h2_def ALPN_HTTP2_def Let_def split: option.split stream.split)

lemma prepare_http1_proxy_auth:
  assumes "header_laws H" and "prepare_http1 L H show_port cfg ci req = Some req1"
    and "ci_is_proxied ci \<Longrightarrow> ci_proxy_headers ci = None"
  shows "h_get_all H (rq_headers req1) ''proxy-authorization'' =
    (if h_get_all H (rq_headers req) ''proxy-authorization'' = [] \<and> ci_is_proxied ci \<and>
        \<not> is_http_connect req
     then (case ci_proxy_auth ci of Some a \<Rightarrow> [a] | None \<Rightarrow> [])
     else h_get_all H (rq_headers req) ''proxy-authorization'')"
  using assms(2,3)
  by (auto simp: prepare_http1_def Let_def is_http_connect_def h_get_all_or_insert [OF assms(1)]
      split: if_splits option.splits)

lemma prepare_request_proxy_auth:
  assumes "header_laws H" and "pc_is_http1 pc"
    and "prepare_request L H show_port cfg jar pc req = Some (Inr req')"
    and "ci_is_proxied (pc_conn_info pc) \<Longrightarrow> ci_proxy_headers (pc_conn_info pc) = None"
  shows "h_get_all H (rq_headers req') ''proxy-authorization'' =
    (if h_get_all H (rq_headers req) ''proxy-authorization'' = [] \<and> ci_is_proxied (pc_conn_info pc) \<and>
        \<not> is_http_connect req
     then (case ci_proxy_auth (pc_conn_info pc) of Some a \<Rightarrow> [a] | None \<Rightarrow> [])
     else h_get_all H (rq_headers req) ''proxy-authorization'')"
proof -
  have "\<not> pc_is_http2 pc" using assms(2) by (simp add: pc_is_http1_def)
  with assms(2,3) obtain req1 where p1: "prepare_http1 L H show_port cfg (pc_conn_info pc) req = Some req1"
    and req': "req' = (case jar of None \<Rightarrow> req1 | Some f \<Rightarrow> add_cookies H (f (rq_uri req) HTTP_11) req1)"
    by (auto simp: prepare_request_def Let_def split: if_splits option.splits)
  have "h_get_all H (rq_headers req') ''proxy-authorization'' =
      h_get_all H (rq_headers req1) ''proxy-authorization''"
    unfolding req' by (auto simp: add_cookies_get_all [OF assms(1)] split: option.split)
  with prepare_http1_proxy_auth [OF assms(1) p1 assms(4)] show ?thesis by simp
qed

text \<open>
  C12. The proxy's credentials are written into a request only on a plain connection to that
  proxy: for an \<open>https\<close> target, without a proxy, through SOCKS or a Unix socket the request has
  no Proxy-Authorization but the caller's own. And through a plain proxy without custom headers it has the
  proxy's credentials exactly when the caller gave none of its own and the request is not a CONNECT.
\<close>

theorem proxy_credentials_route:
  fixes c :: "('io, ('h, 'n) conn_key, 'h) conn"
  assumes "header_laws H" and "connect_auto E H X S d w = (events, w', Inr c)"
    and "pc_conn_info pc = conn_connected alpn pill c" and "pc_is_http1 pc"
    and "prepare_request L H show_port cfg jar pc req = Some (Inr req')"
    and "plain_proxy (choose_intercept X (cd_proxy d) (cf_proxies (cs_config S)) (cd_uri d)) (cd_uri d) = pp"
  shows "(is_https (cd_uri d) \<longrightarrow> pp = None) \<and>
    (pp = None \<longrightarrow> h_get_all H (rq_headers req') ''proxy-authorization'' =
        h_get_all H (rq_headers req) ''proxy-authorization'') \<and>
    (pp = Some p \<and> ic_custom_headers p = None \<longrightarrow>
       h_get_all H (rq_headers req') ''proxy-authorization'' =
         (if h_get_all H (rq_headers req) ''proxy-authorization'' = [] \<and> \<not> is_http_connect req
          then (case ic_basic_auth p of Some a \<Rightarrow> [a] | None \<Rightarrow> [])
          else h_get_all H (rq_headers req) ''proxy-authorization''))"
proof -
  have pp: "cn_proxy c = pp"
    using act_allD [OF connect_auto_all assms(2)] assms(6) by auto
  have "is_https (cd_uri d) \<longrightarrow> pp = None"
    using assms(6) by (auto simp: plain_proxy_def split: option.splits intercepted.splits if_splits)
  moreover have "h_get_all H (rq_headers req') ''proxy-authorization'' =
      h_get_all H (rq_headers req) ''proxy-authorization''" if "pp = None"
    using that prepare_request_proxy_auth [OF assms(1,4,5)] by (simp add: assms(3) pp)
  moreover have "h_get_all H (rq_headers req') ''proxy-authorization'' =
         (if h_get_all H (rq_headers req) ''proxy-authorization'' = [] \<and> \<not> is_http_connect req
          then (case ic_basic_auth p of Some a \<Rightarrow> [a] | None \<Rightarrow> [])
          else h_get_all H (rq_headers req) ''proxy-authorization'')"
    if "pp = Some p" and "ic_custom_headers p = None"
    using that prepare_request_proxy_auth [OF assms(1,4,5)] by (simp add: assms(3) pp)
  ultimately show ?thesis by blast
qed

text \<open>A tunnelled connection and a request on it.\<close>

definition tunnelled_client :: "sample_headers pool_client" where
  "tunnelled_client =
     \<lparr>pc_conn_info = conn_connected (\<lambda>_. Some ''http/1.1'') 0 sample_conn, pc_tx = TxHttp1 0\<rparr>"

abbreviation tunnelled_prepare :: "((sample_headers, string) client_error + sample_headers request) option" where
  "tunnelled_prepare \<equiv> prepare_request parts_uris list_headers (\<lambda>p. ''443'')
     \<lparr>cf_retry_canceled = True, cf_set_host = True, cf_ver = Auto\<rparr> None tunnelled_client sample_get"

theorem proxy_credentials_route_witness:
  "\<exists>req'. tunnelled_prepare =
       Some (Inr req') \<and> h_get_all list_headers (rq_headers req') ''proxy-authorization'' = []"
proof -
  have pc: "pc_conn_info tunnelled_client = conn_connected (\<lambda>_. Some ''http/1.1'') 0 sample_conn"
    "pc_is_http1 tunnelled_client"
    by (simp_all add: tunnelled_client_def pc_is_http1_def pc_is_http2_def)
  obtain req' where p: "tunnelled_prepare =
       Some (Inr req')"
    using pc
    by (simp add: prepare_request_def prepare_http1_def sample_get_def is_http_connect_def Let_def
      generate_host_header_def origin_form_def parts_uris_def h_contains_def list_headers_get_all sample_conn_def)
  have "is_https (cd_uri sample_desc)"
    by (simp add: sample_desc_def connection_descriptor_new_def sample_https_uri_def is_https_def)
  with proxy_credentials_route [OF list_headers_laws sample_tunnel_run pc p refl]
  have "h_get_all list_headers (rq_headers req') ''proxy-authorization'' =
      h_get_all list_headers (rq_headers sample_get) ''proxy-authorization''"
    by blast
  then have "h_get_all list_headers (rq_headers req') ''proxy-authorization'' = []"
    by (simp add: sample_get_def list_headers_get_all)
  with p show ?thesis by blast
qed

end
