(* ===== verification/Decoder.thy ===== *)
theory Decoder
  imports Request_Config
begin

text \<open>
  Which content encodings a response is decoded from (\<open>src/src/client/layer/decoder.rs\<close>). The
  decoder itself is tower-http's; the model is the set of encodings it is told to accept,
  which it also announces in \<open>Accept-Encoding\<close>.
\<close>

record accept_encoding =
  ae_gzip :: bool
  ae_brotli :: bool
  ae_zstd :: bool
  ae_deflate :: bool

definition accept_encoding_default :: accept_encoding where
  "accept_encoding_default = \<lparr>ae_gzip = True, ae_brotli = True, ae_zstd = True, ae_deflate = True\<rparr>"

text \<open>The decoder's own switches, set one by one from the configuration.\<close>

record decoder =
  dc_gzip :: bool
  dc_deflate :: bool
  dc_br :: bool
  dc_zstd :: bool

definition accept_in_place :: "decoder \<Rightarrow> accept_encoding \<Rightarrow> decoder" where
  "accept_in_place d a =
     d\<lparr>dc_gzip := ae_gzip a, dc_deflate := ae_deflate a, dc_br := ae_brotli a, dc_zstd := ae_zstd a\<rparr>"

definition decompression_layer :: "accept_encoding \<Rightarrow> decoder option" where
  "decompression_layer accept =
     Some (accept_in_place \<lparr>dc_gzip = False, dc_deflate = False, dc_br = False, dc_zstd = False\<rparr> accept)"

text \<open>
  \<open>call\<close> on a service, with the request's own configuration: the service afterwards; the inner \<^term>\<open>None\<close> is
  the panic of an uninitialised service.
\<close>

definition decompression_call :: "decoder option \<Rightarrow> accept_encoding slot \<Rightarrow> decoder option" where
  "decompression_call self ext =
     (case rc_get ext of
        Some accept \<Rightarrow>
          (case self of Some decoder \<Rightarrow> Some (accept_in_place decoder accept) | None \<Rightarrow> None)
      | None \<Rightarrow> self)"

text \<open>The request's setters write into an entry that starts from the default.\<close>

definition set_encoding :: "(accept_encoding \<Rightarrow> accept_encoding) \<Rightarrow> accept_encoding slot \<Rightarrow> accept_encoding slot" where
  "set_encoding f ext =
     rc_set ext (Some (f (case rc_get ext of Some a \<Rightarrow> a | None \<Rightarrow> accept_encoding_default)))"

section \<open>Lemmas\<close>

lemma decompression_call_layer:
  "decompression_call (decompression_layer client) ext =
     decompression_layer (case rc_get ext of Some a \<Rightarrow> a | None \<Rightarrow> client)"
  by (simp add: decompression_call_def decompression_layer_def accept_in_place_def split: option.split)

text \<open>
  A request that turns one encoding off turns the others on, whatever the client was told: the
  entry it creates starts from the defaults and not from the client's configuration.
\<close>

lemma disabling_one_encoding_enables_others:
  assumes "client = \<lparr>ae_gzip = False, ae_brotli = False, ae_zstd = False, ae_deflate = False\<rparr>"
  shows "decompression_call (decompression_layer client) None =
      Some \<lparr>dc_gzip = False, dc_deflate = False, dc_br = False, dc_zstd = False\<rparr>"
    and "decompression_call (decompression_layer client) (set_encoding (ae_gzip_update (\<lambda>_. False)) None) =
      Some \<lparr>dc_gzip = False, dc_deflate = True, dc_br = True, dc_zstd = True\<rparr>"
  unfolding decompression_call_layer
  by (simp_all add: assms rc_get_def set_encoding_def accept_encoding_default_def
      decompression_layer_def accept_in_place_def)

end
