(* ===== verification/Client_Builder.thy ===== *)
theory Client_Builder
  imports Conn_Info Redirect_Policy Retry Timeouts Config_Layer Decoder
begin

text \<open>
  The client's builder (\<open>src/src/client.rs\<close>) and emulation profiles
  (\<open>src/src/client/emulate.rs\<close>): every setting with its default and its setter, and \<open>build\<close>,
  which hands them to the connector, the HTTP client and the layers. Shared objects that are
  only passed on (stores, resolvers, layers, timers, key logs) are named by numbers.
\<close>

typedecl http1_options

text \<open>The settings of the HTTP/2 crate that the program writes itself.\<close>

datatype pseudo_id = PseudoMethod | PseudoScheme | PseudoAuthority | PseudoPath

record http2_options =
  h2_initial_window_size :: u32
  h2_initial_conn_window_size :: u32
  h2_max_frame_size :: "u32 option"
  h2_max_header_list_size :: "u32 option"
  h2_header_table_size :: "u32 option"
  h2_enable_push :: "bool option"
  h2_headers_pseudo_order :: "pseudo_id list option"

datatype http_version_pref = PrefHttp1 | PrefHttp2 | PrefAll

record ('c, 'k, 'b, 'h, 'm, 'n, 'bd) client_settings =
  st_error :: "std_error option"
  st_headers :: "'h"
  st_orig_headers :: "'m"
  st_accept_encoding :: "accept_encoding"
  st_connect_timeout :: "u64 option"
  st_connection_verbose :: "bool"
  st_pool_idle_timeout :: "nat option"
  st_pool_max_idle_per_host :: "nat"
  st_pool_max_size :: "nat option"
  st_tcp_nodelay :: "bool"
  st_tcp_reuse_address :: "bool"
  st_tcp_linger :: "u64 option"
  st_tcp_keepalive :: "u64 option"
  st_tcp_keepalive_interval :: "u64 option"
  st_tcp_keepalive_retries :: "u32 option"
  st_tcp_user_timeout :: "u64 option"
  st_tcp_send_buffer_size :: "u64 option"
  st_tcp_recv_buffer_size :: "u64 option"
  st_tcp_happy_eyeballs_timeout :: "u64 option"
  st_socket_bind_options :: "bind_options"
  st_proxies :: "('h, 'n) matcher list"
  st_auto_sys_proxy :: "bool"
  st_retry_policy :: "('h, 'bd) retry_config"
  st_redirect_policy :: "'h policy_kind"
  st_referer :: "bool"
  st_timeout_options :: "timeout_options"
  st_cookie_store :: "nat option"
  st_hickory_dns :: "bool"
  st_dns_overrides :: "(string, socket_addr list) hmap"
  st_dns_resolver :: "nat option"
  st_http_version_pref :: "http_version_pref"
  st_https_only :: "bool"
  st_layers :: "nat list"
  st_connector_layers :: "nat list"
  st_tls_sni :: "bool"
  st_tls_info :: "bool"
  st_tls_keylog :: "nat option"
  st_tls_identity :: "('k, 'c) identity option"
  st_tls_cert_store :: "'b option"
  st_tls_cert_verification :: "bool"
  st_tls_verify_hostname :: "bool"
  st_tls_min_version :: "tls_version option"
  st_tls_max_version :: "tls_version option"
  st_tls_session_cache :: "nat option"
  st_tls_options :: "tls_options option"
  st_http1_options :: "http1_options option"
  st_http2_options :: "http2_options option"
  st_timer :: "nat"
  st_executor :: "nat"

text \<open>\<open>Client::builder\<close>; \<open>hickory\<close> is the feature of the alternative resolver. Durations are in milliseconds.\<close>

definition client_settings_new ::
    "'h header_ops \<Rightarrow> 'm case_ops \<Rightarrow> nat \<Rightarrow> bool \<Rightarrow> nat \<Rightarrow> nat \<Rightarrow> ('c, 'k, 'b, 'h, 'm, 'n, 'bd) client_settings" where
  "client_settings_new H C usize_max hickory default_timer default_executor =
     \<lparr>st_error = None,
      st_headers = h_new H,
      st_orig_headers = co_new C,
      st_accept_encoding = accept_encoding_default,
      st_connect_timeout = None,
      st_connection_verbose = False,
      st_pool_idle_timeout = Some 90000,
      st_pool_max_idle_per_host = usize_max,
      st_pool_max_size = None,
      st_tcp_nodelay = True,
      st_tcp_reuse_address = False,
      st_tcp_linger = None,
      st_tcp_keepalive = Some 15000,
      st_tcp_keepalive_interval = Some 15000,
      st_tcp_keepalive_retries = Some 3,
      st_tcp_user_timeout = Some 30000,
      st_tcp_send_buffer_size = None,
      st_tcp_recv_buffer_size = None,
      st_tcp_happy_eyeballs_timeout = Some 300,
      st_socket_bind_options = \<lparr>bo_interface = None, bo_ipv4 = None, bo_ipv6 = None\<rparr>,
      st_proxies = [],
      st_auto_sys_proxy = True,
      st_retry_policy = retry_default,
      st_redirect_policy = PolicyNone,
      st_referer = True,
      st_timeout_options = timeout_default,
      st_cookie_store = None,
      st_hickory_dns = hickory,
      st_dns_overrides = [],
      st_dns_resolver = None,
      st_http_version_pref = PrefAll,
      st_https_only = False,
      st_layers = [],
      st_connector_layers = [],
      st_tls_sni = True,
      st_tls_info = False,
      st_tls_keylog = None,
      st_tls_identity = None,
      st_tls_cert_store = None,
      st_tls_cert_verification = True,
      st_tls_verify_hostname = True,
      st_tls_min_version = None,
      st_tls_max_version = None,
      st_tls_session_cache = None,
      st_tls_options = None,
      st_http1_options = None,
      st_http2_options = None,
      st_timer = default_timer,
      st_executor = default_executor\<rparr>"

section \<open>Setters\<close>

definition client_timer :: "nat \<Rightarrow> ('c, 'k, 'b, 'h, 'm, 'n, 'bd) client_settings \<Rightarrow> ('c, 'k, 'b, 'h, 'm, 'n, 'bd) client_settings" where
  "client_timer x S = S\<lparr>st_timer := x\<rparr>"

definition client_executor :: "nat \<Rightarrow> ('c, 'k, 'b, 'h, 'm, 'n, 'bd) client_settings \<Rightarrow> ('c, 'k, 'b, 'h, 'm, 'n, 'bd) client_settings" where
  "client_executor x S = S\<lparr>st_executor := x\<rparr>"

definition client_user_agent :: "'h header_ops \<Rightarrow> std_error + hvalue \<Rightarrow> ('c, 'k, 'b, 'h, 'm, 'n, 'bd) client_settings \<Rightarrow> ('c, 'k, 'b, 'h, 'm, 'n, 'bd) client_settings" where
  "client_user_agent H value S =
     (case value of
        Inr v \<Rightarrow> S\<lparr>st_headers := h_insert H (st_headers S) ''user-agent'' v\<rparr>
      | Inl err \<Rightarrow> S\<lparr>st_error := Some (err_builder err)\<rparr>)"

text \<open>\<^term>\<open>None\<close> is the unreachable panic of \<open>replace_headers\<close>.\<close>

definition client_default_headers :: "'h header_ops \<Rightarrow> 'h \<Rightarrow> ('c, 'k, 'b, 'h, 'm, 'n, 'bd) client_settings \<Rightarrow> ('c, 'k, 'b, 'h, 'm, 'n, 'bd) client_settings option" where
  "client_default_headers H headers S =
     map_option (\<lambda>m. S\<lparr>st_headers := m\<rparr>) (replace_headers H (st_headers S) headers)"

definition client_orig_headers :: "'m case_ops \<Rightarrow> 'm \<Rightarrow> ('c, 'k, 'b, 'h, 'm, 'n, 'bd) client_settings \<Rightarrow> ('c, 'k, 'b, 'h, 'm, 'n, 'bd) client_settings" where
  "client_orig_headers C m S = S\<lparr>st_orig_headers := co_extend C (st_orig_headers S) m\<rparr>"

definition client_cookie_provider :: "nat \<Rightarrow> ('c, 'k, 'b, 'h, 'm, 'n, 'bd) client_settings \<Rightarrow> ('c, 'k, 'b, 'h, 'm, 'n, 'bd) client_settings" where
  "client_cookie_provider x S = S\<lparr>st_cookie_store := Some x\<rparr>"

text \<open>\<open>fresh\<close> is the new, empty jar.\<close>

definition client_cookie_store :: "nat \<Rightarrow> bool \<Rightarrow> ('c, 'k, 'b, 'h, 'm, 'n, 'bd) client_settings \<Rightarrow> ('c, 'k, 'b, 'h, 'm, 'n, 'bd) client_settings" where
  "client_cookie_store fresh enable S =
     (if enable then client_cookie_provider fresh S else S\<lparr>st_cookie_store := None\<rparr>)"

definition client_gzip :: "bool \<Rightarrow> ('c, 'k, 'b, 'h, 'm, 'n, 'bd) client_settings \<Rightarrow> ('c, 'k, 'b, 'h, 'm, 'n, 'bd) client_settings" where
  "client_gzip b S = S\<lparr>st_accept_encoding := (st_accept_encoding S)\<lparr>ae_gzip := b\<rparr>\<rparr>"

definition client_brotli :: "bool \<Rightarrow> ('c, 'k, 'b, 'h, 'm, 'n, 'bd) client_settings \<Rightarrow> ('c, 'k, 'b, 'h, 'm, 'n, 'bd) client_settings" where
  "client_brotli b S = S\<lparr>st_accept_encoding := (st_accept_encoding S)\<lparr>ae_brotli := b\<rparr>\<rparr>"

definition client_zstd :: "bool \<Rightarrow> ('c, 'k, 'b, 'h, 'm, 'n, 'bd) client_settings \<Rightarrow> ('c, 'k, 'b, 'h, 'm, 'n, 'bd) client_settings" where
  "client_zstd b S = S\<lparr>st_accept_encoding := (st_accept_encoding S)\<lparr>ae_zstd := b\<rparr>\<rparr>"

definition client_deflate :: "bool \<Rightarrow> ('c, 'k, 'b, 'h, 'm, 'n, 'bd) client_settings \<Rightarrow> ('c, 'k, 'b, 'h, 'm, 'n, 'bd) client_settings" where
  "client_deflate b S = S\<lparr>st_accept_encoding := (st_accept_encoding S)\<lparr>ae_deflate := b\<rparr>\<rparr>"

definition client_no_zstd :: "('c, 'k, 'b, 'h, 'm, 'n, 'bd) client_settings \<Rightarrow> ('c, 'k, 'b, 'h, 'm, 'n, 'bd) client_settings" where
  "client_no_zstd S = client_zstd False S"

definition client_no_gzip :: "('c, 'k, 'b, 'h, 'm, 'n, 'bd) client_settings \<Rightarrow> ('c, 'k, 'b, 'h, 'm, 'n, 'bd) client_settings" where
  "client_no_gzip S = client_gzip False S"

definition client_no_brotli :: "('c, 'k, 'b, 'h, 'm, 'n, 'bd) client_settings \<Rightarrow> ('c, 'k, 'b, 'h, 'm, 'n, 'bd) client_settings" where
  "client_no_brotli S = client_brotli False S"

definition client_no_deflate :: "('c, 'k, 'b, 'h, 'm, 'n, 'bd) client_settings \<Rightarrow> ('c, 'k, 'b, 'h, 'm, 'n, 'bd) client_settings" where
  "client_no_deflate S = client_deflate False S"

definition client_redirect :: "'h policy_kind \<Rightarrow> ('c, 'k, 'b, 'h, 'm, 'n, 'bd) client_settings \<Rightarrow> ('c, 'k, 'b, 'h, 'm, 'n, 'bd) client_settings" where
  "client_redirect x S = S\<lparr>st_redirect_policy := x\<rparr>"

definition client_referer :: "bool \<Rightarrow> ('c, 'k, 'b, 'h, 'm, 'n, 'bd) client_settings \<Rightarrow> ('c, 'k, 'b, 'h, 'm, 'n, 'bd) client_settings" where
  "client_referer x S = S\<lparr>st_referer := x\<rparr>"

definition client_retry :: "('h, 'bd) retry_config \<Rightarrow> ('c, 'k, 'b, 'h, 'm, 'n, 'bd) client_settings \<Rightarrow> ('c, 'k, 'b, 'h, 'm, 'n, 'bd) client_settings" where
  "client_retry x S = S\<lparr>st_retry_policy := x\<rparr>"

definition client_proxy :: "'n proxy_lib \<Rightarrow> 'h proxy \<Rightarrow> ('c, 'k, 'b, 'h, 'm, 'n, 'bd) client_settings \<Rightarrow> ('c, 'k, 'b, 'h, 'm, 'n, 'bd) client_settings" where
  "client_proxy X p S = S\<lparr>st_proxies := st_proxies S @ [into_matcher X p], st_auto_sys_proxy := False\<rparr>"

definition client_no_proxy :: "('c, 'k, 'b, 'h, 'm, 'n, 'bd) client_settings \<Rightarrow> ('c, 'k, 'b, 'h, 'm, 'n, 'bd) client_settings" where
  "client_no_proxy S = S\<lparr>st_proxies := [], st_auto_sys_proxy := False\<rparr>"

definition client_timeout :: "duration \<Rightarrow> ('c, 'k, 'b, 'h, 'm, 'n, 'bd) client_settings \<Rightarrow> ('c, 'k, 'b, 'h, 'm, 'n, 'bd) client_settings" where
  "client_timeout d S = S\<lparr>st_timeout_options := set_total_timeout (st_timeout_options S) d\<rparr>"

definition client_read_timeout :: "duration \<Rightarrow> ('c, 'k, 'b, 'h, 'm, 'n, 'bd) client_settings \<Rightarrow> ('c, 'k, 'b, 'h, 'm, 'n, 'bd) client_settings" where
  "client_read_timeout d S = S\<lparr>st_timeout_options := set_read_timeout (st_timeout_options S) d\<rparr>"

definition client_connect_timeout :: "u64 \<Rightarrow> ('c, 'k, 'b, 'h, 'm, 'n, 'bd) client_settings \<Rightarrow> ('c, 'k, 'b, 'h, 'm, 'n, 'bd) client_settings" where
  "client_connect_timeout x S = S\<lparr>st_connect_timeout := Some x\<rparr>"

definition client_connection_verbose :: "bool \<Rightarrow> ('c, 'k, 'b, 'h, 'm, 'n, 'bd) client_settings \<Rightarrow> ('c, 'k, 'b, 'h, 'm, 'n, 'bd) client_settings" where
  "client_connection_verbose x S = S\<lparr>st_connection_verbose := x\<rparr>"

definition client_pool_idle_timeout :: "nat option \<Rightarrow> ('c, 'k, 'b, 'h, 'm, 'n, 'bd) client_settings \<Rightarrow> ('c, 'k, 'b, 'h, 'm, 'n, 'bd) client_settings" where
  "client_pool_idle_timeout x S = S\<lparr>st_pool_idle_timeout := x\<rparr>"

definition client_pool_max_idle_per_host :: "nat \<Rightarrow> ('c, 'k, 'b, 'h, 'm, 'n, 'bd) client_settings \<Rightarrow> ('c, 'k, 'b, 'h, 'm, 'n, 'bd) client_settings" where
  "client_pool_max_idle_per_host x S = S\<lparr>st_pool_max_idle_per_host := x\<rparr>"

definition client_pool_max_size :: "nat \<Rightarrow> ('c, 'k, 'b, 'h, 'm, 'n, 'bd) client_settings \<Rightarrow> ('c, 'k, 'b, 'h, 'm, 'n, 'bd) client_settings" where
  "client_pool_max_size n S = S\<lparr>st_pool_max_size := (if n = 0 then None else Some n)\<rparr>"

definition client_https_only :: "bool \<Rightarrow> ('c, 'k, 'b, 'h, 'm, 'n, 'bd) client_settings \<Rightarrow> ('c, 'k, 'b, 'h, 'm, 'n, 'bd) client_settings" where
  "client_https_only x S = S\<lparr>st_https_only := x\<rparr>"

definition client_http1_only :: "('c, 'k, 'b, 'h, 'm, 'n, 'bd) client_settings \<Rightarrow> ('c, 'k, 'b, 'h, 'm, 'n, 'bd) client_settings" where
  "client_http1_only S = S\<lparr>st_http_version_pref := PrefHttp1\<rparr>"

definition client_http2_only :: "('c, 'k, 'b, 'h, 'm, 'n, 'bd) client_settings \<Rightarrow> ('c, 'k, 'b, 'h, 'm, 'n, 'bd) client_settings" where
  "client_http2_only S = S\<lparr>st_http_version_pref := PrefHttp2\<rparr>"

definition client_http1_options :: "http1_options option \<Rightarrow> ('c, 'k, 'b, 'h, 'm, 'n, 'bd) client_settings \<Rightarrow> ('c, 'k, 'b, 'h, 'm, 'n, 'bd) client_settings" where
  "client_http1_options x S = S\<lparr>st_http1_options := x\<rparr>"

definition client_http2_options :: "http2_options option \<Rightarrow> ('c, 'k, 'b, 'h, 'm, 'n, 'bd) client_settings \<Rightarrow> ('c, 'k, 'b, 'h, 'm, 'n, 'bd) client_settings" where
  "client_http2_options x S = S\<lparr>st_http2_options := x\<rparr>"

definition client_tcp_nodelay :: "bool \<Rightarrow> ('c, 'k, 'b, 'h, 'm, 'n, 'bd) client_settings \<Rightarrow> ('c, 'k, 'b, 'h, 'm, 'n, 'bd) client_settings" where
  "client_tcp_nodelay x S = S\<lparr>st_tcp_nodelay := x\<rparr>"

definition client_tcp_keepalive :: "u64 option \<Rightarrow> ('c, 'k, 'b, 'h, 'm, 'n, 'bd) client_settings \<Rightarrow> ('c, 'k, 'b, 'h, 'm, 'n, 'bd) client_settings" where
  "client_tcp_keepalive x S = S\<lparr>st_tcp_keepalive := x\<rparr>"

definition client_tcp_keepalive_interval :: "u64 option \<Rightarrow> ('c, 'k, 'b, 'h, 'm, 'n, 'bd) client_settings \<Rightarrow> ('c, 'k, 'b, 'h, 'm, 'n, 'bd) client_settings" where
  "client_tcp_keepalive_interval x S = S\<lparr>st_tcp_keepalive_interval := x\<rparr>"

definition client_tcp_keepalive_retries :: "u32 option \<Rightarrow> ('c, 'k, 'b, 'h, 'm, 'n, 'bd) client_settings \<Rightarrow> ('c, 'k, 'b, 'h, 'm, 'n, 'bd) client_settings" where
  "client_tcp_keepalive_retries x S = S\<lparr>st_tcp_keepalive_retries := x\<rparr>"

definition client_tcp_user_timeout :: "u64 option \<Rightarrow> ('c, 'k, 'b, 'h, 'm, 'n, 'bd) client_settings \<Rightarrow> ('c, 'k, 'b, 'h, 'm, 'n, 'bd) client_settings" where
  "client_tcp_user_timeout x S = S\<lparr>st_tcp_user_timeout := x\<rparr>"

definition client_tcp_reuse_address :: "bool \<Rightarrow> ('c, 'k, 'b, 'h, 'm, 'n, 'bd) client_settings \<Rightarrow> ('c, 'k, 'b, 'h, 'm, 'n, 'bd) client_settings" where
  "client_tcp_reuse_address x S = S\<lparr>st_tcp_reuse_address := x\<rparr>"

definition client_tcp_linger :: "u64 option \<Rightarrow> ('c, 'k, 'b, 'h, 'm, 'n, 'bd) client_settings \<Rightarrow> ('c, 'k, 'b, 'h, 'm, 'n, 'bd) client_settings" where
  "client_tcp_linger x S = S\<lparr>st_tcp_linger := x\<rparr>"

definition client_tcp_send_buffer_size :: "u64 option \<Rightarrow> ('c, 'k, 'b, 'h, 'm, 'n, 'bd) client_settings \<Rightarrow> ('c, 'k, 'b, 'h, 'm, 'n, 'bd) client_settings" where
  "client_tcp_send_buffer_size x S = S\<lparr>st_tcp_send_buffer_size := x\<rparr>"

definition client_tcp_recv_buffer_size :: "u64 option \<Rightarrow> ('c, 'k, 'b, 'h, 'm, 'n, 'bd) client_settings \<Rightarrow> ('c, 'k, 'b, 'h, 'm, 'n, 'bd) client_settings" where
  "client_tcp_recv_buffer_size x S = S\<lparr>st_tcp_recv_buffer_size := x\<rparr>"

definition client_tcp_happy_eyeballs_timeout :: "u64 option \<Rightarrow> ('c, 'k, 'b, 'h, 'm, 'n, 'bd) client_settings \<Rightarrow> ('c, 'k, 'b, 'h, 'm, 'n, 'bd) client_settings" where
  "client_tcp_happy_eyeballs_timeout x S = S\<lparr>st_tcp_happy_eyeballs_timeout := x\<rparr>"

definition client_local_address :: "ip_addr option \<Rightarrow> ('c, 'k, 'b, 'h, 'm, 'n, 'bd) client_settings \<Rightarrow> ('c, 'k, 'b, 'h, 'm, 'n, 'bd) client_settings" where
  "client_local_address a S = S\<lparr>st_socket_bind_options := set_local_address (st_socket_bind_options S) a\<rparr>"

definition client_local_addresses :: "u32 option \<Rightarrow> 128 word option \<Rightarrow> ('c, 'k, 'b, 'h, 'm, 'n, 'bd) client_settings \<Rightarrow> ('c, 'k, 'b, 'h, 'm, 'n, 'bd) client_settings" where
  "client_local_addresses a4 a6 S =
     S\<lparr>st_socket_bind_options := set_local_addresses (st_socket_bind_options S) a4 a6\<rparr>"

definition client_interface :: "string \<Rightarrow> ('c, 'k, 'b, 'h, 'm, 'n, 'bd) client_settings \<Rightarrow> ('c, 'k, 'b, 'h, 'm, 'n, 'bd) client_settings" where
  "client_interface i S = S\<lparr>st_socket_bind_options := set_interface (st_socket_bind_options S) i\<rparr>"

definition client_tls_identity :: "('k, 'c) identity \<Rightarrow> ('c, 'k, 'b, 'h, 'm, 'n, 'bd) client_settings \<Rightarrow> ('c, 'k, 'b, 'h, 'm, 'n, 'bd) client_settings" where
  "client_tls_identity x S = S\<lparr>st_tls_identity := Some x\<rparr>"

definition client_tls_cert_store :: "'b \<Rightarrow> ('c, 'k, 'b, 'h, 'm, 'n, 'bd) client_settings \<Rightarrow> ('c, 'k, 'b, 'h, 'm, 'n, 'bd) client_settings" where
  "client_tls_cert_store x S = S\<lparr>st_tls_cert_store := Some x\<rparr>"

definition client_tls_cert_verification :: "bool \<Rightarrow> ('c, 'k, 'b, 'h, 'm, 'n, 'bd) client_settings \<Rightarrow> ('c, 'k, 'b, 'h, 'm, 'n, 'bd) client_settings" where
  "client_tls_cert_verification x S = S\<lparr>st_tls_cert_verification := x\<rparr>"

definition client_tls_verify_hostname :: "bool \<Rightarrow> ('c, 'k, 'b, 'h, 'm, 'n, 'bd) client_settings \<Rightarrow> ('c, 'k, 'b, 'h, 'm, 'n, 'bd) client_settings" where
  "client_tls_verify_hostname x S = S\<lparr>st_tls_verify_hostname := x\<rparr>"

definition client_tls_sni :: "bool \<Rightarrow> ('c, 'k, 'b, 'h, 'm, 'n, 'bd) client_settings \<Rightarrow> ('c, 'k, 'b, 'h, 'm, 'n, 'bd) client_settings" where
  "client_tls_sni x S = S\<lparr>st_tls_sni := x\<rparr>"

definition client_tls_keylog :: "nat \<Rightarrow> ('c, 'k, 'b, 'h, 'm, 'n, 'bd) client_settings \<Rightarrow> ('c, 'k, 'b, 'h, 'm, 'n, 'bd) client_settings" where
  "client_tls_keylog x S = S\<lparr>st_tls_keylog := Some x\<rparr>"

definition client_tls_min_version :: "tls_version \<Rightarrow> ('c, 'k, 'b, 'h, 'm, 'n, 'bd) client_settings \<Rightarrow> ('c, 'k, 'b, 'h, 'm, 'n, 'bd) client_settings" where
  "client_tls_min_version x S = S\<lparr>st_tls_min_version := Some x\<rparr>"

definition client_tls_max_version :: "tls_version \<Rightarrow> ('c, 'k, 'b, 'h, 'm, 'n, 'bd) client_settings \<Rightarrow> ('c, 'k, 'b, 'h, 'm, 'n, 'bd) client_settings" where
  "client_tls_max_version x S = S\<lparr>st_tls_max_version := Some x\<rparr>"

definition client_tls_info :: "bool \<Rightarrow> ('c, 'k, 'b, 'h, 'm, 'n, 'bd) client_settings \<Rightarrow> ('c, 'k, 'b, 'h, 'm, 'n, 'bd) client_settings" where
  "client_tls_info x S = S\<lparr>st_tls_info := x\<rparr>"

definition client_tls_session_cache :: "nat \<Rightarrow> ('c, 'k, 'b, 'h, 'm, 'n, 'bd) client_settings \<Rightarrow> ('c, 'k, 'b, 'h, 'm, 'n, 'bd) client_settings" where
  "client_tls_session_cache x S = S\<lparr>st_tls_session_cache := Some x\<rparr>"

definition client_tls_options :: "tls_options option \<Rightarrow> ('c, 'k, 'b, 'h, 'm, 'n, 'bd) client_settings \<Rightarrow> ('c, 'k, 'b, 'h, 'm, 'n, 'bd) client_settings" where
  "client_tls_options x S = S\<lparr>st_tls_options := x\<rparr>"

definition client_no_hickory_dns :: "('c, 'k, 'b, 'h, 'm, 'n, 'bd) client_settings \<Rightarrow> ('c, 'k, 'b, 'h, 'm, 'n, 'bd) client_settings" where
  "client_no_hickory_dns S = S\<lparr>st_hickory_dns := False\<rparr>"

definition client_resolve_to_addrs :: "string \<Rightarrow> socket_addr list \<Rightarrow> ('c, 'k, 'b, 'h, 'm, 'n, 'bd) client_settings \<Rightarrow> ('c, 'k, 'b, 'h, 'm, 'n, 'bd) client_settings" where
  "client_resolve_to_addrs domain addrs S = S\<lparr>st_dns_overrides := AList.update domain addrs (st_dns_overrides S)\<rparr>"

definition client_resolve :: "string \<Rightarrow> socket_addr \<Rightarrow> ('c, 'k, 'b, 'h, 'm, 'n, 'bd) client_settings \<Rightarrow> ('c, 'k, 'b, 'h, 'm, 'n, 'bd) client_settings" where
  "client_resolve domain addr S = client_resolve_to_addrs domain [addr] S"

definition client_dns_resolver :: "nat \<Rightarrow> ('c, 'k, 'b, 'h, 'm, 'n, 'bd) client_settings \<Rightarrow> ('c, 'k, 'b, 'h, 'm, 'n, 'bd) client_settings" where
  "client_dns_resolver x S = S\<lparr>st_dns_resolver := Some x\<rparr>"

definition client_layer :: "nat \<Rightarrow> ('c, 'k, 'b, 'h, 'm, 'n, 'bd) client_settings \<Rightarrow> ('c, 'k, 'b, 'h, 'm, 'n, 'bd) client_settings" where
  "client_layer l S = S\<lparr>st_layers := st_layers S @ [l]\<rparr>"

definition client_connector_layer :: "nat \<Rightarrow> ('c, 'k, 'b, 'h, 'm, 'n, 'bd) client_settings \<Rightarrow> ('c, 'k, 'b, 'h, 'm, 'n, 'bd) client_settings" where
  "client_connector_layer l S = S\<lparr>st_connector_layers := st_connector_layers S @ [l]\<rparr>"

section \<open>Emulation profiles\<close>

record ('h, 'm, 'p, 'bd) emulation =
  em_group :: "('p, 'bd) group"
  em_headers :: 'h
  em_orig_headers :: 'm
  em_tls_options :: "tls_options option"
  em_http1_options :: "http1_options option"
  em_http2_options :: "http2_options option"

definition emulation_builder :: "'h header_ops \<Rightarrow> 'm case_ops \<Rightarrow> ('h, 'm, 'p, 'bd) emulation" where
  "emulation_builder H C =
     \<lparr>em_group = group_default, em_headers = h_new H, em_orig_headers = co_new C, em_tls_options = None,
      em_http1_options = None, em_http2_options = None\<rparr>"

definition em_set_http1_options :: "http1_options \<Rightarrow> ('h, 'm, 'p, 'bd) emulation \<Rightarrow> ('h, 'm, 'p, 'bd) emulation" where
  "em_set_http1_options x e = e\<lparr>em_http1_options := Some x\<rparr>"

definition em_set_http2_options :: "http2_options \<Rightarrow> ('h, 'm, 'p, 'bd) emulation \<Rightarrow> ('h, 'm, 'p, 'bd) emulation" where
  "em_set_http2_options x e = e\<lparr>em_http2_options := Some x\<rparr>"

definition em_set_tls_options :: "tls_options \<Rightarrow> ('h, 'm, 'p, 'bd) emulation \<Rightarrow> ('h, 'm, 'p, 'bd) emulation" where
  "em_set_tls_options x e = e\<lparr>em_tls_options := Some x\<rparr>"

definition em_set_headers :: "'h header_ops \<Rightarrow> 'h \<Rightarrow> ('h, 'm, 'p, 'bd) emulation \<Rightarrow> ('h, 'm, 'p, 'bd) emulation option" where
  "em_set_headers H src e = map_option (\<lambda>m. e\<lparr>em_headers := m\<rparr>) (replace_headers H (em_headers e) src)"

definition em_set_orig_headers :: "'m case_ops \<Rightarrow> 'm \<Rightarrow> ('h, 'm, 'p, 'bd) emulation \<Rightarrow> ('h, 'm, 'p, 'bd) emulation" where
  "em_set_orig_headers C src e = e\<lparr>em_orig_headers := co_extend C (em_orig_headers e) src\<rparr>"

definition emulation_build :: "('p, 'bd) group \<Rightarrow> ('h, 'm, 'p, 'bd) emulation \<Rightarrow> ('h, 'm, 'p, 'bd) emulation" where
  "emulation_build g e = e\<lparr>em_group := group_emulate g (em_group e)\<rparr>"

text \<open>The client takes everything of a profile but its group.\<close>

definition client_emulation ::
    "'h header_ops \<Rightarrow> 'm case_ops \<Rightarrow> ('h, 'm, 'p, 'q) emulation \<Rightarrow> ('c, 'k, 'b, 'h, 'm, 'n, 'bd) client_settings \<Rightarrow> ('c, 'k, 'b, 'h, 'm, 'n, 'bd) client_settings option" where
  "client_emulation H C e S =
     map_option (client_orig_headers C (em_orig_headers e))
       (client_default_headers H (em_headers e)
         (client_http2_options (em_http2_options e)
           (client_http1_options (em_http1_options e) (client_tls_options (em_tls_options e) S))))"

section \<open>Building the client\<close>

datatype dns_base = UserResolver nat | HickoryResolver | GaiResolver

definition base_resolver :: "('c, 'k, 'b, 'h, 'm, 'n, 'bd) client_settings \<Rightarrow> dns_base" where
  "base_resolver S =
     (case st_dns_resolver S of
        Some r \<Rightarrow> UserResolver r
      | None \<Rightarrow> if st_hickory_dns S then HickoryResolver else GaiResolver)"

text \<open>\<open>R\<close> answers for each kind of resolver.\<close>

definition client_resolver ::
    "(dns_base \<Rightarrow> string \<Rightarrow> std_error + socket_addr list) \<Rightarrow> ('c, 'k, 'b, 'h, 'm, 'n, 'bd) client_settings \<Rightarrow> string \<Rightarrow> std_error + socket_addr list" where
  "client_resolver R S =
     dyn_resolve (if st_dns_overrides S \<noteq> [] then resolve_with_overrides (st_dns_overrides S) (R (base_resolver S))
                  else R (base_resolver S))"

definition client_tls ::
    "('c, 'k, 'b, 'h, 'm, 'n, 'bd) client_settings \<Rightarrow> ('c, 'k, 'b, nat, nat) tls_connector_builder \<Rightarrow> ('c, 'k, 'b, nat, nat) tls_connector_builder" where
  "client_tls S B =
     session_store
       (tb_set_cert_verification (st_tls_cert_verification S)
         (tb_set_verify_hostname (st_tls_verify_hostname S)
           (tb_set_tls_sni (st_tls_sni S)
             (tb_set_min_version (st_tls_min_version S)
               (tb_set_max_version (st_tls_max_version S)
                 (tb_set_identity (st_tls_identity S)
                   (tb_set_cert_store (st_tls_cert_store S)
                     (tb_set_keylog (st_tls_keylog S)
                       (tb_set_alpn_protocol
                         (case st_http_version_pref S of
                            PrefHttp1 \<Rightarrow> Some ALPN_HTTP1 | PrefHttp2 \<Rightarrow> Some ALPN_HTTP2 | PrefAll \<Rightarrow> None) B)))))))))
       (st_tls_session_cache S)"

definition client_http :: "('c, 'k, 'b, 'h, 'm, 'n, 'bd) client_settings \<Rightarrow> tcp_options \<Rightarrow> tcp_options" where
  "client_http S c =
     (let c = hc_enforce_http False c;
          c = hc_set_keepalive (st_tcp_keepalive S) c;
          c = hc_set_keepalive_interval (st_tcp_keepalive_interval S) c;
          c = hc_set_keepalive_retries (st_tcp_keepalive_retries S) c;
          c = hc_set_reuse_address (st_tcp_reuse_address S) c;
          c = hc_set_linger (st_tcp_linger S) c;
          c = hc_set_connect_timeout (st_connect_timeout S) c;
          c = hc_set_nodelay (st_tcp_nodelay S) c;
          c = hc_set_send_buffer_size (st_tcp_send_buffer_size S) c;
          c = hc_set_recv_buffer_size (st_tcp_recv_buffer_size S) c;
          c = hc_set_happy_eyeballs_timeout (st_tcp_happy_eyeballs_timeout S) c;
          c = hc_set_tcp_user_timeout (st_tcp_user_timeout S) c;
          bo = st_socket_bind_options S;
          c = (case bo_interface bo of Some i \<Rightarrow> hc_set_interface i c | None \<Rightarrow> c)
      in hc_set_local_addresses (bo_ipv4 bo) (bo_ipv6 bo) c)"

text \<open>
  What the service of a client is made of, from the connector out. The layers of the user stand between the
  configuration layer and the timeout.
\<close>

record ('c, 'k, 'b, 'h, 'm, 'n, 'bd, 'bk, 'w, 'r) built_client =
  bc_connector :: "('c, 'k, 'b, nat, nat, 'h, 'n) connector"
  bc_http :: "client_config \<times> (('h, 'n) conn_key, 'h pool_client, 'w) pool_inner option"
  bc_http1_options :: "http1_options option"
  bc_http2_options :: "http2_options option"
  bc_cookie_store :: "nat option"
  bc_retry :: "('h, 'bd, 'bk) retry_policy"
  bc_redirect :: "('h, 'r) follow_policy"
  bc_decoder :: "decoder option"
  bc_config :: "('h, 'm) layer_config"
  bc_layers :: "nat list"
  bc_timeouts :: timeout_options

text \<open>
  \<open>E\<close> answers for the TLS library, \<open>env\<close> is the environment of the system proxy, \<open>cache\<close> the session
  cache a connector builder starts with, \<open>no_timer\<close> tells an empty timer, and \<open>new_cache\<close> makes the LRU map of the pool.
\<close>

definition client_build ::
    "('c, 'k, 'b, nat, 'io, ('h, 'n) conn_key, 'v) conn_env \<Rightarrow> 'n proxy_lib \<Rightarrow> (string \<Rightarrow> string option) \<Rightarrow>
     'm case_ops \<Rightarrow> 'bk budget_ops \<Rightarrow> (nat option \<Rightarrow> 'w) \<Rightarrow> (nat \<Rightarrow> bool) \<Rightarrow> nat \<Rightarrow> nat \<Rightarrow>
     ('c, 'k, 'b, 'h, 'm, 'n, 'bd) client_settings \<Rightarrow>
     std_error + ('c, 'k, 'b, 'h, 'm, 'n, 'bd, 'bk, 'w, 'r) built_client" where
  "client_build E X env C B new_cache no_timer usize_max cache S =
     (case st_error S of
        Some err \<Rightarrow> Inl err
      | None \<Rightarrow>
          (let proxies = (if st_auto_sys_proxy S then st_proxies S @ [mt_from_system X env] else st_proxies S);
               cb = cb_with_http (client_http S)
                      (cb_with_tls (client_tls S)
                        (cb_set_verbose (st_connection_verbose S)
                          (cb_set_tcp_nodelay (st_tcp_nodelay S)
                            (cb_set_tls_info (st_tls_info S)
                              (cb_set_timeout (st_connect_timeout S)
                                (connector_builder_new cache proxies))))))
           in and_then (connector_build E cb (st_tls_options S) (st_connector_layers S \<noteq> [])) (\<lambda>connector.
             Inr \<lparr>bc_connector = connector,
                  bc_http = cb_build new_cache
                    (hb_pool_max_size
                      (hb_pool_max_idle_per_host
                        (hb_pool_idle_timeout
                          (cb_http2_only (client_builder_new usize_max) (st_http_version_pref S = PrefHttp2))
                          (st_pool_idle_timeout S))
                        (st_pool_max_idle_per_host S))
                      (st_pool_max_size S))
                    (no_timer (st_timer S)),
                  bc_http1_options = st_http1_options S, bc_http2_options = st_http2_options S,
                  bc_cookie_store = st_cookie_store S,
                  bc_retry = retry_policy_new B (st_retry_policy S),
                  bc_redirect = fp_with_https_only (fp_with_referer (fp_new (st_redirect_policy S)) (st_referer S))
                                  (st_https_only S),
                  bc_decoder = decompression_layer (st_accept_encoding S),
                  bc_config = config_layer_new C (st_https_only S) (st_headers S) (st_orig_headers S),
                  bc_layers = st_layers S, bc_timeouts = st_timeout_options S\<rparr>)))"

text \<open>The name of a timeout depends on whether the user added layers.\<close>

definition client_map_error :: "('c, 'k, 'b, 'h, 'm, 'n, 'bd, 'bk, 'w, 'r) built_client \<Rightarrow> std_error \<Rightarrow> std_error" where
  "client_map_error c e = (if bc_layers c = [] then e else map_timeout_to_request_error e)"

end
