(* ===== verification/Client.thy ===== *)
theory Client
  imports Client_Builder Redirect_Layer
begin

text \<open>
  What holds of every client that was built: its settings reach the connector, each TLS
  configuration it makes, and the layers a request passes.
\<close>

fun service_of :: "('c, 'k, 'b, 'l, 's, 'h, 'n) connector \<Rightarrow> ('c, 'k, 'b, 'l, 's, 'h, 'n) connector_service" where
  "service_of (Simple s) = s"
| "service_of (WithLayers s _) = s"

section \<open>Lemmas\<close>

lemmas cb_setters = cb_with_http_def cb_with_tls_def cb_set_verbose_def cb_set_tcp_nodelay_def
  cb_set_tls_info_def cb_set_timeout_def connector_builder_new_def

lemmas tb_setters = tb_set_cert_verification_def tb_set_verify_hostname_def tb_set_tls_sni_def
  tb_set_min_version_def tb_set_max_version_def tb_set_identity_def tb_set_cert_store_def
  tb_set_keylog_def tb_set_alpn_protocol_def

lemma client_tls_fields:
  "tb_cert_verification (client_tls S B) = st_tls_cert_verification S"
  "tb_verify_hostname (client_tls S B) = st_tls_verify_hostname S"
  "tb_tls_sni (client_tls S B) = st_tls_sni S"
  "tb_cert_store (client_tls S B) = st_tls_cert_store S"
  "tb_identity (client_tls S B) = st_tls_identity S"
  "tb_min_version (client_tls S B) = st_tls_min_version S"
  "tb_max_version (client_tls S B) = st_tls_max_version S"
  "tb_alpn_protocol (client_tls S B) =
     (case st_http_version_pref S of PrefHttp1 \<Rightarrow> Some ALPN_HTTP1 | PrefHttp2 \<Rightarrow> Some ALPN_HTTP2 | PrefAll \<Rightarrow> None)"
  by (simp_all add: client_tls_def session_store_def tb_setters split: option.split)

lemma connector_build_service:
  assumes "connector_build E B opts layers = Inr c"
  shows "cs_builder (service_of c) = cb_tls B" "cs_http (service_of c) = cb_http B"
    "cf_proxies (cs_config (service_of c)) = cf_proxies (cb_config B)"
    "tls_build (en_webpki E) (en_ssl E) (cb_tls B)
       (case opts of Some o' \<Rightarrow> o' | None \<Rightarrow> tls_options_default) = Inr (cs_tls (service_of c))"
  using assms by (auto simp: connector_build_def and_then_Inr_iff Let_def split: if_splits)

lemma client_build_parts:
  assumes "client_build E X env C B new_cache no_timer um cache S = Inr c"
  shows "cs_builder (service_of (bc_connector c)) = client_tls S (tls_connector_builder_new cache)"
    and "cs_http (service_of (bc_connector c)) = client_http S http_connector_new"
    and "cf_proxies (cs_config (service_of (bc_connector c))) =
      (if st_auto_sys_proxy S then st_proxies S @ [mt_from_system X env] else st_proxies S)"
    and "tls_build (en_webpki E) (en_ssl E) (client_tls S (tls_connector_builder_new cache))
      (case st_tls_options S of Some o' \<Rightarrow> o' | None \<Rightarrow> tls_options_default) =
      Inr (cs_tls (service_of (bc_connector c)))"
    and "bc_config c = config_layer_new C (st_https_only S) (st_headers S) (st_orig_headers S)"
    and "bc_redirect c =
      fp_with_https_only (fp_with_referer (fp_new (st_redirect_policy S)) (st_referer S)) (st_https_only S)"
    and "st_error S = None"
proof -
  obtain connector where con: "connector_build E
        (cb_with_http (client_http S)
          (cb_with_tls (client_tls S)
            (cb_set_verbose (st_connection_verbose S)
              (cb_set_tcp_nodelay (st_tcp_nodelay S)
                (cb_set_tls_info (st_tls_info S)
                  (cb_set_timeout (st_connect_timeout S)
                    (connector_builder_new cache
                      (if st_auto_sys_proxy S then st_proxies S @ [mt_from_system X env]
                       else st_proxies S))))))))
        (st_tls_options S) (st_connector_layers S \<noteq> []) = Inr connector"
    and c: "bc_connector c = connector"
      "bc_config c = config_layer_new C (st_https_only S) (st_headers S) (st_orig_headers S)"
      "bc_redirect c =
        fp_with_https_only (fp_with_referer (fp_new (st_redirect_policy S)) (st_referer S)) (st_https_only S)"
      "st_error S = None"
    using assms by (auto simp: client_build_def Let_def and_then_Inr_iff split: option.splits)
  note built = connector_build_service [OF con]
  show "cs_builder (service_of (bc_connector c)) = client_tls S (tls_connector_builder_new cache)"
    and "cs_http (service_of (bc_connector c)) = client_http S http_connector_new"
    and "cf_proxies (cs_config (service_of (bc_connector c))) =
      (if st_auto_sys_proxy S then st_proxies S @ [mt_from_system X env] else st_proxies S)"
    and "tls_build (en_webpki E) (en_ssl E) (client_tls S (tls_connector_builder_new cache))
      (case st_tls_options S of Some o' \<Rightarrow> o' | None \<Rightarrow> tls_options_default) =
      Inr (cs_tls (service_of (bc_connector c)))"
    using built by (simp_all add: c cb_setters)
qed (use assms in \<open>auto simp: client_build_def Let_def and_then_Inr_iff split: option.splits\<close>)

text \<open>The TLS connector of a connection is built by the client's builder, from some options.\<close>

lemma https_connector_built:
  assumes "client_build E X env C B new_cache no_timer um cache S = Inr c"
    and "build_https_connector E (service_of (bc_connector c)) https d = Inr (http, tc)"
  shows "tls_build (en_webpki E) (en_ssl E) (client_tls S (tls_connector_builder_new cache))
    (case or_else (cd_tls_options d) (st_tls_options S) of Some o' \<Rightarrow> o' | None \<Rightarrow> tls_options_default) = Inr tc"
  using assms(2) client_build_parts [OF assms(1)]
  by (auto simp: build_https_connector_def and_then_Inr_iff or_else_def split: option.splits)

lemma tls_build_handshake:
  assumes "tls_build webpki F B opts = Inr tc"
  shows "hs_verify_hostname (tc_settings tc) = tb_verify_hostname B"
    and "hs_tls_sni (tc_settings tc) = tb_tls_sni B"
    and "hs_alpn_protocols (tc_settings tc) =
      (case tb_alpn_protocol B of Some p \<Rightarrow> Some [p] | None \<Rightarrow> alpn_protocols opts)"
    and "set (tc_ssl tc) = fst ` set (tls_build_calls webpki B opts)"
  using assms tls_build_made [OF assms]
  by (auto simp: tls_build_def and_then_Inr_iff or_else_def split: option.splits)

section \<open>Properties\<close>

text \<open>
  C3. Whether servers are authenticated is the client's decision alone: every TLS
  configuration a built client makes, its own and the ones for the TLS options or the emulation of a single
  request, verifies the certificate and the host name exactly when the client was told to, against
  the client's trust store, and presents the client's identity; a client restricted to one
  HTTP version offers that version's protocol only.
\<close>

theorem verification_follows_client:
  assumes "client_build E X env C B new_cache no_timer um cache S = Inr c"
    and "build_https_connector E (service_of (bc_connector c)) https d = Inr (http, tc)"
  shows "(SetVerifyPeer v \<in> set (tc_ssl tc) \<longleftrightarrow> v = st_tls_cert_verification S) \<and>
    hs_verify_hostname (tc_settings tc) = st_tls_verify_hostname S \<and>
    (SetCertStore s \<in> set (tc_ssl tc) \<longleftrightarrow> st_tls_cert_store S = Some s) \<and>
    (SetCertificate i \<in> set (tc_ssl tc) \<longleftrightarrow> map_option id_cert (st_tls_identity S) = Some i) \<and>
    (st_http_version_pref S = PrefHttp1 \<longrightarrow> hs_alpn_protocols (tc_settings tc) = Some [ALPN_HTTP1]) \<and>
    (st_http_version_pref S = PrefHttp2 \<longrightarrow> hs_alpn_protocols (tc_settings tc) = Some [ALPN_HTTP2])"
  using tls_build_handshake [OF https_connector_built [OF assms]]
  by (simp add: build_call_iffs client_tls_fields)

lemma config_call_https:
  assumes "config_call H (config_layer_new C True headers orig) req = Inr req'"
  shows "is_https (rq_uri req')" and "rq_uri req' = rq_uri req"
  using assms by (auto simp: config_call_def config_layer_new_def Let_def split: if_splits option.splits prod.splits)

lemma redirect_call_first:
  assumes "redirect_call U H Sv w self req body = (w', self', rf, cs)"
  shows "\<exists>r b. cs = [(r, b)] \<and> rq_uri r = rq_uri req"
proof -
  obtain self1 req1 o1 where fr: "fp_for_request U H self req = (self1, req1, o1)"
    by (cases "fp_for_request U H self req")
  then have u: "rq_uri req1 = rq_uri req"
    by (auto simp: fp_for_request_def Let_def split: prod.splits)
  show ?thesis
  proof (cases o1)
    case None
    with assms fr u show ?thesis by (auto simp: redirect_call_def split: prod.splits)
  next
    case (Some fp)
    obtain fp2 req2 where on: "fp_on_request U H fp req1 = (fp2, req2)"
      by (cases "fp_on_request U H fp req1")
    with assms fr Some u fp_on_request_fields(1) [OF on] show ?thesis
      by (auto simp: redirect_call_def Let_def split: prod.splits)
  qed
qed

lemma redirect_run_first:
  assumes "redirect_run L U H Sv w0 self req body w rf cs out"
  shows "\<exists>r b cs'. cs = (r, b) # cs' \<and> rq_uri r = rq_uri req"
  using assms by induction (use redirect_call_first in fastforce)+

text \<open>
  C14. A client restricted to HTTPS never sends anything else: the request that passes the
  configuration layer has an \<open>https\<close> URI, and so has every request the redirect layer then
  hands to the HTTP client, the first one and each redirect, for a redirect policy that decides
  at once. A policy that leaves its verdict pending is outside the claim: the code follows such a
  verdict without checking the scheme again.
\<close>

theorem https_only_end_to_end:
  assumes "client_build E X env C B new_cache no_timer um cache S = Inr c" and "st_https_only S"
    and "config_call H (bc_config c) req = Inr req'"
    and "redirect_run L U H Sv w0 (bc_redirect c) req2 body w rf cs out" and "rq_uri req2 = rq_uri req'"
    and "rc_fetch (Some (st_redirect_policy S)) (rq_policy req2) = Some p" and "never_pends p"
    and "k < length cs"
  shows "is_https (rq_uri (fst (cs ! k)))"
proof -
  note parts = client_build_parts [OF assms(1)]
  have fp: "fp_uris (bc_redirect c) = []" "fp_policy (bc_redirect c) = Some (st_redirect_policy S)"
    "fp_https_only (bc_redirect c)"
    using assms(2)
    by (simp_all add: parts fp_with_https_only_def fp_with_referer_def fp_new_def)
  obtain r b cs' where first: "cs = (r, b) # cs'" "rq_uri r = rq_uri req2"
    using redirect_run_first [OF assms(4)] by blast
  have "is_https (rq_uri req')"
    using config_call_https(1) [of H C] assms(2,3) parts(5) by simp
  with first assms(5) have zero: "is_https (rq_uri (fst (cs ! 0)))"
    by simp
  consider "k = 0" | "0 < k" "checked p True cs"
    using run_ok_Redirecting(3) [OF assms(4) fp(1), of p] assms(6-8) fp by auto
  then show ?thesis
    using zero assms(8) by cases (auto simp: checked_def targets_def)
qed

section \<open>A concrete client\<close>

definition sample_settings ::
    "(nat, nat, nat, sample_headers, (string \<times> case_name list) list, int, unit) client_settings" where
  "sample_settings =
     client_referer False (client_https_only True (client_redirect (Limit 1) (client_no_proxy
       (client_settings_new list_headers list_cases 18446744073709551615 False 0 0))))"

definition sample_built ::
    "std_error + (nat, nat, nat, sample_headers, (string \<times> case_name list) list, int, unit, unit,
       nat option, string) built_client" where
  "sample_built =
     client_build sample_env sample_px (\<lambda>_. None) list_cases no_budget_ops (\<lambda>n. n) (\<lambda>_. False)
       18446744073709551615 0 sample_settings"

lemma sample_settings_fields:
  "st_https_only sample_settings" "st_tls_cert_verification sample_settings"
  "st_redirect_policy sample_settings = Limit 1" "st_error sample_settings = None"
  "st_referer sample_settings = False"
  by (simp_all add: sample_settings_def client_referer_def client_https_only_def client_redirect_def
      client_no_proxy_def client_settings_new_def)

lemma sample_env_tls_build: "\<exists>tc. tls_build w (en_ssl sample_env) B opts = Inr tc"
  by (simp add: tls_build_def sample_env_def run_calls_ok)

lemma sample_built_Inr: "\<exists>c. sample_built = Inr c"
proof -
  obtain tc where "tls_build (en_webpki sample_env) (en_ssl sample_env)
      (client_tls sample_settings (tls_connector_builder_new 0))
      (case st_tls_options sample_settings of Some o' \<Rightarrow> o' | None \<Rightarrow> tls_options_default) = Inr tc"
    using sample_env_tls_build by blast
  then show ?thesis
    by (simp add: sample_built_def client_build_def sample_settings_fields connector_build_def cb_setters Let_def)
qed

theorem verification_follows_client_witness:
  "\<exists>c http tc. sample_built = Inr c \<and>
     build_https_connector sample_env (service_of (bc_connector c)) True sample_desc = Inr (http, tc) \<and>
     SetVerifyPeer True \<in> set (tc_ssl tc) \<and> SetVerifyPeer False \<notin> set (tc_ssl tc)"
proof -
  obtain c where c: "sample_built = Inr c" using sample_built_Inr by blast
  have "\<exists>http tc. build_https_connector sample_env (service_of (bc_connector c)) True sample_desc = Inr (http, tc)"
    by (simp add: build_https_connector_def sample_desc_def connection_descriptor_new_def)
  then obtain http tc where tc:
    "build_https_connector sample_env (service_of (bc_connector c)) True sample_desc = Inr (http, tc)"
    by blast
  from verification_follows_client [OF c [unfolded sample_built_def] tc, where v = True]
    verification_follows_client [OF c [unfolded sample_built_def] tc, where v = False] c tc
  show ?thesis by (auto simp: sample_settings_fields)
qed

theorem https_only_end_to_end_witness:
  "\<exists>c w rf. sample_built = Inr c \<and>
     redirect_run text_uris text_urls list_headers scripted [redirect_to 302 ''b''] (bc_redirect c)
       (sample_request ''POST'') (Reusable ''hi'') w rf sample_calls Yield \<and>
     is_https (rq_uri (fst (sample_calls ! 1)))"
proof -
  obtain c where c: "sample_built = Inr c" using sample_built_Inr by blast
  note parts = client_build_parts [OF c [unfolded sample_built_def]]
  have policy: "bc_redirect c = Redirect_Layer.sample_policy (Limit 1)"
    by (simp add: parts(6) sample_settings_fields Redirect_Layer.sample_policy_def fp_with_referer_def fp_new_def)
  obtain w rf where run: "redirect_run text_uris text_urls list_headers scripted [redirect_to 302 ''b'']
      (bc_redirect c) (sample_request ''POST'') (Reusable ''hi'') w rf sample_calls Yield"
    using Redirect_Layer.sample_run unfolding policy by blast
  let ?req = "sample_config_request\<lparr>rq_uri := uri_at HTTPS ''a'' ''/''\<rparr>"
  have "\<exists>req'. config_call list_headers (bc_config c) ?req = Inr req'"
    using replace_headers_get_all [OF list_headers_laws, of "lc_headers (bc_config c)" "rq_headers ?req"]
    by (auto simp: config_call_def Let_def uri_at_def is_https_def split: prod.splits option.splits)
  then obtain req' where req': "config_call list_headers (bc_config c) ?req = Inr req'"
    by blast
  then have u: "rq_uri (sample_request ''POST'') = rq_uri req'"
    by (auto simp: Redirect_Layer.sample_request_def config_call_def Let_def
        split: if_splits option.splits prod.splits)
  have "is_https (rq_uri (fst (sample_calls ! 1)))"
    by (rule https_only_end_to_end [OF c [unfolded sample_built_def] sample_settings_fields(1) req' run u,
          where p = "Limit 1"])
      (simp_all add: sample_settings_fields Redirect_Layer.sample_request_def rc_fetch_def never_pends_Limit
        Redirect_Layer.sample_calls_def)
  with c run show ?thesis by blast
qed

end
