(* ===== verification/Core_Tls.thy ===== *)
theory Core_Tls
  imports Client_Builder "HOL-Library.List_Lexorder" "HOL-Library.Char_ord"
begin

text \<open>
  The wire configuration of the language bindings (\<open>src/crates/tlsurl-core/src/random_tls.rs\<close>
  and \<open>protocol.rs\<close>): the seeded choice of TLS parameters, and the validated TLS, HTTP/2 and
  identity settings that are applied to a client's builder.
\<close>

unbundle bit_operations_syntax

section \<open>Errors of the bindings\<close>

datatype core_error = CoreError (ce_code: string) (ce_message: string)

text \<open>The code of a library error, by the first question it answers.\<close>

definition core_code :: "std_error \<Rightarrow> string" where
  "core_code e =
     (if err_is_timeout e then ''TIMEOUT''
      else if err_is_builder e then ''INVALID_REQUEST''
      else if err_is_tls e then ''TLS''
      else if err_is_dns e then ''DNS''
      else if err_is_connect e then ''CONNECT''
      else ''REQUEST'')"

text \<open>\<open>show\<close> is the text of an error.\<close>

definition core_of_error :: "(std_error \<Rightarrow> string) \<Rightarrow> std_error \<Rightarrow> core_error" where
  "core_of_error show_error e = CoreError (core_code e) (show_error (without_uri e))"

definition invalid_config :: "string \<Rightarrow> core_error" where
  "invalid_config m = CoreError ''INVALID_CONFIG'' m"

section \<open>The seeded sequence\<close>

text \<open>One step: the value drawn and the state after it.\<close>

definition seq_next :: "u64 \<Rightarrow> u64 \<times> u64" where
  "seq_next s =
     (let s' = s + 0x9e3779b97f4a7c15;
          z = s';
          z = (z XOR drop_bit 30 z) * 0xbf58476d1ce4e5b9;
          z = (z XOR drop_bit 27 z) * 0x94d049bb133111eb
      in (z XOR drop_bit 31 z, s'))"

definition swap_at :: "'a list \<Rightarrow> nat \<Rightarrow> nat \<Rightarrow> 'a list" where
  "swap_at xs i j = xs[i := xs ! j, j := xs ! i]"

text \<open>The loop from the last index down to 1.\<close>

fun shuffle_from :: "nat \<Rightarrow> u64 \<Rightarrow> 'a list \<Rightarrow> 'a list \<times> u64" where
  "shuffle_from 0 s xs = (xs, s)"
| "shuffle_from (Suc i) s xs =
     (case seq_next s of (r, s') \<Rightarrow>
        shuffle_from i s' (swap_at xs (Suc i) (unat (r mod (of_nat (Suc i) + 1)))))"

definition seq_shuffle :: "u64 \<Rightarrow> 'a list \<Rightarrow> 'a list \<times> u64" where
  "seq_shuffle s xs = shuffle_from (length xs - 1) s xs"

section \<open>Random TLS options\<close>

definition fixed_ciphers :: "string list" where
  "fixed_ciphers = [''ECDHE-RSA-AES128-GCM-SHA256'', ''ECDHE-ECDSA-AES128-GCM-SHA256'']"

definition optional_ciphers :: "string list" where
  "optional_ciphers =
     [''ECDHE-RSA-AES256-GCM-SHA384'', ''ECDHE-ECDSA-AES256-GCM-SHA384'',
      ''ECDHE-RSA-CHACHA20-POLY1305'', ''ECDHE-ECDSA-CHACHA20-POLY1305'']"

definition all_signatures :: "string list" where
  "all_signatures =
     [''ecdsa_secp256r1_sha256'', ''ecdsa_secp384r1_sha384'', ''rsa_pss_rsae_sha256'',
      ''rsa_pss_rsae_sha384'', ''rsa_pkcs1_sha256'', ''rsa_pkcs1_sha384'']"

definition all_curves :: "string list" where
  "all_curves = [''X25519'', ''P-256'', ''P-384'']"

fun pick_ciphers :: "u64 \<Rightarrow> string list \<Rightarrow> string list \<Rightarrow> string list \<times> u64" where
  "pick_ciphers s chosen [] = (chosen, s)"
| "pick_ciphers s chosen (c # cs) =
     (case seq_next s of (r, s') \<Rightarrow>
        pick_ciphers s' (if r AND 1 = 1 then chosen @ [c] else chosen) cs)"

text \<open>\<open>entropy\<close> is what \<open>getrandom\<close> gives, if it does.\<close>

definition random_tls_options :: "u64 option \<Rightarrow> u32 option \<Rightarrow> core_error + tls_options" where
  "random_tls_options entropy seed =
     and_then
       (case seed of
          Some n \<Rightarrow> Inr (ucast n)
        | None \<Rightarrow> ok_or (invalid_config ''could not obtain randomness for TLS configuration'') entropy)
       (\<lambda>s. case pick_ciphers s fixed_ciphers optional_ciphers of (ciphers, s) \<Rightarrow>
            case seq_shuffle s ciphers of (ciphers, s) \<Rightarrow>
            case seq_shuffle s all_signatures of (signatures, s) \<Rightarrow>
            case seq_shuffle s all_curves of (curves, s) \<Rightarrow>
              Inr (tls_options_default\<lparr>
                min_tls_version := Some TLS_1_2, max_tls_version := Some TLS_1_3,
                cipher_list := Some (join_with '':'' ciphers),
                sigalgs_list := Some (join_with '':'' signatures),
                curves_list := Some (join_with '':'' curves),
                permute_extensions := Some False, grease_enabled := Some True,
                aes_hw_override := Some True, session_ticket := False\<rparr>))"

section \<open>TLS and HTTP/2 settings\<close>

record tls_config =
  tg_min_version :: "string option"
  tg_max_version :: "string option"
  tg_alpn :: "string list option"
  tg_cipher_list :: "string option"
  tg_curves_list :: "string option"
  tg_sigalgs_list :: "string option"
  tg_grease :: "bool option"
  tg_permute_extensions :: "bool option"
  tg_sni :: "bool option"

definition core_version :: "string \<Rightarrow> core_error + (nat \<times> tls_version)" where
  "core_version v =
     (if v = ''1.0'' then Inr (0, TLS_1_0)
      else if v = ''1.1'' then Inr (1, TLS_1_1)
      else if v = ''1.2'' then Inr (2, TLS_1_2)
      else if v = ''1.3'' then Inr (3, TLS_1_3)
      else Inl (invalid_config ''TLS version must be 1.0, 1.1, 1.2 or 1.3''))"

text \<open>\<open>map(f).transpose()\<close> on an option.\<close>

definition try_option :: "('a \<Rightarrow> 'e + 'b) \<Rightarrow> 'a option \<Rightarrow> 'e + 'b option" where
  "try_option f x = (case x of None \<Rightarrow> Inr None | Some a \<Rightarrow> map_sum id Some (f a))"

definition core_alpn :: "string \<Rightarrow> core_error + alpn_protocol" where
  "core_alpn v =
     (if v = ''h2'' then Inr ALPN_HTTP2
      else if v = ''http/1.1'' then Inr ALPN_HTTP1
      else Inl (invalid_config ''ALPN supports only h2 and http/1.1''))"

text \<open>Collecting results stops at the first error.\<close>

fun try_map :: "('a \<Rightarrow> 'e + 'b) \<Rightarrow> 'a list \<Rightarrow> 'e + 'b list" where
  "try_map f [] = Inr []"
| "try_map f (x # xs) = and_then (f x) (\<lambda>y. and_then (try_map f xs) (\<lambda>ys. Inr (y # ys)))"

definition tls_config_apply ::
    "tls_config \<Rightarrow> ('c, 'k, 'b, 'h, 'm, 'n, 'bd) client_settings \<Rightarrow> tls_options option \<Rightarrow>
     core_error + ('c, 'k, 'b, 'h, 'm, 'n, 'bd) client_settings" where
  "tls_config_apply cfg S base =
     and_then (try_option core_version (tg_min_version cfg)) (\<lambda>mn.
     and_then (try_option core_version (tg_max_version cfg)) (\<lambda>mx.
       if (case (mn, mx) of (Some a, Some b) \<Rightarrow> fst a > fst b | _ \<Rightarrow> False)
       then Inl (invalid_config ''TLS minimum version exceeds maximum version'')
       else
         (let o1 = (case base of Some b \<Rightarrow> b | None \<Rightarrow> tls_options_default);
              o2 = o1\<lparr>min_tls_version := or_else (map_option snd mn) (min_tls_version o1),
                     max_tls_version := or_else (map_option snd mx) (max_tls_version o1),
                     cipher_list := or_else (tg_cipher_list cfg) (cipher_list o1),
                     curves_list := or_else (tg_curves_list cfg) (curves_list o1),
                     sigalgs_list := or_else (tg_sigalgs_list cfg) (sigalgs_list o1),
                     grease_enabled := or_else (tg_grease cfg) (grease_enabled o1),
                     permute_extensions := or_else (tg_permute_extensions cfg) (permute_extensions o1)\<rparr>
          in and_then (case tg_alpn cfg of
                         None \<Rightarrow> Inr o2
                       | Some ps \<Rightarrow> and_then (try_map core_alpn ps) (\<lambda>ps. Inr (o2\<lparr>alpn_protocols := Some ps\<rparr>)))
               (\<lambda>o3. let S = (case tg_sni cfg of Some sni \<Rightarrow> client_tls_sni sni S | None \<Rightarrow> S)
                     in Inr (client_tls_options (Some o3) S)))))"

record http2_config =
  hg_initial_window_size :: "u32 option"
  hg_initial_connection_window_size :: "u32 option"
  hg_max_frame_size :: "u32 option"
  hg_max_header_list_size :: "u32 option"
  hg_header_table_size :: "u32 option"
  hg_enable_push :: "bool option"
  hg_pseudo_order :: "string list option"

definition core_pseudo :: "string \<Rightarrow> core_error + pseudo_id" where
  "core_pseudo v =
     (if v = ''method'' then Inr PseudoMethod
      else if v = ''scheme'' then Inr PseudoScheme
      else if v = ''authority'' then Inr PseudoAuthority
      else if v = ''path'' then Inr PseudoPath
      else Inl (invalid_config ''unknown HTTP/2 pseudo header''))"

definition core_pseudo_order :: "string list \<Rightarrow> core_error + pseudo_id list" where
  "core_pseudo_order names =
     (if length (remdups_adj (sort names)) \<noteq> 4 \<or> length names \<noteq> 4
      then Inl (invalid_config ''pseudo_order must contain method, scheme, authority and path exactly once'')
      else try_map core_pseudo names)"

text \<open>The settings that replace a value, in the order of the code.\<close>

definition http2_overlay :: "http2_config \<Rightarrow> http2_options \<Rightarrow> http2_options" where
  "http2_overlay cfg o1 =
     (let o2 = (case hg_initial_window_size cfg of Some n \<Rightarrow> o1\<lparr>h2_initial_window_size := n\<rparr> | None \<Rightarrow> o1);
          o3 = (case hg_initial_connection_window_size cfg of
                  Some n \<Rightarrow> o2\<lparr>h2_initial_conn_window_size := n\<rparr> | None \<Rightarrow> o2);
          o4 = (case hg_max_frame_size cfg of Some n \<Rightarrow> o3\<lparr>h2_max_frame_size := Some n\<rparr> | None \<Rightarrow> o3);
          o5 = (case hg_max_header_list_size cfg of
                  Some n \<Rightarrow> o4\<lparr>h2_max_header_list_size := Some n\<rparr> | None \<Rightarrow> o4);
          o6 = (case hg_header_table_size cfg of
                  Some n \<Rightarrow> o5\<lparr>h2_header_table_size := Some n\<rparr> | None \<Rightarrow> o5)
      in case hg_enable_push cfg of Some b \<Rightarrow> o6\<lparr>h2_enable_push := Some b\<rparr> | None \<Rightarrow> o6)"

text \<open>\<open>deflt\<close> are the HTTP/2 crate's options.\<close>

definition http2_config_apply ::
    "http2_options \<Rightarrow> http2_config \<Rightarrow> ('c, 'k, 'b, 'h, 'm, 'n, 'bd) client_settings \<Rightarrow> http2_options option \<Rightarrow>
     core_error + ('c, 'k, 'b, 'h, 'm, 'n, 'bd) client_settings" where
  "http2_config_apply deflt cfg S base =
     (if (case hg_initial_window_size cfg of Some n \<Rightarrow> n > 0x7fffffff | None \<Rightarrow> False) \<or>
         (case hg_initial_connection_window_size cfg of
            Some n \<Rightarrow> \<not> (65535 \<le> n \<and> n \<le> 0x7fffffff) | None \<Rightarrow> False)
      then Inl (invalid_config ''HTTP/2 window sizes exceed allowed ranges'')
      else if (case hg_max_frame_size cfg of Some n \<Rightarrow> \<not> (16384 \<le> n \<and> n \<le> 16777215) | None \<Rightarrow> False)
      then Inl (invalid_config ''HTTP/2 max_frame_size must be 16384 through 16777215'')
      else
        (let opts = http2_overlay cfg (case base of Some b \<Rightarrow> b | None \<Rightarrow> deflt)
         in and_then (case hg_pseudo_order cfg of
                        None \<Rightarrow> Inr opts
                      | Some names \<Rightarrow>
                          and_then (core_pseudo_order names) (\<lambda>ps. Inr (opts\<lparr>h2_headers_pseudo_order := Some ps\<rparr>)))
              (\<lambda>opts. Inr (client_http2_options (Some opts) S))))"

record identity_config =
  ig_certificate_pem :: string
  ig_private_key_pem :: string

definition identity_config_apply ::
    "('c, 'k, 'b) x509_lib \<Rightarrow> (std_error \<Rightarrow> string) \<Rightarrow> identity_config \<Rightarrow>
     ('c, 'k, 'b, 'h, 'm, 'n, 'bd) client_settings \<Rightarrow> core_error + ('c, 'k, 'b, 'h, 'm, 'n, 'bd) client_settings" where
  "identity_config_apply X show_error cfg S =
     and_then (map_err (core_of_error show_error) (from_pkcs8_pem X (ig_certificate_pem cfg) (ig_private_key_pem cfg)))
       (\<lambda>i. Inr (client_tls_identity i S))"

section \<open>Lemmas\<close>

lemma length_swap_at [simp]: "length (swap_at xs i j) = length xs"
  by (simp add: swap_at_def)

lemma mset_swap_at: "i < length xs \<Longrightarrow> j < length xs \<Longrightarrow> mset (swap_at xs i j) = mset xs"
  by (simp add: swap_at_def mset_swap)

text \<open>The index drawn is within the loop's index.\<close>

lemma draw_bound:
  assumes "i < 2 ^ 63"
  shows "unat (r mod (of_nat i + 1) :: u64) \<le> i"
proof -
  have "unat (of_nat (Suc i) :: u64) = Suc i"
    using assms by (subst unat_of_nat) simp
  then have "unat (of_nat i + 1 :: u64) = Suc i"
    by (simp add: add.commute)
  moreover have "unat (r mod (of_nat i + 1)) = unat r mod unat (of_nat i + 1 :: u64)"
    by (rule unat_mod)
  ultimately show ?thesis
    by (simp add: less_Suc_eq_le [symmetric])
qed

lemma shuffle_from_mset:
  "i < length xs \<or> i = 0 \<Longrightarrow> length xs < 2 ^ 63 \<Longrightarrow> mset (fst (shuffle_from i s xs)) = mset xs"
proof (induction i arbitrary: s xs)
  case (Suc i)
  obtain r s' where n: "seq_next s = (r, s')" by (cases "seq_next s")
  let ?j = "unat (r mod (of_nat (Suc i) + 1))"
  have len: "Suc i < length xs" using Suc.prems by simp
  have "?j \<le> Suc i"
    using Suc.prems draw_bound [of "Suc i" r] by simp
  then have "mset (swap_at xs (Suc i) ?j) = mset xs"
    using len by (intro mset_swap_at) simp_all
  with n Suc.IH [of "swap_at xs (Suc i) ?j" s'] len Suc.prems(2) show ?case
    by simp
qed simp

lemma seq_shuffle_mset:
  assumes "length xs < 2 ^ 63" and "seq_shuffle s xs = (ys, s')"
  shows "mset ys = mset xs"
  using shuffle_from_mset [of "length xs - 1" xs s] assms by (cases xs) (auto simp: seq_shuffle_def)

lemma pick_ciphers_subseq:
  "pick_ciphers s chosen cs = (ys, s') \<Longrightarrow> \<exists>zs. ys = chosen @ zs \<and> subseq zs cs"
proof (induction cs arbitrary: s chosen)
  case (Cons c cs)
  obtain r s1 where "seq_next s = (r, s1)" by (cases "seq_next s")
  with Cons show ?case
    by (fastforce split: if_splits)
qed simp

lemma subseq_set: "subseq xs ys \<Longrightarrow> set xs \<subseteq> set ys"
  by (auto simp: subseq_conv_nths dest: in_set_nthsD)

lemma ciphers_distinct: "distinct (fixed_ciphers @ optional_ciphers)"
  by (simp add: fixed_ciphers_def optional_ciphers_def)

lemma random_tls_options_Inr:
  "random_tls_options entropy seed = Inr opts \<Longrightarrow>
   \<exists>s ciphers s1 cs s2 sigs s3 curves s4. pick_ciphers s fixed_ciphers optional_ciphers = (ciphers, s1) \<and>
     seq_shuffle s1 ciphers = (cs, s2) \<and> seq_shuffle s2 all_signatures = (sigs, s3) \<and>
     seq_shuffle s3 all_curves = (curves, s4) \<and>
     opts = tls_options_default\<lparr>
                min_tls_version := Some TLS_1_2, max_tls_version := Some TLS_1_3,
                cipher_list := Some (join_with '':'' cs),
                sigalgs_list := Some (join_with '':'' sigs),
                curves_list := Some (join_with '':'' curves),
                permute_extensions := Some False, grease_enabled := Some True,
                aes_hw_override := Some True, session_ticket := False\<rparr>"
proof -
  assume r: "random_tls_options entropy seed = Inr opts"
  then obtain s where s: "(case pick_ciphers s fixed_ciphers optional_ciphers of (ciphers, s) \<Rightarrow>
            case seq_shuffle s ciphers of (ciphers, s) \<Rightarrow>
            case seq_shuffle s all_signatures of (signatures, s) \<Rightarrow>
            case seq_shuffle s all_curves of (curves, s) \<Rightarrow>
              Inr (tls_options_default\<lparr>
                min_tls_version := Some TLS_1_2, max_tls_version := Some TLS_1_3,
                cipher_list := Some (join_with '':'' ciphers),
                sigalgs_list := Some (join_with '':'' signatures),
                curves_list := Some (join_with '':'' curves),
                permute_extensions := Some False, grease_enabled := Some True,
                aes_hw_override := Some True, session_ticket := False\<rparr>)) = (Inr opts :: core_error + tls_options)"
    unfolding random_tls_options_def and_then_Inr_iff by blast
  obtain ciphers s1 where 1: "pick_ciphers s fixed_ciphers optional_ciphers = (ciphers, s1)" by fastforce
  obtain cs s2 where 2: "seq_shuffle s1 ciphers = (cs, s2)" by fastforce
  obtain sigs s3 where 3: "seq_shuffle s2 all_signatures = (sigs, s3)" by fastforce
  obtain curves s4 where 4: "seq_shuffle s3 all_curves = (curves, s4)" by fastforce
  have o': "tls_options_default\<lparr>
                min_tls_version := Some TLS_1_2, max_tls_version := Some TLS_1_3,
                cipher_list := Some (join_with '':'' cs),
                sigalgs_list := Some (join_with '':'' sigs),
                curves_list := Some (join_with '':'' curves),
                permute_extensions := Some False, grease_enabled := Some True,
                aes_hw_override := Some True, session_ticket := False\<rparr> = opts"
    using s unfolding 1 2 3 4 prod.case by (rule sum.inject(2) [THEN iffD1])
  show ?thesis
    using 1 2 3 4 o' [symmetric] by blast
qed

text \<open>
  C25. Whatever the seed, randomised TLS options keep a client able to connect: they allow TLS 1.2 and
  1.3 and nothing else, list both AES-128-GCM suites (one for RSA and one for ECDSA certificates) among
  known suites without repetition, and list every known signature algorithm and curve
  exactly once; only the order and the optional suites depend on the seed.
\<close>

theorem random_tls_connects:
  assumes "random_tls_options entropy seed = Inr opts"
  shows "min_tls_version opts = Some TLS_1_2 \<and> max_tls_version opts = Some TLS_1_3 \<and>
    (\<exists>ciphers. cipher_list opts = Some (join_with '':'' ciphers) \<and> distinct ciphers \<and>
      set fixed_ciphers \<subseteq> set ciphers \<and> set ciphers \<subseteq> set fixed_ciphers \<union> set optional_ciphers) \<and>
    (\<exists>sigs. sigalgs_list opts = Some (join_with '':'' sigs) \<and> mset sigs = mset all_signatures) \<and>
    (\<exists>curves. curves_list opts = Some (join_with '':'' curves) \<and> mset curves = mset all_curves)"
proof -
  obtain s ciphers s1 cs s2 sigs s3 curves s4 where
    pick: "pick_ciphers s fixed_ciphers optional_ciphers = (ciphers, s1)"
    and sh: "seq_shuffle s1 ciphers = (cs, s2)" "seq_shuffle s2 all_signatures = (sigs, s3)"
      "seq_shuffle s3 all_curves = (curves, s4)"
    and o': "opts = tls_options_default\<lparr>
                min_tls_version := Some TLS_1_2, max_tls_version := Some TLS_1_3,
                cipher_list := Some (join_with '':'' cs),
                sigalgs_list := Some (join_with '':'' sigs),
                curves_list := Some (join_with '':'' curves),
                permute_extensions := Some False, grease_enabled := Some True,
                aes_hw_override := Some True, session_ticket := False\<rparr>"
    using random_tls_options_Inr [OF assms] by blast
  obtain zs where zs: "ciphers = fixed_ciphers @ zs" "subseq zs optional_ciphers"
    using pick_ciphers_subseq [OF pick] by blast
  have sub: "subseq ciphers (fixed_ciphers @ optional_ciphers)"
    using zs by (simp add: list_emb_append_mono)
  have "length ciphers \<le> length (fixed_ciphers @ optional_ciphers)"
    using sub by (rule list_emb_length)
  also have "\<dots> < 2 ^ 63"
    by (simp add: fixed_ciphers_def optional_ciphers_def)
  finally have m: "mset cs = mset ciphers"
    by (rule seq_shuffle_mset [OF _ sh(1)])
  have "distinct ciphers"
    using sub ciphers_distinct by (auto simp: subseq_conv_nths intro: distinct_nthsI)
  with m have "distinct cs"
    by (metis mset_eq_imp_distinct_iff)
  moreover have "set cs = set ciphers"
    using m by (rule mset_eq_setD)
  ultimately have c: "distinct cs \<and> set fixed_ciphers \<subseteq> set cs \<and> set cs \<subseteq> set fixed_ciphers \<union> set optional_ciphers"
    using zs(1) subseq_set [OF zs(2)] by auto
  have len: "length all_signatures < 2 ^ 63" "length all_curves < 2 ^ 63"
    by (simp_all add: all_signatures_def all_curves_def)
  note s = seq_shuffle_mset [OF len(1) sh(2)] and k = seq_shuffle_mset [OF len(2) sh(3)]
  have f: "cipher_list opts = Some (join_with '':'' cs)" "sigalgs_list opts = Some (join_with '':'' sigs)"
    "curves_list opts = Some (join_with '':'' curves)"
    "min_tls_version opts = Some TLS_1_2" "max_tls_version opts = Some TLS_1_3"
    unfolding o' by simp_all
  show ?thesis
  proof (intro conjI)
    show "\<exists>ciphers. cipher_list opts = Some (join_with '':'' ciphers) \<and> distinct ciphers \<and>
        set fixed_ciphers \<subseteq> set ciphers \<and> set ciphers \<subseteq> set fixed_ciphers \<union> set optional_ciphers"
      using f(1) c by blast
  qed (use f s k in blast)+
qed

lemma random_tls_options_seeded: "\<exists>opts. random_tls_options entropy (Some n) = Inr opts"
  by (simp add: random_tls_options_def split: prod.split)

theorem random_tls_connects_witness:
  "\<exists>opts. random_tls_options None (Some 7) = Inr opts \<and> min_tls_version opts = Some TLS_1_2 \<and>
     (\<exists>curves. curves_list opts = Some (join_with '':'' curves) \<and> mset curves = mset all_curves)"
proof -
  obtain opts where "random_tls_options None (Some 7) = Inr opts"
    using random_tls_options_seeded by blast
  with random_tls_connects [OF this] show ?thesis by blast
qed

section \<open>What the settings accept\<close>

lemma distinct_remdups_adj_sorted: "sorted xs \<Longrightarrow> distinct (remdups_adj xs)"
  by (induction xs rule: remdups_adj.induct) auto

lemma dedup_length: "length (remdups_adj (sort xs)) = card (set xs)" for xs :: "'a :: linorder list"
  using distinct_card [OF distinct_remdups_adj_sorted [OF sorted_sort], of xs] by simp

lemma try_map_Inr: "try_map f xs = Inr ys \<longleftrightarrow> list_all2 (\<lambda>x y. f x = Inr y) xs ys"
  by (induction xs arbitrary: ys) (auto simp: and_then_Inr_iff list_all2_Cons1)

lemma try_map_Inl:
  "try_map f xs = Inl e \<Longrightarrow> \<exists>x \<in> set xs. f x = Inl e"
  by (induction xs) (auto simp: and_then_Inl_iff)

definition pseudo_names :: "string list" where
  "pseudo_names = [''method'', ''scheme'', ''authority'', ''path'']"

lemma core_pseudo_cases: "(\<exists>p. core_pseudo v = Inr p) \<longleftrightarrow> v \<in> set pseudo_names"
  by (simp add: core_pseudo_def pseudo_names_def)

lemma pseudo_order_iff:
  "(\<exists>ps. core_pseudo_order names = Inr ps) \<longleftrightarrow> mset names = mset pseudo_names"
proof
  assume "\<exists>ps. core_pseudo_order names = Inr ps"
  then obtain ps where len: "card (set names) = 4" "length names = 4"
    and all: "list_all2 (\<lambda>x y. core_pseudo x = Inr y) names ps"
    by (auto simp: core_pseudo_order_def dedup_length try_map_Inr split: if_splits)
  from all have "\<forall>x \<in> set names. \<exists>p. core_pseudo x = Inr p"
    by (induction rule: list_all2_induct) auto
  then have "set names \<subseteq> set pseudo_names"
    using core_pseudo_cases by blast
  moreover have d: "distinct pseudo_names" and c: "card (set pseudo_names) = 4"
    by (simp_all add: pseudo_names_def)
  ultimately have "set names = set pseudo_names"
    using len by (intro card_subset_eq) simp_all
  moreover have "distinct names"
    using len by (simp add: card_distinct)
  ultimately show "mset names = mset pseudo_names"
    using d set_eq_iff_mset_eq_distinct by blast
next
  assume m: "mset names = mset pseudo_names"
  have d: "distinct pseudo_names" "length pseudo_names = 4"
    by (simp_all add: pseudo_names_def)
  have names: "distinct names" "set names = set pseudo_names" "length names = 4"
    using m d mset_eq_imp_distinct_iff [OF m] mset_eq_setD [OF m] mset_eq_length [OF m] by simp_all
  have "\<exists>ps. try_map core_pseudo xs = Inr ps" if "set xs \<subseteq> set pseudo_names" for xs
    using that
  proof (induction xs)
    case (Cons x xs)
    then obtain p ps where "core_pseudo x = Inr p" "try_map core_pseudo xs = Inr ps"
      using core_pseudo_cases [of x] by auto
    then show ?case by simp
  qed simp
  then show "\<exists>ps. core_pseudo_order names = Inr ps"
    using names distinct_card [OF names(1)] by (simp add: core_pseudo_order_def dedup_length)
qed

text \<open>The settings the HTTP/2 configuration is meant to allow (RFC 9113, sections 6.5.2 and 6.9).\<close>

definition http2_config_ok :: "http2_config \<Rightarrow> bool" where
  "http2_config_ok cfg \<longleftrightarrow>
     (\<forall>n. hg_initial_window_size cfg = Some n \<longrightarrow> unat n < 2 ^ 31) \<and>
     (\<forall>n. hg_initial_connection_window_size cfg = Some n \<longrightarrow> 65535 \<le> unat n \<and> unat n < 2 ^ 31) \<and>
     (\<forall>n. hg_max_frame_size cfg = Some n \<longrightarrow> 2 ^ 14 \<le> unat n \<and> unat n < 2 ^ 24) \<and>
     (\<forall>names. hg_pseudo_order cfg = Some names \<longrightarrow> mset names = mset pseudo_names)"

lemma pseudo_order_Inl:
  "core_pseudo_order names = Inl e \<Longrightarrow> \<exists>m. e = invalid_config m"
  by (auto simp: core_pseudo_order_def core_pseudo_def dest!: try_map_Inl split: if_splits)

lemma http2_ranges:
  "n > (0x7fffffff :: u32) \<longleftrightarrow> \<not> unat n < 2 ^ 31"
  "65535 \<le> n \<and> n \<le> (0x7fffffff :: u32) \<longleftrightarrow> 65535 \<le> unat n \<and> unat n < 2 ^ 31"
  "16384 \<le> n \<and> n \<le> (16777215 :: u32) \<longleftrightarrow> 2 ^ 14 \<le> unat n \<and> unat n < 2 ^ 24"
  by (auto simp: word_less_nat_alt word_le_nat_alt)

lemma http2_overlay_sel [simp]:
  "h2_initial_window_size (http2_overlay cfg b) =
     (case hg_initial_window_size cfg of Some n \<Rightarrow> n | None \<Rightarrow> h2_initial_window_size b)"
  "h2_initial_conn_window_size (http2_overlay cfg b) =
     (case hg_initial_connection_window_size cfg of Some n \<Rightarrow> n | None \<Rightarrow> h2_initial_conn_window_size b)"
  "h2_max_frame_size (http2_overlay cfg b) = or_else (hg_max_frame_size cfg) (h2_max_frame_size b)"
  "h2_enable_push (http2_overlay cfg b) = or_else (hg_enable_push cfg) (h2_enable_push b)"
  "h2_headers_pseudo_order (http2_overlay cfg b) = h2_headers_pseudo_order b"
  by (simp_all add: http2_overlay_def Let_def or_else_def split: option.split)

definition http2_ranges_ok :: "http2_config \<Rightarrow> bool" where
  "http2_ranges_ok cfg \<longleftrightarrow>
     (\<forall>n. hg_initial_window_size cfg = Some n \<longrightarrow> unat n < 2 ^ 31) \<and>
     (\<forall>n. hg_initial_connection_window_size cfg = Some n \<longrightarrow> 65535 \<le> unat n \<and> unat n < 2 ^ 31) \<and>
     (\<forall>n. hg_max_frame_size cfg = Some n \<longrightarrow> 2 ^ 14 \<le> unat n \<and> unat n < 2 ^ 24)"

lemma http2_ranges_iff:
  "(case hg_initial_window_size cfg of Some n \<Rightarrow> n > 0x7fffffff | None \<Rightarrow> False) \<or>
   (case hg_initial_connection_window_size cfg of
      Some n \<Rightarrow> \<not> (65535 \<le> n \<and> n \<le> 0x7fffffff) | None \<Rightarrow> False) \<or>
   (case hg_max_frame_size cfg of Some n \<Rightarrow> \<not> (16384 \<le> n \<and> n \<le> 16777215) | None \<Rightarrow> False)
   \<longleftrightarrow> \<not> http2_ranges_ok cfg"
  unfolding http2_ranges_ok_def http2_ranges by (simp split: option.split)

lemma http2_apply_bad: "\<not> http2_ranges_ok cfg \<Longrightarrow> \<exists>m. http2_config_apply d cfg S base = Inl (invalid_config m)"
  unfolding http2_ranges_iff [symmetric] http2_config_apply_def by auto

lemma http2_apply_good:
  "http2_ranges_ok cfg \<Longrightarrow>
   http2_config_apply d cfg S base =
     (let opts = http2_overlay cfg (case base of Some b \<Rightarrow> b | None \<Rightarrow> d) in
      case hg_pseudo_order cfg of
        None \<Rightarrow> Inr (client_http2_options (Some opts) S)
      | Some names \<Rightarrow> map_sum id (\<lambda>ps. client_http2_options (Some (opts\<lparr>h2_headers_pseudo_order := Some ps\<rparr>)) S)
                        (core_pseudo_order names))"
  using http2_ranges_iff [of cfg] unfolding http2_config_apply_def Let_def
  by (simp split: option.split) (auto split: sum.splits simp: and_then_def)

lemma http2_config_ok_iff:
  "http2_config_ok cfg \<longleftrightarrow> http2_ranges_ok cfg \<and>
     (\<forall>names. hg_pseudo_order cfg = Some names \<longrightarrow> (\<exists>ps. core_pseudo_order names = Inr ps))"
  unfolding http2_config_ok_def http2_ranges_ok_def pseudo_order_iff by blast

text \<open>
  HTTP/2 settings are accepted exactly when the protocol allows them: stream windows below
  $2^{31}$, the connection window from 65535, frame sizes from $2^{14}$ to $2^{24}-1$, and each of the four pseudo headers
  exactly once. Accepted settings replace those of the profile one by one and change nothing else of
  the client; everything else is an INVALID_CONFIG error.
\<close>

lemma http2_settings_checked:
  "if http2_config_ok cfg
   then \<exists>o'. http2_config_apply d cfg S base = Inr (S\<lparr>st_http2_options := Some o'\<rparr>) \<and>
     (let b = (case base of Some b \<Rightarrow> b | None \<Rightarrow> d) in
      h2_initial_window_size o' =
        (case hg_initial_window_size cfg of Some n \<Rightarrow> n | None \<Rightarrow> h2_initial_window_size b) \<and>
      h2_initial_conn_window_size o' =
        (case hg_initial_connection_window_size cfg of Some n \<Rightarrow> n | None \<Rightarrow> h2_initial_conn_window_size b) \<and>
      h2_max_frame_size o' = or_else (hg_max_frame_size cfg) (h2_max_frame_size b) \<and>
      h2_enable_push o' = or_else (hg_enable_push cfg) (h2_enable_push b) \<and>
      (case hg_pseudo_order cfg of
         None \<Rightarrow> h2_headers_pseudo_order o' = h2_headers_pseudo_order b
       | Some names \<Rightarrow> map_sum id Some (core_pseudo_order names) = Inr (h2_headers_pseudo_order o')))
   else \<exists>m. http2_config_apply d cfg S base = Inl (invalid_config m)"
proof (cases "http2_ranges_ok cfg")
  case True
  then show ?thesis
  proof (cases "hg_pseudo_order cfg")
    case (Some names)
    with True show ?thesis
      by (cases "core_pseudo_order names")
        (auto simp: http2_apply_good http2_config_ok_iff client_http2_options_def Let_def dest: pseudo_order_Inl)
  qed (auto simp: http2_apply_good http2_config_ok_iff client_http2_options_def Let_def)
qed (simp add: http2_apply_bad http2_config_ok_iff)

text \<open>
  Only the two versions of the configuration are compared: over a profile whose minimum is TLS 1.2, a
  maximum of 1.1 is accepted and the options allow no version at all.
\<close>

definition empty_tls_config :: tls_config where
  "empty_tls_config = \<lparr>tg_min_version = None, tg_max_version = None, tg_alpn = None, tg_cipher_list = None,
     tg_curves_list = None, tg_sigalgs_list = None, tg_grease = None, tg_permute_extensions = None,
     tg_sni = None\<rparr>"

lemma profile_versions_unchecked:
  "\<exists>opts. tls_config_apply (empty_tls_config\<lparr>tg_max_version := Some ''1.1''\<rparr>) S
       (Some (tls_options_default\<lparr>min_tls_version := Some TLS_1_2\<rparr>))
     = Inr (client_tls_options (Some opts) S) \<and>
     min_tls_version opts = Some TLS_1_2 \<and> max_tls_version opts = Some TLS_1_1"
  by (rule exI [of _ "tls_options_default\<lparr>min_tls_version := Some TLS_1_2, max_tls_version := Some TLS_1_1\<rparr>"])
    (simp add: tls_config_apply_def empty_tls_config_def try_option_def core_version_def or_else_def Let_def)

section \<open>The code of a connection error\<close>

text \<open>
  C37. The code an application sees for a request that could not get a connection is decided by the causes: TIMEOUT if one of
  them timed out, else DNS if a name could not be resolved, else CONNECT, unless the failure was the proxy's
  and nothing below it was a connection error of its own: then REQUEST. It is never TLS, whatever went wrong.
\<close>

theorem connection_error_code:
  "core_code (pending_error u (box_client_error (client_error_new is_proxy_error Connect c :: ('h, std_error) client_error))) =
     (if list_ex timeout_node (c # sources c) then ''TIMEOUT''
      else if list_ex dns_node (c # sources c) then ''DNS''
      else if is_proxy_error c \<and> \<not> list_ex connect_node (c # sources c) then ''REQUEST''
      else ''CONNECT'')"
proof -
  let ?k = "if is_proxy_error c then ProxyConnect else Connect"
  let ?e = "pending_error u (box_client_error (client_error_new is_proxy_error Connect c :: ('h, std_error) client_error))"
  have box: "box_client_error (client_error_new is_proxy_error Connect c :: ('h, std_error) client_error) = EClient ?k (Some c)"
    by (simp add: client_error_new_def)
  have s: "sources ?e = EClient ?k (Some c) # c # sources c"
    unfolding box by (subst sources_pending) simp_all
  have kind: "err_kind ?e = Some KRequestError"
    unfolding box by (simp add: pending_error_def Let_def err_request_def error_new_def)
  show ?thesis
    unfolding core_code_def err_is_timeout_def err_is_dns_def err_is_connect_def err_is_builder_def err_is_tls_def kind s
    by simp
qed

end
