(* ===== verification/Multipart.thy ===== *)
theory Multipart
  imports Http_Types Errors
begin

text \<open>
  Multipart forms (\<open>src/src/client/multipart.rs\<close>): the parts and their headers, the stream
  that is sent, its length computed in advance, and the generated boundary. Percent-encoding, MIME
  types and files are the libraries'; a streaming body is known by the chunks it will yield.
\<close>

unbundle bit_operations_syntax

section \<open>Data\<close>

text \<open>
  What the percent-encoding crate provides: the encoded text, and whether it is returned as an owned
  string.
\<close>

record percent_lib =
  pl_controls :: "char \<Rightarrow> bool"
  pl_non_alphanumeric :: "char \<Rightarrow> bool"
  pl_encode :: "(char \<Rightarrow> bool) \<Rightarrow> string \<Rightarrow> string"
  pl_owned :: "(char \<Rightarrow> bool) \<Rightarrow> string \<Rightarrow> bool"

datatype percent_encoding = PathSegment | AttrChar | NoOp

record 'h part_metadata =
  pm_mime :: "string option"
  pm_file_name :: "string option"
  pm_headers :: 'h

record ('h, 'bd) part =
  pt_meta :: "'h part_metadata"
  pt_value :: "'bd body"
  pt_body_length :: "u64 option"

record ('h, 'bd) form =
  fm_boundary :: string
  fm_computed_headers :: "string list"
  fm_fields :: "(string \<times> ('h, 'bd) part) list"
  fm_percent_encoding :: percent_encoding

section \<open>Part metadata and parts\<close>

definition part_metadata_new :: "'h header_ops \<Rightarrow> 'h part_metadata" where
  "part_metadata_new H = \<lparr>pm_mime = None, pm_file_name = None, pm_headers = h_new H\<rparr>"

definition metadata_mime :: "string \<Rightarrow> 'h part_metadata \<Rightarrow> 'h part_metadata" where
  "metadata_mime m md = md\<lparr>pm_mime := Some m\<rparr>"

definition metadata_file_name :: "string \<Rightarrow> 'h part_metadata \<Rightarrow> 'h part_metadata" where
  "metadata_file_name f md = md\<lparr>pm_file_name := Some f\<rparr>"

definition metadata_headers :: "'h \<Rightarrow> 'h part_metadata \<Rightarrow> 'h part_metadata" where
  "metadata_headers h md = md\<lparr>pm_headers := h\<rparr>"

definition part_new :: "'h header_ops \<Rightarrow> 'bd body \<Rightarrow> u64 option \<Rightarrow> ('h, 'bd) part" where
  "part_new H b n = \<lparr>pt_meta = part_metadata_new H, pt_value = b, pt_body_length = n\<rparr>"

definition part_text :: "'h header_ops \<Rightarrow> string \<Rightarrow> ('h, 'bd) part" where
  "part_text H s = part_new H (Reusable s) None"

definition part_bytes :: "'h header_ops \<Rightarrow> string \<Rightarrow> ('h, 'bd) part" where
  "part_bytes H s = part_new H (Reusable s) None"

definition part_of_stream :: "'h header_ops \<Rightarrow> 'bd body \<Rightarrow> ('h, 'bd) part" where
  "part_of_stream H b = part_new H b None"

definition part_stream_with_length :: "'h header_ops \<Rightarrow> 'bd body \<Rightarrow> u64 \<Rightarrow> ('h, 'bd) part" where
  "part_stream_with_length H b n = part_new H b (Some n)"

definition with_inner :: "('h part_metadata \<Rightarrow> 'h part_metadata) \<Rightarrow> ('h, 'bd) part \<Rightarrow> ('h, 'bd) part" where
  "with_inner f p = p\<lparr>pt_meta := f (pt_meta p)\<rparr>"

definition part_mime :: "string \<Rightarrow> ('h, 'bd) part \<Rightarrow> ('h, 'bd) part" where
  "part_mime m = with_inner (metadata_mime m)"

text \<open>\<open>parse\<close> is the MIME parser.\<close>

definition part_mime_str ::
    "(string \<Rightarrow> std_error + string) \<Rightarrow> string \<Rightarrow> ('h, 'bd) part \<Rightarrow> std_error + ('h, 'bd) part" where
  "part_mime_str parse m p = and_then (map_sum err_builder id (parse m)) (\<lambda>m. Inr (part_mime m p))"

definition part_file_name :: "string \<Rightarrow> ('h, 'bd) part \<Rightarrow> ('h, 'bd) part" where
  "part_file_name f = with_inner (metadata_file_name f)"

definition part_headers :: "'h \<Rightarrow> ('h, 'bd) part \<Rightarrow> ('h, 'bd) part" where
  "part_headers h = with_inner (metadata_headers h)"

text \<open>
  A part from a file: the last component of the path, the type guessed from its extension, and
  the opened file with the size in its metadata, if it can be read.
\<close>

record 'bd file_env =
  fe_file_name :: "string \<Rightarrow> string option"
  fe_guess_mime :: "string \<Rightarrow> string"
  fe_open :: "string \<Rightarrow> std_error + 'bd body \<times> u64 option"

definition part_file :: "'h header_ops \<Rightarrow> 'bd file_env \<Rightarrow> string \<Rightarrow> std_error + ('h, 'bd) part" where
  "part_file H F p =
     and_then (fe_open F p) (\<lambda>(file, len).
       let field = part_mime (fe_guess_mime F p)
             (case len of Some n \<Rightarrow> part_stream_with_length H file n | None \<Rightarrow> part_of_stream H file)
       in Inr (case fe_file_name F p of Some f \<Rightarrow> part_file_name f field | None \<Rightarrow> field))"

definition value_len :: "('h, 'bd) part \<Rightarrow> u64 option" where
  "value_len p =
     (if pt_body_length p \<noteq> None then pt_body_length p
      else map_option of_nat (body_exact (pt_value p)))"

section \<open>Headers of a part\<close>

abbreviation cr :: char where "cr \<equiv> CHR 0x0D"
abbreviation lf :: char where "lf \<equiv> CHR 0x0A"
abbreviation backslash :: char where "backslash \<equiv> CHR 0x5C"

definition crlf :: string where
  "crlf = [cr, lf]"

definition FRAGMENT_ENCODE_SET :: "percent_lib \<Rightarrow> char \<Rightarrow> bool" where
  "FRAGMENT_ENCODE_SET P c \<longleftrightarrow> pl_controls P c \<or> c \<in> set '' \"<>`''"

definition PATH_ENCODE_SET :: "percent_lib \<Rightarrow> char \<Rightarrow> bool" where
  "PATH_ENCODE_SET P c \<longleftrightarrow> FRAGMENT_ENCODE_SET P c \<or> c \<in> set ''#?{}''"

definition PATH_SEGMENT_ENCODE_SET :: "percent_lib \<Rightarrow> char \<Rightarrow> bool" where
  "PATH_SEGMENT_ENCODE_SET P c \<longleftrightarrow> PATH_ENCODE_SET P c \<or> c \<in> set ''/%''"

definition ATTR_CHAR_ENCODE_SET :: "percent_lib \<Rightarrow> char \<Rightarrow> bool" where
  "ATTR_CHAR_ENCODE_SET P c \<longleftrightarrow> pl_non_alphanumeric P c \<and> c \<notin> set ''!#$&+-.^_`|~''"

text \<open>The text and whether it is owned.\<close>

definition form_percent_encode :: "percent_lib \<Rightarrow> percent_encoding \<Rightarrow> string \<Rightarrow> string \<times> bool" where
  "form_percent_encode P enc s =
     (case enc of
        PathSegment \<Rightarrow> (pl_encode P (PATH_SEGMENT_ENCODE_SET P) s, pl_owned P (PATH_SEGMENT_ENCODE_SET P) s)
      | AttrChar \<Rightarrow> (pl_encode P (ATTR_CHAR_ENCODE_SET P) s, pl_owned P (ATTR_CHAR_ENCODE_SET P) s)
      | NoOp \<Rightarrow> (s, False))"

text \<open>\<open>str::replace\<close> of one character.\<close>

definition replace_char :: "char \<Rightarrow> string \<Rightarrow> string \<Rightarrow> string" where
  "replace_char c t s = concat (map (\<lambda>x. if x = c then t else [x]) s)"

definition legal_filename :: "string \<Rightarrow> string" where
  "legal_filename f =
     replace_char lf [backslash, lf]
      (replace_char cr [backslash, cr]
        (replace_char CHR 0x22 [backslash, CHR 0x22]
          (replace_char backslash [backslash, backslash] f)))"

definition name_param :: "string \<times> bool \<Rightarrow> string" where
  "name_param v =
     (if snd v then ''name*=utf-8'' @ [CHR 0x27, CHR 0x27] @ fst v
      else ''name='' @ [CHR 0x22] @ fst v @ [CHR 0x22])"

definition encode_headers ::
    "percent_lib \<Rightarrow> 'h header_ops \<Rightarrow> percent_encoding \<Rightarrow> string \<Rightarrow> 'h part_metadata \<Rightarrow> string" where
  "encode_headers P H enc name field =
     ''Content-Disposition: form-data; '' @ name_param (form_percent_encode P enc name) @
     (case pm_file_name field of
        Some f \<Rightarrow> ''; filename='' @ [CHR 0x22] @ legal_filename f @ [CHR 0x22]
      | None \<Rightarrow> []) @
     (case pm_mime field of Some m \<Rightarrow> crlf @ ''Content-Type: '' @ m | None \<Rightarrow> []) @
     concat (map (\<lambda>(k, v). crlf @ k @ '': '' @ hv_bytes v) (h_iter H (pm_headers field)))"

section \<open>Forms\<close>

text \<open>\<open>random\<close> draws the two words of the boundary.\<close>

definition boundary_map :: string where
  "boundary_map = ''ABCDEFGHIJKLMNOPQRSTUVWXYZabcdefghijklmnopqrstuvwxyz0123456789AB''"

fun boundary_word :: "nat \<Rightarrow> u64 \<Rightarrow> string" where
  "boundary_word 0 r = []"
| "boundary_word (Suc n) r = (boundary_map ! unat (r AND 0x3F)) # boundary_word n (drop_bit 6 r)"

definition gen_boundary :: "u64 \<Rightarrow> u64 \<Rightarrow> string" where
  "gen_boundary r1 r2 = ''----WebKitFormBoundary'' @ boundary_word 8 r1 @ boundary_word 8 r2"

definition form_with_boundary :: "string \<Rightarrow> ('h, 'bd) form" where
  "form_with_boundary b =
     \<lparr>fm_boundary = b, fm_computed_headers = [], fm_fields = [], fm_percent_encoding = PathSegment\<rparr>"

definition form_new :: "u64 \<Rightarrow> u64 \<Rightarrow> ('h, 'bd) form" where
  "form_new r1 r2 = form_with_boundary (gen_boundary r1 r2)"

definition form_part :: "string \<Rightarrow> ('h, 'bd) part \<Rightarrow> ('h, 'bd) form \<Rightarrow> ('h, 'bd) form" where
  "form_part name p fm = fm\<lparr>fm_fields := fm_fields fm @ [(name, p)]\<rparr>"

definition form_text :: "'h header_ops \<Rightarrow> string \<Rightarrow> string \<Rightarrow> ('h, 'bd) form \<Rightarrow> ('h, 'bd) form" where
  "form_text H name s = form_part name (part_text H s)"

definition form_file ::
    "'h header_ops \<Rightarrow> 'bd file_env \<Rightarrow> string \<Rightarrow> string \<Rightarrow> ('h, 'bd) form \<Rightarrow> std_error + ('h, 'bd) form" where
  "form_file H F name p fm = and_then (part_file H F p) (\<lambda>part. Inr (form_part name part fm))"

definition percent_encode_path_segment :: "('h, 'bd) form \<Rightarrow> ('h, 'bd) form" where
  "percent_encode_path_segment fm = fm\<lparr>fm_percent_encoding := PathSegment\<rparr>"

definition percent_encode_attr_chars :: "('h, 'bd) form \<Rightarrow> ('h, 'bd) form" where
  "percent_encode_attr_chars fm = fm\<lparr>fm_percent_encoding := AttrChar\<rparr>"

definition percent_encode_noop :: "('h, 'bd) form \<Rightarrow> ('h, 'bd) form" where
  "percent_encode_noop fm = fm\<lparr>fm_percent_encoding := NoOp\<rparr>"

text \<open>
  \<open>into_data_stream\<close>: bytes are one chunk (none when empty); \<open>data\<close> gives what a stream yields.
\<close>

fun body_chunks :: "('bd \<Rightarrow> (std_error + string) list) \<Rightarrow> 'bd body \<Rightarrow> (std_error + string) list" where
  "body_chunks data (Reusable bytes) = (if bytes = [] then [] else [Inr bytes])"
| "body_chunks data (Streaming hint s) = data s"

definition part_stream ::
    "percent_lib \<Rightarrow> 'h header_ops \<Rightarrow> ('bd \<Rightarrow> (std_error + string) list) \<Rightarrow> ('h, 'bd) form \<Rightarrow>
     string \<times> ('h, 'bd) part \<Rightarrow> (std_error + string) list" where
  "part_stream P H data fm = (\<lambda>(name, p).
     [Inr (''--'' @ fm_boundary fm @ crlf)] @
     [Inr (encode_headers P H (fm_percent_encoding fm) name (pt_meta p) @ crlf @ crlf)] @
     body_chunks data (pt_value p) @
     [Inr crlf])"

definition form_into_stream ::
    "percent_lib \<Rightarrow> 'h header_ops \<Rightarrow> ('bd \<Rightarrow> (std_error + string) list) \<Rightarrow> ('h, 'bd) form \<Rightarrow> (std_error + string) list" where
  "form_into_stream P H data fm =
     (case fm_fields fm of
        [] \<Rightarrow> []
      | first # rest \<Rightarrow>
          foldl (\<lambda>memo f. memo @ part_stream P H data fm f) (part_stream P H data fm first) rest @
          [Inr (''--'' @ fm_boundary fm @ ''--'' @ crlf)])"

text \<open>\<open>wrap\<close> boxes a stream of chunks as a body.\<close>

definition form_stream ::
    "percent_lib \<Rightarrow> 'h header_ops \<Rightarrow> ('bd \<Rightarrow> (std_error + string) list) \<Rightarrow> ((std_error + string) list \<Rightarrow> 'bd) \<Rightarrow>
     ('h, 'bd) form \<Rightarrow> 'bd body" where
  "form_stream P H data wrap fm =
     (if fm_fields fm = [] then body_default else Streaming None (wrap (form_into_stream P H data fm)))"

text \<open>The loop of \<open>compute_length\<close>: the sum so far, and the headers cached.\<close>

fun length_loop ::
    "percent_lib \<Rightarrow> 'h header_ops \<Rightarrow> ('h, 'bd) form \<Rightarrow> u64 \<Rightarrow> string list \<Rightarrow> (string \<times> ('h, 'bd) part) list \<Rightarrow>
     u64 option \<times> string list" where
  "length_loop P H fm n hs [] = (Some n, hs)"
| "length_loop P H fm n hs ((name, field) # rest) =
     (case value_len field of
        Some value_length \<Rightarrow>
          (let header = encode_headers P H (fm_percent_encoding fm) name (pt_meta field)
           in length_loop P H fm
                (n + (2 + of_nat (length (fm_boundary fm)) + 2 + of_nat (length header) + 4 + value_length + 2))
                (hs @ [header]) rest)
      | None \<Rightarrow> (None, hs))"

definition compute_length ::
    "percent_lib \<Rightarrow> 'h header_ops \<Rightarrow> ('h, 'bd) form \<Rightarrow> u64 option \<times> ('h, 'bd) form" where
  "compute_length P H fm =
     (case length_loop P H fm 0 (fm_computed_headers fm) (fm_fields fm) of
        (n, hs) \<Rightarrow>
          (map_option (\<lambda>n. if fm_fields fm \<noteq> [] then n + (2 + of_nat (length (fm_boundary fm)) + 4) else n) n,
           fm\<lparr>fm_computed_headers := hs\<rparr>))"

section \<open>The length computed in advance\<close>

text \<open>A stream that ends well yields these bytes.\<close>

definition streamed :: "(std_error + string) list \<Rightarrow> string \<Rightarrow> bool" where
  "streamed chunks bytes \<longleftrightarrow> (\<exists>bs. chunks = map Inr bs \<and> bytes = concat bs)"

lemma streamed_simps [simp]:
  "streamed [] bytes \<longleftrightarrow> bytes = []"
  "streamed [Inr b] bytes \<longleftrightarrow> bytes = b"
  by (auto simp: streamed_def map_eq_Cons_conv Cons_eq_map_conv)

lemma streamed_append: "streamed xs a \<Longrightarrow> streamed ys b \<Longrightarrow> streamed (xs @ ys) (a @ b)"
  by (auto simp: streamed_def) (metis concat_append map_append)

lemma streamed_concat:
  "list_all2 (\<lambda>xs b. streamed xs b) xss bs \<Longrightarrow> streamed (concat xss) (concat bs)"
  by (induction rule: list_all2_induct) (auto intro: streamed_append)

lemma foldl_append: "foldl (\<lambda>memo x. memo @ g x) a xs = a @ concat (map g xs)"
  by (induction xs arbitrary: a) auto

lemma form_into_stream_eq:
  "form_into_stream P H data fm =
     (if fm_fields fm = [] then []
      else concat (map (part_stream P H data fm) (fm_fields fm)) @ [Inr (''--'' @ fm_boundary fm @ ''--'' @ crlf)])"
  by (auto simp: form_into_stream_def foldl_append split: list.split)

text \<open>A part whose length is known streams exactly that many bytes.\<close>

definition part_honest :: "('bd \<Rightarrow> (std_error + string) list) \<Rightarrow> ('h, 'bd) part \<Rightarrow> bool" where
  "part_honest data p \<longleftrightarrow>
     (\<forall>n. value_len p = Some n \<longrightarrow> (\<exists>bytes. streamed (body_chunks data (pt_value p)) bytes \<and> n = of_nat (length bytes)))"

lemma part_honest_bytes: "pt_value p = Reusable b \<Longrightarrow> pt_body_length p = None \<Longrightarrow> part_honest data p"
  by (auto simp: part_honest_def value_len_def)

lemma part_stream_streamed:
  assumes "streamed (body_chunks data (pt_value p)) bytes"
  shows "streamed (part_stream P H data fm (name, p))
     (''--'' @ fm_boundary fm @ crlf @ encode_headers P H (fm_percent_encoding fm) name (pt_meta p) @
      crlf @ crlf @ bytes @ crlf)"
proof -
  have "streamed (part_stream P H data fm (name, p))
     ((''--'' @ fm_boundary fm @ crlf) @ (encode_headers P H (fm_percent_encoding fm) name (pt_meta p) @ crlf @ crlf) @
      bytes @ crlf)"
    unfolding part_stream_def prod.case by (intro streamed_append assms) simp_all
  then show ?thesis by simp
qed

lemma length_crlf [simp]: "length crlf = 2"
  by (simp add: crlf_def)

lemma length_loop_parts:
  assumes "length_loop P H fm n hs flds = (Some m, hs')" and "\<forall>(name, p) \<in> set flds. part_honest data p"
  shows "\<exists>bytes. streamed (concat (map (part_stream P H data fm) flds)) bytes \<and> m = n + of_nat (length bytes)"
  using assms
proof (induction P H fm n hs flds rule: length_loop.induct)
  case (2 P H fm n hs name p rest)
  then obtain l where l: "value_len p = Some l" by (auto split: option.splits)
  then obtain bytes where b: "streamed (body_chunks data (pt_value p)) bytes" "l = of_nat (length bytes)"
    using "2.prems"(2) by (auto simp: part_honest_def)
  let ?h = "encode_headers P H (fm_percent_encoding fm) name (pt_meta p)"
  obtain bs where bs: "streamed (concat (map (part_stream P H data fm) rest)) bs"
    and m: "m = n + (2 + of_nat (length (fm_boundary fm)) + 2 + of_nat (length ?h) + 4 + l + 2) + of_nat (length bs)"
    using 2 l by (auto simp: Let_def)
  let ?bytes = "(''--'' @ fm_boundary fm @ crlf @ ?h @ crlf @ crlf @ bytes @ crlf) @ bs"
  have "streamed (concat (map (part_stream P H data fm) ((name, p) # rest))) ?bytes"
    using streamed_append [OF part_stream_streamed [OF b(1)] bs] by simp
  moreover have "m = n + of_nat (length ?bytes)"
    by (simp add: m b(2) algebra_simps)
  ultimately show ?case by blast
qed (auto simp: streamed_def)

text \<open>
  The Content-Length computed for a form is the length of what the form then streams: boundaries,
  part headers, separators and bodies add up (as 64-bit numbers), whenever every part of known
  length yields that many bytes; and the stream ends without an error.
\<close>

lemma form_length_exact:
  assumes "fst (compute_length P H fm) = Some n" and "\<forall>(name, p) \<in> set (fm_fields fm). part_honest data p"
  shows "\<exists>bytes. streamed (form_into_stream P H data fm) bytes \<and> n = of_nat (length bytes)"
proof -
  obtain m hs where m: "length_loop P H fm 0 (fm_computed_headers fm) (fm_fields fm) = (Some m, hs)"
    using assms(1) by (cases "length_loop P H fm 0 (fm_computed_headers fm) (fm_fields fm)")
      (auto simp: compute_length_def)
  obtain bs where bs: "streamed (concat (map (part_stream P H data fm) (fm_fields fm))) bs" "m = of_nat (length bs)"
    using length_loop_parts [OF m assms(2)] by auto
  show ?thesis
  proof (cases "fm_fields fm = []")
    case True
    with assms(1) show ?thesis by (simp add: compute_length_def form_into_stream_eq)
  next
    case False
    then have "streamed (form_into_stream P H data fm) (bs @ ''--'' @ fm_boundary fm @ ''--'' @ crlf)"
      unfolding form_into_stream_eq using streamed_append [OF bs(1)] by simp
    moreover have "n = of_nat (length (bs @ ''--'' @ fm_boundary fm @ ''--'' @ crlf))"
      using assms(1) m bs(2) False by (simp add: compute_length_def algebra_simps)
    ultimately show ?thesis by blast
  qed
qed

text \<open>A form with a text part and a stream of declared length.\<close>

definition sample_percent :: percent_lib where
  "sample_percent =
     \<lparr>pl_controls = (\<lambda>c. of_char c < (32 :: nat) \<or> of_char c = (127 :: nat)),
      pl_non_alphanumeric = (\<lambda>c. c \<notin> set boundary_map),
      pl_encode = (\<lambda>S s. concat (map (\<lambda>c. if S c \<or> 128 \<le> (of_char c :: nat) then ''%25'' else [c]) s)),
      pl_owned = (\<lambda>S s. \<exists>c \<in> set s. S c)\<rparr>"

definition sample_form :: "((string \<times> hvalue list) list, string) form" where
  "sample_form =
     form_part ''f'' (part_file_name ''a.txt'' (part_stream_with_length list_headers (Streaming None ''xyz'') 3))
       (form_text list_headers ''a'' ''b'' (form_with_boundary ''B''))"

lemma form_length_exact_witness:
  "\<exists>n bytes. fst (compute_length sample_percent list_headers sample_form) = Some n \<and>
     streamed (form_into_stream sample_percent list_headers (\<lambda>x. [Inr x]) sample_form) bytes \<and>
     n = of_nat (length bytes)"
proof -
  have "fst (compute_length sample_percent list_headers sample_form) \<noteq> None"
    by (simp add: compute_length_def sample_form_def form_part_def form_text_def form_with_boundary_def
        part_text_def part_new_def part_stream_with_length_def part_file_name_def with_inner_def value_len_def
        Let_def)
  then obtain n where n: "fst (compute_length sample_percent list_headers sample_form) = Some n"
    by blast
  have "\<forall>(name, p) \<in> set (fm_fields sample_form). part_honest (\<lambda>x. [Inr x]) p"
    by (simp add: sample_form_def form_part_def form_text_def form_with_boundary_def
        part_text_def part_new_def part_stream_with_length_def part_file_name_def with_inner_def value_len_def
        part_honest_def)
  from form_length_exact [OF n this] n show ?thesis by blast
qed

section \<open>What a part's headers keep apart\<close>

text \<open>What is kept by \<open>legal_filename\<close>, character by character.\<close>

definition quote_char :: "char \<Rightarrow> string" where
  "quote_char c = (if c \<in> {backslash, CHR 0x22, cr, lf} then [backslash, c] else [c])"

lemma legal_filename_map: "legal_filename f = concat (map quote_char f)"
  by (induction f) (simp_all add: legal_filename_def replace_char_def quote_char_def)

text \<open>The reader of a quoted string: up to the first quote that is not escaped, without the escapes.\<close>

fun read_quoted :: "string \<Rightarrow> (string \<times> string) option" where
  "read_quoted [] = None"
| "read_quoted (c # s) =
     (if c = CHR 0x22 then Some ([], s)
      else if c = backslash
      then (case s of [] \<Rightarrow> None | d # s \<Rightarrow> map_option (\<lambda>(v, r). (d # v, r)) (read_quoted s))
      else map_option (\<lambda>(v, r). (c # v, r)) (read_quoted s))"

lemma read_quoted_legal: "read_quoted (legal_filename f @ CHR 0x22 # rest) = Some (f, rest)"
  by (induction f) (simp_all add: legal_filename_map quote_char_def)

definition no_crlf :: "string \<Rightarrow> bool" where
  "no_crlf s \<longleftrightarrow> \<not> sublist crlf s"

lemma no_crlf_Nil [simp]: "no_crlf []"
  by (simp add: no_crlf_def crlf_def)

lemma no_crlf_Cons: "no_crlf (c # s) \<longleftrightarrow> no_crlf s \<and> \<not> (c = cr \<and> s \<noteq> [] \<and> hd s = lf)"
  by (cases s) (auto simp: no_crlf_def crlf_def sublist_Cons_right)

lemma no_crlf_append: "no_crlf (a @ b) \<longleftrightarrow> no_crlf a \<and> no_crlf b \<and> \<not> (a \<noteq> [] \<and> b \<noteq> [] \<and> last a = cr \<and> hd b = lf)"
  by (induction a) (auto simp: no_crlf_Cons)

lemma no_crlf_without: "cr \<notin> set s \<Longrightarrow> no_crlf s"
  by (induction s) (auto simp: no_crlf_Cons)

lemma hd_quote: "hd (quote_char c @ s) \<noteq> lf"
  by (simp add: quote_char_def)

lemma legal_filename_no_crlf: "no_crlf (legal_filename f) \<and> (legal_filename f = [] \<or> hd (legal_filename f) \<noteq> lf)"
proof (induction f)
  case (Cons c f)
  then show ?case
    by (auto simp: legal_filename_map quote_char_def no_crlf_Cons no_crlf_append)
qed (simp add: legal_filename_map)

text \<open>
  What the percent-encoding crate promises: the output has only hexadecimal escapes and the ASCII
  characters of the input outside the set; the predefined sets hold the control characters.
\<close>

definition percent_laws :: "percent_lib \<Rightarrow> bool" where
  "percent_laws P \<longleftrightarrow>
     (\<forall>S s. \<forall>c \<in> set (pl_encode P S s). c \<in> set ''%0123456789ABCDEF'' \<or> \<not> S c) \<and>
     pl_controls P cr \<and> pl_controls P lf \<and>
     pl_non_alphanumeric P cr \<and> pl_non_alphanumeric P lf \<and> pl_non_alphanumeric P CHR 0x22"

lemma form_percent_encode_clean:
  assumes "percent_laws P" and "enc \<noteq> NoOp"
  shows "cr \<notin> set (fst (form_percent_encode P enc name)) \<and> CHR 0x22 \<notin> set (fst (form_percent_encode P enc name))"
proof -
  define S where "S = (if enc = PathSegment then PATH_SEGMENT_ENCODE_SET P else ATTR_CHAR_ENCODE_SET P)"
  have f: "fst (form_percent_encode P enc name) = pl_encode P S name"
    using assms(2) by (cases enc) (simp_all add: form_percent_encode_def S_def)
  have "S cr" "S CHR 0x22"
    using assms by (simp_all add: S_def percent_laws_def PATH_SEGMENT_ENCODE_SET_def PATH_ENCODE_SET_def
        FRAGMENT_ENCODE_SET_def ATTR_CHAR_ENCODE_SET_def)
  moreover have "c \<in> set ''%0123456789ABCDEF'' \<or> \<not> S c" if "c \<in> set (pl_encode P S name)" for c
    using assms(1) that unfolding percent_laws_def by blast
  moreover have "cr \<notin> set ''%0123456789ABCDEF''" "CHR 0x22 \<notin> set ''%0123456789ABCDEF''"
    by simp_all
  ultimately show ?thesis
    unfolding f by blast
qed

definition disposition :: "percent_lib \<Rightarrow> percent_encoding \<Rightarrow> string \<Rightarrow> 'h part_metadata \<Rightarrow> string" where
  "disposition P enc name field =
     ''Content-Disposition: form-data; '' @ name_param (form_percent_encode P enc name) @
     (case pm_file_name field of
        Some f \<Rightarrow> ''; filename='' @ [CHR 0x22] @ legal_filename f @ [CHR 0x22]
      | None \<Rightarrow> [])"

lemma no_crlf_end: "no_crlf s \<Longrightarrow> c \<noteq> lf \<Longrightarrow> no_crlf (s @ [c])"
  by (simp add: no_crlf_append no_crlf_Cons)

text \<open>
  Whatever the name of a field and whatever the file name, the part's first header is one line: it has
  no line break before the next header, a reader of quoted strings gets the file
  name back exactly, and a name that is sent quoted cannot close its quotes.
\<close>

lemma part_header_intact:
  assumes "percent_laws P" and "enc \<noteq> NoOp"
  shows "\<exists>disp. encode_headers P H enc name field =
       disp @ (case pm_mime field of Some m \<Rightarrow> crlf @ ''Content-Type: '' @ m | None \<Rightarrow> []) @
       concat (map (\<lambda>(k, v). crlf @ k @ '': '' @ hv_bytes v) (h_iter H (pm_headers field))) \<and>
     \<not> sublist crlf disp \<and>
     CHR 0x22 \<notin> set (fst (form_percent_encode P enc name)) \<and>
     (case pm_file_name field of
        Some f \<Rightarrow> \<exists>pre q. disp = pre @ ''; filename='' @ CHR 0x22 # q \<and> read_quoted q = Some (f, [])
      | None \<Rightarrow> True)"
proof (intro exI conjI)
  let ?d = "disposition P enc name field"
  show "encode_headers P H enc name field =
       ?d @ (case pm_mime field of Some m \<Rightarrow> crlf @ ''Content-Type: '' @ m | None \<Rightarrow> []) @
       concat (map (\<lambda>(k, v). crlf @ k @ '': '' @ hv_bytes v) (h_iter H (pm_headers field)))"
    by (simp add: encode_headers_def disposition_def)
  note clean = form_percent_encode_clean [OF assms, of name]
  then show "CHR 0x22 \<notin> set (fst (form_percent_encode P enc name))" by blast
  have "cr \<notin> set (''Content-Disposition: form-data; '' @ name_param (form_percent_encode P enc name))"
    using clean by (simp add: name_param_def)
  moreover have "no_crlf (legal_filename f)" for f
    using legal_filename_no_crlf by blast
  ultimately show "\<not> sublist crlf ?d"
    unfolding no_crlf_def [symmetric] disposition_def
    by (auto simp: no_crlf_append no_crlf_Cons intro: no_crlf_without split: option.split)
  show "case pm_file_name field of
        Some f \<Rightarrow> \<exists>pre q. ?d = pre @ ''; filename='' @ CHR 0x22 # q \<and> read_quoted q = Some (f, [])
      | None \<Rightarrow> True"
  proof (cases "pm_file_name field")
    case (Some f)
    then have "?d = (''Content-Disposition: form-data; '' @ name_param (form_percent_encode P enc name)) @
        ''; filename='' @ CHR 0x22 # (legal_filename f @ CHR 0x22 # [])"
      by (simp add: disposition_def)
    with read_quoted_legal [of f "[]"] show ?thesis
      unfolding Some option.case by blast
  qed simp
qed

lemma sample_percent_laws: "percent_laws sample_percent"
proof -
  have "c \<in> set ''%0123456789ABCDEF'' \<or> \<not> S c" if "c \<in> set (pl_encode sample_percent S s)" for S s c
    using that by (auto simp: sample_percent_def split: if_splits)
  moreover have "pl_controls sample_percent cr" "pl_controls sample_percent lf"
    "pl_non_alphanumeric sample_percent cr" "pl_non_alphanumeric sample_percent lf"
    "pl_non_alphanumeric sample_percent CHR 0x22"
    by (simp_all add: sample_percent_def boundary_map_def)
  ultimately show ?thesis
    unfolding percent_laws_def by blast
qed

lemma part_header_intact_witness:
  "\<exists>disp pre q. encode_headers sample_percent list_headers PathSegment ''a'' 
       (metadata_file_name [cr, lf, CHR 0x22] (part_metadata_new list_headers)) = disp \<and>
     \<not> sublist crlf disp \<and> disp = pre @ ''; filename='' @ CHR 0x22 # q \<and>
     read_quoted q = Some ([cr, lf, CHR 0x22], [])"
  using part_header_intact [OF sample_percent_laws, of PathSegment list_headers "''a''"
      "metadata_file_name [cr, lf, CHR 0x22] (part_metadata_new list_headers)"]
  by (simp add: metadata_file_name_def part_metadata_new_def list_headers_def h_iter_def)

text \<open>
  A line feed of a file name is escaped with a backslash and still sent as a line feed, so a reader
  that ends a header line at a bare line feed sees the rest of the file name as headers.
\<close>

lemma filename_keeps_line_feed: "lf \<in> set (legal_filename (lf # ''X: y''))"
  by (simp add: legal_filename_map quote_char_def)

section \<open>The generated boundary\<close>

lemma boundary_index: "unat (r AND 0x3F :: u64) < 64"
proof -
  have "r AND 0x3F \<le> 0x3F" by (rule word_and_le1)
  then show ?thesis by (simp add: word_le_nat_alt)
qed

lemma boundary_word_chars: "set (boundary_word n r) \<subseteq> set boundary_map"
proof (induction n arbitrary: r)
  case (Suc n)
  have "length boundary_map = 64" by (simp add: boundary_map_def)
  then show ?case using Suc boundary_index by (auto intro!: nth_mem)
qed simp

lemma length_boundary_word [simp]: "length (boundary_word n r) = n"
  by (induction n arbitrary: r) simp_all

text \<open>The assertion of the code holds, and the boundary needs no quotes in a header.\<close>

lemma gen_boundary_ok: "length (gen_boundary r1 r2) = 38 \<and> set (gen_boundary r1 r2) \<subseteq> set (CHR ''-'' # boundary_map)"
proof -
  have "set (''----WebKitFormBoundary'' :: string) \<subseteq> set (CHR ''-'' # boundary_map)"
    by (simp add: boundary_map_def)
  then show ?thesis
    using boundary_word_chars [of 8] by (auto simp: gen_boundary_def)
qed

end
