(* ===== verification/Request_Builder.thy ===== *)
theory Request_Builder
  imports Client_Builder Multipart
begin

text \<open>
  Requests and their builder (\<open>src/src/client/request.rs\<close>, and \<open>Client::request\<close> of
  \<open>src/src/client.rs\<close>). A request is what the configuration layer reads, with its body and the
  extensions of the other layers; a builder holds a client and a request, or the first error.
  Conversions into header names and values, serializers and percent-decoding are the libraries'.
\<close>

section \<open>Requests\<close>

text \<open>The options of a request, with those of the two protocols.\<close>

record ('p, 'b, 't) full_options = "('p, 'b, 't) request_options" +
  ro_http1_options :: "http1_options option"
  ro_http2_options :: "http2_options option"

type_synonym ('h, 'n) api_options = "(('h, 'n) matcher, bind_options, tls_options) full_options"

definition api_options_default :: "('h, 'n) api_options" where
  "api_options_default =
     \<lparr>ro_group = group_default, ro_proxy = None, ro_version = None, ro_tls_options = None,
      ro_socket_bind = None, ro_http1_options = None, ro_http2_options = None\<rparr>"

record ('h, 'm, 'n, 'bd) api_request = "('h, 'm) config_request" +
  ar_body :: "'bd body option"
  ar_options :: "('h, 'n) api_options slot"
  ar_timeout :: "timeout_options slot"
  ar_redirect :: "'h policy_kind slot"
  ar_cookies :: "nat slot"
  ar_accept :: "accept_encoding slot"

definition request_new :: "'h header_ops \<Rightarrow> string \<Rightarrow> uri \<Rightarrow> ('h, 'm, 'n, 'bd) api_request" where
  "request_new H method u =
     \<lparr>rq_method = method, rq_uri = u, rq_version = HTTP_11, rq_headers = h_new H,
      rq_default_headers = None, rq_orig_headers = None, rq_preserve = None,
      ar_body = None, ar_options = None, ar_timeout = None, ar_redirect = None, ar_cookies = None,
      ar_accept = None\<rparr>"

definition request_version :: "('h, 'm, 'n, 'bd) api_request \<Rightarrow> http_version option" where
  "request_version req = Option.bind (rc_get (ar_options req)) ro_version"

text \<open>\<open>get_or_insert_default\<close> on an entry of the extensions, and a write through the reference.\<close>

definition entry_update :: "'v \<Rightarrow> ('v \<Rightarrow> 'v) \<Rightarrow> 'v slot \<Rightarrow> 'v slot" where
  "entry_update d f ext = rc_set ext (Some (f (case rc_get ext of Some v \<Rightarrow> v | None \<Rightarrow> d)))"

definition update_options ::
    "(('h, 'n) api_options \<Rightarrow> ('h, 'n) api_options) \<Rightarrow> ('h, 'm, 'n, 'bd) api_request \<Rightarrow> ('h, 'm, 'n, 'bd) api_request" where
  "update_options f req = req\<lparr>ar_options := entry_update api_options_default f (ar_options req)\<rparr>"

definition set_request_version :: "http_version option \<Rightarrow> ('h, 'm, 'n, 'bd) api_request \<Rightarrow> ('h, 'm, 'n, 'bd) api_request" where
  "set_request_version v = update_options (\<lambda>opts. opts\<lparr>ro_version := v\<rparr>)"

text \<open>\<open>extensions_mut\<close>: all entries of another request.\<close>

definition copy_extensions ::
    "('h, 'm, 'n, 'bd) api_request \<Rightarrow> ('h, 'm, 'n, 'bd) api_request \<Rightarrow> ('h, 'm, 'n, 'bd) api_request" where
  "copy_extensions src req =
     req\<lparr>rq_default_headers := rq_default_headers src, rq_orig_headers := rq_orig_headers src,
        rq_preserve := rq_preserve src, ar_options := ar_options src, ar_timeout := ar_timeout src,
        ar_redirect := ar_redirect src, ar_cookies := ar_cookies src, ar_accept := ar_accept src\<rparr>"

definition request_try_clone ::
    "'h header_ops \<Rightarrow> ('h, 'm, 'n, 'bd) api_request \<Rightarrow> ('h, 'm, 'n, 'bd) api_request option" where
  "request_try_clone H self =
     Option.bind (case ar_body self of
                    Some b \<Rightarrow> map_option Some (body_try_clone b)
                  | None \<Rightarrow> Some None)
       (\<lambda>body.
          let req = request_new H (rq_method self) (rq_uri self);
              req = req\<lparr>rq_headers := rq_headers self\<rparr>;
              req = set_request_version (request_version self) req;
              req = copy_extensions self req
          in Some (req\<lparr>ar_body := body\<rparr>))"

text \<open>\<open>From<http::Request<T>>\<close>, and the conversion back, which makes a missing body empty.\<close>

definition request_from_http ::
    "('h, 'm) config_request \<Rightarrow> 'bd body \<Rightarrow> ('h, 'm, 'n, 'bd) api_request" where
  "request_from_http r b =
     config_request.extend r
       \<lparr>ar_body = Some b, ar_options = None, ar_timeout = None, ar_redirect = None, ar_cookies = None, ar_accept = None\<rparr>"

definition request_into_http :: "('h, 'm, 'n, 'bd) api_request \<Rightarrow> ('h, 'm, 'n, 'bd) api_request \<times> 'bd body" where
  "request_into_http req = (req, case ar_body req of Some b \<Rightarrow> b | None \<Rightarrow> body_default)"

section \<open>The builder\<close>

record ('cl, 'h, 'm, 'n, 'bd) request_builder =
  rb_client :: 'cl
  rb_request :: "std_error + ('h, 'm, 'n, 'bd) api_request"

text \<open>\<open>if let Ok(ref mut req) = self.request\<close>.\<close>

definition rb_update ::
    "(('h, 'm, 'n, 'bd) api_request \<Rightarrow> ('h, 'm, 'n, 'bd) api_request) \<Rightarrow>
     ('cl, 'h, 'm, 'n, 'bd) request_builder \<Rightarrow> ('cl, 'h, 'm, 'n, 'bd) request_builder" where
  "rb_update f B = B\<lparr>rb_request := map_sum id f (rb_request B)\<rparr>"

definition rb_try ::
    "(('h, 'm, 'n, 'bd) api_request \<Rightarrow> std_error + ('h, 'm, 'n, 'bd) api_request) \<Rightarrow>
     ('cl, 'h, 'm, 'n, 'bd) request_builder \<Rightarrow> ('cl, 'h, 'm, 'n, 'bd) request_builder" where
  "rb_try f B = B\<lparr>rb_request := and_then (rb_request B) f\<rparr>"

definition header_sensitive ::
    "'h header_ops \<Rightarrow> std_error + string \<Rightarrow> std_error + hvalue \<Rightarrow> bool \<Rightarrow>
     ('cl, 'h, 'm, 'n, 'bd) request_builder \<Rightarrow> ('cl, 'h, 'm, 'n, 'bd) request_builder" where
  "header_sensitive H key value sensitive =
     rb_try (\<lambda>req.
       case key of
         Inr k \<Rightarrow>
           (case value of
              Inr v \<Rightarrow>
                (let v = (if sensitive then v\<lparr>hv_sensitive := True\<rparr> else v)
                 in Inr (req\<lparr>rq_headers := h_append H (rq_headers req) k v\<rparr>))
            | Inl e \<Rightarrow> Inl (err_builder e))
       | Inl e \<Rightarrow> Inl (err_builder e))"

definition rb_header ::
    "'h header_ops \<Rightarrow> std_error + string \<Rightarrow> std_error + hvalue \<Rightarrow>
     ('cl, 'h, 'm, 'n, 'bd) request_builder \<Rightarrow> ('cl, 'h, 'm, 'n, 'bd) request_builder" where
  "rb_header H key value = header_sensitive H key value False"

definition rb_auth ::
    "'h header_ops \<Rightarrow> std_error + hvalue \<Rightarrow> ('cl, 'h, 'm, 'n, 'bd) request_builder \<Rightarrow>
     ('cl, 'h, 'm, 'n, 'bd) request_builder" where
  "rb_auth H token = header_sensitive H (Inr ''authorization'') token True"

definition rb_basic_auth ::
    "'h header_ops \<Rightarrow> (string \<Rightarrow> string) \<Rightarrow> string \<Rightarrow> string option \<Rightarrow>
     ('cl, 'h, 'm, 'n, 'bd) request_builder \<Rightarrow> ('cl, 'h, 'm, 'n, 'bd) request_builder" where
  "rb_basic_auth H b64 username password =
     header_sensitive H (Inr ''authorization'') (Inr (basic_auth b64 username password)) True"

text \<open>\<open>to_value\<close> is \<open>HeaderValue::try_from\<close>.\<close>

definition rb_bearer_auth ::
    "'h header_ops \<Rightarrow> (string \<Rightarrow> std_error + hvalue) \<Rightarrow> string \<Rightarrow>
     ('cl, 'h, 'm, 'n, 'bd) request_builder \<Rightarrow> ('cl, 'h, 'm, 'n, 'bd) request_builder" where
  "rb_bearer_auth H to_value token =
     header_sensitive H (Inr ''authorization'') (to_value (''Bearer '' @ token)) True"

text \<open>The credentials of a URI; \<open>decode\<close> is percent-decoding.\<close>

definition extract_authority ::
    "uri_lib \<Rightarrow> (string \<Rightarrow> string) \<Rightarrow> uri \<Rightarrow> (string \<times> string option) option \<times> uri" where
  "extract_authority L decode u =
     (case userinfo u of
        (None, password) \<Rightarrow> (None, u)
      | (Some username, password) \<Rightarrow>
          (let username = decode username in
           if \<not> valid_utf8 username then (None, u)
           else
             (let password = Option.bind password
                    (\<lambda>pass. if valid_utf8 (decode pass) then Some (decode pass) else None)
              in if username \<noteq> '''' \<or> password \<noteq> None
                 then (Some (username, password), set_userinfo L u '''' None)
                 else (None, u))))"

definition rb_new ::
    "uri_lib \<Rightarrow> 'h header_ops \<Rightarrow> (string \<Rightarrow> string) \<Rightarrow> (string \<Rightarrow> string) \<Rightarrow> 'cl \<Rightarrow>
     std_error + ('h, 'm, 'n, 'bd) api_request \<Rightarrow> ('cl, 'h, 'm, 'n, 'bd) request_builder" where
  "rb_new L H decode b64 client request =
     (case request of
        Inl e \<Rightarrow> \<lparr>rb_client = client, rb_request = Inl e\<rparr>
      | Inr req \<Rightarrow>
          (case extract_authority L decode (rq_uri req) of
             (auth, u) \<Rightarrow>
               (let builder = \<lparr>rb_client = client, rb_request = Inr (req\<lparr>rq_uri := u\<rparr>)\<rparr>
                in case auth of
                     Some (username, password) \<Rightarrow> rb_basic_auth H b64 username password builder
                   | None \<Rightarrow> builder)))"

definition rb_from_parts :: "'cl \<Rightarrow> ('h, 'm, 'n, 'bd) api_request \<Rightarrow> ('cl, 'h, 'm, 'n, 'bd) request_builder" where
  "rb_from_parts client req = \<lparr>rb_client = client, rb_request = Inr req\<rparr>"

text \<open>\<open>Client::request\<close>.\<close>

definition uri_std_error :: "uri_error \<Rightarrow> std_error" where
  "uri_std_error e =
     (case e of UriBadScheme u \<Rightarrow> err_bad_scheme u | UriBuilder \<Rightarrow> err_builder (EOther ''invalid uri'' None))"

definition client_new_request ::
    "uri_lib \<Rightarrow> 'h header_ops \<Rightarrow> (string \<Rightarrow> string) \<Rightarrow> (string \<Rightarrow> string) \<Rightarrow> 'cl \<Rightarrow> string \<Rightarrow> string \<Rightarrow>
     ('cl, 'h, 'm, 'n, 'bd) request_builder" where
  "client_new_request L H decode b64 client method s =
     rb_new L H decode b64 client (map_sum uri_std_error (request_new H method) (into_uri L s))"

section \<open>Setters\<close>

text \<open>\<^term>\<open>None\<close> is the unreachable panic of \<open>replace_headers\<close>.\<close>

definition rb_headers ::
    "'h header_ops \<Rightarrow> 'h \<Rightarrow> ('cl, 'h, 'm, 'n, 'bd) request_builder \<Rightarrow> ('cl, 'h, 'm, 'n, 'bd) request_builder option" where
  "rb_headers H headers B =
     (case rb_request B of
        Inl e \<Rightarrow> Some B
      | Inr req \<Rightarrow>
          map_option (\<lambda>m. B\<lparr>rb_request := Inr (req\<lparr>rq_headers := m\<rparr>)\<rparr>) (replace_headers H (rq_headers req) headers))"

definition rb_orig_headers ::
    "'m \<Rightarrow> ('cl, 'h, 'm, 'n, 'bd) request_builder \<Rightarrow> ('cl, 'h, 'm, 'n, 'bd) request_builder" where
  "rb_orig_headers names = rb_update (\<lambda>req. req\<lparr>rq_orig_headers := rc_set (rq_orig_headers req) (Some names)\<rparr>)"

definition rb_default_headers ::
    "bool \<Rightarrow> ('cl, 'h, 'm, 'n, 'bd) request_builder \<Rightarrow> ('cl, 'h, 'm, 'n, 'bd) request_builder" where
  "rb_default_headers enable = rb_update (\<lambda>req. req\<lparr>rq_default_headers := rc_set (rq_default_headers req) (Some enable)\<rparr>)"

definition rb_timeout ::
    "duration \<Rightarrow> ('cl, 'h, 'm, 'n, 'bd) request_builder \<Rightarrow> ('cl, 'h, 'm, 'n, 'bd) request_builder" where
  "rb_timeout t = rb_update (\<lambda>req. req\<lparr>ar_timeout :=
     entry_update timeout_default (\<lambda>opts. set_total_timeout opts t) (ar_timeout req)\<rparr>)"

definition rb_read_timeout ::
    "duration \<Rightarrow> ('cl, 'h, 'm, 'n, 'bd) request_builder \<Rightarrow> ('cl, 'h, 'm, 'n, 'bd) request_builder" where
  "rb_read_timeout t = rb_update (\<lambda>req. req\<lparr>ar_timeout :=
     entry_update timeout_default (\<lambda>opts. set_read_timeout opts t) (ar_timeout req)\<rparr>)"

text \<open>\<open>serialized\<close> is the result of the serializer.\<close>

definition rb_query ::
    "uri_lib \<Rightarrow> std_error + string \<Rightarrow> ('cl, 'h, 'm, 'n, 'bd) request_builder \<Rightarrow> ('cl, 'h, 'm, 'n, 'bd) request_builder" where
  "rb_query L serialized = rb_try (\<lambda>req.
     case serialized of
       Inr s \<Rightarrow> Inr (req\<lparr>rq_uri := set_query L (rq_uri req) s\<rparr>)
     | Inl err \<Rightarrow> Inl (err_builder err))"

definition rb_form ::
    "'h header_ops \<Rightarrow> std_error + string \<Rightarrow> ('cl, 'h, 'm, 'n, 'bd) request_builder \<Rightarrow> ('cl, 'h, 'm, 'n, 'bd) request_builder" where
  "rb_form H serialized = rb_try (\<lambda>req.
     case serialized of
       Inr body \<Rightarrow>
         Inr (req\<lparr>rq_headers := h_or_insert H (rq_headers req) ''content-type'' (plain ''application/x-www-form-urlencoded''),
                 ar_body := Some (Reusable body)\<rparr>)
     | Inl err \<Rightarrow> Inl (err_builder err))"

definition rb_json ::
    "'h header_ops \<Rightarrow> std_error + string \<Rightarrow> ('cl, 'h, 'm, 'n, 'bd) request_builder \<Rightarrow> ('cl, 'h, 'm, 'n, 'bd) request_builder" where
  "rb_json H serialized = rb_try (\<lambda>req.
     case serialized of
       Inr body \<Rightarrow>
         Inr (req\<lparr>rq_headers := h_or_insert H (rq_headers req) ''content-type'' (plain ''application/json''),
                 ar_body := Some (Reusable body)\<rparr>)
     | Inl err \<Rightarrow> Inl (err_builder err))"

definition rb_body ::
    "'bd body \<Rightarrow> ('cl, 'h, 'm, 'n, 'bd) request_builder \<Rightarrow> ('cl, 'h, 'm, 'n, 'bd) request_builder" where
  "rb_body b = rb_update (\<lambda>req. req\<lparr>ar_body := Some b\<rparr>)"

text \<open>\<open>to_value\<close> is \<open>HeaderValue::from_maybe_shared\<close>.\<close>

definition rb_multipart ::
    "'h header_ops \<Rightarrow> (string \<Rightarrow> std_error + hvalue) \<Rightarrow> percent_lib \<Rightarrow> ('bd \<Rightarrow> (std_error + string) list) \<Rightarrow> ((std_error + string) list \<Rightarrow> 'bd) \<Rightarrow> ('h, 'bd) form \<Rightarrow> ('cl, 'h, 'm, 'n, 'bd) request_builder \<Rightarrow> ('cl, 'h, 'm, 'n, 'bd) request_builder" where
  "rb_multipart H to_value P data wrap fm = rb_try (\<lambda>req.
     case to_value (''multipart/form-data; boundary='' @ fm_boundary fm) of
       Inr content_type \<Rightarrow>
         (let headers = h_or_insert H (rq_headers req) ''content-type'' content_type in
          case compute_length P H fm of
            (n, fm) \<Rightarrow>
              (let headers = (case n of
                     Some n \<Rightarrow> h_or_insert H headers ''content-length'' (plain (decimal (unat n)))
                   | None \<Rightarrow> headers)
               in Inr (req\<lparr>rq_headers := headers, ar_body := Some (form_stream P H data wrap fm)\<rparr>)))
     | Inl err \<Rightarrow> Inl (err_builder err))"

definition rb_version ::
    "http_version \<Rightarrow> ('cl, 'h, 'm, 'n, 'bd) request_builder \<Rightarrow> ('cl, 'h, 'm, 'n, 'bd) request_builder" where
  "rb_version v = rb_update (\<lambda>req.
     update_options (\<lambda>opts. opts\<lparr>ro_version := Some v\<rparr>) (set_request_version (Some v) req))"

definition rb_redirect ::
    "'h policy_kind \<Rightarrow> ('cl, 'h, 'm, 'n, 'bd) request_builder \<Rightarrow> ('cl, 'h, 'm, 'n, 'bd) request_builder" where
  "rb_redirect p = rb_update (\<lambda>req. req\<lparr>ar_redirect := rc_set (ar_redirect req) (Some p)\<rparr>)"

definition rb_cookie_provider ::
    "nat \<Rightarrow> ('cl, 'h, 'm, 'n, 'bd) request_builder \<Rightarrow> ('cl, 'h, 'm, 'n, 'bd) request_builder" where
  "rb_cookie_provider store = rb_update (\<lambda>req. req\<lparr>ar_cookies := rc_set (ar_cookies req) (Some store)\<rparr>)"

definition rb_gzip ::
    "bool \<Rightarrow> ('cl, 'h, 'm, 'n, 'bd) request_builder \<Rightarrow> ('cl, 'h, 'm, 'n, 'bd) request_builder" where
  "rb_gzip b = rb_update (\<lambda>req. req\<lparr>ar_accept := set_encoding (\<lambda>a. a\<lparr>ae_gzip := b\<rparr>) (ar_accept req)\<rparr>)"

definition rb_brotli ::
    "bool \<Rightarrow> ('cl, 'h, 'm, 'n, 'bd) request_builder \<Rightarrow> ('cl, 'h, 'm, 'n, 'bd) request_builder" where
  "rb_brotli b = rb_update (\<lambda>req. req\<lparr>ar_accept := set_encoding (\<lambda>a. a\<lparr>ae_brotli := b\<rparr>) (ar_accept req)\<rparr>)"

definition rb_deflate ::
    "bool \<Rightarrow> ('cl, 'h, 'm, 'n, 'bd) request_builder \<Rightarrow> ('cl, 'h, 'm, 'n, 'bd) request_builder" where
  "rb_deflate b = rb_update (\<lambda>req. req\<lparr>ar_accept := set_encoding (\<lambda>a. a\<lparr>ae_deflate := b\<rparr>) (ar_accept req)\<rparr>)"

definition rb_zstd ::
    "bool \<Rightarrow> ('cl, 'h, 'm, 'n, 'bd) request_builder \<Rightarrow> ('cl, 'h, 'm, 'n, 'bd) request_builder" where
  "rb_zstd b = rb_update (\<lambda>req. req\<lparr>ar_accept := set_encoding (\<lambda>a. a\<lparr>ae_zstd := b\<rparr>) (ar_accept req)\<rparr>)"

definition rb_proxy ::
    "'n proxy_lib \<Rightarrow> 'h proxy \<Rightarrow> ('cl, 'h, 'm, 'n, 'bd) request_builder \<Rightarrow> ('cl, 'h, 'm, 'n, 'bd) request_builder" where
  "rb_proxy X p = rb_update (update_options (\<lambda>opts. opts\<lparr>ro_proxy := Some (into_matcher X p)\<rparr>))"

text \<open>\<open>socket_bind_options.get_or_insert_default()\<close>.\<close>

definition bind_update :: "(bind_options \<Rightarrow> bind_options) \<Rightarrow> ('h, 'n) api_options \<Rightarrow> ('h, 'n) api_options" where
  "bind_update f opts =
     opts\<lparr>ro_socket_bind := Some (f (case ro_socket_bind opts of
        Some b \<Rightarrow> b | None \<Rightarrow> \<lparr>bo_interface = None, bo_ipv4 = None, bo_ipv6 = None\<rparr>))\<rparr>"

definition rb_local_address ::
    "ip_addr option \<Rightarrow> ('cl, 'h, 'm, 'n, 'bd) request_builder \<Rightarrow> ('cl, 'h, 'm, 'n, 'bd) request_builder" where
  "rb_local_address a = rb_update (update_options (bind_update (\<lambda>b. set_local_address b a)))"

definition rb_local_addresses ::
    "u32 option \<Rightarrow> 128 word option \<Rightarrow> ('cl, 'h, 'm, 'n, 'bd) request_builder \<Rightarrow> ('cl, 'h, 'm, 'n, 'bd) request_builder" where
  "rb_local_addresses a4 a6 = rb_update (update_options (bind_update (\<lambda>b. set_local_addresses b a4 a6)))"

definition rb_interface ::
    "string \<Rightarrow> ('cl, 'h, 'm, 'n, 'bd) request_builder \<Rightarrow> ('cl, 'h, 'm, 'n, 'bd) request_builder" where
  "rb_interface i = rb_update (update_options (bind_update (\<lambda>b. set_interface b i)))"

definition rb_emulation ::
    "'h header_ops \<Rightarrow> ('h, 'm, (('h, 'n) matcher), bind_options) emulation \<Rightarrow> ('cl, 'h, 'm, 'n, 'bd) request_builder \<Rightarrow> ('cl, 'h, 'm, 'n, 'bd) request_builder option" where
  "rb_emulation H e B =
     (case rb_request B of
        Inl _ \<Rightarrow> Some B
      | Inr req \<Rightarrow>
          (let B = rb_update (update_options (\<lambda>opts.
                 opts\<lparr>ro_group := group_emulate (em_group e) (ro_group opts), ro_tls_options := em_tls_options e,
                      ro_http1_options := em_http1_options e, ro_http2_options := em_http2_options e\<rparr>)) B
           in map_option (rb_orig_headers (em_orig_headers e)) (rb_headers H (em_headers e) B)))"

definition rb_group ::
    "((('h, 'n) matcher, bind_options) group) \<Rightarrow> ('cl, 'h, 'm, 'n, 'bd) request_builder \<Rightarrow> ('cl, 'h, 'm, 'n, 'bd) request_builder" where
  "rb_group g = rb_update (update_options (\<lambda>opts. opts\<lparr>ro_group := group_request g (ro_group opts)\<rparr>))"

definition rb_build :: "('cl, 'h, 'm, 'n, 'bd) request_builder \<Rightarrow> std_error + ('h, 'm, 'n, 'bd) api_request" where
  "rb_build B = rb_request B"

definition rb_build_split :: "('cl, 'h, 'm, 'n, 'bd) request_builder \<Rightarrow> 'cl \<times> (std_error + ('h, 'm, 'n, 'bd) api_request)" where
  "rb_build_split B = (rb_client B, rb_request B)"

text \<open>\<open>Client::execute\<close> polls the client's \<open>service\<close> for the request, and notes its URI.\<close>

definition client_execute ::
    "('cl \<Rightarrow> ('h, 'm, 'n, 'bd) api_request \<times> 'bd body \<Rightarrow> std_error + 'r) \<Rightarrow> 'cl \<Rightarrow> ('h, 'm, 'n, 'bd) api_request \<Rightarrow>
     std_error + 'r \<times> uri" where
  "client_execute service client req = pending_poll (rq_uri req) (service client (request_into_http req))"

definition rb_send ::
    "('cl \<Rightarrow> ('h, 'm, 'n, 'bd) api_request \<times> 'bd body \<Rightarrow> std_error + 'r) \<Rightarrow> ('cl, 'h, 'm, 'n, 'bd) request_builder \<Rightarrow>
     std_error + 'r \<times> uri" where
  "rb_send service B =
     (case rb_request B of
        Inr req \<Rightarrow> client_execute service (rb_client B) req
      | Inl err \<Rightarrow> Inl err)"

definition rb_try_clone :: "'h header_ops \<Rightarrow> ('cl, 'h, 'm, 'n, 'bd) request_builder \<Rightarrow> ('cl, 'h, 'm, 'n, 'bd) request_builder option" where
  "rb_try_clone H B =
     (case rb_request B of
        Inl _ \<Rightarrow> None
      | Inr req \<Rightarrow>
          map_option (\<lambda>req. \<lparr>rb_client = rb_client B, rb_request = Inr req\<rparr>) (request_try_clone H req))"

section \<open>Lemmas\<close>

lemma rb_update_simps [simp]:
  "rb_request B = Inr req \<Longrightarrow> rb_request (rb_update f B) = Inr (f req)"
  "rb_request B = Inl e \<Longrightarrow> rb_request (rb_update f B) = Inl e"
  "rb_client (rb_update f B) = rb_client B"
  by (simp_all add: rb_update_def)

lemma rb_try_simps [simp]:
  "rb_request B = Inr req \<Longrightarrow> rb_request (rb_try f B) = f req"
  "rb_request B = Inl e \<Longrightarrow> rb_request (rb_try f B) = Inl e"
  "rb_client (rb_try f B) = rb_client B"
  by (simp_all add: rb_try_def)

text \<open>The first error is what the request ends with: setters keep it, and the client is not asked.\<close>

lemma rb_error_kept:
  assumes "rb_request B = Inl e"
  shows "rb_request (header_sensitive H k v b B) = Inl e" "rb_request (rb_query L q B) = Inl e"
    "rb_request (rb_form H q B) = Inl e" "rb_request (rb_json H q B) = Inl e"
    "rb_request (rb_multipart H tv P data wrap fm B) = Inl e"
    "rb_headers H m B = Some B" "rb_emulation H em B = Some B"
    "rb_send service B = Inl e" "rb_try_clone H B = None"
  using assms by (simp_all add: header_sensitive_def rb_query_def rb_form_def rb_json_def rb_multipart_def
      rb_headers_def rb_emulation_def rb_send_def rb_try_clone_def)

lemma copy_extensions_all:
  "copy_extensions req (set_request_version v ((request_new H (rq_method req) (rq_uri req))\<lparr>rq_headers := rq_headers req\<rparr>)) =
     req\<lparr>rq_version := HTTP_11, ar_body := None\<rparr>"
  by (cases req) (simp add: copy_extensions_def set_request_version_def update_options_def request_new_def)

text \<open>
  A request can be cloned exactly when its body can be sent again or is missing, and the clone is the request:
  method, URI, headers, body and every extension; only the version of the underlying
  \<open>http::Request\<close> is reset to HTTP/1.1.
\<close>

lemma try_clone_exact:
  "request_try_clone H req =
     (case ar_body req of
        Some (Streaming n s) \<Rightarrow> None
      | _ \<Rightarrow> Some (req\<lparr>rq_version := HTTP_11\<rparr>))"
proof (cases "ar_body req")
  case (Some b)
  then have "req\<lparr>ar_body := Some b\<rparr> = req"
    by (cases req) simp
  with Some show ?thesis
    by (cases b) (simp_all add: request_try_clone_def Let_def copy_extensions_all)
next
  case None
  then have "req\<lparr>ar_body := None\<rparr> = req"
    by (cases req) simp
  with None show ?thesis
    by (simp add: request_try_clone_def Let_def copy_extensions_all)
qed

text \<open>Adding a header adds one value at the end of its name's values.\<close>

lemma header_sensitive_Inr:
  "rb_request B = Inr req \<Longrightarrow>
   rb_request (header_sensitive H (Inr k) (Inr v) b B) =
     Inr (req\<lparr>rq_headers := h_append H (rq_headers req) k (if b then v\<lparr>hv_sensitive := True\<rparr> else v)\<rparr>)"
  by (simp add: header_sensitive_def Let_def)

lemma basic_auth_sensitive [simp]: "(basic_auth b64 u p)\<lparr>hv_sensitive := True\<rparr> = basic_auth b64 u p"
  by (simp add: basic_auth_def)

lemma rb_basic_auth_Inr:
  "rb_request B = Inr req \<Longrightarrow>
   rb_request (rb_basic_auth H b64 u p B) =
     Inr (req\<lparr>rq_headers := h_append H (rq_headers req) ''authorization'' (basic_auth b64 u p)\<rparr>)"
  by (simp add: rb_basic_auth_def header_sensitive_Inr)

lemma host_and_port_plain: "CHR ''@'' \<notin> set (host_and_port a)"
  by (auto simp: host_and_port_def str_simps split: option.split)

text \<open>
  C20. Credentials written into the URI of a request are moved to a sensitive Authorization header
  when their user name can be read: it decodes to UTF-8 and it or a readable password is not missing.
  The request then has that one value, and its URI holds no user information any more. In every
  other case (no user name, or one that is not UTF-8) the user information stays in the URI and
  no header is made of it.
\<close>

theorem uri_credentials_moved:
  assumes laws: "uri_lib_laws L" "header_laws H"
    and u: "into_uri L s = Inr u" "authority u = Some a"
    and accepted: "lib_authority L (host_and_port a) \<noteq> None"
      "lib_from_parts L ((lib_into_parts L u)\<lparr>p_authority := Some (host_and_port a)\<rparr>) \<noteq> None"
  shows "\<exists>req. rb_request (client_new_request L H decode b64 cl mth s) = Inr req \<and> rq_method req = mth \<and>
    (let readable = (\<lambda>p. if valid_utf8 (decode p) then Some (decode p) else None);
         password = Option.bind (snd (userinfo u)) readable
     in case Option.bind (fst (userinfo u)) readable of
          Some user \<Rightarrow>
            if user \<noteq> '''' \<or> password \<noteq> None
            then authority (rq_uri req) = Some (host_and_port a) \<and> userinfo (rq_uri req) = (None, None) \<and>
                 h_get_all H (rq_headers req) ''authorization'' = [basic_auth b64 user password]
            else rq_uri req = u \<and> h_get_all H (rq_headers req) ''authorization'' = []
        | None \<Rightarrow> rq_uri req = u \<and> h_get_all H (rq_headers req) ''authorization'' = [])"
proof -
  have eq: "userinfo_authority L a [] None = host_and_port a"
    by (simp add: userinfo_authority_def Let_def)
  obtain u' where fp: "lib_from_parts L ((lib_into_parts L u)\<lparr>p_authority := Some (host_and_port a)\<rparr>) = Some u'"
    using accepted(2) by blast
  have "lib_authority L (host_and_port a) = Some (host_and_port a)"
    using accepted(1) authority_kept [OF laws(1)] by (cases "lib_authority L (host_and_port a)") blast+
  then have set: "set_userinfo L u [] None = u'"
    using u(2) fp by (simp add: set_userinfo_def eq)
  have auth: "authority u' = Some (host_and_port a)"
    using laws(1) fp unfolding uri_lib_laws_def by (metis uri_parts.simps(2) uri_parts.surjective uri_parts.update_convs(2))
  have plain: "userinfo u' = (None, None)"
    using host_and_port_plain [of a, folded rsplit_once_None] auth by (simp add: userinfo_def)
  show ?thesis
    using auth plain set laws(2)
    by (cases "userinfo u"; cases "fst (userinfo u)")
      (simp_all add: client_new_request_def u(1) rb_new_def request_new_def extract_authority_def Let_def
        rb_basic_auth_Inr hdr_simps split: option.split)
qed

theorem uri_credentials_moved_witness:
  "\<exists>req. rb_request (client_new_request sample_uris list_headers (\<lambda>s. s) rev (0 :: nat) ''GET'' ''http://u:p@h'') =
       Inr (req :: (_, nat, int, nat) api_request) \<and>
     userinfo (rq_uri req) = (None, None) \<and>
     h_get_all list_headers (rq_headers req) ''authorization'' = [basic_auth rev ''u'' (Some ''p'')]"
proof -
  have L: "uri_lib_laws sample_uris"
    using sample_uris_laws by (simp add: sample_px_def)
  have u: "into_uri sample_uris ''http://u:p@h'' = Inr (sample_uri HTTP ''u:p@h'')"
    by code_simp
  have a: "authority (sample_uri HTTP ''u:p@h'') = Some ''u:p@h''"
    by (simp add: sample_uri_def)
  have i: "userinfo (sample_uri HTTP ''u:p@h'') = (Some ''u'', Some ''p'')" "valid_utf8 ''u''" "valid_utf8 ''p''"
    by code_simp+
  have acc: "lib_authority sample_uris x \<noteq> None" "lib_from_parts sample_uris y \<noteq> None" for x y
    by (simp_all add: sample_uris_def)
  show ?thesis
    using uri_credentials_moved [where decode = "\<lambda>s. s" and cl = "0 :: nat" and mth = "''GET''" and ?b64.0 = rev,
        OF L list_headers_laws u a acc]
    by (auto simp: i)
qed

text \<open>
  A password without a user name is not credentials to the builder: it stays in the URI, and no
  header is made of it.
\<close>

lemma password_only_kept:
  assumes "userinfo u = (None, pw)"
  shows "rb_request (rb_new L H decode b64 cl (Inr (request_new H m u))) = Inr (request_new H m u)"
  using assms by (simp add: rb_new_def extract_authority_def request_new_def)

lemma password_only_uri: "userinfo (sample_uri HTTP '':secret@h'') = (None, Some ''secret'')"
  by code_simp

text \<open>Authentication set on a request whose URI had credentials is sent beside them.\<close>

lemma credentials_sent_twice:
  assumes "header_laws H" and "rb_request B = Inr req"
    and "h_get_all H (rq_headers req) ''authorization'' = [v]"
  shows "\<exists>req'. rb_request (rb_basic_auth H b64 u p B) = Inr req' \<and>
     h_get_all H (rq_headers req') ''authorization'' = [v, basic_auth b64 u p]"
  using assms by (simp add: rb_basic_auth_Inr hdr_simps)

section \<open>Multipart requests\<close>

lemma form_length_known: "fst (compute_length P H fm) \<noteq> None \<longleftrightarrow> (\<forall>(name, p) \<in> set (fm_fields fm). value_len p \<noteq> None)"
proof -
  have "fst (length_loop P H fm n hs fs) \<noteq> None \<longleftrightarrow> (\<forall>(name, p) \<in> set fs. value_len p \<noteq> None)" for n hs fs
    by (induction P H fm n hs fs rule: length_loop.induct) (auto simp: Let_def split: option.splits)
  from this [of 0 "fm_computed_headers fm" "fm_fields fm"] show ?thesis
    by (auto simp: compute_length_def split: prod.splits)
qed

lemma compute_length_fields [simp]:
  "fm_fields (snd (compute_length P H fm)) = fm_fields fm"
  "form_into_stream P H data (snd (compute_length P H fm)) = form_into_stream P H data fm"
proof -
  have "\<exists>hs. snd (compute_length P H fm) = fm\<lparr>fm_computed_headers := hs\<rparr>"
    by (cases "length_loop P H fm 0 (fm_computed_headers fm) (fm_fields fm)") (auto simp: compute_length_def)
  then obtain hs where fm: "snd (compute_length P H fm) = fm\<lparr>fm_computed_headers := hs\<rparr>"
    by blast
  have part: "part_stream P H data (fm\<lparr>fm_computed_headers := hs\<rparr>) = part_stream P H data fm"
    by (simp add: part_stream_def)
  show "form_into_stream P H data (snd (compute_length P H fm)) = form_into_stream P H data fm"
    by (simp add: form_into_stream_eq fm part)
  show "fm_fields (snd (compute_length P H fm)) = fm_fields fm"
    by (simp add: fm)
qed

text \<open>
  C22. A multipart request is framed correctly: its Content-Type names the boundary of the form, and it has
  a Content-Length exactly when the length of every part is known; that length is then the
  number of bytes its body yields, whenever the parts yield what they declare and the total
  fits 64 bits.
\<close>

theorem multipart_request_framed:
  assumes "header_laws H" and "\<And>chunks. data (wrap chunks) = chunks"
    and "rb_request B = Inr req" and "\<not> h_contains H (rq_headers req) ''content-length''"
    and "\<not> h_contains H (rq_headers req) ''content-type''"
    and "to_value (''multipart/form-data; boundary='' @ fm_boundary fm) = Inr ct"
    and "\<forall>(name, p) \<in> set (fm_fields fm). part_honest data p"
  shows "\<exists>req' b. rb_request (rb_multipart H to_value P data wrap fm B) = Inr req' \<and> ar_body req' = Some b \<and>
    h_get_all H (rq_headers req') ''content-type'' = [ct] \<and>
    (if \<forall>(name, p) \<in> set (fm_fields fm). value_len p \<noteq> None
     then \<exists>bytes. streamed (body_chunks data b) bytes \<and>
       h_get_all H (rq_headers req') ''content-length'' = [plain (decimal (length bytes mod 2 ^ 64))]
     else h_get_all H (rq_headers req') ''content-length'' = [])"
proof -
  let ?b = "form_stream P H data wrap (snd (compute_length P H fm))"
  have chunks: "body_chunks data ?b = form_into_stream P H data fm"
    by (cases "fm_fields fm = []") (simp_all add: form_stream_def body_default_def assms(2), simp add: form_into_stream_eq)
  obtain req' where r: "rb_request (rb_multipart H to_value P data wrap fm B) = Inr req'" "ar_body req' = Some ?b"
    "h_get_all H (rq_headers req') ''content-type'' = [ct]"
    "h_get_all H (rq_headers req') ''content-length'' =
       (case fst (compute_length P H fm) of Some n \<Rightarrow> [plain (decimal (unat n))] | None \<Rightarrow> [])"
    using assms(1,3-6)
    by (cases "compute_length P H fm")
      (auto simp: rb_multipart_def hdr_simps h_contains_def Let_def split: option.splits)
  show ?thesis
  proof (cases "fst (compute_length P H fm)")
    case None
    with r form_length_known [of P H fm] show ?thesis by auto
  next
    case (Some n)
    then have "\<forall>(name, p) \<in> set (fm_fields fm). value_len p \<noteq> None"
      using form_length_known [of P H fm] by simp
    moreover obtain bytes where "streamed (form_into_stream P H data fm) bytes" "n = of_nat (length bytes)"
      using form_length_exact [OF Some assms(7)] by blast
    ultimately show ?thesis
      using r Some chunks by (auto simp: unat_of_nat)
  qed
qed

text \<open>A body of the sample form, known by what it yields.\<close>

theorem multipart_request_framed_witness:
  "\<exists>req' b. rb_request (rb_multipart list_headers (\<lambda>s. Inr (plain s)) sample_percent (\<lambda>x. x) (\<lambda>x. x)
       (form_part ''f'' (part_stream_with_length list_headers (Streaming None [Inr ''xyz'']) 3) (form_with_boundary ''B''))
       (rb_from_parts (0 :: nat) (request_new list_headers ''POST'' (sample_uri HTTP ''h'')
          :: (_, nat, int, (std_error + string) list) api_request))) = Inr req' \<and> ar_body req' = Some b \<and>
     (\<exists>bytes. streamed (body_chunks (\<lambda>x. x) b) bytes \<and>
       h_get_all list_headers (rq_headers req') ''content-length'' = [plain (decimal (length bytes mod 2 ^ 64))])"
proof -
  let ?fm = "form_part ''f'' (part_stream_with_length list_headers (Streaming None [Inr ''xyz'']) 3) (form_with_boundary ''B'')
     :: ((string \<times> hvalue list) list, (std_error + string) list) form"
  let ?req = "request_new list_headers ''POST'' (sample_uri HTTP ''h'') :: (_, nat, int, (std_error + string) list) api_request"
  have r: "rb_request (rb_from_parts (0 :: nat) ?req) = Inr ?req"
    by (simp add: rb_from_parts_def)
  have c: "\<not> h_contains list_headers (rq_headers ?req) n" for n
    by (simp add: request_new_def h_contains_def hdr_simps list_headers_laws)
  have v: "(\<lambda>s. Inr (plain s)) x = (Inr (plain x) :: std_error + hvalue)" for x
    by simp
  have p: "\<forall>(name, p) \<in> set (fm_fields ?fm). part_honest (\<lambda>x. x) p"
    and k: "\<forall>(name, p) \<in> set (fm_fields ?fm). value_len p \<noteq> None"
    by (simp_all add: form_part_def form_with_boundary_def part_stream_with_length_def part_new_def part_honest_def value_len_def)
  show ?thesis
    using multipart_request_framed [where data = "\<lambda>x. x" and wrap = "\<lambda>x. x" and P = sample_percent
        and to_value = "\<lambda>s. Inr (plain s)", OF list_headers_laws refl r c c refl p] k
    by (auto split: if_splits)
qed

end
