(* ===== verification/Core_Client.thy ===== *)
theory Core_Client
  imports Core_Tls Request_Builder Client Cookie_Jar
begin

text \<open>
  The client of the language bindings (\<open>src/crates/tlsurl-core/src/lib.rs\<close>, \<open>stream.rs\<close> and
  \<open>upload.rs\<close>): how its options become the settings of a client, how a request is checked and
  built, how a response is read, and the cookie operations. The profiles of \<open>wreq_util\<close>, the
  URL parser, the file system and the libraries behind a client are parameters.
\<close>

section \<open>Options\<close>

record ('pf, 'pl) core_options =
  cl_connect_timeout_ms :: "u32 option"
  cl_read_timeout_ms :: "u32 option"
  cl_proxy :: "string option"
  cl_verify :: "bool option"
  cl_ca_pem :: "string option"
  cl_max_redirects :: "u32 option"
  cl_cookies :: "bool option"
  cl_user_agent :: "string option"
  cl_http_version :: "string option"
  cl_tls :: "tls_config option"
  cl_random_tls :: bool
  cl_random_tls_seed :: "u32 option"
  cl_http2 :: "http2_config option"
  cl_identity :: "identity_config option"
  cl_profile :: "'pf option"
  cl_platform :: "'pl option"
  cl_decompress :: "bool option"

definition core_options_default :: "('pf, 'pl) core_options" where
  "core_options_default =
     \<lparr>cl_connect_timeout_ms = None, cl_read_timeout_ms = None, cl_proxy = None, cl_verify = None,
      cl_ca_pem = None, cl_max_redirects = None, cl_cookies = None, cl_user_agent = None,
      cl_http_version = None, cl_tls = None, cl_random_tls = False, cl_random_tls_seed = None,
      cl_http2 = None, cl_identity = None, cl_profile = None, cl_platform = None, cl_decompress = None\<rparr>"

text \<open>A duration in milliseconds.\<close>

definition positive_ms :: "u32 \<Rightarrow> core_error + u64" where
  "positive_ms value =
     (if value = 0 then Inl (invalid_config ''timeout must be positive'') else Inr (ucast value))"

definition redirect_limit_policy :: "u32 \<Rightarrow> 'h policy_kind" where
  "redirect_limit_policy limit = (if limit = 0 then PolicyNone else Limit (unat limit))"

section \<open>Building a client\<close>

text \<open>What the bindings take from other crates.\<close>

record ('c, 'k, 'b, 'h, 'm, 'n, 'bd, 'pf, 'pl) core_lib =
  kl_proxies :: "'n proxy_lib"
  kl_x509 :: "('c, 'k, 'b) x509_lib"
  kl_headers :: "'h header_ops"
  kl_cases :: "'m case_ops"
  kl_to_name :: "string \<Rightarrow> std_error + string"
  kl_to_value :: "string \<Rightarrow> std_error + hvalue"
  kl_entropy :: "u64 option"
  kl_http2_default :: http2_options
  kl_emulate :: "'pf \<Rightarrow> 'pl \<Rightarrow> ('h, 'm, ('h, 'n) matcher, bind_options) emulation"
  kl_platform :: 'pl
  kl_show_error :: "std_error \<Rightarrow> string"

text \<open>\<open>?\<close> on a result of the library.\<close>

definition core_try :: "('c, 'k, 'b, 'h, 'm, 'n, 'bd, 'pf, 'pl) core_lib \<Rightarrow> std_error + 'a \<Rightarrow> core_error + 'a" where
  "core_try K = map_err (core_of_error (kl_show_error K))"

text \<open>
  The TLS source of a client: random options, a profile, or neither. The TLS and HTTP/2 options of
  the profile are kept as bases; \<^term>\<open>None\<close> is the unreachable panic of \<open>replace_headers\<close>.
\<close>

definition core_random_tls ::
    "('c, 'k, 'b, 'h, 'm, 'n, 'bd, 'pf, 'pl) core_lib \<Rightarrow> ('pf, 'pl) core_options \<Rightarrow>
     ('c, 'k, 'b, 'h, 'm, 'n, 'bd) client_settings \<Rightarrow> core_error + ('c, 'k, 'b, 'h, 'm, 'n, 'bd) client_settings" where
  "core_random_tls K opts S =
     (if cl_random_tls opts
      then
        (if cl_tls opts \<noteq> None \<or> cl_profile opts \<noteq> None \<or> cl_platform opts \<noteq> None
         then Inl (invalid_config ''random_tls cannot be combined with tls, profile or platform'')
         else and_then (random_tls_options (kl_entropy K) (cl_random_tls_seed opts))
                (\<lambda>tls. Inr (client_tls_options (Some tls) S)))
      else if cl_random_tls_seed opts \<noteq> None
      then Inl (invalid_config ''random_tls_seed requires random_tls=true'')
      else Inr S)"

definition core_profile ::
    "('c, 'k, 'b, 'h, 'm, 'n, 'bd, 'pf, 'pl) core_lib \<Rightarrow> ('pf, 'pl) core_options \<Rightarrow>
     ('c, 'k, 'b, 'h, 'm, 'n, 'bd) client_settings \<Rightarrow>
     (core_error + ('c, 'k, 'b, 'h, 'm, 'n, 'bd) client_settings \<times> tls_options option \<times> http2_options option) option" where
  "core_profile K opts S =
     (case cl_profile opts of
        Some p \<Rightarrow>
          (let e = kl_emulate K p (case cl_platform opts of Some pl \<Rightarrow> pl | None \<Rightarrow> kl_platform K)
           in map_option (\<lambda>S. Inr (S, em_tls_options e, em_http2_options e))
                (client_emulation (kl_headers K) (kl_cases K) e S))
      | None \<Rightarrow>
          if cl_platform opts \<noteq> None then Some (Inl (invalid_config ''platform requires a profile''))
          else Some (Inr (S, None, None)))"

text \<open>A setting that is made when its option is given.\<close>

definition when_given :: "('a \<Rightarrow> 's \<Rightarrow> core_error + 's) \<Rightarrow> 'a option \<Rightarrow> 's \<Rightarrow> core_error + 's" where
  "when_given f x S = (case x of Some a \<Rightarrow> f a S | None \<Rightarrow> Inr S)"

definition core_http_version ::
    "string \<Rightarrow> ('c, 'k, 'b, 'h, 'm, 'n, 'bd) client_settings \<Rightarrow> core_error + ('c, 'k, 'b, 'h, 'm, 'n, 'bd) client_settings" where
  "core_http_version v S =
     (if v = ''auto'' then Inr S
      else if v = ''1.1'' then Inr (client_http1_only S)
      else if v = ''2'' then Inr (client_http2_only S)
      else Inl (invalid_config ''http_version must be auto, 1.1 or 2''))"

text \<open>Decompression, redirects, the timeout, verification and cookies; \<open>jar\<close> is the client's cookie jar.\<close>

definition core_base_settings ::
    "nat \<Rightarrow> u32 \<Rightarrow> ('pf, 'pl) core_options \<Rightarrow>
     ('c, 'k, 'b, 'h, 'm, 'n, 'bd) client_settings \<Rightarrow> core_error + ('c, 'k, 'b, 'h, 'm, 'n, 'bd) client_settings" where
  "core_base_settings jar timeout_ms opts S =
     (let S = (if cl_decompress opts = Some False
               then client_no_zstd (client_no_deflate (client_no_brotli (client_no_gzip S))) else S);
          S = client_redirect (redirect_limit_policy (case cl_max_redirects opts of Some n \<Rightarrow> n | None \<Rightarrow> 10)) S
      in and_then (positive_ms timeout_ms) (\<lambda>t.
         let S = client_tls_cert_verification (case cl_verify opts of Some v \<Rightarrow> v | None \<Rightarrow> True)
                   (client_timeout (unat t) S)
         in Inr (if (case cl_cookies opts of Some c \<Rightarrow> c | None \<Rightarrow> True) then client_cookie_provider jar S else S)))"

text \<open>The rest of the options in the code's order.\<close>

definition core_settings ::
    "('c, 'k, 'b, 'h, 'm, 'n, 'bd, 'pf, 'pl) core_lib \<Rightarrow> ('pf, 'pl) core_options \<Rightarrow>
     tls_options option \<Rightarrow> http2_options option \<Rightarrow>
     ('c, 'k, 'b, 'h, 'm, 'n, 'bd) client_settings \<Rightarrow> core_error + ('c, 'k, 'b, 'h, 'm, 'n, 'bd) client_settings" where
  "core_settings K opts profile_tls profile_http2 S4 =
     and_then (when_given (\<lambda>t S. and_then (positive_ms t) (\<lambda>t. Inr (client_connect_timeout t S)))
                 (cl_connect_timeout_ms opts) S4) (\<lambda>S5.
     and_then (when_given (\<lambda>t S. and_then (positive_ms t) (\<lambda>t. Inr (client_read_timeout (unat t) S)))
                 (cl_read_timeout_ms opts) S5) (\<lambda>S6.
     and_then (when_given (\<lambda>p S. and_then (core_try K (map_err uri_std_error (proxy_all (kl_proxies K) p)))
                 (\<lambda>p. Inr (client_proxy (kl_proxies K) p S))) (cl_proxy opts) S6) (\<lambda>S7.
     and_then (when_given (\<lambda>pem S. and_then (core_try K (store_from_stack (kl_x509 K) pem))
                 (\<lambda>store. Inr (client_tls_cert_store store S))) (cl_ca_pem opts) S7) (\<lambda>S8.
     and_then (when_given core_http_version (cl_http_version opts)
                 (case cl_user_agent opts of
                    Some agent \<Rightarrow> client_user_agent (kl_headers K) (kl_to_value K agent) S8
                  | None \<Rightarrow> S8)) (\<lambda>S10.
     and_then (when_given (\<lambda>tls S. tls_config_apply tls S profile_tls) (cl_tls opts) S10) (\<lambda>S11.
     and_then (when_given (\<lambda>h2 S. http2_config_apply (kl_http2_default K) h2 S profile_http2)
                 (cl_http2 opts) S11) (\<lambda>S12.
     when_given (\<lambda>i S. identity_config_apply (kl_x509 K) (kl_show_error K) i S) (cl_identity opts) S12)))))))"

record 'cl core_client =
  kc_inner :: 'cl
  kc_max_response_bytes :: nat
  kc_jar :: nat

text \<open>\<open>base\<close> is \<open>Client::builder()\<close>, \<open>build\<close> is the builder's last step.\<close>

definition core_with_options ::
    "('c, 'k, 'b, 'h, 'm, 'n, 'bd, 'pf, 'pl) core_lib \<Rightarrow>
     (('c, 'k, 'b, 'h, 'm, 'n, 'bd) client_settings \<Rightarrow> std_error + 'cl) \<Rightarrow>
     ('c, 'k, 'b, 'h, 'm, 'n, 'bd) client_settings \<Rightarrow> nat \<Rightarrow> u32 \<Rightarrow> u32 \<Rightarrow> ('pf, 'pl) core_options \<Rightarrow>
     (core_error + 'cl core_client) option" where
  "core_with_options K build base jar timeout_ms max_response_bytes opts =
     (if timeout_ms = 0 \<or> max_response_bytes = 0
      then Some (Inl (invalid_config ''timeout_ms and max_response_bytes must be positive''))
      else
        (case core_random_tls K opts (client_no_proxy base) of
           Inl e \<Rightarrow> Some (Inl e)
         | Inr S \<Rightarrow>
             map_option (\<lambda>r.
               and_then r (\<lambda>(S, profile_tls, profile_http2).
               and_then (core_base_settings jar timeout_ms opts S) (\<lambda>S.
               and_then (core_settings K opts profile_tls profile_http2 S) (\<lambda>S.
               and_then (core_try K (build S)) (\<lambda>inner.
               Inr \<lparr>kc_inner = inner, kc_max_response_bytes = unat max_response_bytes, kc_jar = jar\<rparr>)))))
               (core_profile K opts S)))"

definition core_new ::
    "('c, 'k, 'b, 'h, 'm, 'n, 'bd, 'pf, 'pl) core_lib \<Rightarrow>
     (('c, 'k, 'b, 'h, 'm, 'n, 'bd) client_settings \<Rightarrow> std_error + 'cl) \<Rightarrow>
     ('c, 'k, 'b, 'h, 'm, 'n, 'bd) client_settings \<Rightarrow> nat \<Rightarrow> u32 \<Rightarrow> u32 \<Rightarrow> (core_error + 'cl core_client) option" where
  "core_new K build base jar timeout_ms max_response_bytes =
     core_with_options K build base jar timeout_ms max_response_bytes core_options_default"

section \<open>Cookies\<close>

text \<open>
  The jar is the state; \<open>U\<close> are the operations of the URL parser, \<open>L\<close> and \<open>N\<close> those of the jar and of URIs.
\<close>

definition invalid_request :: "string \<Rightarrow> core_error" where
  "invalid_request m = CoreError ''INVALID_REQUEST'' m"

definition http_url :: "'l url_ops \<Rightarrow> string \<Rightarrow> core_error + 'l" where
  "http_url U value =
     and_then (ok_or (invalid_request ''invalid absolute URL'') (ul_parse U value)) (\<lambda>url.
       if ul_scheme U url = ''http'' \<or> ul_scheme U url = ''https'' then Inr url
       else Inl (invalid_request ''only http and https URLs are supported''))"

definition core_clear_cookies :: "store \<Rightarrow> store" where
  "core_clear_cookies s = jar_clear s"

definition core_set_cookie ::
    "'l url_ops \<Rightarrow> uri_lib \<Rightarrow> jar_lib \<Rightarrow> int \<Rightarrow> string \<Rightarrow> string \<Rightarrow> store \<Rightarrow> core_error + store" where
  "core_set_cookie U N L now url value s =
     and_then (http_url U url) (\<lambda>url.
     and_then (ok_or (invalid_request ''invalid Set-Cookie value'') (cookie_parse L value)) (\<lambda>cookie.
     Inr (jar_add L s now (Some cookie) (into_uri N (ul_as_str U url)))))"

definition core_cookies ::
    "'l url_ops \<Rightarrow> uri_lib \<Rightarrow> jar_lib \<Rightarrow> int \<Rightarrow> string \<Rightarrow> store \<Rightarrow> core_error + (string \<times> string) list" where
  "core_cookies U N L now url s =
     and_then (http_url U url) (\<lambda>url.
     Inr (map (\<lambda>c. (c_name c, c_value c)) (jar_matches L s now (into_uri N (ul_as_str U url)))))"

section \<open>Uploads\<close>

record file_info =
  fi_is_file :: bool
  fi_len :: u64
  fi_data :: string

text \<open>
  Opening a file and reading its metadata may each fail. The data is what reading the file yields later;
  \<open>fs_chunks\<close> cuts it as the reader does, \<open>fs_wrap\<close> boxes the chunks as a stream.
\<close>

record 'bd file_system =
  fs_open :: "string \<Rightarrow> file_info option option"
  fs_chunks :: "string \<Rightarrow> (std_error + string) list"
  fs_wrap :: "(std_error + string) list \<Rightarrow> 'bd"
  fs_file_name :: "string \<Rightarrow> string option"

definition file_error :: core_error where
  "file_error = CoreError ''FILE_IO'' ''cannot open or inspect upload file''"

definition file_body :: "'bd file_system \<Rightarrow> string \<Rightarrow> core_error + 'bd body \<times> u64" where
  "file_body F p =
     and_then (ok_or file_error (fs_open F p)) (\<lambda>file.
     and_then (ok_or file_error file) (\<lambda>metadata.
       if \<not> fi_is_file metadata then Inl (invalid_request ''upload source must be a regular file'')
       else
         (let len = fi_len metadata
          in Inr (Streaming None (fs_wrap F (fs_chunks F (take (unat len) (fi_data metadata)))), len))))"

section \<open>Requests\<close>

record multipart_part =
  mp_name :: string
  mp_offset :: u64
  mp_length :: u64
  mp_file :: "string option"
  mp_filename :: "string option"
  mp_content_type :: "string option"

record core_request_options =
  qo_body_file :: "string option"
  qo_params :: "(string \<times> string) list"
  qo_timeout_ms :: "u32 option"
  qo_max_redirects :: "u32 option"
  qo_basic_auth :: "(string \<times> string) option"
  qo_bearer_token :: "string option"
  qo_multipart :: "multipart_part list option"

definition request_options_default :: core_request_options where
  "request_options_default =
     \<lparr>qo_body_file = None, qo_params = [], qo_timeout_ms = None, qo_max_redirects = None,
      qo_basic_auth = None, qo_bearer_token = None, qo_multipart = None\<rparr>"

text \<open>\<open>checked_add\<close>, and \<open>get\<close> of a range of a slice.\<close>

definition checked_add :: "u64 \<Rightarrow> u64 \<Rightarrow> u64 option" where
  "checked_add a b = (if unat a + unat b < 2 ^ 64 then Some (a + b) else None)"

definition slice_get :: "string \<Rightarrow> u64 \<Rightarrow> u64 \<Rightarrow> string option" where
  "slice_get data a b =
     (if a \<le> b \<and> unat b \<le> length data then Some (take (unat b - unat a) (drop (unat a) data)) else None)"

text \<open>What a request needs besides the client's libraries.\<close>

record ('l, 'bd, 'h) request_env =
  qe_url :: "'l url_ops"
  qe_extend_pairs :: "'l \<Rightarrow> (string \<times> string) list \<Rightarrow> 'l"
  qe_uri :: uri_lib
  qe_method :: "string \<Rightarrow> string + string"
  qe_decode :: "string \<Rightarrow> string"
  qe_b64 :: "string \<Rightarrow> string"
  qe_percent :: percent_lib
  qe_data :: "'bd \<Rightarrow> (std_error + string) list"
  qe_files :: "'bd file_system"
  qe_mime :: "string \<Rightarrow> std_error + string"
  qe_random :: "u64 \<times> u64"

definition core_part ::
    "('c, 'k, 'b, 'h, 'm, 'n, 'bd, 'pf, 'pl) core_lib \<Rightarrow> ('l, 'bd, 'h) request_env \<Rightarrow> string \<Rightarrow> multipart_part \<Rightarrow>
     core_error + string \<times> ('h, 'bd) part" where
  "core_part K Q data d =
     (let filename = (case mp_filename d of
            Some f \<Rightarrow> Some f
          | None \<Rightarrow> Option.bind (mp_file d) (fs_file_name (qe_files Q)))
      in and_then
           (case mp_file d of
              Some p \<Rightarrow>
                if mp_offset d \<noteq> 0 \<or> mp_length d \<noteq> 0
                then Inl (invalid_request ''multipart file cannot include a byte range'')
                else and_then (file_body (qe_files Q) p)
                       (\<lambda>(body, len). Inr (part_stream_with_length (kl_headers K) body len))
            | None \<Rightarrow>
                and_then (ok_or (invalid_request ''invalid multipart byte range'')
                    (Option.bind (checked_add (mp_offset d) (mp_length d)) (slice_get data (mp_offset d))))
                  (\<lambda>bytes. Inr (part_bytes (kl_headers K) bytes)))
           (\<lambda>part.
              let part = (case filename of Some f \<Rightarrow> part_file_name f part | None \<Rightarrow> part)
              in and_then (case mp_content_type d of
                             Some ct \<Rightarrow> core_try K (part_mime_str (qe_mime Q) ct part)
                           | None \<Rightarrow> Inr part)
                   (\<lambda>part. Inr (mp_name d, part))))"

fun core_form ::
    "('c, 'k, 'b, 'h, 'm, 'n, 'bd, 'pf, 'pl) core_lib \<Rightarrow> ('l, 'bd, 'h) request_env \<Rightarrow> string \<Rightarrow>
     ('h, 'bd) form \<Rightarrow> multipart_part list \<Rightarrow> core_error + ('h, 'bd) form" where
  "core_form K Q data fm [] = Inr fm"
| "core_form K Q data fm (d # ds) =
     and_then (core_part K Q data d) (\<lambda>(name, part). core_form K Q data (form_part name part fm) ds)"

text \<open>The loop over the headers: the names as given, and the values appended.\<close>

fun core_headers ::
    "('c, 'k, 'b, 'h, 'm, 'n, 'bd, 'pf, 'pl) core_lib \<Rightarrow> 'm \<Rightarrow> ('cl, 'h, 'm, 'n, 'bd) request_builder \<Rightarrow>
     (string \<times> string) list \<Rightarrow> 'm \<times> ('cl, 'h, 'm, 'n, 'bd) request_builder" where
  "core_headers K names B [] = (names, B)"
| "core_headers K names B ((name, value) # hs) =
     core_headers K (fst (orig_insert (kl_cases K) (\<lambda>n. case kl_to_name K n of Inr k \<Rightarrow> Some k | Inl _ \<Rightarrow> None) names (Cased name)))
       (rb_header (kl_headers K) (kl_to_name K name) (kl_to_value K value) B) hs"

text \<open>The checks made before a request is built.\<close>

definition has_header :: "string \<Rightarrow> (string \<times> string) list \<Rightarrow> bool" where
  "has_header n headers \<longleftrightarrow> list_ex (\<lambda>(name, _). eq_ignore_ascii_case name n) headers"

definition auth_conflict :: "core_request_options \<Rightarrow> (string \<times> string) list \<Rightarrow> core_error option" where
  "auth_conflict opts headers =
     (if qo_basic_auth opts \<noteq> None \<and> qo_bearer_token opts \<noteq> None
      then Some (invalid_request ''basic_auth and bearer_token are mutually exclusive'')
      else if (qo_basic_auth opts \<noteq> None \<or> qo_bearer_token opts \<noteq> None) \<and> has_header ''authorization'' headers
      then Some (invalid_request ''explicit Authorization header conflicts with authentication options'')
      else None)"

definition body_conflict :: "core_request_options \<Rightarrow> (string \<times> string) list \<Rightarrow> string option \<Rightarrow> core_error option" where
  "body_conflict opts headers body =
     (if qo_body_file opts \<noteq> None \<and> (body \<noteq> None \<or> qo_multipart opts \<noteq> None)
      then Some (invalid_request ''body_file conflicts with another request body'')
      else if (qo_body_file opts \<noteq> None \<or>
               (case qo_multipart opts of Some parts \<Rightarrow> list_ex (\<lambda>p. mp_file p \<noteq> None) parts | None \<Rightarrow> False)) \<and>
              (has_header ''content-length'' headers \<or> has_header ''transfer-encoding'' headers)
      then Some (invalid_request ''file upload framing is managed by the client'')
      else None)"

text \<open>
  Everything \<open>stream_with_options\<close> does before sending. A file's length is sent as the
  Content-Length.
\<close>

definition core_body ::
    "('c, 'k, 'b, 'h, 'm, 'n, 'bd, 'pf, 'pl) core_lib \<Rightarrow> ('l, 'bd, 'h) request_env \<Rightarrow> string option \<Rightarrow>
     core_request_options \<Rightarrow> ('cl, 'h, 'm, 'n, 'bd) request_builder \<Rightarrow>
     core_error + ('cl, 'h, 'm, 'n, 'bd) request_builder" where
  "core_body K Q body opts B =
     (case qo_multipart opts of
        Some parts \<Rightarrow>
          and_then (core_form K Q (case body of Some d \<Rightarrow> d | None \<Rightarrow> [])
                      (form_new (fst (qe_random Q)) (snd (qe_random Q))) parts)
            (\<lambda>fm. Inr (rb_multipart (kl_headers K) (kl_to_value K) (qe_percent Q) (qe_data Q) (fs_wrap (qe_files Q)) fm B))
      | None \<Rightarrow>
          (case qo_body_file opts of
             Some p \<Rightarrow>
               and_then (file_body (qe_files Q) p) (\<lambda>(b, len).
                 Inr (rb_body b (rb_header (kl_headers K) (Inr ''content-length'') (Inr (plain (decimal (unat len)))) B)))
           | None \<Rightarrow> (case body of Some b \<Rightarrow> Inr (rb_body (Reusable b) B) | None \<Rightarrow> Inr B)))"

definition core_prepare ::
    "('c, 'k, 'b, 'h, 'm, 'n, 'bd, 'pf, 'pl) core_lib \<Rightarrow> ('l, 'bd, 'h) request_env \<Rightarrow> 'cl core_client \<Rightarrow>
     string \<Rightarrow> string \<Rightarrow> (string \<times> string) list \<Rightarrow> string option \<Rightarrow> core_request_options \<Rightarrow>
     core_error + ('cl, 'h, 'm, 'n, 'bd) request_builder" where
  "core_prepare K Q c mth url headers body opts =
     and_then (map_err invalid_request (qe_method Q mth)) (\<lambda>mth.
     and_then (http_url (qe_url Q) url) (\<lambda>url.
       let url = (if qo_params opts \<noteq> [] then qe_extend_pairs Q url (qo_params opts) else url) in
       case auth_conflict opts headers of
         Some e \<Rightarrow> Inl e
       | None \<Rightarrow>
           and_then (when_given (\<lambda>t B. and_then (positive_ms t) (\<lambda>t. Inr (rb_timeout (unat t) B))) (qo_timeout_ms opts)
               (client_new_request (qe_uri Q) (kl_headers K) (qe_decode Q) (qe_b64 Q) (kc_inner c) mth
                  (ul_as_str (qe_url Q) url))) (\<lambda>B.
             let B = (case qo_max_redirects opts of
                        Some limit \<Rightarrow> rb_redirect (redirect_limit_policy limit) B | None \<Rightarrow> B);
                 B = (case qo_basic_auth opts of
                        Some (user, password) \<Rightarrow> rb_basic_auth (kl_headers K) (qe_b64 Q) user (Some password) B
                      | None \<Rightarrow> B);
                 B = (case qo_bearer_token opts of
                        Some token \<Rightarrow> rb_bearer_auth (kl_headers K) (kl_to_value K) token B | None \<Rightarrow> B)
             in case body_conflict opts headers body of
                  Some e \<Rightarrow> Inl e
                | None \<Rightarrow>
                    (case core_headers K (co_new (kl_cases K)) B headers of
                       (names, B) \<Rightarrow>
                         core_body K Q body opts (if headers \<noteq> [] then rb_orig_headers names B else B)))))"

section \<open>Responses\<close>

record core_response =
  re_status :: nat
  re_http_version :: string
  re_url :: string
  re_headers :: "(string \<times> string) list"
  re_body :: string

text \<open>A response of the client: its head, and the chunks its body will yield.\<close>

record 'h wire_response =
  wr_status :: nat
  wr_version :: http_version
  wr_uri :: string
  wr_headers :: 'h
  wr_chunks :: "(std_error + string) list"

fun core_version_name :: "http_version \<Rightarrow> string" where
  "core_version_name HTTP_09 = ''0.9''"
| "core_version_name HTTP_10 = ''1.0''"
| "core_version_name HTTP_11 = ''1.1''"
| "core_version_name HTTP_2 = ''2''"
| "core_version_name HTTP_3 = ''unknown''"

definition core_head :: "'h header_ops \<Rightarrow> 'h wire_response \<Rightarrow> core_response" where
  "core_head H r =
     \<lparr>re_status = wr_status r, re_http_version = core_version_name (wr_version r), re_url = wr_uri r,
      re_headers = map (\<lambda>(n, v). (n, hv_bytes v)) (h_iter H (wr_headers r)), re_body = []\<rparr>"

definition core_stream_with_options ::
    "('c, 'k, 'b, 'h, 'm, 'n, 'bd, 'pf, 'pl) core_lib \<Rightarrow> ('l, 'bd, 'h) request_env \<Rightarrow>
     ('cl \<Rightarrow> ('h, 'm, 'n, 'bd) api_request \<times> 'bd body \<Rightarrow> std_error + 'h wire_response) \<Rightarrow> 'cl core_client \<Rightarrow>
     string \<Rightarrow> string \<Rightarrow> (string \<times> string) list \<Rightarrow> string option \<Rightarrow> core_request_options \<Rightarrow>
     core_error + core_response \<times> (std_error + string) list" where
  "core_stream_with_options K Q service c mth url headers body opts =
     and_then (core_prepare K Q c mth url headers body opts) (\<lambda>B.
     and_then (core_try K (rb_send service B)) (\<lambda>(r, _).
     Inr (core_head (kl_headers K) r, wr_chunks r)))"

text \<open>
  Reading the whole body, up to a limit: the loop of \<open>request_with_options\<close>. An error of the stream ends it.
\<close>

fun collect_body :: "(std_error \<Rightarrow> core_error) \<Rightarrow> nat \<Rightarrow> string \<Rightarrow> (std_error + string) list \<Rightarrow> core_error + string" where
  "collect_body err limit body [] = Inr body"
| "collect_body err limit body (Inl e # chunks) = Inl (err e)"
| "collect_body err limit body (Inr chunk # chunks) =
     (if length chunk > limit - length body
      then Inl (CoreError ''BODY_TOO_LARGE'' (''response exceeds '' @ decimal limit @ '' bytes''))
      else collect_body err limit (body @ chunk) chunks)"

definition core_request_with_options ::
    "('c, 'k, 'b, 'h, 'm, 'n, 'bd, 'pf, 'pl) core_lib \<Rightarrow> ('l, 'bd, 'h) request_env \<Rightarrow>
     ('cl \<Rightarrow> ('h, 'm, 'n, 'bd) api_request \<times> 'bd body \<Rightarrow> std_error + 'h wire_response) \<Rightarrow> 'cl core_client \<Rightarrow>
     string \<Rightarrow> string \<Rightarrow> (string \<times> string) list \<Rightarrow> string option \<Rightarrow> core_request_options \<Rightarrow>
     core_error + core_response" where
  "core_request_with_options K Q service c mth url headers body opts =
     and_then (core_stream_with_options K Q service c mth url headers body opts) (\<lambda>(head, chunks).
     and_then (collect_body (core_of_error (kl_show_error K)) (kc_max_response_bytes c) [] chunks) (\<lambda>body.
     Inr (head\<lparr>re_body := body\<rparr>)))"

definition core_request ::
    "('c, 'k, 'b, 'h, 'm, 'n, 'bd, 'pf, 'pl) core_lib \<Rightarrow> ('l, 'bd, 'h) request_env \<Rightarrow>
     ('cl \<Rightarrow> ('h, 'm, 'n, 'bd) api_request \<times> 'bd body \<Rightarrow> std_error + 'h wire_response) \<Rightarrow> 'cl core_client \<Rightarrow>
     string \<Rightarrow> string \<Rightarrow> (string \<times> string) list \<Rightarrow> string option \<Rightarrow> core_error + core_response" where
  "core_request K Q service c mth url headers body =
     core_request_with_options K Q service c mth url headers body request_options_default"

section \<open>Lemmas\<close>

text \<open>
  A body is returned exactly when the stream ends well within the limit, and then it is what the
  stream yielded.
\<close>

lemma collect_body_Inr:
  "length body \<le> limit \<Longrightarrow>
   collect_body err limit body chunks = Inr b \<longleftrightarrow> (\<exists>c. streamed chunks c \<and> b = body @ c \<and> length b \<le> limit)"
proof (induction chunks arbitrary: body)
  case (Cons x chunks)
  show ?case
  proof (cases x)
    case (Inl e)
    then show ?thesis by (auto simp: streamed_def)
  next
    case (Inr chunk)
    have str: "streamed (Inr chunk # chunks) c \<longleftrightarrow> (\<exists>c'. streamed chunks c' \<and> c = chunk @ c')" for c
      unfolding streamed_def by (auto simp: Cons_eq_map_conv)
    show ?thesis
    proof (cases "length chunk > limit - length body")
      case True
      with Inr Cons.prems show ?thesis by (auto simp: str)
    next
      case False
      then have "length (body @ chunk) \<le> limit" using Cons.prems by simp
      with Inr False Cons.IH show ?thesis by (auto simp: str)
    qed
  qed
qed auto

text \<open>
  C29. A whole response is returned exactly when its body ends without an error and is not longer than the
  client's limit, and then with all of its bytes; the limit itself is allowed.
\<close>

theorem body_limit_exact:
  "core_request_with_options K Q service c mth url headers body opts = Inr r \<longleftrightarrow>
     (\<exists>head chunks bytes.
        core_stream_with_options K Q service c mth url headers body opts = Inr (head, chunks) \<and>
        streamed chunks bytes \<and> length bytes \<le> kc_max_response_bytes c \<and> r = head\<lparr>re_body := bytes\<rparr>)"
  by (fastforce simp: core_request_with_options_def and_then_Inr_iff collect_body_Inr)

text \<open>What the options after the verification setting leave alone.\<close>

definition core_kept ::
    "bool \<Rightarrow> ('c, 'k, 'b, 'h, 'm, 'n, 'bd) client_settings \<Rightarrow> ('c, 'k, 'b, 'h, 'm, 'n, 'bd) client_settings \<Rightarrow> bool" where
  "core_kept k S S' \<longleftrightarrow>
     (k \<or> st_proxies S' = st_proxies S) \<and>
     st_tls_cert_verification S' = st_tls_cert_verification S \<and>
     st_tls_verify_hostname S' = st_tls_verify_hostname S \<and>
     st_redirect_policy S' = st_redirect_policy S \<and>
     tm_total (st_timeout_options S') = tm_total (st_timeout_options S) \<and>
     st_cookie_store S' = st_cookie_store S \<and>
     (\<not> st_auto_sys_proxy S \<longrightarrow> \<not> st_auto_sys_proxy S')"

lemma core_kept_refl [simp]: "core_kept k S S"
  by (simp add: core_kept_def)

lemma core_kept_trans [trans]: "core_kept k S T \<Longrightarrow> core_kept k T U \<Longrightarrow> core_kept k S U"
  by (auto simp: core_kept_def)

lemma when_given_kept:
  assumes "when_given f x S = Inr S'" and "\<And>a T. f a S = Inr T \<Longrightarrow> core_kept k S T"
  shows "core_kept k S S'"
  using assms by (cases x) (auto simp: when_given_def)

lemma tls_config_apply_kept: "tls_config_apply cfg S base = Inr S' \<Longrightarrow> core_kept k S S'"
  by (auto simp: tls_config_apply_def and_then_Inr_iff Let_def core_kept_def client_tls_options_def client_tls_sni_def
      split: if_splits option.splits)

lemma http2_config_apply_kept: "http2_config_apply d cfg S base = Inr S' \<Longrightarrow> core_kept k S S'"
  by (auto simp: http2_config_apply_def and_then_Inr_iff Let_def core_kept_def client_http2_options_def
      split: if_splits)

lemma identity_config_apply_kept: "identity_config_apply X sh cfg S = Inr S' \<Longrightarrow> core_kept k S S'"
  by (auto simp: identity_config_apply_def and_then_Inr_iff core_kept_def client_tls_identity_def)

lemma core_http_version_kept: "core_http_version v S = Inr S' \<Longrightarrow> core_kept k S S'"
  by (auto simp: core_http_version_def core_kept_def client_http1_only_def client_http2_only_def split: if_splits)

lemma core_user_agent_kept: "core_kept k S (client_user_agent H v S)"
  by (simp add: client_user_agent_def core_kept_def split: sum.split)

lemma emulation_kept: "client_emulation H C e S = Some S' \<Longrightarrow> core_kept k S S'"
  by (auto simp: client_emulation_def client_default_headers_def client_orig_headers_def client_http2_options_def
      client_http1_options_def client_tls_options_def core_kept_def)

text \<open>The settings the security of a client rests on.\<close>

definition core_secure ::
    "('pf, 'pl) core_options \<Rightarrow> nat \<Rightarrow> u32 \<Rightarrow> ('c, 'k, 'b, 'h, 'm, 'n, 'bd) client_settings \<Rightarrow> bool" where
  "core_secure opts jar timeout_ms S \<longleftrightarrow>
     st_tls_cert_verification S = (cl_verify opts \<noteq> Some False) \<and>
     st_tls_verify_hostname S \<and>
     st_redirect_policy S = redirect_limit_policy (case cl_max_redirects opts of Some n \<Rightarrow> n | None \<Rightarrow> 10) \<and>
     tm_total (st_timeout_options S) = Some (unat timeout_ms) \<and>
     st_cookie_store S = (if cl_cookies opts = Some False then None else Some jar) \<and>
     \<not> st_auto_sys_proxy S"

text \<open>The matchers a client has after the option for a proxy: the one of the proxy given, at the end.\<close>

definition core_proxies ::
    "('c, 'k, 'b, 'h, 'm, 'n, 'bd, 'pf, 'pl) core_lib \<Rightarrow> ('pf, 'pl) core_options \<Rightarrow>
     ('h, 'n) matcher list \<Rightarrow> ('h, 'n) matcher list \<Rightarrow> bool" where
  "core_proxies K opts ps ps' \<longleftrightarrow>
     (case cl_proxy opts of
        None \<Rightarrow> ps' = ps
      | Some p \<Rightarrow> \<exists>q. proxy_all (kl_proxies K) p = Inr q \<and> ps' = ps @ [into_matcher (kl_proxies K) q])"

lemma core_kept_secure: "core_kept k S S' \<Longrightarrow> core_secure opts jar t S \<Longrightarrow> core_secure opts jar t S'"
  by (auto simp: core_kept_def core_secure_def)

lemma unat_ucast_u32_u64: "unat (ucast (t :: u32) :: u64) = unat t"
proof -
  have "unat t < 2 ^ LENGTH(32)" by (rule unsigned_less)
  then have "take_bit 64 (unat t) = unat t"
    by (intro take_bit_nat_eq_self) simp
  then show ?thesis by (simp add: unsigned_ucast_eq)
qed

lemma core_base_secure:
  assumes "core_base_settings jar t opts S0 = Inr S"
    and "st_tls_verify_hostname S0" "\<not> st_auto_sys_proxy S0" "st_cookie_store S0 = None" "st_proxies S0 = []"
  shows "core_secure opts jar t S" and "t \<noteq> 0" and "st_proxies S = []"
  using assms
  by (auto simp: core_base_settings_def Let_def and_then_Inr_iff positive_ms_def unat_ucast_u32_u64
      core_secure_def client_cookie_provider_def client_tls_cert_verification_def
      client_timeout_def client_redirect_def client_no_zstd_def client_no_deflate_def client_no_brotli_def
      client_no_gzip_def client_zstd_def client_deflate_def client_brotli_def client_gzip_def set_total_timeout_def
      split: option.splits if_splits)

lemmas core_step_defs = core_kept_def and_then_Inr_iff client_connect_timeout_def client_read_timeout_def
  set_read_timeout_def client_proxy_def client_tls_cert_store_def

lemma core_settings_kept:
  assumes "core_settings K opts ptls ph2 S4 = Inr S"
  shows "core_kept True S4 S" and "core_proxies K opts (st_proxies S4) (st_proxies S)"
proof -
  let ?ua = "\<lambda>S8. case cl_user_agent opts of
      Some agent \<Rightarrow> client_user_agent (kl_headers K) (kl_to_value K agent) S8 | None \<Rightarrow> S8"
  obtain S5 S6 S7 S8 S10 S11 S12 where
    c: "when_given (\<lambda>t S. and_then (positive_ms t) (\<lambda>t. Inr (client_connect_timeout t S))) (cl_connect_timeout_ms opts) S4 = Inr S5"
    and r: "when_given (\<lambda>t S. and_then (positive_ms t) (\<lambda>t. Inr (client_read_timeout (unat t) S))) (cl_read_timeout_ms opts) S5 = Inr S6"
    and p: "when_given (\<lambda>p S. and_then (core_try K (map_err uri_std_error (proxy_all (kl_proxies K) p)))
        (\<lambda>p. Inr (client_proxy (kl_proxies K) p S))) (cl_proxy opts) S6 = Inr S7"
    and ca: "when_given (\<lambda>pem S. and_then (core_try K (store_from_stack (kl_x509 K) pem))
        (\<lambda>store. Inr (client_tls_cert_store store S))) (cl_ca_pem opts) S7 = Inr S8"
    and v: "when_given core_http_version (cl_http_version opts) (?ua S8) = Inr S10"
    and tls: "when_given (\<lambda>tls S. tls_config_apply tls S ptls) (cl_tls opts) S10 = Inr S11"
    and h2: "when_given (\<lambda>h2 S. http2_config_apply (kl_http2_default K) h2 S ph2) (cl_http2 opts) S11 = Inr S12"
    and i: "when_given (\<lambda>i S. identity_config_apply (kl_x509 K) (kl_show_error K) i S) (cl_identity opts) S12 = Inr S"
    using assms unfolding core_settings_def and_then_Inr_iff by blast
  have "core_kept False S4 S5" by (rule when_given_kept [OF c]) (auto simp: core_step_defs)
  also have "core_kept False S5 S6" by (rule when_given_kept [OF r]) (auto simp: core_step_defs)
  finally have before: "core_kept False S4 S6" .
  have "core_kept False S7 S8" by (rule when_given_kept [OF ca]) (auto simp: core_step_defs)
  also have "core_kept False S8 (?ua S8)" by (simp add: core_user_agent_kept split: option.split)
  also have "core_kept False (?ua S8) S10" by (rule when_given_kept [OF v core_http_version_kept])
  also have "core_kept False S10 S11" by (rule when_given_kept [OF tls tls_config_apply_kept])
  also have "core_kept False S11 S12" by (rule when_given_kept [OF h2 http2_config_apply_kept])
  also have "core_kept False S12 S" by (rule when_given_kept [OF i identity_config_apply_kept])
  finally have after: "core_kept False S7 S" .
  show "core_kept True S4 S"
    using before after p by (cases "cl_proxy opts") (auto simp: when_given_def core_step_defs)
  show "core_proxies K opts (st_proxies S4) (st_proxies S)"
    using before after p
    by (cases "cl_proxy opts")
      (auto simp: core_proxies_def when_given_def core_step_defs core_try_def map_err_def split: sum.splits)
qed

lemma core_random_tls_kept: "core_random_tls K opts S = Inr S' \<Longrightarrow> core_kept k S S'"
  by (auto simp: core_random_tls_def and_then_Inr_iff core_kept_def client_tls_options_def split: if_splits)

lemma core_profile_kept: "core_profile K opts S = Some (Inr (S', ptls, ph2)) \<Longrightarrow> core_kept k S S'"
  by (auto simp: core_profile_def Let_def dest: emulation_kept split: if_splits option.splits)

lemma core_with_options_parts:
  assumes "core_with_options K build base jar t m opts = Some (Inr c)"
    and "st_tls_verify_hostname base" "st_cookie_store base = None"
  shows "\<exists>S. build S = Inr (kc_inner c) \<and> core_secure opts jar t S \<and> core_proxies K opts [] (st_proxies S) \<and>
    t \<noteq> 0 \<and> m \<noteq> 0 \<and> kc_max_response_bytes c = unat m"
proof -
  obtain S1 S2 ptls ph2 S3 S where
    r: "core_random_tls K opts (client_no_proxy base) = Inr S1"
    and p: "core_profile K opts S1 = Some (Inr (S2, ptls, ph2))"
    and s: "core_base_settings jar t opts S2 = Inr S3" "core_settings K opts ptls ph2 S3 = Inr S"
    and b: "core_try K (build S) = Inr (kc_inner c)" and m: "m \<noteq> 0" "kc_max_response_bytes c = unat m"
    using assms(1) by (auto simp: core_with_options_def and_then_Inr_iff split: if_splits sum.splits)
  have "core_kept False (client_no_proxy base) S2"
    using core_kept_trans [OF core_random_tls_kept [OF r] core_profile_kept [OF p]] .
  then have "st_tls_verify_hostname S2" "\<not> st_auto_sys_proxy S2" "st_cookie_store S2 = None" "st_proxies S2 = []"
    using assms(2,3) by (simp_all add: core_kept_def client_no_proxy_def)
  note secure = core_base_secure [OF s(1) this]
  have "core_secure opts jar t S"
    by (rule core_kept_secure [OF core_settings_kept(1) [OF s(2)] secure(1)])
  with secure(2) core_settings_kept(2) [OF s(2), unfolded secure(3)] b m show ?thesis
    by (cases "build S") (auto simp: core_try_def map_err_def)
qed

section \<open>Clients of the bindings\<close>

lemma built_client_layers:
  assumes "client_build E X env C B nc nt um cache S = Inr c"
  shows "bc_timeouts c = st_timeout_options S" and "bc_cookie_store c = st_cookie_store S"
  using assms by (auto simp: client_build_def Let_def and_then_Inr_iff split: option.splits)

text \<open>
  C15. A client made by the bindings is secure by its options alone: it verifies certificates unless told not to,
  always verifies host names, uses exactly the proxy given or none, and never the system's, follows at
  most the given number of redirects (10 by default, none for 0), bounds every request by
  the positive timeout, keeps cookies in its own jar unless they are turned off, and each TLS
  configuration it makes for a connection says so.
\<close>

theorem core_client_secure:
  assumes "core_with_options K (client_build E X env C B nc nt um cache)
      (client_settings_new H C' um' hickory tmr ex) jar t m opts = Some (Inr c)"
    and "build_https_connector E (service_of (bc_connector (kc_inner c))) https d = Inr (http, tc)"
  shows "(SetVerifyPeer v \<in> set (tc_ssl tc) \<longleftrightarrow> v = (cl_verify opts \<noteq> Some False)) \<and>
    hs_verify_hostname (tc_settings tc) \<and>
    (let proxies = cf_proxies (cs_config (service_of (bc_connector (kc_inner c))))
     in case cl_proxy opts of
          None \<Rightarrow> proxies = []
        | Some p \<Rightarrow> \<exists>q. proxy_all (kl_proxies K) p = Inr q \<and> proxies = [into_matcher (kl_proxies K) q]) \<and>
    fp_policy (bc_redirect (kc_inner c)) =
      Some (redirect_limit_policy (case cl_max_redirects opts of Some n \<Rightarrow> n | None \<Rightarrow> 10)) \<and>
    tm_total (bc_timeouts (kc_inner c)) = Some (unat t) \<and> 0 < unat t \<and>
    bc_cookie_store (kc_inner c) = (if cl_cookies opts = Some False then None else Some jar) \<and>
    kc_max_response_bytes c = unat m \<and> 0 < unat m"
proof -
  have base: "st_tls_verify_hostname (client_settings_new H C' um' hickory tmr ex)"
    "st_cookie_store (client_settings_new H C' um' hickory tmr ex) = None"
    by (simp_all add: client_settings_new_def)
  obtain S where b: "client_build E X env C B nc nt um cache S = Inr (kc_inner c)"
    and px: "core_proxies K opts [] (st_proxies S)"
    and s: "core_secure opts jar t S" "t \<noteq> 0" "m \<noteq> 0" "kc_max_response_bytes c = unat m"
    using core_with_options_parts [OF assms(1) base] by blast
  note parts = client_build_parts [OF b]
  note layers = built_client_layers [OF b]
  have "fp_policy (bc_redirect (kc_inner c)) = Some (st_redirect_policy S)"
    by (simp add: parts fp_with_https_only_def fp_with_referer_def fp_new_def)
  moreover have "0 < unat t" "0 < unat m"
    using s(2,3) by (simp_all add: unat_gt_0)
  moreover have "core_proxies K opts [] (cf_proxies (cs_config (service_of (bc_connector (kc_inner c)))))"
    using parts(3) s(1) px by (simp add: core_secure_def)
  ultimately show ?thesis
    using s layers tls_build_handshake(1,4) [OF https_connector_built [OF b assms(2)]] parts(3)
    by (cases "cl_proxy opts")
      (auto simp: core_secure_def core_proxies_def Let_def build_call_iffs client_tls_fields)
qed

definition sample_core_lib ::
    "(nat, nat, nat, sample_headers, (string \<times> case_name list) list, int, unit, nat, nat) core_lib" where
  "sample_core_lib =
     \<lparr>kl_proxies = sample_px,
      kl_x509 = \<lparr>x5_store_new = Inr 0, x5_add_cert = (\<lambda>b c. (None, b + c)), x5_default_paths = (\<lambda>b. (None, b)),
        x5_from_der = (\<lambda>s. Inr (length s)), x5_from_pem = (\<lambda>s. Inr (length s)),
        x5_stack_from_pem = (\<lambda>s. Inr [length s]), x5_key_from_pem = (\<lambda>s. Inr (length s)),
        x5_parse_pkcs12 = (\<lambda>b p. Inr (0, 0, None))\<rparr>,
      kl_headers = list_headers, kl_cases = list_cases, kl_to_name = Inr, kl_to_value = (\<lambda>s. Inr (plain s)),
      kl_entropy = None,
      kl_http2_default = \<lparr>h2_initial_window_size = 65535, h2_initial_conn_window_size = 65535,
        h2_max_frame_size = None, h2_max_header_list_size = None, h2_header_table_size = None,
        h2_enable_push = None, h2_headers_pseudo_order = None\<rparr>,
      kl_emulate = (\<lambda>_ _. emulation_builder list_headers list_cases), kl_platform = 0,
      kl_show_error = (\<lambda>_. ''error'')\<rparr>"

abbreviation sample_build ::
    "(nat, nat, nat, sample_headers, (string \<times> case_name list) list, int, unit) client_settings \<Rightarrow>
     std_error + (nat, nat, nat, sample_headers, (string \<times> case_name list) list, int, unit, unit,
       nat option, string) built_client" where
  "sample_build \<equiv> client_build sample_env sample_px (\<lambda>_. None) list_cases no_budget_ops (\<lambda>n. n) (\<lambda>_. False)
     18446744073709551615 0"

abbreviation sample_base ::
    "(nat, nat, nat, sample_headers, (string \<times> case_name list) list, int, unit) client_settings" where
  "sample_base \<equiv> client_settings_new list_headers list_cases 18446744073709551615 False 0 0"

lemma sample_build_Inr: "st_error S = None \<Longrightarrow> \<exists>c. sample_build S = Inr c"
  using sample_env_tls_build [of "en_webpki sample_env" "client_tls S (tls_connector_builder_new 0)"
      "case st_tls_options S of Some o' \<Rightarrow> o' | None \<Rightarrow> tls_options_default"]
  by (auto simp: client_build_def connector_build_def cb_setters Let_def)

theorem core_client_secure_witness:
  "\<exists>c http tc. core_with_options sample_core_lib sample_build sample_base 0 1000 1024 core_options_default = Some (Inr c) \<and>
     build_https_connector sample_env (service_of (bc_connector (kc_inner c))) True sample_desc = Inr (http, tc) \<and>
     SetVerifyPeer True \<in> set (tc_ssl tc) \<and> SetVerifyPeer False \<notin> set (tc_ssl tc)"
proof -
  obtain S where S: "core_base_settings 0 1000 (core_options_default :: (nat, nat) core_options) (client_no_proxy sample_base) = Inr S"
    and e: "st_error S = None"
    by (simp add: core_base_settings_def core_options_default_def positive_ms_def client_no_proxy_def client_settings_new_def
        client_redirect_def client_timeout_def client_tls_cert_verification_def client_cookie_provider_def)
  obtain b where b: "sample_build S = Inr b"
    using sample_build_Inr [OF e] by blast
  have "\<exists>c. core_with_options sample_core_lib sample_build sample_base 0 1000 1024 core_options_default = Some (Inr c)"
    using S b by (simp add: core_with_options_def core_random_tls_def core_profile_def core_settings_def when_given_def
        core_options_default_def core_try_def map_err_def)
  then obtain c where c: "core_with_options sample_core_lib sample_build sample_base 0 1000 1024 core_options_default = Some (Inr c)"
    by blast
  have "\<exists>http tc. build_https_connector sample_env (service_of (bc_connector (kc_inner c))) True sample_desc = Inr (http, tc)"
    by (simp add: build_https_connector_def sample_desc_def connection_descriptor_new_def)
  then obtain http tc where tc:
    "build_https_connector sample_env (service_of (bc_connector (kc_inner c))) True sample_desc = Inr (http, tc)"
    by blast
  from core_client_secure [OF c tc, where v = True] core_client_secure [OF c tc, where v = False] c tc
  show ?thesis by (auto simp: core_options_default_def)
qed

end
