(* ===== verification/Core_Stream.thy ===== *)
theory Core_Stream
  imports Core_Tls
begin

text \<open>
  Reading a response chunk by chunk (\<open>src/crates/tlsurl-core/src/stream.rs\<close>). The body sits in a
  mutex; a read takes it out while it waits, so that dropping the read drops the connection. Each
  point where another thread may act is a step of its own: \<open>Begin\<close> is a read that gets
  the lock, \<open>Poll\<close> one poll of its \<open>select!\<close>, \<open>Check\<close> the test of the token after it,
  \<open>Restore\<close> putting the body back; \<open>Close\<close> may come between any two. \<open>DropRead\<close> drops a read that
  waits.
\<close>

section \<open>The response\<close>

type_synonym items = "(std_error + string) list"

type_synonym read_result = "core_error + string option"

datatype reader = Reading items | Selected read_result items | Restoring string items

record stream_response =
  sr_body :: "items option"
  sr_cancelled :: bool
  sr_reader :: "reader option"

definition stream_new :: "items \<Rightarrow> stream_response" where
  "stream_new items = \<lparr>sr_body = Some items, sr_cancelled = False, sr_reader = None\<rparr>"

definition cancelled :: core_error where
  "cancelled = CoreError ''CANCELLED'' ''operation cancelled''"

text \<open>\<open>try_lock\<close> fails while a read holds the lock.\<close>

definition stream_close :: "stream_response \<Rightarrow> stream_response" where
  "stream_close st =
     (let st = st\<lparr>sr_cancelled := True\<rparr>
      in if sr_reader st = None then st\<lparr>sr_body := None\<rparr> else st)"

text \<open>A read up to its \<open>select!\<close>.\<close>

definition next_chunk_begin :: "stream_response \<Rightarrow> stream_response \<times> read_result option" where
  "next_chunk_begin st =
     (if sr_cancelled st then (st\<lparr>sr_body := None\<rparr>, Some (Inl cancelled))
      else
        (case sr_body st of
           None \<Rightarrow> (st, Some (Inr None))
         | Some stream \<Rightarrow> (st\<lparr>sr_body := None, sr_reader := Some (Reading stream)\<rparr>, None)))"

text \<open>One poll: cancellation first; \<open>ready\<close> tells whether the stream has an item.\<close>

definition next_chunk_poll :: "(std_error \<Rightarrow> core_error) \<Rightarrow> bool \<Rightarrow> bool \<Rightarrow> items \<Rightarrow> reader" where
  "next_chunk_poll err is_cancelled ready stream =
     (if is_cancelled then Selected (Inl cancelled) stream
      else if \<not> ready then Reading stream
      else
        (case stream of
           [] \<Rightarrow> Selected (Inr None) []
         | Inr b # rest \<Rightarrow> Selected (Inr (Some b)) rest
         | Inl e # rest \<Rightarrow> Selected (Inl (err e)) rest))"

definition next_chunk_check :: "bool \<Rightarrow> read_result \<Rightarrow> items \<Rightarrow> reader + read_result" where
  "next_chunk_check is_cancelled result stream =
     (if is_cancelled then Inr (Inl cancelled)
      else
        (case result of
           Inr (Some b) \<Rightarrow> Inl (Restoring b stream)
         | _ \<Rightarrow> Inr result))"

datatype stream_event = Close | Begin | Poll bool | Check | Restore | DropRead

text \<open>A step, if it can happen, with the result of the read that it ends.\<close>

fun stream_step ::
    "(std_error \<Rightarrow> core_error) \<Rightarrow> stream_event \<Rightarrow> stream_response \<Rightarrow> (stream_response \<times> read_result option) option" where
  "stream_step err Close st = Some (stream_close st, None)"
| "stream_step err Begin st = (if sr_reader st = None then Some (next_chunk_begin st) else None)"
| "stream_step err (Poll ready) st =
     (case sr_reader st of
        Some (Reading s) \<Rightarrow> Some (st\<lparr>sr_reader := Some (next_chunk_poll err (sr_cancelled st) ready s)\<rparr>, None)
      | _ \<Rightarrow> None)"
| "stream_step err Check st =
     (case sr_reader st of
        Some (Selected r s) \<Rightarrow>
          (case next_chunk_check (sr_cancelled st) r s of
             Inl reader \<Rightarrow> Some (st\<lparr>sr_reader := Some reader\<rparr>, None)
           | Inr r \<Rightarrow> Some (st\<lparr>sr_reader := None\<rparr>, Some r))
      | _ \<Rightarrow> None)"
| "stream_step err Restore st =
     (case sr_reader st of
        Some (Restoring b s) \<Rightarrow> Some (st\<lparr>sr_body := Some s, sr_reader := None\<rparr>, Some (Inr (Some b)))
      | _ \<Rightarrow> None)"
| "stream_step err DropRead st =
     (case sr_reader st of Some (Reading s) \<Rightarrow> Some (st\<lparr>sr_reader := None\<rparr>, None) | _ \<Rightarrow> None)"

text \<open>The results of the reads, in order.\<close>

fun stream_run ::
    "(std_error \<Rightarrow> core_error) \<Rightarrow> stream_response \<Rightarrow> stream_event list \<Rightarrow> (stream_response \<times> read_result list) option" where
  "stream_run err st [] = Some (st, [])"
| "stream_run err st (e # es) =
     Option.bind (stream_step err e st) (\<lambda>(st', r).
       map_option (\<lambda>(st'', rs). (st'', (case r of Some r \<Rightarrow> r # rs | None \<Rightarrow> rs))) (stream_run err st' es))"

text \<open>\<open>cancellable\<close>: the token before the future.\<close>

definition cancellable :: "bool \<Rightarrow> (core_error + 'a) poll \<Rightarrow> (core_error + 'a) poll" where
  "cancellable is_cancelled future = (if is_cancelled then Ready (Inl cancelled) else future)"

section \<open>Lemmas\<close>

definition chunks_of :: "read_result list \<Rightarrow> string list" where
  "chunks_of rs = List.map_filter (\<lambda>r. case r of Inr (Some b) \<Rightarrow> Some b | _ \<Rightarrow> None) rs"

lemma chunks_of_simps [simp]:
  "chunks_of [] = []" "chunks_of (Inr (Some b) # rs) = b # chunks_of rs"
  "chunks_of (Inr None # rs) = chunks_of rs" "chunks_of (Inl e # rs) = chunks_of rs"
  by (simp_all add: chunks_of_def map_filter_simps)

text \<open>What is still to be delivered in a state, if the stream is there; a chunk selected is still to come.\<close>

definition pending_items :: "stream_response \<Rightarrow> items option" where
  "pending_items st =
     (case sr_reader st of
        None \<Rightarrow> sr_body st
      | Some (Reading s) \<Rightarrow> Some s
      | Some (Selected (Inr (Some b)) s) \<Rightarrow> Some (Inr b # s)
      | Some (Selected (Inr None) s) \<Rightarrow> Some []
      | Some (Selected (Inl e) s) \<Rightarrow> None
      | Some (Restoring b s) \<Rightarrow> Some (Inr b # s))"

definition stream_ok :: "stream_response \<Rightarrow> bool" where
  "stream_ok st \<longleftrightarrow> (sr_reader st \<noteq> None \<longrightarrow> sr_body st = None) \<and>
     (\<forall>s. sr_reader st = Some (Selected (Inr None) s) \<longrightarrow> s = [])"

lemmas step_defs = stream_close_def next_chunk_begin_def next_chunk_poll_def next_chunk_check_def Let_def

lemma stream_step_ok: "stream_step err e st = Some (st', r) \<Longrightarrow> stream_ok st \<Longrightarrow> stream_ok st'"
  by (cases e) (auto simp: stream_ok_def step_defs split: if_splits option.splits reader.splits sum.splits list.splits)

text \<open>A step delivers the next item or none, and never brings a stream back.\<close>

lemma stream_step_pending:
  assumes "stream_step err e st = Some (st', r)" and "stream_ok st"
  shows "case pending_items st of
      None \<Rightarrow> pending_items st' = None \<and> (\<forall>b. r \<noteq> Some (Inr (Some b)))
    | Some s \<Rightarrow> pending_items st' = None \<and> (\<forall>b. r \<noteq> Some (Inr (Some b))) \<or>
        pending_items st' = Some s \<and> r = None \<or>
        (\<exists>b s'. s = Inr b # s' \<and> pending_items st' = Some s' \<and> r = Some (Inr (Some b)))"
  using assms
  by (cases e) (auto simp: pending_items_def stream_ok_def step_defs
      split: if_splits option.splits reader.splits sum.splits list.splits)

lemma stream_run_Cons:
  "stream_run err st (e # es) = Some (st'', rs) \<longleftrightarrow>
     (\<exists>st' r rs'. stream_step err e st = Some (st', r) \<and> stream_run err st' es = Some (st'', rs') \<and>
        rs = (case r of Some r \<Rightarrow> r # rs' | None \<Rightarrow> rs'))"
  by (auto simp: bind_eq_Some_conv)

declare stream_run.simps(2) [simp del]

lemma chunks_of_step: "chunks_of (case r of Some r \<Rightarrow> r # rs | None \<Rightarrow> rs) =
    (case r of Some (Inr (Some b)) \<Rightarrow> b # chunks_of rs | _ \<Rightarrow> chunks_of rs)"
  by (auto split: option.split sum.split)

text \<open>The chunks delivered are the first items of the stream.\<close>

lemma stream_run_pending:
  "stream_run err st es = Some (st', rs) \<Longrightarrow> stream_ok st \<Longrightarrow>
   (case pending_items st of
      None \<Rightarrow> chunks_of rs = []
    | Some s \<Rightarrow> prefix (map Inr (chunks_of rs)) s)"
proof (induction es arbitrary: st rs)
  case Nil
  then show ?case by (auto split: option.split)
next
  case (Cons e es)
  then obtain st1 r rs' where s: "stream_step err e st = Some (st1, r)" "stream_run err st1 es = Some (st', rs')"
    and rs: "rs = (case r of Some r \<Rightarrow> r # rs' | None \<Rightarrow> rs')"
    by (auto simp: stream_run_Cons)
  have IH: "case pending_items st1 of None \<Rightarrow> chunks_of rs' = [] | Some s \<Rightarrow> prefix (map Inr (chunks_of rs')) s"
    using Cons.IH s(2) stream_step_ok [OF s(1) Cons.prems(2)] by blast
  show ?case
    using stream_step_pending [OF s(1) Cons.prems(2)] IH
    by (auto simp: rs chunks_of_step split: option.splits sum.splits)
qed

text \<open>
  Without cancellation and dropped reads a stream ends at its end or at its first error. \<open>out\<close> are the results so far.
\<close>

definition stream_track :: "(std_error \<Rightarrow> core_error) \<Rightarrow> items \<Rightarrow> read_result list \<Rightarrow> stream_response \<Rightarrow> bool" where
  "stream_track err items out st \<longleftrightarrow> stream_ok st \<and> \<not> sr_cancelled st \<and>
     (case pending_items st of
        Some s \<Rightarrow> items = map Inr (chunks_of out) @ s \<and> Inr None \<notin> set out
      | None \<Rightarrow>
          items = map Inr (chunks_of out) \<or>
          (\<exists>e rest. items = map Inr (chunks_of out) @ Inl e # rest \<and>
             (Inl (err e) \<in> set out \<or>
              Inr None \<notin> set out \<and> (\<exists>s. sr_reader st = Some (Selected (Inl (err e)) s)))))"

lemma chunks_of_append [simp]: "chunks_of (xs @ ys) = chunks_of xs @ chunks_of ys"
  by (simp add: chunks_of_def List.map_filter_def)

lemma stream_step_track:
  assumes "stream_step err e st = Some (st', r)" and "stream_track err items out st"
    and "e \<noteq> Close" "e \<noteq> DropRead"
  shows "stream_track err items (out @ (case r of Some r \<Rightarrow> [r] | None \<Rightarrow> [])) st'"
  using assms
  by (cases e) (auto simp: stream_track_def stream_ok_def pending_items_def step_defs
      split: if_splits option.splits reader.splits sum.splits list.splits)

lemma stream_run_track:
  "stream_run err st es = Some (st', rs) \<Longrightarrow> stream_track err items out st \<Longrightarrow>
   Close \<notin> set es \<Longrightarrow> DropRead \<notin> set es \<Longrightarrow> stream_track err items (out @ rs) st'"
proof (induction es arbitrary: st rs out)
  case (Cons e es)
  then obtain st1 r rs' where s: "stream_step err e st = Some (st1, r)" "stream_run err st1 es = Some (st', rs')"
    and rs: "rs = (case r of Some r \<Rightarrow> r # rs' | None \<Rightarrow> rs')"
    by (auto simp: stream_run_Cons)
  have "stream_track err items ((out @ (case r of Some r \<Rightarrow> [r] | None \<Rightarrow> [])) @ rs') st'"
    using Cons.IH [OF s(2) stream_step_track [OF s(1) Cons.prems(2)]] Cons.prems(3,4) by auto
  then show ?case
    by (simp add: rs split: option.splits)
qed simp

section \<open>Properties\<close>

text \<open>
  C23. The chunks that reads deliver are the stream's, in order, each once; and when a read reports the end of a
  response that was neither closed nor had a read dropped, every chunk was delivered, up to the end
  or to an error that was reported.
\<close>

theorem stream_delivers:
  assumes "stream_run err (stream_new items) es = Some (st, rs)"
  shows "prefix (map Inr (chunks_of rs)) items \<and>
    (Inr None \<in> set rs \<longrightarrow> Close \<notin> set es \<longrightarrow> DropRead \<notin> set es \<longrightarrow>
      items = map Inr (chunks_of rs) \<or>
      (\<exists>e rest. items = map Inr (chunks_of rs) @ Inl e # rest \<and> Inl (err e) \<in> set rs))"
proof (intro conjI impI)
  have ok: "stream_ok (stream_new items)" "pending_items (stream_new items) = Some items"
    by (simp_all add: stream_new_def stream_ok_def pending_items_def)
  show "prefix (map Inr (chunks_of rs)) items"
    using stream_run_pending [OF assms ok(1)] ok(2) by simp
  assume none: "Inr None \<in> set rs" and es: "Close \<notin> set es" "DropRead \<notin> set es"
  have "stream_track err items [] (stream_new items)"
    using ok by (simp add: stream_track_def stream_new_def)
  from stream_run_track [OF assms this es] none
  show "items = map Inr (chunks_of rs) \<or> (\<exists>e rest. items = map Inr (chunks_of rs) @ Inl e # rest \<and> Inl (err e) \<in> set rs)"
    by (auto simp: stream_track_def split: option.splits)
qed

abbreviation sample_events :: "stream_event list" where
  "sample_events \<equiv> [Begin, Poll False, Poll True, Check, Restore, Begin, Poll True, Check]"

lemma sample_stream:
  "stream_run (\<lambda>_. cancelled) (stream_new [Inr ''a'']) sample_events =
     Some (\<lparr>sr_body = None, sr_cancelled = False, sr_reader = None\<rparr>, [Inr (Some ''a''), Inr None])"
  by (simp add: stream_run.simps stream_new_def step_defs)

theorem stream_delivers_witness:
  "\<exists>st rs. stream_run (\<lambda>_. cancelled) (stream_new [Inr ''a'']) sample_events = Some (st, rs) \<and>
     Inr None \<in> set rs \<and> prefix (map Inr (chunks_of rs)) [Inr ''a''] \<and> chunks_of rs = [''a'']"
  using stream_delivers [OF sample_stream] sample_stream by simp

lemma stream_step_closed:
  assumes "stream_step err e st = Some (st', r)" and "sr_cancelled st" "sr_body st = None"
    and "\<forall>b s. sr_reader st \<noteq> Some (Restoring b s)"
  shows "sr_cancelled st' \<and> sr_body st' = None \<and> (\<forall>b s. sr_reader st' \<noteq> Some (Restoring b s)) \<and>
    (r = None \<or> r = Some (Inl cancelled))"
  using assms by (cases e) (auto simp: step_defs split: if_splits option.splits reader.splits)

text \<open>
  Once a response is closed no read delivers anything: every read that ends from then on reports the cancellation,
  also the one that was waiting, and the connection is released. (A read that had already
  decided to return its chunk may still do so.)
\<close>

lemma stream_closed_silent:
  assumes "stream_run err (stream_close st) es = Some (st', rs)" and "stream_ok st"
    and "\<forall>b s. sr_reader st \<noteq> Some (Restoring b s)"
  shows "set rs \<subseteq> {Inl cancelled} \<and> sr_body st' = None"
proof -
  have "set rs \<subseteq> {Inl cancelled} \<and> sr_body st' = None"
    if "stream_run err st1 es = Some (st', rs)" "sr_cancelled st1" "sr_body st1 = None"
      "\<forall>b s. sr_reader st1 \<noteq> Some (Restoring b s)" for st1
    using that
  proof (induction es arbitrary: st1 rs)
    case (Cons e es)
    then obtain st2 r rs' where s: "stream_step err e st1 = Some (st2, r)" "stream_run err st2 es = Some (st', rs')"
      and rs: "rs = (case r of Some r \<Rightarrow> r # rs' | None \<Rightarrow> rs')"
      by (auto simp: stream_run_Cons)
    note closed = stream_step_closed [OF s(1) Cons.prems(2-4)]
    with Cons.IH [OF s(2)] show ?case
      by (auto simp: rs split: option.splits)
  qed simp
  moreover have "sr_cancelled (stream_close st)" "sr_body (stream_close st) = None"
    "\<forall>b s. sr_reader (stream_close st) \<noteq> Some (Restoring b s)"
    using assms(2,3) by (auto simp: stream_close_def stream_ok_def Let_def)
  ultimately show ?thesis
    using assms(1) by blast
qed

lemma stream_closed_silent_witness:
  "\<exists>st' rs. stream_run (\<lambda>_. cancelled) (stream_close \<lparr>sr_body = None, sr_cancelled = False, sr_reader = Some (Reading [Inr ''a''])\<rparr>)
      [Poll True, Check, Begin] = Some (st', rs) \<and> rs \<noteq> [] \<and> set rs \<subseteq> {Inl cancelled} \<and> sr_body st' = None"
proof -
  let ?st = "\<lparr>sr_body = None, sr_cancelled = False, sr_reader = Some (Reading [Inr ''a''])\<rparr>"
  have run: "stream_run (\<lambda>_. cancelled) (stream_close ?st) [Poll True, Check, Begin] =
      Some (\<lparr>sr_body = None, sr_cancelled = True, sr_reader = None\<rparr>, [Inl cancelled, Inl cancelled])"
    by (simp add: stream_run.simps step_defs)
  moreover have "stream_ok ?st" "\<forall>b s. sr_reader ?st \<noteq> Some (Restoring b s)"
    by (simp_all add: stream_ok_def)
  ultimately show ?thesis
    using stream_closed_silent [OF run] by blast
qed

text \<open>A close between the last test of a read and the body being put back leaves the connection open.\<close>

lemma close_before_restore:
  "\<exists>st. stream_run err (stream_new [Inr ''a'', Inr ''b'']) [Begin, Poll True, Check, Close, Restore] =
     Some (st, [Inr (Some ''a'')]) \<and> sr_cancelled st \<and> sr_body st = Some [Inr ''b'']"
  by (simp add: stream_run.simps stream_new_def step_defs)

text \<open>After a dropped read the next one reports the end of a response that was not read to its end.\<close>

lemma dropped_read_ends_response:
  "\<exists>st. stream_run err (stream_new [Inr ''a'', Inr ''b'']) [Begin, Poll False, DropRead, Begin] = Some (st, [Inr None]) \<and>
     \<not> sr_cancelled st"
  by (simp add: stream_run.simps stream_new_def step_defs)

end
