(* ===== verification/Ws.thy ===== *)
theory Ws
  imports Request_Builder
begin

text \<open>
  WebSockets (\<open>src/src/client/ws.rs\<close>, \<open>ws/message.rs\<close> and \<open>ws/json.rs\<close>): messages and their
  conversion to those of the WebSocket crate, the request of the opening handshake, the
  checks of its response, and the stream of messages. The crate's own protocol (frames, key
  generation, the derived key) is a parameter.
\<close>

section \<open>Messages\<close>

record close_frame =
  cf_code :: u16
  cf_reason :: string

datatype ws_message = Text string | Binary string | Ping string | Pong string | CloseMsg "close_frame option"

text \<open>The crate's messages: \<open>'code\<close> is its close code, \<open>'f\<close> a raw frame.\<close>

datatype ('code, 'f) tung_message =
    TText string | TBinary string | TPing string | TPong string
  | TClose "('code \<times> string) option" | TFrame 'f

record 'code close_codes =
  cc_from :: "u16 \<Rightarrow> 'code"
  cc_into :: "'code \<Rightarrow> u16"

fun into_tungstenite :: "'code close_codes \<Rightarrow> ws_message \<Rightarrow> ('code, 'f) tung_message" where
  "into_tungstenite CC (Text t) = TText t"
| "into_tungstenite CC (Binary b) = TBinary b"
| "into_tungstenite CC (Ping p) = TPing p"
| "into_tungstenite CC (Pong p) = TPong p"
| "into_tungstenite CC (CloseMsg (Some f)) = TClose (Some (cc_from CC (cf_code f), cf_reason f))"
| "into_tungstenite CC (CloseMsg None) = TClose None"

fun from_tungstenite :: "'code close_codes \<Rightarrow> ('code, 'f) tung_message \<Rightarrow> ws_message option" where
  "from_tungstenite CC (TText t) = Some (Text t)"
| "from_tungstenite CC (TBinary b) = Some (Binary b)"
| "from_tungstenite CC (TPing p) = Some (Ping p)"
| "from_tungstenite CC (TPong p) = Some (Pong p)"
| "from_tungstenite CC (TClose (Some (c, r))) = Some (CloseMsg (Some \<lparr>cf_code = cc_into CC c, cf_reason = r\<rparr>))"
| "from_tungstenite CC (TClose None) = Some (CloseMsg None)"
| "from_tungstenite CC (TFrame f) = None"

text \<open>\<open>Utf8Bytes::try_from\<close>.\<close>

definition utf8_try_from :: "string \<Rightarrow> std_error + string" where
  "utf8_try_from b = (if valid_utf8 b then Inr b else Inl (EOther ''invalid utf-8 sequence'' None))"

fun into_data :: "ws_message \<Rightarrow> string" where
  "into_data (Text t) = t"
| "into_data (Binary b) = b"
| "into_data (Ping b) = b"
| "into_data (Pong b) = b"
| "into_data (CloseMsg None) = []"
| "into_data (CloseMsg (Some f)) = cf_reason f"

fun into_text :: "ws_message \<Rightarrow> std_error + string" where
  "into_text (Text t) = Inr t"
| "into_text (Binary b) = map_err err_decode (utf8_try_from b)"
| "into_text (Ping b) = map_err err_decode (utf8_try_from b)"
| "into_text (Pong b) = map_err err_decode (utf8_try_from b)"
| "into_text (CloseMsg None) = Inr []"
| "into_text (CloseMsg (Some f)) = Inr (cf_reason f)"

fun to_text :: "ws_message \<Rightarrow> std_error + string" where
  "to_text (Text t) = Inr t"
| "to_text (Binary b) = map_err err_decode (utf8_try_from b)"
| "to_text (Ping b) = map_err err_decode (utf8_try_from b)"
| "to_text (Pong b) = map_err err_decode (utf8_try_from b)"
| "to_text (CloseMsg None) = Inr []"
| "to_text (CloseMsg (Some f)) = Inr (cf_reason f)"

text \<open>JSON: \<open>serialized\<close> is the serializer's result, \<open>parse\<close> the parser.\<close>

definition text_from_json :: "std_error + string \<Rightarrow> std_error + ws_message" where
  "text_from_json serialized = map_err err_decode (map_sum id Text serialized)"

definition binary_from_json :: "std_error + string \<Rightarrow> std_error + ws_message" where
  "binary_from_json serialized = map_err err_decode (map_sum id Binary serialized)"

definition message_json :: "(string \<Rightarrow> std_error + 'a) \<Rightarrow> ws_message \<Rightarrow> std_error + 'a" where
  "message_json parse m =
     (case m of
        Text x \<Rightarrow> map_err err_decode (parse x)
      | Binary x \<Rightarrow> map_err err_decode (parse x)
      | _ \<Rightarrow> Inl (err_decode (EOther ''neither text nor binary'' None)))"

section \<open>The handshake's request\<close>

record ws_config =
  wc_max_frame_size :: "nat option"
  wc_max_message_size :: "nat option"
  wc_read_buffer_size :: nat
  wc_write_buffer_size :: nat
  wc_max_write_buffer_size :: nat
  wc_accept_unmasked_frames :: bool

record ('cl, 'h, 'm, 'n, 'bd) ws_builder =
  wb_inner :: "('cl, 'h, 'm, 'n, 'bd) request_builder"
  wb_accept_key :: "string option"
  wb_protocols :: "string list option"
  wb_config :: ws_config

definition ws_builder_new ::
    "ws_config \<Rightarrow> ('cl, 'h, 'm, 'n, 'bd) request_builder \<Rightarrow> ('cl, 'h, 'm, 'n, 'bd) ws_builder" where
  "ws_builder_new deflt inner =
     \<lparr>wb_inner = rb_version HTTP_11 inner, wb_accept_key = None, wb_protocols = None, wb_config = deflt\<rparr>"

text \<open>\<open>Client::websocket\<close>.\<close>

definition client_websocket ::
    "uri_lib \<Rightarrow> 'h header_ops \<Rightarrow> (string \<Rightarrow> string) \<Rightarrow> (string \<Rightarrow> string) \<Rightarrow> ws_config \<Rightarrow> 'cl \<Rightarrow> string \<Rightarrow>
     ('cl, 'h, 'm, 'n, 'bd) ws_builder" where
  "client_websocket L H decode b64 deflt client s =
     ws_builder_new deflt (client_new_request L H decode b64 client ''GET'' s)"

definition ws_accept_key ::
    "string \<Rightarrow> ('cl, 'h, 'm, 'n, 'bd) ws_builder \<Rightarrow> ('cl, 'h, 'm, 'n, 'bd) ws_builder" where
  "ws_accept_key key W = W\<lparr>wb_accept_key := Some key\<rparr>"

definition ws_version ::
    "http_version \<Rightarrow> ('cl, 'h, 'm, 'n, 'bd) ws_builder \<Rightarrow> ('cl, 'h, 'm, 'n, 'bd) ws_builder" where
  "ws_version v W = W\<lparr>wb_inner := rb_version v (wb_inner W)\<rparr>"

definition ws_protocols ::
    "string list \<Rightarrow> ('cl, 'h, 'm, 'n, 'bd) ws_builder \<Rightarrow> ('cl, 'h, 'm, 'n, 'bd) ws_builder" where
  "ws_protocols ps W = W\<lparr>wb_protocols := Some ps\<rparr>"

definition ws_max_frame_size ::
    "nat \<Rightarrow> ('cl, 'h, 'm, 'n, 'bd) ws_builder \<Rightarrow> ('cl, 'h, 'm, 'n, 'bd) ws_builder" where
  "ws_max_frame_size x W = W\<lparr>wb_config := (wb_config W)\<lparr>wc_max_frame_size := Some x\<rparr>\<rparr>"

definition ws_max_message_size ::
    "nat \<Rightarrow> ('cl, 'h, 'm, 'n, 'bd) ws_builder \<Rightarrow> ('cl, 'h, 'm, 'n, 'bd) ws_builder" where
  "ws_max_message_size x W = W\<lparr>wb_config := (wb_config W)\<lparr>wc_max_message_size := Some x\<rparr>\<rparr>"

definition ws_read_buffer_size ::
    "nat \<Rightarrow> ('cl, 'h, 'm, 'n, 'bd) ws_builder \<Rightarrow> ('cl, 'h, 'm, 'n, 'bd) ws_builder" where
  "ws_read_buffer_size x W = W\<lparr>wb_config := (wb_config W)\<lparr>wc_read_buffer_size := x\<rparr>\<rparr>"

definition ws_write_buffer_size ::
    "nat \<Rightarrow> ('cl, 'h, 'm, 'n, 'bd) ws_builder \<Rightarrow> ('cl, 'h, 'm, 'n, 'bd) ws_builder" where
  "ws_write_buffer_size x W = W\<lparr>wb_config := (wb_config W)\<lparr>wc_write_buffer_size := x\<rparr>\<rparr>"

definition ws_max_write_buffer_size ::
    "nat \<Rightarrow> ('cl, 'h, 'm, 'n, 'bd) ws_builder \<Rightarrow> ('cl, 'h, 'm, 'n, 'bd) ws_builder" where
  "ws_max_write_buffer_size x W = W\<lparr>wb_config := (wb_config W)\<lparr>wc_max_write_buffer_size := x\<rparr>\<rparr>"

definition ws_accept_unmasked_frames ::
    "bool \<Rightarrow> ('cl, 'h, 'm, 'n, 'bd) ws_builder \<Rightarrow> ('cl, 'h, 'm, 'n, 'bd) ws_builder" where
  "ws_accept_unmasked_frames x W = W\<lparr>wb_config := (wb_config W)\<lparr>wc_accept_unmasked_frames := x\<rparr>\<rparr>"

definition ws_header ::
    "'h header_ops \<Rightarrow> std_error + string \<Rightarrow> std_error + hvalue \<Rightarrow> ('cl, 'h, 'm, 'n, 'bd) ws_builder \<Rightarrow> ('cl, 'h, 'm, 'n, 'bd) ws_builder" where
  "ws_header H k v W = W\<lparr>wb_inner := rb_header H k v (wb_inner W)\<rparr>"

definition ws_headers ::
    "'h header_ops \<Rightarrow> 'h \<Rightarrow> ('cl, 'h, 'm, 'n, 'bd) ws_builder \<Rightarrow> ('cl, 'h, 'm, 'n, 'bd) ws_builder option" where
  "ws_headers H headers W = map_option (\<lambda>B. W\<lparr>wb_inner := B\<rparr>) (rb_headers H headers (wb_inner W))"

definition ws_orig_headers ::
    "'m \<Rightarrow> ('cl, 'h, 'm, 'n, 'bd) ws_builder \<Rightarrow> ('cl, 'h, 'm, 'n, 'bd) ws_builder" where
  "ws_orig_headers names W = W\<lparr>wb_inner := rb_orig_headers names (wb_inner W)\<rparr>"

definition ws_default_headers ::
    "bool \<Rightarrow> ('cl, 'h, 'm, 'n, 'bd) ws_builder \<Rightarrow> ('cl, 'h, 'm, 'n, 'bd) ws_builder" where
  "ws_default_headers enable W = W\<lparr>wb_inner := rb_default_headers enable (wb_inner W)\<rparr>"

definition ws_auth ::
    "'h header_ops \<Rightarrow> std_error + hvalue \<Rightarrow> ('cl, 'h, 'm, 'n, 'bd) ws_builder \<Rightarrow> ('cl, 'h, 'm, 'n, 'bd) ws_builder" where
  "ws_auth H v W = W\<lparr>wb_inner := rb_auth H v (wb_inner W)\<rparr>"

definition ws_basic_auth ::
    "'h header_ops \<Rightarrow> (string \<Rightarrow> string) \<Rightarrow> string \<Rightarrow> string option \<Rightarrow> ('cl, 'h, 'm, 'n, 'bd) ws_builder \<Rightarrow> ('cl, 'h, 'm, 'n, 'bd) ws_builder" where
  "ws_basic_auth H b64 user password W = W\<lparr>wb_inner := rb_basic_auth H b64 user password (wb_inner W)\<rparr>"

definition ws_bearer_auth ::
    "'h header_ops \<Rightarrow> (string \<Rightarrow> std_error + hvalue) \<Rightarrow> string \<Rightarrow> ('cl, 'h, 'm, 'n, 'bd) ws_builder \<Rightarrow> ('cl, 'h, 'm, 'n, 'bd) ws_builder" where
  "ws_bearer_auth H to_value token W = W\<lparr>wb_inner := rb_bearer_auth H to_value token (wb_inner W)\<rparr>"

definition ws_query ::
    "uri_lib \<Rightarrow> std_error + string \<Rightarrow> ('cl, 'h, 'm, 'n, 'bd) ws_builder \<Rightarrow> ('cl, 'h, 'm, 'n, 'bd) ws_builder" where
  "ws_query L serialized W = W\<lparr>wb_inner := rb_query L serialized (wb_inner W)\<rparr>"

definition ws_proxy ::
    "'n proxy_lib \<Rightarrow> 'h proxy \<Rightarrow> ('cl, 'h, 'm, 'n, 'bd) ws_builder \<Rightarrow> ('cl, 'h, 'm, 'n, 'bd) ws_builder" where
  "ws_proxy X p W = W\<lparr>wb_inner := rb_proxy X p (wb_inner W)\<rparr>"

definition ws_local_address ::
    "ip_addr option \<Rightarrow> ('cl, 'h, 'm, 'n, 'bd) ws_builder \<Rightarrow> ('cl, 'h, 'm, 'n, 'bd) ws_builder" where
  "ws_local_address a W = W\<lparr>wb_inner := rb_local_address a (wb_inner W)\<rparr>"

definition ws_local_addresses ::
    "u32 option \<Rightarrow> 128 word option \<Rightarrow> ('cl, 'h, 'm, 'n, 'bd) ws_builder \<Rightarrow> ('cl, 'h, 'm, 'n, 'bd) ws_builder" where
  "ws_local_addresses a4 a6 W = W\<lparr>wb_inner := rb_local_addresses a4 a6 (wb_inner W)\<rparr>"

definition ws_interface ::
    "string \<Rightarrow> ('cl, 'h, 'm, 'n, 'bd) ws_builder \<Rightarrow> ('cl, 'h, 'm, 'n, 'bd) ws_builder" where
  "ws_interface i W = W\<lparr>wb_inner := rb_interface i (wb_inner W)\<rparr>"

definition ws_emulation ::
    "'h header_ops \<Rightarrow> ('h, 'm, (('h, 'n) matcher), bind_options) emulation \<Rightarrow> ('cl, 'h, 'm, 'n, 'bd) ws_builder \<Rightarrow> ('cl, 'h, 'm, 'n, 'bd) ws_builder option" where
  "ws_emulation H e W = map_option (\<lambda>B. W\<lparr>wb_inner := B\<rparr>) (rb_emulation H e (wb_inner W))"

text \<open>
  The request that opens the connection, with the key it sends, and whether it carries the
  protocol extension of HTTP/2. \<open>nonce\<close> is the generated key.
\<close>

record ws_lib =
  wl_uri :: uri_lib
  wl_to_value :: "string \<Rightarrow> std_error + hvalue"
  wl_to_str :: "string \<Rightarrow> string option"
  wl_nonce :: string
  wl_derive_key :: "string \<Rightarrow> string"

definition ws_scheme :: "ws_lib \<Rightarrow> uri \<Rightarrow> std_error + uri" where
  "ws_scheme Z u =
     (let s = (if scheme u = Some (OtherScheme ''ws'') then Some HTTP
               else if scheme u = Some (OtherScheme ''wss'') then Some HTTPS
               else None)
      in if s \<noteq> None
         then ok_or (err_builder (EOther ''invalid uri parts'' None))
                (lib_from_parts (wl_uri Z) ((lib_into_parts (wl_uri Z) u)\<lparr>p_scheme := s\<rparr>))
         else Inr u)"

definition ws_upgrade_headers ::
    "ws_lib \<Rightarrow> 'h header_ops \<Rightarrow> string option \<Rightarrow> ('h, 'm, 'n, 'bd) api_request \<Rightarrow>
     std_error + ('h, 'm, 'n, 'bd) api_request \<times> string option \<times> bool" where
  "ws_upgrade_headers Z H key req =
     (let version = request_version req;
          req = req\<lparr>rq_headers := h_insert H (rq_headers req) ''sec-websocket-version'' (plain ''13'')\<rparr>
      in if version = Some HTTP_10 \<or> version = Some HTTP_11
         then
           (let nonce = (case key of Some k \<Rightarrow> k | None \<Rightarrow> wl_nonce Z);
                h = h_insert H (rq_headers req) ''upgrade'' (plain ''websocket'');
                h = h_insert H h ''connection'' (plain ''upgrade'')
            in and_then (map_err err_builder (wl_to_value Z nonce)) (\<lambda>v.
                 Inr (set_request_version (Some HTTP_11)
                        (req\<lparr>rq_headers := h_insert H h ''sec-websocket-key'' v, rq_method := ''GET''\<rparr>), Some nonce, False)))
         else if version = Some HTTP_2
         then Inr (set_request_version (Some HTTP_2) (req\<lparr>rq_method := ''CONNECT''\<rparr>), None, True)
         else Inl (err_upgrade (EOther ''unsupported version'' None)))"

definition ws_protocol_header ::
    "ws_lib \<Rightarrow> 'h header_ops \<Rightarrow> string list option \<Rightarrow> ('h, 'm, 'n, 'bd) api_request \<Rightarrow>
     std_error + ('h, 'm, 'n, 'bd) api_request" where
  "ws_protocol_header Z H protocols req =
     (case protocols of
        Some (p # ps) \<Rightarrow>
          and_then (map_err err_builder (wl_to_value Z (join_with '', '' (p # ps)))) (\<lambda>v.
            Inr (req\<lparr>rq_headers := h_insert H (rq_headers req) ''sec-websocket-protocol'' v\<rparr>))
      | _ \<Rightarrow> Inr req)"

definition ws_request ::
    "ws_lib \<Rightarrow> 'h header_ops \<Rightarrow> ('cl, 'h, 'm, 'n, 'bd) ws_builder \<Rightarrow>
     std_error + ('h, 'm, 'n, 'bd) api_request \<times> string option \<times> bool" where
  "ws_request Z H W =
     (case rb_build_split (wb_inner W) of
        (client, request) \<Rightarrow>
          and_then request (\<lambda>req.
          and_then (ws_scheme Z (rq_uri req)) (\<lambda>u.
          and_then (ws_upgrade_headers Z H (wb_accept_key W) (req\<lparr>rq_uri := u\<rparr>)) (\<lambda>(req, key, ext).
          and_then (ws_protocol_header Z H (wb_protocols W) req) (\<lambda>req.
          Inr (req, key, ext))))))"

record 'rs ws_response =
  wp_inner :: 'rs
  wp_accept_key :: "string option"
  wp_protocols :: "string list option"
  wp_config :: ws_config

text \<open>\<open>service\<close> is the client's; it sees whether the request has the protocol extension.\<close>

definition ws_send ::
    "ws_lib \<Rightarrow> 'h header_ops \<Rightarrow> ('cl \<Rightarrow> bool \<Rightarrow> ('h, 'm, 'n, 'bd) api_request \<times> 'bd body \<Rightarrow> std_error + 'rs) \<Rightarrow>
     ('cl, 'h, 'm, 'n, 'bd) ws_builder \<Rightarrow> std_error + 'rs ws_response" where
  "ws_send Z H service W =
     and_then (ws_request Z H W) (\<lambda>(req, key, ext).
     and_then (client_execute (\<lambda>cl. service cl ext) (rb_client (wb_inner W)) req) (\<lambda>(r, _).
     Inr \<lparr>wp_inner = r, wp_accept_key = key, wp_protocols = wb_protocols W, wp_config = wb_config W\<rparr>))"

section \<open>The handshake's response\<close>

record ('h, 'up) http_reply =
  hr_status :: nat
  hr_version :: http_version
  hr_headers :: 'h
  hr_upgrade :: "std_error + 'up"

definition ws_header_eq :: "'h header_ops \<Rightarrow> 'h \<Rightarrow> string \<Rightarrow> string \<Rightarrow> bool" where
  "ws_header_eq H headers key v =
     (case h_get H headers key of Some hv \<Rightarrow> eq_ignore_ascii_case (hv_bytes hv) v | None \<Rightarrow> False)"

definition ws_header_contains :: "'h header_ops \<Rightarrow> 'h \<Rightarrow> string \<Rightarrow> string \<Rightarrow> bool" where
  "ws_header_contains H headers key v =
     (case h_get H headers key of
        Some hv \<Rightarrow> valid_utf8 (hv_bytes hv) \<and> sublist v (map ascii_lower (hv_bytes hv))
      | None \<Rightarrow> False)"

definition upgrade_error :: "string \<Rightarrow> std_error" where
  "upgrade_error m = err_upgrade (EOther m None)"

definition ws_check_upgrade ::
    "ws_lib \<Rightarrow> 'h header_ops \<Rightarrow> string option \<Rightarrow> ('h, 'up) http_reply \<Rightarrow> std_error option" where
  "ws_check_upgrade Z H key r =
     (if hr_version r = HTTP_10 \<or> hr_version r = HTTP_11
      then
        (if hr_status r \<noteq> 101 then Some (upgrade_error ''unexpected status code'')
         else if \<not> ws_header_contains H (hr_headers r) ''connection'' ''upgrade''
         then Some (upgrade_error ''missing connection header'')
         else if \<not> ws_header_eq H (hr_headers r) ''upgrade'' ''websocket''
         then Some (upgrade_error ''invalid upgrade header'')
         else
           (case (key, h_get H (hr_headers r) ''sec-websocket-accept'') of
              (Some nonce, Some v) \<Rightarrow>
                if wl_to_str Z (hv_bytes v) = Some (wl_derive_key Z nonce) then None
                else Some (upgrade_error ''invalid accept key'')
            | _ \<Rightarrow> Some (upgrade_error ''missing accept key'')))
      else if hr_version r = HTTP_2
      then (if hr_status r \<noteq> 200 then Some (upgrade_error ''unexpected status code'') else None)
      else Some (upgrade_error ''unsupported version''))"

definition ws_check_protocol :: "string list option \<Rightarrow> string option \<Rightarrow> std_error option" where
  "ws_check_protocol protocols replied =
     (case (case protocols of Some (p # ps) \<Rightarrow> Some (p # ps) | _ \<Rightarrow> None, replied) of
        (Some req, Some rep) \<Rightarrow> if rep \<notin> set req then Some (upgrade_error ''invalid protocol'') else None
      | (Some _, None) \<Rightarrow> Some (upgrade_error ''missing protocol'')
      | (None, Some _) \<Rightarrow> Some (upgrade_error ''invalid protocol'')
      | (None, None) \<Rightarrow> None)"

record 'up websocket =
  ws_inner :: "'up \<times> ws_config"
  ws_protocol :: "hvalue option"

definition into_websocket ::
    "ws_lib \<Rightarrow> 'h header_ops \<Rightarrow> ('h, 'up) http_reply ws_response \<Rightarrow> std_error + 'up websocket" where
  "into_websocket Z H R =
     (let r = wp_inner R in
      case ws_check_upgrade Z H (wp_accept_key R) r of
        Some e \<Rightarrow> Inl e
      | None \<Rightarrow>
          (let protocol = h_get H (hr_headers r) ''sec-websocket-protocol'';
               replied = Option.bind protocol (\<lambda>v. wl_to_str Z (hv_bytes v))
           in case ws_check_protocol (wp_protocols R) replied of
                Some e \<Rightarrow> Inl e
              | None \<Rightarrow> and_then (hr_upgrade r) (\<lambda>up. Inr \<lparr>ws_inner = (up, wp_config R), ws_protocol = protocol\<rparr>)))"

section \<open>The stream of messages\<close>

text \<open>
  \<open>poll_next\<close> on what the crate's stream answers, poll by poll: raw frames are skipped. The second
  component is what is left of the answers.
\<close>

fun ws_poll_next ::
    "'code close_codes \<Rightarrow> (std_error + ('code, 'f) tung_message) option poll list \<Rightarrow>
     (std_error + ws_message) option poll \<times> (std_error + ('code, 'f) tung_message) option poll list" where
  "ws_poll_next CC [] = (Pending, [])"
| "ws_poll_next CC (Pending # ps) = (Pending, ps)"
| "ws_poll_next CC (Ready None # ps) = (Ready None, ps)"
| "ws_poll_next CC (Ready (Some (Inl e)) # ps) = (Ready (Some (Inl (err_body e))), ps)"
| "ws_poll_next CC (Ready (Some (Inr m)) # ps) =
     (case from_tungstenite CC m of
        Some msg \<Rightarrow> (Ready (Some (Inr msg)), ps)
      | None \<Rightarrow> ws_poll_next CC ps)"

text \<open>\<open>sink\<close> sends one of the crate's messages.\<close>

definition ws_send_message ::
    "'code close_codes \<Rightarrow> (('code, 'f) tung_message \<Rightarrow> std_error + unit) \<Rightarrow> ws_message \<Rightarrow> std_error + unit" where
  "ws_send_message CC sink m = map_err err_websocket (sink (into_tungstenite CC m))"

definition ws_close ::
    "'code close_codes \<Rightarrow> (('code \<times> string) option \<Rightarrow> std_error + unit) \<Rightarrow> u16 \<Rightarrow> string \<Rightarrow> std_error + unit" where
  "ws_close CC close code reason = map_err err_websocket (close (Some (cc_from CC code, reason)))"

section \<open>Properties\<close>

lemma ws_check_upgrade_None:
  "ws_check_upgrade Z H key r = None \<longleftrightarrow>
     (hr_version r = HTTP_10 \<or> hr_version r = HTTP_11) \<and> hr_status r = 101 \<and>
       ws_header_contains H (hr_headers r) ''connection'' ''upgrade'' \<and>
       ws_header_eq H (hr_headers r) ''upgrade'' ''websocket'' \<and>
       (\<exists>nonce v. key = Some nonce \<and> h_get H (hr_headers r) ''sec-websocket-accept'' = Some v \<and>
          wl_to_str Z (hv_bytes v) = Some (wl_derive_key Z nonce)) \<or>
     hr_version r = HTTP_2 \<and> hr_status r = 200"
  by (auto simp: ws_check_upgrade_def split: option.splits)

lemma ws_check_protocol_None:
  "ws_check_protocol protocols replied = None \<longleftrightarrow>
     (case protocols of Some (p # ps) \<Rightarrow> \<exists>rep \<in> set (p # ps). replied = Some rep | _ \<Rightarrow> replied = None)"
  by (auto simp: ws_check_protocol_def split: option.split list.split)

lemma into_websocket_Inr:
  "into_websocket Z H R = Inr ws \<longleftrightarrow>
     (\<exists>up. hr_upgrade (wp_inner R) = Inr up \<and> ws_check_upgrade Z H (wp_accept_key R) (wp_inner R) = None \<and>
        ws_check_protocol (wp_protocols R)
          (Option.bind (h_get H (hr_headers (wp_inner R)) ''sec-websocket-protocol'') (\<lambda>v. wl_to_str Z (hv_bytes v))) = None \<and>
        ws = \<lparr>ws_inner = (up, wp_config R), ws_protocol = h_get H (hr_headers (wp_inner R)) ''sec-websocket-protocol''\<rparr>)"
  by (auto simp: into_websocket_def Let_def and_then_Inr_iff split: option.split)

lemma ws_upgrade_headers_key:
  assumes "header_laws H" and "ws_upgrade_headers Z H key req = Inr (req', Some nonce, ext)"
  shows "rq_method req' = ''GET'' \<and> rq_uri req' = rq_uri req \<and> \<not> ext \<and> request_version req' = Some HTTP_11 \<and>
    (\<exists>v. wl_to_value Z nonce = Inr v \<and> h_get_all H (rq_headers req') ''sec-websocket-key'' = [v]) \<and>
    h_get_all H (rq_headers req') ''upgrade'' = [plain ''websocket''] \<and>
    h_get_all H (rq_headers req') ''sec-websocket-version'' = [plain ''13'']"
  using assms
  by (auto simp: ws_upgrade_headers_def Let_def and_then_Inr_iff map_err_def hdr_simps request_version_def
      set_request_version_def update_options_def entry_update_def rc_get_def
      split: if_splits sum.splits)

lemma ws_protocol_header_kept:
  assumes "header_laws H" and "ws_protocol_header Z H ps req = Inr req'"
  shows "rq_method req' = rq_method req \<and> rq_uri req' = rq_uri req \<and> request_version req' = request_version req \<and>
    (\<forall>n. n \<noteq> ''sec-websocket-protocol'' \<longrightarrow> h_get_all H (rq_headers req') n = h_get_all H (rq_headers req) n)"
  using assms
  by (auto simp: ws_protocol_header_def and_then_Inr_iff hdr_simps request_version_def split: option.splits list.splits)

lemma ws_request_key:
  assumes "header_laws H" and "ws_request Z H W = Inr (req, Some nonce, ext)"
  shows "rq_method req = ''GET'' \<and> \<not> ext \<and> request_version req = Some HTTP_11 \<and>
    (\<exists>v. wl_to_value Z nonce = Inr v \<and> h_get_all H (rq_headers req) ''sec-websocket-key'' = [v]) \<and>
    h_get_all H (rq_headers req) ''upgrade'' = [plain ''websocket''] \<and>
    h_get_all H (rq_headers req) ''sec-websocket-version'' = [plain ''13'']"
proof -
  obtain req0 req1 where 1: "ws_upgrade_headers Z H (wb_accept_key W) req0 = Inr (req1, Some nonce, ext)"
    and 2: "ws_protocol_header Z H (wb_protocols W) req1 = Inr req"
    using assms(2) by (auto simp: ws_request_def and_then_Inr_iff split: prod.splits)
  show ?thesis
    using ws_upgrade_headers_key [OF assms(1) 1] ws_protocol_header_kept [OF assms(1) 2] by simp
qed

text \<open>
  C26. A WebSocket is opened over HTTP/1 only with a server that answers this very handshake: the request was a GET with one fresh
  key, the response is 101 with the upgrade to \<open>websocket\<close> and a Sec-WebSocket-Accept derived
  from that key, and the subprotocol is one of those requested, or none when none was.
\<close>

theorem handshake_bound_to_key:
  assumes "header_laws H" and "ws_send Z H service W = Inr R" and "into_websocket Z H R = Inr ws"
    and "hr_version (wp_inner R) \<noteq> HTTP_2"
  shows "\<exists>req nonce v a. ws_request Z H W = Inr (req, Some nonce, False) \<and> rq_method req = ''GET'' \<and>
    wl_to_value Z nonce = Inr v \<and> h_get_all H (rq_headers req) ''sec-websocket-key'' = [v] \<and>
    hr_status (wp_inner R) = 101 \<and> ws_header_eq H (hr_headers (wp_inner R)) ''upgrade'' ''websocket'' \<and>
    h_get H (hr_headers (wp_inner R)) ''sec-websocket-accept'' = Some a \<and>
    wl_to_str Z (hv_bytes a) = Some (wl_derive_key Z nonce) \<and>
    (case wb_protocols W of
       Some (p # ps) \<Rightarrow> \<exists>rep \<in> set (p # ps). Option.bind (ws_protocol ws) (\<lambda>v. wl_to_str Z (hv_bytes v)) = Some rep
     | _ \<Rightarrow> Option.bind (ws_protocol ws) (\<lambda>v. wl_to_str Z (hv_bytes v)) = None)"
proof -
  obtain req key ext where req: "ws_request Z H W = Inr (req, key, ext)"
    and R: "wp_accept_key R = key" "wp_protocols R = wb_protocols W"
    using assms(2) by (auto simp: ws_send_def and_then_Inr_iff)
  have ok: "ws_check_upgrade Z H key (wp_inner R) = None"
    and p: "ws_check_protocol (wb_protocols W) (Option.bind (ws_protocol ws) (\<lambda>v. wl_to_str Z (hv_bytes v))) = None"
    using assms(3) R by (auto simp: into_websocket_Inr)
  obtain nonce a where a: "key = Some nonce" "h_get H (hr_headers (wp_inner R)) ''sec-websocket-accept'' = Some a"
    "wl_to_str Z (hv_bytes a) = Some (wl_derive_key Z nonce)"
    and s: "hr_status (wp_inner R) = 101" "ws_header_eq H (hr_headers (wp_inner R)) ''upgrade'' ''websocket''"
    using ok assms(4) unfolding ws_check_upgrade_None by blast
  show ?thesis
    using ws_request_key [OF assms(1) req [unfolded a(1)]] req a s p [unfolded ws_check_protocol_None]
    by (auto simp del: bind_eq_Some_conv bind_eq_None_conv)
qed

text \<open>
  Messages survive the crossing into the WebSocket crate and back: a message sent is the message the other side's
  client reads, close code and reason included, and the raw frames the crate reports are skipped, never
  turned into messages.
\<close>

lemma message_roundtrip:
  assumes "\<And>c. cc_into (CC :: 'code close_codes) (cc_from CC c) = c"
  shows "ws_poll_next CC (map (\<lambda>f. Ready (Some (Inr (TFrame f)))) fs @
      Ready (Some (Inr (into_tungstenite CC m :: ('code, 'f) tung_message))) # ps) = (Ready (Some (Inr m)), ps)"
proof -
  have conv: "from_tungstenite CC (into_tungstenite CC m :: ('code, 'f) tung_message) = Some m"
    using assms by (cases "(CC, m)" rule: into_tungstenite.cases) auto
  show ?thesis
    by (induction fs) (simp_all add: conv)
qed

lemma message_roundtrip_witness:
  "ws_poll_next \<lparr>cc_from = unat, cc_into = of_nat\<rparr>
     (map (\<lambda>f. Ready (Some (Inr (TFrame f)))) [1 :: nat] @
      Ready (Some (Inr (into_tungstenite \<lparr>cc_from = unat, cc_into = of_nat\<rparr> (CloseMsg (Some \<lparr>cf_code = 1000, cf_reason = ''bye''\<rparr>))))) # []) =
   (Ready (Some (Inr (CloseMsg (Some \<lparr>cf_code = 1000, cf_reason = ''bye''\<rparr>)))), [])"
  by (rule message_roundtrip) simp

section \<open>A concrete handshake\<close>

definition sample_ws_lib :: ws_lib where
  "sample_ws_lib = \<lparr>wl_uri = sample_uris, wl_to_value = (\<lambda>s. Inr (plain s)), wl_to_str = Some,
     wl_nonce = ''k1'', wl_derive_key = rev\<rparr>"

definition sample_ws_config :: ws_config where
  "sample_ws_config = \<lparr>wc_max_frame_size = None, wc_max_message_size = None, wc_read_buffer_size = 0,
     wc_write_buffer_size = 0, wc_max_write_buffer_size = 0, wc_accept_unmasked_frames = False\<rparr>"

definition sample_ws :: "(nat, (string \<times> hvalue list) list, nat, int, nat) ws_builder" where
  "sample_ws = ws_protocols [''chat'']
     (ws_builder_new sample_ws_config (rb_from_parts 0 (request_new list_headers ''GET'' (sample_uri HTTP ''h''))))"

definition sample_reply :: "((string \<times> hvalue list) list, nat) http_reply" where
  "sample_reply = \<lparr>hr_status = 101, hr_version = HTTP_11,
     hr_headers = [(''connection'', [plain ''Upgrade'']), (''upgrade'', [plain ''websocket'']),
       (''sec-websocket-accept'', [plain ''1k'']), (''sec-websocket-protocol'', [plain ''chat''])],
     hr_upgrade = Inr 7\<rparr>"

definition sample_ws_response :: "((string \<times> hvalue list) list, nat) http_reply ws_response" where
  "sample_ws_response = \<lparr>wp_inner = sample_reply, wp_accept_key = Some ''k1'', wp_protocols = Some [''chat''],
     wp_config = sample_ws_config\<rparr>"

lemma sample_ws_send: "ws_send sample_ws_lib list_headers (\<lambda>cl ext r. Inr sample_reply) sample_ws = Inr sample_ws_response"
  by (simp add: ws_send_def ws_request_def sample_ws_def ws_protocols_def ws_builder_new_def rb_from_parts_def
      rb_build_split_def rb_version_def ws_scheme_def sample_uri_def request_new_def update_options_def
      set_request_version_def ws_upgrade_headers_def request_version_def entry_update_def rc_get_def
      sample_ws_lib_def ws_protocol_header_def client_execute_def pending_poll_def sample_ws_response_def Let_def map_err_def)

lemma sample_into_websocket:
  "into_websocket sample_ws_lib list_headers sample_ws_response = Inr \<lparr>ws_inner = (7, sample_ws_config), ws_protocol = Some (plain ''chat'')\<rparr>"
  by code_simp

theorem handshake_bound_to_key_witness:
  "\<exists>req nonce v. ws_request sample_ws_lib list_headers sample_ws = Inr (req, Some nonce, False) \<and>
     wl_to_value sample_ws_lib nonce = Inr v \<and> h_get_all list_headers (rq_headers req) ''sec-websocket-key'' = [v]"
  using handshake_bound_to_key [OF list_headers_laws sample_ws_send sample_into_websocket]
  by (auto simp: sample_ws_response_def sample_reply_def)

end
