(* ===== verification/Core_Websocket.thy ===== *)
theory Core_Websocket
  imports Core_Client Core_Stream Ws
begin

text \<open>
  WebSockets of the language bindings (\<open>src/crates/tlsurl-core/src/websocket.rs\<close>): the checks of
  the options, and the operations on an open socket with their deadlines, cancellation and
  closing. What an operation waits for, and what other tasks do while it waits, is an argument of the operation.
\<close>

section \<open>Opening\<close>

record core_ws_options =
  wo_protocols :: "string list"
  wo_timeout_ms :: "u32 option"
  wo_operation_timeout_ms :: "u32 option"
  wo_max_message_bytes :: "u32 option"

text \<open>An open socket: whether its sending and receiving halves are there, and the two tokens.\<close>

record core_ws =
  cw_protocol :: "string option"
  cw_tx :: bool
  cw_rx :: bool
  cw_cancelled :: bool
  cw_closing :: bool
  cw_operation_timeout :: u64
  cw_max_message_bytes :: nat

definition ws_closed :: core_error where
  "ws_closed = CoreError ''CLOSED'' ''websocket is closed''"

fun protocols_ok :: "(string \<Rightarrow> bool) \<Rightarrow> string list \<Rightarrow> string list \<Rightarrow> bool" where
  "protocols_ok valid earlier [] = True"
| "protocols_ok valid earlier (p # ps) = (valid p \<and> p \<notin> set earlier \<and> protocols_ok valid (earlier @ [p]) ps)"

fun core_ws_headers ::
    "('c, 'k, 'b, 'h, 'm, 'n, 'bd, 'pf, 'pl) core_lib \<Rightarrow> ('cl, 'h, 'm, 'n, 'bd) request_builder \<Rightarrow>
     (string \<times> string) list \<Rightarrow> ('cl, 'h, 'm, 'n, 'bd) request_builder" where
  "core_ws_headers K B [] = B"
| "core_ws_headers K B ((name, value) # hs) =
     core_ws_headers K (rb_header (kl_headers K) (kl_to_name K name) (kl_to_value K value) B) hs"

text \<open>The checks, and the request of the handshake; \<open>add\<close> is \<open>saturating_add\<close> on \<open>usize\<close>.\<close>

definition saturating_add :: "nat \<Rightarrow> nat \<Rightarrow> nat" where
  "saturating_add a b = min (a + b) (2 ^ 64 - 1)"

definition core_ws_builder ::
    "('c, 'k, 'b, 'h, 'm, 'n, 'bd, 'pf, 'pl) core_lib \<Rightarrow> ('l, 'bd, 'h) request_env \<Rightarrow> ws_config \<Rightarrow> 'cl core_client \<Rightarrow>
     string \<Rightarrow> (string \<times> string) list \<Rightarrow> core_ws_options \<Rightarrow>
     core_error + ('cl, 'h, 'm, 'n, 'bd) ws_builder \<times> u64 \<times> nat" where
  "core_ws_builder K Q deflt c url headers opts =
     and_then (ok_or (invalid_request ''invalid websocket URL'') (ul_parse (qe_url Q) url)) (\<lambda>url.
       if \<not> (ul_scheme (qe_url Q) url = ''ws'' \<or> ul_scheme (qe_url Q) url = ''wss'')
       then Inl (invalid_request ''expected ws or wss URL'')
       else if \<not> protocols_ok (\<lambda>p. \<not> isl (kl_to_name K p)) [] (wo_protocols opts)
       then Inl (invalid_request ''invalid or duplicate websocket subprotocol'')
       else
         and_then (positive_ms (case wo_operation_timeout_ms opts of Some t \<Rightarrow> t | None \<Rightarrow> 30000)) (\<lambda>operation_timeout.
           let limit = unat (case wo_max_message_bytes opts of Some n \<Rightarrow> n | None \<Rightarrow> 16777216)
           in if limit = 0 then Inl (invalid_request ''max_message_bytes must be positive'')
              else
                and_then (when_given (\<lambda>t B. and_then (positive_ms t) (\<lambda>t. Inr (rb_timeout (unat t) B))) (wo_timeout_ms opts)
                    (client_new_request (qe_uri Q) (kl_headers K) (qe_decode Q) (qe_b64 Q) (kc_inner c) ''GET''
                       (ul_as_str (qe_url Q) url))) (\<lambda>B.
                  Inr (ws_max_write_buffer_size (saturating_add limit 1024)
                        (ws_write_buffer_size 0
                          (ws_max_frame_size limit
                            (ws_max_message_size limit
                              (ws_protocols (wo_protocols opts)
                                (ws_builder_new deflt (core_ws_headers K B headers)))))),
                       operation_timeout, limit))))"

definition core_websocket ::
    "('c, 'k, 'b, 'h, 'm, 'n, 'bd, 'pf, 'pl) core_lib \<Rightarrow> ('l, 'bd, 'h) request_env \<Rightarrow> ws_lib \<Rightarrow> ws_config \<Rightarrow>
     ('cl \<Rightarrow> bool \<Rightarrow> ('h, 'm, 'n, 'bd) api_request \<times> 'bd body \<Rightarrow> std_error + ('h, 'up) http_reply) \<Rightarrow> 'cl core_client \<Rightarrow>
     string \<Rightarrow> (string \<times> string) list \<Rightarrow> core_ws_options \<Rightarrow> core_error + core_ws" where
  "core_websocket K Q Z deflt service c url headers opts =
     and_then (core_ws_builder K Q deflt c url headers opts) (\<lambda>(W, operation_timeout, limit).
     and_then (core_try K (ws_send Z (kl_headers K) service W)) (\<lambda>R.
     and_then (core_try K (into_websocket Z (kl_headers K) R)) (\<lambda>socket.
     Inr \<lparr>cw_protocol = Option.bind (ws_protocol socket) (\<lambda>v. wl_to_str Z (hv_bytes v)),
          cw_tx = True, cw_rx = True, cw_cancelled = False, cw_closing = False,
          cw_operation_timeout = operation_timeout, cw_max_message_bytes = limit\<rparr>)))"

section \<open>Operations\<close>

text \<open>
  No operation holds a half when \<open>abort\<close> is called, or the guard of the one that does clears it;
  \<open>Ws_Guard\<close> follows the locks of the two halves step by step.
\<close>

definition ws_abort :: "core_ws \<Rightarrow> core_ws" where
  "ws_abort st = st\<lparr>cw_cancelled := True, cw_tx := False, cw_rx := False\<rparr>"

text \<open>How a wait ends: the future finishes, its deadline passes, or another task aborts the socket first.\<close>

datatype 'a wait = Finished "core_error + 'a" | Elapsed | AbortedMeanwhile

definition ws_timeout :: core_error where
  "ws_timeout = CoreError ''TIMEOUT'' ''websocket operation timed out''"

text \<open>A future that needs a half of the socket.\<close>

definition with_half :: "bool \<Rightarrow> 'a wait \<Rightarrow> 'a wait" where
  "with_half half w =
     (case w of
        Finished r \<Rightarrow> Finished (if half then r else Inl ws_closed)
      | Elapsed \<Rightarrow> Elapsed
      | AbortedMeanwhile \<Rightarrow> AbortedMeanwhile)"

text \<open>\<open>bounded\<close>: the cancellation token first, then the deadline.\<close>

definition ws_bounded :: "core_ws \<Rightarrow> 'a wait \<Rightarrow> (core_error + 'a) \<times> core_ws" where
  "ws_bounded st w =
     (if cw_cancelled st then (Inl cancelled, st)
      else
        (case w of
           Finished r \<Rightarrow> (r, st)
         | Elapsed \<Rightarrow> (Inl ws_timeout, st)
         | AbortedMeanwhile \<Rightarrow> (Inl cancelled, ws_abort st)))"

text \<open>
  \<open>operation\<close>: closing first, or meanwhile (\<^term>\<open>None\<close>); every error but CLOSED aborts the socket.
\<close>

definition ws_operation :: "core_ws \<Rightarrow> bool \<Rightarrow> 'a wait option \<Rightarrow> (core_error + 'a) \<times> core_ws" where
  "ws_operation st half w =
     (case ws_bounded st
        (if cw_closing st then Finished (Inl ws_closed)
         else (case w of None \<Rightarrow> Finished (Inl ws_closed) | Some w \<Rightarrow> with_half half w)) of
        (result, st) \<Rightarrow>
          (let st = (if w = None then st\<lparr>cw_closing := True\<rparr> else st)
           in (result, case result of
                 Inl e \<Rightarrow> if ce_code e \<noteq> ''CLOSED'' then ws_abort st else st
               | Inr _ \<Rightarrow> st)))"

definition core_message :: "string \<Rightarrow> string \<Rightarrow> core_error + ws_message" where
  "core_message kind data =
     (if kind = ''text'' then (if valid_utf8 data then Inr (Text data) else Inl (invalid_request ''text must be UTF-8''))
      else if kind = ''binary'' then Inr (Binary data)
      else if kind = ''ping'' then Inr (Ping data)
      else if kind = ''pong'' then Inr (Pong data)
      else Inl (invalid_request ''unknown websocket message kind''))"

text \<open>\<open>send\<close>; the third component is the message handed to the socket, if it came to that.\<close>

definition core_ws_send ::
    "string \<Rightarrow> string \<Rightarrow> unit wait option \<Rightarrow> core_ws \<Rightarrow> (core_error + unit) \<times> core_ws \<times> ws_message option" where
  "core_ws_send kind data w st =
     (if cw_closing st then (Inl ws_closed, st, None)
      else if length data > cw_max_message_bytes st
      then (Inl (invalid_request ''message exceeds max_message_bytes''), st, None)
      else if (kind = ''ping'' \<or> kind = ''pong'') \<and> length data > 125
      then (Inl (invalid_request ''control payload exceeds 125 bytes''), st, None)
      else
        (case core_message kind data of
           Inl e \<Rightarrow> (Inl e, st, None)
         | Inr message \<Rightarrow>
             (case ws_operation st (cw_tx st) w of
                (r, st') \<Rightarrow> (r, st', if cw_tx st \<and> \<not> cw_cancelled st then Some message else None))))"

record ws_received =
  wd_kind :: string
  wd_data :: string
  wd_code :: "u16 option"

fun core_received :: "ws_message \<Rightarrow> ws_received" where
  "core_received (Text v) = \<lparr>wd_kind = ''text'', wd_data = v, wd_code = None\<rparr>"
| "core_received (Binary v) = \<lparr>wd_kind = ''binary'', wd_data = v, wd_code = None\<rparr>"
| "core_received (Ping v) = \<lparr>wd_kind = ''ping'', wd_data = v, wd_code = None\<rparr>"
| "core_received (Pong v) = \<lparr>wd_kind = ''pong'', wd_data = v, wd_code = None\<rparr>"
| "core_received (CloseMsg f) =
     \<lparr>wd_kind = ''close'', wd_data = (case f of None \<Rightarrow> [] | Some f \<Rightarrow> cf_reason f), wd_code = map_option cf_code f\<rparr>"

fun flush_needed :: "ws_message option \<Rightarrow> bool" where
  "flush_needed (Some (Ping _)) = True"
| "flush_needed (Some (CloseMsg _)) = True"
| "flush_needed _ = False"

fun ends_socket :: "ws_message option \<Rightarrow> bool" where
  "ends_socket None = True"
| "ends_socket (Some (CloseMsg _)) = True"
| "ends_socket _ = False"

text \<open>\<open>recv\<close>: the wait for a message, and that for the flush of an automatic reply.\<close>

definition core_ws_recv ::
    "ws_message option wait option \<Rightarrow> unit wait \<Rightarrow> core_ws \<Rightarrow> (core_error + ws_received option) \<times> core_ws" where
  "core_ws_recv w flush st =
     (if cw_closing st then (Inl ws_closed, st)
      else
        (case ws_operation st (cw_rx st) w of
           (Inl e, st) \<Rightarrow> (Inl e, st)
         | (Inr message, st) \<Rightarrow>
             (case (if flush_needed message then ws_bounded st (with_half (cw_tx st) flush) else (Inr (), st)) of
                (Inl e, st) \<Rightarrow> (Inl e, ws_abort st)
              | (Inr _, st) \<Rightarrow>
                  (Inr (map_option core_received message),
                   if ends_socket message then ws_abort (st\<lparr>cw_closing := True\<rparr>) else st))))"

definition close_code_ok :: "u16 \<Rightarrow> bool" where
  "close_code_ok code \<longleftrightarrow>
     (1000 \<le> code \<and> code \<le> 1003) \<or> (1007 \<le> code \<and> code \<le> 1014) \<or> (3000 \<le> code \<and> code \<le> 4999)"

text \<open>After the close frame is sent, messages are read until the peer's close frame or the end.\<close>

fun drain_until_close :: "(core_error + ws_message) list \<Rightarrow> core_error + unit" where
  "drain_until_close [] = Inr ()"
| "drain_until_close (Inl e # ms) = Inl e"
| "drain_until_close (Inr (CloseMsg _) # ms) = Inr ()"
| "drain_until_close (Inr _ # ms) = drain_until_close ms"

definition core_ws_close ::
    "u16 \<Rightarrow> string \<Rightarrow> (core_error + ws_message) list wait \<Rightarrow> core_ws \<Rightarrow> (core_error + unit) \<times> core_ws \<times> ws_message option" where
  "core_ws_close code reason w st =
     (if \<not> close_code_ok code \<or> length reason > 123
      then (Inl (invalid_request ''invalid close code or reason longer than 123 UTF-8 bytes''), st, None)
      else if cw_closing st \<or> cw_cancelled st then (Inr (), st, None)
      else
        (let st = st\<lparr>cw_closing := True\<rparr>
         in (case ws_bounded st (with_half (cw_tx st \<and> cw_rx st) w) of
               (r, st') \<Rightarrow>
                 (and_then r drain_until_close, ws_abort st',
                  if cw_tx st then Some (CloseMsg (Some \<lparr>cf_code = code, cf_reason = reason\<rparr>)) else None))))"

section \<open>Sequences of operations\<close>

datatype ws_op =
    OpSend string string "unit wait option"
  | OpRecv "ws_message option wait option" "unit wait"
  | OpClose u16 string "(core_error + ws_message) list wait"
  | OpAbort

text \<open>An operation: its error, if any, the state after it, and the message handed to the socket.\<close>

fun ws_apply :: "ws_op \<Rightarrow> core_ws \<Rightarrow> core_error option \<times> core_ws \<times> ws_message option" where
  "ws_apply (OpSend kind data w) st =
     (case core_ws_send kind data w st of (r, st', m) \<Rightarrow> (case r of Inl e \<Rightarrow> Some e | Inr _ \<Rightarrow> None, st', m))"
| "ws_apply (OpRecv w flush) st =
     (case core_ws_recv w flush st of (r, st') \<Rightarrow> (case r of Inl e \<Rightarrow> Some e | Inr _ \<Rightarrow> None, st', None))"
| "ws_apply (OpClose code reason w) st =
     (case core_ws_close code reason w st of (r, st', m) \<Rightarrow> (case r of Inl e \<Rightarrow> Some e | Inr _ \<Rightarrow> None, st', m))"
| "ws_apply OpAbort st = (None, ws_abort st, None)"

fun ws_run :: "ws_op list \<Rightarrow> core_ws \<Rightarrow> core_error option list \<times> core_ws \<times> ws_message list" where
  "ws_run [] st = ([], st, [])"
| "ws_run (x # xs) st =
     (case ws_apply x st of
        (e, st', m) \<Rightarrow>
          (case ws_run xs st' of
             (es, st'', ms) \<Rightarrow> (e # es, st'', (case m of Some m \<Rightarrow> m # ms | None \<Rightarrow> ms))))"

section \<open>Lemmas\<close>

text \<open>A socket that was cancelled has lost both halves.\<close>

definition ws_ok :: "core_ws \<Rightarrow> bool" where
  "ws_ok st \<longleftrightarrow> (cw_cancelled st \<longrightarrow> \<not> cw_tx st \<and> \<not> cw_rx st)"

lemma ws_abort_simps [simp]:
  "cw_cancelled (ws_abort st)" "\<not> cw_tx (ws_abort st)" "\<not> cw_rx (ws_abort st)"
  "cw_closing (ws_abort st) = cw_closing st" "ws_ok (ws_abort st)"
  "cw_max_message_bytes (ws_abort st) = cw_max_message_bytes st"
  by (simp_all add: ws_abort_def ws_ok_def)

lemma ws_operation_cases:
  assumes "ws_operation st half w = (r, st')" and "ws_ok st"
  shows "ws_ok st' \<and> cw_max_message_bytes st' = cw_max_message_bytes st \<and>
    (cw_cancelled st \<longrightarrow> r = Inl cancelled \<and> cw_cancelled st') \<and>
    (\<forall>e. r = Inl e \<longrightarrow> ce_code e = ''CLOSED'' \<or> cw_cancelled st')"
  using assms
  by (auto simp: ws_operation_def ws_bounded_def with_half_def ws_ok_def ws_closed_def Let_def
      split: if_splits option.splits wait.splits sum.splits)

lemma ws_bounded_cases:
  assumes "ws_bounded st w = (r, st')" and "ws_ok st"
  shows "ws_ok st' \<and> cw_max_message_bytes st' = cw_max_message_bytes st \<and>
    (cw_cancelled st \<longrightarrow> r = Inl cancelled \<and> cw_cancelled st') \<and> (cw_closing st \<longrightarrow> cw_closing st')"
  using assms by (auto simp: ws_bounded_def split: if_splits wait.splits)

text \<open>What may be handed to the socket: RFC 6455 allows 125 bytes in a control frame, two of them the close code.\<close>

fun frame_ok :: "nat \<Rightarrow> ws_message \<Rightarrow> bool" where
  "frame_ok limit (Text t) = (valid_utf8 t \<and> length t \<le> limit)"
| "frame_ok limit (Binary b) = (length b \<le> limit)"
| "frame_ok limit (Ping b) = (length b \<le> 125 \<and> length b \<le> limit)"
| "frame_ok limit (Pong b) = (length b \<le> 125 \<and> length b \<le> limit)"
| "frame_ok limit (CloseMsg None) = True"
| "frame_ok limit (CloseMsg (Some f)) = (cf_code f \<notin> {1004, 1005, 1006, 1015} \<and> 1000 \<le> cf_code f \<and> 2 + length (cf_reason f) \<le> 125)"

fun is_close_msg :: "ws_message \<Rightarrow> bool" where
  "is_close_msg (CloseMsg _) = True"
| "is_close_msg _ = False"

lemma close_code_ok_rfc: "close_code_ok code \<Longrightarrow> code \<notin> {1004, 1005, 1006, 1015} \<and> 1000 \<le> code"
  by (auto simp: close_code_ok_def word_le_nat_alt)

lemma core_message_ok:
  assumes "core_message kind data = Inr m" and "length data \<le> limit"
    and "(kind = ''ping'' \<or> kind = ''pong'') \<longrightarrow> length data \<le> 125"
  shows "frame_ok limit m \<and> \<not> is_close_msg m"
  using assms by (auto simp: core_message_def split: if_splits)

text \<open>What an application sends is what the peer's application receives.\<close>

lemma core_message_received:
  "core_message kind data = Inr m \<Longrightarrow> core_received m = \<lparr>wd_kind = kind, wd_data = data, wd_code = None\<rparr>"
  by (auto simp: core_message_def split: if_splits)

lemma core_ws_send_cases:
  assumes "core_ws_send kind data w st = (r, st', m)" and "ws_ok st"
  shows "ws_ok st' \<and> cw_max_message_bytes st' = cw_max_message_bytes st \<and>
    (\<forall>x. m = Some x \<longrightarrow> frame_ok (cw_max_message_bytes st) x \<and> \<not> is_close_msg x \<and> \<not> cw_cancelled st \<and> \<not> cw_closing st) \<and>
    (cw_cancelled st \<longrightarrow> cw_cancelled st') \<and> (cw_cancelled st \<or> cw_closing st \<longrightarrow> isl r) \<and>
    (\<forall>e. r = Inl e \<longrightarrow> ce_code e \<in> {''CLOSED'', ''INVALID_REQUEST''} \<or> cw_cancelled st')"
proof (cases "cw_closing st \<or> length data > cw_max_message_bytes st \<or>
    (kind = ''ping'' \<or> kind = ''pong'') \<and> length data > 125 \<or> isl (core_message kind data)")
  case True
  then show ?thesis
    using assms by (auto simp: core_ws_send_def ws_closed_def invalid_request_def core_message_def split: if_splits sum.splits)
next
  case False
  then obtain x where x: "core_message kind data = Inr x" by (cases "core_message kind data") auto
  obtain r1 st1 where o1: "ws_operation st (cw_tx st) w = (r1, st1)" by fastforce
  have "frame_ok (cw_max_message_bytes st) x \<and> \<not> is_close_msg x"
    using core_message_ok [OF x, of "cw_max_message_bytes st"] False by auto
  then show ?thesis
    using assms False x ws_operation_cases [OF o1 assms(2)]
    by (auto simp: core_ws_send_def o1 split: if_splits)
qed

lemma core_ws_recv_cases:
  assumes "core_ws_recv w flush st = (r, st')" and "ws_ok st"
  shows "ws_ok st' \<and> cw_max_message_bytes st' = cw_max_message_bytes st \<and>
    (cw_cancelled st \<longrightarrow> cw_cancelled st') \<and> (cw_cancelled st \<or> cw_closing st \<longrightarrow> isl r) \<and>
    (\<forall>e. r = Inl e \<longrightarrow> ce_code e \<in> {''CLOSED'', ''INVALID_REQUEST''} \<or> cw_cancelled st')"
proof (cases "cw_closing st")
  case True
  then show ?thesis
    using assms by (auto simp: core_ws_recv_def ws_closed_def)
next
  case False
  obtain r1 st1 where o1: "ws_operation st (cw_rx st) w = (r1, st1)" by fastforce
  obtain r2 st2 where o2: "ws_bounded st1 (with_half (cw_tx st1) flush) = (r2, st2)" by fastforce
  note c1 = ws_operation_cases [OF o1 assms(2)]
  then have ok1: "ws_ok st1" by blast
  note c2 = ws_bounded_cases [OF o2 ok1]
  show ?thesis
    using assms False c1 c2
    by (auto simp: core_ws_recv_def o1 o2 ws_ok_def split: if_splits sum.splits)
qed

lemma core_ws_close_cases:
  assumes "core_ws_close code reason w st = (r, st', m)" and "ws_ok st"
  shows "ws_ok st' \<and> cw_max_message_bytes st' = cw_max_message_bytes st \<and>
    (\<forall>x. m = Some x \<longrightarrow> frame_ok (cw_max_message_bytes st) x \<and> \<not> cw_cancelled st \<and> \<not> cw_closing st \<and> cw_cancelled st') \<and>
    (cw_cancelled st \<longrightarrow> cw_cancelled st') \<and>
    (\<forall>e. r = Inl e \<longrightarrow> ce_code e \<in> {''CLOSED'', ''INVALID_REQUEST''} \<or> cw_cancelled st')"
proof (cases "\<not> close_code_ok code \<or> length reason > 123 \<or> cw_closing st \<or> cw_cancelled st")
  case True
  then show ?thesis
    using assms by (auto simp: core_ws_close_def invalid_request_def split: if_splits)
next
  case False
  obtain r1 st1 where o1: "ws_bounded (st\<lparr>cw_closing := True\<rparr>) (with_half (cw_tx st \<and> cw_rx st) w) = (r1, st1)" by fastforce
  have "ws_ok (st\<lparr>cw_closing := True\<rparr>)" using assms(2) by (simp add: ws_ok_def)
  note c1 = ws_bounded_cases [OF o1 this]
  show ?thesis
    using assms False c1 close_code_ok_rfc [of code]
    by (auto simp: core_ws_close_def o1 Let_def split: if_splits)
qed

lemma ws_apply_cases:
  assumes "ws_apply x st = (e, st', m)" and "ws_ok st"
  shows "ws_ok st' \<and> cw_max_message_bytes st' = cw_max_message_bytes st \<and>
    (\<forall>y. m = Some y \<longrightarrow> frame_ok (cw_max_message_bytes st) y \<and> \<not> cw_cancelled st \<and> \<not> cw_closing st \<and>
       (is_close_msg y \<longrightarrow> cw_cancelled st')) \<and>
    (cw_cancelled st \<longrightarrow> cw_cancelled st') \<and>
    (\<forall>er. e = Some er \<longrightarrow> ce_code er \<in> {''CLOSED'', ''INVALID_REQUEST''} \<or> cw_cancelled st') \<and>
    (cw_cancelled st \<longrightarrow> (case x of OpSend _ _ _ \<Rightarrow> e \<noteq> None | OpRecv _ _ \<Rightarrow> e \<noteq> None | _ \<Rightarrow> True))"
proof (cases x)
  case (OpSend kind data w)
  obtain r st1 m1 where o1: "core_ws_send kind data w st = (r, st1, m1)" by (cases "core_ws_send kind data w st")
  show ?thesis
    using assms OpSend o1 core_ws_send_cases [OF o1 assms(2)] by (auto split: sum.splits)
next
  case (OpRecv w flush)
  obtain r st1 where o1: "core_ws_recv w flush st = (r, st1)" by fastforce
  show ?thesis
    using assms OpRecv o1 core_ws_recv_cases [OF o1 assms(2)] by (auto split: sum.splits)
next
  case (OpClose code reason w)
  obtain r st1 m1 where o1: "core_ws_close code reason w st = (r, st1, m1)" by (cases "core_ws_close code reason w st")
  show ?thesis
    using assms OpClose o1 core_ws_close_cases [OF o1 assms(2)] by (auto split: sum.splits)
qed (use assms in auto)

section \<open>Properties\<close>

lemma ws_run_cancelled:
  "ws_run xs st = (es, st', ms) \<Longrightarrow> ws_ok st \<Longrightarrow> cw_cancelled st \<Longrightarrow>
   ms = [] \<and> cw_cancelled st' \<and>
   list_all2 (\<lambda>x e. case x of OpSend _ _ _ \<Rightarrow> e \<noteq> None | OpRecv _ _ \<Rightarrow> e \<noteq> None | _ \<Rightarrow> True) xs es"
proof (induction xs arbitrary: st es ms st')
  case (Cons x xs)
  obtain e st1 m where x: "ws_apply x st = (e, st1, m)" by (cases "ws_apply x st")
  obtain es1 st2 ms1 where r: "ws_run xs st1 = (es1, st2, ms1)" by (cases "ws_run xs st1")
  note c = ws_apply_cases [OF x Cons.prems(2)]
  then have "m = None" using Cons.prems(3) by (cases m) auto
  with Cons.prems c x r Cons.IH [OF r] show ?case
    by auto
qed simp

text \<open>
  A socket fails once and for all: after an operation that returned an error of its own, a deadline, a cancellation or an error
  of the connection, every later send or receive is refused and nothing more is handed to the
  connection, both halves of which are gone. Only a refused argument and an already closed socket leave it as it is.
\<close>

lemma websocket_fails_once:
  assumes "ws_apply x st = (Some e, st1, m)" and "ws_ok st" and "ce_code e \<notin> {''CLOSED'', ''INVALID_REQUEST''}"
    and "ws_run xs st1 = (es, st2, ms)"
  shows "ms = [] \<and> \<not> cw_tx st2 \<and> \<not> cw_rx st2 \<and>
    list_all2 (\<lambda>x e. case x of OpSend _ _ _ \<Rightarrow> e \<noteq> None | OpRecv _ _ \<Rightarrow> e \<noteq> None | _ \<Rightarrow> True) xs es"
proof -
  note c = ws_apply_cases [OF assms(1,2)]
  then have st1: "ws_ok st1" "cw_cancelled st1" using assms(3) by auto
  have "ws_ok st2"
    using assms(4) st1(1)
  proof (induction xs arbitrary: st1 es ms st2)
    case (Cons x xs)
    obtain e st' m where x: "ws_apply x st1 = (e, st', m)" by (cases "ws_apply x st1")
    obtain es1 st2' ms1 where r: "ws_run xs st' = (es1, st2', ms1)" by (cases "ws_run xs st'")
    show ?case
      using Cons.prems x r ws_apply_cases [OF x Cons.prems(2)] Cons.IH [of st' es1 st2' ms1] by auto
  qed simp
  with ws_run_cancelled [OF assms(4) st1] show ?thesis
    by (simp add: ws_ok_def)
qed

text \<open>
  Whatever operations an application makes, in whatever order and however they end, every message handed to the connection
  is one the protocol allows: text is UTF-8, nothing is longer than the limit, control frames have at
  most 125 bytes, a close frame has a code a client may send; and nothing follows a close frame.
\<close>

lemma websocket_sends_well_formed:
  assumes "ws_run xs st = (es, st', ms)" and "ws_ok st"
  shows "(\<forall>m \<in> set ms. frame_ok (cw_max_message_bytes st) m) \<and> (\<forall>m \<in> set (butlast ms). \<not> is_close_msg m)"
  using assms
proof (induction xs arbitrary: st es ms st')
  case (Cons x xs)
  obtain e st1 m where x: "ws_apply x st = (e, st1, m)" by (cases "ws_apply x st")
  obtain es1 st2 ms1 where r: "ws_run xs st1 = (es1, st2, ms1)" by (cases "ws_run xs st1")
  note c = ws_apply_cases [OF x Cons.prems(2)]
  then have ok1: "ws_ok st1" and lim: "cw_max_message_bytes st1 = cw_max_message_bytes st" by blast+
  note IH = Cons.IH [OF r ok1, unfolded lim]
  show ?case
  proof (cases m)
    case None
    with Cons.prems(1) x r IH show ?thesis by auto
  next
    case (Some y)
    then have y: "frame_ok (cw_max_message_bytes st) y" "is_close_msg y \<Longrightarrow> cw_cancelled st1"
      using c by auto
    have "is_close_msg y \<Longrightarrow> ms1 = []"
      using ws_run_cancelled [OF r ok1] y(2) by blast
    with Cons.prems(1) x r IH y(1) Some show ?thesis by (auto split: if_splits)
  qed
qed simp

section \<open>A concrete socket\<close>

definition sample_socket :: core_ws where
  "sample_socket = \<lparr>cw_protocol = None, cw_tx = True, cw_rx = True, cw_cancelled = False, cw_closing = False,
     cw_operation_timeout = 30000, cw_max_message_bytes = 4\<rparr>"

abbreviation sample_ops :: "ws_op list" where
  "sample_ops \<equiv> [OpSend ''text'' ''hi'' (Some (Finished (Inr ()))), OpSend ''binary'' ''12345'' (Some (Finished (Inr ()))),
     OpClose 1000 ''bye'' (Finished (Inr [Inr (Text ''late''), Inr (CloseMsg None)])),
     OpSend ''text'' ''hi'' (Some (Finished (Inr ())))]"

lemma sample_ws_ok: "ws_ok sample_socket"
  by (simp add: ws_ok_def sample_socket_def)

lemma sample_ws_run:
  "\<exists>es st. ws_run sample_ops sample_socket = (es, st, [Text ''hi'', CloseMsg (Some \<lparr>cf_code = 1000, cf_reason = ''bye''\<rparr>)])"
  by (simp add: sample_socket_def core_ws_send_def core_message_def ws_operation_def ws_bounded_def with_half_def
      core_ws_close_def close_code_ok_def ws_abort_def Let_def valid_utf8.simps byte_in_def)

lemma websocket_sends_well_formed_witness:
  "\<exists>es st ms. ws_run sample_ops sample_socket = (es, st, ms) \<and> length ms = 2 \<and>
     (\<forall>m \<in> set [Text ''hi'']. \<not> is_close_msg m)"
proof -
  obtain es st where r: "ws_run sample_ops sample_socket =
      (es, st, [Text ''hi'', CloseMsg (Some \<lparr>cf_code = 1000, cf_reason = ''bye''\<rparr>)])"
    using sample_ws_run by blast
  from websocket_sends_well_formed [OF r sample_ws_ok] r show ?thesis by simp
qed

lemma websocket_fails_once_witness:
  "\<exists>st1 es st2 ms. ws_apply (OpRecv (Some Elapsed) (Finished (Inr ()))) sample_socket = (Some ws_timeout, st1, None) \<and>
     ws_run [OpSend ''text'' ''hi'' (Some (Finished (Inr ())))] st1 = (es, st2, ms) \<and> ms = [] \<and> \<not> cw_tx st2"
proof -
  have a: "ws_apply (OpRecv (Some Elapsed) (Finished (Inr ()))) sample_socket = (Some ws_timeout, ws_abort sample_socket, None)"
    by (simp add: core_ws_recv_def ws_operation_def ws_bounded_def with_half_def sample_socket_def ws_timeout_def Let_def)
  have code: "ce_code ws_timeout \<notin> {''CLOSED'', ''INVALID_REQUEST''}"
    by (simp add: ws_timeout_def)
  obtain es st2 ms where r: "ws_run [OpSend ''text'' ''hi'' (Some (Finished (Inr ())))] (ws_abort sample_socket) = (es, st2, ms)"
    by (cases "ws_run [OpSend ''text'' ''hi'' (Some (Finished (Inr ())))] (ws_abort sample_socket)")
  from websocket_fails_once [OF a sample_ws_ok code r] a r show ?thesis by blast
qed

end
