(* ===== verification/Keylog.thy ===== *)
theory Keylog
  imports Transitions
begin

text \<open>
  TLS key logging (\<open>src/src/tls/keylog.rs\<close>): the path of the log file and its normalisation,
  the process-wide cache of handles, and the thread that writes the lines of one file. A path
  is its list of \<open>std::path::Component\<close>s; a handle is the number of its channel.

  The cache is read under a read lock and filled under a write lock, so two threads that miss
  may both go on to fill it; each of the two critical sections is a step of its own.
\<close>

section \<open>Paths\<close>

datatype component = Prefix string | RootDir | CurDir | ParentDir | Normal string

type_synonym path = "component list"

text \<open>
  \<open>Path::components\<close> on Unix: empty and \<open>.\<close> segments are dropped, except a \<open>.\<close> that begins
  a relative path.
\<close>

definition path_components :: "string \<Rightarrow> path" where
  "path_components s =
     (let segments = split_on (CHR ''/'') s;
          names = map (\<lambda>w. if w = ''..'' then ParentDir else Normal w)
                      (filter (\<lambda>w. w \<noteq> [] \<and> w \<noteq> ''.'') segments)
      in if hd segments = [] \<and> s \<noteq> [] then RootDir # names
         else if hd segments = ''.'' then CurDir # names else names)"

text \<open>\<open>PathBuf::push\<close> of one component, \<open>PathBuf::pop\<close> and \<open>Path::parent\<close>.\<close>

fun is_prefix :: "component \<Rightarrow> bool" where
  "is_prefix (Prefix _) = True"
| "is_prefix _ = False"

definition path_push :: "component \<Rightarrow> path \<Rightarrow> path" where
  "path_push c p = (if c = RootDir then takeWhile is_prefix p @ [RootDir] else p @ [c])"

definition path_parent :: "path \<Rightarrow> path option" where
  "path_parent p = (if p = [] \<or> last p = RootDir \<or> is_prefix (last p) then None else Some (butlast p))"

definition path_pop :: "path \<Rightarrow> path" where
  "path_pop p = (case path_parent p of None \<Rightarrow> p | Some q \<Rightarrow> q)"

text \<open>The loop of \<open>normalize_path\<close>; \<open>None\<close> is its \<open>unreachable!\<close>.\<close>

fun normalize_loop :: "path \<Rightarrow> path \<Rightarrow> path option" where
  "normalize_loop ret [] = Some ret"
| "normalize_loop ret (Prefix _ # cs) = None"
| "normalize_loop ret (RootDir # cs) = normalize_loop (path_push RootDir ret) cs"
| "normalize_loop ret (CurDir # cs) = normalize_loop ret cs"
| "normalize_loop ret (ParentDir # cs) = normalize_loop (path_pop ret) cs"
| "normalize_loop ret (Normal c # cs) = normalize_loop (path_push (Normal c) ret) cs"

definition normalize_file_path :: "path \<Rightarrow> path option" where
  "normalize_file_path cs =
     (case cs of
        Prefix c # rest \<Rightarrow> normalize_loop [Prefix c] rest
      | _ \<Rightarrow> normalize_loop [] cs)"

section \<open>Policies\<close>

text \<open>
  \<open>KeyLog(Option<Arc<Path>>)\<close>. The argument of \<open>keylog_from_env\<close> is the variable
  \<open>SSLKEYLOGFILE\<close>, absent when unset or not Unicode. The outer option is a panic.
\<close>

type_synonym keylog = "path option"

definition keylog_from_file :: "string \<Rightarrow> keylog option" where
  "keylog_from_file s = map_option Some (normalize_file_path (path_components s))"

definition keylog_from_env :: "string option \<Rightarrow> keylog option" where
  "keylog_from_env var =
     (case var of
        Some s \<Rightarrow> if trim s \<noteq> [] then keylog_from_file s else Some None
      | None \<Rightarrow> Some None)"

section \<open>Handles\<close>

text \<open>
  A channel keeps the lines sent to it and how many its thread has received; a failed write
  is counted and may have written a part of the line. \<open>kl_files\<close> is what was appended to each
  file, one entry per received line.
\<close>

record channel =
  ch_path :: path
  ch_sent :: "string list"
  ch_taken :: nat
  ch_errors :: nat

record keylog_state =
  kl_cache :: "path \<Rightarrow> nat option"
  kl_channels :: "channel list"
  kl_files :: "path \<Rightarrow> string list"

datatype 'e keylog_error = PathNotSpecified | FileError 'e

text \<open>The operating system: why creating a directory, or opening a file to append, fails.\<close>

record 'e log_files =
  make_dirs :: "path \<Rightarrow> 'e option"
  open_append :: "path \<Rightarrow> 'e option"

definition handle_new :: "'e log_files \<Rightarrow> path \<Rightarrow> keylog_state \<Rightarrow> ('e keylog_error + nat) \<times> keylog_state" where
  "handle_new F p st =
     (case (case path_parent p of None \<Rightarrow> None | Some d \<Rightarrow> make_dirs F d) of
        Some e \<Rightarrow> (Inl (FileError e), st)
      | None \<Rightarrow>
          (case open_append F p of
             Some e \<Rightarrow> (Inl (FileError e), st)
           | None \<Rightarrow>
               (Inr (length (kl_channels st)),
                st\<lparr>kl_channels := kl_channels st @
                     [\<lparr>ch_path = p, ch_sent = [], ch_taken = 0, ch_errors = 0\<rparr>]\<rparr>)))"

definition handle_write :: "nat \<Rightarrow> string \<Rightarrow> keylog_state \<Rightarrow> keylog_state" where
  "handle_write h line st =
     st\<lparr>kl_channels := (kl_channels st)[h :=
          (kl_channels st ! h)\<lparr>ch_sent := ch_sent (kl_channels st ! h) @ [line @ [CHR 0x0A]]\<rparr>]\<rparr>"

text \<open>One turn of the writing thread; \<open>short\<close> is the length of a write that failed.\<close>

definition writer_turn :: "nat \<Rightarrow> nat option \<Rightarrow> keylog_state \<Rightarrow> keylog_state" where
  "writer_turn h short st =
     (let ch = kl_channels st ! h
      in if ch_taken ch < length (ch_sent ch) then
           (let line = ch_sent ch ! ch_taken ch;
                written = (case short of None \<Rightarrow> line | Some n \<Rightarrow> take n line);
                ch' = ch\<lparr>ch_taken := Suc (ch_taken ch),
                         ch_errors := (if short = None then ch_errors ch else Suc (ch_errors ch))\<rparr>
            in st\<lparr>kl_channels := (kl_channels st)[h := ch'],
                  kl_files := (kl_files st)(ch_path ch := kl_files st (ch_path ch) @ [written])\<rparr>)
         else st)"

text \<open>\<open>KeyLog::handle\<close>, and its two critical sections.\<close>

definition keylog_install :: "'e log_files \<Rightarrow> path \<Rightarrow> keylog_state \<Rightarrow> ('e keylog_error + nat) \<times> keylog_state" where
  "keylog_install F p st =
     (case kl_cache st p of
        Some h \<Rightarrow> (Inr h, st)
      | None \<Rightarrow>
          (case handle_new F p st of
             (Inl e, st') \<Rightarrow> (Inl e, st')
           | (Inr h, st') \<Rightarrow> (Inr h, st'\<lparr>kl_cache := (kl_cache st')(p \<mapsto> h)\<rparr>)))"

definition keylog_handle :: "'e log_files \<Rightarrow> keylog \<Rightarrow> keylog_state \<Rightarrow> ('e keylog_error + nat) \<times> keylog_state" where
  "keylog_handle F k st =
     (case k of
        None \<Rightarrow> (Inl PathNotSpecified, st)
      | Some p \<Rightarrow>
          (case kl_cache st p of Some h \<Rightarrow> (Inr h, st) | None \<Rightarrow> keylog_install F p st))"

definition keylog_start :: keylog_state where
  "keylog_start = \<lparr>kl_cache = (\<lambda>_. None), kl_channels = [], kl_files = (\<lambda>_. [])\<rparr>"


section \<open>What a normalised path is\<close>

text \<open>Following a path from a directory, in a tree without symbolic links.\<close>

fun walk_step :: "string list \<Rightarrow> component \<Rightarrow> string list" where
  "walk_step dir RootDir = []"
| "walk_step dir ParentDir = butlast dir"
| "walk_step dir (Normal c) = dir @ [c]"
| "walk_step dir _ = dir"

definition walk :: "string list \<Rightarrow> path \<Rightarrow> string list" where
  "walk dir p = foldl walk_step dir p"

text \<open>The path never goes above the directory it starts from, or it is absolute.\<close>

fun stays_below :: "bool \<Rightarrow> nat \<Rightarrow> path \<Rightarrow> bool" where
  "stays_below a d [] = True"
| "stays_below a d (Prefix _ # cs) = False"
| "stays_below a d (RootDir # cs) = stays_below True 0 cs"
| "stays_below a d (CurDir # cs) = stays_below a d cs"
| "stays_below a d (ParentDir # cs) = ((a \<or> 0 < d) \<and> stays_below a (d - 1) cs)"
| "stays_below a d (Normal _ # cs) = stays_below a (Suc d) cs"

definition plain_path :: "bool \<Rightarrow> string list \<Rightarrow> path" where
  "plain_path a ns = (if a then [RootDir] else []) @ map Normal ns"

lemma plain_path_push:
  "path_push RootDir (plain_path a ns) = plain_path True []"
  "path_push (Normal c) (plain_path a ns) = plain_path a (ns @ [c])"
  by (cases ns; simp add: path_push_def plain_path_def)+

lemma plain_path_pop: "path_pop (plain_path a ns) = plain_path a (butlast ns)"
  by (cases ns rule: rev_cases)
    (auto simp: path_pop_def path_parent_def plain_path_def butlast_append)

lemma walk_plain: "walk dir (plain_path a ns) = (if a then [] else dir) @ ns"
proof -
  have "foldl walk_step d (map Normal ns) = d @ ns" for d
    by (induction ns arbitrary: d) auto
  then show ?thesis by (simp add: walk_def plain_path_def)
qed

lemma normalize_loop_plain:
  "Prefix ` UNIV \<inter> set cs = {} \<Longrightarrow> \<exists>a' ns'. normalize_loop (plain_path a ns) cs = Some (plain_path a' ns')"
proof (induction cs arbitrary: a ns)
  case (Cons c cs)
  then show ?case by (cases c) (auto simp: plain_path_push plain_path_pop)
qed auto

lemma normalize_loop_walk:
  "stays_below a (length ns) cs \<Longrightarrow> normalize_loop (plain_path a ns) cs = Some q \<Longrightarrow>
   walk dir q = walk dir (plain_path a ns @ cs)"
proof (induction cs arbitrary: a ns)
  case Nil
  then show ?case by simp
next
  case (Cons c cs)
  have walk_app: "walk dir (plain_path b ms @ c # cs) = walk dir (plain_path b' ms' @ cs)"
    if "walk_step (walk dir (plain_path b ms)) c = walk dir (plain_path b' ms')" for b ms b' ms'
    using that by (simp add: walk_def)
  show ?case
  proof (cases c)
    case (Prefix x)
    with Cons.prems show ?thesis by simp
  next
    case RootDir
    then show ?thesis using Cons.prems Cons.IH[of True "[]"] walk_app[of a ns True "[]"]
      by (simp add: plain_path_push walk_plain)
  next
    case CurDir
    then show ?thesis using Cons.prems Cons.IH[of a ns] walk_app[of a ns a ns]
      by (simp add: walk_plain)
  next
    case ParentDir
    then show ?thesis
      using Cons.prems Cons.IH[of a "butlast ns"] walk_app[of a ns a "butlast ns"]
      by (auto simp: plain_path_pop walk_plain butlast_append)
  next
    case (Normal x)
    then show ?thesis
      using Cons.prems Cons.IH[of a "ns @ [x]"] walk_app[of a ns a "ns @ [x]"]
      by (simp add: plain_path_push walk_plain)
  qed
qed

lemma components_no_prefix: "Prefix ` UNIV \<inter> set (path_components s) = {}"
  by (auto simp: path_components_def Let_def split: if_splits)

lemma normalize_file_path_loop:
  "Prefix ` UNIV \<inter> set cs = {} \<Longrightarrow> normalize_file_path cs = normalize_loop (plain_path False []) cs"
  by (auto simp: normalize_file_path_def plain_path_def split: list.splits component.splits)

text \<open>
  A log file is opened at a path without \<open>.\<close> and \<open>..\<close>, which names the same file unless the
  path that was given climbs above the directory it is relative to.
\<close>

lemma keylog_path_kept:
  assumes "stays_below False 0 (path_components s)"
  shows "\<exists>a ns. keylog_from_file s = Some (Some (plain_path a ns)) \<and>
           walk dir (plain_path a ns) = walk dir (path_components s)"
proof -
  obtain a ns where n: "normalize_file_path (path_components s) = Some (plain_path a ns)"
    using normalize_loop_plain[OF components_no_prefix, of False "[]" s]
    by (auto simp: normalize_file_path_loop[OF components_no_prefix])
  with normalize_loop_walk[of False "[]" "path_components s" "plain_path a ns" dir] assms
  show ?thesis
    by (auto simp: keylog_from_file_def normalize_file_path_loop[OF components_no_prefix] plain_path_def)
qed

text \<open>A relative path that climbs loses its \<open>..\<close>: the log goes to another directory.\<close>

lemma keylog_path_climbs:
  "keylog_from_file ''../keys.log'' = keylog_from_file ''keys.log''"
  "walk [''home'', ''app''] (path_components ''../keys.log'') = [''home'', ''keys.log'']"
  by (simp_all add: keylog_from_file_def normalize_file_path_def path_components_def
      path_push_def path_pop_def path_parent_def walk_def)


section \<open>Many threads\<close>

text \<open>
  A thread asks for a path, and holds a handle once it has one; which thread moves next, what
  the operating system answers and how far a failed write came are not determined.
\<close>

datatype kl_thread = Asking path | Missed path | Holding path nat | Refused

record kl_sys =
  kl_state :: keylog_state
  kl_threads :: "nat \<Rightarrow> kl_thread"

inductive kl_step :: "kl_sys \<Rightarrow> kl_sys \<Rightarrow> bool" where
  hit: "kl_threads s t = Asking p \<Longrightarrow> kl_cache (kl_state s) p = Some h \<Longrightarrow>
    kl_step s (s\<lparr>kl_threads := (kl_threads s)(t := Holding p h)\<rparr>)"
| miss: "kl_threads s t = Asking p \<Longrightarrow> kl_cache (kl_state s) p = None \<Longrightarrow>
    kl_step s (s\<lparr>kl_threads := (kl_threads s)(t := Missed p)\<rparr>)"
| install: "kl_threads s t = Missed p \<Longrightarrow> keylog_install F p (kl_state s) = (r, st) \<Longrightarrow>
    kl_step s \<lparr>kl_state = st, kl_threads = (kl_threads s)(t :=
      (case r of Inl (e :: string keylog_error) \<Rightarrow> Refused | Inr h \<Rightarrow> Holding p h))\<rparr>"
| log: "kl_threads s t = Holding p h \<Longrightarrow>
    kl_step s (s\<lparr>kl_state := handle_write h line (kl_state s)\<rparr>)"
| turn: "h < length (kl_channels (kl_state s)) \<Longrightarrow>
    kl_step s (s\<lparr>kl_state := writer_turn h short (kl_state s)\<rparr>)"

definition kl_begin :: "(nat \<Rightarrow> path) \<Rightarrow> kl_sys" where
  "kl_begin paths = \<lparr>kl_state = keylog_start, kl_threads = (\<lambda>t. Asking (paths t))\<rparr>"

text \<open>
  The invariant: the cache and the channels are inverse to each other, holders hold what the
  cache has, and a file holds one entry for each line its thread received.
\<close>

definition log_line :: "string \<Rightarrow> bool" where
  "log_line l \<longleftrightarrow> l \<noteq> [] \<and> last l = CHR 0x0A"

definition channel_ok :: "channel \<Rightarrow> string list \<Rightarrow> bool" where
  "channel_ok ch file \<longleftrightarrow>
     ch_taken ch \<le> length (ch_sent ch) \<and> list_all log_line (ch_sent ch) \<and>
     list_all2 prefix file (take (ch_taken ch) (ch_sent ch)) \<and>
     (ch_errors ch = 0 \<longrightarrow> file = take (ch_taken ch) (ch_sent ch))"

definition keylog_ok :: "keylog_state \<Rightarrow> bool" where
  "keylog_ok st \<longleftrightarrow>
     (\<forall>p h. kl_cache st p = Some h \<longleftrightarrow> h < length (kl_channels st) \<and> ch_path (kl_channels st ! h) = p) \<and>
     (\<forall>h < length (kl_channels st). channel_ok (kl_channels st ! h) (kl_files st (ch_path (kl_channels st ! h)))) \<and>
     (\<forall>p. kl_cache st p = None \<longrightarrow> kl_files st p = [])"

definition kl_ok :: "kl_sys \<Rightarrow> bool" where
  "kl_ok s \<longleftrightarrow> keylog_ok (kl_state s) \<and>
     (\<forall>t p h. kl_threads s t = Holding p h \<longrightarrow> kl_cache (kl_state s) p = Some h)"

lemma keylog_okD:
  assumes "keylog_ok st"
  shows "kl_cache st p = Some h \<longleftrightarrow> h < length (kl_channels st) \<and> ch_path (kl_channels st ! h) = p"
    and "h < length (kl_channels st) \<Longrightarrow>
      channel_ok (kl_channels st ! h) (kl_files st (ch_path (kl_channels st ! h)))"
    and "kl_cache st p = None \<Longrightarrow> kl_files st p = []"
  using assms unfolding keylog_ok_def by blast+

lemma handle_new_cases:
  assumes "handle_new F p st = (r, st')"
  obtains e where "r = Inl e" "st' = st"
  | "r = Inr (length (kl_channels st))"
    "st' = st\<lparr>kl_channels := kl_channels st @ [\<lparr>ch_path = p, ch_sent = [], ch_taken = 0, ch_errors = 0\<rparr>]\<rparr>"
proof -
  have "(\<exists>e. r = Inl e \<and> st' = st) \<or> r = Inr (length (kl_channels st)) \<and>
    st' = st\<lparr>kl_channels := kl_channels st @ [\<lparr>ch_path = p, ch_sent = [], ch_taken = 0, ch_errors = 0\<rparr>]\<rparr>"
    using assms unfolding handle_new_def by (simp split: option.splits) blast+
  with that show thesis by blast
qed

lemma keylog_install_cases:
  assumes "keylog_install F p st = (r, st')"
  obtains h where "kl_cache st p = Some h" "r = Inr h" "st' = st"
  | e where "r = Inl e" "st' = st"
  | "kl_cache st p = None" "r = Inr (length (kl_channels st))"
    "st' = st\<lparr>kl_channels := kl_channels st @ [\<lparr>ch_path = p, ch_sent = [], ch_taken = 0, ch_errors = 0\<rparr>],
              kl_cache := (kl_cache st)(p \<mapsto> length (kl_channels st))\<rparr>"
proof -
  have "(\<exists>h. kl_cache st p = Some h \<and> r = Inr h \<and> st' = st) \<or> (\<exists>e. r = Inl e \<and> st' = st) \<or>
    kl_cache st p = None \<and> r = Inr (length (kl_channels st)) \<and>
    st' = st\<lparr>kl_channels := kl_channels st @ [\<lparr>ch_path = p, ch_sent = [], ch_taken = 0, ch_errors = 0\<rparr>],
              kl_cache := (kl_cache st)(p \<mapsto> length (kl_channels st))\<rparr>"
  proof (cases "kl_cache st p")
    case (Some h)
    with assms show ?thesis by (simp add: keylog_install_def)
  next
    case None
    obtain r0 st0 where n: "handle_new F p st = (r0, st0)" by (cases "handle_new F p st")
    then show ?thesis
      by (cases rule: handle_new_cases) (use assms n None in \<open>auto simp: keylog_install_def\<close>)
  qed
  then show thesis by (elim disjE exE conjE) (rule that; assumption)+
qed

lemma install_keeps_cache:
  assumes "keylog_install F p st = (r, st')" and "kl_cache st q = Some h"
  shows "kl_cache st' q = Some h"
  using assms by (auto elim!: keylog_install_cases)

lemma install_answer:
  assumes "keylog_install F p st = (Inr h, st')"
  shows "kl_cache st' p = Some h"
  using assms by (auto elim!: keylog_install_cases)

lemma channel_ok_new: "channel_ok \<lparr>ch_path = p, ch_sent = [], ch_taken = 0, ch_errors = 0\<rparr> []"
  by (simp add: channel_ok_def)

lemma keylog_ok_install:
  assumes ok: "keylog_ok st" and i: "keylog_install F p st = (r, st')"
  shows "keylog_ok st'"
  using i
proof (cases rule: keylog_install_cases)
  case 3
  note new = keylog_okD(1)[OF ok] 
  have "kl_cache st' q = Some h \<longleftrightarrow> h < length (kl_channels st') \<and> ch_path (kl_channels st' ! h) = q" for q h
    using 3 new[of q h] new[of p h] by (auto simp: nth_append less_Suc_eq)
  moreover have "channel_ok (kl_channels st' ! h) (kl_files st' (ch_path (kl_channels st' ! h)))"
    if "h < length (kl_channels st')" for h
    using 3 that keylog_okD(2)[OF ok, of h] keylog_okD(3)[OF ok, of p]
    by (auto simp: nth_append less_Suc_eq channel_ok_new)
  moreover have "kl_files st' q = []" if "kl_cache st' q = None" for q
    using 3 that keylog_okD(3)[OF ok, of q] by (auto split: if_splits)
  ultimately show ?thesis unfolding keylog_ok_def by blast
qed (use ok in simp_all)

lemma channel_update_ok:
  assumes ok: "keylog_ok st" and h: "h < length (kl_channels st)"
    and path: "ch_path ch = ch_path (kl_channels st ! h)"
    and ch: "channel_ok ch file"
    and st': "st' = st\<lparr>kl_channels := (kl_channels st)[h := ch],
                       kl_files := (kl_files st)(ch_path ch := file)\<rparr>"
  shows "keylog_ok st'"
proof -
  have same: "ch_path (kl_channels st' ! i) = ch_path (kl_channels st ! i)" for i
    using h path st' by (cases "i = h") auto
  have own: "ch_path (kl_channels st ! i) = ch_path (kl_channels st ! h) \<longleftrightarrow> i = h"
    if "i < length (kl_channels st)" for i
    using keylog_okD(1)[OF ok, of "ch_path (kl_channels st ! h)"] that h by (metis option.inject)
  have "kl_cache st' q = Some i \<longleftrightarrow> i < length (kl_channels st') \<and> ch_path (kl_channels st' ! i) = q" for q i
    using keylog_okD(1)[OF ok, of q i] by (simp add: same) (simp add: st')
  moreover have "channel_ok (kl_channels st' ! i) (kl_files st' (ch_path (kl_channels st' ! i)))"
    if "i < length (kl_channels st')" for i
    using that own[of i] keylog_okD(2)[OF ok, of i] ch h
    by (cases "i = h") (auto simp: same[of i] st' path)
  moreover have "kl_files st' q = []" if "kl_cache st' q = None" for q
    using that keylog_okD(1)[OF ok, of q h] keylog_okD(3)[OF ok, of q] h by (auto simp: st' path)
  ultimately show ?thesis unfolding keylog_ok_def by blast
qed

lemma keylog_ok_write:
  assumes ok: "keylog_ok st" and h: "h < length (kl_channels st)"
  shows "keylog_ok (handle_write h line st)"
proof (rule channel_update_ok[OF ok h])
  let ?ch = "kl_channels st ! h"
  let ?new = "?ch\<lparr>ch_sent := ch_sent ?ch @ [line @ [CHR 0x0A]]\<rparr>"
  show "channel_ok ?new (kl_files st (ch_path ?ch))"
    using keylog_okD(2)[OF ok h] by (simp add: channel_ok_def log_line_def)
qed (simp_all add: handle_write_def)

lemma keylog_ok_turn:
  assumes ok: "keylog_ok st" and h: "h < length (kl_channels st)"
  shows "keylog_ok (writer_turn h short st)"
proof -
  define ch where "ch = kl_channels st ! h"
  define line where "line = ch_sent ch ! ch_taken ch"
  define written where "written = (case short of None \<Rightarrow> line | Some n \<Rightarrow> take n line)"
  define new where "new = ch\<lparr>ch_taken := Suc (ch_taken ch),
    ch_errors := (if short = None then ch_errors ch else Suc (ch_errors ch))\<rparr>"
  have part: "prefix written line" "short = None \<Longrightarrow> written = line"
    by (auto simp: written_def take_is_prefix split: option.splits)
  show ?thesis
  proof (cases "ch_taken ch < length (ch_sent ch)")
    case True
    have old: "channel_ok ch (kl_files st (ch_path ch))" using keylog_okD(2)[OF ok h] by (simp add: ch_def)
    have "channel_ok new (kl_files st (ch_path ch) @ [written])"
      using old True part
      by (auto simp: channel_ok_def new_def take_Suc_conv_app_nth list_all2_appendI line_def)
    moreover have "writer_turn h short st =
        st\<lparr>kl_channels := (kl_channels st)[h := new],
           kl_files := (kl_files st)(ch_path new := kl_files st (ch_path ch) @ [written])\<rparr>"
      using True
      by (cases short) (simp_all add: writer_turn_def ch_def[symmetric] Let_def line_def written_def new_def)
    ultimately show ?thesis
      using channel_update_ok[OF ok h, of new] by (simp add: new_def ch_def)
  qed (use ok in \<open>simp add: writer_turn_def ch_def\<close>)
qed

lemma kl_ok_step: "kl_step s s' \<Longrightarrow> kl_ok s \<Longrightarrow> kl_ok s'"
proof (induction rule: kl_step.induct)
  case (install s t p F r st)
  have "keylog_ok st" using install by (auto simp: kl_ok_def intro: keylog_ok_install)
  moreover have "kl_cache st q = Some h"
    if "((kl_threads s)(t := (case r of Inl e \<Rightarrow> Refused | Inr h \<Rightarrow> Holding p h))) t' = Holding q h" for t' q h
    using that install install_keeps_cache[OF install.hyps(2)] install_answer[of F p "kl_state s"]
    by (auto simp: kl_ok_def split: if_splits sum.splits)
  ultimately show ?case by (simp add: kl_ok_def)
next
  case (log s t p h line)
  then have "h < length (kl_channels (kl_state s))" using keylog_okD(1) by (auto simp: kl_ok_def)
  with log keylog_ok_write[of "kl_state s" h line] show ?case by (simp add: kl_ok_def handle_write_def)
next
  case (turn h s short)
  with keylog_ok_turn[of "kl_state s" h short] show ?case
    by (auto simp: kl_ok_def writer_turn_def Let_def)
qed (auto simp: kl_ok_def)

lemma kl_ok_begin: "kl_ok (kl_begin paths)"
  by (simp add: kl_ok_def kl_begin_def keylog_ok_def keylog_start_def)

interpretation key_log: step_invariant "\<lambda>s. s \<in> range kl_begin" kl_step kl_ok
  by unfold_locales (auto intro: kl_ok_step kl_ok_begin)

lemma kl_reach_ok: "kl_step\<^sup>*\<^sup>* (kl_begin paths) s \<Longrightarrow> kl_ok s"
  by (rule key_log.reached) auto

text \<open>Asking again gives the same handle, whatever the operating system would answer now.\<close>

lemma keylog_handle_again:
  "keylog_handle F k st = (Inr h, st') \<Longrightarrow> keylog_handle G k st' = (Inr h, st')"
  by (auto simp: keylog_handle_def split: option.splits dest: install_answer)

text \<open>A file that cannot be opened leaves no trace, so a later attempt tries again.\<close>

lemma keylog_handle_refused: "keylog_handle F k st = (Inl e, st') \<Longrightarrow> st' = st"
  by (auto simp: keylog_handle_def split: option.splits elim: keylog_install_cases)

text \<open>
  C30. However threads interleave, all handles of one path are the same channel, so a log file
  has one writer; what it appended is, line after line, a part of each line in the order they
  were sent, and all of each when no write failed.
\<close>

theorem keylog_one_writer:
  assumes "kl_step\<^sup>*\<^sup>* (kl_begin paths) s"
    and "kl_threads s t = Holding p h"
    and "kl_threads s t' = Holding p h'"
  defines "ch \<equiv> kl_channels (kl_state s) ! h"
  shows "h' = h \<and> ch_path ch = p \<and>
    list_all2 prefix (kl_files (kl_state s) p) (take (ch_taken ch) (ch_sent ch)) \<and>
    (ch_errors ch = 0 \<longrightarrow> kl_files (kl_state s) p = take (ch_taken ch) (ch_sent ch))"
proof -
  have ok: "keylog_ok (kl_state s)" and held: "kl_cache (kl_state s) p = Some h"
    and same: "h' = h"
    using kl_reach_ok[OF assms(1)] assms(2,3) unfolding kl_ok_def by (blast, blast, metis option.inject)
  have h: "h < length (kl_channels (kl_state s))" and p: "ch_path ch = p"
    using keylog_okD(1)[OF ok] held by (auto simp: ch_def)
  have "channel_ok ch (kl_files (kl_state s) p)"
    using keylog_okD(2)[OF ok h] p by (simp add: ch_def)
  with p same show ?thesis by (simp add: channel_ok_def)
qed


definition sample_files :: "string log_files" where
  "sample_files = \<lparr>make_dirs = \<lambda>_. None, open_append = \<lambda>_. None\<rparr>"

definition sample_log :: kl_sys where
  "sample_log = \<lparr>kl_state = \<lparr>kl_cache = [[Normal ''k''] \<mapsto> 0],
       kl_channels = [\<lparr>ch_path = [Normal ''k''], ch_sent = [''a'' @ [CHR 0x0A]], ch_taken = 1, ch_errors = 0\<rparr>],
       kl_files = (\<lambda>_. [])([Normal ''k''] := [''a'' @ [CHR 0x0A]])\<rparr>,
     kl_threads = (\<lambda>t. Asking [Normal ''k''])(0 := Holding [Normal ''k''] 0, 1 := Holding [Normal ''k''] 0)\<rparr>"

lemma sample_log_reached: "kl_step\<^sup>*\<^sup>* (kl_begin (\<lambda>_. [Normal ''k''])) sample_log"
proof -
  let ?p = "[Normal ''k'']"
  let ?s0 = "kl_begin (\<lambda>_. ?p)"
  let ?s1 = "?s0\<lparr>kl_threads := (kl_threads ?s0)(0 := Missed ?p)\<rparr>"
  let ?s2 = "?s1\<lparr>kl_threads := (kl_threads ?s1)(1 := Missed ?p)\<rparr>"
  let ?st3 = "snd (keylog_install sample_files ?p (kl_state ?s2))"
  let ?s3 = "\<lparr>kl_state = ?st3, kl_threads = (kl_threads ?s2)(0 := Holding ?p 0)\<rparr>"
  let ?s4 = "\<lparr>kl_state = ?st3, kl_threads = (kl_threads ?s3)(1 := Holding ?p 0)\<rparr>"
  let ?s5 = "?s4\<lparr>kl_state := handle_write 0 ''a'' (kl_state ?s4)\<rparr>"
  let ?s6 = "?s5\<lparr>kl_state := writer_turn 0 None (kl_state ?s5)\<rparr>"
  note defs = kl_begin_def keylog_start_def keylog_install_def handle_new_def sample_files_def
    path_parent_def handle_write_def writer_turn_def
  have 1: "kl_step ?s0 ?s1" by (rule miss) (simp_all add: defs)
  have 2: "kl_step ?s1 ?s2" by (rule miss) (simp_all add: defs)
  have 3: "kl_step ?s2 ?s3"
    using install[of ?s2 0 ?p sample_files "Inr 0" ?st3] by (simp add: defs)
  have 4: "kl_step ?s3 ?s4"
    using install[of ?s3 1 ?p sample_files "Inr 0" ?st3] by (simp add: defs)
  have 5: "kl_step ?s4 ?s5" by (rule log[of _ 0 ?p]) simp
  have 6: "kl_step ?s5 ?s6" by (rule turn) (simp add: defs)
  have 7: "?s6 = sample_log" by (simp add: defs sample_log_def fun_upd_twist)
  from 1 2 3 4 5 6 show ?thesis unfolding 7[symmetric]
    by (blast intro: converse_rtranclp_into_rtranclp)
qed

theorem keylog_one_writer_witness:
  "ch_path (kl_channels (kl_state sample_log) ! 0) = [Normal ''k''] \<and>
   kl_files (kl_state sample_log) [Normal ''k''] = [''a'' @ [CHR 0x0A]]"
  using keylog_one_writer[OF sample_log_reached, of 1 "[Normal ''k'']" 0 0 0]
  by (simp add: sample_log_def)

end
