(* ===== verification/System_Proxy.thy ===== *)
theory System_Proxy
  imports Proxy_Matcher
begin

text \<open>
  Proxy settings of the operating system (\<open>src/src/proxy/win.rs\<close>, \<open>src/src/proxy/mac.rs\<close>, and
  \<open>Builder::from_system\<close> of \<open>src/src/proxy/matcher.rs\<close>), which fill what the environment left
  empty. What the registry and the dynamic store hold is an argument.
\<close>

section \<open>Windows\<close>

text \<open>
  \<open>i32::from_str\<close> and its \<open>Display\<close>: the element type of the array of octets, which nothing
  constrains, is \<open>i32\<close>.
\<close>

fun is_digit :: "char \<Rightarrow> bool" where
  "is_digit c = (48 \<le> (of_char c :: nat) \<and> of_char c \<le> (57 :: nat))"

definition parse_digits :: "string \<Rightarrow> int option" where
  "parse_digits s =
     (if s \<noteq> [] \<and> list_all is_digit s then
        Some (foldl (\<lambda>a c. 10 * a + (of_char c - 48)) 0 s)
      else None)"

definition parse_i32 :: "string \<Rightarrow> int option" where
  "parse_i32 s =
     (case (if s \<noteq> [] \<and> hd s = CHR ''-'' then map_option uminus (parse_digits (tl s))
            else if s \<noteq> [] \<and> hd s = CHR ''+'' then parse_digits (tl s)
            else parse_digits s) of
        Some n \<Rightarrow> if - (2 ^ 31) \<le> n \<and> n < 2 ^ 31 then Some n else None
      | None \<Rightarrow> None)"

definition show_int :: "int \<Rightarrow> string" where
  "show_int n = (if n < 0 then CHR ''-'' # decimal (nat (- n)) else decimal (nat n))"

fun index_of :: "'a \<Rightarrow> 'a list \<Rightarrow> nat option" where
  "index_of x [] = None"
| "index_of x (y # ys) = (if y = x then Some 0 else map_option Suc (index_of x ys))"

fun parse_all :: "string list \<Rightarrow> int list option" where
  "parse_all [] = Some []"
| "parse_all (p # ps) =
     (case parse_i32 p of None \<Rightarrow> None | Some n \<Rightarrow> map_option ((#) n) (parse_all ps))"

definition ipv4_wildcard_to_cidr :: "string \<Rightarrow> string option" where
  "ipv4_wildcard_to_cidr value =
     (let parts = split_on (CHR ''.'') value
      in case index_of ''*'' parts of
           None \<Rightarrow> None
         | Some wildcard \<Rightarrow>
             if wildcard = 0 \<or> wildcard > 3 \<or> (\<exists>part \<in> set (drop wildcard parts). part \<noteq> ''*'') then None
             else
               map_option (\<lambda>octets.
                 join_with ''.'' (map show_int (octets @ replicate (4 - wildcard) 0)) @
                 ''/'' @ decimal (wildcard * 8)) (parse_all (take wildcard parts)))"

text \<open>\<open>replace("*.", "")\<close>.\<close>

fun drop_star_dot :: "string \<Rightarrow> string" where
  "drop_star_dot (a # b # s) =
     (if a = CHR ''*'' \<and> b = CHR ''.'' then drop_star_dot s else a # drop_star_dot (b # s))"
| "drop_star_dot s = s"

definition override_entry :: "string \<Rightarrow> string" where
  "override_entry entry =
     (let entry = trim entry
      in case ipv4_wildcard_to_cidr entry of Some cidr \<Rightarrow> cidr | None \<Rightarrow> entry)"

definition normalize_proxy_override :: "string \<Rightarrow> string" where
  "normalize_proxy_override value =
     drop_star_dot (join_with '','' (map override_entry (split_on (CHR '';'') value)))"

text \<open>
  The registry key of the Internet settings: absent when it cannot be opened, each value
  absent when it cannot be read.
\<close>

record win_settings =
  proxy_enable :: "u32 option"
  proxy_server :: "string option"
  proxy_override :: "string option"

definition win_with_system :: "win_settings option \<Rightarrow> matcher_builder \<Rightarrow> matcher_builder" where
  "win_with_system settings b =
     (case settings of
        None \<Rightarrow> b
      | Some S \<Rightarrow>
          if (case proxy_enable S of None \<Rightarrow> 0 | Some n \<Rightarrow> n) = 0 then b
          else
            (let b = (case proxy_server S of
                        None \<Rightarrow> b
                      | Some val \<Rightarrow>
                          (let b = (if mb_http b = [] then b\<lparr>mb_http := val\<rparr> else b)
                           in if mb_https b = [] then b\<lparr>mb_https := val\<rparr> else b))
             in if mb_no b = [] then
                  (case proxy_override S of
                     None \<Rightarrow> b
                   | Some val \<Rightarrow> b\<lparr>mb_no := normalize_proxy_override val\<rparr>)
                else b))"

section \<open>macOS\<close>

text \<open>A value of the proxies dictionary; a number that has no \<open>i32\<close> value is \<open>CFNumber None\<close>.\<close>

datatype cf_value = CFNumber "int option" | CFString string | CFOther

definition cf_i32 :: "cf_value \<Rightarrow> int option" where
  "cf_i32 v = (case v of CFNumber n \<Rightarrow> n | _ \<Rightarrow> None)"

definition cf_string :: "cf_value \<Rightarrow> string option" where
  "cf_string v = (case v of CFString s \<Rightarrow> Some s | _ \<Rightarrow> None)"

definition parse_setting_from_dynamic_store ::
    "(string \<Rightarrow> cf_value option) \<Rightarrow> string \<Rightarrow> string \<Rightarrow> string \<Rightarrow> string option" where
  "parse_setting_from_dynamic_store proxies enabled_key host_key port_key =
     (if (case Option.bind (proxies enabled_key) cf_i32 of None \<Rightarrow> 0 | Some n \<Rightarrow> n) = 1 then
        (case (Option.bind (proxies host_key) cf_string, Option.bind (proxies port_key) cf_i32) of
           (Some h, Some p) \<Rightarrow> Some (h @ '':'' @ show_int p)
         | (Some h, None) \<Rightarrow> Some h
         | (None, _) \<Rightarrow> None)
      else None)"

definition mac_with_system :: "(string \<Rightarrow> cf_value option) option \<Rightarrow> matcher_builder \<Rightarrow> matcher_builder" where
  "mac_with_system proxies b =
     (case proxies of
        None \<Rightarrow> b
      | Some m \<Rightarrow>
          (let b = (if mb_http b = [] then
                      (case parse_setting_from_dynamic_store m ''HTTPEnable'' ''HTTPProxy'' ''HTTPPort'' of
                         Some http \<Rightarrow> b\<lparr>mb_http := http\<rparr> | None \<Rightarrow> b)
                    else b)
           in if mb_https b = [] then
                (case parse_setting_from_dynamic_store m ''HTTPSEnable'' ''HTTPSProxy'' ''HTTPSPort'' of
                   Some https \<Rightarrow> b\<lparr>mb_https := https\<rparr> | None \<Rightarrow> b)
              else b))"

text \<open>\<open>Builder::from_system\<close> with the system's part, and the matcher built from it.\<close>

definition mb_from_system ::
    "(matcher_builder \<Rightarrow> matcher_builder) \<Rightarrow> (string \<Rightarrow> string option) \<Rightarrow> matcher_builder" where
  "mb_from_system with_system env = with_system (mb_from_env env)"

definition system_matcher ::
    "'n proxy_lib \<Rightarrow> (matcher_builder \<Rightarrow> matcher_builder) \<Rightarrow> (string \<Rightarrow> string option) \<Rightarrow> ('h, 'n) matcher" where
  "system_matcher X with_system env = mb_build X (mb_from_system with_system env) extra_default"


section \<open>Wildcards of the bypass list\<close>

lemma decimal_digits: "list_all is_digit (decimal n)"
proof (induction n rule: decimal.induct)
  case (1 n)
  then show ?case by (cases "n < 10") (simp_all add: decimal.simps[of n] of_char_of)
qed

lemma decimal_nonempty [simp]: "decimal n \<noteq> []"
  by (subst decimal.simps) simp

lemma foldl_digits:
  "foldl (\<lambda>a c. 10 * a + (of_char c - 48)) a (xs @ [c]) =
     10 * foldl (\<lambda>a c. 10 * a + (of_char c - 48)) a xs + (of_char c - (48 :: int))"
  by simp

lemma digit_value: "n < 10 \<Longrightarrow> (of_char (char_of (48 + n)) :: int) = 48 + int n"
  by (simp add: of_nat_of_char[symmetric, where 'a = int] of_char_of)

lemma decimal_value: "foldl (\<lambda>a c. 10 * a + (of_char c - 48)) 0 (decimal n) = int n"
proof (induction n rule: decimal.induct)
  case (1 n)
  show ?case
  proof (cases "n < 10")
    case True
    then show ?thesis by (simp add: decimal.simps[of n] digit_value)
  next
    case False
    with 1 show ?thesis by (simp add: decimal.simps[of n] digit_value zmod_int zdiv_int)
  qed
qed

lemma parse_digits_decimal [simp]: "parse_digits (decimal n) = Some (int n)"
  by (simp add: parse_digits_def decimal_digits decimal_value)

lemma decimal_head: "is_digit (hd (decimal n))"
  using decimal_digits[of n] by (cases "decimal n") auto

lemma parse_show_int: "- (2 ^ 31) \<le> n \<Longrightarrow> n < 2 ^ 31 \<Longrightarrow> parse_i32 (show_int n) = Some n"
proof -
  assume n: "- (2 ^ 31) \<le> n" "n < 2 ^ 31"
  have "hd (decimal (nat n)) \<noteq> CHR ''-''" "hd (decimal (nat n)) \<noteq> CHR ''+''"
    using decimal_head[of "nat n"] by auto
  with n show ?thesis by (auto simp: show_int_def parse_i32_def)
qed

lemma index_of_append: "x \<notin> set xs \<Longrightarrow> index_of x (xs @ x # ys) = Some (length xs)"
  by (induction xs) auto

lemma parse_all_map: "\<forall>n \<in> set ns. parse_i32 (show_int n) = Some n \<Longrightarrow> parse_all (map show_int ns) = Some ns"
  by (induction ns) auto

lemma split_join: "ws \<noteq> [] \<Longrightarrow> \<forall>w \<in> set ws. c \<notin> set w \<Longrightarrow> split_on c (join_with [c] ws) = ws"
proof (induction ws rule: induct_list012)
  case (2 w)
  then show ?case by (induction w) auto
next
  case (3 w v ws)
  then have "split_on c (join_with [c] (v # ws)) = v # ws" by simp
  then have "split_on c (w @ c # join_with [c] (v # ws)) = w # v # ws" if "c \<notin> set w" for w
    using that by (induction w) auto
  with 3 show ?case by simp
qed simp

lemma decimal_chars: "c \<in> set (decimal n) \<Longrightarrow> is_digit c"
  using decimal_digits[of n] by (auto simp: list_all_iff)

lemma show_int_chars: "c \<in> set (show_int n) \<Longrightarrow> is_digit c \<or> c = CHR ''-''"
  by (auto simp: show_int_def dest: decimal_chars split: if_splits)

lemma show_int_plain: "CHR ''.'' \<notin> set (show_int n)" "show_int n \<noteq> ''*''"
  using show_int_chars[of "CHR ''.''" n] show_int_chars[of "CHR ''*''" n] by auto

text \<open>
  An address of \<open>k\<close> leading octets and stars is the network of \<open>8 * k\<close> bits; the octets are
  only bounded by \<open>i32\<close>.
\<close>

lemma wildcard_is_network:
  assumes "0 < length os" "length os < 4" "\<forall>n \<in> set os. - (2 ^ 31) \<le> n \<and> n < 2 ^ 31"
  shows "ipv4_wildcard_to_cidr (join_with ''.'' (map show_int os @ replicate (4 - length os) ''*'')) =
    Some (join_with ''.'' (map show_int (os @ replicate (4 - length os) 0)) @ ''/'' @ decimal (8 * length os))"
proof -
  let ?ws = "map show_int os @ replicate (4 - length os) ''*''"
  have split: "split_on (CHR ''.'') (join_with ''.'' ?ws) = ?ws"
    by (rule split_join) (use assms show_int_plain(1) in auto)
  have stars: "replicate (4 - length os) ''*'' = ''*'' # replicate (3 - length os) ''*''"
    using assms(2) by (simp add: Suc_diff_le[symmetric] flip: replicate_Suc)
  have "''*'' \<notin> set (map show_int os)" using show_int_plain(2) by (auto dest: sym)
  then have "index_of ''*'' ?ws = Some (length os)"
    unfolding stars using index_of_append[of "''*''" "map show_int os"] by simp
  moreover have "parse_all (map show_int os) = Some os"
    using assms(3) by (intro parse_all_map) (simp add: parse_show_int)
  ultimately show ?thesis
    using assms(1,2) by (simp add: ipv4_wildcard_to_cidr_def split mult.commute)
qed

lemma drop_star_dot_none: "CHR ''*'' \<notin> set s \<Longrightarrow> drop_star_dot s = s"
  by (induction s rule: drop_star_dot.induct) auto

text \<open>Subdomain stars go, and each entry is taken on its own.\<close>

lemma override_sample:
  "normalize_proxy_override ''10.*.*.*; *.corp.example;localhost'' = ''10.0.0.0/8,corp.example,localhost''"
  by code_simp

section \<open>The environment first\<close>

lemma win_keeps:
  "mb_all (win_with_system S b) = mb_all b" "mb_is_cgi (win_with_system S b) = mb_is_cgi b"
  "mb_unix (win_with_system S b) = mb_unix b"
  "mb_http b \<noteq> [] \<Longrightarrow> mb_http (win_with_system S b) = mb_http b"
  "mb_https b \<noteq> [] \<Longrightarrow> mb_https (win_with_system S b) = mb_https b"
  "mb_no b \<noteq> [] \<Longrightarrow> mb_no (win_with_system S b) = mb_no b"
  by (auto simp: win_with_system_def Let_def split: option.splits)

lemma mac_keeps:
  "mb_all (mac_with_system S b) = mb_all b" "mb_is_cgi (mac_with_system S b) = mb_is_cgi b"
  "mb_unix (mac_with_system S b) = mb_unix b" "mb_no (mac_with_system S b) = mb_no b"
  "mb_http b \<noteq> [] \<Longrightarrow> mb_http (mac_with_system S b) = mb_http b"
  "mb_https b \<noteq> [] \<Longrightarrow> mb_https (mac_with_system S b) = mb_https b"
  by (auto simp: mac_with_system_def Let_def split: option.splits)

text \<open>
  \<open>ALL_PROXY\<close> is not consulted by these tests: where it alone is set, a proxy of the system's
  settings is used for HTTP in its place.
\<close>

lemma system_proxy_over_all_proxy:
  fixes X :: "'n proxy_lib"
  assumes "get_first_env env [''HTTP_PROXY'', ''http_proxy''] = []"
    and "env ''REQUEST_METHOD'' = None"
    and "proxy_enable S = Some 1" "proxy_server S = Some server"
    and "parse_env_uri X server = Some i"
  shows "mt_http (system_matcher X (win_with_system (Some S)) env) = with_extra extra_default (Some i)"
proof -
  let ?b = "mb_from_system (win_with_system (Some S)) env"
  have b: "mb_is_cgi ?b = False" "mb_http ?b = server"
    using assms(1-4) by (simp_all add: mb_from_system_def win_with_system_def mb_from_env_def
        Let_def split: option.splits)
  then show ?thesis
    using assms(5) unfolding system_matcher_def mb_build_def
    by (simp add: Let_def with_extra_def)
qed

end
