(* ===== verification/Response.thy ===== *)
theory Response
  imports Errors
begin

text \<open>
  Bodies as they are polled (\<open>src/src/client/body.rs\<close>) and responses
  (\<open>src/src/client/response.rs\<close>, with \<open>Cookie\<close> of \<open>src/src/cookie.rs\<close>): reading a body to its
  end, decoding it, cookies, errors for a status, and the conversions from and to
  \<open>http::Response\<close>. What a foreign body yields is the list of its poll results; MIME types,
  character sets and JSON are third-party.
\<close>

section \<open>Bodies\<close>

datatype frame = Data string | Trailers "(string \<times> string) list"

text \<open>
  A body of another crate: the size it announces, whether it says that it is over, and what
  polling it yields until \<open>None\<close>.
\<close>

record foreign_body =
  fb_exact :: "nat option"
  fb_end :: bool
  fb_frames :: "(std_error + frame) list"

text \<open>\<open>Full\<close> holds its bytes until they are polled; \<open>Wrapped\<close> is a body boxed once more.\<close>

datatype live_body = Full "string option" | Wrapped live_body | Foreign foreign_body

definition full_new :: "string \<Rightarrow> live_body" where
  "full_new bytes = Full (if bytes = [] then None else Some bytes)"

definition body_reusable :: "string \<Rightarrow> live_body" where
  "body_reusable chunk = full_new chunk"

definition body_empty :: live_body where
  "body_empty = body_reusable []"

definition body_wrap :: "live_body \<Rightarrow> live_body" where
  "body_wrap inner = Wrapped inner"

text \<open>\<open>StreamBody\<close>: no size, never over before it is polled.\<close>

definition body_stream :: "(std_error + string) list \<Rightarrow> live_body" where
  "body_stream items = Foreign \<lparr>fb_exact = None, fb_end = False, fb_frames = map (map_sum id Data) items\<rparr>"

definition live_try_clone :: "live_body \<Rightarrow> live_body option" where
  "live_try_clone b = (case b of Full chunk \<Rightarrow> Some (Full chunk) | _ \<Rightarrow> None)"

text \<open>An error of the body that is the library's own passes; any other becomes a request error.\<close>

definition body_error :: "std_error \<Rightarrow> std_error" where
  "body_error e = (case e of EWreq _ _ _ \<Rightarrow> e | _ \<Rightarrow> err_request e)"

fun poll_body :: "live_body \<Rightarrow> (std_error + frame) option \<times> live_body" where
  "poll_body (Full chunk) = (map_option (Inr \<circ> Data) chunk, Full None)"
| "poll_body (Wrapped b) =
     (case poll_body b of (r, b') \<Rightarrow> (map_option (map_sum body_error id) r, Wrapped b'))"
| "poll_body (Foreign f) =
     (case fb_frames f of
        [] \<Rightarrow> (None, Foreign f)
      | r # rs \<Rightarrow> (Some (map_sum body_error id r), Foreign (f\<lparr>fb_frames := rs\<rparr>)))"

fun body_size :: "live_body \<Rightarrow> nat option" where
  "body_size (Full chunk) = Some (case chunk of None \<Rightarrow> 0 | Some c \<Rightarrow> length c)"
| "body_size (Wrapped b) = body_size b"
| "body_size (Foreign f) = fb_exact f"

fun body_is_end :: "live_body \<Rightarrow> bool" where
  "body_is_end (Full chunk) = (chunk = None)"
| "body_is_end (Wrapped b) = body_is_end b"
| "body_is_end (Foreign f) = fb_end f"

text \<open>How many frames are left, and \<open>BodyExt::collect\<close> with \<open>to_bytes\<close>.\<close>

fun frames_left :: "live_body \<Rightarrow> nat" where
  "frames_left (Full chunk) = (if chunk = None then 0 else 1)"
| "frames_left (Wrapped b) = frames_left b"
| "frames_left (Foreign f) = length (fb_frames f)"

lemma poll_body_left: "poll_body b = (Some r, b') \<Longrightarrow> frames_left b = Suc (frames_left b')"
  by (induction b arbitrary: r b' rule: poll_body.induct)
    (auto split: list.splits prod.splits)

function body_collect :: "string \<Rightarrow> live_body \<Rightarrow> std_error + string" where
  "body_collect acc b =
     (case poll_body b of
        (None, _) \<Rightarrow> Inr acc
      | (Some (Inl e), _) \<Rightarrow> Inl e
      | (Some (Inr (Data d)), b') \<Rightarrow> body_collect (acc @ d) b'
      | (Some (Inr (Trailers _)), b') \<Rightarrow> body_collect acc b')"
  by pat_completeness auto
termination
  by (relation "measure (frames_left \<circ> snd)") (auto dest!: poll_body_left [OF sym])

declare body_collect.simps [simp del]

text \<open>\<open>BodyDataStream\<close> passes data frames and errors and skips the rest.\<close>

function body_data_stream :: "live_body \<Rightarrow> (std_error + string) list" where
  "body_data_stream b =
     (case poll_body b of
        (None, _) \<Rightarrow> []
      | (Some (Inl e), b') \<Rightarrow> Inl e # body_data_stream b'
      | (Some (Inr (Data d)), b') \<Rightarrow> Inr d # body_data_stream b'
      | (Some (Inr (Trailers _)), b') \<Rightarrow> body_data_stream b')"
  by pat_completeness auto
termination
  by (relation "measure frames_left") (auto dest!: poll_body_left [OF sym])

declare body_data_stream.simps [simp del]

section \<open>Responses\<close>

text \<open>
  An \<open>http::Response<Body>\<close> with the extensions the client reads: the final URI, the reason
  phrase, the addresses of the connection and its poison pill.
\<close>

record 'h http_response =
  hr_status :: nat
  hr_version :: http_version
  hr_headers :: 'h
  hr_body :: live_body
  hr_request_uri :: "uri option"
  hr_reason :: "string option"
  hr_http_info :: "(string \<times> string) option"
  hr_pill :: "nat option"

record 'h full_response =
  fr_uri :: uri
  fr_res :: "'h http_response"

definition response_new :: "'h http_response \<Rightarrow> uri \<Rightarrow> 'h full_response" where
  "response_new res u =
     \<lparr>fr_uri = (case hr_request_uri res of Some r \<Rightarrow> r | None \<Rightarrow> u),
      fr_res = res\<lparr>hr_request_uri := None, hr_body := body_wrap (hr_body res)\<rparr>\<rparr>"

definition response_of_http :: "uri \<Rightarrow> 'h http_response \<Rightarrow> 'h full_response" where
  "response_of_http no_url r =
     \<lparr>fr_uri = (case hr_request_uri r of Some u \<Rightarrow> u | None \<Rightarrow> no_url),
      fr_res = r\<lparr>hr_request_uri := None\<rparr>\<rparr>"

definition http_of_response :: "'h full_response \<Rightarrow> 'h http_response" where
  "http_of_response r =
     (fr_res r)\<lparr>hr_body := body_wrap (hr_body (fr_res r)), hr_request_uri := Some (fr_uri r)\<rparr>"

definition body_of_response :: "'h full_response \<Rightarrow> live_body" where
  "body_of_response r = body_wrap (hr_body (fr_res r))"

definition content_length :: "'h full_response \<Rightarrow> nat option" where
  "content_length r = body_size (hr_body (fr_res r))"

definition response_addrs :: "'h full_response \<Rightarrow> string option \<times> string option" where
  "response_addrs r = (map_option fst (hr_http_info (fr_res r)), map_option snd (hr_http_info (fr_res r)))"

text \<open>The pill to poison, if the response came with one.\<close>

definition forbid_recycle :: "'h full_response \<Rightarrow> nat option" where
  "forbid_recycle r = hr_pill (fr_res r)"

subsection \<open>Reading\<close>

definition map_err_uri :: "'h full_response \<Rightarrow> std_error + 'a \<Rightarrow> std_error + 'a" where
  "map_err_uri r x = map_sum (\<lambda>e. with_uri e (fr_uri r)) id x"

definition response_bytes :: "'h full_response \<Rightarrow> std_error + string" where
  "response_bytes r = map_err_uri r (body_collect [] (hr_body (fr_res r)))"

text \<open>
  The charset parameter of a MIME type, the encoding of a label, and decoding with a byte
  order mark taken into account.
\<close>

record 'enc charset_lib =
  cs_mime_charset :: "string \<Rightarrow> string option"
  cs_for_label :: "string \<Rightarrow> 'enc option"
  cs_utf8 :: 'enc
  cs_decode :: "'enc \<Rightarrow> string \<Rightarrow> string"

definition value_to_str :: "hvalue \<Rightarrow> string option" where
  "value_to_str v =
     (if list_all (\<lambda>c. (32 \<le> (of_char c :: nat) \<and> of_char c < (127 :: nat)) \<or> c = CHR 0x09) (hv_bytes v)
      then Some (hv_bytes v) else None)"

definition charset_of :: "'h header_ops \<Rightarrow> 'enc charset_lib \<Rightarrow> string \<Rightarrow> 'h full_response \<Rightarrow> 'enc" where
  "charset_of H C default_encoding r =
     (let content_type = Option.bind (h_get H (hr_headers (fr_res r)) ''content-type'') value_to_str;
          name = (case Option.bind content_type (cs_mime_charset C) of
                    Some n \<Rightarrow> n | None \<Rightarrow> default_encoding)
      in case cs_for_label C name of Some e \<Rightarrow> e | None \<Rightarrow> cs_utf8 C)"

definition text_with_charset ::
    "'h header_ops \<Rightarrow> 'enc charset_lib \<Rightarrow> string \<Rightarrow> 'h full_response \<Rightarrow> std_error + string" where
  "text_with_charset H C default_encoding r =
     (let encoding = charset_of H C default_encoding r
      in and_then (response_bytes r) (\<lambda>full. Inr (cs_decode C encoding full)))"

definition response_text :: "'h header_ops \<Rightarrow> 'enc charset_lib \<Rightarrow> 'h full_response \<Rightarrow> std_error + string" where
  "response_text H C r = text_with_charset H C ''utf-8'' r"

definition response_json :: "(string \<Rightarrow> std_error + 'a) \<Rightarrow> 'h full_response \<Rightarrow> std_error + 'a" where
  "response_json from_slice r =
     (case body_collect [] (hr_body (fr_res r)) of
        Inr full \<Rightarrow> map_err_uri r (map_sum err_decode id (from_slice full))
      | Inl e \<Rightarrow> Inl (with_uri e (fr_uri r)))"

definition bytes_stream :: "'h full_response \<Rightarrow> (std_error + string) list" where
  "bytes_stream r = body_data_stream (hr_body (fr_res r))"

subsection \<open>Status\<close>

definition is_client_error :: "nat \<Rightarrow> bool" where
  "is_client_error s \<longleftrightarrow> 400 \<le> s \<and> s < 500"

definition is_server_error :: "nat \<Rightarrow> bool" where
  "is_server_error s \<longleftrightarrow> 500 \<le> s \<and> s < 600"

definition error_for_status :: "'h full_response \<Rightarrow> std_error + 'h full_response" where
  "error_for_status r =
     (let status = hr_status (fr_res r)
      in if is_client_error status \<or> is_server_error status
         then Inl (err_status_code (fr_uri r) status (hr_reason (fr_res r)))
         else Inr r)"

subsection \<open>Cookies\<close>

text \<open>\<open>Cookie::parse\<close> of a field, and the accessors.\<close>

definition parse_cookie :: "jar_lib \<Rightarrow> hvalue \<Rightarrow> std_error + cookie" where
  "parse_cookie J v =
     (if valid_utf8 (hv_bytes v) then
        (case cookie_parse J (hv_bytes v) of
           Some c \<Rightarrow> Inr c
         | None \<Rightarrow> Inl (err_decode (EOther ''cookie::ParseError'' None)))
      else Inl (err_decode (EOther ''cookie::ParseError'' None)))"

definition response_cookies :: "'h header_ops \<Rightarrow> jar_lib \<Rightarrow> 'h full_response \<Rightarrow> cookie list" where
  "response_cookies H J r =
     List.map_filter (\<lambda>v. case parse_cookie J v of Inr c \<Rightarrow> Some c | Inl _ \<Rightarrow> None)
       (h_get_all H (hr_headers (fr_res r)) ''set-cookie'')"

definition cookie_http_only :: "cookie \<Rightarrow> bool" where
  "cookie_http_only c = (case c_http_only c of Some b \<Rightarrow> b | None \<Rightarrow> False)"

definition cookie_secure :: "cookie \<Rightarrow> bool" where
  "cookie_secure c = (case c_secure c of Some b \<Rightarrow> b | None \<Rightarrow> False)"

definition cookie_same_site_lax :: "cookie \<Rightarrow> bool" where
  "cookie_same_site_lax c \<longleftrightarrow> c_same_site c = Some Lax"

definition cookie_same_site_strict :: "cookie \<Rightarrow> bool" where
  "cookie_same_site_strict c \<longleftrightarrow> c_same_site c = Some Strict"

text \<open>A negative \<open>Max-Age\<close> is not a duration of the standard library.\<close>

definition cookie_max_age :: "cookie \<Rightarrow> nat option" where
  "cookie_max_age c = Option.bind (c_max_age c) (\<lambda>d. if 0 \<le> d then Some (nat d) else None)"

definition cookie_expires :: "cookie \<Rightarrow> int option" where
  "cookie_expires c =
     (case c_expires c of Some (DateTime offset) \<Rightarrow> Some offset | None \<Rightarrow> None | Some Session \<Rightarrow> None)"

definition into_cookie :: "jar_lib \<Rightarrow> string \<Rightarrow> cookie option" where
  "into_cookie J s = cookie_parse J s"


section \<open>Reading a body\<close>

lemma body_error_kind [simp]: "\<exists>k. err_kind (body_error e) = Some k"
  by (cases e) (simp_all add: body_error_def err_request_def error_new_def)

lemma body_error_id [simp]: "err_kind e \<noteq> None \<Longrightarrow> body_error e = e"
  by (cases e) (simp_all add: body_error_def)

lemma poll_body_error: "poll_body b = (Some (Inl e), b') \<Longrightarrow> err_kind e \<noteq> None"
proof (induction b arbitrary: e b' rule: poll_body.induct)
  case (2 b)
  obtain r c where p: "poll_body b = (r, c)" by (cases "poll_body b")
  with 2 show ?case
    by (cases r; cases "the r") (auto split: sum.splits)
next
  case (3 f)
  then show ?case by (cases "fb_frames f"; cases "hd (fb_frames f)") auto
qed auto

text \<open>Boxing a body once more changes nothing that a reader sees.\<close>

lemma poll_wrapped: "poll_body (Wrapped b) = apsnd Wrapped (poll_body b)"
proof -
  obtain r c where p: "poll_body b = (r, c)" by (cases "poll_body b")
  with poll_body_error[of b _ c] show ?thesis
    by (cases r; cases "the r") auto
qed

lemma collect_wrapped [simp]: "body_collect acc (Wrapped b) = body_collect acc b"
proof (induction acc b rule: body_collect.induct)
  case (1 acc b)
  obtain r c where p: "poll_body b = (r, c)" by (cases "poll_body b")
  show ?case
    unfolding body_collect.simps[of acc "Wrapped b"] body_collect.simps[of acc b]
    using 1 p by (auto simp: poll_wrapped simp del: poll_body.simps split: option.split sum.split frame.split)
qed

text \<open>The frames a body yields, and what it promises about them.\<close>

fun body_frames :: "live_body \<Rightarrow> (std_error + frame) list" where
  "body_frames (Full chunk) = (case chunk of None \<Rightarrow> [] | Some c \<Rightarrow> [Inr (Data c)])"
| "body_frames (Wrapped b) = body_frames b"
| "body_frames (Foreign f) = map (map_sum body_error id) (fb_frames f)"

fun frame_data :: "frame \<Rightarrow> string" where
  "frame_data (Data d) = d"
| "frame_data (Trailers _) = []"

fun frames_result :: "(std_error + frame) list \<Rightarrow> std_error + string" where
  "frames_result [] = Inr []"
| "frames_result (Inl e # rs) = Inl e"
| "frames_result (Inr f # rs) = map_sum id ((@) (frame_data f)) (frames_result rs)"

fun body_honest :: "live_body \<Rightarrow> bool" where
  "body_honest (Full chunk) = True"
| "body_honest (Wrapped b) = body_honest b"
| "body_honest (Foreign f) =
     (\<forall>n bytes. fb_exact f = Some n \<longrightarrow> frames_result (fb_frames f) = Inr bytes \<longrightarrow> length bytes = n)"

lemma body_frames_errors: "Inl e \<in> set (body_frames b) \<Longrightarrow> err_kind e \<noteq> None"
proof (induction b)
  case (Foreign f)
  then obtain r :: "std_error + frame" where "Inl e = map_sum body_error id r" by auto
  then show ?case by (cases r) auto
qed (auto split: option.splits)

lemma poll_body_frames:
  "poll_body b = (r, b') \<Longrightarrow> body_frames b = (case r of None \<Rightarrow> [] | Some x \<Rightarrow> x # body_frames b')"
proof (induction b arbitrary: r b')
  case (Wrapped b)
  obtain r0 c where p: "poll_body b = (r0, c)" by (cases "poll_body b")
  then have "r = r0" "b' = Wrapped c" using Wrapped.prems unfolding poll_wrapped by auto
  with Wrapped.IH[OF p] show ?case by (simp split: option.split)
qed (auto split: list.splits option.splits)

lemma collect_frames: "body_collect acc b = map_sum id ((@) acc) (frames_result (body_frames b))"
proof (induction acc b rule: body_collect.induct)
  case (1 acc b)
  obtain r c where p: "poll_body b = (r, c)" by (cases "poll_body b")
  have IHd: "body_collect (acc @ d) c = map_sum id ((@) (acc @ d)) (frames_result (body_frames c))"
    if "r = Some (Inr (Data d))" for d
    using 1(1)[OF p[symmetric] that refl refl] .
  have IHt: "body_collect acc c = map_sum id ((@) acc) (frames_result (body_frames c))"
    if "r = Some (Inr (Trailers t))" for t
    using 1(2)[OF p[symmetric] that refl refl] .
  show ?case
  proof (cases r)
    case None
    then show ?thesis using poll_body_frames[OF p] by (simp add: body_collect.simps[of acc b] p)
  next
    case (Some x)
    show ?thesis
    proof (cases x)
      case (Inl e)
      then show ?thesis using poll_body_frames[OF p] Some by (simp add: body_collect.simps[of acc b] p)
    next
      case (Inr f)
      then show ?thesis
        using poll_body_frames[OF p] Some IHd IHt
        by (cases f; cases "frames_result (body_frames c)") (auto simp: body_collect.simps[of acc b] p)
    qed
  qed
qed

lemma frames_result_error: "frames_result rs = Inl e \<Longrightarrow> Inl e \<in> set rs"
  by (induction rs rule: frames_result.induct) (auto simp: map_sum_def split: sum.splits)


lemma frames_result_size:
  "frames_result (map (map_sum body_error id) rs) = Inr bytes \<Longrightarrow> frames_result rs = Inr bytes"
proof (induction rs arbitrary: bytes rule: frames_result.induct)
  case (3 f rs)
  then show ?case by (cases "frames_result (map (map_sum body_error id) rs)") (auto simp: id_def)
qed auto

lemma honest_size:
  "body_honest b \<Longrightarrow> frames_result (body_frames b) = Inr bytes \<Longrightarrow> body_size b = Some n \<Longrightarrow> length bytes = n"
  by (induction b) (auto split: option.splits dest: frames_result_size)

lemma err_uri_kind: "err_kind e \<noteq> None \<Longrightarrow> err_kind (with_uri e u) = err_kind e"
  by (cases e) auto

lemma collect_error_kind: "body_collect acc b = Inl e \<Longrightarrow> err_kind e \<noteq> None"
proof -
  assume "body_collect acc b = Inl e"
  then have "frames_result (body_frames b) = Inl e"
    by (cases "frames_result (body_frames b)") (auto simp: collect_frames)
  then show ?thesis by (blast dest: frames_result_error body_frames_errors)
qed

text \<open>
  Reading a response to its end either fails with an error of the library that names the
  final URI, or gives the data of its frames in order; these are as many bytes as the response
  announced.
\<close>

lemma response_read:
  assumes "body_honest (hr_body (fr_res r))"
  shows "case response_bytes r of
      Inl e \<Rightarrow> err_kind e \<noteq> None \<and> err_uri e = Some (fr_uri r)
    | Inr bytes \<Rightarrow>
        frames_result (body_frames (hr_body (fr_res r))) = Inr bytes \<and>
        content_length r \<in> {None, Some (length bytes)}"
proof (cases "body_collect [] (hr_body (fr_res r))")
  case (Inl e)
  then show ?thesis
    using collect_error_kind[OF Inl] by (simp add: response_bytes_def map_err_uri_def err_uri_kind)
next
  case (Inr bytes)
  then have f: "frames_result (body_frames (hr_body (fr_res r))) = Inr bytes"
    by (cases "frames_result (body_frames (hr_body (fr_res r)))") (auto simp: collect_frames)
  with Inr honest_size[OF assms f] show ?thesis
    by (cases "content_length r") (auto simp: response_bytes_def map_err_uri_def content_length_def)
qed

definition sample_response :: "unit http_response" where
  "sample_response =
     \<lparr>hr_status = 200, hr_version = HTTP_11, hr_headers = (),
      hr_body = Foreign \<lparr>fb_exact = Some 2, fb_end = False, fb_frames = [Inr (Data ''a''), Inr (Trailers []), Inr (Data ''b'')]\<rparr>,
      hr_request_uri = None, hr_reason = None, hr_http_info = None, hr_pill = Some 7\<rparr>"

lemma response_read_witness:
  "\<forall>u. response_bytes (response_new sample_response u) = Inr ''ab'' \<and>
   content_length (response_new sample_response u) = Some 2"
proof
  fix u
  have "body_honest (hr_body (fr_res (response_new sample_response u)))"
    by (simp add: response_new_def sample_response_def body_wrap_def)
  moreover have "response_bytes (response_new sample_response u) \<noteq> Inl e" for e
    by (simp add: response_bytes_def response_new_def sample_response_def body_wrap_def
        collect_frames map_err_uri_def)
  ultimately show "response_bytes (response_new sample_response u) = Inr ''ab'' \<and>
      content_length (response_new sample_response u) = Some 2"
    using response_read[of "response_new sample_response u"]
    by (auto simp: response_new_def sample_response_def body_wrap_def content_length_def split: sum.splits)
qed

text \<open>Cloning is for bodies that were never a stream, and the clone reads the same.\<close>

lemma live_try_clone_Some: "live_try_clone b = Some c \<longleftrightarrow> c = b \<and> (\<exists>chunk. b = Full chunk)"
  by (cases b) (auto simp: live_try_clone_def)

lemma reusable_reads: "body_collect [] (body_reusable s) = Inr s" "body_size (body_reusable s) = Some (length s)"
  by (simp_all add: collect_frames body_reusable_def full_new_def)

lemma stream_reads:
  "body_data_stream (body_stream items) = map (map_sum body_error id) items"
proof -
  have "body_data_stream (Foreign \<lparr>fb_exact = n, fb_end = b, fb_frames = map (map_sum id Data) items\<rparr>) =
    map (map_sum body_error id) items" for n b
  proof (induction items)
    case (Cons x xs)
    then show ?case by (subst body_data_stream.simps) (cases x; simp add: id_def)
  qed (simp add: body_data_stream.simps)
  then show ?thesis by (simp add: body_stream_def)
qed

section \<open>Conversions and statuses\<close>

text \<open>
  A response turned into an \<open>http::Response\<close> and back is at the same URI and reads the same:
  its bytes, its text, its length, its errors.
\<close>

lemma response_conversion:
  "let r' = response_of_http no_url (http_of_response r) in
    fr_uri r' = fr_uri r \<and> hr_status (fr_res r') = hr_status (fr_res r) \<and>
    response_bytes r' = response_bytes r \<and> response_text H C r' = response_text H C r \<and>
    response_json from_slice r' = response_json from_slice r \<and>
    content_length r' = content_length r \<and> response_cookies H J r' = response_cookies H J r \<and>
    forbid_recycle r' = forbid_recycle r"
  by (simp add: Let_def response_of_http_def http_of_response_def response_bytes_def map_err_uri_def
      body_wrap_def response_text_def text_with_charset_def charset_of_def response_json_def
      content_length_def response_cookies_def forbid_recycle_def split: sum.split)

text \<open>
  A response is an error exactly when its status is 400 to 599; the error has the status,
  the reason and the final URI.
\<close>

lemma error_for_status_exact:
  "case error_for_status r of
     Inl e \<Rightarrow> hr_status (fr_res r) \<in> {400..<600} \<and> err_is_status e \<and>
       err_status e = Some (hr_status (fr_res r)) \<and> err_uri e = Some (fr_uri r) \<and> sources e = []
   | Inr r' \<Rightarrow> r' = r \<and> hr_status (fr_res r) \<notin> {400..<600}"
  by (auto simp: error_for_status_def Let_def is_client_error_def is_server_error_def
      err_status_code_def error_new_def err_is_status_def err_status_def)

end
