(* ===== verification/Connect_Task.thy ===== *)
theory Connect_Task
  imports Http_Client
begin

text \<open>
  The futures that establish connections (\<open>HttpClient::connect_to\<close> of
  \<open>src/src/client/layer/client.rs\<close>, with \<open>layer/client/lazy.rs\<close>): the lock of the pool, the
  connector, the switch to HTTP/2 after ALPN, the handshake and the wait until the connection is
  ready. A future moves between its awaits; what the connector, the protocol crates and the
  background task of the connection answer is the event. Any number of futures, and everything
  else that uses the pool, take turns.
\<close>

section \<open>One future\<close>

text \<open>
  \<open>Lazy\<close>: the closure, not yet run, then the future it made, and \<open>Empty\<close> only while it is
  replaced.
\<close>

datatype ('k, 'h) connect_phase =
    Init
  | Dialing "'k connecting_handle"
  | Handshaking "'k connecting_handle" "'h connected_info" bool
  | Readying "'k connecting_handle" "'h connected_info" bool nat
  | Settled

definition started :: "('k, 'h) connect_phase \<Rightarrow> bool" where
  "started ph \<longleftrightarrow> ph \<noteq> Init"

text \<open>
  What \<open>tx.ready()\<close> gives: an error that says whether the channel is closed, and, for
  HTTP/1, the error the background task sent, if it sent one.
\<close>

datatype 's ready_result = IsReady | NotReady bool 's "'s option"

datatype ('h, 's) connect_event =
    Polled
  | Dialed "'s + 'h connected_info"
  | Shaken "'s + nat"
  | Readied "'s ready_result"
  | FutureDropped

record 's connect_env =
  en_is_proxy_error :: "'s \<Rightarrow> bool"
  en_upgraded :: 's
  en_ver :: ver

definition client_error_tx :: "'s connect_env \<Rightarrow> 's \<Rightarrow> ('h, 's) client_error" where
  "client_error_tx E src = client_error_new (en_is_proxy_error E) SendRequest src"

definition client_error_closed :: "'s connect_env \<Rightarrow> 's \<Rightarrow> ('h, 's) client_error" where
  "client_error_closed E src = client_error_new (en_is_proxy_error E) ChannelClosed src"

definition ready_error :: "'s connect_env \<Rightarrow> bool \<Rightarrow> 's ready_result \<Rightarrow> ('h, 's) client_error option" where
  "ready_error E is_h2 r =
     (case r of
        IsReady \<Rightarrow> None
      | NotReady closed e sent \<Rightarrow>
          Some (client_error_tx E
            (if is_h2 then e
             else if closed then (case sent of Some err \<Rightarrow> err | None \<Rightarrow> e)
             else e)))"

text \<open>
  One move of a future of key \<open>key\<close>; the last component is what it finished with. An error, or
  dropping the future, drops the \<open>Connecting\<close> it holds. \<open>None\<close> is an event that cannot come in
  this phase.
\<close>

definition connect_fail ::
  "('h pool_client, 'x) chan_ops \<Rightarrow> 'x \<Rightarrow> ('k, 'h pool_client, 'm) pool_inner option \<Rightarrow> 'k connecting_handle \<Rightarrow> 'r \<Rightarrow>
   'x \<times> ('k, 'h pool_client, 'm) pool_inner option \<times> ('k, 'h) connect_phase \<times> 'r" where
  "connect_fail C x po cn r = (case drop_connecting C x po cn of (x', po') \<Rightarrow> (x', po', Settled, r))"

type_synonym ('k, 'h, 's, 'm, 'x) connect_outcome =
  "'x \<times> ('k, 'h pool_client, 'm) pool_inner option \<times> ('k, 'h) connect_phase \<times>
   (('h, 's) client_error + ('k, 'h pool_client) pooled) option"

fun connect_move ::
  "('k, 'h pool_client, 'm) idle_ops \<Rightarrow> 'h pool_client poolable_ops \<Rightarrow> ('h pool_client, 'x) chan_ops \<Rightarrow>
   nat \<Rightarrow> 's connect_env \<Rightarrow> 'k \<Rightarrow> 'x \<Rightarrow> ('k, 'h pool_client, 'm) pool_inner option \<Rightarrow>
   ('k, 'h) connect_phase \<Rightarrow> ('h, 's) connect_event \<Rightarrow> ('k, 'h, 's, 'm, 'x) connect_outcome option" where
  "connect_move L P C now E key x po Init Polled =
     (case pool_connecting po key (en_ver E) of
        (po', Some cn) \<Rightarrow> Some (x, po', Dialing cn, None)
      | (po', None) \<Rightarrow> Some (x, po', Settled, Some (Inl (bare_error Canceled))))"
| "connect_move L P C now E key x po (Dialing cn) (Dialed (Inl src)) =
     Some (connect_fail C x po cn (Some (Inl (client_error_new (en_is_proxy_error E) Connect src))))"
| "connect_move L P C now E key x po (Dialing cn) (Dialed (Inr ci)) =
     (case connect_negotiated (en_upgraded E) po (en_ver E = Http2) cn ci of
        (po', Inl e) \<Rightarrow> Some (x, po', Settled, Some (Inl e))
      | (po', Inr (cn', is_h2)) \<Rightarrow> Some (x, po', Handshaking cn' ci is_h2, None))"
| "connect_move L P C now E key x po (Handshaking cn ci is_h2) (Shaken (Inl src)) =
     Some (connect_fail C x po cn (Some (Inl (client_error_tx E src))))"
| "connect_move L P C now E key x po (Handshaking cn ci is_h2) (Shaken (Inr tx)) =
     Some (x, po, Readying cn ci is_h2 tx, None)"
| "connect_move L P C now E key x po (Readying cn ci is_h2 tx) (Readied r) =
     (case ready_error E is_h2 r of
        Some e \<Rightarrow> Some (connect_fail C x po cn (Some (Inl e)))
      | None \<Rightarrow>
          (case connect_finish L P C now x po cn ci is_h2 tx of
             Some (x', po', pd) \<Rightarrow> Some (x', po', Settled, Some (Inr pd))
           | None \<Rightarrow> None))"
| "connect_move L P C now E key x po Init FutureDropped = Some (x, po, Settled, None)"
| "connect_move L P C now E key x po (Dialing cn) FutureDropped = Some (connect_fail C x po cn None)"
| "connect_move L P C now E key x po (Handshaking cn _ _) FutureDropped = Some (connect_fail C x po cn None)"
| "connect_move L P C now E key x po (Readying cn _ _ _) FutureDropped = Some (connect_fail C x po cn None)"
| "connect_move L P C now E key x po _ _ = None"

text \<open>The \<open>Connecting\<close> a future holds.\<close>

fun held_handle :: "('k, 'h) connect_phase \<Rightarrow> 'k connecting_handle list" where
  "held_handle (Dialing cn) = [cn]"
| "held_handle (Handshaking cn _ _) = [cn]"
| "held_handle (Readying cn _ _ _) = [cn]"
| "held_handle _ = []"

definition swap_handle :: "'a list \<Rightarrow> 'a list \<Rightarrow> 'a list \<Rightarrow> 'a list" where
  "swap_handle old new cns =
     (if old = new then cns else new @ (case old of [] \<Rightarrow> cns | cn # _ \<Rightarrow> remove1 cn cns))"

section \<open>Many futures\<close>

record ('k, 'h, 's) connect_task =
  ct_key :: 'k
  ct_env :: "'s connect_env"
  ct_phase :: "('k, 'h) connect_phase"

text \<open>
  The handles alive in the pool's state are those the futures hold. A connection dialled for
  a key is named by it: \<open>origin\<close> tells connections apart.
\<close>

type_synonym ('k, 'h, 's, 'm, 'x) connect_sys =
  "('k, 'h pool_client, 'm, 'x) pool_sys \<times> ('k, 'h, 's) connect_task list"

inductive connect_step ::
  "('k, 'h pool_client, 'm) idle_ops \<Rightarrow> ('h pool_client, 'x) chan_ops \<Rightarrow> ('h pool_client \<Rightarrow> 'k) \<Rightarrow>
   ('k, 'h, 's, 'm, 'x) connect_sys \<Rightarrow> ('k, 'h, 's, 'm, 'x) connect_sys \<Rightarrow> bool"
  for L C origin where
  task_new:
    "connect_step L C origin (s, ts) (s, ts @ [\<lparr>ct_key = key, ct_env = E, ct_phase = Init\<rparr>])"
| task_move:
    "i < length ts \<Longrightarrow>
     (\<forall>ci tx. ev = Dialed (Inr ci) \<longrightarrow> origin \<lparr>pc_conn_info = ci, pc_tx = tx\<rparr> = ct_key (ts ! i)) \<Longrightarrow>
     connect_move L (ops_at open pc_reserve pc_can_share) C now (ct_env (ts ! i)) (ct_key (ts ! i))
       (ps_chans s) (ps_pool s) (ct_phase (ts ! i)) ev = Some (x, po, ph, r) \<Longrightarrow>
     connect_step L C origin (s, ts)
       (s\<lparr>ps_chans := x, ps_pool := po,
          ps_connecting := swap_handle (held_handle (ct_phase (ts ! i))) (held_handle ph) (ps_connecting s),
          ps_out := (case r of Some (Inr pd) \<Rightarrow> pd # ps_out s | _ \<Rightarrow> ps_out s)\<rparr>,
        ts[i := (ts ! i)\<lparr>ct_phase := ph\<rparr>])"
| other_use:
    "pool_step L C pc_reserve pc_can_share origin s s' \<Longrightarrow> ps_connecting s' = ps_connecting s \<Longrightarrow>
     connect_step L C origin (s, ts) (s', ts)"

definition connect_reach ::
  "('k, 'h pool_client, 'm) idle_ops \<Rightarrow> ('h pool_client, 'x) chan_ops \<Rightarrow> ('h pool_client \<Rightarrow> 'k) \<Rightarrow> nat \<Rightarrow>
   ('k, 'h, 's, 'm, 'x) connect_sys \<Rightarrow> bool" where
  "connect_reach L C origin n st \<longleftrightarrow>
     (\<exists>s0. pool_start L n s0 \<and> (connect_step L C origin)\<^sup>*\<^sup>* (s0, []) st)"


section \<open>Every move is a step of the pool\<close>

definition task_ok :: "('h pool_client \<Rightarrow> 'k) \<Rightarrow> bool \<Rightarrow> ('k, 'h, 's) connect_task \<Rightarrow> bool" where
  "task_ok origin no_pool t \<longleftrightarrow>
     (case ct_phase t of
        Dialing cn \<Rightarrow> cn_key cn = ct_key t \<and>
          (if en_ver (ct_env t) = Http2 then cn_pool cn \<or> no_pool else \<not> cn_pool cn)
      | Handshaking cn ci is_h2 \<Rightarrow> cn_key cn = ct_key t \<and> (is_h2 \<longrightarrow> cn_pool cn \<or> no_pool) \<and>
          (\<forall>tx. origin \<lparr>pc_conn_info = ci, pc_tx = tx\<rparr> = ct_key t)
      | Readying cn ci is_h2 tx \<Rightarrow> cn_key cn = ct_key t \<and> (is_h2 \<longrightarrow> cn_pool cn \<or> no_pool) \<and>
          (\<forall>tx. origin \<lparr>pc_conn_info = ci, pc_tx = tx\<rparr> = ct_key t)
      | _ \<Rightarrow> True)"

definition handles :: "('k, 'h, 's) connect_task list \<Rightarrow> 'k connecting_handle list" where
  "handles ts = concat (map (held_handle \<circ> ct_phase) ts)"

definition connect_inv :: "('h pool_client \<Rightarrow> 'k) \<Rightarrow> ('k, 'h, 's, 'm, 'x) connect_sys \<Rightarrow> bool" where
  "connect_inv origin st \<longleftrightarrow>
     (case st of (s, ts) \<Rightarrow> mset (ps_connecting s) = mset (handles ts) \<and>
        (\<forall>t \<in> set ts. task_ok origin (ps_pool s = None) t))"

lemma pool_parts_None:
  "pool_connecting po key v = (po', cn) \<Longrightarrow> po' = None \<longleftrightarrow> po = None"
  "alpn_h2 po cn0 = (po', cn) \<Longrightarrow> po' = None \<longleftrightarrow> po = None"
  "drop_connecting C x po cn0 = (x', po') \<Longrightarrow> po' = None \<longleftrightarrow> po = None"
  "drop_checkout C x po co = (x', po') \<Longrightarrow> po' = None \<longleftrightarrow> po = None"
  "pool_pooled L P C now x po cn0 c = Some (x', po', pd) \<Longrightarrow> po' = None \<longleftrightarrow> po = None"
  "drop_pooled L P C now x po pd = Some (x', po') \<Longrightarrow> po' = None \<longleftrightarrow> po = None"
  "poll_checkout L P C now x po co = (x', po', co', out) \<Longrightarrow> po' = None \<longleftrightarrow> po = None"
  by (auto simp: pool_connecting_def alpn_h2_def drop_connecting_def drop_checkout_def pool_pooled_def
      drop_pooled_def poll_checkout_def checkout_idle_def Let_def
      split: option.splits ver.splits if_splits prod.splits bool.splits reservation.splits poll.splits sum.splits)

lemma pool_step_None: "pool_step L C R S origin s s' \<Longrightarrow> ps_pool s' = None \<longleftrightarrow> ps_pool s = None"
  by (induction rule: pool_step.induct) (auto dest: pool_parts_None)


text \<open>What a move leaves of the pool's state.\<close>

definition moved ::
  "('k, 'h pool_client, 'm, 'x) pool_sys \<Rightarrow> ('k, 'h) connect_phase \<Rightarrow> ('k, 'h, 's, 'm, 'x) connect_outcome \<Rightarrow>
   ('k, 'h pool_client, 'm, 'x) pool_sys" where
  "moved s ph mv =
     (case mv of (x, po, ph', r) \<Rightarrow>
        s\<lparr>ps_chans := x, ps_pool := po,
          ps_connecting := swap_handle (held_handle ph) (held_handle ph') (ps_connecting s),
          ps_out := (case r of Some (Inr pd) \<Rightarrow> pd # ps_out s | _ \<Rightarrow> ps_out s)\<rparr>)"

abbreviation uses ::
  "('k, 'h pool_client, 'm) idle_ops \<Rightarrow> ('h pool_client, 'x) chan_ops \<Rightarrow> ('h pool_client \<Rightarrow> 'k) \<Rightarrow>
   ('k, 'h pool_client, 'm, 'x) pool_sys \<Rightarrow> ('k, 'h pool_client, 'm, 'x) pool_sys \<Rightarrow> bool" where
  "uses L C origin \<equiv> (pool_step L C pc_reserve pc_can_share origin)\<^sup>*\<^sup>*"

lemma fail_uses:
  assumes "cn \<in> set (ps_connecting s)" and "held_handle ph = [cn]"
    and "connect_fail C (ps_chans s) (ps_pool s) cn r = (x, po, ph', r')" and "\<forall>pd. r \<noteq> Some (Inr pd)"
  shows "uses L C origin s (moved s ph (x, po, ph', r'))" "ph' = Settled" "r' = r" "po = None \<longleftrightarrow> ps_pool s = None"
proof -
  obtain x1 po1 where d: "drop_connecting C (ps_chans s) (ps_pool s) cn = (x1, po1)" by fastforce
  with assms(3) have eq: "x = x1" "po = po1" "ph' = Settled" "r' = r" by (auto simp: connect_fail_def)
  then show "ph' = Settled" "r' = r" "po = None \<longleftrightarrow> ps_pool s = None"
    using pool_parts_None(3)[OF d] by auto
  have "moved s ph (x, po, ph', r') = s\<lparr>ps_chans := x1, ps_pool := po1, ps_connecting := remove1 cn (ps_connecting s)\<rparr>"
    using eq assms(2,4) by (cases r) (auto simp: moved_def swap_handle_def split: sum.splits)
  with step_drop_connecting[OF assms(1) d] show "uses L C origin s (moved s ph (x, po, ph', r'))" by auto
qed

lemma init_uses:
  assumes "connect_move L P C now E key (ps_chans s) (ps_pool s) Init ev = Some (x, po, ph', r)"
  shows "uses L C origin s (moved s Init (x, po, ph', r)) \<and>
    task_ok origin (po = None) \<lparr>ct_key = key, ct_env = E, ct_phase = ph'\<rparr> \<and> (po = None \<longleftrightarrow> ps_pool s = None)"
proof (cases ev)
  case Polled
  obtain po1 cn where p: "pool_connecting (ps_pool s) key (en_ver E) = (po1, cn)" by fastforce
  have "moved s Init (x, po, ph', r) =
      s\<lparr>ps_pool := po1, ps_connecting := (case cn of Some c \<Rightarrow> [c] | None \<Rightarrow> []) @ ps_connecting s\<rparr>" "po = po1"
    using assms Polled p by (auto simp: moved_def swap_handle_def split: option.splits)
  moreover have "task_ok origin (po = None) \<lparr>ct_key = key, ct_env = E, ct_phase = ph'\<rparr>"
    using assms Polled p by (auto simp: task_ok_def pool_connecting_def split: option.splits ver.splits if_splits)
  ultimately show ?thesis using step_connecting[OF p] pool_parts_None(1)[OF p] by auto
next
  case FutureDropped
  with assms show ?thesis by (auto simp: moved_def swap_handle_def task_ok_def)
qed (use assms in simp_all)

lemma dialing_uses:
  assumes m: "connect_move L P C now E key (ps_chans s) (ps_pool s) (Dialing cn) ev = Some (x, po, ph', r)"
    and held: "cn \<in> set (ps_connecting s)"
    and ok: "task_ok origin (ps_pool s = None) \<lparr>ct_key = key, ct_env = E, ct_phase = Dialing cn\<rparr>"
    and named: "\<forall>ci tx. ev = Dialed (Inr ci) \<longrightarrow> origin \<lparr>pc_conn_info = ci, pc_tx = tx\<rparr> = key"
  shows "uses L C origin s (moved s (Dialing cn) (x, po, ph', r)) \<and>
    task_ok origin (po = None) \<lparr>ct_key = key, ct_env = E, ct_phase = ph'\<rparr> \<and> (po = None \<longleftrightarrow> ps_pool s = None)"
proof (cases ev)
  case (Dialed d)
  show ?thesis
  proof (cases d)
    case (Inl src)
    with m Dialed have "connect_fail C (ps_chans s) (ps_pool s) cn
        (Some (Inl (client_error_new (en_is_proxy_error E) Connect src))) = (x, po, ph', r)" by simp
    from fail_uses[OF held _ this, of "Dialing cn"] show ?thesis by (auto simp: task_ok_def)
  next
    case (Inr ci)
    show ?thesis
    proof (cases "ci_h2 ci \<and> en_ver E \<noteq> Http2")
      case True
      with ok have cn: "\<not> cn_pool cn" "cn_key cn = key" by (auto simp: task_ok_def)
      then have other: "\<lparr>cn_key = k, cn_pool = True\<rparr> \<noteq> cn" for k by (cases cn) simp
      obtain po1 cn1 where a: "alpn_h2 (ps_pool s) cn = (po1, cn1)" by fastforce
      have s': "moved s (Dialing cn) (x, po, ph', r) = (if cn1 = Some cn then s else
          s\<lparr>ps_pool := po1, ps_connecting := (case cn1 of Some c \<Rightarrow> [c] | None \<Rightarrow> []) @ remove1 cn (ps_connecting s)\<rparr>)"
        "po = po1"
        using m Dialed Inr True a cn other other[symmetric]
        by (auto simp: connect_negotiated_def moved_def swap_handle_def alpn_h2_def pool_connecting_def
            split: option.splits if_splits)
      have "task_ok origin (po = None) \<lparr>ct_key = key, ct_env = E, ct_phase = ph'\<rparr>"
        using m Dialed Inr True a cn named
        by (auto simp: connect_negotiated_def task_ok_def alpn_h2_def pool_connecting_def
            split: option.splits if_splits)
      then show ?thesis
        using s' step_alpn[OF held cn(1) a] pool_parts_None(2)[OF a] by auto
    next
      case False
      with m Dialed Inr have "x = ps_chans s" "po = ps_pool s"
        and r: "ph' = Handshaking cn ci (en_ver E = Http2 \<or> ci_h2 ci)" "r = None"
        by (auto simp: connect_negotiated_def split: if_splits)
      then have "moved s (Dialing cn) (x, po, ph', r) = s" by (simp add: moved_def swap_handle_def)
      with r ok named False Dialed Inr \<open>po = ps_pool s\<close> show ?thesis
        by (auto simp: task_ok_def split: if_splits)
    qed
  qed
next
  case FutureDropped
  with m have "connect_fail C (ps_chans s) (ps_pool s) cn None = (x, po, ph', r)" by simp
  from fail_uses[OF held _ this, of "Dialing cn"] show ?thesis by (auto simp: task_ok_def)
qed (use m in simp_all)


lemma opening_uses:
  assumes m: "connect_move L P C now E key (ps_chans s) (ps_pool s) (Handshaking cn ci is_h2) ev = Some (x, po, ph', r)"
    and held: "cn \<in> set (ps_connecting s)"
    and ok: "task_ok origin (ps_pool s = None) \<lparr>ct_key = key, ct_env = E, ct_phase = Handshaking cn ci is_h2\<rparr>"
  shows "uses L C origin s (moved s (Handshaking cn ci is_h2) (x, po, ph', r)) \<and>
    task_ok origin (po = None) \<lparr>ct_key = key, ct_env = E, ct_phase = ph'\<rparr> \<and> (po = None \<longleftrightarrow> ps_pool s = None)"
proof (cases ev)
  case (Shaken d)
  show ?thesis
  proof (cases d)
    case (Inl src)
    with m Shaken have "connect_fail C (ps_chans s) (ps_pool s) cn (Some (Inl (client_error_tx E src))) = (x, po, ph', r)"
      by simp
    from fail_uses[OF held _ this, of "Handshaking cn ci is_h2"] show ?thesis by (auto simp: task_ok_def)
  next
    case (Inr tx)
    with m Shaken have "x = ps_chans s" "po = ps_pool s" and r: "ph' = Readying cn ci is_h2 tx" "r = None"
      by auto
    then have "moved s (Handshaking cn ci is_h2) (x, po, ph', r) = s" by (simp add: moved_def swap_handle_def)
    with r ok \<open>po = ps_pool s\<close> show ?thesis by (simp add: task_ok_def)
  qed
next
  case FutureDropped
  with m have "connect_fail C (ps_chans s) (ps_pool s) cn None = (x, po, ph', r)" by simp
  from fail_uses[OF held _ this, of "Handshaking cn ci is_h2"] show ?thesis by (auto simp: task_ok_def)
qed (use m in simp_all)

lemma readying_uses:
  fixes ci :: "'h connected_info" and E :: "'s connect_env"
  assumes m: "connect_move L (ops_at open pc_reserve pc_can_share) C now E key (ps_chans s) (ps_pool s)
      (Readying cn ci is_h2 tx) ev = Some (x, po, ph', r)"
    and held: "cn \<in> set (ps_connecting s)"
    and ok: "task_ok origin (ps_pool s = None) \<lparr>ct_key = key, ct_env = E, ct_phase = Readying cn ci is_h2 tx\<rparr>"
  shows "uses L C origin s (moved s (Readying cn ci is_h2 tx) (x, po, ph', r)) \<and>
    task_ok origin (po = None) \<lparr>ct_key = key, ct_env = E, ct_phase = ph'\<rparr> \<and> (po = None \<longleftrightarrow> ps_pool s = None)"
proof (cases ev)
  case (Readied d)
  show ?thesis
  proof (cases "ready_error E is_h2 d :: ('h, 's) client_error option")
    case (Some e)
    with m Readied have "connect_fail C (ps_chans s) (ps_pool s) cn (Some (Inl e)) = (x, po, ph', r)" by simp
    from fail_uses[OF held _ this, of "Readying cn ci is_h2 tx"] show ?thesis by (auto simp: task_ok_def)
  next
    case None
    define c where "c = \<lparr>pc_conn_info = ci, pc_tx = (if is_h2 then TxHttp2 tx else TxHttp1 tx)\<rparr>"
    obtain pd where p: "pool_pooled L (ops_at open pc_reserve pc_can_share) C now (ps_chans s) (ps_pool s) cn c = Some (x, po, pd)"
      and r: "ph' = Settled" "r = Some (Inr pd)"
      using m Readied None by (auto simp: connect_finish_def c_def split: option.splits prod.splits)
    have o: "origin c = cn_key cn" "pc_can_share c \<longrightarrow> cn_pool cn \<or> ps_pool s = None"
      using ok by (auto simp: task_ok_def c_def pc_can_share_def pc_is_http2_def)
    have "pool_step L C pc_reserve pc_can_share origin s
        (s\<lparr>ps_chans := x, ps_pool := po, ps_connecting := remove1 cn (ps_connecting s), ps_out := pd # ps_out s\<rparr>)"
      by (rule step_pooled[where c = c and S = pc_can_share and R = pc_reserve and origin = origin, OF held o p])
    then show ?thesis
      using r pool_parts_None(5)[OF p] by (auto simp: moved_def swap_handle_def task_ok_def)
  qed
next
  case FutureDropped
  with m have "connect_fail C (ps_chans s) (ps_pool s) cn None = (x, po, ph', r)" by simp
  from fail_uses[OF held _ this, of "Readying cn ci is_h2 tx"] show ?thesis by (auto simp: task_ok_def)
qed (use m in simp_all)

lemma move_uses:
  assumes m: "connect_move L (ops_at open pc_reserve pc_can_share) C now E key (ps_chans s) (ps_pool s) ph ev = Some (x, po, ph', r)"
    and held: "set (held_handle ph) \<subseteq> set (ps_connecting s)"
    and ok: "task_ok origin (ps_pool s = None) \<lparr>ct_key = key, ct_env = E, ct_phase = ph\<rparr>"
    and named: "\<forall>ci tx. ev = Dialed (Inr ci) \<longrightarrow> origin \<lparr>pc_conn_info = ci, pc_tx = tx\<rparr> = key"
  shows "uses L C origin s (moved s ph (x, po, ph', r)) \<and>
    task_ok origin (po = None) \<lparr>ct_key = key, ct_env = E, ct_phase = ph'\<rparr> \<and> (po = None \<longleftrightarrow> ps_pool s = None)"
proof (cases ph)
  case Init
  show ?thesis unfolding Init by (rule init_uses[OF m[unfolded Init]])
next
  case (Dialing cn)
  show ?thesis unfolding Dialing
    by (rule dialing_uses[OF m[unfolded Dialing] _ ok[unfolded Dialing] named]) (use held Dialing in simp)
next
  case (Handshaking cn ci is_h2)
  show ?thesis unfolding Handshaking
    by (rule opening_uses[OF m[unfolded Handshaking] _ ok[unfolded Handshaking]]) (use held Handshaking in simp)
next
  case (Readying cn ci is_h2 tx)
  show ?thesis unfolding Readying
    by (rule readying_uses[OF m[unfolded Readying] _ ok[unfolded Readying]]) (use held Readying in simp)
next
  case Settled
  with m show ?thesis by simp
qed


section \<open>The locks\<close>

lemma task_ok_eq: "task_ok origin b (t\<lparr>ct_phase := ph\<rparr>) \<longleftrightarrow>
    task_ok origin b \<lparr>ct_key = ct_key t, ct_env = ct_env t, ct_phase = ph\<rparr>"
  by (cases ph) (simp_all add: task_ok_def)

lemma handles_update:
  assumes "i < length ts"
  shows "mset (handles ts) = mset (held_handle (ct_phase (ts ! i))) + mset (handles (take i ts @ drop (Suc i) ts))"
    and "mset (handles (ts[i := t])) = mset (held_handle (ct_phase t)) + mset (handles (take i ts @ drop (Suc i) ts))"
  by (subst id_take_nth_drop[OF assms], simp add: handles_def)
    (simp add: upd_conv_take_nth_drop[OF assms] handles_def)

lemma held_handle_single: "held_handle ph = [] \<or> (\<exists>cn. held_handle ph = [cn])"
  by (cases ph) auto

lemma swap_handle_mset:
  assumes "mset cns = mset (held_handle ph) + rest"
  shows "mset (swap_handle (held_handle ph) (held_handle ph') cns) = mset (held_handle ph') + rest"
  using held_handle_single[of ph] held_handle_single[of ph'] assms by (auto simp: swap_handle_def)

lemma connect_step_ok:
  assumes "connect_step L C origin st st'" and "connect_inv origin st"
  shows "connect_inv origin st' \<and> uses L C origin (fst st) (fst st')"
  using assms
proof (induction rule: connect_step.induct)
  case (task_new s ts key E)
  then show ?case by (auto simp: connect_inv_def handles_def task_ok_def)
next
  case (task_move i ts ev "open" now s x po ph r)
  let ?t = "ts ! i"
  let ?s' = "moved s (ct_phase ?t) (x, po, ph, r)"
  define rest where "rest = mset (handles (take i ts @ drop (Suc i) ts))"
  have m0: "mset (ps_connecting s) = mset (held_handle (ct_phase ?t)) + rest"
    using task_move handles_update(1) by (auto simp: connect_inv_def rest_def)
  then have sub: "set (held_handle (ct_phase ?t)) \<subseteq> set (ps_connecting s)"
    by (metis mset_subset_eq_add_left set_mset_mono set_mset_mset)
  have tasks: "\<forall>t \<in> set ts. task_ok origin (ps_pool s = None) t"
    using task_move.prems by (simp add: connect_inv_def)
  then have "task_ok origin (ps_pool s = None) ?t" using task_move.hyps(1) by simp
  then have "task_ok origin (ps_pool s = None) \<lparr>ct_key = ct_key ?t, ct_env = ct_env ?t, ct_phase = ct_phase ?t\<rparr>"
    by (cases ?t) simp
  note res = move_uses[OF task_move.hyps(3) sub this task_move.hyps(2)]
  have "\<forall>t \<in> set (ts[i := ?t\<lparr>ct_phase := ph\<rparr>]). task_ok origin (po = None) t"
    using tasks res task_ok_eq[of origin _ ph ?t] set_update_subset_insert[of ts i] by fastforce
  moreover have "mset (ps_connecting ?s') = mset (handles (ts[i := ?t\<lparr>ct_phase := ph\<rparr>]))"
    using swap_handle_mset[OF m0] handles_update(2)[OF task_move.hyps(1)]
    by (simp add: moved_def rest_def)
  ultimately show ?case using res by (simp add: connect_inv_def moved_def)
next
  case (other_use s s' ts)
  then show ?case using pool_step_None[OF other_use.hyps(1)] by (auto simp: connect_inv_def)
qed

interpretation connecting: step_simulation
    "\<lambda>st. pool_start L n (fst st) \<and> snd st = []" "connect_step L C origin" "connect_inv origin"
    "pool_start L n" "pool_step L C pc_reserve pc_can_share origin" fst
  for L C origin n
proof
  show "connect_inv origin st" if "pool_start L n (fst st) \<and> snd st = []" for st
    using that by (cases st) (simp add: connect_inv_def handles_def pool_start_def)
qed (use connect_step_ok in blast)+

lemma connect_reach_ok:
  assumes "connect_reach L C origin n st"
  shows "connect_inv origin st \<and> pool_reach L C pc_reserve pc_can_share origin n (fst st)"
proof -
  obtain s0 where "pool_start L n s0" and run: "(connect_step L C origin)\<^sup>*\<^sup>* (s0, []) st"
    using assms by (auto simp: connect_reach_def)
  then show ?thesis using connecting.simulated[OF run, of n] by (auto simp: pool_reach_def)
qed

text \<open>
  The futures that hold the HTTP/2 lock of a key: those that dial or open a connection for it
  with a handle of the pool.
\<close>

definition holds_lock :: "'k \<Rightarrow> ('k, 'h, 's) connect_task \<Rightarrow> bool" where
  "holds_lock k t \<longleftrightarrow> (\<exists>cn \<in> set (held_handle (ct_phase t)). cn_pool cn \<and> cn_key cn = k)"

lemma locks_handles: "locks (handles ts) k = length (filter (holds_lock k) ts)"
proof (induction ts)
  case (Cons t ts)
  have "locks (held_handle (ct_phase t)) k = (if holds_lock k t then 1 else 0)"
    using held_handle_single[of "ct_phase t"] by (auto simp: holds_lock_def locks_def)
  with Cons show ?case by (simp add: handles_def)
qed (simp add: handles_def)

lemma locks_mset: "mset xs = mset ys \<Longrightarrow> locks xs k = locks ys k"
  unfolding locks_def by (metis mset_filter size_mset)

text \<open>
  C18. Connecting futures never leave a key locked: however they end, by an error of the
  connector, a lost race after ALPN, a failed handshake or being dropped at any await, a key of
  the pool is marked as connecting exactly while one future, and only one, holds its lock; once
  all have settled no key is locked.
\<close>

theorem connecting_locks_released:
  assumes "chan_laws C" and "lru_laws L" and "connect_reach L C origin n (s, ts)"
    and "ps_pool s = Some pi"
  shows "length (filter (holds_lock k) ts) = (if k \<in> connecting pi then 1 else 0) \<and>
    (list_all (\<lambda>t. ct_phase t = Settled) ts \<longrightarrow> connecting pi = {})"
proof -
  have inv: "mset (ps_connecting s) = mset (handles ts)"
    and reach: "pool_reach L C pc_reserve pc_can_share origin n s"
    using connect_reach_ok[OF assms(3)] by (auto simp: connect_inv_def)
  have lock: "length (filter (holds_lock k) ts) = (if k \<in> connecting pi then 1 else 0)" for k
    using pool_client.reach_ok[OF assms(1,2) reach] assms(4) locks_mset[OF inv, of k]
    by (auto simp: sys_ok_def locks_handles)
  have "k \<notin> connecting pi" if "list_all (\<lambda>t. ct_phase t = Settled) ts" for k
  proof -
    have "filter (holds_lock k) ts = []"
      using that by (auto simp: filter_empty_conv list_all_iff holds_lock_def)
    with lock[of k] show ?thesis by (simp split: if_splits)
  qed
  with lock show ?thesis by blast
qed


definition sample_connect_env :: "unit connect_env" where
  "sample_connect_env = \<lparr>en_is_proxy_error = (\<lambda>_. False), en_upgraded = (), en_ver = Http2\<rparr>"

definition sample_connect ::
  "nat set \<Rightarrow> nat connecting_handle list \<Rightarrow> (nat, unit) connect_phase list \<Rightarrow>
   (nat, unit, unit, sample_cache, unit pool_client mem_chans) connect_sys" where
  "sample_connect locked cns phases =
     (sample_sys [] [] cns\<lparr>ps_pool := Some (sample_inner []\<lparr>connecting := locked\<rparr>)\<rparr>,
      map (\<lambda>ph. \<lparr>ct_key = 3, ct_env = sample_connect_env, ct_phase = ph\<rparr>) phases)"

lemma sample_connect_reach:
  "connect_reach list_cache mem_chans sample_origin 1 (sample_connect {} [] [Settled])"
proof -
  let ?h = "\<lparr>cn_key = 3, cn_pool = True\<rparr> :: nat connecting_handle"
  let ?s0 = "sample_connect {} [] []"
  let ?step = "connect_step list_cache mem_chans sample_origin"
  have 1: "?step ?s0 (sample_connect {} [] [Init])"
    using task_new[of list_cache mem_chans sample_origin "fst ?s0" "snd ?s0" 3 sample_connect_env]
    by (simp add: sample_connect_def)
  have 2: "?step (sample_connect {} [] [Init]) (sample_connect {3} [?h] [Dialing ?h])"
    using task_move[of 0 "snd (sample_connect {} [] [Init])" Polled sample_origin list_cache _ mem_chans _
        "fst (sample_connect {} [] [Init])"]
    by (simp add: sample_connect_def sample_sys_def sample_inner_def pool_connecting_def
        sample_connect_env_def swap_handle_def)
  have 3: "?step (sample_connect {3} [?h] [Dialing ?h]) (sample_connect {} [] [Settled])"
    using task_move[of 0 "snd (sample_connect {3} [?h] [Dialing ?h])" FutureDropped sample_origin list_cache _ mem_chans _
        "fst (sample_connect {3} [?h] [Dialing ?h])"]
    by (simp add: sample_connect_def sample_sys_def sample_inner_def connect_fail_def
        drop_connecting_def connected_def swap_handle_def)
  have "pool_start list_cache 1 (fst ?s0)"
    by (auto simp: pool_start_def sample_connect_def sample_sys_def sample_inner_def pool_new_def
        list_cache_def)
  with 1 2 3 show ?thesis
    unfolding connect_reach_def
    by (intro exI[of _ "fst ?s0"]) (auto simp: sample_connect_def intro: converse_rtranclp_into_rtranclp)
qed

theorem connecting_locks_released_witness:
  "connecting (sample_inner []\<lparr>connecting := {}\<rparr>) = ({} :: nat set) \<and>
   list_all (\<lambda>t. ct_phase t = Settled) (snd (sample_connect {} [] [Settled]))"
  using connecting_locks_released[OF mem_chans_laws list_cache_laws sample_connect_reach[unfolded sample_connect_def],
      of "sample_inner []\<lparr>connecting := {}\<rparr>"]
  by (simp add: sample_connect_def)

end
