(* ===== verification/Verbose.thy ===== *)
theory Verbose
  imports Header_Map
begin

text \<open>
  Connections as byte streams (\<open>AsyncRead\<close> and \<open>AsyncWrite\<close>): the stream that is plain or
  TLS (\<open>MaybeHttpsStream\<close> of \<open>src/src/tls/conn.rs\<close>) and the wrapper that traces what passes
  (\<open>src/src/conn/verbose.rs\<close>, with \<open>Escape\<close> of \<open>src/src/util.rs\<close>). A stream is a state with its
  poll functions; a read is given what its buffer already holds and the room left.
\<close>

section \<open>Streams\<close>

record ('st, 'e) io_ops =
  io_read :: "'st \<Rightarrow> string \<Rightarrow> nat \<Rightarrow> 'st \<times> ('e + string) poll"
  io_write :: "'st \<Rightarrow> string \<Rightarrow> 'st \<times> ('e + nat) poll"
  io_write_vectored :: "'st \<Rightarrow> string list \<Rightarrow> 'st \<times> ('e + nat) poll"
  io_is_write_vectored :: "'st \<Rightarrow> bool"
  io_flush :: "'st \<Rightarrow> 'st \<times> ('e + unit) poll"
  io_shutdown :: "'st \<Rightarrow> 'st \<times> ('e + unit) poll"

text \<open>\<open>MaybeHttpsStream\<close> hands every call to the stream it is.\<close>

datatype ('p, 't) either_stream = Http 'p | Https 't

definition on_either ::
  "('p \<Rightarrow> 'p \<times> 'r) \<Rightarrow> ('t \<Rightarrow> 't \<times> 'r) \<Rightarrow> ('p, 't) either_stream \<Rightarrow> ('p, 't) either_stream \<times> 'r" where
  "on_either f g s =
     (case s of Http p \<Rightarrow> apfst Http (f p) | Https t \<Rightarrow> apfst Https (g t))"

definition maybe_https_ops ::
  "('p, 'e) io_ops \<Rightarrow> ('t, 'e) io_ops \<Rightarrow> (('p, 't) either_stream, 'e) io_ops" where
  "maybe_https_ops A B =
     \<lparr>io_read = (\<lambda>s filled room. on_either (\<lambda>p. io_read A p filled room) (\<lambda>t. io_read B t filled room) s),
      io_write = (\<lambda>s buf. on_either (\<lambda>p. io_write A p buf) (\<lambda>t. io_write B t buf) s),
      io_write_vectored = (\<lambda>s bufs. on_either (\<lambda>p. io_write_vectored A p bufs) (\<lambda>t. io_write_vectored B t bufs) s),
      io_is_write_vectored = (\<lambda>s. case s of Http p \<Rightarrow> io_is_write_vectored A p | Https t \<Rightarrow> io_is_write_vectored B t),
      io_flush = on_either (io_flush A) (io_flush B),
      io_shutdown = on_either (io_shutdown A) (io_shutdown B)\<rparr>"

section \<open>Tracing\<close>

text \<open>\<open>Debug\<close> of \<open>Escape\<close>, and of the buffers of which \<open>left\<close> bytes were written.\<close>

definition escape_debug :: "string \<Rightarrow> string" where
  "escape_debug s = CHR ''b'' # CHR 0x22 # escape s @ [CHR 0x22]"

fun vectored_debug :: "string list \<Rightarrow> nat \<Rightarrow> string" where
  "vectored_debug [] left = []"
| "vectored_debug (buf # bufs) left =
     (if left = 0 then []
      else (let n = min left (length buf)
            in escape_debug (take n buf) @ vectored_debug bufs (left - n)))"

datatype trace_entry = TraceRead string | TraceWrite string | TraceVectored string

text \<open>The wrapped stream and what was traced for its id, oldest first.\<close>

type_synonym 'st traced = "'st \<times> trace_entry list"

definition verbose_read :: "('st, 'e) io_ops \<Rightarrow> 'st traced \<Rightarrow> string \<Rightarrow> nat \<Rightarrow> 'st traced \<times> ('e + string) poll" where
  "verbose_read X w filled room =
     (case io_read X (fst w) filled room of
        (st, Ready (Inr now_filled)) \<Rightarrow>
          ((st, snd w @ [TraceRead (escape_debug now_filled)]), Ready (Inr now_filled))
      | (st, Ready (Inl e)) \<Rightarrow> ((st, snd w), Ready (Inl e))
      | (st, Pending) \<Rightarrow> ((st, snd w), Pending))"

definition verbose_write :: "('st, 'e) io_ops \<Rightarrow> 'st traced \<Rightarrow> string \<Rightarrow> 'st traced \<times> ('e + nat) poll" where
  "verbose_write X w buf =
     (case io_write X (fst w) buf of
        (st, Ready (Inr n)) \<Rightarrow> ((st, snd w @ [TraceWrite (escape_debug (take n buf))]), Ready (Inr n))
      | (st, Ready (Inl e)) \<Rightarrow> ((st, snd w), Ready (Inl e))
      | (st, Pending) \<Rightarrow> ((st, snd w), Pending))"

definition verbose_write_vectored ::
  "('st, 'e) io_ops \<Rightarrow> 'st traced \<Rightarrow> string list \<Rightarrow> 'st traced \<times> ('e + nat) poll" where
  "verbose_write_vectored X w bufs =
     (case io_write_vectored X (fst w) bufs of
        (st, Ready (Inr n)) \<Rightarrow> ((st, snd w @ [TraceVectored (vectored_debug bufs n)]), Ready (Inr n))
      | (st, Ready (Inl e)) \<Rightarrow> ((st, snd w), Ready (Inl e))
      | (st, Pending) \<Rightarrow> ((st, snd w), Pending))"

definition quiet :: "('st \<Rightarrow> 'st \<times> 'r) \<Rightarrow> 'st traced \<Rightarrow> 'st traced \<times> 'r" where
  "quiet f w = (case f (fst w) of (st, r) \<Rightarrow> ((st, snd w), r))"

definition verbose_ops :: "('st, 'e) io_ops \<Rightarrow> ('st traced, 'e) io_ops" where
  "verbose_ops X =
     \<lparr>io_read = verbose_read X, io_write = verbose_write X, io_write_vectored = verbose_write_vectored X,
      io_is_write_vectored = (\<lambda>w. io_is_write_vectored X (fst w)),
      io_flush = quiet (io_flush X), io_shutdown = quiet (io_shutdown X)\<rparr>"

section \<open>A run of calls\<close>

datatype io_call = Read string nat | Write string | WriteVectored "string list" | Flush | Shutdown

datatype 'e io_answer = ReadAnswer "('e + string) poll" | WriteAnswer "('e + nat) poll" | UnitAnswer "('e + unit) poll"

fun io_apply :: "('st, 'e) io_ops \<Rightarrow> io_call \<Rightarrow> 'st \<Rightarrow> 'st \<times> 'e io_answer" where
  "io_apply X (Read filled room) st = apsnd ReadAnswer (io_read X st filled room)"
| "io_apply X (Write buf) st = apsnd WriteAnswer (io_write X st buf)"
| "io_apply X (WriteVectored bufs) st = apsnd WriteAnswer (io_write_vectored X st bufs)"
| "io_apply X Flush st = apsnd UnitAnswer (io_flush X st)"
| "io_apply X Shutdown st = apsnd UnitAnswer (io_shutdown X st)"

fun io_run :: "('st, 'e) io_ops \<Rightarrow> io_call list \<Rightarrow> 'st \<Rightarrow> 'st \<times> 'e io_answer list" where
  "io_run X [] st = (st, [])"
| "io_run X (c # cs) st =
     (case io_apply X c st of (st1, a) \<Rightarrow> apsnd ((#) a) (io_run X cs st1))"

text \<open>What one call passed on, and what its trace entry says, with the quotes read back.\<close>

fun passed :: "io_call \<Rightarrow> 'e io_answer \<Rightarrow> trace_entry list" where
  "passed (Read filled room) (ReadAnswer (Ready (Inr s))) = [TraceRead s]"
| "passed (Write buf) (WriteAnswer (Ready (Inr n))) = [TraceWrite (take n buf)]"
| "passed (WriteVectored bufs) (WriteAnswer (Ready (Inr n))) = [TraceVectored (take n (concat bufs))]"
| "passed _ _ = []"

text \<open>A reader of the trace: pieces \<open>b"..."\<close>, each unescaped.\<close>

fun read_piece :: "string \<Rightarrow> (string \<times> string) option" where
  "read_piece [] = None"
| "read_piece (c # s) =
     (if c = CHR 0x22 then Some ([], s)
      else if c = CHR 0x5C then
        (case s of [] \<Rightarrow> None
         | d # s' \<Rightarrow> map_option (\<lambda>(p, rest). (c # d # p, rest)) (read_piece s'))
      else map_option (\<lambda>(p, rest). (c # p, rest)) (read_piece s))"

fun read_trace :: "nat \<Rightarrow> string \<Rightarrow> string" where
  "read_trace 0 s = []"
| "read_trace (Suc n) s =
     (case s of
        b # q # s' \<Rightarrow> (case read_piece s' of
                        Some (p, rest) \<Rightarrow> unescape p @ read_trace n rest
                      | None \<Rightarrow> [])
      | _ \<Rightarrow> [])"

fun read_entry :: "trace_entry \<Rightarrow> trace_entry" where
  "read_entry (TraceRead s) = TraceRead (read_trace (length s) s)"
| "read_entry (TraceWrite s) = TraceWrite (read_trace (length s) s)"
| "read_entry (TraceVectored s) = TraceVectored (read_trace (length s) s)"


section \<open>Reading a trace back\<close>

lemma read_piece_byte:
  "read_piece (escape_byte c @ s) = map_option (\<lambda>(p, rest). (escape_byte c @ p, rest)) (read_piece s)"
proof -
  let ?n = "of_char c :: nat"
  have "c = d \<longleftrightarrow> ?n = of_char d" for d by (simp add: of_char_eq_iff)
  from this[of "CHR 0x22"] this[of "CHR 0x5C"]
  have quote: "c = CHR 0x22 \<longleftrightarrow> ?n = 34" "c = CHR 0x5C \<longleftrightarrow> ?n = 92" by simp_all
  have hex: "hex_digit m \<noteq> CHR 0x22" "hex_digit m \<noteq> CHR 0x5C" if "m < 16" for m
    using of_char_hex_digit[OF that] by (auto split: if_splits)
  have "?n div 16 < 16" by (rule less_mult_imp_div_less) simp
  then show ?thesis
    using quote hex[of "?n div 16"] hex[of "?n mod 16"]
    by (cases "read_piece s") (auto simp: escape_byte_def Let_def)
qed

lemma read_piece_escape: "read_piece (escape s @ CHR 0x22 # rest) = Some (escape s, rest)"
  by (induction s) (simp_all add: escape_def read_piece_byte)

lemma read_trace_debug:
  "read_trace (Suc n) (escape_debug s @ rest) = s @ read_trace n rest"
  by (simp add: escape_debug_def read_piece_escape unescape_escape)

lemma read_trace_Nil [simp]: "read_trace n [] = []"
  by (cases n) auto

lemma read_trace_vectored:
  "length (vectored_debug bufs left) \<le> n \<Longrightarrow> read_trace n (vectored_debug bufs left) = take left (concat bufs)"
proof (induction bufs left arbitrary: n rule: vectored_debug.induct)
  case (2 buf bufs left)
  show ?case
  proof (cases "left = 0")
    case False
    let ?k = "min left (length buf)"
    from 2(2) False obtain m where n: "n = Suc m" "length (vectored_debug bufs (left - ?k)) \<le> m"
      by (cases n) (auto simp: escape_debug_def Let_def)
    with 2(1)[OF False refl, of m] False show ?thesis
      by (auto simp: read_trace_debug Let_def min_def simp del: read_trace.simps)
  qed simp
qed simp

lemma read_trace_single: "read_trace (length (escape_debug s)) (escape_debug s) = s"
proof -
  obtain n where "length (escape_debug s) = Suc n" by (simp add: escape_debug_def)
  then show ?thesis using read_trace_debug[of n s "[]"] by simp
qed

section \<open>Tracing changes nothing\<close>

lemma verbose_apply:
  "io_apply X c st = (st', a) \<Longrightarrow>
   \<exists>es. io_apply (verbose_ops X) c (st, log) = ((st', log @ es), a) \<and> map read_entry es = passed c a"
  by (cases c)
    (auto simp: verbose_ops_def verbose_read_def verbose_write_def verbose_write_vectored_def quiet_def
        read_trace_single read_trace_vectored split: prod.splits poll.splits sum.splits)

text \<open>
  A traced connection answers every sequence of calls as the connection itself would; each
  write leaves one entry that reads back as exactly the bytes the connection accepted, vectored
  or not, and each read one entry of all that its buffer then holds.
\<close>

lemma tracing_transparent:
  "case io_run X cs st of (st', as) \<Rightarrow>
     \<exists>es. io_run (verbose_ops X) cs (st, log) = ((st', log @ es), as) \<and>
       map read_entry es = concat (map2 passed cs as)"
proof (induction cs arbitrary: st log)
  case (Cons c cs)
  obtain st1 a where a: "io_apply X c st = (st1, a)" by fastforce
  obtain st2 as where r: "io_run X cs st1 = (st2, as)" by fastforce
  from verbose_apply[OF a] obtain es1 where e1:
    "io_apply (verbose_ops X) c (st, log) = ((st1, log @ es1), a)" "map read_entry es1 = passed c a" by blast
  from Cons[of st1 "log @ es1"] r obtain es2 where
    "io_run (verbose_ops X) cs (st1, log @ es1) = ((st2, (log @ es1) @ es2), as)"
    "map read_entry es2 = concat (map2 passed cs as)" by auto
  with a r e1 show ?case by (auto intro!: exI[of _ "es1 @ es2"])
qed simp

text \<open>
  A read entry repeats what the buffer held before: two reads into one buffer are traced as the
  first bytes, then the first and the second.
\<close>

lemma read_trace_repeats:
  "snd (fst (io_run (verbose_ops \<lparr>io_read = \<lambda>st filled room. (st, Ready (Inr (filled @ ''a''))),
      io_write = f, io_write_vectored = g, io_is_write_vectored = h, io_flush = i, io_shutdown = j\<rparr>)
    [Read [] 2, Read ''a'' 1] (st, []))) = [TraceRead (escape_debug ''a''), TraceRead (escape_debug ''aa'')]"
  by (simp add: verbose_ops_def verbose_read_def)

end
