(* ===== verification/Conn_Extras.thy ===== *)
theory Conn_Extras
  imports Conn_Info
begin

text \<open>
  What a connection adds to the extensions of every response (\<open>Connected::extra\<close> and
  \<open>set_extras\<close> of \<open>src/src/conn.rs\<close>, \<open>src/src/conn/tls_info.rs\<close>, and the TCP stream of
  \<open>src/src/conn/net/tcp/tokio.rs\<close>). \<open>http::Extensions\<close> keeps one value per type: here one per
  constructor. Addresses and certificates are the operating system's and the TLS library's.
\<close>

section \<open>Extras\<close>

record tls_info =
  ti_peer_certificate :: "string option"
  ti_peer_certificate_chain :: "string list option"

datatype ext_value = HttpInfoExt string string | TlsInfoExt tls_info

datatype ext_type = HttpInfoType | TlsInfoType

fun ext_type_of :: "ext_value \<Rightarrow> ext_type" where
  "ext_type_of (HttpInfoExt _ _) = HttpInfoType"
| "ext_type_of (TlsInfoExt _) = TlsInfoType"

type_synonym ext_map = "ext_type \<Rightarrow> ext_value option"

definition ext_put :: "ext_value \<Rightarrow> ext_map \<Rightarrow> ext_map" where
  "ext_put v m = m(ext_type_of v \<mapsto> v)"

datatype extra_inner = Envelope ext_value | Chain extra_inner ext_value

fun extra_set :: "extra_inner \<Rightarrow> ext_map \<Rightarrow> ext_map" where
  "extra_set (Envelope v) m = ext_put v m"
| "extra_set (Chain inner v) m = ext_put v (extra_set inner m)"

definition add_extra :: "extra_inner option \<Rightarrow> ext_value \<Rightarrow> extra_inner option" where
  "add_extra prev v = (case prev of Some e \<Rightarrow> Some (Chain e v) | None \<Rightarrow> Some (Envelope v))"

definition set_extras :: "extra_inner option \<Rightarrow> ext_map \<Rightarrow> ext_map" where
  "set_extras extra m = (case extra of Some e \<Rightarrow> extra_set e m | None \<Rightarrow> m)"

section \<open>Of a connection\<close>

text \<open>
  The addresses of a socket, if the system gives both, and the certificates of a session; a
  certificate that cannot be encoded is left out.
\<close>

record ('io, 'key, 'cert) peer_env =
  pe_addrs :: "'io \<Rightarrow> string option \<times> string option"
  pe_certificate :: "'key cfg_call list \<Rightarrow> 'cert option"
  pe_chain :: "'key cfg_call list \<Rightarrow> 'cert list option"
  pe_to_der :: "'cert \<Rightarrow> string option"

definition tcp_extra :: "('io, 'key, 'cert) peer_env \<Rightarrow> 'io \<Rightarrow> extra_inner option" where
  "tcp_extra Q io =
     (case pe_addrs Q io of
        (Some remote, Some local) \<Rightarrow> add_extra None (HttpInfoExt remote local)
      | _ \<Rightarrow> None)"

fun stream_extra :: "('io, 'key, 'cert) peer_env \<Rightarrow> ('io, 'key) stream \<Rightarrow> extra_inner option" where
  "stream_extra Q (Plain io) = tcp_extra Q io"
| "stream_extra Q (Secure ssl inner) = stream_extra Q inner"

definition extract_tls_info :: "('io, 'key, 'cert) peer_env \<Rightarrow> 'key cfg_call list \<Rightarrow> tls_info" where
  "extract_tls_info Q ssl =
     \<lparr>ti_peer_certificate = Option.bind (pe_certificate Q ssl) (pe_to_der Q),
      ti_peer_certificate_chain = map_option (List.map_filter (pe_to_der Q)) (pe_chain Q ssl)\<rparr>"

definition stream_tls_info :: "('io, 'key, 'cert) peer_env \<Rightarrow> ('io, 'key) stream \<Rightarrow> tls_info option" where
  "stream_tls_info Q s =
     (case s of Plain _ \<Rightarrow> None | Secure ssl _ \<Rightarrow> Some (extract_tls_info Q ssl))"

definition conn_extra :: "('io, 'key, 'cert) peer_env \<Rightarrow> ('io, 'key, 'h) conn \<Rightarrow> extra_inner option" where
  "conn_extra Q c =
     (let extra = stream_extra Q (cn_stream c)
      in if cn_tls_info c then
           (case stream_tls_info Q (cn_stream c) of
              Some ti \<Rightarrow> add_extra extra (TlsInfoExt ti)
            | None \<Rightarrow> extra)
         else extra)"

section \<open>What a response is told\<close>

fun innermost :: "('io, 'key) stream \<Rightarrow> 'io" where
  "innermost (Plain io) = io"
| "innermost (Secure _ inner) = innermost inner"

lemma set_extras_add [simp]:
  "set_extras (add_extra prev v) m = (set_extras prev m)(ext_type_of v \<mapsto> v)"
  by (auto simp: set_extras_def add_extra_def ext_put_def split: option.split)

lemma set_extras_None [simp]: "set_extras None m = m"
  by (simp add: set_extras_def)

lemma stream_extra_tcp: "stream_extra Q s = tcp_extra Q (innermost s)"
  by (induction s) auto

lemma conn_extra_types:
  "set_extras (conn_extra Q c) m TlsInfoType =
     (if cn_tls_info c then
        (case stream_tls_info Q (cn_stream c) of Some ti \<Rightarrow> Some (TlsInfoExt ti) | None \<Rightarrow> m TlsInfoType)
      else m TlsInfoType)"
  "set_extras (conn_extra Q c) m HttpInfoType =
     (case pe_addrs Q (innermost (cn_stream c)) of
        (Some remote, Some local) \<Rightarrow> Some (HttpInfoExt remote local)
      | _ \<Rightarrow> m HttpInfoType)"
  by (auto simp: conn_extra_def stream_extra_tcp tcp_extra_def Let_def split: option.split prod.split)

text \<open>
  C27. For an https target, by whatever route, the TLS information of a response is that of
  the session with the target's name, never the proxy's; a connection made without the setting
  adds none, and the addresses are those of the socket below all TLS.
\<close>

theorem tls_info_of_target:
  assumes "connect_auto E H X S d w = (events, w', Inr c)" and "is_https (cd_uri d)"
  shows "\<exists>ssl inner h. cn_stream c = Secure ssl inner \<and>
    host (cd_uri d) = Some h \<and> last ssl = IntoSsl (normalize_host h) \<and>
    set_extras (conn_extra Q c) Map.empty TlsInfoType =
      (if cn_tls_info c then Some (TlsInfoExt (extract_tls_info Q ssl)) else None) \<and>
    set_extras (conn_extra Q c) Map.empty HttpInfoType =
      (case pe_addrs Q (innermost inner) of
         (Some remote, Some local) \<Rightarrow> Some (HttpInfoExt remote local)
       | _ \<Rightarrow> None)"
proof -
  have "target_secured (cd_uri d) (cn_stream c)"
    using act_allD [OF connect_auto_all assms(1)] assms(2) by auto
  then show ?thesis
    by (auto simp: target_secured_def ssl_for_def conn_extra_types stream_tls_info_def)
qed

definition sample_peer :: "(nat, 'key, string) peer_env" where
  "sample_peer =
     \<lparr>pe_addrs = (\<lambda>_. (Some ''10.0.0.1:8080'', Some ''10.0.0.2:5000'')),
      pe_certificate = (\<lambda>_. Some ''cert''), pe_chain = (\<lambda>_. None), pe_to_der = Some\<rparr>"

theorem tls_info_of_target_witness:
  "\<exists>ssl inner. cn_stream sample_conn = Secure ssl inner \<and> last ssl = IntoSsl ''a.test'' \<and>
     set_extras (conn_extra sample_peer sample_conn) Map.empty HttpInfoType =
       Some (HttpInfoExt ''10.0.0.1:8080'' ''10.0.0.2:5000'')"
proof -
  have "is_https (cd_uri sample_desc)"
    by (simp add: sample_desc_def connection_descriptor_new_def sample_https_uri_def is_https_def)
  from tls_info_of_target [OF sample_tunnel_run this, of sample_peer] show ?thesis
    by (auto simp: sample_conn_def sample_tunnel_ssl_def sample_peer_def)
qed

end
