(* ===== verification/Resolvers.thy ===== *)
theory Resolvers
  imports Http_Connector
begin

text \<open>
  The built-in resolvers (\<open>src/src/dns/gai.rs\<close> with its \<open>tokio\<close> and \<open>compio\<close> modules, and
  \<open>src/src/dns/hickory.rs\<close>): both look a name up with port 0, which the connector then
  replaces. The lookup itself is the operating system's or the resolver crate's.
\<close>

section \<open>getaddrinfo\<close>

text \<open>How the blocking task ended: with its answer, cancelled, or by a panic.\<close>

datatype join_result = Joined "std_error + ip_addr list" | JoinCancelled | JoinPanicked string

definition socket_addr_new :: "ip_addr \<Rightarrow> u16 \<Rightarrow> socket_addr" where
  "socket_addr_new ip p = (case ip of V4 x \<Rightarrow> SockV4 x p | V6 x \<Rightarrow> SockV6 x p 0 0)"

definition gai_future_tokio :: "join_result \<Rightarrow> std_error + socket_addr list" where
  "gai_future_tokio j =
     (case j of
        Joined (Inr ips) \<Rightarrow> Inr (map (\<lambda>ip. socket_addr_new ip 0) ips)
      | Joined (Inl err) \<Rightarrow> Inl err
      | JoinCancelled \<Rightarrow> Inl (EIo IoOther (Some (EOther ''task was cancelled'' None)))
      | JoinPanicked msg \<Rightarrow>
          Inl (EIo IoOther (Some (EOther (''DNS resolution blocked task panicked: '' @ msg) None))))"

definition gai_future_compio :: "join_result \<Rightarrow> std_error + socket_addr list" where
  "gai_future_compio j =
     (case j of
        Joined (Inr ips) \<Rightarrow> Inr (map (\<lambda>ip. socket_addr_new ip 0) ips)
      | Joined (Inl err) \<Rightarrow> Inl err
      | JoinCancelled \<Rightarrow>
          Inl (EIo IoOther (Some (EOther ''DNS resolution blocked task panicked: cancelled'' None)))
      | JoinPanicked msg \<Rightarrow>
          Inl (EIo IoOther (Some (EOther (''DNS resolution blocked task panicked: '' @ msg) None))))"

definition gai_resolve :: "(join_result \<Rightarrow> std_error + socket_addr list) \<Rightarrow> (string \<Rightarrow> join_result) \<Rightarrow> string \<Rightarrow> std_error + socket_addr list" where
  "gai_resolve future spawn name = future (spawn name)"

section \<open>hickory\<close>

definition hickory_resolve :: "(string \<Rightarrow> std_error + ip_addr list) \<Rightarrow> string \<Rightarrow> std_error + socket_addr list" where
  "hickory_resolve lookup_ip name =
     and_then (lookup_ip name) (\<lambda>ips. Inr (map (\<lambda>ip. socket_addr_new ip 0) ips))"

section \<open>What is dialled\<close>

definition all_port_zero :: "(string \<Rightarrow> std_error + socket_addr list) \<Rightarrow> bool" where
  "all_port_zero resolve_name \<longleftrightarrow> (\<forall>name addrs. resolve_name name = Inr addrs \<longrightarrow> (\<forall>a \<in> set addrs. sa_port a = 0))"

lemma socket_addr_new_port [simp]: "sa_port (socket_addr_new ip p) = p"
  by (cases ip) (simp_all add: socket_addr_new_def)

lemma resolvers_port_zero:
  "all_port_zero (gai_resolve gai_future_tokio spawn)"
  "all_port_zero (gai_resolve gai_future_compio spawn)"
  "all_port_zero (hickory_resolve lookup)"
  by (auto simp: all_port_zero_def gai_resolve_def gai_future_tokio_def gai_future_compio_def
      hickory_resolve_def and_then_Inr_iff split: join_result.splits sum.splits)

text \<open>
  With a built-in resolver and no override for the host, every address is dialled at the port
  of the URI, or at its scheme's.
\<close>

lemma dialled_port:
  assumes "http_addrs (dyn_resolve (resolve_with_overrides overrides f)) options dst = Inr addrs"
    and "all_port_zero f" and "map_of overrides (strip_ipv6_brackets (the (host dst))) = None"
    and "a \<in> set addrs"
  shows "sa_port a = (case port dst of Some p \<Rightarrow> p | None \<Rightarrow> if scheme dst = Some HTTPS then 443 else 80)"
proof (cases "port dst")
  case None
  note d = dialled_addresses [OF assms(1,4)]
  have "a \<notin> set (projr (resolve_with_overrides overrides f (strip_ipv6_brackets (the (host dst)))))"
    if "sa_port a \<noteq> 0" "parse_ip (strip_ipv6_brackets (the (host dst))) = None"
  proof -
    from d that(2) obtain as where
      "resolve_with_overrides overrides f (strip_ipv6_brackets (the (host dst))) = Inr as"
      by auto
    moreover from this have "\<forall>b \<in> set as. sa_port b = 0"
      using assms(2,3) by (simp add: all_port_zero_def resolve_with_overrides_def)
    ultimately show ?thesis using that(1) by auto
  qed
  moreover have "sa_port a = (if scheme dst = Some HTTPS then 443 else 80)"
    if "parse_ip (strip_ipv6_brackets (the (host dst))) = Some ip" for ip
  proof -
    obtain h p where hp: "get_host_port options dst = Inr (h, p)"
      using assms(1) by (auto simp: http_addrs_def and_then_Inr_iff)
    with None have "the (host dst) = h" "p = (if scheme dst = Some HTTPS then 443 else 80)"
      by (auto simp: get_host_port_Inr)
    with that hp assms(1,4) show ?thesis
      by (cases ip) (auto simp: http_addrs_def try_parse_addr_def Let_def)
  qed
  ultimately show ?thesis using d None by (cases "parse_ip (strip_ipv6_brackets (the (host dst)))") auto
next
  case (Some p)
  with dialled_addresses [OF assms(1,4)] show ?thesis by simp
qed

end
