(* ===== verification/Cert_Compression.thy ===== *)
theory Cert_Compression
  imports Prelude
begin

text \<open>
  Certificate compression (\<open>src/src/tls/compress.rs\<close>): a compressor given by the user is
  registered with the TLS library under the identifier of its algorithm. A codec is a function
  from the input to the output or an I/O error, by pointer or by closure.
\<close>

datatype 'e codec = Pointer "string \<Rightarrow> 'e + string" | Dynamic "string \<Rightarrow> 'e + string"

datatype algorithm = Zlib | Brotli | Zstd | OtherAlgorithm u16

record 'e certificate_compressor =
  cc_compress :: "'e codec"
  cc_decompress :: "'e codec"
  cc_algorithm :: algorithm

definition codec_call :: "'e codec \<Rightarrow> string \<Rightarrow> 'e + string" where
  "codec_call c input = (case c of Pointer f \<Rightarrow> f input | Dynamic f \<Rightarrow> f input)"

text \<open>What the library is given; the outer option is the \<open>unreachable!\<close>.\<close>

record 'e registered =
  rg_algorithm :: algorithm
  rg_compress :: "string \<Rightarrow> 'e + string"
  rg_decompress :: "string \<Rightarrow> 'e + string"

definition register_compressor :: "'e certificate_compressor \<Rightarrow> 'e registered option" where
  "register_compressor c =
     (let entry = \<lambda>alg. Some \<lparr>rg_algorithm = alg, rg_compress = codec_call (cc_compress c),
                              rg_decompress = codec_call (cc_decompress c)\<rparr>
      in case cc_algorithm c of
           Zlib \<Rightarrow> entry Zlib
         | Brotli \<Rightarrow> entry Brotli
         | Zstd \<Rightarrow> entry Zstd
         | OtherAlgorithm _ \<Rightarrow> None)"

text \<open>
  A compressor keeps its algorithm and its directions, so a chain it can read back is read
  back; one of another algorithm panics when a client is built with it.
\<close>

lemma register_panics: "register_compressor c = None \<longleftrightarrow> (\<exists>n. cc_algorithm c = OtherAlgorithm n)"
  by (auto simp: register_compressor_def Let_def split: algorithm.splits)

lemma registered_roundtrip:
  assumes "register_compressor c = Some r"
    and "codec_call (cc_compress c) chain = Inr packed" and "codec_call (cc_decompress c) packed = Inr chain"
  shows "rg_algorithm r = cc_algorithm c \<and> and_then (rg_compress r chain) (rg_decompress r) = Inr chain"
  using assms by (auto simp: register_compressor_def Let_def split: algorithm.splits)

end
