(* ===== verification/Facade.thy ===== *)
theory Facade
  imports Ws
begin

text \<open>
  The request methods of \<open>Client\<close> (\<open>src/src/client.rs\<close>) and the functions of the crate
  (\<open>src/src/lib.rs\<close>), which build a client with the default settings for one request. \<open>build\<close> is
  what building that client gives; \<open>Client::new\<close> expects it to succeed.
\<close>

definition client_new :: "std_error + 'cl \<Rightarrow> 'cl option" where
  "client_new build = (case build of Inr c \<Rightarrow> Some c | Inl _ \<Rightarrow> None)"

definition client_get where "client_get L H decode b64 client u = client_new_request L H decode b64 client ''GET'' u"
definition client_post where "client_post L H decode b64 client u = client_new_request L H decode b64 client ''POST'' u"
definition client_put where "client_put L H decode b64 client u = client_new_request L H decode b64 client ''PUT'' u"
definition client_patch where "client_patch L H decode b64 client u = client_new_request L H decode b64 client ''PATCH'' u"
definition client_delete where "client_delete L H decode b64 client u = client_new_request L H decode b64 client ''DELETE'' u"
definition client_head where "client_head L H decode b64 client u = client_new_request L H decode b64 client ''HEAD'' u"
definition client_options where "client_options L H decode b64 client u = client_new_request L H decode b64 client ''OPTIONS'' u"

definition lib_get where
  "lib_get L H decode b64 build u = map_option (\<lambda>c. client_get L H decode b64 c u) (client_new build)"

definition lib_post where
  "lib_post L H decode b64 build u = map_option (\<lambda>c. client_post L H decode b64 c u) (client_new build)"

definition lib_put where
  "lib_put L H decode b64 build u = map_option (\<lambda>c. client_put L H decode b64 c u) (client_new build)"

definition lib_delete where
  "lib_delete L H decode b64 build u = map_option (\<lambda>c. client_delete L H decode b64 c u) (client_new build)"

definition lib_head where
  "lib_head L H decode b64 build u = map_option (\<lambda>c. client_head L H decode b64 c u) (client_new build)"

definition lib_patch where
  "lib_patch L H decode b64 build u = map_option (\<lambda>c. client_patch L H decode b64 c u) (client_new build)"

definition lib_options where
  "lib_options L H decode b64 build u = map_option (\<lambda>c. client_options L H decode b64 c u) (client_new build)"

definition lib_request where
  "lib_request L H decode b64 build verb u = map_option (\<lambda>c. client_new_request L H decode b64 c verb u) (client_new build)"

definition lib_websocket where
  "lib_websocket L H decode b64 deflt build u =
     map_option (\<lambda>c. client_websocket L H decode b64 deflt c u) (client_new build)"

lemmas facade_defs = lib_get_def lib_post_def lib_put_def lib_delete_def lib_head_def lib_patch_def
  lib_options_def lib_request_def client_get_def client_post_def client_put_def client_delete_def
  client_head_def client_patch_def client_options_def

text \<open>Each function is \<open>request\<close> with its method.\<close>

lemma facade_requests:
  "lib_get L H decode b64 build u = lib_request L H decode b64 build ''GET'' u"
  "lib_post L H decode b64 build u = lib_request L H decode b64 build ''POST'' u"
  "lib_put L H decode b64 build u = lib_request L H decode b64 build ''PUT'' u"
  "lib_patch L H decode b64 build u = lib_request L H decode b64 build ''PATCH'' u"
  "lib_delete L H decode b64 build u = lib_request L H decode b64 build ''DELETE'' u"
  "lib_head L H decode b64 build u = lib_request L H decode b64 build ''HEAD'' u"
  "lib_options L H decode b64 build u = lib_request L H decode b64 build ''OPTIONS'' u"
  by (simp_all add: facade_defs)

end
