(* ===== verification/Idle_Task.thy ===== *)
theory Idle_Task
  imports Pool
begin

text \<open>
  The task that clears the pool at intervals (\<open>IdleTask::run\<close> in
  \<open>src/src/client/layer/client/pool.rs\<close>), and the pool together with it as the clock moves: no
  connection stays idle for longer than the timeout and one interval.
\<close>

section \<open>The task\<close>

text \<open>The task was handed to the executor, or it sleeps until a time.\<close>

datatype idle_task = Spawned (it_duration: nat) | Sleeping (it_duration: nat) (it_wake: nat)

text \<open>
  One turn of the task: it starts to sleep; or the pool's sender was dropped, and it ends
  (\<open>Some (None, _)\<close>); or its sleep is over, and it clears the pool, if that is still
  there, and sleeps again. The outer \<^term>\<open>None\<close> is the panic of \<open>clear_expired\<close>.
\<close>

fun idle_task_turn ::
  "('k, 'c, 'm) idle_ops \<Rightarrow> 'c poolable_ops \<Rightarrow> nat \<Rightarrow> bool \<Rightarrow> idle_task \<Rightarrow> ('k, 'c, 'm) pool_inner option \<Rightarrow>
   (idle_task option \<times> ('k, 'c, 'm) pool_inner option) option" where
  "idle_task_turn L P now dropped (Spawned dur) po = Some (Some (Sleeping dur (now + dur)), po)"
| "idle_task_turn L P now dropped (Sleeping dur wake) po =
     (if dropped then Some (None, po)
      else if now < wake then Some (Some (Sleeping dur wake), po)
      else
        (case po of
           None \<Rightarrow> Some (Some (Sleeping dur (now + dur)), None)
         | Some pi \<Rightarrow>
             map_option (\<lambda>pi'. (Some (Sleeping dur (now + dur)), Some pi')) (clear_expired L P now pi)))"

text \<open>What \<open>spawn_idle_interval\<close> handed to the executor while the pool went from \<open>pi\<close> to \<open>pi'\<close>.\<close>

definition task_spawned ::
  "('k, 'c, 'm) pool_inner \<Rightarrow> ('k, 'c, 'm) pool_inner \<Rightarrow> idle_task option \<Rightarrow> idle_task option" where
  "task_spawned pi pi' t =
     (if \<not> idle_interval pi \<and> idle_interval pi' then map_option Spawned (snd (spawn_idle_interval pi)) else t)"

section \<open>The pool as the clock moves\<close>

text \<open>
  A pool with its task and the clock. Time passes no further than the end of the task's
  sleep and not before a task just spawned has begun to sleep: the executor polls a task that is ready before the clock
  moves. Whether a connection is open is asked anew at every step.
\<close>

record ('k, 'c, 'm) timed_pool =
  tp_now :: nat
  tp_pool :: "('k, 'c, 'm) pool_inner"
  tp_task :: "idle_task option"

fun may_wait_until :: "nat \<Rightarrow> idle_task option \<Rightarrow> bool" where
  "may_wait_until now None = True"
| "may_wait_until now (Some (Spawned _)) = False"
| "may_wait_until now (Some (Sleeping _ wake)) = (now \<le> wake)"

inductive timed_step ::
  "('k, 'c, 'm) idle_ops \<Rightarrow> ('c, 'x) chan_ops \<Rightarrow> ('c \<Rightarrow> 'c reservation) \<Rightarrow> ('c \<Rightarrow> bool) \<Rightarrow>
   ('k, 'c, 'm) timed_pool \<Rightarrow> ('k, 'c, 'm) timed_pool \<Rightarrow> bool"
  for L C R S where
  time_passes:
    "tp_now s \<le> now \<Longrightarrow> may_wait_until now (tp_task s) \<Longrightarrow> timed_step L C R S s (s\<lparr>tp_now := now\<rparr>)"
| timed_put:
    "put L (ops_at open R S) C (tp_now s) x (tp_pool s) key v = Some (x', pi') \<Longrightarrow>
     timed_step L C R S s (s\<lparr>tp_pool := pi', tp_task := task_spawned (tp_pool s) pi' (tp_task s)\<rparr>)"
| timed_checkout:
    "checkout_idle L (ops_at open R S) C (tp_now s) x (Some (tp_pool s)) co = Some (x', Some pi', co', r) \<Longrightarrow>
     timed_step L C R S s (s\<lparr>tp_pool := pi'\<rparr>)"
| timed_connecting:
    "pool_connecting (Some (tp_pool s)) key v = (Some pi', cn) \<Longrightarrow> timed_step L C R S s (s\<lparr>tp_pool := pi'\<rparr>)"
| timed_connected:
    "connected C x (tp_pool s) key = (x', pi') \<Longrightarrow> timed_step L C R S s (s\<lparr>tp_pool := pi'\<rparr>)"
| timed_clean:
    "clean_waiters C x (tp_pool s) key = (x', pi') \<Longrightarrow> timed_step L C R S s (s\<lparr>tp_pool := pi'\<rparr>)"
| timed_turn:
    "tp_task s = Some t \<Longrightarrow>
     idle_task_turn L (ops_at open R S) (tp_now s) False t (Some (tp_pool s)) = Some (t', Some pi') \<Longrightarrow>
     timed_step L C R S s (s\<lparr>tp_pool := pi', tp_task := t'\<rparr>)"

definition timed_start :: "('k, 'c, 'm) idle_ops \<Rightarrow> nat \<Rightarrow> ('k, 'c, 'm) timed_pool \<Rightarrow> bool" where
  "timed_start L d s \<longleftrightarrow>
     (\<exists>cache n. lru_entries L cache = [] \<and> Some (tp_pool s) = pool_new cache (Some d) n False) \<and> tp_task s = None"

section \<open>Lemmas\<close>

text \<open>The idle entries of a pool.\<close>

definition idle_of :: "('k, 'c, 'm) idle_ops \<Rightarrow> ('k, 'c, 'm) pool_inner \<Rightarrow> 'c idle set" where
  "idle_of L pi = (\<Union>k. case lru_get L (idle_cache pi) k of Some es \<Rightarrow> set es | None \<Rightarrow> {})"

lemma idle_of_iff: "e \<in> idle_of L pi \<longleftrightarrow> (\<exists>k es. lru_get L (idle_cache pi) k = Some es \<and> e \<in> set es)"
  by (auto simp: idle_of_def split: option.splits)

lemma idle_of_empty: "idle_of L pi = {} \<longleftrightarrow> (\<forall>k es. lru_get L (idle_cache pi) k = Some es \<longrightarrow> es = [])"
  by (force simp: idle_of_def split: option.splits)

text \<open>An operation at a time: what it may leave idle, and what it keeps.\<close>

definition fresh_only :: "('k, 'c, 'm) idle_ops \<Rightarrow> nat \<Rightarrow> ('k, 'c, 'm) pool_inner \<Rightarrow> ('k, 'c, 'm) pool_inner \<Rightarrow> bool" where
  "fresh_only L now pi pi' \<longleftrightarrow>
     idle_of L pi' \<subseteq> idle_of L pi \<union> {e. id_idle_at e = now} \<and>
     (idle_of L pi = {} \<and> \<not> idle_interval pi' \<longrightarrow> idle_of L pi' = {}) \<and>
     (idle_interval pi \<longrightarrow> idle_interval pi') \<and>
     idle_timeout pi' = idle_timeout pi \<and> timer_is_empty pi' = timer_is_empty pi"

lemma fresh_only_same:
  "idle_cache pi' = idle_cache pi \<Longrightarrow> idle_interval pi' = idle_interval pi \<Longrightarrow> idle_timeout pi' = idle_timeout pi \<Longrightarrow>
   timer_is_empty pi' = timer_is_empty pi \<Longrightarrow>
   fresh_only L now pi pi' \<and> idle_interval pi' = idle_interval pi"
  by (auto simp: fresh_only_def idle_of_def)

lemma spawn_idle_interval_cases:
  "spawn_idle_interval pi = (pi', r) \<Longrightarrow>
   (pi' = pi \<and> r = None \<or> pi' = pi\<lparr>idle_interval := True\<rparr> \<and> \<not> idle_interval pi \<and>
      (\<exists>d. idle_timeout pi = Some d \<and> r = Some (max d 90)))"
  by (auto simp: spawn_idle_interval_def split: if_splits option.splits)

lemma spawn_sets:
  "idle_timeout pi = Some d \<Longrightarrow> 0 < d \<Longrightarrow> \<not> timer_is_empty pi \<Longrightarrow> idle_interval (fst (spawn_idle_interval pi))"
  by (simp add: spawn_idle_interval_def)

lemma put_fresh:
  assumes "lru_laws L" and "put L P C now x pi key v = Some (x', pi')"
    and "idle_timeout pi = Some d" and "0 < d" and "\<not> timer_is_empty pi"
  shows "fresh_only L now pi pi'"
proof -
  define m where "m = lru_get_or_insert L (idle_cache pi) key []"
  define list where "list = (case lru_get L m key of Some l \<Rightarrow> l | None \<Rightarrow> [])"
  have m: "lru_get L m k = Some es \<Longrightarrow> lru_get L (idle_cache pi) k = Some es \<or> es = []" for k es
    using lru_get_or_insert_cases[OF assms(1), of "idle_cache pi" key "[]" k es] by (auto simp: m_def)
  have sub: "e \<in> idle_of L pi" if "lru_get L m k = Some es" "e \<in> set es" for k es e
    using m[OF that(1)] that(2) by (auto simp: idle_of_iff)
  have listed: "e \<in> set list \<Longrightarrow> e \<in> idle_of L pi" for e
    using sub[of key "the (lru_get L m key)" e] by (cases "lru_get L m key") (simp_all add: list_def)
  have pushed: "e \<in> idle_of L pi \<or> id_idle_at e = now"
    if "lru_get L (lru_set L m key (list @ [\<lparr>id_value = u, id_idle_at = now\<rparr>])) k = Some es" "e \<in> set es" for u k es e
    using that sub[of k es e] listed[of e] by (auto simp: lru_lawsD(2)[OF assms(1)] split: if_splits)
  show ?thesis
  proof (cases "pl_can_share P v \<and> lru_get L (idle_cache pi) key \<noteq> None")
    case True
    with assms(2) show ?thesis by (simp add: put_def fresh_only_same[THEN conjunct1])
  next
    case False
    with assms(2) obtain wm v' where pw: "put_waiters P C x (waiters pi) key v = Some (x', wm, v')"
      by (auto simp: put_def Let_def split: option.splits if_splits)
    show ?thesis
    proof (cases v')
      case None
      with False pw assms(2) show ?thesis by (auto simp: put_def fresh_only_same[THEN conjunct1])
    next
      case (Some u)
      define pi1 where "pi1 = pi\<lparr>waiters := wm, idle_cache := lru_set L m key (list @ [\<lparr>id_value = u, id_idle_at = now\<rparr>])\<rparr>"
      have pi': "pi' = (if max_idle_per_host pi \<le> length list then pi\<lparr>waiters := wm, idle_cache := m\<rparr>
          else fst (spawn_idle_interval pi1))"
        using assms(2) unfolding put_def if_not_P[OF False] pw option.case prod.case Some Let_def
        by (cases "max_idle_per_host pi \<le> length list") (simp_all add: m_def list_def pi1_def)
      have spawned: "idle_interval (fst (spawn_idle_interval pi1))" by (rule spawn_sets[of _ d]) (simp_all add: pi1_def assms(3-5))
      show ?thesis
      proof (cases "max_idle_per_host pi \<le> length list")
        case True
        have "idle_of L (pi\<lparr>waiters := wm, idle_cache := m\<rparr>) \<subseteq> idle_of L pi"
          using sub unfolding idle_of_iff subset_iff by fastforce
        with True show ?thesis by (auto simp: pi' fresh_only_def)
      next
        case False
        define pi2 where "pi2 = fst (spawn_idle_interval pi1)"
        have "idle_of L pi2 \<subseteq> idle_of L pi \<union> {e. id_idle_at e = now}"
        proof
          fix e
          assume "e \<in> idle_of L pi2"
          then obtain k es where "lru_get L (idle_cache pi2) k = Some es" "e \<in> set es"
            unfolding idle_of_iff by blast
          then show "e \<in> idle_of L pi \<union> {e. id_idle_at e = now}"
            using pushed[of u k es e] by (simp add: pi2_def pi1_def)
        qed
        moreover have "timer_is_empty pi2 = timer_is_empty pi" "idle_timeout pi2 = idle_timeout pi"
          using spawn_idle_interval_cases[of pi1, OF prod.collapse[symmetric]] by (auto simp: pi2_def pi1_def)
        ultimately show ?thesis using spawned False by (simp add: pi' pi2_def[symmetric] fresh_only_def)
      qed
    qed
  qed
qed

lemma pop_from_top_fresh:
  "pop_from_top P exp now es = (es', r) \<Longrightarrow>
   set es' \<subseteq> set es \<union> {e. id_idle_at e = now} \<and> (es = [] \<longrightarrow> es' = [])"
  by (induction es) (auto split: if_splits reservation.splits)

lemma idle_take_fresh:
  assumes "lru_laws L" and "idle_take L P now pi key = (m, entry, nuke)"
  shows "fresh_only L now pi (pi\<lparr>idle_cache := (if nuke then lru_pop L m key else m)\<rparr>)"
proof (cases "lru_get L (idle_cache pi) key")
  case None
  with assms show ?thesis
    by (auto simp: idle_take_def Let_def fresh_only_def idle_of_iff idle_of_empty lru_lawsD(1,3)[OF assms(1)] split: if_splits)
next
  case (Some list)
  obtain list' r where ip: "idle_popper_pop P (idle_timeout pi) now list = (list', r)" by fastforce
  then obtain q where "pop_from_top P (idle_timeout pi) now (rev list) = (q, r)" "list' = rev q"
    by (cases "pop_from_top P (idle_timeout pi) now (rev list)") (auto simp: idle_popper_pop_def)
  then have list': "set list' \<subseteq> set list \<union> {e. id_idle_at e = now}" "list = [] \<longrightarrow> list' = []"
    using pop_from_top_fresh[of P "idle_timeout pi" now "rev list" q r] by auto
  have m: "m = lru_set L (lru_touch L (idle_cache pi) key) key list'"
    using assms(2) Some ip by (auto simp: idle_take_def Let_def split: option.splits)
  have kept: "lru_get L m k = (if k = key then Some list' else lru_get L (idle_cache pi) k)" for k
    using Some by (simp add: m lru_lawsD(1,2)[OF assms(1)])
  have "idle_of L pi = {} \<Longrightarrow> list' = []"
    using Some list'(2) by (auto simp: idle_of_empty)
  with list'(1) Some show ?thesis
    by (auto simp: fresh_only_def idle_of_iff idle_of_empty lru_lawsD(3)[OF assms(1)] kept split: if_splits)
qed

lemma checkout_fresh:
  assumes "lru_laws L" and "checkout_idle L P C now x (Some pi) co = Some (x', Some pi', co', r)"
  shows "fresh_only L now pi pi' \<and> idle_interval pi' = idle_interval pi"
proof -
  obtain m entry nuke where c: "idle_take L P now pi (co_key co) = (m, entry, nuke)" by (metis prod_cases3)
  define pi1 where "pi1 = pi\<lparr>idle_cache := (if nuke then lru_pop L m (co_key co) else m)\<rparr>"
  have "idle_cache pi' = idle_cache pi1" "idle_interval pi' = idle_interval pi1"
    "idle_timeout pi' = idle_timeout pi1" "timer_is_empty pi' = timer_is_empty pi1"
    using assms(2) unfolding checkout_idle_take c prod.case Let_def pi1_def[symmetric]
    by (auto split: option.splits if_splits prod.splits poll.splits)
  with idle_take_fresh[OF assms(1) c, folded pi1_def] show ?thesis
    by (simp add: fresh_only_def idle_of_def pi1_def)
qed

lemma connecting_fresh:
  assumes "pool_connecting (Some pi) key v = (Some pi', cn)"
  shows "fresh_only L now pi pi' \<and> idle_interval pi' = idle_interval pi"
  by (rule fresh_only_same) (use assms in \<open>auto simp: pool_connecting_def split: ver.splits if_splits\<close>)

lemma connected_fresh:
  assumes "connected C x pi key = (x', pi')"
  shows "fresh_only L now pi pi' \<and> idle_interval pi' = idle_interval pi"
  by (rule fresh_only_same) (use assms in \<open>auto simp: connected_def\<close>)

lemma clean_fresh:
  assumes "clean_waiters C x pi key = (x', pi')"
  shows "fresh_only L now pi pi' \<and> idle_interval pi' = idle_interval pi"
  by (rule fresh_only_same) (use assms in \<open>auto simp: clean_waiters_def Let_def split: option.splits\<close>)

section \<open>No connection stays idle for too long\<close>

definition age_inv :: "('k, 'c, 'm) idle_ops \<Rightarrow> nat \<Rightarrow> ('k, 'c, 'm) timed_pool \<Rightarrow> bool" where
  "age_inv L d s \<longleftrightarrow>
     idle_timeout (tp_pool s) = Some d \<and> \<not> timer_is_empty (tp_pool s) \<and>
     (case tp_task s of
        None \<Rightarrow> \<not> idle_interval (tp_pool s) \<and> idle_of L (tp_pool s) = {}
      | Some (Spawned dur) \<Rightarrow>
          idle_interval (tp_pool s) \<and> dur = max d 90 \<and> (\<forall>e \<in> idle_of L (tp_pool s). id_idle_at e = tp_now s)
      | Some (Sleeping dur wake) \<Rightarrow>
          idle_interval (tp_pool s) \<and> dur = max d 90 \<and> tp_now s \<le> wake \<and> wake \<le> tp_now s + dur \<and>
          (\<forall>e \<in> idle_of L (tp_pool s). wake \<le> id_idle_at e + d + dur))"

lemma age_inv_fresh:
  assumes "age_inv L d s" and "0 < d" and "fresh_only L (tp_now s) (tp_pool s) pi'"
    and "task_spawned (tp_pool s) pi' (tp_task s) = t'"
  shows "age_inv L d (s\<lparr>tp_pool := pi', tp_task := t'\<rparr>)"
proof (cases "tp_task s")
  case None
  with assms show ?thesis
    by (auto simp: age_inv_def fresh_only_def task_spawned_def spawn_idle_interval_def)
next
  case (Some t)
  with assms(1) have "idle_interval (tp_pool s)" by (auto simp: age_inv_def split: idle_task.splits)
  with assms(4) Some have "t' = Some t" by (simp add: task_spawned_def)
  with assms(1,3) Some show ?thesis
    by (cases t) (auto simp: age_inv_def fresh_only_def subset_iff)
qed

lemma age_inv_same:
  assumes "fresh_only L (tp_now s) (tp_pool s) pi' \<and> idle_interval pi' = idle_interval (tp_pool s)"
    and "age_inv L d s"
  shows "age_inv L d (s\<lparr>tp_pool := pi'\<rparr>)"
  using assms by (auto simp: age_inv_def fresh_only_def subset_iff split: option.splits idle_task.splits)

lemma age_inv_turn:
  assumes "lru_laws L" and inv: "age_inv L d s" and task: "tp_task s = Some t"
    and turn: "idle_task_turn L P (tp_now s) False t (Some (tp_pool s)) = Some (t', Some pi')"
  shows "age_inv L d (s\<lparr>tp_pool := pi', tp_task := t'\<rparr>)"
proof (cases t)
  case (Spawned dur)
  with inv task turn show ?thesis by (auto simp: age_inv_def)
next
  case (Sleeping dur wake)
  show ?thesis
  proof (cases "tp_now s < wake")
    case True
    with task turn Sleeping have "s\<lparr>tp_pool := pi', tp_task := t'\<rparr> = s" by simp
    with inv show ?thesis by simp
  next
    case False
    with turn Sleeping have clear: "clear_expired L P (tp_now s) (tp_pool s) = Some pi'"
      and t': "t' = Some (Sleeping dur (tp_now s + dur))" by auto
    have d: "idle_timeout (tp_pool s) = Some d" using inv by (simp add: age_inv_def)
    note kept = clear_expired_get[OF assms(1) d clear]
    have "tp_now s - id_idle_at e \<le> d" if "e \<in> idle_of L pi'" for e
      using that by (auto simp: idle_of_iff kept(2) Let_def keep_idle_def split: option.splits if_splits)
    with inv task Sleeping kept(1) show ?thesis
      unfolding t' by (force simp: age_inv_def)
  qed
qed

lemma age_inv_step:
  assumes "lru_laws L" and "0 < d" and "timed_step L C R S s s'" and "age_inv L d s"
  shows "age_inv L d s'"
  using assms(3,4)
proof (induction rule: timed_step.induct)
  case (time_passes s now)
  then show ?case by (auto simp: age_inv_def split: option.splits idle_task.splits)
next
  case (timed_put "open" s x key v x' pi')
  have "fresh_only L (tp_now s) (tp_pool s) pi'"
    by (rule put_fresh[OF assms(1) timed_put(1) _ assms(2)]) (use timed_put(2) in \<open>simp_all add: age_inv_def\<close>)
  from age_inv_fresh[OF timed_put(2) assms(2) this refl] show ?case .
next
  case (timed_checkout "open" s x co x' pi' co' r)
  from checkout_fresh[OF assms(1) this(1)] timed_checkout(2) show ?case by (rule age_inv_same)
next
  case (timed_connecting s key v pi' cn)
  from age_inv_same[OF connecting_fresh[OF this(1)] this(2)] show ?case .
next
  case (timed_connected x s key x' pi')
  from age_inv_same[OF connected_fresh[OF this(1)] this(2)] show ?case .
next
  case (timed_clean x s key x' pi')
  from age_inv_same[OF clean_fresh[OF this(1)] this(2)] show ?case .
next
  case (timed_turn s t "open" t' pi')
  then show ?case by (blast intro: age_inv_turn[OF assms(1)])
qed

lemma age_inv_start: "timed_start L d s \<Longrightarrow> age_inv L d s"
  by (auto simp: timed_start_def pool_new_def age_inv_def idle_of_def lru_get_def split: if_splits)

interpretation idle_clock: step_invariant "timed_start L d" "timed_step L C R S"
    "\<lambda>s. lru_laws L \<longrightarrow> 0 < d \<longrightarrow> age_inv L d s" for L C R S d
  by unfold_locales (blast intro: age_inv_start age_inv_step)+

text \<open>
  C33. The idle task bounds how long a connection stays idle: in every state reached by the pool's operations, the
  task's turns and the passing of time, an idle entry is no older than the pool's
  timeout and one interval of the task (the timeout, or 90 ms if that is more).
\<close>

theorem idle_age_bounded:
  assumes "lru_laws L" and "0 < d" and "timed_start L d s0" and "(timed_step L C R S)\<^sup>*\<^sup>* s0 s"
    and "lru_get L (idle_cache (tp_pool s)) k = Some es" and "e \<in> set es"
  shows "tp_now s - id_idle_at e \<le> d + max d 90"
proof -
  have "age_inv L d s" using idle_clock.reached[OF assms(4,3)] assms(1,2) by blast
  moreover have "e \<in> idle_of L (tp_pool s)" using assms(5,6) by (auto simp: idle_of_iff)
  ultimately show ?thesis by (auto simp: age_inv_def split: option.splits idle_task.splits)
qed

text \<open>The \<open>expect\<close> of \<open>clear_expired\<close> never fails in the task.\<close>

lemma idle_task_no_panic:
  assumes "lru_laws L" and "0 < d" and "timed_start L d s0" and "(timed_step L C R S)\<^sup>*\<^sup>* s0 s"
    and "tp_task s = Some t"
  shows "idle_task_turn L P (tp_now s) dropped t (Some (tp_pool s)) \<noteq> None"
proof -
  have "idle_timeout (tp_pool s) = Some d"
    using idle_clock.reached[OF assms(4,3)] assms(1,2) by (auto simp: age_inv_def)
  then show ?thesis by (cases t) (simp_all add: clear_expired_def Let_def)
qed

text \<open>A connection put into the pool at 5 and still there at 90.\<close>

definition sample_timed :: "nat \<Rightarrow> nat idle list \<Rightarrow> idle_task option \<Rightarrow> (nat, nat, (nat \<times> nat idle list) list) timed_pool" where
  "sample_timed now es t =
     \<lparr>tp_now = now,
      tp_pool = \<lparr>connecting = {}, idle_cache = (if es = [] then [] else [(3, es)]), max_idle_per_host = 1,
        waiters = [], idle_interval = (t \<noteq> None), timer_is_empty = False, idle_timeout = Some 30\<rparr>,
      tp_task = t\<rparr>"

lemma sample_timed_run:
  "(timed_step list_cache mem_chans Unique (\<lambda>c. False))\<^sup>*\<^sup>* (sample_timed 5 [] None)
     (sample_timed 90 [\<lparr>id_value = 7, id_idle_at = 5\<rparr>] (Some (Sleeping 90 95)))"
proof -
  let ?step = "timed_step list_cache mem_chans Unique (\<lambda>c. False)"
  let ?es = "[\<lparr>id_value = 7, id_idle_at = 5\<rparr>]"
  have "?step (sample_timed 5 [] None) (sample_timed 5 ?es (Some (Spawned 90)))"
    using timed_put[of list_cache "\<lambda>_. True" Unique "\<lambda>_. False" mem_chans "sample_timed 5 [] None" "(0, \<lambda>_. None, \<lambda>_. False)" 3 7]
    by (simp add: sample_timed_def put_def ops_at_def put_waiters_def list_cache_def lru_get_def Let_def
        spawn_idle_interval_def task_spawned_def)
  moreover have "?step (sample_timed 5 ?es (Some (Spawned 90))) (sample_timed 5 ?es (Some (Sleeping 90 95)))"
    using timed_turn[of "sample_timed 5 ?es (Some (Spawned 90))" "Spawned 90" list_cache "\<lambda>_. True" Unique "\<lambda>_. False" _ _ mem_chans]
    by (simp add: sample_timed_def)
  moreover have "?step (sample_timed 5 ?es (Some (Sleeping 90 95))) (sample_timed 90 ?es (Some (Sleeping 90 95)))"
    using time_passes[of "sample_timed 5 ?es (Some (Sleeping 90 95))" 90] by (simp add: sample_timed_def)
  ultimately show ?thesis by (meson converse_rtranclp_into_rtranclp rtranclp.rtrancl_refl)
qed

theorem idle_age_bounded_witness:
  "lru_get list_cache (idle_cache (tp_pool (sample_timed 90 [\<lparr>id_value = 7, id_idle_at = 5\<rparr>] (Some (Sleeping 90 95))))) 3 =
     Some [\<lparr>id_value = 7, id_idle_at = 5\<rparr>] \<and> (90::nat) - 5 \<le> 30 + max 30 90"
proof
  let ?s = "sample_timed 90 [\<lparr>id_value = 7, id_idle_at = 5\<rparr>] (Some (Sleeping 90 95))"
  show got: "lru_get list_cache (idle_cache (tp_pool ?s)) 3 = Some [\<lparr>id_value = 7, id_idle_at = 5\<rparr>]"
    by (simp add: sample_timed_def list_cache_get)
  have "timed_start list_cache 30 (sample_timed 5 [] None)"
    by (intro timed_start_def[THEN iffD2] conjI exI[of _ "[]"] exI[of _ 1])
      (simp_all add: sample_timed_def pool_new_def list_cache_def)
  from idle_age_bounded[OF list_cache_laws _ this sample_timed_run got]
  show "(90::nat) - 5 \<le> 30 + max 30 90" by (simp add: sample_timed_def)
qed

end
