(* ===== verification/Core_Codes.thy ===== *)
theory Core_Codes
  imports Core_Websocket
begin

text \<open>
  The error codes of the bindings' core (\<open>src/crates/tlsurl-core/src/lib.rs\<close>): the text of an
  error, parsing the options and listing the profiles, and that every operation of the core fails with a code of a
  fixed list.
\<close>

section \<open>Errors as text\<close>

text \<open>\<open>Display\<close> of the core's error.\<close>

definition error_text :: "core_error \<Rightarrow> string" where
  "error_text e = ce_code e @ '': '' @ ce_message e"

text \<open>\<open>from_json\<close> is \<open>serde_json::from_str\<close> at the type of the options, \<open>deflt\<close> their default.\<close>

definition parse_options :: "(string \<Rightarrow> 'o option) \<Rightarrow> 'o \<Rightarrow> string option \<Rightarrow> core_error + 'o" where
  "parse_options from_json deflt json =
     (case json of
        None \<Rightarrow> Inr deflt
      | Some j \<Rightarrow> ok_or (invalid_config ''invalid options: check field names and value types'') (from_json j))"

text \<open>\<open>to_name\<close> is the serialized name, when it is a string.\<close>

definition available_profiles :: "'pf list \<Rightarrow> ('pf \<Rightarrow> string option) \<Rightarrow> core_error + string list" where
  "available_profiles variants to_name =
     collect_results (map (\<lambda>p. ok_or (CoreError ''INTERNAL'' ''failed to serialize profile name'') (to_name p)) variants)"

section \<open>Every error has a code of the list\<close>

definition error_codes :: "string list" where
  "error_codes =
     [''TIMEOUT'', ''INVALID_REQUEST'', ''TLS'', ''DNS'', ''CONNECT'', ''REQUEST'', ''INVALID_CONFIG'',
      ''FILE_IO'', ''BODY_TOO_LARGE'', ''CANCELLED'', ''CLOSED'', ''INTERNAL'']"

definition coded_error :: "core_error \<Rightarrow> bool" where
  "coded_error e \<longleftrightarrow> ce_code e \<in> set error_codes"

definition coded :: "core_error + 'a \<Rightarrow> bool" where
  "coded r = (case r of Inl e \<Rightarrow> coded_error e | Inr _ \<Rightarrow> True)"

named_theorems coded_intros \<open>results whose error has a code of the list\<close>

lemma coded_simps [simp]: "coded (Inl e) = coded_error e" "coded (Inr a)"
  by (simp_all add: coded_def)

lemma coded_errors [simp]:
  "coded_error (invalid_config m)" "coded_error (invalid_request m)" "coded_error file_error"
  "coded_error cancelled" "coded_error ws_closed" "coded_error ws_timeout" "coded_error (core_of_error s e)"
  by (simp_all add: coded_error_def error_codes_def invalid_config_def invalid_request_def file_error_def
      cancelled_def ws_closed_def ws_timeout_def core_of_error_def core_code_def)

lemma coded_and_then [coded_intros]: "coded r \<Longrightarrow> (\<And>a. coded (f a)) \<Longrightarrow> coded (and_then r f)"
  by (cases r) simp_all

lemma coded_map_sum [coded_intros]: "coded r \<Longrightarrow> coded (map_sum id f r)"
  by (cases r) simp_all

lemma coded_ok_or [coded_intros]: "coded_error e \<Longrightarrow> coded (ok_or e x)"
  by (cases x) simp_all

lemma coded_core_try [coded_intros]: "coded (core_try K r)"
  by (cases r) (simp_all add: core_try_def map_err_def)

lemma coded_map_err [coded_intros]: "(\<And>e. coded_error (g e)) \<Longrightarrow> coded (map_err g r)"
  by (cases r) (simp_all add: map_err_def)

lemma coded_when_given [coded_intros]: "(\<And>a S. coded (f a S)) \<Longrightarrow> coded (when_given f x S)"
  by (cases x) (simp_all add: when_given_def)

lemma coded_try_option [coded_intros]: "(\<And>a. coded (f a)) \<Longrightarrow> coded (try_option f x)"
  by (cases x) (auto simp: try_option_def intro: coded_intros)

lemma coded_try_map [coded_intros]: "(\<And>a. coded (f a)) \<Longrightarrow> coded (try_map f xs)"
  by (induction xs) (auto intro!: coded_intros)

lemma coded_collect [coded_intros]: "(\<And>r. r \<in> set rs \<Longrightarrow> coded r) \<Longrightarrow> coded (collect_results rs)"
  by (induction rs) (auto intro!: coded_intros)

lemma coded_if [coded_intros]: "coded a \<Longrightarrow> coded b \<Longrightarrow> coded (if c then a else b)"
  by simp

lemma coded_option_case [coded_intros]: "coded a \<Longrightarrow> (\<And>x. coded (f x)) \<Longrightarrow> coded (case y of None \<Rightarrow> a | Some x \<Rightarrow> f x)"
  by (cases y) simp_all

lemma coded_prod_case [coded_intros]: "(\<And>x y. coded (f x y)) \<Longrightarrow> coded (case p of (x, y) \<Rightarrow> f x y)"
  by (cases p) simp

section \<open>The operations of the core\<close>

lemma coded_positive_ms [coded_intros]: "coded (positive_ms v)"
  by (simp add: positive_ms_def)

lemma coded_http_url [coded_intros]: "coded (http_url U v)"
  unfolding http_url_def by (intro coded_intros) simp_all

lemma coded_parse_options [coded_intros]: "coded (parse_options f d j)"
  unfolding parse_options_def by (intro coded_intros) simp_all

lemma coded_profiles [coded_intros]: "coded (available_profiles vs f)"
  unfolding available_profiles_def
  by (intro coded_intros) (auto intro!: coded_intros simp: coded_error_def error_codes_def)

lemma coded_random_tls [coded_intros]: "coded (random_tls_options en seed)"
  unfolding random_tls_options_def by (intro coded_intros) simp_all

lemma coded_tls_apply [coded_intros]: "coded (tls_config_apply cfg S base)"
  unfolding tls_config_apply_def core_version_def core_alpn_def Let_def by (intro coded_intros) simp_all

lemma coded_pseudo [coded_intros]: "coded (core_pseudo_order names)"
  unfolding core_pseudo_order_def core_pseudo_def by (intro coded_intros) simp_all

lemma coded_http2_apply [coded_intros]: "coded (http2_config_apply d cfg S base)"
  unfolding http2_config_apply_def Let_def by (intro coded_intros) simp_all

lemma coded_identity_apply [coded_intros]: "coded (identity_config_apply X s cfg S)"
  unfolding identity_config_apply_def by (intro coded_intros) simp_all

lemma coded_http_version [coded_intros]: "coded (core_http_version v S)"
  unfolding core_http_version_def by (intro coded_intros) simp_all

lemma coded_core_random [coded_intros]: "coded (core_random_tls K opts S)"
  unfolding core_random_tls_def by (intro coded_intros) simp_all

lemma coded_settings [coded_intros]:
  "coded (core_base_settings jar t opts S)" "coded (core_settings K opts pt ph S)"
  unfolding core_base_settings_def core_settings_def Let_def by (intro coded_intros; simp)+

lemma coded_profile: "core_profile K opts S = Some r \<Longrightarrow> coded r"
  by (auto simp: core_profile_def Let_def split: option.splits if_splits)

lemma coded_with_options:
  "core_with_options K build base jar t m opts = Some r \<Longrightarrow> coded r"
  unfolding core_with_options_def
  using coded_core_random[of K opts "client_no_proxy base"]
  by (auto split: if_splits sum.splits intro!: coded_intros dest: coded_profile)

lemma coded_file_body [coded_intros]: "coded (file_body F p)"
  unfolding file_body_def Let_def by (intro coded_intros) simp_all

lemma coded_part [coded_intros]: "coded (core_part K Q data d)"
  unfolding core_part_def Let_def by (intro coded_intros) simp_all

lemma coded_form [coded_intros]: "coded (core_form K Q data fm ds)"
  by (induction ds arbitrary: fm) (auto intro!: coded_intros)

lemma coded_body [coded_intros]: "coded (core_body K Q body opts B)"
  unfolding core_body_def Let_def by (intro coded_intros) simp_all

lemma coded_conflicts:
  "coded a \<Longrightarrow> coded (case auth_conflict opts hs of None \<Rightarrow> a | Some e \<Rightarrow> Inl e)"
  "coded a \<Longrightarrow> coded (case body_conflict opts hs b of None \<Rightarrow> a | Some e \<Rightarrow> Inl e)"
  by (auto simp: auth_conflict_def body_conflict_def)

lemma coded_prepare [coded_intros]: "coded (core_prepare K Q c m url hs body opts)"
  unfolding core_prepare_def Let_def by (intro coded_conflicts coded_intros) simp_all

lemma coded_stream [coded_intros]: "coded (core_stream_with_options K Q service c m url hs body opts)"
  unfolding core_stream_with_options_def by (intro coded_intros) simp_all

lemma coded_collect_body [coded_intros]: "coded (collect_body (core_of_error s) limit b cs)"
  by (induction "core_of_error s" limit b cs rule: collect_body.induct)
    (simp_all add: coded_error_def error_codes_def core_of_error_def core_code_def)

lemma coded_request [coded_intros]: "coded (core_request_with_options K Q service c m url hs body opts)"
  unfolding core_request_with_options_def by (intro coded_intros) simp_all

lemma coded_cookies [coded_intros]:
  "coded (core_set_cookie U N L now url value s)" "coded (core_cookies U N L now url s)"
  unfolding core_set_cookie_def core_cookies_def by (intro coded_intros; simp)+

lemma coded_websocket [coded_intros]: "coded (core_websocket K Q Z d service c url hs opts)"
  unfolding core_websocket_def core_ws_builder_def Let_def by (intro coded_intros) simp_all

section \<open>Streams and sockets\<close>

text \<open>A read in progress holds a result with a code, if it has one; every read then ends with one.\<close>

definition stream_coded :: "stream_response \<Rightarrow> bool" where
  "stream_coded st = (case sr_reader st of Some (Selected r s) \<Rightarrow> coded r | _ \<Rightarrow> True)"

lemma coded_stream_step:
  assumes "stream_step (core_of_error s) ev st = Some (st', r)" and "stream_coded st"
  shows "stream_coded st'" and "pred_option coded r"
  using assms
  by (cases ev; auto simp: stream_coded_def stream_close_def next_chunk_begin_def next_chunk_poll_def next_chunk_check_def Let_def
      split: if_splits option.splits reader.splits sum.splits list.splits)+

lemma coded_stream_run:
  "stream_run (core_of_error s) st es = Some (st', rs) \<Longrightarrow> stream_coded st \<Longrightarrow> stream_coded st'"
proof (induction es arbitrary: st rs)
  case (Cons e es)
  then show ?case
    using coded_stream_step(1) by (fastforce simp: stream_run_Cons)
qed simp

lemma stream_coded_new [simp]: "stream_coded (stream_new items)"
  by (simp add: stream_coded_def stream_new_def)

text \<open>
  How a wait of a socket's operation ends: the socket's own error is converted as every error of the
  library is (\<open>Error::from\<close>); otherwise the deadline passes or the socket is aborted.
\<close>

definition awaited :: "(std_error \<Rightarrow> string) \<Rightarrow> bool \<Rightarrow> (std_error + 'a) option \<Rightarrow> 'a wait" where
  "awaited show_error aborted r =
     (case r of
        Some r \<Rightarrow> Finished (map_err (core_of_error show_error) r)
      | None \<Rightarrow> if aborted then AbortedMeanwhile else Elapsed)"

text \<open>The wait of a close: sending the frame, then the messages that are read.\<close>

definition awaited_close ::
    "(std_error \<Rightarrow> string) \<Rightarrow> bool \<Rightarrow> (std_error + (std_error + ws_message) list) option \<Rightarrow>
     (core_error + ws_message) list wait" where
  "awaited_close show_error aborted r =
     awaited show_error aborted (map_option (map_sum id (map (map_err (core_of_error show_error)))) r)"

definition coded_wait :: "'a wait \<Rightarrow> bool" where
  "coded_wait w = (case w of Finished r \<Rightarrow> coded r | _ \<Rightarrow> True)"

lemma coded_awaited [simp]: "coded_wait (awaited s a r)" "coded_wait (awaited_close s a q)"
  by (auto simp: awaited_def awaited_close_def coded_wait_def split: option.splits intro: coded_intros)

lemma coded_ws_bounded: "coded_wait w \<Longrightarrow> coded (fst (ws_bounded st w))"
  by (cases w) (simp_all add: ws_bounded_def coded_wait_def)

lemma coded_with_half: "coded_wait w \<Longrightarrow> coded_wait (with_half h w)"
  by (cases w) (simp_all add: with_half_def coded_wait_def)

lemma coded_ws_operation:
  assumes "pred_option coded_wait w"
  shows "coded (fst (ws_operation st h w))"
proof -
  let ?w = "if cw_closing st then Finished (Inl ws_closed)
      else (case w of None \<Rightarrow> Finished (Inl ws_closed) | Some w \<Rightarrow> with_half h w)"
  obtain r st' where o: "ws_bounded st ?w = (r, st')" by fastforce
  have "coded_wait ?w"
    using assms coded_with_half by (auto simp: coded_wait_def [of "Finished _"] split: option.split)
  then have "coded r" using coded_ws_bounded [of ?w st] o by simp
  then show ?thesis by (simp add: ws_operation_def o Let_def)
qed

lemma coded_core_message: "coded (core_message kind data)"
  by (simp add: core_message_def)

lemma coded_ws_send: "pred_option coded_wait w \<Longrightarrow> coded (fst (core_ws_send kind data w st))"
  using coded_core_message [of kind data] coded_ws_operation [of w st "cw_tx st"]
  by (auto simp: core_ws_send_def split: sum.split prod.splits)

lemma coded_ws_recv:
  assumes "pred_option coded_wait w" and "coded_wait flush"
  shows "coded (fst (core_ws_recv w flush st))"
proof -
  obtain r st' where o: "ws_operation st (cw_rx st) w = (r, st')" by fastforce
  have "coded r" using coded_ws_operation [OF assms(1), of st "cw_rx st"] o by simp
  moreover have "coded (fst (ws_bounded st' (with_half (cw_tx st') flush)))"
    by (intro coded_ws_bounded coded_with_half assms(2))
  ultimately show ?thesis
    by (auto simp: core_ws_recv_def o split: sum.splits prod.splits if_splits)
qed

lemma coded_drain: "list_all coded ms \<Longrightarrow> coded (drain_until_close ms)"
  by (induction ms rule: drain_until_close.induct) simp_all

lemma coded_ws_close: "coded (fst (core_ws_close code reason (awaited_close s a q) st))"
proof -
  let ?st = "st\<lparr>cw_closing := True\<rparr>" and ?w = "with_half (cw_tx st \<and> cw_rx st) (awaited_close s a q)"
  obtain r st' where o: "ws_bounded ?st ?w = (r, st')" by fastforce
  have "coded r" using coded_ws_bounded [OF coded_with_half [OF coded_awaited(2)], of ?st _ s a q] o by (metis fst_conv)
  moreover have "list_all coded ms" if "r = Inr ms" for ms
    using that o
    by (auto simp: ws_bounded_def with_half_def awaited_close_def awaited_def list_all_iff map_err_def
        map_sum_Inr split: if_splits option.splits wait.splits sum.splits intro: coded_intros)
  ultimately have "coded (and_then r drain_until_close)"
    by (cases r) (auto intro: coded_drain)
  then show ?thesis
    by (simp add: core_ws_close_def o Let_def)
qed

end
