(* ===== verification/Bindings.thy ===== *)
theory Bindings
  imports Core_Codes Complex_Main
begin

text \<open>
  The language bindings (\<open>src/bindings/python/src/lib.rs\<close>, \<open>src/bindings/node/src/lib.rs\<close>): each call
  of the core as the host language sees it, with the error as a text, the two wrappers that read that
  text back (\<open>src/bindings/python/python/tlsurl/__init__.py\<close>, \<open>src/bindings/node/client.cjs\<close>), and the Node client
  with its pending calls. What PyO3, napi and \<open>serde_json\<close> do is a parameter or a value that is already converted.
\<close>

section \<open>Errors across the boundary\<close>

text \<open>\<open>py_error\<close>, a \<open>RuntimeError\<close> of the text.\<close>

definition py_error :: "core_error \<Rightarrow> string" where
  "py_error e = error_text e"

definition thrown :: "core_error + 'a \<Rightarrow> string + 'a" where
  "thrown r = map_err py_error r"

text \<open>\<open>Error::from_reason(error.to_string())\<close> of the Node module.\<close>

definition node_reason :: "core_error \<Rightarrow> string" where
  "node_reason e = error_text e"

definition node_thrown :: "core_error + 'a \<Rightarrow> string + 'a" where
  "node_thrown r = map_err node_reason r"

text \<open>Python's \<open>str.partition(": ")\<close>, and \<open>_error\<close> of the package.\<close>

fun partition_text :: "string \<Rightarrow> (string \<times> string) option" where
  "partition_text [] = None"
| "partition_text (c # cs) =
     (if prefix '': '' (c # cs) then Some ([], drop 2 (c # cs))
      else map_option (apfst (Cons c)) (partition_text cs))"

definition py_wrapper_error :: "string \<Rightarrow> core_error" where
  "py_wrapper_error text =
     (case partition_text text of
        Some (code, message) \<Rightarrow> CoreError code message
      | None \<Rightarrow> CoreError ''REQUEST'' text)"

text \<open>\<open>convertError\<close>: a match of \<open>/^([A-Z_]+): (.*)$/s\<close>.\<close>

definition code_char :: "char \<Rightarrow> bool" where
  "code_char c \<longleftrightarrow> (CHR ''A'' \<le> c \<and> c \<le> CHR ''Z'') \<or> c = CHR ''_''"

definition node_wrapper_error :: "string \<Rightarrow> core_error" where
  "node_wrapper_error text =
     (let code = takeWhile code_char text; rest = dropWhile code_char text
      in if code \<noteq> [] \<and> prefix '': '' rest then CoreError code (drop 2 rest)
         else CoreError ''REQUEST'' text)"

section \<open>The Python module\<close>

text \<open>The options' parsers.\<close>

record ('pf, 'pl) json_lib =
  js_client :: "string \<Rightarrow> ('pf, 'pl) core_options option"
  js_request :: "string \<Rightarrow> core_request_options option"
  js_ws :: "string \<Rightarrow> core_ws_options option"

definition ws_options_default :: core_ws_options where
  "ws_options_default =
     \<lparr>wo_protocols = [], wo_timeout_ms = None, wo_operation_timeout_ms = None, wo_max_message_bytes = None\<rparr>"

text \<open>
  The arguments were evaluated before \<open>with_options\<close> runs; the outer \<^term>\<open>None\<close> is that of the
  core. \<open>timeout_ms\<close> and \<open>max_response_bytes\<close> are \<^typ>\<open>u32\<close>: PyO3 refuses other integers.
\<close>

definition py_new where
  "py_new J K build base jar timeout_ms max_response_bytes options =
     (case parse_options (js_client J) core_options_default options of
        Inl e \<Rightarrow> Some (Inl (py_error e))
      | Inr opts \<Rightarrow> map_option thrown (core_with_options K build base jar timeout_ms max_response_bytes opts))"

definition py_set_cookie :: "'l url_ops \<Rightarrow> uri_lib \<Rightarrow> jar_lib \<Rightarrow> int \<Rightarrow> string \<Rightarrow> string \<Rightarrow> store \<Rightarrow> string + store" where
  "py_set_cookie U N L now url value s = thrown (core_set_cookie U N L now url value s)"

definition py_cookies :: "'l url_ops \<Rightarrow> uri_lib \<Rightarrow> jar_lib \<Rightarrow> int \<Rightarrow> string \<Rightarrow> store \<Rightarrow> string + (string \<times> string) list" where
  "py_cookies U N L now url s = thrown (core_cookies U N L now url s)"

definition py_clear_cookies :: "store \<Rightarrow> store" where
  "py_clear_cookies s = core_clear_cookies s"

definition given_headers :: "(string \<times> string) list option \<Rightarrow> (string \<times> string) list" where
  "given_headers headers = (case headers of Some h \<Rightarrow> h | None \<Rightarrow> [])"

text \<open>A blocking call runs the future to its end.\<close>

definition py_request where
  "py_request J K Q service c mth url headers body options =
     and_then (map_err py_error (parse_options (js_request J) request_options_default options)) (\<lambda>opts.
       thrown (core_request_with_options K Q service c mth url (given_headers headers) body opts))"

definition py_stream where
  "py_stream J K Q service c mth url headers body options =
     and_then (map_err py_error (parse_options (js_request J) request_options_default options)) (\<lambda>opts.
       map_sum py_error (\<lambda>(head, items). (head, stream_new items))
         (core_stream_with_options K Q service c mth url (given_headers headers) body opts))"

definition py_websocket where
  "py_websocket J K Q Z deflt service c url headers options =
     and_then (map_err py_error (parse_options (js_ws J) ws_options_default (Some options))) (\<lambda>opts.
       thrown (core_websocket K Q Z deflt service c url headers opts))"

text \<open>
  An asynchronous call: what it raises at once, or a future with a copy of the client; \<open>()\<close>
  is awaiting it.
\<close>

definition py_request_async where
  "py_request_async J K Q service c mth url headers body options =
     and_then (map_err py_error (parse_options (js_request J) request_options_default options)) (\<lambda>opts.
       Inr (\<lambda>_ :: unit. thrown
         (core_request_with_options K Q service c mth url (given_headers headers) body opts)))"

definition py_stream_async where
  "py_stream_async J K Q service c mth url headers body options =
     and_then (map_err py_error (parse_options (js_request J) request_options_default options)) (\<lambda>opts.
       Inr (\<lambda>_ :: unit. map_sum py_error (\<lambda>(head, items). (head, stream_new items))
         (core_stream_with_options K Q service c mth url (given_headers headers) body opts)))"

definition py_websocket_async where
  "py_websocket_async J K Q Z deflt service c url headers options =
     and_then (map_err py_error (parse_options (js_ws J) ws_options_default (Some options))) (\<lambda>opts.
       Inr (\<lambda>_ :: unit. thrown (core_websocket K Q Z deflt service c url headers opts)))"

definition py_profiles :: "'pf list \<Rightarrow> ('pf \<Rightarrow> string option) \<Rightarrow> string + string list" where
  "py_profiles variants to_name = thrown (available_profiles variants to_name)"

text \<open>
  Reading a stream, as its steps, and the socket's operations; their asynchronous variants run the same future.
\<close>

definition py_next_chunk where
  "py_next_chunk err ev st = map_option (apsnd (map_option thrown)) (stream_step err ev st)"

definition py_ws_send :: "string \<Rightarrow> string \<Rightarrow> unit wait option \<Rightarrow> core_ws \<Rightarrow> (string + unit) \<times> core_ws \<times> ws_message option" where
  "py_ws_send kind data w st = apfst thrown (core_ws_send kind data w st)"

definition py_ws_recv where
  "py_ws_recv w flush st = apfst thrown (core_ws_recv w flush st)"

definition py_ws_close where
  "py_ws_close code reason w st = apfst thrown (core_ws_close code reason w st)"

section \<open>The Node module\<close>

text \<open>A JavaScript number: \<open>f64\<close>, whose finite values are rational.\<close>

datatype js_number = NaN | Infinity bool | Finite rat

text \<open>\<open>is_finite\<close> is tested first; \<open>fract\<close> is zero exactly on the integers.\<close>

definition config_integer :: "js_number option \<Rightarrow> u32 \<Rightarrow> string + u32" where
  "config_integer value deflt =
     (case (case value of Some v \<Rightarrow> v | None \<Rightarrow> Finite (of_nat (unat deflt))) of
        Finite x \<Rightarrow>
          if x < 1 \<or> x > 4294967295 \<or> x - of_int \<lfloor>x\<rfloor> \<noteq> 0
          then Inl ''INVALID_CONFIG: expected a positive 32-bit integer''
          else Inr (word_of_int \<lfloor>x\<rfloor>)
      | _ \<Rightarrow> Inl ''INVALID_CONFIG: expected a positive 32-bit integer'')"

text \<open>The client of a closed object is gone.\<close>

type_synonym 'cl node_client = "'cl core_client option"

definition node_live :: "'cl node_client \<Rightarrow> string + 'cl core_client" where
  "node_live c = ok_or ''CLOSED: client is closed'' c"

definition node_close :: "'cl node_client \<Rightarrow> 'cl node_client" where
  "node_close c = None"

definition node_new where
  "node_new J K build base jar timeout_ms max_response_bytes options =
     (case and_then (config_integer timeout_ms 30000) (\<lambda>t.
           and_then (config_integer max_response_bytes 16777216) (\<lambda>m.
           and_then (node_thrown (parse_options (js_client J) core_options_default options)) (\<lambda>opts. Inr (t, m, opts)))) of
        Inl e \<Rightarrow> Some (Inl e)
      | Inr (t, m, opts) \<Rightarrow>
          map_option (map_sum node_reason Some) (core_with_options K build base jar t m opts))"

definition node_set_cookie where
  "node_set_cookie U N L now c url value s =
     and_then (node_live c) (\<lambda>_. node_thrown (core_set_cookie U N L now url value s))"

definition node_cookies where
  "node_cookies U N L now c url s = and_then (node_live c) (\<lambda>_. node_thrown (core_cookies U N L now url s))"

definition node_clear_cookies where
  "node_clear_cookies c s = and_then (node_live c) (\<lambda>_. Inr (core_clear_cookies s))"

text \<open>
  A pending call: the future that a call spawned, with its copies of the client, the arguments and the
  token, which is named by a number.
\<close>

datatype 'cl node_job =
    RequestJob (job_client: "'cl core_client") string string "(string \<times> string) list" "string option"
      core_request_options (job_token: nat)
  | StreamJob (job_client: "'cl core_client") string string "(string \<times> string) list" "string option"
      core_request_options (job_token: nat)
  | SocketJob (job_client: "'cl core_client") string "(string \<times> string) list" core_ws_options (job_token: nat)

text \<open>The part of a call that runs before the promise is there.\<close>

datatype node_call =
    RequestCall string string "(string \<times> string) list option" "string option" "string option" nat
  | StreamCall string string "(string \<times> string) list option" "string option" "string option" nat
  | SocketCall string "(string \<times> string) list" string nat

definition node_request ::
    "('pf, 'pl) json_lib \<Rightarrow> 'cl node_client \<Rightarrow> string \<Rightarrow> string \<Rightarrow> (string \<times> string) list option \<Rightarrow>
     string option \<Rightarrow> string option \<Rightarrow> nat \<Rightarrow> string + 'cl node_job" where
  "node_request J c mth url headers body options token =
     and_then (node_thrown (parse_options (js_request J) request_options_default options)) (\<lambda>opts.
     and_then (node_live c) (\<lambda>client.
       Inr (RequestJob client mth url (given_headers headers) body opts token)))"

definition node_stream ::
    "('pf, 'pl) json_lib \<Rightarrow> 'cl node_client \<Rightarrow> string \<Rightarrow> string \<Rightarrow> (string \<times> string) list option \<Rightarrow>
     string option \<Rightarrow> string option \<Rightarrow> nat \<Rightarrow> string + 'cl node_job" where
  "node_stream J c mth url headers body options token =
     and_then (node_thrown (parse_options (js_request J) request_options_default options)) (\<lambda>opts.
     and_then (node_live c) (\<lambda>client.
       Inr (StreamJob client mth url (given_headers headers) body opts token)))"

definition node_websocket ::
    "('pf, 'pl) json_lib \<Rightarrow> 'cl node_client \<Rightarrow> string \<Rightarrow> (string \<times> string) list \<Rightarrow> string \<Rightarrow> nat \<Rightarrow>
     string + 'cl node_job" where
  "node_websocket J c url headers options token =
     and_then (node_thrown (parse_options (js_ws J) ws_options_default (Some options))) (\<lambda>opts.
     and_then (node_live c) (\<lambda>client. Inr (SocketJob client url headers opts token)))"

fun node_start :: "('pf, 'pl) json_lib \<Rightarrow> 'cl node_client \<Rightarrow> node_call \<Rightarrow> string + 'cl node_job" where
  "node_start J c (RequestCall mth url headers body options token) = node_request J c mth url headers body options token"
| "node_start J c (StreamCall mth url headers body options token) = node_stream J c mth url headers body options token"
| "node_start J c (SocketCall url headers options token) = node_websocket J c url headers options token"

text \<open>What a promise is resolved with.\<close>

datatype node_value = ResponseValue core_response | StreamValue core_response stream_response | SocketValue core_ws

text \<open>What the futures need besides their arguments; \<open>run\<close> is the future's result once it is ready.\<close>

fun node_run where
  "node_run K Q Z deflt service ws_service (RequestJob c mth url headers body opts token) =
     map_sum id ResponseValue (core_request_with_options K Q service c mth url headers body opts)"
| "node_run K Q Z deflt service ws_service (StreamJob c mth url headers body opts token) =
     map_sum id (\<lambda>(head, items). StreamValue head (stream_new items))
       (core_stream_with_options K Q service c mth url headers body opts)"
| "node_run K Q Z deflt service ws_service (SocketJob c url headers opts token) =
     map_sum id SocketValue (core_websocket K Q Z deflt ws_service c url headers opts)"

text \<open>One poll of a job; \<open>run\<close> is its future, \<open>ready\<close> whether that has its result.\<close>

definition node_poll :: "('cl node_job \<Rightarrow> core_error + node_value) \<Rightarrow> bool \<Rightarrow> bool \<Rightarrow> 'cl node_job \<Rightarrow> (string + node_value) poll" where
  "node_poll run is_cancelled ready job =
     (case cancellable is_cancelled (if ready then Ready (run job) else Pending) of
        Ready r \<Rightarrow> Ready (node_thrown r)
      | Pending \<Rightarrow> Pending)"

definition node_profiles :: "'pf list \<Rightarrow> ('pf \<Rightarrow> string option) \<Rightarrow> string + string list" where
  "node_profiles variants to_name = node_thrown (available_profiles variants to_name)"

definition node_next_chunk where
  "node_next_chunk err ev st = map_option (apsnd (map_option node_thrown)) (stream_step err ev st)"

definition node_ws_send :: "string \<Rightarrow> string \<Rightarrow> unit wait option \<Rightarrow> core_ws \<Rightarrow> (string + unit) \<times> core_ws \<times> ws_message option" where
  "node_ws_send kind data w st = apfst node_thrown (core_ws_send kind data w st)"

definition node_ws_recv where
  "node_ws_recv w flush st = apfst node_thrown (core_ws_recv w flush st)"

definition node_ws_close where
  "node_ws_close code reason w st = apfst node_thrown (core_ws_close code reason w st)"

section \<open>The Node client and its calls\<close>

record 'cl node_sys =
  ny_client :: "'cl node_client"
  ny_cancelled :: "nat \<Rightarrow> bool"
  ny_jobs :: "('cl node_job \<times> (string + node_value) option) list"

inductive node_step ::
  "('pf, 'pl) json_lib \<Rightarrow> ('cl node_job \<Rightarrow> core_error + node_value) \<Rightarrow> 'cl node_sys \<Rightarrow> 'cl node_sys \<Rightarrow> bool"
  for J run where
  node_call:
    "node_start J (ny_client s) call = Inr job \<Longrightarrow>
     node_step J run s (s\<lparr>ny_jobs := ny_jobs s @ [(job, None)]\<rparr>)"
| node_close_client: "node_step J run s (s\<lparr>ny_client := node_close (ny_client s)\<rparr>)"
| node_cancel: "node_step J run s (s\<lparr>ny_cancelled := (ny_cancelled s)(token := True)\<rparr>)"
| node_progress:
    "i < length (ny_jobs s) \<Longrightarrow> ny_jobs s ! i = (job, None) \<Longrightarrow>
     node_poll run (ny_cancelled s (job_token job)) ready job = Ready r \<Longrightarrow>
     node_step J run s (s\<lparr>ny_jobs := (ny_jobs s)[i := (job, Some r)]\<rparr>)"

definition node_opened :: "'cl core_client \<Rightarrow> 'cl node_sys" where
  "node_opened c = \<lparr>ny_client = Some c, ny_cancelled = (\<lambda>_. False), ny_jobs = []\<rparr>"

text \<open>What a promise of a job may have been resolved with.\<close>

definition job_ok :: "('cl node_job \<Rightarrow> core_error + node_value) \<Rightarrow> 'cl core_client \<Rightarrow> (nat \<Rightarrow> bool) \<Rightarrow>
    'cl node_job \<times> (string + node_value) option \<Rightarrow> bool" where
  "job_ok run c gone j =
     (job_client (fst j) = c \<and>
      (snd j = None \<or> snd j = Some (node_thrown (run (fst j))) \<or>
       gone (job_token (fst j)) \<and> snd j = Some (node_thrown (Inl cancelled))))"

definition node_inv :: "('cl node_job \<Rightarrow> core_error + node_value) \<Rightarrow> 'cl core_client \<Rightarrow> 'cl node_sys \<Rightarrow> bool" where
  "node_inv run c s \<longleftrightarrow>
     (ny_client s = Some c \<or> ny_client s = None) \<and> list_all (job_ok run c (ny_cancelled s)) (ny_jobs s)"

section \<open>Lemmas\<close>

lemma node_start_client: "node_start J c call = Inr job \<Longrightarrow> c = Some (job_client job)"
  by (cases call)
    (auto simp: node_request_def node_stream_def node_websocket_def node_live_def and_then_Inr_iff ok_or_Inr_iff)

lemma node_poll_ready:
  "node_poll run is_cancelled ready job = Ready r \<Longrightarrow>
   r = (if is_cancelled then node_thrown (Inl cancelled) else node_thrown (run job))"
  by (auto simp: node_poll_def cancellable_def split: poll.splits if_splits)

lemma job_ok_cancel: "job_ok run c gone j \<Longrightarrow> job_ok run c (gone(t := True)) j"
  by (auto simp: job_ok_def)

lemma node_inv_step: "node_step J run s s' \<Longrightarrow> node_inv run c s \<Longrightarrow> node_inv run c s'"
proof (induction rule: node_step.induct)
  case (node_call s call job)
  then show ?case using node_start_client[OF node_call.hyps] by (auto simp: node_inv_def job_ok_def)
next
  case (node_cancel s token)
  then show ?case by (auto simp: node_inv_def list_all_iff job_ok_cancel)
next
  case (node_progress i s job ready r)
  then have "job_ok run c (ny_cancelled s) (job, Some r)"
    using node_poll_ready[OF node_progress.hyps(3)]
    by (auto simp: node_inv_def list_all_length job_ok_def split: if_splits)
  with node_progress show ?case by (auto simp: node_inv_def list_all_length nth_list_update)
qed (simp_all add: node_inv_def node_close_def)

interpretation node_calls: step_invariant "\<lambda>s. s = node_opened c" "node_step J run" "node_inv run c" for J run c
proof
  show "node_inv run c s" if "s = node_opened c" for s
    using that by (simp add: node_inv_def node_opened_def)
qed (rule node_inv_step)

text \<open>The jobs there are stay, a settled one as it is; one whose token was cancelled ends as cancelled.\<close>

definition jobs_follow :: "'cl node_sys \<Rightarrow> 'cl node_sys \<Rightarrow> bool" where
  "jobs_follow s s' \<longleftrightarrow>
     length (ny_jobs s) \<le> length (ny_jobs s') \<and>
     (ny_client s = None \<longrightarrow> ny_client s' = None \<and> length (ny_jobs s') = length (ny_jobs s)) \<and>
     (\<forall>t. ny_cancelled s t \<longrightarrow> ny_cancelled s' t) \<and>
     (\<forall>i < length (ny_jobs s). case ny_jobs s ! i of
        (job, Some r) \<Rightarrow> ny_jobs s' ! i = (job, Some r)
      | (job, None) \<Rightarrow> fst (ny_jobs s' ! i) = job \<and>
          (ny_cancelled s (job_token job) \<longrightarrow> snd (ny_jobs s' ! i) \<in> {None, Some (node_thrown (Inl cancelled))}))"

lemma jobs_follow_step: "node_step J run a b \<Longrightarrow> jobs_follow s a \<Longrightarrow> jobs_follow s b"
proof (induction rule: node_step.induct)
  case (node_call a call job)
  then show ?case using node_start_client[OF node_call.hyps]
    by (auto simp: jobs_follow_def nth_append split: prod.splits option.splits)
next
  case (node_progress i a job ready r)
  then show ?case using node_poll_ready[OF node_progress.hyps(3)]
    by (auto simp: jobs_follow_def nth_list_update split: prod.splits option.splits if_splits)
qed (auto simp: jobs_follow_def node_close_def split: prod.splits option.splits)

lemma jobs_follow_refl: "jobs_follow s s"
  by (auto simp: jobs_follow_def split: prod.splits option.splits)

lemma jobs_follow_run: "(node_step J run)\<^sup>*\<^sup>* s s' \<Longrightarrow> jobs_follow s s'"
  by (induction rule: rtranclp_induct) (blast intro: jobs_follow_step jobs_follow_refl)+

text \<open>What the wrappers make of a call's result.\<close>

abbreviation py_back :: "string + 'a \<Rightarrow> core_error + 'a" where
  "py_back \<equiv> map_err py_wrapper_error"

abbreviation node_back :: "string + 'a \<Rightarrow> core_error + 'a" where
  "node_back \<equiv> map_err node_wrapper_error"

lemma wrappers_recover:
  assumes "coded_error e"
  shows "py_wrapper_error (error_text e) = e" and "node_wrapper_error (error_text e) = e"
proof -
  obtain code message where e: "e = CoreError code message" by (cases e)
  have "code \<in> set error_codes" using assms by (simp add: e coded_error_def)
  then show "py_wrapper_error (error_text e) = e" and "node_wrapper_error (error_text e) = e"
    unfolding e error_codes_def
    by (auto simp: error_text_def py_wrapper_error_def node_wrapper_error_def code_char_def)
qed

lemma map_err_simps:
  "map_err g (Inl e) = Inl (g e)" "map_err g (Inr a) = Inr a"
  by (simp_all add: map_err_def)

lemma map_err_and_then: "map_err g (and_then r f) = and_then (map_err g r) (\<lambda>a. map_err g (f a))"
  by (cases r) (simp_all add: map_err_simps)

lemma and_then_map: "and_then r (\<lambda>a. Inr (f a)) = map_sum id f r"
  by (cases r) simp_all

lemma and_then_assoc: "and_then (and_then r f) g = and_then r (\<lambda>a. and_then (f a) g)"
  by (cases r) simp_all

lemma map_err_map_sum: "map_err g (map_sum id f r) = map_sum id f (map_err g r)"
  by (cases r) (simp_all add: map_err_simps)

lemma py_back_sum: "coded r \<Longrightarrow> py_back (map_sum py_error g r) = map_sum id g r"
  by (cases r) (simp_all add: map_err_simps py_error_def wrappers_recover)

lemma node_back_sum: "coded r \<Longrightarrow> node_back (map_sum node_reason g r) = map_sum id g r"
  by (cases r) (simp_all add: map_err_simps node_reason_def wrappers_recover)

lemma py_back_thrown: "coded r \<Longrightarrow> py_back (thrown r) = r" and py_back_map_err: "coded r \<Longrightarrow> py_back (map_err py_error r) = r"
  by (cases r; simp add: thrown_def map_err_simps py_error_def wrappers_recover)+

lemma node_back_thrown: "coded r \<Longrightarrow> node_back (node_thrown r) = r"
  by (cases r) (simp_all add: node_thrown_def map_err_simps node_reason_def wrappers_recover)

lemma back_pair:
  "coded (fst x) \<Longrightarrow> apfst py_back (apfst thrown x) = x"
  "coded (fst x) \<Longrightarrow> apfst node_back (apfst node_thrown x) = x"
  by (cases x; simp add: py_back_thrown node_back_thrown)+

lemma back_step:
  assumes "pred_option coded (Option.bind x snd)"
  shows "map_option (apsnd (map_option py_back)) (map_option (apsnd (map_option thrown)) x) = x"
    and "map_option (apsnd (map_option node_back)) (map_option (apsnd (map_option node_thrown)) x) = x"
proof -
  have "x = None \<or> (\<exists>a. x = Some (a, None)) \<or> (\<exists>a r. x = Some (a, Some r) \<and> coded r)"
    using assms by (cases x; cases "snd (the x)") auto
  then show "map_option (apsnd (map_option py_back)) (map_option (apsnd (map_option thrown)) x) = x"
    and "map_option (apsnd (map_option node_back)) (map_option (apsnd (map_option node_thrown)) x) = x"
    by (elim disjE exE conjE; simp add: py_back_thrown node_back_thrown)+
qed

lemma coded_step_result:
  assumes "stream_run (core_of_error s) (stream_new items) es = Some (st, rs)"
  shows "pred_option coded (Option.bind (stream_step (core_of_error s) ev st) snd)"
  using coded_stream_step(2) [of s ev st] coded_stream_run [OF assms]
  by (cases "stream_step (core_of_error s) ev st") fastforce+

text \<open>The errors that the Node module makes itself.\<close>

definition node_closed :: core_error where
  "node_closed = CoreError ''CLOSED'' ''client is closed''"

lemma node_back_live: "node_back (node_live c) = ok_or node_closed c"
  using wrappers_recover(2) [of node_closed]
  by (cases c) (simp_all add: node_live_def map_err_simps node_closed_def coded_error_def error_codes_def error_text_def)

lemma node_back_integer:
  "node_back (config_integer v d) =
     (case config_integer v d of
        Inl t \<Rightarrow> Inl (invalid_config ''expected a positive 32-bit integer'') | Inr n \<Rightarrow> Inr n)"
  using wrappers_recover(2) [of "invalid_config ''expected a positive 32-bit integer''"]
  by (auto simp: config_integer_def map_err_simps error_text_def invalid_config_def coded_error_def error_codes_def
      split: js_number.splits)

lemma coded_node_run: "coded (node_run K Q Z deflt service ws_service job)"
  by (cases job) (auto intro!: coded_intros)

section \<open>Properties\<close>

text \<open>
  \<open>config_integer\<close> takes exactly the numbers that are integers from 1 to the largest
  \<^typ>\<open>u32\<close>, and gives that integer; NaN, the infinities, fractions, zero, negative and larger numbers
  are refused.
\<close>

lemma config_integer_exact:
  "config_integer (Some v) deflt = Inr n \<longleftrightarrow> n \<noteq> 0 \<and> v = Finite (of_nat (unat n))"
proof
  assume "config_integer (Some v) deflt = Inr n"
  then obtain x where v: "v = Finite x" and x: "1 \<le> x" "x \<le> 4294967295" "x = of_int \<lfloor>x\<rfloor>"
    and n: "n = word_of_int \<lfloor>x\<rfloor>"
    by (auto simp: config_integer_def not_less split: js_number.splits if_splits)
  have fl: "1 \<le> \<lfloor>x\<rfloor>" "\<lfloor>x\<rfloor> \<le> 4294967295"
    using x(1,2) by (simp_all add: le_floor_iff floor_le_iff)
  then have "uint n = \<lfloor>x\<rfloor>" by (simp add: n uint_word_of_int take_bit_int_eq_self)
  then have "int (unat n) = \<lfloor>x\<rfloor>" by simp
  then have "x = of_nat (unat n)" using x(3) by (metis of_int_of_nat_eq)
  moreover have "n \<noteq> 0"
  proof
    assume "n = 0"
    then have "uint n = 0" by simp
    with \<open>uint n = \<lfloor>x\<rfloor>\<close> fl(1) show False by linarith
  qed
  ultimately show "n \<noteq> 0 \<and> v = Finite (of_nat (unat n))" by (simp add: v)
next
  assume r: "n \<noteq> 0 \<and> v = Finite (of_nat (unat n))"
  have "1 \<le> unat n" using r by (simp add: Suc_le_eq unat_gt_0)
  moreover have "unat n < 2 ^ LENGTH(32)" by (rule unsigned_less)
  then have "unat n \<le> 4294967295" by simp
  ultimately have range: "(1::rat) \<le> of_nat (unat n)" "(of_nat (unat n) :: rat) \<le> 4294967295"
    by (metis of_nat_1 of_nat_le_iff, metis of_nat_le_iff of_nat_numeral)
  define x :: rat where "x = of_nat (unat n)"
  have fl: "\<lfloor>x\<rfloor> = int (unat n)" unfolding x_def by (rule floor_of_nat)
  have "of_int \<lfloor>x\<rfloor> = x" unfolding fl by (simp only: x_def of_int_of_nat_eq)
  moreover have "word_of_int \<lfloor>x\<rfloor> = n" unfolding fl by simp
  moreover have "\<not> x < 1" "\<not> 4294967295 < x" using range unfolding x_def[symmetric] not_less .
  ultimately have "config_integer (Some (Finite x)) deflt = Inr n"
    unfolding config_integer_def option.case js_number.case by (simp only: diff_self simp_thms if_False)
  then show "config_integer (Some v) deflt = Inr n" using r unfolding x_def by (simp only: simp_thms)
qed

text \<open>
  C34. An error of the core crosses into Python as a text and is read back there as it was: what the package's
  \<open>_error\<close> makes of the result of each call of the module, blocking, awaited, a read of a stream
  or an operation of a socket, is the result of the core's operation itself, the same value or an
  error of the same code and message, even when the message contains colons. (The package
  exports \<open>available_profiles\<close> without that wrapper; its text can be read back the same way.)
\<close>

theorem python_errors_recovered:
  assumes "stream_run (core_of_error show_error) (stream_new items) es = Some (st, rs)"
  shows
    "map_option py_back (py_new J K build base jar timeout_ms max_bytes options) =
       (case parse_options (js_client J) core_options_default options of
          Inl e \<Rightarrow> Some (Inl e)
        | Inr opts \<Rightarrow> core_with_options K build base jar timeout_ms max_bytes opts) \<and>
     py_back (py_set_cookie U N L now curl cvalue s) = core_set_cookie U N L now curl cvalue s \<and>
     py_back (py_cookies U N L now curl s) = core_cookies U N L now curl s \<and>
     py_back (py_profiles variants to_name) = available_profiles variants to_name \<and>
     (let opts = parse_options (js_request J) request_options_default roptions;
          request = core_request_with_options K Q service c mth url (given_headers headers) body;
          stream = (\<lambda>q. map_sum id (\<lambda>(head, items). (head, stream_new items))
                     (core_stream_with_options K Q service c mth url (given_headers headers) body q))
      in py_back (py_request J K Q service c mth url headers body roptions) = and_then opts request \<and>
         and_then (py_back (py_request_async J K Q service c mth url headers body roptions)) (\<lambda>f. py_back (f ())) =
           and_then opts request \<and>
         py_back (py_stream J K Q service c mth url headers body roptions) = and_then opts stream \<and>
         and_then (py_back (py_stream_async J K Q service c mth url headers body roptions)) (\<lambda>f. py_back (f ())) =
           and_then opts stream) \<and>
     (let opts = parse_options (js_ws J) ws_options_default (Some woptions);
          socket = core_websocket K Q Z deflt ws_service c wurl hs
      in py_back (py_websocket J K Q Z deflt ws_service c wurl hs woptions) = and_then opts socket \<and>
         and_then (py_back (py_websocket_async J K Q Z deflt ws_service c wurl hs woptions)) (\<lambda>f. py_back (f ())) =
           and_then opts socket) \<and>
     map_option (apsnd (map_option py_back)) (py_next_chunk (core_of_error show_error) ev st) =
       stream_step (core_of_error show_error) ev st \<and>
     (let sent = map_option (awaited show_error aborted) send_result
      in apfst py_back (py_ws_send kind data sent ws) = core_ws_send kind data sent ws) \<and>
     (let got = map_option (awaited show_error aborted) recv_result; flushed = awaited show_error aborted flush_result
      in apfst py_back (py_ws_recv got flushed ws) = core_ws_recv got flushed ws) \<and>
     (let ended = awaited_close show_error aborted close_result
      in apfst py_back (py_ws_close code reason ended ws) = core_ws_close code reason ended ws)"
proof -
  have new: "map_option py_back (map_option thrown (core_with_options K build base jar timeout_ms max_bytes opts)) =
      core_with_options K build base jar timeout_ms max_bytes opts" for opts
    using coded_with_options [of K build base jar timeout_ms max_bytes opts]
    by (cases "core_with_options K build base jar timeout_ms max_bytes opts") (simp_all add: py_back_thrown)
  have made: "map_option py_back (py_new J K build base jar timeout_ms max_bytes options) =
      (case parse_options (js_client J) core_options_default options of
         Inl e \<Rightarrow> Some (Inl e)
       | Inr opts \<Rightarrow> core_with_options K build base jar timeout_ms max_bytes opts)"
    using py_back_map_err [OF coded_parse_options [of "js_client J" core_options_default options]]
    by (cases "parse_options (js_client J) core_options_default options") (simp_all add: py_new_def new map_err_simps)
  have waits: "pred_option coded_wait (map_option (awaited show_error aborted) r)" for r :: "(std_error + 'z) option option"
    by (cases r) simp_all
  show ?thesis
    unfolding Let_def py_next_chunk_def py_ws_send_def py_ws_recv_def py_ws_close_def back_step(1) [OF coded_step_result [OF assms]]
      back_pair(1) [OF coded_ws_send [OF waits]] back_pair(1) [OF coded_ws_recv [OF waits coded_awaited(1)]]
      back_pair(1) [OF coded_ws_close] made
    by (simp add: py_set_cookie_def py_cookies_def py_profiles_def py_request_def py_request_async_def
        py_stream_def py_stream_async_def py_websocket_def py_websocket_async_def map_err_and_then py_back_map_err
        py_back_thrown py_back_sum coded_intros map_err_simps and_then_assoc)
qed

text \<open>A read that fails after the stream was opened: the text has a colon of its own.\<close>

abbreviation failed_read :: stream_response where
  "failed_read \<equiv>
     \<lparr>sr_body = None, sr_cancelled = False, sr_reader = Some (Selected (Inl (CoreError ''REQUEST'' ''a: b'')) [])\<rparr>"

theorem python_errors_recovered_witness:
  "py_next_chunk (core_of_error (\<lambda>_. ''a: b'')) Check failed_read =
     Some (failed_read\<lparr>sr_reader := None\<rparr>, Some (Inl ''REQUEST: a: b'')) \<and>
   map_option (apsnd (map_option py_back)) (py_next_chunk (core_of_error (\<lambda>_. ''a: b'')) Check failed_read) =
     Some (failed_read\<lparr>sr_reader := None\<rparr>, Some (Inl (CoreError ''REQUEST'' ''a: b'')))"
proof
  have "core_code (EOther ''x'' None) = ''REQUEST''" by code_simp
  then have run: "stream_run (core_of_error (\<lambda>_. ''a: b'')) (stream_new [Inl (EOther ''x'' None)]) [Begin, Poll True] =
      Some (failed_read, [])"
    by (simp add: stream_run.simps(2) stream_new_def next_chunk_begin_def next_chunk_poll_def core_of_error_def)
  have step: "stream_step (core_of_error (\<lambda>_. ''a: b'')) Check failed_read =
      Some (failed_read\<lparr>sr_reader := None\<rparr>, Some (Inl (CoreError ''REQUEST'' ''a: b'')))"
    by (simp add: next_chunk_check_def)
  show "py_next_chunk (core_of_error (\<lambda>_. ''a: b'')) Check failed_read =
      Some (failed_read\<lparr>sr_reader := None\<rparr>, Some (Inl ''REQUEST: a: b''))"
    by (simp add: py_next_chunk_def next_chunk_check_def thrown_def map_err_simps py_error_def error_text_def)
  show "map_option (apsnd (map_option py_back)) (py_next_chunk (core_of_error (\<lambda>_. ''a: b'')) Check failed_read) =
      Some (failed_read\<lparr>sr_reader := None\<rparr>, Some (Inl (CoreError ''REQUEST'' ''a: b'')))"
    using python_errors_recovered [OF run, where ev = Check, THEN conjunct2, THEN conjunct2, THEN conjunct2, THEN conjunct2,
        THEN conjunct2, THEN conjunct2, THEN conjunct1] step by simp
qed

definition sample_json :: "(nat, nat) json_lib" where
  "sample_json = \<lparr>js_client = (\<lambda>_. None), js_request = (\<lambda>_. Some request_options_default), js_ws = (\<lambda>_. Some ws_options_default)\<rparr>"

text \<open>
  C35. An error crosses into JavaScript as a text and \<open>convertError\<close> reads it back as it was: what it
  makes of each call of the Node module is the result of the core's operation itself, or the same error code
  and message. That covers the parts of a call before and in its promise, cancelled or not, reads of a
  stream, the operations of a socket, and the errors that the module makes itself: a
  closed client is \<open>CLOSED\<close>, a number that is no positive 32-bit integer is \<open>INVALID_CONFIG\<close>. (The package
  exports \<open>availableProfiles\<close> without that wrapper; its text can be read back the same way.)
\<close>

theorem node_errors_recovered:
  assumes "stream_run (core_of_error show_error) (stream_new items) es = Some (st, rs)"
  shows
    "(let checked = (\<lambda>v d. case config_integer v d of
          Inl t \<Rightarrow> Inl (invalid_config ''expected a positive 32-bit integer'') | Inr n \<Rightarrow> Inr n)
      in map_option node_back (node_new J K build base jar timeout max_body options) =
        (case and_then (checked timeout 30000) (\<lambda>t. and_then (checked max_body 16777216) (\<lambda>m.
            and_then (parse_options (js_client J) core_options_default options) (\<lambda>opts. Inr (t, m, opts)))) of
           Inl e \<Rightarrow> Some (Inl e)
         | Inr (t, m, opts) \<Rightarrow> map_option (map_sum id Some) (core_with_options K build base jar t m opts))) \<and>
     node_back (node_set_cookie U N L now nc curl cvalue s) =
       and_then (ok_or node_closed nc) (\<lambda>_. core_set_cookie U N L now curl cvalue s) \<and>
     node_back (node_cookies U N L now nc curl s) =
       and_then (ok_or node_closed nc) (\<lambda>_. core_cookies U N L now curl s) \<and>
     node_back (node_clear_cookies nc s) = map_sum id (\<lambda>_. core_clear_cookies s) (ok_or node_closed nc) \<and>
     node_back (node_profiles variants to_name) = available_profiles variants to_name \<and>
     (let opts = parse_options (js_request J) request_options_default roptions
      in node_back (node_request J nc mth url headers body roptions token) =
           and_then opts (\<lambda>q. map_sum id (\<lambda>c. RequestJob c mth url (given_headers headers) body q token) (ok_or node_closed nc)) \<and>
         node_back (node_stream J nc mth url headers body roptions token) =
           and_then opts (\<lambda>q. map_sum id (\<lambda>c. StreamJob c mth url (given_headers headers) body q token) (ok_or node_closed nc))) \<and>
     node_back (node_websocket J nc wurl hs woptions token) =
       and_then (parse_options (js_ws J) ws_options_default (Some woptions))
         (\<lambda>q. map_sum id (\<lambda>c. SocketJob c wurl hs q token) (ok_or node_closed nc)) \<and>
     (let run = node_run K Q Z deflt service ws_service
      in (case node_poll run is_cancelled ready job of Ready r \<Rightarrow> Ready (node_back r) | Pending \<Rightarrow> Pending) =
         cancellable is_cancelled (if ready then Ready (run job) else Pending)) \<and>
     map_option (apsnd (map_option node_back)) (node_next_chunk (core_of_error show_error) ev st) =
       stream_step (core_of_error show_error) ev st \<and>
     (let sent = map_option (awaited show_error aborted) send_result
      in apfst node_back (node_ws_send kind data sent ws) = core_ws_send kind data sent ws) \<and>
     (let got = map_option (awaited show_error aborted) recv_result; flushed = awaited show_error aborted flush_result
      in apfst node_back (node_ws_recv got flushed ws) = core_ws_recv got flushed ws) \<and>
     (let ended = awaited_close show_error aborted close_result
      in apfst node_back (node_ws_close code reason ended ws) = core_ws_close code reason ended ws)"
proof -
  have new: "map_option node_back (map_option (map_sum node_reason Some) (core_with_options K build base jar t m opts)) =
      map_option (map_sum id Some) (core_with_options K build base jar t m opts)" for t m opts
    using coded_with_options [of K build base jar t m opts]
    by (cases "core_with_options K build base jar t m opts") (simp_all add: node_back_sum)
  have waits: "pred_option coded_wait (map_option (awaited show_error aborted) r)" for r :: "(std_error + 'z) option option"
    by (cases r) simp_all
  have poll: "(case node_poll run is_cancelled ready job of Ready r \<Rightarrow> Ready (node_back r) | Pending \<Rightarrow> Pending) =
      cancellable is_cancelled (if ready then Ready (run job) else Pending)" if "coded (run job)" for run
    using that by (simp add: node_poll_def cancellable_def node_back_thrown)
  show ?thesis
    unfolding Let_def node_next_chunk_def node_ws_send_def node_ws_recv_def node_ws_close_def
      back_step(2) [OF coded_step_result [OF assms]] back_pair(2) [OF coded_ws_send [OF waits]]
      back_pair(2) [OF coded_ws_recv [OF waits coded_awaited(1)]] back_pair(2) [OF coded_ws_close]
      poll [OF coded_node_run] node_back_integer [symmetric]
  proof (intro conjI refl)
    show "map_option node_back (node_new J K build base jar timeout max_body options) =
      (case and_then (node_back (config_integer timeout 30000)) (\<lambda>t. and_then (node_back (config_integer max_body 16777216)) (\<lambda>m.
          and_then (parse_options (js_client J) core_options_default options) (\<lambda>opts. Inr (t, m, opts)))) of
         Inl e \<Rightarrow> Some (Inl e)
       | Inr (t, m, opts) \<Rightarrow> map_option (map_sum id Some) (core_with_options K build base jar t m opts))"
      using node_back_thrown [OF coded_parse_options [of "js_client J" core_options_default options]]
      by (cases "config_integer timeout 30000"; cases "config_integer max_body 16777216";
          cases "parse_options (js_client J) core_options_default options")
        (simp_all add: node_new_def new map_err_simps node_thrown_def)
  qed (simp_all add: node_set_cookie_def node_cookies_def node_clear_cookies_def node_profiles_def node_request_def
      node_stream_def node_websocket_def map_err_and_then node_back_thrown node_back_live coded_intros map_err_simps
      and_then_map map_err_map_sum)
qed

theorem node_errors_recovered_witness:
  "node_websocket sample_json (None :: nat node_client) ''wss://a'' [] ''{}'' 0 = Inl ''CLOSED: client is closed'' \<and>
   node_back (node_websocket sample_json (None :: nat node_client) ''wss://a'' [] ''{}'' 0) = Inl node_closed"
proof
  show "node_websocket sample_json (None :: nat node_client) ''wss://a'' [] ''{}'' 0 = Inl ''CLOSED: client is closed''"
    by (simp add: sample_json_def node_websocket_def parse_options_def node_thrown_def map_err_def node_live_def)
  have run: "stream_run (core_of_error (\<lambda>_. [])) (stream_new []) [] = Some (stream_new [], [])" by simp
  show "node_back (node_websocket sample_json (None :: nat node_client) ''wss://a'' [] ''{}'' 0) = Inl node_closed"
    using node_errors_recovered [OF run, where J = sample_json and nc = None, THEN conjunct2, THEN conjunct2, THEN conjunct2,
        THEN conjunct2, THEN conjunct2, THEN conjunct2, THEN conjunct1]
    by (simp add: sample_json_def parse_options_def)
qed


text \<open>
  Two sockets are asked for; the token of the second is cancelled, the client is closed, and the
  second future is polled.
\<close>

abbreviation sample_node_client :: "nat core_client" where
  "sample_node_client \<equiv> \<lparr>kc_inner = 4, kc_max_response_bytes = 9, kc_jar = 0\<rparr>"

definition sample_job :: "nat \<Rightarrow> nat node_job" where
  "sample_job token = SocketJob sample_node_client ''wss://a'' [] ws_options_default token"

abbreviation sample_node :: "nat node_client \<Rightarrow> (nat \<Rightarrow> bool) \<Rightarrow> (nat node_job \<times> (string + node_value) option) list \<Rightarrow> nat node_sys" where
  "sample_node c gone jobs \<equiv> \<lparr>ny_client = c, ny_cancelled = gone, ny_jobs = jobs\<rparr>"

abbreviation sample_node_step :: "nat node_sys \<Rightarrow> nat node_sys \<Rightarrow> bool" where
  "sample_node_step \<equiv> node_step sample_json (\<lambda>_. Inl ws_timeout)"

lemma sample_node_call:
  "sample_node_step (sample_node (Some sample_node_client) gone jobs)
     (sample_node (Some sample_node_client) gone (jobs @ [(sample_job i, None)]))"
  using node_call[of sample_json "sample_node (Some sample_node_client) gone jobs" "SocketCall ''wss://a'' [] ''{}'' i"]
  by (simp add: sample_json_def node_websocket_def parse_options_def node_thrown_def map_err_def node_live_def sample_job_def)

lemma sample_node_before:
  "sample_node_step\<^sup>*\<^sup>* (node_opened sample_node_client)
     (sample_node (Some sample_node_client) ((\<lambda>_. False)(1 := True)) [(sample_job 0, None), (sample_job 1, None)])"
proof -
  note a = sample_node_call[of "\<lambda>_. False" "[]" 0] sample_node_call[of "\<lambda>_. False" "[(sample_job 0, None)]" 1]
  note b = node_cancel[of sample_json "\<lambda>_. Inl ws_timeout"
      "sample_node (Some sample_node_client) (\<lambda>_. False) [(sample_job 0, None), (sample_job 1, None)]" 1]
  from a b show ?thesis
    unfolding node_opened_def append_Nil append_Cons node_sys.simps
    by (meson converse_rtranclp_into_rtranclp rtranclp.rtrancl_refl)
qed

lemma sample_node_after:
  "sample_node_step\<^sup>*\<^sup>*
     (sample_node (Some sample_node_client) ((\<lambda>_. False)(1 := True)) [(sample_job 0, None), (sample_job 1, None)])
     (sample_node None ((\<lambda>_. False)(1 := True))
       [(sample_job 0, None), (sample_job 1, Some (Inl ''CANCELLED: operation cancelled''))])"
proof -
  let ?g = "(\<lambda>_. False)(1 := True) :: nat \<Rightarrow> bool"
  note a = node_close_client[of sample_json "\<lambda>_. Inl ws_timeout"
      "sample_node (Some sample_node_client) ?g [(sample_job 0, None), (sample_job 1, None)]"]
  have "node_poll (\<lambda>_. Inl ws_timeout) True True (sample_job 1) = Ready (Inl ''CANCELLED: operation cancelled'')"
    by (simp add: node_poll_def cancellable_def node_thrown_def map_err_def node_reason_def error_text_def cancelled_def)
  then have b: "sample_node_step (sample_node None ?g [(sample_job 0, None), (sample_job 1, None)])
      (sample_node None ?g [(sample_job 0, None), (sample_job 1, Some (Inl ''CANCELLED: operation cancelled''))])"
    using node_progress[of 1 "sample_node None ?g [(sample_job 0, None), (sample_job 1, None)]" "sample_job 1"
        "\<lambda>_. Inl ws_timeout" True _ sample_json]
    by (simp add: sample_job_def)
  from a b show ?thesis
    unfolding node_close_def node_sys.simps
    by (meson converse_rtranclp_into_rtranclp rtranclp.rtrancl_refl)
qed


end
