(* ===== verification/Error_Text.thy ===== *)
theory Error_Text
  imports Core_Codes
begin

text \<open>
  The texts of the errors: \<open>Display\<close> of the library's error (\<open>src/src/error.rs\<close>) and of the errors it
  wraps (\<open>client/layer/client.rs\<close>, \<open>client/layer/client/pool.rs\<close>, \<open>conn/net/tcp.rs\<close>,
  \<open>conn/proxy/tunnel.rs\<close>, \<open>conn/proxy/socks.rs\<close>, \<open>redirect.rs\<close>). The texts of other crates'
  errors are a parameter.
\<close>

record text_lib =
  tx_uri :: "uri \<Rightarrow> string"
  tx_status :: "nat \<Rightarrow> string"
  tx_io :: "io_kind \<Rightarrow> string"
  tx_proto :: "bool \<Rightarrow> std_error option \<Rightarrow> string"
  tx_elapsed :: string
  tx_other :: "string \<Rightarrow> std_error option \<Rightarrow> string"

fun client_kind_name :: "client_error_kind \<Rightarrow> string" where
  "client_kind_name Canceled = ''Canceled''"
| "client_kind_name ChannelClosed = ''ChannelClosed''"
| "client_kind_name Connect = ''Connect''"
| "client_kind_name ProxyConnect = ''ProxyConnect''"
| "client_kind_name UserUnsupportedRequestMethod = ''UserUnsupportedRequestMethod''"
| "client_kind_name UserUnsupportedVersion = ''UserUnsupportedVersion''"
| "client_kind_name UserAbsoluteUriRequired = ''UserAbsoluteUriRequired''"
| "client_kind_name SendRequest = ''SendRequest''"

definition client_error_text :: "client_error_kind \<Rightarrow> string" where
  "client_error_text k = ''client error ('' @ client_kind_name k @ '')''"

definition pool_error_text :: "pool_error \<Rightarrow> string" where
  "pool_error_text e =
     (case e of
        PoolDisabled \<Rightarrow> ''pool is disabled''
      | CheckedOutClosedValue \<Rightarrow> ''checked out connection was closed''
      | CheckoutNoLongerWanted \<Rightarrow> ''request was canceled'')"

definition too_many_redirects_text :: string where
  "too_many_redirects_text = ''too many redirects''"

fun tunnel_error_text :: "tunnel_kind \<Rightarrow> string" where
  "tunnel_error_text k = ''tunnel error: '' @
     (case k of
        TunnelMissingHost \<Rightarrow> ''missing destination host''
      | ProxyAuthRequired \<Rightarrow> ''proxy authorization required''
      | TunnelParse \<Rightarrow> ''invalid proxy response''
      | TunnelUnexpectedEof \<Rightarrow> ''unexpected end of file''
      | TunnelUnsuccessful \<Rightarrow> ''unsuccessful''
      | TunnelConnectFailed \<Rightarrow> ''failed to create underlying connection''
      | TunnelIo \<Rightarrow> ''io error establishing tunnel'')"

text \<open>\<open>inner\<close> is the text of the error it holds, where it has one.\<close>

fun socks_error_text :: "socks_kind \<Rightarrow> string \<Rightarrow> string" where
  "socks_error_text k inner = ''SOCKS error: '' @
     (case k of
        SocksConnectFailed \<Rightarrow> ''failed to create underlying connection: '' @ inner
      | SocksHandshake \<Rightarrow> ''error during SOCKS handshake: '' @ inner
      | SocksIo \<Rightarrow> ''io error during SOCKS handshake: '' @ inner
      | SocksUtf8 \<Rightarrow> ''invalid UTF-8 during SOCKS authentication: '' @ inner
      | DnsResolveFailure \<Rightarrow> ''failed to resolve DNS for SOCKS target: '' @ inner
      | DnsFailure \<Rightarrow> ''could not resolve to acceptable address type''
      | SocksMissingHost \<Rightarrow> ''missing destination host'')"

text \<open>The library's error up to its URI; a client status is 400 to 499.\<close>

definition status_text :: "text_lib \<Rightarrow> nat \<Rightarrow> string option \<Rightarrow> string" where
  "status_text X code reason =
     (let prefix = (if 400 \<le> code \<and> code < 500 then ''HTTP status client error'' else ''HTTP status server error'')
      in prefix @ '' ('' @
         (case reason of
            Some r \<Rightarrow> decimal code @ '' '' @ escape r
          | None \<Rightarrow> tx_status X code) @ '')'')"

fun kind_text :: "text_lib \<Rightarrow> error_kind \<Rightarrow> string" where
  "kind_text X KBuilder = ''builder error''"
| "kind_text X KRequestError = ''error sending request''"
| "kind_text X KBody = ''request or response body error''"
| "kind_text X KTls = ''tls error''"
| "kind_text X KDecode = ''error decoding response body''"
| "kind_text X KRedirect = ''error following redirect''"
| "kind_text X KUpgrade = ''error upgrading connection''"
| "kind_text X KWebSocket = ''websocket error''"
| "kind_text X (KStatus code reason) = status_text X code reason"

fun err_display :: "text_lib \<Rightarrow> std_error \<Rightarrow> string" where
  "err_display X (EWreq k s u) =
     kind_text X k @
     (case u of Some u \<Rightarrow> '' for uri ('' @ tx_uri X u @ '')'' | None \<Rightarrow> []) @
     (case s of Some e \<Rightarrow> '': '' @ err_display X e | None \<Rightarrow> [])"
| "err_display X (EClient k s) = client_error_text k"
| "err_display X (EProxyConnect e) = ''proxy connect error: '' @ err_display X e"
| "err_display X (EDns e) = ''dns resolution error: '' @ err_display X e"
| "err_display X (ETunnel k s) = tunnel_error_text k"
| "err_display X (ESocks k s) =
     socks_error_text k (case s of Some e \<Rightarrow> err_display X e | None \<Rightarrow> [])"
| "err_display X (ETcp msg s) = msg"
| "err_display X (EIo k (Some e)) = err_display X e"
| "err_display X (EIo k None) = tx_io X k"
| "err_display X (EProto t s) = tx_proto X t s"
| "err_display X ETimedOut = ''operation timed out''"
| "err_display X EBadScheme = ''URI scheme is not allowed''"
| "err_display X EElapsed = tx_elapsed X"
| "err_display X (EOther n s) = tx_other X n s"

section \<open>Properties\<close>

definition printable :: "string \<Rightarrow> bool" where
  "printable s \<longleftrightarrow> list_all (\<lambda>c. 32 \<le> (of_char c :: nat) \<and> (of_char c :: nat) < 127) s"

lemma printable_simps:
  "printable []" "printable (c # s) \<longleftrightarrow> 32 \<le> (of_char c :: nat) \<and> (of_char c :: nat) < 127 \<and> printable s"
  "printable (s @ t) \<longleftrightarrow> printable s \<and> printable t"
  by (simp_all add: printable_def)

lemma printable_decimal: "printable (decimal n)"
proof (induction n rule: decimal.induct)
  case (1 n)
  have "n mod 10 < 10" by simp
  with 1 show ?case
    by (subst decimal.simps) (simp add: printable_simps of_char_of take_bit_nat_eq_self del: mod_less_divisor)
qed

lemma printable_escape: "printable (escape s)"
proof -
  have "printable (escape_byte c)" for c
  proof -
    let ?n = "of_char c :: nat"
    have hi: "?n div 16 < 16" by (rule less_mult_imp_div_less) simp
    have lo: "?n mod 16 < 16" by simp
    have hex: "n < 16 \<Longrightarrow> printable [hex_digit n]" for n
      by (simp add: printable_simps of_char_hex_digit)
    show ?thesis
      using hex[OF hi] hex[OF lo] by (auto simp: escape_byte_def Let_def printable_simps)
  qed
  then show ?thesis by (induction s) (simp_all add: escape_def printable_simps)
qed

text \<open>
  What a failed connection discloses: the text the bindings report for a request that got no connection is one of
  two fixed texts, whatever the cause was and however deep. It names no URI, no address and no proxy
  credentials, and tells only whether the proxy failed.
\<close>

lemma connection_message:
  "ce_message (core_of_error (err_display X)
     (pending_error u (box_client_error (client_error_new is_proxy_error Connect c :: ('h, std_error) client_error)))) =
   (if is_proxy_error c then ''error sending request: client error (ProxyConnect)''
    else ''error sending request: client error (Connect)'')"
  by (simp add: core_of_error_def pending_error_def err_request_def error_new_def client_error_new_def client_error_text_def)

text \<open>
  A server cannot write into the log of the client through its reason phrase: the text of a status error without a URI
  is printable ASCII on one line for every reason phrase, and the phrase can be read back from it.
\<close>

lemma status_text_safe:
  "err_display X (EWreq (KStatus code (Some reason)) None None) =
     (if 400 \<le> code \<and> code < 500 then ''HTTP status client error ('' else ''HTTP status server error ('') @
       decimal code @ '' '' @ escape reason @ '')'' \<and>
   printable (err_display X (EWreq (KStatus code (Some reason)) None None)) \<and>
   unescape (escape reason) = reason"
  by (simp add: status_text_def Let_def printable_simps unescape_escape printable_decimal printable_escape)

end
