(* ===== verification/Timed_Body.thy ===== *)
theory Timed_Body
  imports Core_Codes Response Timeouts
begin

text \<open>
  Timeouts of a body as the caller sees them: the bodies of the timeout layer
  (\<open>src/src/client/layer/timeout/body.rs\<close>) under the reader of a response
  (\<open>src/src/client/response.rs\<close>) and the code the bindings give the error
  (\<open>src/crates/tlsurl-core/src/lib.rs\<close>).
\<close>

section \<open>The errors of the layer\<close>

text \<open>\<open>Error::body(TimedOut)\<close>, \<open>Error::request(TimedOut)\<close> and \<open>Error::decode\<close>.\<close>

fun std_of_timeout :: "std_error timeout_error \<Rightarrow> std_error" where
  "std_of_timeout (Inner e) = e"
| "std_of_timeout (DecodeError t) = err_decode (std_of_timeout t)"
| "std_of_timeout BodyTimedOut = err_body ETimedOut"
| "std_of_timeout RequestTimedOut = err_request ETimedOut"

lemma timeout_is_timeout: "is_timeout t \<Longrightarrow> err_is_timeout (std_of_timeout t)"
  by (induction t) (simp_all add: err_is_timeout_def err_decode_def err_body_def err_request_def error_new_def)

lemma timeout_kind: "is_timeout t \<Longrightarrow> err_kind (std_of_timeout t) \<noteq> None"
  by (cases t) (simp_all add: err_decode_def err_body_def err_request_def error_new_def)

lemma timeout_code: "err_is_timeout e \<Longrightarrow> core_code e = ''TIMEOUT''"
  by (simp add: core_code_def)

lemma timeout_with_uri: "err_is_timeout e \<Longrightarrow> err_is_timeout (with_uri e u)"
  by (cases e) (simp_all add: err_is_timeout_def sources.simps)

section \<open>Reading under a timeout\<close>

text \<open>
  The polls of one reading: what the inner body answers, and when. The reading is still open after them, or it
  came to the end, or to an error.
\<close>

type_synonym body_poll = "(std_error timeout_error + frame) option poll \<times> instant"

datatype reading = StillOpen "unit timeout_body" | AtEnd | Failed "std_error timeout_error"

fun timed_run :: "unit timeout_body \<Rightarrow> body_poll list \<Rightarrow> frame list \<times> reading" where
  "timed_run tb [] = ([], StillOpen tb)"
| "timed_run tb ((answer, now) # ps) =
     (case poll_frame (\<lambda>b. (b, answer)) now tb of
        (tb', Pending) \<Rightarrow> timed_run tb' ps
      | (tb', Ready None) \<Rightarrow> ([], AtEnd)
      | (tb', Ready (Some (Inl t))) \<Rightarrow> ([], Failed t)
      | (tb', Ready (Some (Inr f))) \<Rightarrow> apfst (Cons f) (timed_run tb' ps))"

text \<open>What the body above it sees.\<close>

definition timed_frames :: "frame list \<times> reading \<Rightarrow> (std_error + frame) list" where
  "timed_frames r =
     map Inr (fst r) @ (case snd r of Failed t \<Rightarrow> [Inl (std_of_timeout t)] | _ \<Rightarrow> [])"

lemma timed_run_append:
  "timed_run tb pre = (fs, StillOpen tb') \<Longrightarrow> timed_run tb (pre @ post) = apfst ((@) fs) (timed_run tb' post)"
proof (induction tb pre arbitrary: fs rule: timed_run.induct)
  case (1 tb)
  then show ?case by (cases "timed_run tb' post") simp
next
  case (2 tb answer now ps)
  obtain tb1 p where p: "poll_frame (\<lambda>b. (b, answer)) now tb = (tb1, p)" by fastforce
  show ?case
  proof (cases p)
    case Pending
    with 2 p show ?thesis by simp
  next
    case (Ready x)
    then obtain f where x: "x = Some (Inr f)" using 2(3) p by (auto split: option.splits sum.splits)
    obtain fs' where "timed_run tb1 ps = (fs', StillOpen tb')" "fs = f # fs'"
      using 2(3) p Ready x by (cases "timed_run tb1 ps") auto
    with 2(2)[OF p[symmetric] Ready x refl] p Ready x show ?thesis
      by (cases "timed_run tb' post") simp
  qed
qed

lemma timed_run_deadline:
  "timed_run tb ps = (fs, StillOpen tb') \<Longrightarrow> total_deadline tb' = total_deadline tb"
proof (induction tb ps arbitrary: fs rule: timed_run.induct)
  case (2 tb answer now ps)
  obtain tb1 p where p: "poll_frame (\<lambda>b. (b, answer)) now tb = (tb1, p)" by fastforce
  have d: "total_deadline tb1 = total_deadline tb"
    using poll_frame_deadline[of "\<lambda>b. (b, answer)" now tb] p by simp
  show ?case
    using 2 p d by (cases p; cases "timed_run tb1 ps") (auto split: option.splits sum.splits)
qed simp

lemma poll_past_deadline:
  "total_deadline tb = Some d \<Longrightarrow> d \<le> now \<Longrightarrow> snd (poll_frame pf now tb) = Ready (Some (Inl BodyTimedOut))"
  by (cases tb) (auto simp: poll_total_def slept_def)

text \<open>A reading that failed makes the response fail with that error.\<close>

lemma frames_result_failed: "frames_result (map Inr fs @ Inl e # rs) = Inl e"
  by (induction fs) simp_all

lemma response_bytes_failed:
  assumes "hr_body (fr_res r) = Foreign f" and "fb_frames f = timed_frames (fs, Failed t)"
  shows "response_bytes r = Inl (with_uri (body_error (std_of_timeout t)) (fr_uri r))"
proof -
  have "body_frames (Foreign f) = map Inr fs @ [Inl (body_error (std_of_timeout t))]"
    using assms(2) by (simp add: timed_frames_def)
  then have "body_collect [] (Foreign f) = Inl (body_error (std_of_timeout t))"
    by (simp add: collect_frames frames_result_failed)
  then show ?thesis using assms(1) by (simp add: response_bytes_def map_err_uri_def)
qed

section \<open>Properties\<close>

text \<open>
  C39. A response body that is still being read at its deadline fails as a timeout: the
  first poll at or after the total timeout of the body ends the reading with an error of kind body that
  names the final URI, and that the bindings report with the code TIMEOUT, whatever the
  body would have answered, whatever was read before, and whether or not a read timeout is set too.
\<close>

theorem body_deadline_reported:
  assumes "timed_run tb pre = (fs, StillOpen tb')" and "total_deadline tb = Some d" and "d \<le> now"
    and "hr_body (fr_res r) = Foreign f"
    and "fb_frames f = timed_frames (timed_run tb (pre @ (answer, now) # post))"
  shows "\<exists>e. response_bytes r = Inl e \<and> err_is_body e \<and> err_uri e = Some (fr_uri r) \<and> core_code e = ''TIMEOUT''"
proof -
  have "total_deadline tb' = Some d" using timed_run_deadline[OF assms(1)] assms(2) by simp
  from poll_past_deadline[OF this assms(3), of "\<lambda>b. (b, answer)"]
  have "timed_run tb' ((answer, now) # post) = ([], Failed BodyTimedOut)"
    by (auto split: prod.splits)
  then have "fb_frames f = timed_frames (fs, Failed BodyTimedOut)"
    using assms(5) timed_run_append[OF assms(1)] by simp
  from response_bytes_failed[OF assms(4) this] show ?thesis
    by (simp add: err_body_def error_new_def body_error_def err_is_body_def core_code_def err_is_timeout_def)
qed

text \<open>Every timeout of the layer has the code TIMEOUT once the response is read.\<close>

lemma layer_timeout_code:
  assumes "is_timeout t" and "hr_body (fr_res r) = Foreign f" and "fb_frames f = timed_frames (fs, Failed t)"
  shows "\<exists>e. response_bytes r = Inl e \<and> core_code e = ''TIMEOUT''"
proof -
  have "body_error (std_of_timeout t) = std_of_timeout t" using timeout_kind[OF assms(1)] by simp
  with response_bytes_failed[OF assms(2,3)] timeout_is_timeout[OF assms(1)] show ?thesis
    by (auto intro: timeout_code timeout_with_uri)
qed

text \<open>
  With both timeouts set the read timeout is wrapped once more: it is then an error of kind decode, not
  of kind body.
\<close>

lemma combined_read_timeout_kind:
  assumes "rb_sleep b = Some s" and "s \<le> now" and "now < d"
  shows "timed_run (CombinedTimeout d b) [(answer, now)] = ([], Failed (DecodeError BodyTimedOut))"
    and "timed_run (ReadTimeout b) [(answer, now)] = ([], Failed BodyTimedOut)"
    and "\<not> err_is_body (std_of_timeout (DecodeError BodyTimedOut))"
  using assms
  by (simp_all add: poll_total_def poll_and_map_body_def poll_read_def slept_def err_is_body_def err_decode_def error_new_def)

text \<open>A frame arrives at 3; the body is polled again at 12, after its deadline.\<close>

definition sample_timed_body :: "unit timeout_body" where
  "sample_timed_body = timeout_body_new 0 (Some 10) (Some 50) ()"

definition sample_slow_response :: "unit full_response" where
  "sample_slow_response =
     \<lparr>fr_uri = \<lparr>scheme = Some HTTPS, authority = Some ''a.b'', host = Some ''a.b'', port = None, path = ''/'', query = None\<rparr>,
      fr_res = sample_response\<lparr>hr_body := Foreign \<lparr>fb_exact = None, fb_end = False,
        fb_frames = [Inr (Data ''ab''), Inl (err_body ETimedOut)]\<rparr>\<rparr>\<rparr>"

theorem body_deadline_reported_witness:
  "\<exists>e. response_bytes sample_slow_response = Inl e \<and> err_is_body e \<and>
     err_uri e = Some (fr_uri sample_slow_response) \<and> core_code e = ''TIMEOUT''"
proof -
  let ?pre = "[(Ready (Some (Inr (Data ''ab''))), 3)] :: body_poll list"
  note run = sample_timed_body_def timeout_body_new_def poll_total_def slept_def poll_and_map_body_def poll_read_def
  obtain tb where pre: "timed_run sample_timed_body ?pre = ([Data ''ab''], StillOpen tb)"
    by (simp add: run)
  have deadline: "total_deadline sample_timed_body = Some 10"
    by (simp add: sample_timed_body_def timeout_body_new_def)
  have body: "hr_body (fr_res sample_slow_response) = Foreign \<lparr>fb_exact = None, fb_end = False,
      fb_frames = [Inr (Data ''ab''), Inl (err_body ETimedOut)]\<rparr>"
    by (simp add: sample_slow_response_def)
  show ?thesis
    by (rule body_deadline_reported[OF pre deadline _ body, of 12 Pending "[]"])
      (simp_all add: run timed_frames_def)
qed

end
