(* ===== verification/Ws_Message.thy ===== *)
theory Ws_Message
  imports Core_Websocket
begin

text \<open>
  Building WebSocket messages (\<open>src/src/client/ws/message.rs\<close>): the constructors and conversions, the
  named close codes, and the sink half of a socket (\<open>src/src/client/ws.rs\<close>). A \<open>&str\<close>, a
  \<open>String\<close> and a \<open>Utf8Bytes\<close> are strings that are valid UTF-8, \<open>Bytes\<close>, a \<open>Vec<u8>\<close> and a slice any strings.
\<close>

section \<open>UTF-8 bytes\<close>

definition utf8_from_static :: "string \<Rightarrow> string" where
  "utf8_from_static s = s"

definition utf8_as_str :: "string \<Rightarrow> string" where
  "utf8_as_str s = s"

definition utf8_try_from_bytes :: "string \<Rightarrow> std_error + string" where
  "utf8_try_from_bytes b = (if valid_utf8 b then Inr b else Inl (EOther ''invalid utf-8 sequence'' None))"

definition utf8_into_bytes :: "string \<Rightarrow> string" where
  "utf8_into_bytes s = s"

definition utf8_default :: string where
  "utf8_default = []"

section \<open>Close codes\<close>

definition close_code_constants :: "(string \<times> u16) list" where
  "close_code_constants =
     [(''NORMAL'', 1000), (''AWAY'', 1001), (''PROTOCOL'', 1002), (''UNSUPPORTED'', 1003), (''STATUS'', 1005),
      (''ABNORMAL'', 1006), (''INVALID'', 1007), (''POLICY'', 1008), (''SIZE'', 1009), (''EXTENSION'', 1010),
      (''ERROR'', 1011), (''RESTART'', 1012), (''AGAIN'', 1013)]"

section \<open>Constructors\<close>

definition message_text :: "string \<Rightarrow> ws_message" where
  "message_text s = Text s"

definition message_binary :: "string \<Rightarrow> ws_message" where
  "message_binary b = Binary b"

definition message_ping :: "string \<Rightarrow> ws_message" where
  "message_ping b = Ping b"

definition message_pong :: "string \<Rightarrow> ws_message" where
  "message_pong b = Pong b"

definition message_close :: "close_frame option \<Rightarrow> ws_message" where
  "message_close f = CloseMsg f"

definition message_of_string :: "string \<Rightarrow> ws_message" where
  "message_of_string s = Text s"

definition message_of_slice :: "string \<Rightarrow> ws_message" where
  "message_of_slice b = Binary b"

definition message_of_vec :: "string \<Rightarrow> ws_message" where
  "message_of_vec b = Binary b"

definition vec_of_message :: "ws_message \<Rightarrow> string" where
  "vec_of_message m = into_data m"

section \<open>The sink\<close>

definition sink_result :: "(std_error + unit) poll \<Rightarrow> (std_error + unit) poll" where
  "sink_result r = (case r of Pending \<Rightarrow> Pending | Ready x \<Rightarrow> Ready (map_err err_websocket x))"

definition ws_poll_ready :: "(std_error + unit) poll \<Rightarrow> (std_error + unit) poll" where
  "ws_poll_ready inner = sink_result inner"

definition ws_poll_flush :: "(std_error + unit) poll \<Rightarrow> (std_error + unit) poll" where
  "ws_poll_flush inner = sink_result inner"

definition ws_poll_close :: "(std_error + unit) poll \<Rightarrow> (std_error + unit) poll" where
  "ws_poll_close inner = sink_result inner"

definition ws_start_send ::
    "'code close_codes \<Rightarrow> (('code, 'f) tung_message \<Rightarrow> std_error + unit) \<Rightarrow> ws_message \<Rightarrow> std_error + unit" where
  "ws_start_send CC start item = map_err err_websocket (start (into_tungstenite CC item))"

section \<open>Properties\<close>

text \<open>The text of a message is its data exactly when that is UTF-8, and a decode error otherwise.\<close>

lemma into_text_exact:
  "into_text (Text t) = Inr t"
  "into_text (Binary b) = Inr s \<longleftrightarrow> valid_utf8 b \<and> s = b"
  "into_text (Binary b) = Inl e \<Longrightarrow> err_is_decode e"
  by (auto simp: utf8_try_from_def map_err_def err_is_decode_def err_decode_def error_new_def split: if_splits)

lemma core_message_Inr:
  "core_message kind data = Inr m \<longleftrightarrow>
     (kind, m) \<in> {(''text'', Text data), (''binary'', Binary data), (''ping'', Ping data), (''pong'', Pong data)} \<and>
     (kind = ''text'' \<longrightarrow> valid_utf8 data)"
  by (auto simp: core_message_def)

text \<open>An operation hands over the message that it was asked to send, or a close frame.\<close>

lemma ws_apply_message:
  assumes "ws_apply x st = (e, st', Some m)"
  obtains (send) kind data w where "x = OpSend kind data w" "core_message kind data = Inr m"
    | (close) code reason w where "x = OpClose code reason w" "m = CloseMsg (Some \<lparr>cf_code = code, cf_reason = reason\<rparr>)"
proof (cases x)
  case (OpSend kind data w)
  show thesis
    by (rule send [OF OpSend]) (use assms OpSend in \<open>auto simp: core_ws_send_def split: if_splits sum.splits prod.splits\<close>)
next
  case (OpClose code reason w)
  show thesis
    by (rule close [OF OpClose])
      (use assms OpClose in \<open>auto simp: core_ws_close_def Let_def split: if_splits sum.splits prod.splits\<close>)
qed (use assms in \<open>auto split: sum.splits prod.splits\<close>)

text \<open>A socket that is open gives the message it reads to its caller, and closes on a close frame.\<close>

lemma core_ws_recv_open:
  assumes "\<not> cw_closing st" "\<not> cw_cancelled st" "cw_tx st" "cw_rx st"
  shows "core_ws_recv (Some (Finished (Inr (Some m)))) (Finished (Inr ())) st =
    (Inr (Some (core_received m)), if is_close_msg m then ws_abort (st\<lparr>cw_closing := True\<rparr>) else st)"
  using assms
  by (cases m) (simp_all add: core_ws_recv_def ws_operation_def ws_bounded_def with_half_def Let_def)



text \<open>Of the named codes, all but STATUS and ABNORMAL, which are never sent, are taken by the bindings' close.\<close>

lemma close_code_constants_ok:
  "map fst (filter (\<lambda>(n, c). \<not> close_code_ok c) close_code_constants) = [''STATUS'', ''ABNORMAL'']"
  by (simp add: close_code_constants_def close_code_ok_def word_le_nat_alt)

lemma message_vec_roundtrip: "vec_of_message (message_of_vec b) = b" "vec_of_message (message_of_string s) = s"
  by (simp_all add: vec_of_message_def message_of_vec_def message_of_string_def)

lemma sink_error_kind: "ws_start_send CC start item = Inl e \<Longrightarrow> err_is_websocket e"
  by (auto simp: ws_start_send_def map_err_def err_is_websocket_def err_websocket_def error_new_def split: sum.splits)

end
