(* ===== verification/Runtime.thy ===== *)
theory Runtime
  imports Transitions
begin

text \<open>
  The runtime pieces the components share: locks that hide poisoning (\<open>src/src/sync.rs\<close>), the choice
  of executor and timer (\<open>src/src/rt.rs\<close>, with the macros of \<open>src/src/lib.rs\<close>), the lazily made
  future (\<open>src/src/client/layer/client/lazy.rs\<close>) and the generator of \<open>src/src/util.rs\<close>. The
  locks of the standard library are modelled; the executors, timers and the hasher are parameters.
\<close>

section \<open>Locks\<close>

text \<open>
  A standard lock: who holds it, whether a holder panicked, the value. A call of \<open>lock()\<close> waits while
  there is a holder, also for the holder itself; otherwise the caller becomes the holder, and its guard, which
  stands for the mutex it holds, comes on the left when the lock is poisoned. What is made of
  that result may return or panic.
\<close>

record 'a std_mutex =
  sm_holder :: "nat option"
  sm_poisoned :: bool
  sm_value :: 'a

datatype 'r lock_outcome = Waits | Returns 'r | Panics

definition std_lock :: "nat \<Rightarrow> 'a std_mutex \<Rightarrow> ('a std_mutex + 'a std_mutex) lock_outcome" where
  "std_lock t m =
     (if sm_holder m \<noteq> None then Waits
      else (let guard = m\<lparr>sm_holder := Some t\<rparr> in Returns (if sm_poisoned m then Inl guard else Inr guard)))"

definition into_inner :: "'g \<Rightarrow> 'g" where
  "into_inner e = e"

definition mutex_new :: "'a \<Rightarrow> 'a std_mutex" where
  "mutex_new v = \<lparr>sm_holder = None, sm_poisoned = False, sm_value = v\<rparr>"

text \<open>\<open>unwrap_or_else\<close> on the result of a lock: the guard of a poisoned lock is taken out of the error.\<close>

definition guard_value :: "'g + 'g \<Rightarrow> 'g" where
  "guard_value r = (case r of Inr guard \<Rightarrow> guard | Inl e \<Rightarrow> into_inner e)"

definition mutex_lock :: "nat \<Rightarrow> 'a std_mutex \<Rightarrow> 'a std_mutex lock_outcome" where
  "mutex_lock t m =
     (case std_lock t m of
        Waits \<Rightarrow> Waits
      | Returns r \<Rightarrow> Returns (guard_value r)
      | Panics \<Rightarrow> Panics)"

definition rwlock_read :: "'g + 'g \<Rightarrow> 'g" where
  "rwlock_read r = guard_value r"

definition rwlock_write :: "'g + 'g \<Rightarrow> 'g" where
  "rwlock_write r = guard_value r"

text \<open>
  Threads that use a lock of the library, with what each \<open>lock()\<close> saw and the threads whose call of it
  panicked. A thread that panics while it holds the guard poisons the standard lock as the guard is dropped.
\<close>

record 'a lock_sys =
  lk_mutex :: "'a std_mutex"
  lk_seen :: "(nat \<times> 'a) list"
  lk_failed :: "nat list"

inductive lock_step :: "'a lock_sys \<Rightarrow> 'a lock_sys \<Rightarrow> bool" where
  lock_acquire:
    "mutex_lock t (lk_mutex s) = Returns m \<Longrightarrow>
     lock_step s (s\<lparr>lk_mutex := m, lk_seen := lk_seen s @ [(t, sm_value m)]\<rparr>)"
| lock_fails:
    "mutex_lock t (lk_mutex s) = Panics \<Longrightarrow> lock_step s (s\<lparr>lk_failed := lk_failed s @ [t]\<rparr>)"
| lock_write:
    "sm_holder (lk_mutex s) = Some t \<Longrightarrow> lock_step s (s\<lparr>lk_mutex := (lk_mutex s)\<lparr>sm_value := v\<rparr>\<rparr>)"
| lock_release:
    "sm_holder (lk_mutex s) = Some t \<Longrightarrow> lock_step s (s\<lparr>lk_mutex := (lk_mutex s)\<lparr>sm_holder := None\<rparr>\<rparr>)"
| lock_panic:
    "sm_holder (lk_mutex s) = Some t \<Longrightarrow>
     lock_step s (s\<lparr>lk_mutex := (lk_mutex s)\<lparr>sm_holder := None, sm_poisoned := True\<rparr>\<rparr>)"

text \<open>What a lock is for: a cell that one thread at a time uses, where a panic is a release.\<close>

record 'a cell_sys =
  cl_holder :: "nat option"
  cl_value :: 'a
  cl_seen :: "(nat \<times> 'a) list"

inductive cell_step :: "'a cell_sys \<Rightarrow> 'a cell_sys \<Rightarrow> bool" where
  cell_acquire:
    "cl_holder c = None \<Longrightarrow> cell_step c (c\<lparr>cl_holder := Some t, cl_seen := cl_seen c @ [(t, cl_value c)]\<rparr>)"
| cell_write: "cl_holder c = Some t \<Longrightarrow> cell_step c (c\<lparr>cl_value := v\<rparr>)"
| cell_release: "cl_holder c = Some t \<Longrightarrow> cell_step c (c\<lparr>cl_holder := None\<rparr>)"

definition cell_of :: "'a lock_sys \<Rightarrow> 'a cell_sys" where
  "cell_of s = \<lparr>cl_holder = sm_holder (lk_mutex s), cl_value = sm_value (lk_mutex s), cl_seen = lk_seen s\<rparr>"

text \<open>The lock waits for its holder and for nothing else, and never panics; a poisoned one is like any other.\<close>

lemma mutex_lock_exact:
  "mutex_lock t m = (case sm_holder m of None \<Rightarrow> Returns (m\<lparr>sm_holder := Some t\<rparr>) | Some _ \<Rightarrow> Waits)"
  by (simp add: mutex_lock_def guard_value_def std_lock_def into_inner_def Let_def split: option.split)

lemma lock_step_cell: "lock_step s s' \<Longrightarrow> cell_step (cell_of s) (cell_of s') \<and> lk_failed s' = lk_failed s"
proof (induction rule: lock_step.induct)
  case (lock_acquire t s m)
  then show ?case using cell_acquire[of "cell_of s" t]
    by (auto simp: cell_of_def mutex_lock_exact split: option.splits)
next
  case (lock_write s t v)
  then show ?case using cell_write[of "cell_of s" t v] by (simp add: cell_of_def)
next
  case (lock_release s t)
  then show ?case using cell_release[of "cell_of s" t] by (simp add: cell_of_def)
next
  case (lock_panic s t)
  then show ?case using cell_release[of "cell_of s" t] by (simp add: cell_of_def)
qed (simp add: mutex_lock_exact split: option.splits)

interpretation locks: step_simulation "\<lambda>s. s = \<lparr>lk_mutex = mutex_new v, lk_seen = [], lk_failed = []\<rparr>" lock_step
    "\<lambda>s. lk_failed s = []" "\<lambda>c. c = \<lparr>cl_holder = None, cl_value = v, cl_seen = []\<rparr>" cell_step cell_of for v
  by unfold_locales (simp_all add: cell_of_def mutex_new_def lock_step_cell[unfolded cell_of_def] r_into_rtranclp)

text \<open>
  The library's lock refines a plain cell: in every run of threads that lock, write,
  unlock and panic while they hold it, each \<open>lock()\<close> sees what the run of a cell without panics or poison would show, the lock
  is free exactly when that cell is, and no call of \<open>lock()\<close> panics.
\<close>

lemma lock_refines_cell:
  assumes "lock_step\<^sup>*\<^sup>* \<lparr>lk_mutex = mutex_new v, lk_seen = [], lk_failed = []\<rparr> s"
  shows "cell_step\<^sup>*\<^sup>* \<lparr>cl_holder = None, cl_value = v, cl_seen = []\<rparr> (cell_of s)" and "lk_failed s = []"
  using locks.simulated[OF assms refl] locks.reached[OF assms refl] by (simp_all add: cell_of_def mutex_new_def)

section \<open>Executors and timers\<close>

record rt_features =
  ft_tokio :: bool
  ft_compio :: bool

definition if_tokio_rt :: "rt_features \<Rightarrow> bool" where
  "if_tokio_rt f \<longleftrightarrow> ft_tokio f \<and> \<not> ft_compio f"

definition if_compio_rt :: "rt_features \<Rightarrow> bool" where
  "if_compio_rt f \<longleftrightarrow> ft_compio f \<and> \<not> ft_tokio f"

definition if_all_rt :: "rt_features \<Rightarrow> bool" where
  "if_all_rt f \<longleftrightarrow> ft_tokio f \<and> ft_compio f"

definition if_no_rt :: "rt_features \<Rightarrow> bool" where
  "if_no_rt f \<longleftrightarrow> \<not> (ft_tokio f \<or> ft_compio f)"

datatype runtime = Tokio | Compio

text \<open>The blocks in their order; \<^term>\<open>None\<close> is the panic without a runtime.\<close>

definition executor_default :: "rt_features \<Rightarrow> runtime option" where
  "executor_default f =
     (if if_tokio_rt f then Some Tokio
      else if if_compio_rt f then Some Compio
      else if if_all_rt f then Some Tokio
      else None)"

text \<open>A timer of the runtime, or the empty one.\<close>

definition timer_default :: "rt_features \<Rightarrow> runtime option" where
  "timer_default f =
     (if if_tokio_rt f then Some Tokio
      else if if_compio_rt f then Some Compio
      else if if_all_rt f then Some Tokio
      else None)"

definition timer_is_empty_rt :: "runtime option \<Rightarrow> bool" where
  "timer_is_empty_rt t \<longleftrightarrow> t = None"

lemma runtime_chosen:
  "executor_default f = timer_default f"
  "timer_is_empty_rt (timer_default f) \<longleftrightarrow> if_no_rt f"
  "ft_tokio f \<Longrightarrow> executor_default f = Some Tokio"
  by (auto simp: executor_default_def timer_default_def timer_is_empty_rt_def if_tokio_rt_def if_compio_rt_def
      if_all_rt_def if_no_rt_def)

section \<open>A future made when it is first polled\<close>

datatype ('f, 'r) lazy_future = LazyInit 'f | LazyFut 'r | LazyEmpty

definition lazy_new :: "'f \<Rightarrow> ('f, 'r) lazy_future" where
  "lazy_new func = LazyInit func"

fun lazy_started :: "('f, 'r) lazy_future \<Rightarrow> bool" where
  "lazy_started (LazyInit func) = False"
| "lazy_started _ = True"

text \<open>\<open>mk\<close> runs the function, \<open>poll\<close> polls the future; \<^term>\<open>None\<close> is the \<open>unreachable!\<close>.\<close>

fun lazy_poll ::
    "('f \<Rightarrow> 'r) \<Rightarrow> ('r \<Rightarrow> 'r \<times> 'o poll) \<Rightarrow> ('f, 'r) lazy_future \<Rightarrow> (('f, 'r) lazy_future \<times> 'o poll) option" where
  "lazy_poll mk poll (LazyFut fut) = Some (apfst LazyFut (poll fut))"
| "lazy_poll mk poll (LazyInit func) = Some (apfst LazyFut (poll (mk func)))"
| "lazy_poll mk poll LazyEmpty = None"

fun lazy_polls ::
    "('f \<Rightarrow> 'r) \<Rightarrow> ('r \<Rightarrow> 'r \<times> 'o poll) \<Rightarrow> nat \<Rightarrow> ('f, 'r) lazy_future \<Rightarrow> 'o poll list option" where
  "lazy_polls mk poll 0 st = Some []"
| "lazy_polls mk poll (Suc n) st =
     Option.bind (lazy_poll mk poll st) (\<lambda>(st', r). map_option (Cons r) (lazy_polls mk poll n st'))"

fun plain_polls :: "('r \<Rightarrow> 'r \<times> 'o poll) \<Rightarrow> nat \<Rightarrow> 'r \<Rightarrow> 'o poll list" where
  "plain_polls poll 0 fut = []"
| "plain_polls poll (Suc n) fut = (case poll fut of (fut', r) \<Rightarrow> r # plain_polls poll n fut')"

lemma lazy_polls_fut: "lazy_polls mk poll n (LazyFut fut) = Some (plain_polls poll n fut)"
  by (induction n arbitrary: fut) (simp_all split: prod.split)

lemma lazy_polls_plain: "lazy_polls mk poll n (lazy_new func) = Some (plain_polls poll n (mk func))"
  by (cases n) (simp_all add: lazy_new_def lazy_polls_fut split: prod.split)

section \<open>The generator\<close>

text \<open>The thread's counter goes round; \<open>hash\<close> is the thread's keyed hasher.\<close>

definition fast_random :: "(u64 \<Rightarrow> u64) \<Rightarrow> u64 \<Rightarrow> u64 \<times> u64" where
  "fast_random hash ctr = (let n = ctr + 1 in (hash n, n))"

fun fast_randoms :: "(u64 \<Rightarrow> u64) \<Rightarrow> u64 \<Rightarrow> nat \<Rightarrow> u64 list" where
  "fast_randoms hash ctr 0 = []"
| "fast_randoms hash ctr (Suc n) = (case fast_random hash ctr of (r, ctr') \<Rightarrow> r # fast_randoms hash ctr' n)"

lemma fast_randoms_nth: "i < n \<Longrightarrow> fast_randoms hash ctr n ! i = hash (ctr + of_nat (Suc i))"
  by (induction n arbitrary: ctr i) (auto simp: fast_random_def Let_def nth_Cons add.assoc split: nat.split)

lemma length_fast_randoms [simp]: "length (fast_randoms hash ctr n) = n"
  by (induction n arbitrary: ctr) (auto simp: fast_random_def Let_def)

end
