(* ===== verification/Sockets.thy ===== *)
theory Sockets
  imports Verbose Conn_Extras
begin

text \<open>
  Sockets below the HTTP protocols: the boxed connection and the TLS stream as byte streams
  (\<open>src/src/conn.rs\<close>), the adapter that makes a buffered compio stream a half-duplex socket
  (\<open>src/src/conn/net/io.rs\<close>), the TCP and Unix connectors of both runtimes (\<open>src/src/conn/net/tcp\<close>,
  \<open>src/src/conn/net/uds\<close>) and the socket paths a proxy may name (\<open>src/src/proxy/uds.rs\<close>). The
  sockets themselves, TLS records and compio's buffers are parameters, seen through \<open>io_ops\<close>.
\<close>

section \<open>Streams that forward\<close>

text \<open>A call on a part of a value: read the part, call, write the part back.\<close>

definition on_part :: "('w \<Rightarrow> 'st) \<Rightarrow> ('st \<Rightarrow> 'w \<Rightarrow> 'w) \<Rightarrow> ('st \<Rightarrow> 'st \<times> 'r) \<Rightarrow> 'w \<Rightarrow> 'w \<times> 'r" where
  "on_part rd wr f w = apfst (\<lambda>st. wr st w) (f (rd w))"

definition conn_stream :: "(('io, 'key) stream \<Rightarrow> ('io, 'key) stream \<times> 'r) \<Rightarrow>
    ('io, 'key, 'h) conn \<Rightarrow> ('io, 'key, 'h) conn \<times> 'r" where
  "conn_stream = on_part cn_stream (\<lambda>st c. c\<lparr>cn_stream := st\<rparr>)"

definition conn_ops :: "(('io, 'key) stream, 'e) io_ops \<Rightarrow> (('io, 'key, 'h) conn, 'e) io_ops" where
  "conn_ops X =
     \<lparr>io_read = (\<lambda>c filled room. conn_stream (\<lambda>st. io_read X st filled room) c),
      io_write = (\<lambda>c buf. conn_stream (\<lambda>st. io_write X st buf) c),
      io_write_vectored = (\<lambda>c bufs. conn_stream (\<lambda>st. io_write_vectored X st bufs) c),
      io_is_write_vectored = (\<lambda>c. io_is_write_vectored X (cn_stream c)),
      io_flush = conn_stream (io_flush X),
      io_shutdown = conn_stream (io_shutdown X)\<rparr>"

record 'ssl tls_conn =
  tc_stream :: 'ssl

definition tls_stream :: "('ssl \<Rightarrow> 'ssl \<times> 'r) \<Rightarrow> 'ssl tls_conn \<Rightarrow> 'ssl tls_conn \<times> 'r" where
  "tls_stream = on_part tc_stream (\<lambda>st c. c\<lparr>tc_stream := st\<rparr>)"

definition tls_conn_ops :: "('ssl, 'e) io_ops \<Rightarrow> ('ssl tls_conn, 'e) io_ops" where
  "tls_conn_ops X =
     \<lparr>io_read = (\<lambda>c filled room. tls_stream (\<lambda>st. io_read X st filled room) c),
      io_write = (\<lambda>c buf. tls_stream (\<lambda>st. io_write X st buf) c),
      io_write_vectored = (\<lambda>c bufs. tls_stream (\<lambda>st. io_write_vectored X st bufs) c),
      io_is_write_vectored = (\<lambda>c. io_is_write_vectored X (tc_stream c)),
      io_flush = tls_stream (io_flush X),
      io_shutdown = tls_stream (io_shutdown X)\<rparr>"

definition tls_conn_info :: "('ssl \<Rightarrow> tls_info option) \<Rightarrow> 'ssl tls_conn \<Rightarrow> tls_info option" where
  "tls_conn_info info c = info (tc_stream c)"

section \<open>The compio adapter\<close>

record 'st compio_connection =
  cc_inner :: 'st
  cc_peer_addr :: "string option"
  cc_local_addr :: "string option"

definition cc_on :: "('st \<Rightarrow> 'st \<times> 'r) \<Rightarrow> 'st compio_connection \<Rightarrow> 'st compio_connection \<times> 'r" where
  "cc_on = on_part cc_inner (\<lambda>st c. c\<lparr>cc_inner := st\<rparr>)"

text \<open>A read first flushes what compio still buffers.\<close>

definition compio_read :: "('st, 'e) io_ops \<Rightarrow> 'st compio_connection \<Rightarrow> string \<Rightarrow> nat \<Rightarrow>
    'st compio_connection \<times> ('e + string) poll" where
  "compio_read X c filled room =
     (case cc_on (io_flush X) c of
        (c, Pending) \<Rightarrow> (c, Pending)
      | (c, Ready (Inl e)) \<Rightarrow> (c, Ready (Inl e))
      | (c, Ready (Inr _)) \<Rightarrow> cc_on (\<lambda>st. io_read X st filled room) c)"

definition compio_write :: "('st, 'e) io_ops \<Rightarrow> 'st compio_connection \<Rightarrow> string \<Rightarrow>
    'st compio_connection \<times> ('e + nat) poll" where
  "compio_write X c buf = cc_on (\<lambda>st. io_write X st buf) c"

text \<open>
  The adapter leaves \<open>poll_write_vectored\<close> and \<open>is_write_vectored\<close> to tokio's default methods:
  \<open>pick\<close> is the buffer the first of them writes, and the second answers \<open>false\<close>.
\<close>

definition compio_ops :: "(string list \<Rightarrow> string) \<Rightarrow> ('st, 'e) io_ops \<Rightarrow> ('st compio_connection, 'e) io_ops" where
  "compio_ops pick X =
     \<lparr>io_read = compio_read X,
      io_write = compio_write X,
      io_write_vectored = (\<lambda>c bufs. compio_write X c (pick bufs)),
      io_is_write_vectored = (\<lambda>_. False),
      io_flush = cc_on (io_flush X),
      io_shutdown = cc_on (io_shutdown X)\<rparr>"

section \<open>Connectors\<close>

text \<open>
  What the runtimes provide: \<open>st_from_std\<close> takes over a prepared socket (tokio's cannot fail),
  \<open>st_connect\<close> and \<open>st_unix\<close> end as they do, \<open>st_addrs\<close> asks for the peer and local address.
\<close>

record ('sock, 'io) socket_env =
  st_from_std :: "'sock \<Rightarrow> std_error + 'sock"
  st_connect :: "'sock \<Rightarrow> string \<Rightarrow> std_error + 'io"
  st_unix :: "string \<Rightarrow> std_error + 'io"
  st_addrs :: "'io \<Rightarrow> string option \<times> string option"

definition tokio_connect :: "('sock \<Rightarrow> 'sock) \<Rightarrow> ('sock, 'io) socket_env \<Rightarrow> 'sock \<Rightarrow> string \<Rightarrow> std_error + 'io" where
  "tokio_connect from_std E socket addr = st_connect E (from_std socket) addr"

definition compio_connect :: "('sock, 'io) socket_env \<Rightarrow> 'sock \<Rightarrow> string \<Rightarrow> std_error + 'io compio_connection" where
  "compio_connect E socket addr =
     and_then (st_from_std E socket) (\<lambda>socket.
     and_then (st_connect E socket addr) (\<lambda>tcp_stream.
     Inr \<lparr>cc_inner = tcp_stream,
          cc_peer_addr = fst (st_addrs E tcp_stream),
          cc_local_addr = snd (st_addrs E tcp_stream)\<rparr>))"

definition compio_tcp_extra :: "'io compio_connection \<Rightarrow> extra_inner option" where
  "compio_tcp_extra c =
     (case (cc_peer_addr c, cc_local_addr c) of
        (Some remote, Some local) \<Rightarrow> add_extra None (HttpInfoExt remote local)
      | _ \<Rightarrow> None)"

text \<open>A Unix connector is its path; the URI it is called with is ignored.\<close>

definition unix_new :: "string \<Rightarrow> string" where
  "unix_new p = p"

definition tokio_unix_call :: "('sock, 'io) socket_env \<Rightarrow> string \<Rightarrow> uri \<Rightarrow> std_error + 'io" where
  "tokio_unix_call E p u = st_unix E p"

definition compio_unix_call :: "('sock, 'io) socket_env \<Rightarrow> string \<Rightarrow> uri \<Rightarrow> std_error + 'io compio_connection" where
  "compio_unix_call E p u =
     and_then (st_unix E p) (\<lambda>io. Inr \<lparr>cc_inner = io, cc_peer_addr = None, cc_local_addr = None\<rparr>)"

definition unix_connected :: "nat \<Rightarrow> 'h connected_info" where
  "unix_connected pill = connected_new pill"

datatype socket_source = OfString string | OfStr string | OfPath string | OfPathBuf string | OfArcPath string

fun unix_socket :: "socket_source \<Rightarrow> string" where
  "unix_socket (OfString s) = s"
| "unix_socket (OfStr s) = s"
| "unix_socket (OfPath p) = p"
| "unix_socket (OfPathBuf p) = p"
| "unix_socket (OfArcPath p) = p"

section \<open>Forwarding changes nothing\<close>

lemma conn_apply: "io_apply (conn_ops X) k c = conn_stream (io_apply X k) c"
  by (cases k) (simp_all add: conn_ops_def conn_stream_def on_part_def split_beta apfst_def apsnd_def map_prod_def)

lemma conn_run:
  "io_run (conn_ops X) ks c = (case io_run X ks (cn_stream c) of (st, as) \<Rightarrow> (c\<lparr>cn_stream := st\<rparr>, as))"
  by (induction ks arbitrary: c)
    (simp_all add: conn_apply conn_stream_def on_part_def split_beta apfst_def apsnd_def map_prod_def)

lemma tls_apply: "io_apply (tls_conn_ops X) k c = tls_stream (io_apply X k) c"
  by (cases k) (simp_all add: tls_conn_ops_def tls_stream_def on_part_def split_beta apfst_def apsnd_def map_prod_def)

lemma tls_run:
  "io_run (tls_conn_ops X) ks c = (case io_run X ks (tc_stream c) of (st, as) \<Rightarrow> (c\<lparr>tc_stream := st\<rparr>, as))"
  by (induction ks arbitrary: c)
    (simp_all add: tls_apply tls_stream_def on_part_def split_beta apfst_def apsnd_def map_prod_def)

text \<open>
  A boxed TLS connection answers every run of calls as the TLS session does, and keeps what it
  knows of its proxy.
\<close>

lemma boxed_connection_transparent:
  "snd (io_run (conn_ops X) ks c) = snd (io_run X ks (cn_stream c))"
  "snd (io_run (tls_conn_ops Y) ks t) = snd (io_run Y ks (tc_stream t))"
  "cn_proxy (fst (io_run (conn_ops X) ks c)) = cn_proxy c"
  "cn_tls_info (fst (io_run (conn_ops X) ks c)) = cn_tls_info c"
  by (simp_all add: conn_run tls_run split_beta)

section \<open>Half duplex\<close>

text \<open>
  What a buffered stream promises: \<open>taken\<close> is what it has accepted, \<open>sent\<close> what the socket was
  given. A completed flush leaves nothing behind; a read moves neither.
\<close>

definition buffered_laws :: "('st, 'e) io_ops \<Rightarrow> ('st \<Rightarrow> string) \<Rightarrow> ('st \<Rightarrow> string) \<Rightarrow> bool" where
  "buffered_laws X taken sent \<longleftrightarrow>
     (\<forall>st buf. case io_write X st buf of
        (st', Ready (Inr n)) \<Rightarrow> n \<le> length buf \<and> taken st' = taken st @ take n buf
      | (st', _) \<Rightarrow> taken st' = taken st) \<and>
     (\<forall>st. case io_flush X st of
        (st', r) \<Rightarrow> taken st' = taken st \<and> (r = Ready (Inr ()) \<longrightarrow> sent st' = taken st')) \<and>
     (\<forall>st. taken (fst (io_shutdown X st)) = taken st) \<and>
     (\<forall>st filled room. taken (fst (io_read X st filled room)) = taken st \<and>
        sent (fst (io_read X st filled room)) = sent st)"

text \<open>tokio documents its default vectored write as a write of the first buffer that is not empty.\<close>

definition first_nonempty :: "string list \<Rightarrow> string" where
  "first_nonempty bufs = (case find (\<lambda>b. b \<noteq> []) bufs of Some b \<Rightarrow> b | None \<Rightarrow> [])"

fun written :: "trace_entry \<Rightarrow> string" where
  "written (TraceRead _) = []"
| "written (TraceWrite s) = s"
| "written (TraceVectored s) = s"

definition accepted :: "io_call list \<Rightarrow> 'e io_answer list \<Rightarrow> string" where
  "accepted ks as = concat (map written (concat (map2 passed ks as)))"

lemma take_first_nonempty: "n \<le> length (first_nonempty bufs) \<Longrightarrow> take n (first_nonempty bufs) = take n (concat bufs)"
  by (induction bufs) (auto simp: first_nonempty_def split: if_splits option.splits)

lemma passed_read: "concat (map written (passed (Read filled room) a)) = []"
  by (cases "(Read filled room, a)" rule: passed.cases) simp_all

lemma io_run_append:
  "io_run X (ks @ ls) st =
     (case io_run X ks st of (st1, as) \<Rightarrow> apsnd ((@) as) (io_run X ls st1))"
  by (induction ks arbitrary: st) (simp_all add: split_beta apsnd_def map_prod_def)

lemma io_run_length: "length (snd (io_run X ks st)) = length ks"
  by (induction ks arbitrary: st) (simp_all add: split_beta)

lemma buffered_write:
  assumes "buffered_laws X taken sent" and "io_write X st buf = (st', r)"
  shows "taken st' = taken st @ (case r of Ready (Inr n) \<Rightarrow> take n buf | _ \<Rightarrow> [])"
    and "r = Ready (Inr n) \<Longrightarrow> n \<le> length buf"
proof -
  have "case io_write X st buf of
      (st', Ready (Inr n)) \<Rightarrow> n \<le> length buf \<and> taken st' = taken st @ take n buf
    | (st', _) \<Rightarrow> taken st' = taken st"
    using assms(1) by (simp add: buffered_laws_def)
  then show "taken st' = taken st @ (case r of Ready (Inr n) \<Rightarrow> take n buf | _ \<Rightarrow> [])"
    and "r = Ready (Inr n) \<Longrightarrow> n \<le> length buf"
    by (simp_all add: assms(2) split: poll.splits sum.splits)
qed

lemma buffered_rest:
  assumes "buffered_laws X taken sent"
  shows "taken (fst (io_flush X st)) = taken st" "taken (fst (io_shutdown X st)) = taken st"
    "taken (fst (io_read X st filled room)) = taken st" "sent (fst (io_read X st filled room)) = sent st"
    "io_flush X st = (st', Ready (Inr ())) \<Longrightarrow> sent st' = taken st"
proof -
  have flush: "case io_flush X st of
      (st', r) \<Rightarrow> taken st' = taken st \<and> (r = Ready (Inr ()) \<longrightarrow> sent st' = taken st')"
    using assms by (simp add: buffered_laws_def)
  show "taken (fst (io_flush X st)) = taken st"
    using flush by (simp add: split_beta)
  show "io_flush X st = (st', Ready (Inr ())) \<Longrightarrow> sent st' = taken st"
    using flush by simp
qed (use assms in \<open>simp_all add: buffered_laws_def\<close>)

lemma compio_read_taken:
  assumes "buffered_laws X taken sent" and "compio_read X c filled room = (c', r)"
  shows "taken (cc_inner c') = taken (cc_inner c)"
    and "r = Ready (Inr s) \<Longrightarrow> sent (cc_inner c') = taken (cc_inner c)"
proof -
  obtain st f where flush: "io_flush X (cc_inner c) = (st, f)" by fastforce
  with buffered_rest(1) [OF assms(1), of "cc_inner c"] have st: "taken st = taken (cc_inner c)" by simp
  obtain st2 r2 where read: "io_read X st filled room = (st2, r2)" by fastforce
  with buffered_rest(3,4) [OF assms(1), of st filled room]
  have st2: "taken st2 = taken st" "sent st2 = sent st" by simp_all
  show "taken (cc_inner c') = taken (cc_inner c)"
    using assms(2) flush read st st2
    by (auto simp: compio_read_def cc_on_def on_part_def split: poll.splits sum.splits)
  show "r = Ready (Inr s) \<Longrightarrow> sent (cc_inner c') = taken (cc_inner c)"
    using assms(2) flush read st2 buffered_rest(5) [OF assms(1), of "cc_inner c" st]
    by (auto simp: compio_read_def cc_on_def on_part_def split: poll.splits sum.splits)
qed

lemma compio_write_taken:
  assumes "buffered_laws X taken sent" and "compio_write X c buf = (c', r)"
  shows "taken (cc_inner c') = taken (cc_inner c) @ (case r of Ready (Inr n) \<Rightarrow> take n buf | _ \<Rightarrow> [])"
    and "r = Ready (Inr n) \<Longrightarrow> n \<le> length buf"
proof -
  obtain st q where eq: "io_write X (cc_inner c) buf = (st, q)" by fastforce
  with assms(2) have "cc_inner c' = st" "r = q"
    by (auto simp: compio_write_def cc_on_def on_part_def)
  with buffered_write [OF assms(1) eq]
  show "taken (cc_inner c') = taken (cc_inner c) @ (case r of Ready (Inr n) \<Rightarrow> take n buf | _ \<Rightarrow> [])"
    and "r = Ready (Inr n) \<Longrightarrow> n \<le> length buf" by simp_all
qed

lemma compio_apply_taken:
  assumes laws: "buffered_laws X taken sent" and ap: "io_apply (compio_ops first_nonempty X) k c = (c', a)"
  shows "taken (cc_inner c') = taken (cc_inner c) @ concat (map written (passed k a))"
proof (cases k)
  case (Read filled room)
  then obtain r where r: "compio_read X c filled room = (c', r)" "a = ReadAnswer r"
    using ap by (cases "compio_read X c filled room") (auto simp: compio_ops_def)
  then show ?thesis
    using compio_read_taken(1) [OF laws r(1)] Read
    by (simp add: passed_read)
next
  case (Write buf)
  then obtain r where r: "compio_write X c buf = (c', r)" "a = WriteAnswer r"
    using ap by (cases "compio_write X c buf") (auto simp: compio_ops_def)
  then show ?thesis
    using compio_write_taken(1) [OF laws r(1)] Write by (simp split: poll.split sum.split)
next
  case (WriteVectored bufs)
  then obtain r where r: "compio_write X c (first_nonempty bufs) = (c', r)" "a = WriteAnswer r"
    using ap by (cases "compio_write X c (first_nonempty bufs)") (auto simp: compio_ops_def)
  then show ?thesis
    using compio_write_taken [OF laws r(1)] WriteVectored
    by (auto simp: take_first_nonempty split: poll.split sum.split)
qed (use ap buffered_rest [OF laws] in \<open>auto simp: compio_ops_def cc_on_def on_part_def split_beta\<close>)

lemma compio_run_taken:
  assumes "buffered_laws X taken sent" and "io_run (compio_ops first_nonempty X) ks c = (c', as)"
  shows "taken (cc_inner c') = taken (cc_inner c) @ accepted ks as"
  using assms(2)
proof (induction ks arbitrary: c as)
  case Nil
  then show ?case by (simp add: accepted_def)
next
  case (Cons k ks)
  then obtain c1 a as1 where step: "io_apply (compio_ops first_nonempty X) k c = (c1, a)"
    "io_run (compio_ops first_nonempty X) ks c1 = (c', as1)" "as = a # as1"
    by (cases "io_apply (compio_ops first_nonempty X) k c";
        cases "io_run (compio_ops first_nonempty X) ks (fst (io_apply (compio_ops first_nonempty X) k c))") auto
  with Cons.IH [OF step(2)] compio_apply_taken [OF assms(1) step(1)] show ?case
    by (simp add: accepted_def)
qed

text \<open>
  A compio connection is half duplex: when a read is answered, the socket has been given every byte
  that the calls before it reported as written, whatever mix of writes, vectored writes, flushes
  and reads they were.
\<close>

lemma compio_half_duplex:
  assumes "buffered_laws X taken sent"
    and "io_run (compio_ops first_nonempty X) (ks @ [Read filled room]) c =
      (c', as @ [ReadAnswer (Ready (Inr s))])"
  shows "sent (cc_inner c') = taken (cc_inner c) @ accepted ks as"
proof -
  obtain c1 bs where run: "io_run (compio_ops first_nonempty X) ks c = (c1, bs)" by fastforce
  obtain r where read: "compio_read X c1 filled room = (c', r)" and last: "bs @ [ReadAnswer r] = as @ [ReadAnswer (Ready (Inr s))]"
    using assms(2) run
    by (cases "compio_read X c1 filled room") (auto simp: io_run_append compio_ops_def)
  then show ?thesis
    using compio_read_taken(2) [OF assms(1) read] compio_run_taken [OF assms(1) run] by auto
qed

text \<open>A stream that buffers what it is given and reads from a fixed reply.\<close>

definition lazy_socket :: "(string \<times> string, string) io_ops" where
  "lazy_socket =
     \<lparr>io_read = (\<lambda>st filled room. (st, Ready (Inr (filled @ take room ''ok'')))),
      io_write = (\<lambda>(buffered, out) buf. ((buffered @ buf, out), Ready (Inr (length buf)))),
      io_write_vectored = (\<lambda>st bufs. (st, Pending)),
      io_is_write_vectored = (\<lambda>_. False),
      io_flush = (\<lambda>(buffered, out). (([], out @ buffered), Ready (Inr ()))),
      io_shutdown = (\<lambda>st. (st, Ready (Inr ())))\<rparr>"

lemma lazy_socket_laws: "buffered_laws lazy_socket (\<lambda>(buffered, out). out @ buffered) snd"
  by (auto simp: buffered_laws_def lazy_socket_def)

lemma compio_half_duplex_witness:
  "snd (cc_inner (fst (io_run (compio_ops first_nonempty lazy_socket)
     ([Write ''CONNECT'', WriteVectored [[], '' a'']] @ [Read [] 2]) \<lparr>cc_inner = ([], []), cc_peer_addr = None, cc_local_addr = None\<rparr>)))
   = ''CONNECT a''"
  using compio_half_duplex [OF lazy_socket_laws, of "[Write ''CONNECT'', WriteVectored [[], '' a'']]" "[]" 2
      "\<lparr>cc_inner = ([], []), cc_peer_addr = None, cc_local_addr = None\<rparr>"
      "\<lparr>cc_inner = ([], ''CONNECT a''), cc_peer_addr = None, cc_local_addr = None\<rparr>"
      "[WriteAnswer (Ready (Inr 7)), WriteAnswer (Ready (Inr 2))]" "''ok''"]
  by (simp add: compio_ops_def compio_write_def compio_read_def cc_on_def on_part_def lazy_socket_def
      first_nonempty_def accepted_def)

text \<open>Without the adapter the same read is answered while nothing has been sent.\<close>

lemma plain_socket_not_half_duplex:
  "io_run lazy_socket [Write ''CONNECT'', Read [] 2] ([], []) =
     ((''CONNECT'', []), [WriteAnswer (Ready (Inr 7)), ReadAnswer (Ready (Inr ''ok''))])"
  by (simp add: lazy_socket_def)

section \<open>Both runtimes dial alike\<close>

lemma runtimes_connect_alike:
  assumes "st_from_std E s = Inr (from_std s)"
  shows "map_sum id cc_inner (compio_connect E s addr) = tokio_connect from_std E s addr"
    and "map_sum id cc_inner (compio_unix_call E p u) = tokio_unix_call E p v"
  using assms
  by (auto simp: compio_connect_def tokio_connect_def compio_unix_call_def tokio_unix_call_def
      and_then_def split: sum.splits)

lemma compio_extra_alike:
  assumes "compio_connect E s addr = Inr c" and "pe_addrs Q = st_addrs E"
  shows "compio_tcp_extra c = tcp_extra Q (cc_inner c)"
  using assms
  by (auto simp: compio_connect_def compio_tcp_extra_def tcp_extra_def and_then_def
      split: sum.splits option.splits prod.splits)

end
