(* ===== verification/Conversions.thy ===== *)
theory Conversions
  imports Orig_Headers Redirect_Layer Http_Client Response Proxy_Matcher
begin

text \<open>
  The constructors and conversions at the edges of the components: original header names from
  text and names (\<open>src/src/header.rs\<close>), redirect policies and the verdicts of a custom one
  (\<open>src/src/redirect.rs\<close>), bodies from values (\<open>src/src/client/body.rs\<close>), cookies from values
  (\<open>src/src/cookie.rs\<close>), request targets (\<open>src/src/into_uri.rs\<close>), proxy matchers
  (\<open>src/src/proxy/matcher.rs\<close>), the rest of the HTTP client's builder (\<open>src/src/client/layer/client.rs\<close>),
  and the response that becomes a byte stream (\<open>src/src/client/upgrade.rs\<close>).
\<close>

section \<open>Original header names\<close>

definition case_name_of_str :: "string \<Rightarrow> case_name" where
  "case_name_of_str s = Cased s"

definition case_name_of_string :: "string \<Rightarrow> case_name" where
  "case_name_of_string s = Cased s"

definition case_name_of_bytes :: "string \<Rightarrow> case_name" where
  "case_name_of_bytes b = Cased b"

definition case_name_of_header :: "string \<Rightarrow> case_name" where
  "case_name_of_header n = Standard n"

definition case_name_of_case_name :: "case_name \<Rightarrow> case_name" where
  "case_name_of_case_name c = c"

definition orig_new :: "'m case_ops \<Rightarrow> 'm" where
  "orig_new C = co_new C"

definition orig_extend :: "'m case_ops \<Rightarrow> 'm \<Rightarrow> 'm \<Rightarrow> 'm" where
  "orig_extend C m iter = co_extend C m iter"

text \<open>The consuming iterator of \<open>HeaderMap\<close> gives a name once, with its first value.\<close>

definition orig_into_iter :: "'m case_ops \<Rightarrow> 'm \<Rightarrow> (string option \<times> case_name) list" where
  "orig_into_iter C m =
     concat (map (\<lambda>(n, cs). case cs of [] \<Rightarrow> [] | c # cs \<Rightarrow> (Some n, c) # map (Pair None) cs) (co_groups C m))"

fun fill_names :: "string option \<Rightarrow> (string option \<times> 'v) list \<Rightarrow> (string \<times> 'v) list" where
  "fill_names prev [] = []"
| "fill_names prev ((Some n, v) # xs) = (n, v) # fill_names (Some n) xs"
| "fill_names prev ((None, v) # xs) =
     (case prev of Some n \<Rightarrow> (n, v) # fill_names prev xs | None \<Rightarrow> fill_names prev xs)"

text \<open>Both iterators show the same entries in the same order.\<close>

lemma fill_names_rest: "fill_names (Some n) (map (Pair None) cs @ xs) = map (Pair n) cs @ fill_names (Some n) xs"
  by (induction cs) simp_all

lemma orig_iterators_agree:
  "fill_names prev (orig_into_iter C m) = orig_iter C m"
proof -
  let ?into = "\<lambda>gs. concat (map (\<lambda>(n, cs). case cs of [] \<Rightarrow> [] | c # cs \<Rightarrow> (Some n, c) # map (Pair None) cs) gs)"
  have "fill_names prev (?into gs) = concat (map (\<lambda>(n, cs). map (Pair n) cs) gs)" for gs :: "(string \<times> case_name list) list"
    by (induction gs arbitrary: prev) (auto simp: fill_names_rest split: list.split)
  then show ?thesis by (simp add: orig_into_iter_def orig_iter_def)
qed

text \<open>A name written as text keeps its spelling, and is stored only when it is a header name.\<close>

lemma written_name_kept:
  "case_name_bytes (case_name_of_str s) = s" "case_name_bytes (case_name_of_string s) = s"
  "case_name_bytes (case_name_of_bytes s) = s" "case_name_bytes (case_name_of_header s) = s"
  "fst (orig_insert C parse m (case_name_of_str s)) =
     (case parse s of Some n \<Rightarrow> co_append C m n (Cased s) | None \<Rightarrow> m)"
  by (simp_all add: case_name_bytes_def case_name_of_str_def case_name_of_string_def case_name_of_bytes_def
      case_name_of_header_def orig_insert_def split: option.split)

section \<open>Redirect policies\<close>

definition policy_limited :: "nat \<Rightarrow> 'h policy_kind" where
  "policy_limited m = Limit m"

definition policy_none :: "'h policy_kind" where
  "policy_none = PolicyNone"

definition policy_custom :: "('h attempt \<Rightarrow> action) \<Rightarrow> 'h policy_kind" where
  "policy_custom f = Custom f"

definition attempt_follow :: "'h attempt \<Rightarrow> action" where
  "attempt_follow a = Follow"

definition attempt_stop :: "'h attempt \<Rightarrow> action" where
  "attempt_stop a = Stop"

definition attempt_error :: "'h attempt \<Rightarrow> string \<Rightarrow> action" where
  "attempt_error a e = ActError (CustomError e)"

text \<open>The future of \<open>func\<close> on an owned copy of the attempt, ready after \<open>n\<close> polls.\<close>

definition attempt_pending :: "'h attempt \<Rightarrow> nat \<Rightarrow> ('h attempt \<Rightarrow> action) \<Rightarrow> action" where
  "attempt_pending a n func =
     (let owned = \<lparr>at_status = at_status a, at_headers = at_headers a, at_uri = at_uri a, at_previous = at_previous a\<rparr>
      in ActPending n (func owned))"

definition history_iter :: "'h history_entry list \<Rightarrow> 'h history_entry list" where
  "history_iter h = h"

text \<open>The debug text of a policy.\<close>

definition policy_debug :: "(nat \<Rightarrow> string) \<Rightarrow> 'h policy_kind \<Rightarrow> string" where
  "policy_debug show_nat p =
     (case p of Custom _ \<Rightarrow> ''Custom'' | Limit m \<Rightarrow> ''Limit('' @ show_nat m @ '')'' | PolicyNone \<Rightarrow> ''None'')"

text \<open>
  A limit is the custom policy that counts, up to the error it stops with; a policy that answers
  later answers what it would have answered at once.
\<close>

definition counting_policy :: "nat \<Rightarrow> string \<Rightarrow> 'h policy_kind" where
  "counting_policy m e =
     policy_custom (\<lambda>a. if length (at_previous a) > m then attempt_error a e else attempt_follow a)"

lemma limited_as_custom:
  "policy_check (policy_limited m) status hs nxt prev = Follow \<longleftrightarrow>
     policy_check (counting_policy m e) status hs nxt prev = Follow"
  "policy_check (policy_limited m) status hs nxt prev = ActError TooManyRedirects \<longleftrightarrow>
     policy_check (counting_policy m e) status hs nxt prev = ActError (CustomError e)"
  "policy_check policy_none status hs nxt prev = policy_check (policy_custom attempt_stop) status hs nxt prev"
  by (simp_all add: counting_policy_def policy_check_def policy_limited_def policy_none_def
      policy_custom_def attempt_error_def attempt_follow_def attempt_stop_def)

lemma pending_verdict:
  "policy_check (policy_custom (\<lambda>a. attempt_pending a n f)) status hs nxt prev =
     ActPending n (policy_check (policy_custom f) status hs nxt prev)"
  by (simp add: policy_check_def policy_custom_def attempt_pending_def)

section \<open>Bodies\<close>

datatype body_source =
    BytesBody string | VecBody string | SliceBody string | StringBody string | StrBody string
  | BoxedBody foreign_body | FileBody "(std_error + string) list"

text \<open>A file is the stream of chunks that \<open>ReaderStream\<close> reads from it.\<close>

definition body_wrap_stream :: "(std_error + string) list \<Rightarrow> live_body" where
  "body_wrap_stream items = body_stream items"

function body_from :: "body_source \<Rightarrow> live_body" where
  "body_from (BytesBody b) = body_reusable b"
| "body_from (VecBody v) = body_reusable v"
| "body_from (SliceBody s) = body_reusable s"
| "body_from (StringBody s) = body_reusable s"
| "body_from (StrBody s) = body_from (SliceBody s)"
| "body_from (BoxedBody b) = Foreign b"
| "body_from (FileBody chunks) = body_wrap_stream chunks"
  by pat_completeness auto
termination by (relation "measure (\<lambda>s. case s of StrBody _ \<Rightarrow> 1 | _ \<Rightarrow> 0)") simp_all

fun source_bytes :: "body_source \<Rightarrow> string option" where
  "source_bytes (BytesBody b) = Some b"
| "source_bytes (VecBody b) = Some b"
| "source_bytes (SliceBody b) = Some b"
| "source_bytes (StringBody b) = Some b"
| "source_bytes (StrBody b) = Some b"
| "source_bytes _ = None"

text \<open>A body can be sent again exactly when it was made from bytes; then its length is known too.\<close>

lemma body_from_bytes:
  "live_try_clone (body_from s) \<noteq> None \<longleftrightarrow> source_bytes s \<noteq> None"
  "source_bytes s = Some b \<Longrightarrow> body_size (body_from s) = Some (length b)"
  "source_bytes s = Some b \<Longrightarrow> body_collect [] (body_from s) = Inr b"
  by (cases s; simp add: live_try_clone_def body_reusable_def full_new_def body_wrap_stream_def body_stream_def)
    (cases s; simp add: reusable_reads)+

text \<open>A body whose data is converted frame by frame.\<close>

definition into_bytes_frame :: "('d \<Rightarrow> string) \<Rightarrow> ('e + 'd) option \<Rightarrow> ('e + string) option" where
  "into_bytes_frame to_bytes r =
     (case r of Some (Inr f) \<Rightarrow> Some (Inr (to_bytes f)) | Some (Inl e) \<Rightarrow> Some (Inl e) | None \<Rightarrow> None)"

section \<open>Cookies\<close>

text \<open>The accessors show what the cookie crate's own accessors show, which are the fields of the record.\<close>

definition cookie_name :: "cookie \<Rightarrow> string" where
  "cookie_name c = c_name c"

definition cookie_value :: "cookie \<Rightarrow> string" where
  "cookie_value c = c_value c"

definition cookie_path :: "cookie \<Rightarrow> string option" where
  "cookie_path c = c_path c"

definition cookie_domain :: "cookie \<Rightarrow> string option" where
  "cookie_domain c = c_domain c"

text \<open>What \<open>Jar::add\<close> takes: a cookie, one of the cookie crate, or text that it parses.\<close>

datatype cookie_source = OwnCookie cookie | CrateCookie cookie | CookieStr string | CookieString string

fun cookie_from :: "jar_lib \<Rightarrow> cookie_source \<Rightarrow> cookie option" where
  "cookie_from J (OwnCookie c) = Some c"
| "cookie_from J (CrateCookie c) = Some c"
| "cookie_from J (CookieStr s) = cookie_parse J s"
| "cookie_from J (CookieString s) = cookie_parse J s"

section \<open>The HTTP client\<close>

text \<open>
  The parts of the builder that go to other crates: the protocol builders, the pool's timer and the
  cookie store. Setting the options or the timer of a protocol builder is that crate's.
\<close>

record ('h1, 'h2, 't, 's) full_client_builder = client_builder +
  fc_h1_builder :: 'h1
  fc_h2_builder :: 'h2
  fc_pool_timer :: 't
  fc_cookie_store :: "'s option"

definition hb_http2_timer :: "('h2 \<Rightarrow> 't \<Rightarrow> 'h2) \<Rightarrow> ('h1, 'h2, 't, 's) full_client_builder \<Rightarrow> 't \<Rightarrow>
    ('h1, 'h2, 't, 's) full_client_builder" where
  "hb_http2_timer h2_timer b timer = b\<lparr>fc_h2_builder := h2_timer (fc_h2_builder b) timer\<rparr>"

definition hb_http1_options :: "('h1 \<Rightarrow> 'o \<Rightarrow> 'h1) \<Rightarrow> ('h1, 'h2, 't, 's) full_client_builder \<Rightarrow> 'o option \<Rightarrow>
    ('h1, 'h2, 't, 's) full_client_builder" where
  "hb_http1_options h1_options b opts =
     (case opts of Some opts \<Rightarrow> b\<lparr>fc_h1_builder := h1_options (fc_h1_builder b) opts\<rparr> | None \<Rightarrow> b)"

definition hb_http2_options :: "('h2 \<Rightarrow> 'o \<Rightarrow> 'h2) \<Rightarrow> ('h1, 'h2, 't, 's) full_client_builder \<Rightarrow> 'o option \<Rightarrow>
    ('h1, 'h2, 't, 's) full_client_builder" where
  "hb_http2_options h2_options b opts =
     (case opts of Some opts \<Rightarrow> b\<lparr>fc_h2_builder := h2_options (fc_h2_builder b) opts\<rparr> | None \<Rightarrow> b)"

definition hb_pool_timer :: "('h1, 'h2, 't, 's) full_client_builder \<Rightarrow> 't \<Rightarrow> ('h1, 'h2, 't, 's) full_client_builder" where
  "hb_pool_timer b timer = b\<lparr>fc_pool_timer := timer\<rparr>"

definition hb_cookie_store :: "('h1, 'h2, 't, 's) full_client_builder \<Rightarrow> 's option \<Rightarrow> ('h1, 'h2, 't, 's) full_client_builder" where
  "hb_cookie_store b store = b\<lparr>fc_cookie_store := store\<rparr>"

text \<open>A pooled client before its next request; an HTTP/2 sender is always ready.\<close>

definition client_closed :: "('s \<Rightarrow> bool) \<Rightarrow> 's \<Rightarrow> ('h, 's) client_error" where
  "client_closed is_proxy src = client_error_new is_proxy ChannelClosed src"

definition client_tx_error :: "('s \<Rightarrow> bool) \<Rightarrow> 's \<Rightarrow> ('h, 's) client_error" where
  "client_tx_error is_proxy src = client_error_new is_proxy SendRequest src"

definition pc_poll_ready :: "('s \<Rightarrow> bool) \<Rightarrow> (nat \<Rightarrow> ('s + unit) poll) \<Rightarrow> 'h pool_client \<Rightarrow>
    (('h, 's) client_error + unit) poll" where
  "pc_poll_ready is_proxy poll_tx pc =
     (case pc_tx pc of
        TxHttp1 tx \<Rightarrow> map_poll (map_sum (client_closed is_proxy) id) (poll_tx tx)
      | TxHttp2 _ \<Rightarrow> Ready (Inr ()))"

definition pc_is_poisoned :: "(nat \<Rightarrow> bool) \<Rightarrow> 'h pool_client \<Rightarrow> bool" where
  "pc_is_poisoned poisoned pc = poisoned (ci_pill (pc_conn_info pc))"

definition pc_try_send :: "(nat \<Rightarrow> 'q \<Rightarrow> 'f) \<Rightarrow> (nat \<Rightarrow> 'q \<Rightarrow> 'f) \<Rightarrow> 'h pool_client \<Rightarrow> 'q \<Rightarrow> 'f" where
  "pc_try_send send1 send2 pc req =
     (case pc_tx pc of TxHttp1 tx \<Rightarrow> send1 tx req | TxHttp2 tx \<Rightarrow> send2 tx req)"

text \<open>
  The other setters leave the pool's settings and the version alone, so that the client they build
  has the pool that the modelled setters chose.
\<close>

lemma other_setters_keep_pool:
  "client_builder.truncate (hb_http2_timer f2 b tm) = client_builder.truncate b"
  "client_builder.truncate (hb_http1_options o1 b opts) = client_builder.truncate b"
  "client_builder.truncate (hb_http2_options o2 b opts2) = client_builder.truncate b"
  "client_builder.truncate (hb_pool_timer b tm) = client_builder.truncate b"
  "client_builder.truncate (hb_cookie_store b store) = client_builder.truncate b"
  by (simp_all add: hb_http2_timer_def hb_http1_options_def hb_http2_options_def hb_pool_timer_def
      hb_cookie_store_def client_builder.truncate_def split: option.split)

text \<open>A closed HTTP/1 sender is a closed channel, or a proxy error when its cause is one.\<close>

lemma pc_poll_ready_error:
  assumes "pc_poll_ready pe poll_tx pc = Ready (Inl e)"
  shows "pc_is_http1 pc" "ce_kind e = ChannelClosed \<or> ce_kind e = ProxyConnect" "ce_info e = None"
proof -
  obtain tx where tx: "pc_tx pc = TxHttp1 tx"
    and poll: "map_poll (map_sum (client_closed pe) id) (poll_tx tx) = Ready (Inl e)"
    using assms by (auto simp: pc_poll_ready_def split: pool_tx.splits)
  from poll obtain src where "e = client_closed pe src"
    by (cases "poll_tx tx") (auto simp: map_sum_def split: sum.splits)
  with tx show "pc_is_http1 pc" "ce_kind e = ChannelClosed \<or> ce_kind e = ProxyConnect" "ce_info e = None"
    by (simp_all add: pc_is_http1_def pc_is_http2_def client_closed_def client_error_new_def)
qed

section \<open>Request targets\<close>

text \<open>
  The sources of a request URI beside \<open>&str\<close>. Bytes that are no URI are parsed as a URL only if they
  are UTF-8, which \<open>utf8\<close> decides.
\<close>

datatype source_error = NotUtf8 | SourceError uri_error

definition parse_url_bytes :: "uri_lib \<Rightarrow> (string \<Rightarrow> bool) \<Rightarrow> string \<Rightarrow> source_error + uri" where
  "parse_url_bytes L utf8 bytes =
     (if utf8 bytes then map_sum SourceError id (parse_url L bytes) else Inl NotUtf8)"

definition bytes_into_uri :: "uri_lib \<Rightarrow> (string \<Rightarrow> bool) \<Rightarrow> string \<Rightarrow> source_error + uri" where
  "bytes_into_uri L utf8 bytes =
     and_then (case lib_uri_parse L bytes of Some u \<Rightarrow> Inr u | None \<Rightarrow> parse_url_bytes L utf8 bytes)
       (\<lambda>u. map_sum SourceError id (check_uri u))"

definition vec_into_uri :: "uri_lib \<Rightarrow> (string \<Rightarrow> bool) \<Rightarrow> string \<Rightarrow> source_error + uri" where
  "vec_into_uri L utf8 vec =
     (let bytes = vec
      in and_then (case lib_uri_parse L bytes of Some u \<Rightarrow> Inr u | None \<Rightarrow> parse_url_bytes L utf8 bytes)
           (\<lambda>u. map_sum SourceError id (check_uri u)))"

definition string_into_uri :: "uri_lib \<Rightarrow> (string \<Rightarrow> bool) \<Rightarrow> string \<Rightarrow> source_error + uri" where
  "string_into_uri L utf8 s = vec_into_uri L utf8 s"

definition string_ref_into_uri :: "uri_lib \<Rightarrow> string \<Rightarrow> uri_error + uri" where
  "string_ref_into_uri L s = into_uri L s"

definition uri_ref_into_uri :: "uri \<Rightarrow> uri_error + uri" where
  "uri_ref_into_uri u =
     (case (scheme u, authority u) of
        (Some _, Some _) \<Rightarrow> Inr u
      | _ \<Rightarrow> Inl (UriBadScheme u))"

text \<open>However a target is written, it becomes the same URI, or fails in the same way.\<close>

lemma uri_sources_agree:
  assumes "utf8 s"
  shows "string_into_uri L utf8 s = map_sum SourceError id (into_uri L s)"
    and "bytes_into_uri L utf8 s = string_into_uri L utf8 s"
    and "string_ref_into_uri L s = into_uri L s" and "uri_ref_into_uri u = check_uri u"
  using assms
  by (auto simp: string_into_uri_def vec_into_uri_def bytes_into_uri_def parse_url_bytes_def into_uri_def
      string_ref_into_uri_def uri_ref_into_uri_def check_uri_def and_then_def Let_def
      split: option.split sum.split)

lemma bytes_target_absolute:
  "bytes_into_uri L utf8 b = Inr u \<Longrightarrow> scheme u \<noteq> None \<and> authority u \<noteq> None"
  by (auto simp: bytes_into_uri_def and_then_Inr_iff check_uri_def map_sum_def split: sum.splits option.splits)

section \<open>Proxy matchers\<close>

text \<open>A value of any of the text types is its text.\<close>

datatype text_value = OwnedText string | OwnedRef string | BorrowedText string

fun into_value :: "text_value \<Rightarrow> string" where
  "into_value (OwnedText s) = s"
| "into_value (OwnedRef s) = s"
| "into_value (BorrowedText s) = s"

definition mb_set_all :: "matcher_builder \<Rightarrow> text_value \<Rightarrow> matcher_builder" where
  "mb_set_all b v = b\<lparr>mb_all := into_value v\<rparr>"

definition mb_set_http :: "matcher_builder \<Rightarrow> text_value \<Rightarrow> matcher_builder" where
  "mb_set_http b v = b\<lparr>mb_http := into_value v\<rparr>"

definition mb_set_https :: "matcher_builder \<Rightarrow> text_value \<Rightarrow> matcher_builder" where
  "mb_set_https b v = b\<lparr>mb_https := into_value v\<rparr>"

definition mb_set_no :: "matcher_builder \<Rightarrow> text_value \<Rightarrow> matcher_builder" where
  "mb_set_no b v = b\<lparr>mb_no := into_value v\<rparr>"

definition mb_set_unix :: "matcher_builder \<Rightarrow> string \<Rightarrow> matcher_builder" where
  "mb_set_unix b p = b\<lparr>mb_unix := Some p\<rparr>"

definition no_proxy_of_string :: "string \<Rightarrow> string option" where
  "no_proxy_of_string no_proxy_list = Some no_proxy_list"

text \<open>
  A builder with only \<open>all\<close> proxies both schemes alike, one with a scheme's own value leaves \<open>all\<close> to
  the other scheme.
\<close>

lemma all_fills_gaps:
  fixes e :: "'h extra"
  assumes "parse_env_uri X [] = (None :: 'h intercept option)"
  shows "mt_http (mb_build X (mb_set_all mb_default v) e) = mt_https (mb_build X (mb_set_all mb_default v) e)"
    and "parse_env_uri X (into_value w) = Some i \<Longrightarrow>
      mt_http (mb_build X (mb_set_http (mb_set_all mb_default v) w) e) = Some (i\<lparr>ic_extra := e\<rparr>)"
    and "parse_env_uri X (into_value w) = Some (i :: 'h intercept) \<Longrightarrow>
      mt_https (mb_build X (mb_set_http (mb_set_all mb_default v) w) e) =
        mt_https (mb_build X (mb_set_all mb_default v) e)"
  using assms
  by (simp_all add: mb_build_def mb_set_all_def mb_set_http_def mb_default_def with_extra_def Let_def)

section \<open>Upgrades\<close>

definition response_upgrade :: "('h http_response \<Rightarrow> std_error + 'up) \<Rightarrow> 'h full_response \<Rightarrow> std_error + 'up" where
  "response_upgrade on r = map_sum err_upgrade id (on (http_of_response r))"

lemma response_upgrade_error:
  "response_upgrade on r = Inl e \<Longrightarrow> \<exists>s. e = err_upgrade s \<and> on (http_of_response r) = Inl s"
  by (cases "on (http_of_response r)") (auto simp: response_upgrade_def)

end
