(* ===== verification/Ws_Guard.thy ===== *)
theory Ws_Guard
  imports Core_Websocket Transitions
begin

text \<open>
  The halves of a WebSocket between threads (\<open>SocketGuard\<close>, \<open>sender\<close>, \<open>receiver\<close> and \<open>abort\<close> of
  \<open>src/crates/tlsurl-core/src/websocket.rs\<close>). Each half sits in a mutex; an operation holds its guard
  across awaits, and \<open>abort\<close>, which must not wait, tries the lock. The points where another thread may
  act are steps of their own: a guard's drop tests the token and clears the slot, and only then is
  the mutex released.
\<close>

section \<open>Guards\<close>

datatype ws_half = TxHalf | RxHalf

datatype guard_phase = Unlocked | Guarded nat | Unlocking nat

datatype abort_phase = NoAbort | Trying ws_half

record 'a ws_locks =
  wl_cancelled :: bool
  wl_slot :: "ws_half \<Rightarrow> 'a option"
  wl_lock :: "ws_half \<Rightarrow> guard_phase"
  wl_abort :: "nat \<Rightarrow> abort_phase"

definition guard_take :: "nat \<Rightarrow> ws_half \<Rightarrow> 'a ws_locks \<Rightarrow> 'a ws_locks" where
  "guard_take t h s = s\<lparr>wl_lock := (wl_lock s)(h := Guarded t)\<rparr>"

definition ws_sender :: "nat \<Rightarrow> 'a ws_locks \<Rightarrow> 'a ws_locks" where
  "ws_sender t = guard_take t TxHalf"

definition ws_receiver :: "nat \<Rightarrow> 'a ws_locks \<Rightarrow> 'a ws_locks" where
  "ws_receiver t = guard_take t RxHalf"

text \<open>What an operation does through \<open>as_mut()\<close>: it moves the socket on, if the slot has one.\<close>

definition guard_use :: "('a \<Rightarrow> 'a) \<Rightarrow> ws_half \<Rightarrow> 'a ws_locks \<Rightarrow> 'a ws_locks" where
  "guard_use f h s = s\<lparr>wl_slot := (wl_slot s)(h := map_option f (wl_slot s h))\<rparr>"

definition guard_drop :: "nat \<Rightarrow> ws_half \<Rightarrow> 'a ws_locks \<Rightarrow> 'a ws_locks" where
  "guard_drop t h s =
     (let s = (if wl_cancelled s then s\<lparr>wl_slot := (wl_slot s)(h := None)\<rparr> else s)
      in s\<lparr>wl_lock := (wl_lock s)(h := Unlocking t)\<rparr>)"

definition guard_release :: "ws_half \<Rightarrow> 'a ws_locks \<Rightarrow> 'a ws_locks" where
  "guard_release h s = s\<lparr>wl_lock := (wl_lock s)(h := Unlocked)\<rparr>"

section \<open>Aborting\<close>

definition abort_begin :: "nat \<Rightarrow> 'a ws_locks \<Rightarrow> 'a ws_locks" where
  "abort_begin t s = s\<lparr>wl_cancelled := True, wl_abort := (wl_abort s)(t := Trying TxHalf)\<rparr>"

text \<open>One \<open>try_lock\<close>: the sending half first, then the receiving half, then \<open>abort\<close> is over.\<close>

definition abort_try :: "nat \<Rightarrow> ws_half \<Rightarrow> 'a ws_locks \<Rightarrow> 'a ws_locks" where
  "abort_try t h s =
     (let s = (if wl_lock s h = Unlocked then s\<lparr>wl_slot := (wl_slot s)(h := None)\<rparr> else s)
      in s\<lparr>wl_abort := (wl_abort s)(t := (case h of TxHalf \<Rightarrow> Trying RxHalf | RxHalf \<Rightarrow> NoAbort))\<rparr>)"

inductive ws_lock_step :: "'a ws_locks \<Rightarrow> 'a ws_locks \<Rightarrow> bool" where
  lock_sender: "wl_lock s TxHalf = Unlocked \<Longrightarrow> ws_lock_step s (ws_sender t s)"
| lock_receiver: "wl_lock s RxHalf = Unlocked \<Longrightarrow> ws_lock_step s (ws_receiver t s)"
| use_half: "wl_lock s h = Guarded t \<Longrightarrow> ws_lock_step s (guard_use f h s)"
| drop_guard: "wl_lock s h = Guarded t \<Longrightarrow> ws_lock_step s (guard_drop t h s)"
| release_half: "wl_lock s h = Unlocking t \<Longrightarrow> ws_lock_step s (guard_release h s)"
| begin_abort: "wl_abort s t = NoAbort \<Longrightarrow> ws_lock_step s (abort_begin t s)"
| try_half: "wl_abort s t = Trying h \<Longrightarrow> ws_lock_step s (abort_try t h s)"

inductive_cases ws_lock_stepE: "ws_lock_step s s'"

definition ws_locks_new :: "'a \<Rightarrow> 'a \<Rightarrow> 'a ws_locks" where
  "ws_locks_new sink stream =
     \<lparr>wl_cancelled = False, wl_slot = (\<lambda>h. case h of TxHalf \<Rightarrow> Some sink | RxHalf \<Rightarrow> Some stream),
      wl_lock = (\<lambda>_. Unlocked), wl_abort = (\<lambda>_. NoAbort)\<rparr>"

section \<open>Invariants\<close>

lemmas guard_steps =
  guard_take_def ws_sender_def ws_receiver_def guard_use_def guard_drop_def guard_release_def
  abort_begin_def abort_try_def

text \<open>Whoever is aborting has cancelled the token, which is never reset.\<close>

definition aborts_cancelled :: "'a ws_locks \<Rightarrow> bool" where
  "aborts_cancelled s \<longleftrightarrow> (\<forall>t. wl_abort s t \<noteq> NoAbort \<longrightarrow> wl_cancelled s)"

lemma aborts_cancelled_step: "ws_lock_step s s' \<Longrightarrow> aborts_cancelled s \<Longrightarrow> aborts_cancelled s'"
  by (erule ws_lock_stepE) (auto simp: guard_steps aborts_cancelled_def Let_def split: if_splits)

interpretation ws_locks: step_invariant "\<lambda>s. \<exists>a b. s = ws_locks_new a b" ws_lock_step aborts_cancelled
proof (unfold_locales, goal_cases)
  case (1 s)
  then show ?case by (auto simp: ws_locks_new_def aborts_cancelled_def)
next
  case (2 s s')
  then show ?case by (rule aborts_cancelled_step)
qed

text \<open>A half that can no longer be kept: its slot is empty, or a guard that will empty it holds it.\<close>

definition doomed :: "ws_half \<Rightarrow> 'a ws_locks \<Rightarrow> bool" where
  "doomed h s \<longleftrightarrow> wl_cancelled s \<and> (wl_slot s h = None \<or> (\<exists>t. wl_lock s h = Guarded t))"

lemma doomed_step: "ws_lock_step s s' \<Longrightarrow> doomed h s \<Longrightarrow> doomed h s'"
  by (erule ws_lock_stepE) (auto simp: guard_steps doomed_def Let_def split: if_splits)

lemma doomed_kept:
  assumes "ws_lock_step\<^sup>*\<^sup>* s s'" and "aborts_cancelled s" and "doomed h s"
  shows "doomed h s'"
  using ws_locks.kept [OF assms(1,2), of "doomed h"] assms(3) doomed_step by blast

lemma doomed_try:
  "wl_cancelled s \<Longrightarrow> (\<And>u. wl_lock s h \<noteq> Unlocking u) \<Longrightarrow> doomed h (abort_try t h s)"
  by (cases "wl_lock s h") (auto simp: doomed_def abort_try_def Let_def)

text \<open>
  C28. Once an abort has tried a half of the socket while no guard of it was being dropped, the half is
  empty whenever no operation holds it, and stays so, whatever the threads do: an operation that
  holds the half then empties it as it ends.
\<close>

theorem aborted_half_released:
  assumes "ws_lock_step\<^sup>*\<^sup>* (ws_locks_new sink stream) s" and "wl_abort s t = Trying h"
    and "\<And>u. wl_lock s h \<noteq> Unlocking u"
    and "ws_lock_step\<^sup>*\<^sup>* (abort_try t h s) s'" and "\<And>u. wl_lock s' h \<noteq> Guarded u"
  shows "wl_cancelled s' \<and> wl_slot s' h = None"
proof -
  have inv: "aborts_cancelled s" using ws_locks.reached [OF assms(1)] by blast
  with assms(2) have "wl_cancelled s" by (auto simp: aborts_cancelled_def)
  with assms(3) have "doomed h (abort_try t h s)" by (blast intro: doomed_try)
  moreover have "aborts_cancelled (abort_try t h s)"
    using inv assms(2) by (blast intro: aborts_cancelled_step try_half)
  ultimately have "doomed h s'" using assms(4) doomed_kept by blast
  with assms(5) show ?thesis by (auto simp: doomed_def)
qed

text \<open>An abort that finds both halves free is the one the operations of \<open>Core_Websocket\<close> use.\<close>

definition core_of :: "core_ws \<Rightarrow> 'a ws_locks \<Rightarrow> core_ws" where
  "core_of st s =
     st\<lparr>cw_cancelled := wl_cancelled s, cw_tx := wl_slot s TxHalf \<noteq> None, cw_rx := wl_slot s RxHalf \<noteq> None\<rparr>"

definition abort_now :: "nat \<Rightarrow> 'a ws_locks \<Rightarrow> 'a ws_locks" where
  "abort_now t s = abort_try t RxHalf (abort_try t TxHalf (abort_begin t s))"

lemma free_abort_refines:
  assumes "wl_lock s TxHalf = Unlocked" and "wl_lock s RxHalf = Unlocked" and "wl_abort s t = NoAbort"
  shows "core_of st (abort_now t s) = ws_abort (core_of st s)" and "ws_lock_step\<^sup>*\<^sup>* s (abort_now t s)"
proof -
  show "core_of st (abort_now t s) = ws_abort (core_of st s)"
    using assms by (simp add: core_of_def abort_now_def ws_abort_def guard_steps Let_def)
  have "ws_lock_step s (abort_begin t s)" using assms(3) by (rule begin_abort)
  moreover have "ws_lock_step (abort_begin t s) (abort_try t TxHalf (abort_begin t s))"
    by (rule try_half) (simp add: abort_begin_def)
  moreover have "ws_lock_step (abort_try t TxHalf (abort_begin t s)) (abort_now t s)"
    unfolding abort_now_def by (rule try_half) (simp add: abort_begin_def abort_try_def Let_def)
  ultimately show "ws_lock_step\<^sup>*\<^sup>* s (abort_now t s)" by (blast intro: rtranclp.rtrancl_into_rtrancl)
qed

section \<open>A run, and the race\<close>

text \<open>
  Thread 1 sends; thread 2 aborts. \<open>held\<close> is the abort's first \<open>try_lock\<close> while thread 1 holds the
  guard, \<open>raced\<close> the same between the test of thread 1's guard and the release of its mutex.
\<close>

definition opened :: "nat ws_locks" where
  "opened = ws_locks_new 10 20"

definition held :: "nat ws_locks" where
  "held = abort_begin 2 (ws_sender 1 opened)"

definition raced :: "nat ws_locks" where
  "raced = abort_begin 2 (guard_drop 1 TxHalf (ws_sender 1 opened))"

lemma sending_step: "ws_lock_step opened (ws_sender 1 opened)"
  by (rule lock_sender) (simp add: opened_def ws_locks_new_def)

lemma held_reached: "ws_lock_step\<^sup>*\<^sup>* opened held"
proof -
  have "ws_lock_step (ws_sender 1 opened) held"
    unfolding held_def by (rule begin_abort) (simp add: opened_def ws_locks_new_def guard_steps)
  with sending_step show ?thesis by (rule converse_rtranclp_into_rtranclp [OF _ r_into_rtranclp])
qed

lemma held_released: "ws_lock_step\<^sup>*\<^sup>* (abort_try 2 TxHalf held) (guard_drop 1 TxHalf (abort_try 2 TxHalf held))"
  by (rule r_into_rtranclp, rule drop_guard) (simp add: held_def opened_def ws_locks_new_def guard_steps)

lemma aborted_half_released_witness:
  "wl_slot (guard_drop 1 TxHalf (abort_try 2 TxHalf held)) TxHalf = None"
  using aborted_half_released [OF held_reached [unfolded opened_def] _ _ held_released]
  by (simp add: held_def opened_def ws_locks_new_def guard_steps Let_def)

text \<open>
  When the abort falls between a guard's test of the token and the release of its mutex, nothing
  empties the slot: the abort is over, nobody holds the half, and the socket is still there, until the
  next operation takes the guard.
\<close>

lemma abort_between_test_and_release:
  "ws_lock_step\<^sup>*\<^sup>* opened (guard_release TxHalf (abort_try 2 RxHalf (abort_try 2 TxHalf raced)))"
  "wl_slot (guard_release TxHalf (abort_try 2 RxHalf (abort_try 2 TxHalf raced))) TxHalf = Some 10"
  "wl_lock (guard_release TxHalf (abort_try 2 RxHalf (abort_try 2 TxHalf raced))) TxHalf = Unlocked"
  "wl_abort (guard_release TxHalf (abort_try 2 RxHalf (abort_try 2 TxHalf raced))) 2 = NoAbort"
proof -
  let ?s1 = "ws_sender 1 opened" and ?s2 = "guard_drop 1 TxHalf (ws_sender 1 opened)"
  let ?s4 = "abort_try 2 TxHalf raced"
  let ?s5 = "abort_try 2 RxHalf ?s4"
  note defs = raced_def opened_def ws_locks_new_def guard_steps Let_def
  have "ws_lock_step ?s1 ?s2" by (rule drop_guard) (simp add: defs)
  moreover have "ws_lock_step ?s2 raced" unfolding raced_def by (rule begin_abort) (simp add: defs)
  moreover have "ws_lock_step raced ?s4" by (rule try_half) (simp add: defs)
  moreover have "ws_lock_step ?s4 ?s5" by (rule try_half) (simp add: defs)
  moreover have "ws_lock_step ?s5 (guard_release TxHalf ?s5)" by (rule release_half [where t = 1]) (simp add: defs)
  ultimately show "ws_lock_step\<^sup>*\<^sup>* opened (guard_release TxHalf ?s5)"
    using sending_step by (meson rtranclp.rtrancl_into_rtrancl rtranclp.rtrancl_refl)
qed (simp_all add: raced_def opened_def ws_locks_new_def guard_steps Let_def)

lemma next_operation_releases:
  assumes "wl_cancelled s"
  shows "wl_slot (guard_drop t h (guard_take t h s)) h = None"
  using assms by (simp add: guard_take_def guard_drop_def Let_def)

end
